(* ===== verification/Prelude.thy ===== *)
theory Prelude
  imports Main "HOL-Library.Word" "HOL-Library.AList" "HOL-Library.Signed_Division"
begin

text \<open>
  Shared vocabulary of the development.

  \<^item> Instants: a Go \<open>time.Time\<close> is the integer number of nanoseconds since the zero time, so
    that \<open>IsZero\<close> is equality with \<open>0\<close>, \<open>Before\<close>/\<open>After\<close> are \<open><\<close>/\<open>>\<close> and \<open>Add\<close> is \<open>+\<close>.
    \<open>Sub\<close> saturates at the limits of the 64-bit \<open>time.Duration\<close> and is \<open>time_sub\<close>.
  \<^item> Strings are byte strings (\<open>string\<close>, a list of 8-bit characters), as Go's are.
  \<^item> Go's built-in maps are association lists with distinct keys; their order stands for the
    iteration order of the runtime, which is unspecified, so every theorem holds for each order.
  \<^item> \<open>strings.TrimSpace\<close>, \<open>strconv.Itoa\<close>, \<open>strconv.Atoi\<close> and \<open>utf8.ValidString\<close> are modelled on bytes.
\<close>

section \<open>Collections of rewrite rules\<close>

named_theorems gw_defs \<open>definitions of small helpers that the proofs of the clients unfold\<close>

named_theorems gw_inv \<open>preservation lemmas for the invariants of the components\<close>

section \<open>Time and machine integers\<close>

type_synonym time = int
type_synonym duration = int

abbreviation millisecond :: duration where "millisecond \<equiv> 1000000"
abbreviation second :: duration where "second \<equiv> 1000000000"
abbreviation minute :: duration where "minute \<equiv> 60000000000"
abbreviation hour :: duration where "hour \<equiv> 3600000000000"

definition wrap64 :: "int \<Rightarrow> int" where
  "wrap64 x = signed_take_bit 63 x"

definition max_int64 :: int where "max_int64 = 9223372036854775807"
definition min_int64 :: int where "min_int64 = - 9223372036854775808"

definition time_sub :: "time \<Rightarrow> time \<Rightarrow> duration" where
  "time_sub a b = max min_int64 (min max_int64 (a - b))"

definition seconds_trunc :: "duration \<Rightarrow> int" where
  "seconds_trunc d = d sdiv second"

lemma wrap64_id: "min_int64 \<le> x \<Longrightarrow> x \<le> max_int64 \<Longrightarrow> wrap64 x = x"
  unfolding wrap64_def min_int64_def max_int64_def
  by (rule signed_take_bit_int_eq_self) simp_all

lemma time_sub_exact:
  "min_int64 \<le> a - b \<Longrightarrow> a - b \<le> max_int64 \<Longrightarrow> time_sub a b = a - b"
  by (simp add: time_sub_def)

lemma time_sub_less_iff:
  "c \<le> max_int64 \<Longrightarrow> min_int64 \<le> c \<Longrightarrow> c < time_sub a b \<longleftrightarrow> c < a - b \<and> c < max_int64"
  by (auto simp: time_sub_def max_int64_def min_int64_def)

lemma time_sub_nonneg_iff [simp]: "0 \<le> time_sub a b \<longleftrightarrow> b \<le> a"
  by (auto simp: time_sub_def max_int64_def min_int64_def)

lemma sdiv_nonneg: "0 \<le> (a::int) \<Longrightarrow> 0 < b \<Longrightarrow> a sdiv b = a div b"
  by (simp add: signed_divide_int_def sgn_mult zdiv_int
      flip: sgn_mult) (auto simp: sgn_if zero_less_mult_iff mult_less_0_iff div_int_pos_iff)

lemma seconds_trunc_nonneg: "0 \<le> d \<Longrightarrow> seconds_trunc d = d div second"
  by (simp add: seconds_trunc_def sdiv_nonneg)

section \<open>Byte strings\<close>

abbreviation byte :: "char \<Rightarrow> nat" where "byte c \<equiv> of_char c"

text \<open>
  \<open>is_space_rune bs\<close>: the bytes \<open>bs\<close> are the UTF-8 encoding of one code point with the
  Unicode property White\_Space, the set that \<open>unicode.IsSpace\<close> decides.
\<close>

definition is_space_rune :: "string \<Rightarrow> bool" where
  "is_space_rune s = (case map byte s of
      [a] \<Rightarrow> a \<in> {9, 10, 11, 12, 13, 32}
    | [a, b] \<Rightarrow> a = 194 \<and> (b = 133 \<or> b = 160)
    | [a, b, c] \<Rightarrow>
        (a = 225 \<and> b = 154 \<and> c = 128)
        \<or> (a = 226 \<and> b = 128 \<and> (128 \<le> c \<and> c \<le> 138 \<or> c = 168 \<or> c = 169 \<or> c = 175))
        \<or> (a = 226 \<and> b = 129 \<and> c = 159)
        \<or> (a = 227 \<and> b = 128 \<and> c = 128)
    | _ \<Rightarrow> False)"

definition last_n :: "nat \<Rightarrow> 'a list \<Rightarrow> 'a list" where
  "last_n n xs = drop (length xs - n) xs"

definition space_prefix :: "string \<Rightarrow> nat" where
  "space_prefix s = (if is_space_rune (take 1 s) then 1
     else if is_space_rune (take 2 s) then 2
     else if is_space_rune (take 3 s) then 3 else 0)"

definition space_suffix :: "string \<Rightarrow> nat" where
  "space_suffix s = (if is_space_rune (last_n 1 s) then 1
     else if is_space_rune (last_n 2 s) then 2
     else if is_space_rune (last_n 3 s) then 3 else 0)"

lemma not_space_Nil [simp]: "\<not> is_space_rune []"
  by (simp add: is_space_rune_def)

lemma space_prefix_pos: "space_prefix s \<noteq> 0 \<Longrightarrow> s \<noteq> []"
  by (auto simp: space_prefix_def split: if_splits)

lemma space_suffix_pos: "space_suffix s \<noteq> 0 \<Longrightarrow> s \<noteq> []"
  by (auto simp: space_suffix_def last_n_def split: if_splits)

lemma space_suffix_shrinks: "0 < space_suffix s \<Longrightarrow> length s \<le> length s - space_suffix s \<Longrightarrow> False"
  using space_suffix_pos [of s] by (cases s) auto

function trim_left :: "string \<Rightarrow> string" where
  "trim_left s = (if space_prefix s = 0 then s else trim_left (drop (space_prefix s) s))"
  by pat_completeness auto
termination
  by (relation "measure length") (use space_prefix_pos in auto)

function trim_right :: "string \<Rightarrow> string" where
  "trim_right s = (if space_suffix s = 0 then s
     else trim_right (take (length s - space_suffix s) s))"
  by pat_completeness auto
termination
  by (relation "measure length") (auto simp: not_less dest: space_suffix_shrinks)

declare trim_left.simps [simp del] trim_right.simps [simp del]

definition trim_space :: "string \<Rightarrow> string" where
  "trim_space s = trim_right (trim_left s)"

lemma space_prefix_trim_left: "space_prefix (trim_left s) = 0"
  by (induction s rule: trim_left.induct) (subst trim_left.simps, auto)

lemma space_suffix_trim_right: "space_suffix (trim_right s) = 0"
  by (induction s rule: trim_right.induct) (subst trim_right.simps, auto)

lemma trim_left_id: "space_prefix s = 0 \<Longrightarrow> trim_left s = s"
  by (simp add: trim_left.simps)

lemma trim_right_id: "space_suffix s = 0 \<Longrightarrow> trim_right s = s"
  by (simp add: trim_right.simps)

lemma trim_right_prefix: "\<exists>n. trim_right s = take n s"
proof (induction s rule: trim_right.induct)
  case (1 s)
  show ?case
  proof (cases "space_suffix s = 0")
    case True
    then show ?thesis by (auto simp: trim_right_id intro: exI [of _ "length s"])
  next
    case False
    with 1 obtain n where "trim_right (take (length s - space_suffix s) s)
        = take n (take (length s - space_suffix s) s)" by blast
    with False show ?thesis by (subst trim_right.simps) (auto simp: take_take)
  qed
qed

lemma space_prefix_0_iff:
  "space_prefix s = 0 \<longleftrightarrow> \<not> is_space_rune (take 1 s) \<and> \<not> is_space_rune (take 2 s)
     \<and> \<not> is_space_rune (take 3 s)"
  by (auto simp: space_prefix_def)

lemma space_prefix_take: "space_prefix s = 0 \<Longrightarrow> space_prefix (take n s) = 0"
proof -
  assume s: "space_prefix s = 0"
  have "\<not> is_space_rune (take (min k n) s)" if "k \<in> {1, 2, 3}" for k
  proof -
    have "min k n \<in> {0, 1, 2, 3}" using that by (auto simp: min_def)
    with s show ?thesis by (auto simp: space_prefix_0_iff)
  qed
  then show ?thesis by (auto simp: space_prefix_0_iff take_take)
qed

theorem trim_space_idem: "trim_space (trim_space s) = trim_space s"
proof -
  obtain n where n: "trim_right (trim_left s) = take n (trim_left s)"
    using trim_right_prefix by blast
  have "space_prefix (trim_space s) = 0"
    by (simp add: trim_space_def n space_prefix_take space_prefix_trim_left)
  moreover have "space_suffix (trim_space s) = 0"
    by (simp add: trim_space_def space_suffix_trim_right)
  ultimately show ?thesis
    by (simp add: trim_space_def [of "trim_space s"] trim_left_id trim_right_id)
qed

text \<open>A string of printable ASCII bytes is left alone by \<open>trim_space\<close>.\<close>

definition graph_ascii :: "char \<Rightarrow> bool" where
  "graph_ascii c \<longleftrightarrow> 33 \<le> byte c \<and> byte c \<le> 126"

lemma graph_ascii_no_space:
  "list_all graph_ascii s \<Longrightarrow> \<not> is_space_rune s"
  by (auto simp: is_space_rune_def graph_ascii_def split: list.splits)

lemma trim_space_graph: "list_all graph_ascii s \<Longrightarrow> trim_space s = s"
proof -
  assume a: "list_all graph_ascii s"
  then have p: "list_all graph_ascii (take n s)" "list_all graph_ascii (drop n s)" for n
    by (auto simp: list_all_iff dest: in_set_takeD in_set_dropD)
  then have "space_prefix s = 0" "space_suffix s = 0"
    by (auto simp: space_prefix_def space_suffix_def last_n_def graph_ascii_no_space)
  then show ?thesis by (simp add: trim_space_def trim_left_id trim_right_id)
qed

lemma space_rune_no_graph: "is_space_rune s \<Longrightarrow> c \<in> set s \<Longrightarrow> \<not> graph_ascii c"
  by (auto simp: is_space_rune_def graph_ascii_def split: list.splits)

lemma space_prefix_rune: "space_prefix s \<noteq> 0 \<Longrightarrow> is_space_rune (take (space_prefix s) s)"
  by (auto simp: space_prefix_def split: if_splits)

lemma space_suffix_rune: "space_suffix s \<noteq> 0 \<Longrightarrow> is_space_rune (drop (length s - space_suffix s) s)"
  by (auto simp: space_suffix_def last_n_def split: if_splits)

lemma trim_left_keeps: "graph_ascii c \<Longrightarrow> c \<in> set s \<Longrightarrow> c \<in> set (trim_left s)"
proof (induction s rule: trim_left.induct)
  case (1 s)
  show ?case
  proof (cases "space_prefix s = 0")
    case False
    have "c \<in> set (take (space_prefix s) s) \<or> c \<in> set (drop (space_prefix s) s)"
      using 1(3) by (metis Un_iff append_take_drop_id set_append)
    with False 1(2) have "c \<in> set (drop (space_prefix s) s)"
      using space_rune_no_graph [OF space_prefix_rune] by blast
    with False 1 show ?thesis by (subst trim_left.simps) simp
  qed (use 1 in \<open>simp add: trim_left.simps\<close>)
qed

lemma trim_right_keeps: "graph_ascii c \<Longrightarrow> c \<in> set s \<Longrightarrow> c \<in> set (trim_right s)"
proof (induction s rule: trim_right.induct)
  case (1 s)
  let ?n = "length s - space_suffix s"
  show ?case
  proof (cases "space_suffix s = 0")
    case False
    have "c \<in> set (take ?n s) \<or> c \<in> set (drop ?n s)"
      using 1(3) by (metis Un_iff append_take_drop_id set_append)
    with False 1(2) have "c \<in> set (take ?n s)"
      using space_rune_no_graph [OF space_suffix_rune] by blast
    with False 1 show ?thesis by (subst trim_right.simps) simp
  qed (use 1 in \<open>simp add: trim_right.simps\<close>)
qed

lemma trim_space_keeps: "graph_ascii c \<Longrightarrow> c \<in> set s \<Longrightarrow> c \<in> set (trim_space s)"
  by (simp add: trim_space_def trim_left_keeps trim_right_keeps)

definition upper_ascii :: "char \<Rightarrow> char" where
  "upper_ascii c = (if 97 \<le> byte c \<and> byte c \<le> 122 then char_of (byte c - 32) else c)"

definition lower_ascii :: "char \<Rightarrow> char" where
  "lower_ascii c = (if 65 \<le> byte c \<and> byte c \<le> 90 then char_of (byte c + 32) else c)"

abbreviation to_upper :: "string \<Rightarrow> string" where "to_upper \<equiv> map upper_ascii"
abbreviation to_lower :: "string \<Rightarrow> string" where "to_lower \<equiv> map lower_ascii"

section \<open>Decimal numerals\<close>

definition digit :: "nat \<Rightarrow> char" where
  "digit d = char_of (48 + d)"

definition digit_val :: "char \<Rightarrow> nat option" where
  "digit_val c = (if 48 \<le> byte c \<and> byte c \<le> 57 then Some (byte c - 48) else None)"

fun itoa_nat :: "nat \<Rightarrow> string" where
  "itoa_nat n = (if n < 10 then [digit n] else itoa_nat (n div 10) @ [digit (n mod 10)])"

declare itoa_nat.simps [simp del]

definition itoa :: "int \<Rightarrow> string" where
  "itoa i = (if i < 0 then CHR ''-'' # itoa_nat (nat (- i)) else itoa_nat (nat i))"

fun atoi_digits :: "nat \<Rightarrow> string \<Rightarrow> nat option" where
  "atoi_digits acc [] = Some acc"
| "atoi_digits acc (c # cs) = (case digit_val c of
     None \<Rightarrow> None | Some d \<Rightarrow> atoi_digits (10 * acc + d) cs)"

text \<open>\<open>strconv.Atoi\<close>: an optional sign, at least one decimal digit, and the value in range.\<close>

definition atoi :: "string \<Rightarrow> int option" where
  "atoi s = (let (neg, ds) = (case s of [] \<Rightarrow> (False, [])
        | c # cs \<Rightarrow> if c = CHR ''-'' then (True, cs)
                    else if c = CHR ''+'' then (False, cs) else (False, s))
     in if ds = [] then None
        else case atoi_digits 0 ds of None \<Rightarrow> None
          | Some n \<Rightarrow> let v = (if neg then - int n else int n)
                      in if min_int64 \<le> v \<and> v \<le> max_int64 then Some v else None)"

lemma digit_val_digit [simp]: "d < 10 \<Longrightarrow> digit_val (digit d) = Some d"
  by (simp add: digit_val_def digit_def)

lemma atoi_digits_append:
  "atoi_digits acc (xs @ ys) = Option.bind (atoi_digits acc xs) (\<lambda>a. atoi_digits a ys)"
  by (induction acc xs rule: atoi_digits.induct) (auto split: option.splits)

lemma atoi_digits_itoa: "atoi_digits 0 (itoa_nat n) = Some n"
proof (induction n rule: itoa_nat.induct)
  case (1 n)
  then show ?case by (subst itoa_nat.simps) (simp add: atoi_digits_append)
qed

lemma itoa_nat_digits: "c \<in> set (itoa_nat n) \<Longrightarrow> 48 \<le> byte c \<and> byte c \<le> 57"
proof (induction n rule: itoa_nat.induct)
  case (1 n)
  then show ?case by (subst (asm) itoa_nat.simps) (auto simp: digit_def split: if_splits)
qed

lemma itoa_nat_nonempty [simp]: "itoa_nat n \<noteq> []"
  by (subst itoa_nat.simps) simp

lemma itoa_graph: "list_all graph_ascii (itoa i)"
  by (auto simp: itoa_def list_all_iff graph_ascii_def dest: itoa_nat_digits)

theorem atoi_itoa:
  assumes "min_int64 \<le> i" "i \<le> max_int64"
  shows "atoi (itoa i) = Some i"
proof (cases "i < 0")
  case True
  with assms show ?thesis by (simp add: atoi_def itoa_def atoi_digits_itoa)
next
  case False
  obtain c cs where c: "itoa_nat (nat i) = c # cs"
    by (cases "itoa_nat (nat i)") simp_all
  then have "48 \<le> byte c" using itoa_nat_digits [of c "nat i"] by simp
  then have "c \<noteq> CHR ''-''" "c \<noteq> CHR ''+''" by auto
  with c False assms atoi_digits_itoa [of "nat i"] show ?thesis
    by (simp add: atoi_def itoa_def)
qed

section \<open>UTF-8 validity\<close>

definition utf8_cont :: "char \<Rightarrow> bool" where
  "utf8_cont c \<longleftrightarrow> 128 \<le> byte c \<and> byte c \<le> 191"

text \<open>The length of a well-formed encoded code point at the head of the string, else \<open>0\<close>.\<close>

definition rune_len :: "string \<Rightarrow> nat" where
  "rune_len s = (case s of [] \<Rightarrow> 0 | c0 # r \<Rightarrow>
     let b0 = byte c0 in
     if b0 < 128 then 1
     else if 194 \<le> b0 \<and> b0 \<le> 223 then
       (case r of c1 # _ \<Rightarrow> if utf8_cont c1 then 2 else 0 | _ \<Rightarrow> 0)
     else if 224 \<le> b0 \<and> b0 \<le> 239 then
       (case r of c1 # c2 # _ \<Rightarrow>
          if utf8_cont c1 \<and> (b0 = 224 \<longrightarrow> 160 \<le> byte c1) \<and> (b0 = 237 \<longrightarrow> byte c1 \<le> 159)
             \<and> utf8_cont c2 then 3 else 0 | _ \<Rightarrow> 0)
     else if 240 \<le> b0 \<and> b0 \<le> 244 then
       (case r of c1 # c2 # c3 # _ \<Rightarrow>
          if utf8_cont c1 \<and> (b0 = 240 \<longrightarrow> 144 \<le> byte c1) \<and> (b0 = 244 \<longrightarrow> byte c1 \<le> 143)
             \<and> utf8_cont c2 \<and> utf8_cont c3 then 4 else 0 | _ \<Rightarrow> 0)
     else 0)"

function utf8_valid :: "string \<Rightarrow> bool" where
  "utf8_valid s = (if s = [] then True else if rune_len s = 0 then False
     else utf8_valid (drop (rune_len s) s))"
  by pat_completeness auto
termination
  by (relation "measure length") auto

declare utf8_valid.simps [simp del]

lemma utf8_valid_Nil [simp]: "utf8_valid []"
  by (simp add: utf8_valid.simps)

section \<open>Association lists as Go maps\<close>

abbreviation "akeys m \<equiv> map fst m"

lemma map_of_filter_other:
  "(\<And>v. (k, v) \<in> set m \<Longrightarrow> P (k, v)) \<Longrightarrow> map_of (filter P m) k = map_of m k"
  by (induction m) auto

lemma map_of_filter_distinct:
  "distinct (akeys m) \<Longrightarrow>
   map_of (filter P m) k = (case map_of m k of Some v \<Rightarrow> if P (k, v) then Some v else None | None \<Rightarrow> None)"
proof (induction m)
  case (Cons a m)
  obtain k' v' where a: "a = (k', v')" by force
  show ?case
  proof (cases "k' = k")
    case True
    with Cons a have "map_of m k = None" by (auto simp: map_of_eq_None_iff)
    moreover from this have "map_of (filter P m) k = None"
      by (auto simp: map_of_eq_None_iff)
    ultimately show ?thesis using Cons a True by auto
  next
    case False
    with Cons a show ?thesis by auto
  qed
qed simp

lemma length_alist_update:
  "length (AList.update k v m) = (if k \<in> fst ` set m then length m else Suc (length m))"
  by (induction m) auto

lemma distinct_keys_filter: "distinct (akeys m) \<Longrightarrow> distinct (akeys (filter P m))"
  by (rule distinct_map_filter)

section \<open>Searching lists\<close>

lemma find_append_if:
  "List.find P (xs @ ys) = (case List.find P xs of None \<Rightarrow> List.find P ys | Some x \<Rightarrow> Some x)"
  by (induction xs) auto

lemma find_distinct_iff:
  "distinct (map f xs) \<Longrightarrow> List.find (\<lambda>x. f x = k) xs = Some r \<longleftrightarrow> r \<in> set xs \<and> f r = k"
  by (induction xs) (auto dest: image_eqI)

lemma find_map_if:
  assumes "\<And>x. f (g x) = f x"
  shows "List.find (\<lambda>x. f x = k) (map (\<lambda>x. if P x then g x else x) xs) =
     map_option (\<lambda>x. if P x then g x else x) (List.find (\<lambda>x. f x = k) xs)"
  by (induction xs) (use assms in auto)

lemma find_filter_distinct:
  assumes "distinct (map f xs)"
  shows "List.find (\<lambda>x. f x = k) (filter P xs) =
     (case List.find (\<lambda>x. f x = k) xs of None \<Rightarrow> None | Some r \<Rightarrow> if P r then Some r else None)"
proof (cases "List.find (\<lambda>x. f x = k) xs")
  case None
  then have "List.find (\<lambda>x. f x = k) (filter P xs) = None" by (auto simp: find_None_iff)
  with None show ?thesis by simp
next
  case (Some r)
  with assms have r: "r \<in> set xs" "f r = k" by (auto simp: find_distinct_iff)
  have d: "distinct (map f (filter P xs))" using assms by (rule distinct_map_filter)
  have u: "x = r" if "x \<in> set xs" "f x = k" for x
    using find_distinct_iff [OF assms, of k x] that Some by simp
  show ?thesis
  proof (cases "P r")
    case True
    with r Some show ?thesis by (simp add: find_distinct_iff [OF d])
  next
    case False
    with u have "List.find (\<lambda>x. f x = k) (filter P xs) = None" by (auto simp: find_None_iff)
    with Some False show ?thesis by simp
  qed
qed

section \<open>Results with errors\<close>

definition and_then :: "'e + 'a \<Rightarrow> ('a \<Rightarrow> 'e + 'b) \<Rightarrow> 'e + 'b" where
  "and_then r f = (case r of Inl e \<Rightarrow> Inl e | Inr x \<Rightarrow> f x)"

lemma and_then_simps [simp]: "and_then (Inl e) f = Inl e" "and_then (Inr x) f = f x"
  by (simp_all add: and_then_def)

lemma and_then_Inr_iff: "and_then r f = Inr y \<longleftrightarrow> (\<exists>x. r = Inr x \<and> f x = Inr y)"
  by (cases r) simp_all

lemma if_Inl_eq_Inr [simp]: "(if b then Inl e else r) = Inr y \<longleftrightarrow> \<not> b \<and> r = Inr y"
  by simp

lemma and_then_InrE:
  assumes "and_then r f = Inr y" obtains x where "r = Inr x" "f x = Inr y"
  using assms by (auto simp: and_then_Inr_iff)

lemma and_then_cong [fundef_cong]:
  "r = r' \<Longrightarrow> (\<And>x. r' = Inr x \<Longrightarrow> f x = g x) \<Longrightarrow> and_then r f = and_then r' g"
  by (cases r') simp_all

section \<open>Rows of a table updated by key\<close>

lemma sum_list_update_row:
  fixes f :: "'a \<Rightarrow> 'b::ab_group_add"
  assumes "distinct (map k xs)" "x \<in> set xs" "k x = i"
  shows "sum_list (map f (map (\<lambda>r. if k r = i then g r else r) xs)) = sum_list (map f xs) + f (g x) - f x"
  using assms
proof (induction xs)
  case (Cons y ys)
  show ?case
  proof (cases "k y = i")
    case True
    hence yx: "y = x" using Cons.prems by (force simp: image_iff)
    have "map (\<lambda>r. if k r = i then g r else r) ys = ys"
      using Cons.prems(1) True by (intro map_idI) (auto simp: image_iff)
    thus ?thesis using True yx by (simp add: algebra_simps)
  next
    case False
    hence "x \<in> set ys" using Cons.prems by auto
    thus ?thesis using False Cons by (simp add: algebra_simps)
  qed
qed simp

lemma map_rows_idle: "(\<And>r. r \<in> set xs \<Longrightarrow> \<not> P r) \<Longrightarrow> map (\<lambda>r. if P r then g r else r) xs = xs"
  by (intro map_idI) simp

end
