(* ===== verification/App_Errors.thy ===== *)
theory App_Errors
  imports Prelude
begin

text \<open>
  The application error type of \<open>internal/pkg/errors\<close> (files errors.go and types.go): an HTTP
  code, a machine-readable reason, a message, optional metadata and an optional cause. A Go
  \<open>error\<close> that is not an \<open>ApplicationError\<close> is \<open>Other_Error\<close> with the error it unwraps to.
  \<open>errors.As\<close> and \<open>errors.Is\<close> walk the chain of causes.
\<close>

section \<open>Data\<close>

record status =
  st_code :: int
  st_reason :: string
  st_message :: string
  st_metadata :: "(string \<times> string) list option"

datatype go_error =
    App_Error status "go_error option"
  | Other_Error string "go_error option"

section \<open>Operations\<close>

definition new_error :: "int \<Rightarrow> string \<Rightarrow> string \<Rightarrow> go_error" where
  "new_error c r m = App_Error \<lparr>st_code = signed_take_bit 31 c, st_reason = r, st_message = m,
     st_metadata = None\<rparr> None"

definition bad_request :: "string \<Rightarrow> string \<Rightarrow> go_error" where
  "bad_request r m = new_error 400 r m"

definition too_many_requests :: "string \<Rightarrow> string \<Rightarrow> go_error" where
  "too_many_requests r m = new_error 429 r m"

definition conflict_error :: "string \<Rightarrow> string \<Rightarrow> go_error" where
  "conflict_error r m = new_error 409 r m"

definition not_found_error :: "string \<Rightarrow> string \<Rightarrow> go_error" where
  "not_found_error r m = new_error 404 r m"

definition forbidden_error :: "string \<Rightarrow> string \<Rightarrow> go_error" where
  "forbidden_error r m = new_error 403 r m"

definition internal_server :: "string \<Rightarrow> string \<Rightarrow> go_error" where
  "internal_server r m = new_error 500 r m"

definition service_unavailable :: "string \<Rightarrow> string \<Rightarrow> go_error" where
  "service_unavailable r m = new_error 503 r m"

text \<open>\<open>errors.As\<close> at the target type \<open>*ApplicationError\<close>: the first one of the chain.\<close>

fun as_app_error :: "go_error \<Rightarrow> (status \<times> go_error option) option" where
  "as_app_error (App_Error s c) = Some (s, c)"
| "as_app_error (Other_Error m None) = None"
| "as_app_error (Other_Error m (Some e)) = as_app_error e"

text \<open>\<open>(*ApplicationError).Is\<close>: the target has the same code and reason.\<close>

definition app_is :: "status \<Rightarrow> go_error \<Rightarrow> bool" where
  "app_is s target = (case as_app_error target of None \<Rightarrow> False
     | Some (t, _) \<Rightarrow> st_code t = st_code s \<and> st_reason t = st_reason s)"

text \<open>\<open>errors.Is\<close>: some error of the chain is the target or says so through its \<open>Is\<close>.\<close>

fun errors_is :: "go_error \<Rightarrow> go_error \<Rightarrow> bool" where
  "errors_is (App_Error s c) target =
     (App_Error s c = target \<or> app_is s target
      \<or> (case c of None \<Rightarrow> False | Some e \<Rightarrow> errors_is e target))"
| "errors_is (Other_Error m c) target =
     (Other_Error m c = target
      \<or> (case c of None \<Rightarrow> False | Some e \<Rightarrow> errors_is e target))"

fun with_cause :: "go_error \<Rightarrow> go_error \<Rightarrow> go_error" where
  "with_cause (App_Error s c) cause = App_Error s (Some cause)"
| "with_cause e cause = e"

fun with_metadata :: "go_error \<Rightarrow> (string \<times> string) list \<Rightarrow> go_error" where
  "with_metadata (App_Error s c) md = App_Error (s\<lparr>st_metadata := Some md\<rparr>) c"
| "with_metadata e md = e"

definition from_error :: "go_error \<Rightarrow> status \<times> go_error option" where
  "from_error e = (case as_app_error e of Some x \<Rightarrow> x
     | None \<Rightarrow> (\<lparr>st_code = 500, st_reason = '''', st_message = ''internal error'',
                 st_metadata = None\<rparr>, Some e))"

definition error_code :: "go_error option \<Rightarrow> int" where
  "error_code e = (case e of None \<Rightarrow> 200 | Some x \<Rightarrow> st_code (fst (from_error x)))"

definition error_reason :: "go_error option \<Rightarrow> string" where
  "error_reason e = (case e of None \<Rightarrow> '''' | Some x \<Rightarrow> st_reason (fst (from_error x)))"

definition error_message :: "go_error option \<Rightarrow> string" where
  "error_message e = (case e of None \<Rightarrow> '''' | Some x \<Rightarrow> st_message (fst (from_error x)))"

lemmas error_ctor_defs [gw_defs] =
  new_error_def bad_request_def conflict_error_def not_found_error_def forbidden_error_def
  internal_server_def service_unavailable_def

section \<open>Lemmas\<close>

text \<open>What callers branch on (code, reason, message) survives adding a cause or metadata.\<close>

lemma with_cause_keeps:
  "error_code (Some (with_cause (App_Error s c) x)) = error_code (Some (App_Error s c))"
  "error_reason (Some (with_cause (App_Error s c) x)) = error_reason (Some (App_Error s c))"
  by (simp_all add: error_code_def error_reason_def from_error_def)

lemma errors_is_refl: "errors_is e e"
  by (cases e) auto

lemma errors_is_with_cause:
  "errors_is (with_cause (App_Error s c) x) (App_Error s c')"
  by (simp add: app_is_def)

lemma errors_is_with_metadata:
  "errors_is (with_metadata (App_Error s c) md) (App_Error s c')"
  by (simp add: app_is_def)

text \<open>
  \<open>errors_is\<close> against an application error finds exactly an application error of the chain
  with that code and reason.
\<close>

fun error_chain :: "go_error \<Rightarrow> status list" where
  "error_chain (App_Error s c) = s # (case c of None \<Rightarrow> [] | Some e \<Rightarrow> error_chain e)"
| "error_chain (Other_Error m c) = (case c of None \<Rightarrow> [] | Some e \<Rightarrow> error_chain e)"

lemma errors_is_iff_chain:
  "errors_is e (App_Error t x) \<longleftrightarrow>
     (\<exists>s \<in> set (error_chain e). st_code s = st_code t \<and> st_reason s = st_reason t)"
  by (induction e rule: error_chain.induct)
     (auto simp: app_is_def split: option.splits)

end
