(* ===== verification/Idempotency_Store.thy ===== *)
theory Idempotency_Store
  imports Prelude
begin

text \<open>
  The table \<open>idempotency_records\<close> and the statements of \<open>internal/repository/idempotency_repo.go\<close>
  that read and change it, as functions on a store. One SQL statement is one atomic step. The
  unique index on (scope, key hash) is what \<open>ON CONFLICT DO NOTHING\<close> consults; the identifier
  sequence advances on every insert attempt, as a PostgreSQL sequence does. The locale
  \<open>idem_repository\<close> is the contract of the Go interface \<open>IdempotencyRepository\<close>: what its
  clients, the coordinator and the system lock, may rely on.
\<close>

section \<open>Rows and the table\<close>

datatype idem_status = Processing | Succeeded | Failed_Retryable | Other_Status string

record idem_row =
  ir_id :: int
  ir_scope :: string
  ir_key :: string
  ir_fp :: string
  ir_status :: idem_status
  ir_resp_status :: "int option"
  ir_resp_body :: "string option"
  ir_err :: "string option"
  ir_locked :: "time option"
  ir_expires :: time
  ir_created :: time
  ir_updated :: time

record idem_store =
  st_rows :: "idem_row list"
  st_next :: int

abbreviation same_key :: "idem_row \<Rightarrow> idem_row \<Rightarrow> bool" where
  "same_key a b \<equiv> ir_scope a = ir_scope b \<and> ir_key a = ir_key b"

definition row_view :: "idem_store \<Rightarrow> int \<Rightarrow> idem_row option" where
  "row_view s i = find (\<lambda>r. ir_id r = i) (st_rows s)"

definition idem_inv :: "idem_store \<Rightarrow> bool" where
  "idem_inv s \<longleftrightarrow> distinct (map ir_id (st_rows s))
     \<and> distinct (map (\<lambda>r. (ir_scope r, ir_key r)) (st_rows s))
     \<and> list_all (\<lambda>r. 0 < ir_id r \<and> ir_id r < st_next s) (st_rows s) \<and> 0 < st_next s"

section \<open>The statements\<close>

text \<open>
  \<open>CreateProcessing\<close>: the insert writes six columns, the other ones are NULL, and it returns the
  identifier and the time stamps, which the method stores in the caller's record.
\<close>

definition create_processing ::
  "time \<Rightarrow> idem_row \<Rightarrow> idem_store \<Rightarrow> (bool \<times> idem_row) \<times> idem_store" where
  "create_processing dbnow rec s =
     (if list_ex (same_key rec) (st_rows s)
      then ((False, rec), s\<lparr>st_next := st_next s + 1\<rparr>)
      else let rec' = rec\<lparr>ir_id := st_next s, ir_created := dbnow, ir_updated := dbnow\<rparr>;
               row = rec'\<lparr>ir_resp_status := None, ir_resp_body := None, ir_err := None\<rparr>
           in ((True, rec'), s\<lparr>st_rows := st_rows s @ [row], st_next := st_next s + 1\<rparr>))"

definition get_by_scope_and_key_hash ::
  "string \<Rightarrow> string \<Rightarrow> idem_store \<Rightarrow> idem_row option" where
  "get_by_scope_and_key_hash sc k s = find (\<lambda>r. ir_scope r = sc \<and> ir_key r = k) (st_rows s)"

text \<open>An UPDATE of the rows that satisfy a condition, with the number of affected rows.\<close>

definition update_where ::
  "(idem_row \<Rightarrow> bool) \<Rightarrow> (idem_row \<Rightarrow> idem_row) \<Rightarrow> idem_store \<Rightarrow> nat \<times> idem_store" where
  "update_where P f s = (length (filter P (st_rows s)),
     s\<lparr>st_rows := map (\<lambda>r. if P r then f r else r) (st_rows s)\<rparr>)"

definition reclaimable :: "idem_status \<Rightarrow> time \<Rightarrow> idem_row \<Rightarrow> bool" where
  "reclaimable from now r \<longleftrightarrow> ir_status r = from
     \<and> (case ir_locked r of None \<Rightarrow> True | Some l \<Rightarrow> l \<le> now)"

definition reclaimed :: "time \<Rightarrow> time \<Rightarrow> time \<Rightarrow> idem_row \<Rightarrow> idem_row" where
  "reclaimed dbnow lu ex r = r\<lparr>ir_status := Processing, ir_locked := Some lu, ir_err := None,
     ir_updated := dbnow, ir_expires := ex\<rparr>"

definition try_reclaim ::
  "time \<Rightarrow> int \<Rightarrow> idem_status \<Rightarrow> time \<Rightarrow> time \<Rightarrow> time \<Rightarrow> idem_store \<Rightarrow> bool \<times> idem_store" where
  "try_reclaim dbnow i from now lu ex s =
     (let (n, s') = update_where (\<lambda>r. ir_id r = i \<and> reclaimable from now r) (reclaimed dbnow lu ex) s
      in (n > 0, s'))"

definition extend_processing_lock ::
  "time \<Rightarrow> int \<Rightarrow> string \<Rightarrow> time \<Rightarrow> time \<Rightarrow> idem_store \<Rightarrow> bool \<times> idem_store" where
  "extend_processing_lock dbnow i fp lu ex s =
     (let (n, s') = update_where (\<lambda>r. ir_id r = i \<and> ir_status r = Processing \<and> ir_fp r = fp)
        (\<lambda>r. r\<lparr>ir_locked := Some lu, ir_expires := ex, ir_updated := dbnow\<rparr>) s
      in (n > 0, s'))"

definition mark_succeeded ::
  "time \<Rightarrow> int \<Rightarrow> int \<Rightarrow> string \<Rightarrow> time \<Rightarrow> idem_store \<Rightarrow> idem_store" where
  "mark_succeeded dbnow i code body ex s =
     snd (update_where (\<lambda>r. ir_id r = i)
       (\<lambda>r. r\<lparr>ir_status := Succeeded, ir_resp_status := Some code, ir_resp_body := Some body,
          ir_err := None, ir_locked := None, ir_expires := ex, ir_updated := dbnow\<rparr>) s)"

definition mark_failed_retryable ::
  "time \<Rightarrow> int \<Rightarrow> string \<Rightarrow> time \<Rightarrow> time \<Rightarrow> idem_store \<Rightarrow> idem_store" where
  "mark_failed_retryable dbnow i why lu ex s =
     snd (update_where (\<lambda>r. ir_id r = i)
       (\<lambda>r. r\<lparr>ir_status := Failed_Retryable, ir_err := Some why, ir_locked := Some lu,
          ir_expires := ex, ir_updated := dbnow\<rparr>) s)"

definition delete_expired :: "time \<Rightarrow> int \<Rightarrow> idem_store \<Rightarrow> nat \<times> idem_store" where
  "delete_expired now limit s =
     (let lim = (if limit \<le> 0 then 500 else limit);
          victims = map ir_id (take (nat lim)
            (sort_key ir_expires (filter (\<lambda>r. ir_expires r \<le> now) (st_rows s))));
          gone = filter (\<lambda>r. ir_id r \<in> set victims) (st_rows s)
      in (length gone, s\<lparr>st_rows := filter (\<lambda>r. ir_id r \<notin> set victims) (st_rows s)\<rparr>))"

section \<open>Lookup by identifier\<close>

lemma row_view_Some_iff:
  "idem_inv s \<Longrightarrow> row_view s i = Some r \<longleftrightarrow> r \<in> set (st_rows s) \<and> ir_id r = i"
  by (simp add: idem_inv_def row_view_def find_distinct_iff)

lemma row_view_None_iff: "row_view s i = None \<longleftrightarrow> (\<forall>r \<in> set (st_rows s). ir_id r \<noteq> i)"
  by (auto simp: row_view_def find_None_iff)

lemma row_view_next [simp]: "row_view (s\<lparr>st_next := n\<rparr>) = row_view s"
  by (simp add: row_view_def fun_eq_iff)

lemma update_where_view:
  assumes "\<And>r. ir_id (f r) = ir_id r"
  shows "row_view (snd (update_where P f s)) i =
     map_option (\<lambda>r. if P r then f r else r) (row_view s i)"
  using assms by (simp add: update_where_def row_view_def find_map_if)

lemma update_where_inv:
  assumes "\<And>r. ir_id (f r) = ir_id r" "\<And>r. same_key (f r) r" "idem_inv s"
  shows "idem_inv (snd (update_where P f s))"
proof -
  have "(\<lambda>r. ir_id (if P r then f r else r)) = ir_id"
    using assms(1) by auto
  moreover have "(\<lambda>r. (ir_scope (if P r then f r else r), ir_key (if P r then f r else r)))
      = (\<lambda>r. (ir_scope r, ir_key r))"
    using assms(2) by auto
  ultimately show ?thesis using assms(1,3)
    by (auto simp: idem_inv_def update_where_def list_all_iff comp_def)
qed

lemma update_where_by_id_pos:
  assumes "idem_inv s"
  shows "0 < fst (update_where (\<lambda>r. ir_id r = i \<and> Q r) f s) \<longleftrightarrow> (\<exists>r. row_view s i = Some r \<and> Q r)"
proof -
  have "0 < fst (update_where (\<lambda>r. ir_id r = i \<and> Q r) f s) \<longleftrightarrow> (\<exists>r \<in> set (st_rows s). ir_id r = i \<and> Q r)"
    by (simp add: update_where_def filter_empty_conv)
  with assms show ?thesis by (auto simp: row_view_Some_iff)
qed

lemma update_where_view_id:
  assumes "idem_inv s" "\<And>r. ir_id (f r) = ir_id r"
  shows "row_view (snd (update_where (\<lambda>r. ir_id r = i \<and> Q r) f s)) j =
      (case row_view s j of None \<Rightarrow> None | Some r \<Rightarrow> Some (if j = i \<and> Q r then f r else r))"
    and "row_view (snd (update_where (\<lambda>r. ir_id r = i) f s)) j =
      (case row_view s j of None \<Rightarrow> None | Some r \<Rightarrow> Some (if j = i then f r else r))"
proof -
  have "row_view s j = Some r \<Longrightarrow> ir_id r = j" for r
    using assms(1) by (simp add: row_view_Some_iff)
  then show "row_view (snd (update_where (\<lambda>r. ir_id r = i \<and> Q r) f s)) j =
      (case row_view s j of None \<Rightarrow> None | Some r \<Rightarrow> Some (if j = i \<and> Q r then f r else r))"
    and "row_view (snd (update_where (\<lambda>r. ir_id r = i) f s)) j =
      (case row_view s j of None \<Rightarrow> None | Some r \<Rightarrow> Some (if j = i then f r else r))"
    using assms(2) by (auto simp: update_where_view split: option.splits)
qed

lemma update_affected:
  "snd (case update_where P f s of (n, s') \<Rightarrow> (n > 0, s')) = snd (update_where P f s)"
  "fst (case update_where P f s of (n, s') \<Rightarrow> (n > 0, s')) = (0 < fst (update_where P f s))"
  by (simp_all add: update_where_def)

section \<open>The contract of the repository interface\<close>

text \<open>
  What \<open>IdempotencyRepository\<close> promises, in terms of an abstract table \<open>view\<close>: at most one row
  per (scope, key hash); a claim of an absent key inserts exactly one row; a claim of a present
  row succeeds only from the expected status and when its lock is absent or over.
\<close>

locale idem_repository =
  fixes view :: "'s \<Rightarrow> int \<Rightarrow> idem_row option"
    and invar :: "'s \<Rightarrow> bool"
    and create :: "time \<Rightarrow> idem_row \<Rightarrow> 's \<Rightarrow> (bool \<times> idem_row) \<times> 's"
    and get :: "string \<Rightarrow> string \<Rightarrow> 's \<Rightarrow> idem_row option"
    and reclaim :: "time \<Rightarrow> int \<Rightarrow> idem_status \<Rightarrow> time \<Rightarrow> time \<Rightarrow> time \<Rightarrow> 's \<Rightarrow> bool \<times> 's"
    and extend :: "time \<Rightarrow> int \<Rightarrow> string \<Rightarrow> time \<Rightarrow> time \<Rightarrow> 's \<Rightarrow> bool \<times> 's"
    and mark_ok :: "time \<Rightarrow> int \<Rightarrow> int \<Rightarrow> string \<Rightarrow> time \<Rightarrow> 's \<Rightarrow> 's"
    and mark_fail :: "time \<Rightarrow> int \<Rightarrow> string \<Rightarrow> time \<Rightarrow> time \<Rightarrow> 's \<Rightarrow> 's"
    and delete_old :: "time \<Rightarrow> int \<Rightarrow> 's \<Rightarrow> nat \<times> 's"
  assumes view_id: "invar s \<Longrightarrow> view s i = Some r \<Longrightarrow> ir_id r = i"
    and view_key: "invar s \<Longrightarrow> view s i = Some r \<Longrightarrow> view s j = Some r' \<Longrightarrow> same_key r r' \<Longrightarrow> i = j"
    and create_new: "invar s \<Longrightarrow> fst (fst (create t rec s)) \<longleftrightarrow>
      \<not> (\<exists>i r. view s i = Some r \<and> same_key rec r)"
    and create_old: "invar s \<Longrightarrow> \<not> fst (fst (create t rec s)) \<Longrightarrow>
      view (snd (create t rec s)) = view s \<and> snd (fst (create t rec s)) = rec"
    and create_row: "invar s \<Longrightarrow> fst (fst (create t rec s)) \<Longrightarrow> \<exists>i. 0 < i \<and> view s i = None
      \<and> snd (fst (create t rec s)) = rec\<lparr>ir_id := i, ir_created := t, ir_updated := t\<rparr>
      \<and> view (snd (create t rec s)) = (view s)(i \<mapsto> rec\<lparr>ir_id := i, ir_created := t, ir_updated := t,
           ir_resp_status := None, ir_resp_body := None, ir_err := None\<rparr>)"
    and create_inv: "invar s \<Longrightarrow> invar (snd (create t rec s))"
    and get_iff: "invar s \<Longrightarrow> get sc k s = Some r \<longleftrightarrow>
      (\<exists>i. view s i = Some r \<and> ir_scope r = sc \<and> ir_key r = k)"
    and reclaim_ok: "invar s \<Longrightarrow> fst (reclaim t i from now lu ex s) \<longleftrightarrow>
      (\<exists>r. view s i = Some r \<and> reclaimable from now r)"
    and reclaim_view: "invar s \<Longrightarrow> view (snd (reclaim t i from now lu ex s)) j =
      (case view s j of None \<Rightarrow> None
       | Some r \<Rightarrow> Some (if j = i \<and> reclaimable from now r then reclaimed t lu ex r else r))"
    and reclaim_inv: "invar s \<Longrightarrow> invar (snd (reclaim t i from now lu ex s))"
    and extend_ok: "invar s \<Longrightarrow> fst (extend t i fp lu ex s) \<longleftrightarrow>
      (\<exists>r. view s i = Some r \<and> ir_status r = Processing \<and> ir_fp r = fp)"
    and extend_view: "invar s \<Longrightarrow> view (snd (extend t i fp lu ex s)) j =
      (case view s j of None \<Rightarrow> None
       | Some r \<Rightarrow> Some (if j = i \<and> ir_status r = Processing \<and> ir_fp r = fp
           then r\<lparr>ir_locked := Some lu, ir_expires := ex, ir_updated := t\<rparr> else r))"
    and extend_inv: "invar s \<Longrightarrow> invar (snd (extend t i fp lu ex s))"
    and mark_ok_view: "invar s \<Longrightarrow> view (mark_ok t i c b ex s) j =
      (case view s j of None \<Rightarrow> None
       | Some r \<Rightarrow> Some (if j = i then r\<lparr>ir_status := Succeeded, ir_resp_status := Some c,
            ir_resp_body := Some b, ir_err := None, ir_locked := None, ir_expires := ex,
            ir_updated := t\<rparr> else r))"
    and mark_ok_inv: "invar s \<Longrightarrow> invar (mark_ok t i c b ex s)"
    and mark_fail_view: "invar s \<Longrightarrow> view (mark_fail t i w lu ex s) j =
      (case view s j of None \<Rightarrow> None
       | Some r \<Rightarrow> Some (if j = i then r\<lparr>ir_status := Failed_Retryable, ir_err := Some w,
            ir_locked := Some lu, ir_expires := ex, ir_updated := t\<rparr> else r))"
    and mark_fail_inv: "invar s \<Longrightarrow> invar (mark_fail t i w lu ex s)"
    and delete_sub: "invar s \<Longrightarrow> view (snd (delete_old now lim s)) i = Some r \<Longrightarrow> view s i = Some r"
    and delete_keep: "invar s \<Longrightarrow> view s i = Some r \<Longrightarrow> now < ir_expires r \<Longrightarrow>
      view (snd (delete_old now lim s)) i = Some r"
    and delete_inv: "invar s \<Longrightarrow> invar (snd (delete_old now lim s))"
begin

text \<open>A row is leased until \<open>l\<close>: it is processing and locked until then.\<close>

definition leased :: "'s \<Rightarrow> int \<Rightarrow> time \<Rightarrow> bool" where
  "leased s i l \<longleftrightarrow> (\<exists>r. view s i = Some r \<and> ir_status r = Processing \<and> ir_locked r = Some l)"

lemma leased_blocks_reclaim:
  "invar s \<Longrightarrow> leased s i l \<Longrightarrow> now < l \<Longrightarrow> \<not> fst (reclaim t i from now lu ex s)"
  by (auto simp: leased_def reclaim_ok reclaimable_def)

lemma present_blocks_create:
  "invar s \<Longrightarrow> view s i = Some r \<Longrightarrow> same_key rec r \<Longrightarrow> \<not> fst (fst (create t rec s))"
  by (auto simp: create_new)

lemma create_leases:
  assumes "invar s" "fst (fst (create t rec s))" "ir_status rec = Processing" "ir_locked rec = Some l"
  shows "leased (snd (create t rec s)) (ir_id (snd (fst (create t rec s)))) l"
proof -
  obtain i where "snd (fst (create t rec s)) = rec\<lparr>ir_id := i, ir_created := t, ir_updated := t\<rparr>"
    "view (snd (create t rec s)) = (view s)(i \<mapsto> rec\<lparr>ir_id := i, ir_created := t, ir_updated := t,
       ir_resp_status := None, ir_resp_body := None, ir_err := None\<rparr>)"
    using create_row [OF assms(1,2)] by blast
  with assms(3,4) show ?thesis by (simp add: leased_def)
qed

lemma reclaim_leases:
  "invar s \<Longrightarrow> fst (reclaim t i from now lu ex s) \<Longrightarrow> leased (snd (reclaim t i from now lu ex s)) i lu"
  by (auto simp: leased_def reclaim_ok reclaim_view reclaimed_def)

lemma create_view_mono:
  assumes "invar s" "view s i = Some r"
  shows "view (snd (create t rec s)) i = Some r"
proof (cases "fst (fst (create t rec s))")
  case True
  then obtain j where "view s j = None" "view (snd (create t rec s)) = (view s)(j \<mapsto>
      rec\<lparr>ir_id := j, ir_created := t, ir_updated := t,
        ir_resp_status := None, ir_resp_body := None, ir_err := None\<rparr>)"
    using create_row [OF assms(1)] by blast
  with assms(2) show ?thesis by (auto simp: fun_upd_def)
next
  case False
  with assms show ?thesis by (simp add: create_old)
qed

end

section \<open>The table implements the contract\<close>

lemma create_processing_present:
  "list_ex (same_key rec) (st_rows s) \<Longrightarrow> create_processing t rec s = ((False, rec), s\<lparr>st_next := st_next s + 1\<rparr>)"
  by (simp add: create_processing_def)

lemma list_ex_view:
  assumes "idem_inv s"
  shows "list_ex P (st_rows s) \<longleftrightarrow> (\<exists>i r. row_view s i = Some r \<and> P r)"
  using assms by (auto simp: list_ex_iff row_view_Some_iff)

lemma next_fresh: "idem_inv s \<Longrightarrow> row_view s (st_next s) = None"
  by (auto simp: row_view_None_iff idem_inv_def list_all_iff)

lemma create_processing_absent:
  assumes "idem_inv s" "\<not> list_ex (same_key rec) (st_rows s)"
  shows "fst (create_processing t rec s) = (True, rec\<lparr>ir_id := st_next s, ir_created := t, ir_updated := t\<rparr>)"
    and "row_view (snd (create_processing t rec s)) = (row_view s)(st_next s \<mapsto>
      rec\<lparr>ir_id := st_next s, ir_created := t, ir_updated := t,
        ir_resp_status := None, ir_resp_body := None, ir_err := None\<rparr>)"
    and "idem_inv (snd (create_processing t rec s))"
proof -
  show "fst (create_processing t rec s) = (True, rec\<lparr>ir_id := st_next s, ir_created := t, ir_updated := t\<rparr>)"
    using assms(2) by (simp add: create_processing_def Let_def)
  show "row_view (snd (create_processing t rec s)) = (row_view s)(st_next s \<mapsto>
      rec\<lparr>ir_id := st_next s, ir_created := t, ir_updated := t,
        ir_resp_status := None, ir_resp_body := None, ir_err := None\<rparr>)"
    using assms(2) next_fresh [OF assms(1)]
    by (auto simp: create_processing_def Let_def row_view_def find_append_if fun_eq_iff split: option.splits)
  show "idem_inv (snd (create_processing t rec s))"
    using assms by (auto simp: create_processing_def Let_def idem_inv_def list_all_iff list_ex_iff)
qed

lemma delete_expired_inv: "idem_inv s \<Longrightarrow> idem_inv (snd (delete_expired now lim s))"
  by (auto simp: delete_expired_def Let_def idem_inv_def list_all_iff distinct_map_filter)

lemma row_view_filter:
  "idem_inv s \<Longrightarrow> row_view (s\<lparr>st_rows := filter P (st_rows s)\<rparr>) i =
     (case row_view s i of None \<Rightarrow> None | Some r \<Rightarrow> if P r then Some r else None)"
  by (simp add: row_view_def idem_inv_def find_filter_distinct)

lemma delete_expired_view:
  assumes "idem_inv s"
  shows "row_view (snd (delete_expired now lim s)) i = Some r \<Longrightarrow> row_view s i = Some r"
    and "row_view s i = Some r \<Longrightarrow> now < ir_expires r \<Longrightarrow>
      row_view (snd (delete_expired now lim s)) i = Some r"
proof -
  show "row_view (snd (delete_expired now lim s)) i = Some r \<Longrightarrow> row_view s i = Some r"
    by (auto simp: delete_expired_def Let_def row_view_filter [OF assms] split: option.splits if_splits)
next
  assume r: "row_view s i = Some r" and e: "now < ir_expires r"
  have "ir_id r \<notin> ir_id ` set (take n (sort_key ir_expires (filter (\<lambda>r. ir_expires r \<le> now) (st_rows s))))" for n
  proof
    assume "ir_id r \<in> ir_id ` set (take n (sort_key ir_expires (filter (\<lambda>r. ir_expires r \<le> now) (st_rows s))))"
    then obtain r' where "r' \<in> set (st_rows s)" "ir_expires r' \<le> now" "ir_id r' = ir_id r"
      by (auto dest!: in_set_takeD)
    moreover have "r \<in> set (st_rows s)" "ir_id r = i" using r assms by (auto simp: row_view_Some_iff)
    ultimately have "row_view s i = Some r'" using assms by (simp add: row_view_Some_iff)
    with r e \<open>ir_expires r' \<le> now\<close> show False by simp
  qed
  with r show "row_view (snd (delete_expired now lim s)) i = Some r"
    by (simp add: delete_expired_def Let_def row_view_filter [OF assms])
qed

interpretation repo: idem_repository row_view idem_inv create_processing get_by_scope_and_key_hash
  try_reclaim extend_processing_lock mark_succeeded mark_failed_retryable delete_expired
proof (unfold_locales, goal_cases)
  case (1 s i r) then show ?case by (simp add: row_view_Some_iff)
next
  case (2 s i r j r')
  then have "r \<in> set (st_rows s)" "r' \<in> set (st_rows s)" "ir_id r = i" "ir_id r' = j"
    by (auto simp: row_view_Some_iff)
  with 2 show ?case by (auto simp: idem_inv_def distinct_map inj_on_def)
next
  case (3 s t rec)
  then show ?case
    by (auto simp: create_processing_def Let_def simp flip: list_ex_view [OF 3])
next
  case (4 s t rec)
  then show ?case by (auto simp: create_processing_def Let_def split: if_splits)
next
  case (5 s t rec)
  then have "\<not> list_ex (same_key rec) (st_rows s)" by (auto simp: create_processing_present)
  with 5 show ?case
    by (intro exI [of _ "st_next s"]) (simp add: create_processing_absent next_fresh, simp add: idem_inv_def)
next
  case (6 s t rec)
  show ?case
  proof (cases "list_ex (same_key rec) (st_rows s)")
    case True
    with 6 show ?thesis by (auto simp: create_processing_present idem_inv_def list_all_iff)
  next
    case False
    with 6 show ?thesis by (simp add: create_processing_absent)
  qed
next
  case (7 s sc k r)
  then have "distinct (map (\<lambda>r. (ir_scope r, ir_key r)) (st_rows s))" by (simp add: idem_inv_def)
  from find_distinct_iff [OF this, of "(sc, k)" r]
  have "get_by_scope_and_key_hash sc k s = Some r \<longleftrightarrow>
      r \<in> set (st_rows s) \<and> ir_scope r = sc \<and> ir_key r = k"
    by (simp add: get_by_scope_and_key_hash_def)
  with 7 show ?case by (auto simp: row_view_Some_iff)
next
  case (8 s t i frm now lu ex)
  then show ?case by (auto simp: try_reclaim_def update_affected update_where_by_id_pos split: option.splits)
next
  case (9 s t i frm now lu ex j)
  then show ?case by (simp add: try_reclaim_def update_affected update_where_view_id reclaimed_def)
next
  case (10 s t i frm now lu ex)
  then show ?case by (simp add: try_reclaim_def update_affected update_where_inv reclaimed_def)
next
  case (11 s t i fp lu ex)
  then show ?case
    by (auto simp: extend_processing_lock_def update_affected update_where_by_id_pos split: option.splits)
next
  case (12 s t i fp lu ex j)
  then show ?case by (simp add: extend_processing_lock_def update_affected update_where_view_id)
next
  case (13 s t i fp lu ex)
  then show ?case by (simp add: extend_processing_lock_def update_affected update_where_inv)
next
  case (14 s t i c b ex j)
  then show ?case by (simp add: mark_succeeded_def update_where_view_id)
next
  case (15 s t i c b ex)
  then show ?case by (simp add: mark_succeeded_def update_where_inv)
next
  case (16 s t i w lu ex j)
  then show ?case by (simp add: mark_failed_retryable_def update_where_view_id)
next
  case (17 s t i w lu ex)
  then show ?case by (simp add: mark_failed_retryable_def update_where_inv)
next
  case (18 s now lim i r)
  then show ?case by (rule delete_expired_view(1))
next
  case (19 s i r now lim)
  then show ?case by (rule delete_expired_view(2))
next
  case (20 s now lim)
  then show ?case by (simp add: delete_expired_inv)
qed

lemmas store_inv [gw_inv] =
  repo.create_inv repo.reclaim_inv repo.extend_inv repo.mark_ok_inv repo.mark_fail_inv repo.delete_inv

section \<open>Interleavings of statements\<close>

text \<open>
  Any number of processes share the table; what they do to it is some sequence of statements.
  \<open>store_run\<close> executes one and collects the (scope, key hash) pairs whose claim succeeded, by an
  insert or by a reclaim.
\<close>

datatype store_op =
    Op_Create time idem_row
  | Op_Reclaim time int idem_status time time time
  | Op_Extend time int string time time
  | Op_Mark_Ok time int int string time
  | Op_Mark_Fail time int string time time
  | Op_Delete time int

abbreviation row_key :: "idem_row \<Rightarrow> string \<times> string" where
  "row_key r \<equiv> (ir_scope r, ir_key r)"

fun store_op_exec :: "store_op \<Rightarrow> idem_store \<Rightarrow> (string \<times> string) option \<times> idem_store" where
  "store_op_exec (Op_Create t rec) s =
     (if fst (fst (create_processing t rec s)) then Some (row_key rec) else None,
      snd (create_processing t rec s))"
| "store_op_exec (Op_Reclaim t i frm now lu ex) s =
     (if fst (try_reclaim t i frm now lu ex s) then map_option row_key (row_view s i) else None,
      snd (try_reclaim t i frm now lu ex s))"
| "store_op_exec (Op_Extend t i fp lu ex) s = (None, snd (extend_processing_lock t i fp lu ex s))"
| "store_op_exec (Op_Mark_Ok t i c b ex) s = (None, mark_succeeded t i c b ex s)"
| "store_op_exec (Op_Mark_Fail t i w lu ex) s = (None, mark_failed_retryable t i w lu ex s)"
| "store_op_exec (Op_Delete now lim) s = (None, snd (delete_expired now lim s))"

fun store_run :: "store_op list \<Rightarrow> idem_store \<Rightarrow> (string \<times> string) list \<times> idem_store" where
  "store_run [] s = ([], s)"
| "store_run (op # ops) s = (let (c, s1) = store_op_exec op s; (cs, s2) = store_run ops s1
     in (case c of None \<Rightarrow> cs | Some k \<Rightarrow> k # cs, s2))"

text \<open>
  The statements that respect the holder of row \<open>i\<close> locked until \<open>l\<close> and kept until \<open>ex\<close>: no one
  finishes the row for the holder, lease renewals do not shorten it, reclaims happen while the
  lock still runs, and the cleanup runs before the row's expiry.
\<close>

fun respects_lease :: "int \<Rightarrow> time \<Rightarrow> time \<Rightarrow> store_op \<Rightarrow> bool" where
  "respects_lease i l ex (Op_Create t rec) = True"
| "respects_lease i l ex (Op_Reclaim t j frm now lu ex') = (j = i \<longrightarrow> now < l)"
| "respects_lease i l ex (Op_Extend t j fp lu ex') = (j = i \<longrightarrow> l \<le> lu \<and> ex \<le> ex')"
| "respects_lease i l ex (Op_Mark_Ok t j c b ex') = (j \<noteq> i)"
| "respects_lease i l ex (Op_Mark_Fail t j w lu ex') = (j \<noteq> i)"
| "respects_lease i l ex (Op_Delete now lim) = (now < ex)"

definition lease_held :: "int \<Rightarrow> time \<Rightarrow> time \<Rightarrow> idem_row \<Rightarrow> idem_store \<Rightarrow> bool" where
  "lease_held i l ex r s \<longleftrightarrow> idem_inv s \<and> (\<exists>r'. row_view s i = Some r' \<and> row_key r' = row_key r
     \<and> ir_fp r' = ir_fp r \<and> ir_status r' = Processing
     \<and> (\<exists>l'. ir_locked r' = Some l' \<and> l \<le> l') \<and> ex \<le> ir_expires r')"

lemma store_op_inv [gw_inv]: "idem_inv s \<Longrightarrow> idem_inv (snd (store_op_exec op s))"
  by (cases op) (auto intro: store_inv)

lemma store_run_inv: "idem_inv s \<Longrightarrow> idem_inv (snd (store_run ops s))"
  by (induction ops arbitrary: s) (auto simp: split_beta Let_def intro: store_op_inv)

lemma lease_held_step:
  assumes "lease_held i l ex r s" "respects_lease i l ex op"
  shows "lease_held i l ex r (snd (store_op_exec op s))"
    and "fst (store_op_exec op s) \<noteq> Some (row_key r)"
proof -
  from assms(1) obtain r' l' where inv: "idem_inv s" and v: "row_view s i = Some r'"
    and k: "row_key r' = row_key r" "ir_fp r' = ir_fp r" "ir_status r' = Processing"
      "ir_locked r' = Some l'" "l \<le> l'" "ex \<le> ir_expires r'"
    by (auto simp: lease_held_def)
  have inv': "idem_inv (snd (store_op_exec op s))" using inv by (rule store_op_inv)
  show "lease_held i l ex r (snd (store_op_exec op s))"
  proof (cases op)
    case (Op_Create t rec)
    then show ?thesis using inv v k inv' repo.create_view_mono [OF inv v]
      by (auto simp: lease_held_def)
  next
    case (Op_Reclaim t j frm now lu ex')
    then show ?thesis using inv v k inv' assms(2)
      by (auto simp: lease_held_def repo.reclaim_view reclaimable_def)
  next
    case (Op_Extend t j fp lu ex')
    then show ?thesis using inv v k inv' assms(2)
      by (auto simp: lease_held_def repo.extend_view)
  next
    case (Op_Delete now lim)
    then show ?thesis using inv v k inv' assms(2) repo.delete_keep [OF inv v]
      by (auto simp: lease_held_def)
  qed (use inv v k inv' assms(2) in \<open>auto simp: lease_held_def repo.mark_ok_view repo.mark_fail_view\<close>)
  show "fst (store_op_exec op s) \<noteq> Some (row_key r)"
  proof (cases op)
    case (Op_Create t rec)
    then show ?thesis using repo.present_blocks_create [OF inv v] k by auto
  next
    case (Op_Reclaim t j frm now lu ex')
    then show ?thesis using inv v k assms(2) repo.view_key [OF inv v, of j]
      by (auto simp: repo.reclaim_ok reclaimable_def)
  qed auto
qed

lemma lease_held_run:
  "lease_held i l ex r s \<Longrightarrow> list_all (respects_lease i l ex) ops \<Longrightarrow>
    row_key r \<notin> set (fst (store_run ops s)) \<and> lease_held i l ex r (snd (store_run ops s))"
proof (induction ops arbitrary: s)
  case (Cons op ops)
  then have "lease_held i l ex r (snd (store_op_exec op s))"
    "fst (store_op_exec op s) \<noteq> Some (row_key r)" by (auto simp: lease_held_step)
  with Cons show ?case by (auto simp: split_beta Let_def split: option.splits)
qed simp

text \<open>
  The identity of a row never changes: between two states of a run, an identifier that was already
  assigned keeps its scope, key hash and fingerprint, or is gone.
\<close>

definition ident_stable :: "idem_store \<Rightarrow> idem_store \<Rightarrow> bool" where
  "ident_stable s s' \<longleftrightarrow> st_next s \<le> st_next s' \<and> (\<forall>i r'. row_view s' i = Some r' \<and> i < st_next s \<longrightarrow>
     (\<exists>r. row_view s i = Some r \<and> row_key r' = row_key r \<and> ir_fp r' = ir_fp r))"

lemma ident_stable_refl: "ident_stable s s"
  by (auto simp: ident_stable_def)

lemma ident_stableD:
  "ident_stable a b \<Longrightarrow> row_view b i = Some r' \<Longrightarrow> i < st_next a \<Longrightarrow>
     \<exists>r. row_view a i = Some r \<and> row_key r' = row_key r \<and> ir_fp r' = ir_fp r"
  by (simp add: ident_stable_def)

lemma ident_stable_trans:
  assumes "ident_stable a b" "ident_stable b c"
  shows "ident_stable a c"
proof -
  have le: "st_next a \<le> st_next b" "st_next b \<le> st_next c"
    using assms by (simp_all add: ident_stable_def)
  have "\<exists>r. row_view a i = Some r \<and> row_key r' = row_key r \<and> ir_fp r' = ir_fp r"
    if h: "row_view c i = Some r'" "i < st_next a" for i r'
  proof -
    obtain r where r: "row_view b i = Some r" "row_key r' = row_key r" "ir_fp r' = ir_fp r"
      using ident_stableD [OF assms(2) h(1)] h(2) le by auto
    show ?thesis using ident_stableD [OF assms(1) r(1) h(2)] r by simp
  qed
  with le show ?thesis by (simp add: ident_stable_def)
qed

lemma update_where_next [simp]: "st_next (snd (update_where P f s)) = st_next s"
  by (simp add: update_where_def)

lemma op_next:
  "st_next (snd (try_reclaim t i frm now lu ex s)) = st_next s"
  "st_next (snd (extend_processing_lock t i fp lu ex s)) = st_next s"
  "st_next (mark_succeeded t i c b ex s) = st_next s"
  "st_next (mark_failed_retryable t i w lu ex s) = st_next s"
  "st_next (snd (delete_expired now lim s)) = st_next s"
  "st_next (snd (create_processing t rec s)) = st_next s + 1"
  by (simp_all add: try_reclaim_def extend_processing_lock_def update_affected mark_succeeded_def
      mark_failed_retryable_def delete_expired_def create_processing_def Let_def)

lemma create_processing_old_view:
  assumes "idem_inv s" "row_view (snd (create_processing t rec s)) i = Some r" "i < st_next s"
  shows "row_view s i = Some r"
proof (cases "list_ex (same_key rec) (st_rows s)")
  case True
  with assms show ?thesis by (simp add: create_processing_present)
next
  case False
  with assms show ?thesis by (simp add: create_processing_absent split: if_splits)
qed

lemma store_op_ident: "idem_inv s \<Longrightarrow> ident_stable s (snd (store_op_exec op s))"
  by (cases op)
     (auto simp: ident_stable_def op_next repo.reclaim_view repo.extend_view repo.mark_ok_view
        repo.mark_fail_view reclaimed_def split: option.splits if_splits
        dest: create_processing_old_view repo.delete_sub)

lemma store_run_ident: "idem_inv s \<Longrightarrow> ident_stable s (snd (store_run ops s))"
proof (induction ops arbitrary: s)
  case (Cons op ops)
  then have "ident_stable (snd (store_op_exec op s)) (snd (store_run ops (snd (store_op_exec op s))))"
    by (simp add: store_op_inv)
  with store_op_ident [OF Cons.prems, of op] show ?case
    by (auto simp: split_beta Let_def intro: ident_stable_trans)
qed (simp add: ident_stable_refl)

text \<open>
  Claim C3. Once a process has claimed a row (it is \<open>processing\<close> and locked until \<open>l\<close>), no other
  claim of the same (scope, key hash) succeeds, whatever statements the other processes run in
  whatever order, as long as the lock has not run out at the times of the reclaims, nobody marks
  the row finished, renewals do not shorten the lease and the cleanup does not run past the row's
  expiry; and the row stays in the hands of its claimant.
\<close>

theorem lease_exclusive:
  assumes "idem_inv s" "row_view s i = Some r" "ir_status r = Processing" "ir_locked r = Some l"
    and "list_all (respects_lease i l (ir_expires r)) ops"
  shows "row_key r \<notin> set (fst (store_run ops s))
    \<and> lease_held i l (ir_expires r) r (snd (store_run ops s))"
  using assms by (intro lease_held_run) (auto simp: lease_held_def)

definition sample_row :: idem_row where
  "sample_row = \<lparr>ir_id = 1, ir_scope = ''s'', ir_key = ''k'', ir_fp = ''f'', ir_status = Processing,
     ir_resp_status = None, ir_resp_body = None, ir_err = None, ir_locked = Some 30,
     ir_expires = 100, ir_created = 0, ir_updated = 0\<rparr>"

definition sample_store :: idem_store where
  "sample_store = \<lparr>st_rows = [sample_row], st_next = 2\<rparr>"

lemma sample_store_facts:
  "idem_inv sample_store" "row_view sample_store 1 = Some sample_row"
  by (simp_all add: idem_inv_def row_view_def sample_store_def sample_row_def)

theorem lease_exclusive_witness:
  "row_key sample_row \<notin> set (fst (store_run
     [Op_Create 20 sample_row, Op_Reclaim 29 1 Processing 29 60 200, Op_Delete 50 10] sample_store))"
  using lease_exclusive [OF sample_store_facts, of 30
      "[Op_Create 20 sample_row, Op_Reclaim 29 1 Processing 29 60 200, Op_Delete 50 10]"]
  by (simp add: sample_row_def)

end
