(* ===== verification/Idempotency.thy ===== *)
theory Idempotency
  imports App_Errors Idempotency_Store
begin

text \<open>
  The idempotency coordinator of \<open>internal/service/idempotency.go\<close>. \<open>idem_execute\<close> is
  \<open>IdempotencyCoordinator.Execute\<close>: it normalises the key, claims a row of the table, runs the
  callback and records its outcome, or answers from the row that is already there.

  Each call of the repository is made in an environment \<open>env k\<close> that gives the statements other
  processes ran since the previous call, whether the call fails (before or after it took effect)
  and the database clock. The Go calls of \<open>time.Now\<close> are the arguments \<open>t0\<close> (start), \<open>t1\<close> and
  \<open>t2\<close> (after the callback). Package \<open>encoding/json\<close> on values of type \<open>any\<close>, SHA-256 in
  hexadecimal and the log redactor are the fields of the record \<open>libs\<close>. Metrics and audit log
  lines have no effect on the result and are left out.
\<close>

section \<open>Configuration, options, libraries\<close>

record idem_config =
  cf_default_ttl :: duration
  cf_system_ttl :: duration
  cf_timeout :: duration
  cf_backoff :: duration
  cf_max_stored :: int
  cf_observe_only :: bool

definition default_idempotency_config :: idem_config where
  "default_idempotency_config = \<lparr>cf_default_ttl = 24 * hour, cf_system_ttl = hour,
     cf_timeout = 30 * second, cf_backoff = 5 * second, cf_max_stored = 64 * 1024,
     cf_observe_only = True\<rparr>"

record 'p idem_opts =
  op_scope :: string
  op_actor :: string
  op_method :: string
  op_route :: string
  op_key :: string
  op_payload :: 'p
  op_ttl :: duration
  op_require_key :: bool
  op_exec_timeout :: duration

record ('p, 'd) libs =
  lib_sha256_hex :: "string \<Rightarrow> string"
  lib_marshal_payload :: "'p \<Rightarrow> string option"
  lib_marshal :: "'d \<Rightarrow> string option"
  lib_unmarshal :: "string \<Rightarrow> 'd option"
  lib_empty_object :: 'd
  lib_redact :: "string \<Rightarrow> string"

record 'd idem_result =
  rs_data :: 'd
  rs_replayed :: bool

section \<open>Errors\<close>

definition err_key_required :: go_error where
  "err_key_required = bad_request ''IDEMPOTENCY_KEY_REQUIRED'' ''idempotency key is required''"
definition err_key_invalid :: go_error where
  "err_key_invalid = bad_request ''IDEMPOTENCY_KEY_INVALID'' ''idempotency key is invalid''"
definition err_key_conflict :: go_error where
  "err_key_conflict = conflict_error ''IDEMPOTENCY_KEY_CONFLICT'' ''idempotency key reused with different payload''"
definition err_in_progress :: go_error where
  "err_in_progress = conflict_error ''IDEMPOTENCY_IN_PROGRESS'' ''idempotent request is still processing''"
definition err_retry_backoff :: go_error where
  "err_retry_backoff = conflict_error ''IDEMPOTENCY_RETRY_BACKOFF'' ''idempotent request is in retry backoff window''"
definition err_store_unavail :: go_error where
  "err_store_unavail = service_unavailable ''IDEMPOTENCY_STORE_UNAVAILABLE'' ''idempotency store unavailable''"
definition err_invalid_payload :: go_error where
  "err_invalid_payload = bad_request ''IDEMPOTENCY_PAYLOAD_INVALID'' ''failed to normalize request payload''"
definition err_executor_nil :: go_error where
  "err_executor_nil = internal_server ''IDEMPOTENCY_EXECUTOR_NIL'' ''idempotency executor is nil''"
definition err_scope_required :: go_error where
  "err_scope_required = bad_request ''IDEMPOTENCY_SCOPE_REQUIRED'' ''idempotency scope is required''"

definition err_database :: go_error where "err_database = Other_Error ''database'' None"
definition err_json :: go_error where "err_json = Other_Error ''json'' None"

lemmas idem_error_defs = err_key_required_def err_key_invalid_def err_key_conflict_def
  err_in_progress_def err_retry_backoff_def err_store_unavail_def err_invalid_payload_def
  err_executor_nil_def err_scope_required_def err_database_def err_json_def

section \<open>Keys and fingerprints\<close>

definition normalize_idempotency_key :: "string \<Rightarrow> go_error + string" where
  "normalize_idempotency_key raw = (let key = trim_space raw in
     if key = [] then Inr []
     else if length key > 128 then Inl err_key_invalid
     else if list_all graph_ascii key then Inr key else Inl err_key_invalid)"

definition hash_idempotency_key :: "('p, 'd) libs \<Rightarrow> string \<Rightarrow> string" where
  "hash_idempotency_key L key = lib_sha256_hex L key"

definition build_idempotency_fingerprint ::
  "('p, 'd) libs \<Rightarrow> string \<Rightarrow> string \<Rightarrow> string \<Rightarrow> 'p \<Rightarrow> go_error + string" where
  "build_idempotency_fingerprint L method route actor payload =
     (let method = (if method = [] then ''POST'' else method);
          route = (if route = [] then ''/'' else route);
          actor = (if actor = [] then ''anonymous'' else actor);
          nl = [char_of (10::nat)]
      in case lib_marshal_payload L payload of
           None \<Rightarrow> Inl (with_cause err_invalid_payload err_json)
         | Some raw \<Rightarrow> Inr (lib_sha256_hex L (to_upper method @ nl @ route @ nl @ actor @ nl @ raw)))"

definition retry_after_seconds_from_error :: "go_error option \<Rightarrow> int" where
  "retry_after_seconds_from_error err =
     (case Option.bind err as_app_error of None \<Rightarrow> 0
      | Some (st, _) \<Rightarrow> (case st_metadata st of None \<Rightarrow> 0
        | Some md \<Rightarrow>
          let v = trim_space (case map_of md ''retry_after'' of None \<Rightarrow> [] | Some x \<Rightarrow> x) in
          if v = [] then 0
          else case atoi v of None \<Rightarrow> 0 | Some n \<Rightarrow> if n \<le> 0 then 0 else n))"

definition conflict_with_retry_after :: "go_error \<Rightarrow> time option \<Rightarrow> time \<Rightarrow> go_error" where
  "conflict_with_retry_after base locked now =
     (case locked of None \<Rightarrow> base
      | Some l \<Rightarrow> let sec = seconds_trunc (time_sub l now); sec = (if sec \<le> 0 then 1 else sec)
                  in with_metadata base [(''retry_after'', itoa sec)])"

section \<open>Stored responses\<close>

fun utf8_cut :: "string \<Rightarrow> nat \<Rightarrow> nat" where
  "utf8_cut s 0 = 0"
| "utf8_cut s (Suc n) = (if utf8_valid (take (Suc n) s) then Suc n else utf8_cut s n)"

definition truncate_utf8 :: "string \<Rightarrow> int \<Rightarrow> string" where
  "truncate_utf8 s m = (if m \<le> 0 \<or> int (length s) \<le> m then s else take (utf8_cut s (nat m)) s)"

abbreviation truncated_mark :: string where "truncated_mark \<equiv> ''...(truncated)''"

definition marshal_stored_response :: "('p, 'd) libs \<Rightarrow> idem_config \<Rightarrow> 'd \<Rightarrow> go_error + string" where
  "marshal_stored_response L cfg data = (case lib_marshal L data of
     None \<Rightarrow> Inl err_json
   | Some raw \<Rightarrow> let redacted = lib_redact L raw in
       Inr (if 0 < cf_max_stored cfg \<and> cf_max_stored cfg < int (length redacted)
            then truncate_utf8 redacted (cf_max_stored cfg) @ truncated_mark else redacted))"

definition decode_stored_response :: "('p, 'd) libs \<Rightarrow> string option \<Rightarrow> go_error + 'd" where
  "decode_stored_response L stored = (case stored of None \<Rightarrow> Inr (lib_empty_object L)
   | Some b \<Rightarrow> if trim_space b = [] then Inr (lib_empty_object L)
       else case lib_unmarshal L b of
         None \<Rightarrow> Inl (Other_Error ''decode stored response'' (Some err_json)) | Some d \<Rightarrow> Inr d)"

section \<open>Calls of the repository\<close>

datatype call_fault = No_Fault | Lost_Request | Lost_Reply

record env_step =
  env_ops :: "store_op list"
  env_fault :: call_fault
  env_dbnow :: time

type_synonym idem_env = "nat \<Rightarrow> env_step"

definition env_others :: "env_step \<Rightarrow> idem_store \<Rightarrow> idem_store" where
  "env_others e s = snd (store_run (env_ops e) s)"

definition repo_call ::
  "env_step \<Rightarrow> (time \<Rightarrow> idem_store \<Rightarrow> 'r \<times> idem_store) \<Rightarrow> idem_store \<Rightarrow> 'r option \<times> idem_store" where
  "repo_call e stmt s = (let s1 = env_others e s; (r, s2) = stmt (env_dbnow e) s1 in
     case env_fault e of No_Fault \<Rightarrow> (Some r, s2)
     | Lost_Request \<Rightarrow> (None, s1) | Lost_Reply \<Rightarrow> (None, s2))"

section \<open>Execute\<close>

datatype 'd claim =
    Claim_Return "go_error + 'd idem_result"
  | Claim_Owned int

definition unavail :: "go_error option \<Rightarrow> 'd claim" where
  "unavail c = Claim_Return (Inl (case c of None \<Rightarrow> err_store_unavail
     | Some e \<Rightarrow> with_cause err_store_unavail e))"

text \<open>The switch on the status of a row that somebody else claimed.\<close>

definition idem_on_status ::
  "('p, 'd) libs \<Rightarrow> idem_env \<Rightarrow> idem_row \<Rightarrow> time \<Rightarrow> time \<Rightarrow> time \<Rightarrow> idem_store \<Rightarrow> 'd claim \<times> idem_store" where
  "idem_on_status L env existing now lu ex s =
     (case ir_status existing of
        Succeeded \<Rightarrow> (case decode_stored_response L (ir_resp_body existing) of
            Inl e \<Rightarrow> (unavail (Some e), s)
          | Inr d \<Rightarrow> (Claim_Return (Inr \<lparr>rs_data = d, rs_replayed = True\<rparr>), s))
      | Processing \<Rightarrow> (Claim_Return (Inl (conflict_with_retry_after err_in_progress
            (ir_locked existing) now)), s)
      | Failed_Retryable \<Rightarrow>
          (if (case ir_locked existing of None \<Rightarrow> False | Some l \<Rightarrow> now < l)
           then (Claim_Return (Inl (conflict_with_retry_after err_retry_backoff
             (ir_locked existing) now)), s)
           else (case repo_call (env 4)
               (\<lambda>t. try_reclaim t (ir_id existing) Failed_Retryable now lu ex) s of
              (None, s1) \<Rightarrow> (unavail (Some err_database), s1)
            | (Some False, s1) \<Rightarrow> (Claim_Return (Inl (conflict_with_retry_after err_in_progress
                (ir_locked existing) now)), s1)
            | (Some True, s1) \<Rightarrow> (Claim_Owned (ir_id existing), s1)))
      | Other_Status _ \<Rightarrow> (Claim_Return (Inl err_key_conflict), s))"

definition idem_on_existing ::
  "('p, 'd) libs \<Rightarrow> idem_env \<Rightarrow> string \<Rightarrow> string \<Rightarrow> string \<Rightarrow> time \<Rightarrow> time \<Rightarrow> time \<Rightarrow> idem_store
    \<Rightarrow> 'd claim \<times> idem_store" where
  "idem_on_existing L env scope keyhash fp now lu ex s =
     (case repo_call (env 1) (\<lambda>t s. (get_by_scope_and_key_hash scope keyhash s, s)) s of
        (None, s1) \<Rightarrow> (unavail (Some err_database), s1)
      | (Some None, s1) \<Rightarrow> (unavail None, s1)
      | (Some (Some existing), s1) \<Rightarrow>
          if ir_fp existing \<noteq> fp then (Claim_Return (Inl err_key_conflict), s1)
          else if ir_expires existing \<le> now then
            (case repo_call (env 2)
                (\<lambda>t. try_reclaim t (ir_id existing) (ir_status existing) now lu ex) s1 of
               (None, s2) \<Rightarrow> (unavail (Some err_database), s2)
             | (Some True, s2) \<Rightarrow> (Claim_Owned (ir_id existing), s2)
             | (Some False, s2) \<Rightarrow>
                 (case repo_call (env 3) (\<lambda>t s. (get_by_scope_and_key_hash scope keyhash s, s)) s2 of
                    (None, s3) \<Rightarrow> (unavail (Some err_database), s3)
                  | (Some None, s3) \<Rightarrow> (unavail None, s3)
                  | (Some (Some latest), s3) \<Rightarrow>
                      if ir_fp latest \<noteq> fp then (Claim_Return (Inl err_key_conflict), s3)
                      else idem_on_status L env latest now lu ex s3))
          else idem_on_status L env existing now lu ex s1)"

definition processing_record :: "string \<Rightarrow> string \<Rightarrow> string \<Rightarrow> time \<Rightarrow> time \<Rightarrow> idem_row" where
  "processing_record scope keyhash fp lu ex =
     \<lparr>ir_id = 0, ir_scope = scope, ir_key = keyhash, ir_fp = fp, ir_status = Processing,
      ir_resp_status = None, ir_resp_body = None, ir_err = None, ir_locked = Some lu,
      ir_expires = ex, ir_created = 0, ir_updated = 0\<rparr>"

definition idem_claim ::
  "('p, 'd) libs \<Rightarrow> idem_env \<Rightarrow> string \<Rightarrow> string \<Rightarrow> string \<Rightarrow> time \<Rightarrow> time \<Rightarrow> time \<Rightarrow> idem_store
    \<Rightarrow> 'd claim \<times> idem_store" where
  "idem_claim L env scope keyhash fp now lu ex s =
     (case repo_call (env 0) (\<lambda>t. create_processing t (processing_record scope keyhash fp lu ex)) s of
        (None, s1) \<Rightarrow> (unavail (Some err_database), s1)
      | (Some (True, rec), s1) \<Rightarrow> (Claim_Owned (ir_id rec), s1)
      | (Some (False, _), s1) \<Rightarrow> idem_on_existing L env scope keyhash fp now lu ex s1)"

text \<open>Running the callback and recording its outcome, once the row \<open>i\<close> is owned.\<close>

definition idem_finish ::
  "('p, 'd) libs \<Rightarrow> idem_config \<Rightarrow> 'p idem_opts \<Rightarrow> idem_env \<Rightarrow> (go_error + 'd) \<Rightarrow> int \<Rightarrow> duration
    \<Rightarrow> time \<Rightarrow> time \<Rightarrow> time \<Rightarrow> idem_store \<Rightarrow> (go_error + 'd idem_result) \<times> idem_store" where
  "idem_finish L cfg opts env result i ttl ex t1 t2 s =
     (let ex = (if 0 < op_exec_timeout opts then t1 + ttl else ex) in
      case result of
        Inl execErr \<Rightarrow>
          let reason = error_reason (Some execErr);
              reason = (if reason = [] then ''EXECUTION_FAILED'' else reason)
          in (Inl execErr, snd (repo_call (env 5)
                (\<lambda>t s. ((), mark_failed_retryable t i reason (t2 + cf_backoff cfg) ex s)) s))
      | Inr data \<Rightarrow> (case marshal_stored_response L cfg data of
          Inl e \<Rightarrow> (Inl (with_cause err_store_unavail e), s)
        | Inr body \<Rightarrow> (case repo_call (env 5) (\<lambda>t s. ((), mark_succeeded t i 200 body ex s)) s of
            (None, s1) \<Rightarrow> (Inl (with_cause err_store_unavail err_database), s1)
          | (Some _, s1) \<Rightarrow> (Inr \<lparr>rs_data = data, rs_replayed = False\<rparr>, s1))))"

text \<open>
  \<open>Execute\<close>. \<open>repo_present\<close> says whether the repository is non-nil, \<open>callback\<close> is the result of
  the function to run (\<open>None\<close>: a nil function). The second component of the result says whether
  the callback was run.
\<close>

definition idem_execute ::
  "('p, 'd) libs \<Rightarrow> idem_config \<Rightarrow> bool \<Rightarrow> 'p idem_opts \<Rightarrow> idem_env \<Rightarrow> (go_error + 'd) option
    \<Rightarrow> time \<Rightarrow> time \<Rightarrow> time \<Rightarrow> idem_store \<Rightarrow> (go_error + 'd idem_result) \<times> bool \<times> idem_store" where
  "idem_execute L cfg repo_present opts env callback t0 t1 t2 s =
     (case callback of None \<Rightarrow> (Inl err_executor_nil, False, s)
      | Some result \<Rightarrow>
     (case normalize_idempotency_key (op_key opts) of Inl e \<Rightarrow> (Inl e, False, s)
      | Inr key \<Rightarrow>
        if key = [] then
          (if op_require_key opts \<and> \<not> cf_observe_only cfg then (Inl err_key_required, False, s)
           else (map_sum id (\<lambda>d. \<lparr>rs_data = d, rs_replayed = False\<rparr>) result, True, s))
        else if \<not> repo_present then (Inl err_store_unavail, False, s)
        else if op_scope opts = [] then (Inl err_scope_required, False, s)
        else case build_idempotency_fingerprint L (op_method opts) (op_route opts)
               (op_actor opts) (op_payload opts) of
            Inl e \<Rightarrow> (Inl e, False, s)
          | Inr fp \<Rightarrow>
            let ttl = (if op_ttl opts \<le> 0 then cf_default_ttl cfg else op_ttl opts);
                ex = t0 + ttl; lu = t0 + cf_timeout cfg
            in (case idem_claim L env (op_scope opts) (hash_idempotency_key L key) fp t0 lu ex s of
                  (Claim_Return r, s1) \<Rightarrow> (r, False, s1)
                | (Claim_Owned i, s1) \<Rightarrow>
                    if i = 0 then (Inl err_store_unavail, False, s1)
                    else (case idem_finish L cfg opts env result i ttl ex t1 t2 s1 of
                       (r, s2) \<Rightarrow> (r, True, s2)))))"

text \<open>One tick of the lease renewal goroutine: renewal stops when the row is no longer ours.\<close>

definition renew_lease :: "idem_config \<Rightarrow> duration" where
  "renew_lease cfg = (if cf_timeout cfg \<le> 0 then cf_timeout default_idempotency_config else cf_timeout cfg)"

definition renew_interval :: "idem_config \<Rightarrow> duration \<Rightarrow> duration" where
  "renew_interval cfg ttl = (let i = min (renew_lease cfg sdiv 3) (ttl sdiv 3)
     in if i < millisecond then millisecond else i)"

definition renew_tick ::
  "idem_config \<Rightarrow> duration \<Rightarrow> idem_row \<Rightarrow> time \<Rightarrow> env_step \<Rightarrow> idem_store \<Rightarrow> bool \<times> idem_store" where
  "renew_tick cfg ttl rec now e s =
     (case repo_call e (\<lambda>t. extend_processing_lock t (ir_id rec) (ir_fp rec)
         (now + renew_lease cfg) (now + ttl)) s of
        (None, s1) \<Rightarrow> (True, s1)
      | (Some ok, s1) \<Rightarrow> (ok, s1))"

section \<open>Calls of the repository keep the invariant\<close>

lemma env_others_inv [gw_inv]: "idem_inv s \<Longrightarrow> idem_inv (env_others e s)"
  by (simp add: env_others_def store_run_inv)

lemma repo_call_inv:
  assumes "\<And>t s. idem_inv s \<Longrightarrow> idem_inv (snd (stmt t s))" "idem_inv s"
  shows "idem_inv (snd (repo_call e stmt s))"
  using assms by (auto simp: repo_call_def Let_def split_beta env_others_inv split: call_fault.splits)

lemma repo_call_Some:
  assumes "repo_call e stmt s = (Some r, s')"
  shows "stmt (env_dbnow e) (env_others e s) = (r, s')"
  using assms by (auto simp: repo_call_def Let_def split_beta prod_eq_iff split: call_fault.splits)

lemma repo_call_state:
  "repo_call e stmt s = (x, s') \<Longrightarrow> s' = snd (repo_call e stmt s)"
  by simp

lemma idem_on_status_inv:
  "idem_inv s \<Longrightarrow> idem_inv (snd (idem_on_status L env r now lu ex s))"
  using repo_call_inv [of "\<lambda>t. try_reclaim t (ir_id r) Failed_Retryable now lu ex" s "env 4"]
  by (auto simp: idem_on_status_def repo.reclaim_inv split: idem_status.splits sum.splits prod.splits
      option.splits bool.splits)

lemma idem_on_existing_inv:
  assumes "idem_inv s"
  shows "idem_inv (snd (idem_on_existing L env sc kh fp now lu ex s))"
proof -
  have g: "idem_inv (snd (repo_call e (\<lambda>t s. (get_by_scope_and_key_hash sc kh s, s)) s'))"
    if "idem_inv s'" for e s' using that by (intro repo_call_inv) auto
  have r: "idem_inv (snd (repo_call e (\<lambda>t. try_reclaim t i frm now lu ex) s'))"
    if "idem_inv s'" for e i frm s' using that by (intro repo_call_inv repo.reclaim_inv)
  show ?thesis
    using assms unfolding idem_on_existing_def
    by (auto split: prod.splits option.splits bool.splits intro!: idem_on_status_inv
        dest!: repo_call_state intro: g r)
qed

lemma idem_claim_inv:
  assumes "idem_inv s"
  shows "idem_inv (snd (idem_claim L env sc kh fp now lu ex s))"
proof -
  have c: "idem_inv (snd (repo_call e (\<lambda>t. create_processing t rec) s))" for e rec
    using assms by (intro repo_call_inv repo.create_inv)
  show ?thesis
    unfolding idem_claim_def
    by (auto split: prod.splits option.splits bool.splits dest!: repo_call_state
        intro: c idem_on_existing_inv)
qed

lemma idem_finish_inv:
  assumes "idem_inv s"
  shows "idem_inv (snd (idem_finish L cfg opts env res i ttl ex t1 t2 s))"
proof -
  have "idem_inv (snd (repo_call e (\<lambda>t s. ((), mark_succeeded t i 200 b ex s)) s))"
    "idem_inv (snd (repo_call e (\<lambda>t s. ((), mark_failed_retryable t i w lu ex s)) s))" for e b w lu ex
    using assms by (auto intro!: repo_call_inv repo.mark_ok_inv repo.mark_fail_inv)
  with assms show ?thesis
    by (auto simp: idem_finish_def Let_def split: sum.splits prod.splits option.splits
        dest!: repo_call_state)
qed

lemma idem_execute_inv:
  assumes "idem_inv s"
  shows "idem_inv (snd (snd (idem_execute L cfg present opts env cb t0 t1 t2 s)))"
proof -
  have c: "idem_inv s'" if "idem_claim L env sc kh fp now lu ex s = (x, s')" for sc kh fp now lu ex x s'
    using idem_claim_inv [OF assms, of L env sc kh fp now lu ex] that by simp
  have f: "idem_inv s''" if "idem_inv s'" "idem_finish L cfg opts env res i ttl ex t1 t2 s' = (x, s'')"
    for s' s'' res i ttl ex x
    using idem_finish_inv [OF that(1), of L cfg opts env res i ttl ex t1 t2] that(2) by simp
  show ?thesis
    by (auto simp: idem_execute_def Let_def assms split: option.splits sum.splits prod.splits
        claim.splits dest: c intro: f [OF c])
qed

end
