(* ===== verification/Idempotency_Laws.thy ===== *)
theory Idempotency_Laws
  imports Idempotency "HOL-Library.Sublist"
begin

text \<open>
  What \<open>IdempotencyCoordinator.Execute\<close> guarantees: who owns a row when the callback starts, that
  a leased row keeps every other process from running, replay of a stored response, conflict on
  a reused key, retry after a failure, and the helpers on keys and stored bodies.
\<close>

section \<open>Ownership\<close>

lemma row_view_lt: "idem_inv s \<Longrightarrow> row_view s i = Some r \<Longrightarrow> i < st_next s"
  by (auto simp: row_view_Some_iff idem_inv_def list_all_iff)

lemma env_others_ident: "idem_inv s \<Longrightarrow> ident_stable s (env_others e s)"
  by (simp add: env_others_def store_run_ident)

lemma repo_get_Some:
  assumes "idem_inv s" "repo_call e (\<lambda>t s. (get_by_scope_and_key_hash sc kh s, s)) s = (Some (Some r), s')"
  shows "idem_inv s' \<and> row_view s' (ir_id r) = Some r \<and> ir_scope r = sc \<and> ir_key r = kh"
proof -
  have g: "get_by_scope_and_key_hash sc kh s' = Some r" "s' = env_others e s"
    using repo_call_Some [OF assms(2)] by auto
  then have inv: "idem_inv s'" using assms(1) by (simp add: env_others_inv)
  with g(1) obtain i where "row_view s' i = Some r" "ir_scope r = sc" "ir_key r = kh"
    by (auto simp: repo.get_iff)
  with inv repo.view_id [OF inv this(1)] show ?thesis by simp
qed

definition owned_row :: "idem_store \<Rightarrow> int \<Rightarrow> string \<Rightarrow> string \<Rightarrow> string \<Rightarrow> time \<Rightarrow> time \<Rightarrow> bool" where
  "owned_row s i sc kh fp lu ex \<longleftrightarrow> (\<exists>r. row_view s i = Some r \<and> ir_status r = Processing
     \<and> ir_locked r = Some lu \<and> ir_expires r = ex \<and> ir_scope r = sc \<and> ir_key r = kh \<and> ir_fp r = fp)"

lemma reclaim_owned:
  assumes "idem_inv s0" "row_view s0 i = Some r0" "idem_inv s" "ident_stable s0 s"
    and "repo_call e (\<lambda>t. try_reclaim t i frm now lu ex) s = (Some True, s')"
  shows "owned_row s' i (ir_scope r0) (ir_key r0) (ir_fp r0) lu ex"
proof -
  let ?s = "env_others e s"
  have inv: "idem_inv ?s" and id: "ident_stable s0 ?s"
    using assms(3,4) by (auto intro: env_others_inv env_others_ident ident_stable_trans)
  have r: "fst (try_reclaim (env_dbnow e) i frm now lu ex ?s)"
    "s' = snd (try_reclaim (env_dbnow e) i frm now lu ex ?s)"
    using repo_call_Some [OF assms(5)] by auto
  then obtain r where v: "row_view ?s i = Some r" "reclaimable frm now r"
    using inv by (auto simp: repo.reclaim_ok)
  have "row_key r = row_key r0 \<and> ir_fp r = ir_fp r0"
    using ident_stableD [OF id v(1) row_view_lt [OF assms(1,2)]] assms(2) by auto
  with v r(2) inv show ?thesis by (auto simp: owned_row_def repo.reclaim_view reclaimed_def)
qed

lemma idem_on_status_owned:
  assumes "idem_inv s" "row_view s (ir_id r) = Some r"
    and "idem_on_status L env r now lu ex s = (Claim_Owned i, s')"
  shows "owned_row s' i (ir_scope r) (ir_key r) (ir_fp r) lu ex"
  using assms(3) reclaim_owned [OF assms(1,2) assms(1) ident_stable_refl]
  by (auto simp: idem_on_status_def unavail_def split: idem_status.splits sum.splits prod.splits
      option.splits bool.splits if_splits)

lemma repo_call_ident:
  assumes "repo_call e stmt s = (x, s')" "idem_inv s"
    and "\<And>t s. idem_inv s \<Longrightarrow> ident_stable s (snd (stmt t s))"
  shows "ident_stable s s'"
  using assms(1) env_others_ident [OF assms(2), of e] env_others_inv [OF assms(2), of e] assms(3)
  by (auto simp: repo_call_def Let_def split_beta intro: ident_stable_trans split: call_fault.splits)

lemma reclaim_call_keeps:
  assumes "repo_call e (\<lambda>t. try_reclaim t i frm now lu ex) s = (x, s')" "idem_inv s"
  shows "idem_inv s'" "ident_stable s s'"
proof -
  show "idem_inv s'"
    using repo_call_inv [of "\<lambda>t. try_reclaim t i frm now lu ex" s e] assms by (simp add: repo.reclaim_inv)
  have "ident_stable s (snd (try_reclaim t i frm now lu ex s))" if "idem_inv s" for t s
    using store_op_ident [OF that, of "Op_Reclaim t i frm now lu ex"] by simp
  then show "ident_stable s s'" by (rule repo_call_ident [OF assms])
qed

lemma idem_on_existing_owned:
  assumes "idem_inv s" "idem_on_existing L env sc kh fp now lu ex s = (Claim_Owned i, s')"
  shows "owned_row s' i sc kh fp lu ex"
proof -
  let ?get = "\<lambda>t s. (get_by_scope_and_key_hash sc kh s, s)"
  obtain r s1 where g: "repo_call (env 1) ?get s = (Some (Some r), s1)"
    using assms(2) by (auto simp: idem_on_existing_def unavail_def split: prod.splits option.splits)
  note r = repo_get_Some [OF assms(1) g]
  have fp: "ir_fp r = fp"
    using assms(2) g by (auto simp: idem_on_existing_def split: if_splits)
  show ?thesis
  proof (cases "ir_expires r \<le> now")
    case False
    with assms(2) g fp have "idem_on_status L env r now lu ex s1 = (Claim_Owned i, s')"
      by (simp add: idem_on_existing_def)
    with r fp show ?thesis using idem_on_status_owned [of s1 r] by auto
  next
    case True
    obtain b s2 where c: "repo_call (env 2) (\<lambda>t. try_reclaim t (ir_id r) (ir_status r) now lu ex) s1 = (Some b, s2)"
      using assms(2) g fp True by (auto simp: idem_on_existing_def unavail_def split: prod.splits option.splits)
    have s2: "idem_inv s2" using reclaim_call_keeps [OF c] r by simp
    show ?thesis
    proof (cases b)
      case True
      with assms(2) g fp c \<open>ir_expires r \<le> now\<close> have "i = ir_id r" "s' = s2"
        by (auto simp: idem_on_existing_def)
      then show ?thesis using reclaim_owned [of s1 "ir_id r" r s1] r fp c True
        by (auto simp: ident_stable_refl)
    next
      case False
      obtain q s3 where q: "repo_call (env 3) ?get s2 = (Some (Some q), s3)"
        using assms(2) g fp c \<open>ir_expires r \<le> now\<close> False
        by (auto simp: idem_on_existing_def unavail_def split: prod.splits option.splits)
      note q' = repo_get_Some [OF s2 q]
      have "ir_fp q = fp" "idem_on_status L env q now lu ex s3 = (Claim_Owned i, s')"
        using assms(2) g fp c \<open>ir_expires r \<le> now\<close> False q by (auto simp: idem_on_existing_def split: if_splits)
      with q' show ?thesis using idem_on_status_owned [of s3 q] by auto
    qed
  qed
qed

text \<open>
  Whatever other processes do between its calls and whichever calls fail, when
  \<open>Execute\<close> has decided to run the callback, the row it owns is the row of its own scope, key hash
  and request fingerprint, in status \<open>processing\<close>, locked and kept for exactly the lease and TTL
  it asked for.
\<close>

theorem idem_claim_owns:
  assumes "idem_inv s" "idem_claim L env sc kh fp now lu ex s = (Claim_Owned i, s')"
  shows "owned_row s' i sc kh fp lu ex"
proof -
  let ?rec = "processing_record sc kh fp lu ex"
  obtain b rec s1 where c: "repo_call (env 0) (\<lambda>t. create_processing t ?rec) s = (Some (b, rec), s1)"
    using assms(2) by (auto simp: idem_claim_def unavail_def split: prod.splits option.splits)
  let ?s = "env_others (env 0) s"
  have inv: "idem_inv ?s" using assms(1) by (rule env_others_inv)
  have cp: "create_processing (env_dbnow (env 0)) ?rec ?s = ((b, rec), s1)"
    using repo_call_Some [OF c] .
  then have s1: "idem_inv s1" using repo.create_inv [OF inv, of "env_dbnow (env 0)" ?rec] by simp
  show ?thesis
  proof (cases b)
    case True
    with assms(2) c have "i = ir_id rec" "s' = s1" by (auto simp: idem_claim_def)
    with repo.create_row [OF inv, of "env_dbnow (env 0)" ?rec] cp True show ?thesis
      by (auto simp: owned_row_def processing_record_def)
  next
    case False
    with assms(2) c have "idem_on_existing L env sc kh fp now lu ex s1 = (Claim_Owned i, s')"
      by (simp add: idem_claim_def)
    with s1 show ?thesis by (rule idem_on_existing_owned)
  qed
qed

section \<open>A leased row keeps the others from running\<close>

lemma lease_held_others:
  "lease_held i l ex r s \<Longrightarrow> list_all (respects_lease i l ex) (env_ops e) \<Longrightarrow>
     lease_held i l ex r (env_others e s)"
  by (simp add: env_others_def lease_held_run)

lemma lease_held_call:
  assumes "lease_held i l ex r s" "list_all (respects_lease i l ex) (env_ops e)"
    and "\<And>t s. lease_held i l ex r s \<Longrightarrow> lease_held i l ex r (snd (stmt t s))"
    and "repo_call e stmt s = (x, s')"
  shows "lease_held i l ex r s'"
  using assms(3,4) lease_held_others [OF assms(1,2)]
  by (auto simp: repo_call_def Let_def split_beta split: call_fault.splits)

lemma lease_held_create: "lease_held i l ex r s \<Longrightarrow> lease_held i l ex r (snd (create_processing t rec s))"
  using lease_held_step(1) [of i l ex r s "Op_Create t rec"] by simp

lemma lease_held_reclaim:
  "lease_held i l ex r s \<Longrightarrow> now < l \<Longrightarrow> lease_held i l ex r (snd (try_reclaim t j frm now lu ex' s))"
  using lease_held_step(1) [of i l ex r s "Op_Reclaim t j frm now lu ex'"] by simp

lemma lease_held_get:
  assumes "lease_held i l ex r s" "get_by_scope_and_key_hash (ir_scope r) (ir_key r) s = Some q"
  shows "ir_id q = i \<and> ir_status q = Processing"
proof -
  from assms(1) obtain r' where inv: "idem_inv s" and r': "row_view s i = Some r'"
    "row_key r' = row_key r" "ir_status r' = Processing" by (auto simp: lease_held_def)
  from inv assms(2) obtain j where j: "row_view s j = Some q" "row_key q = row_key r"
    by (auto simp: repo.get_iff)
  with repo.view_key [OF inv r'(1) j(1)] r' have "j = i" "q = r'" by auto
  with r' repo.view_id [OF inv r'(1)] show ?thesis by simp
qed

lemma lease_held_get_call:
  assumes "lease_held i l ex r s" "list_all (respects_lease i l ex) (env_ops e)"
    and "repo_call e (\<lambda>t s. (get_by_scope_and_key_hash (ir_scope r) (ir_key r) s, s)) s = (x, s')"
  shows "lease_held i l ex r s' \<and> (\<forall>q. x = Some (Some q) \<longrightarrow> ir_id q = i \<and> ir_status q = Processing)"
proof -
  have "lease_held i l ex r s'" by (rule lease_held_call [OF assms(1,2) _ assms(3)]) simp
  moreover have "get_by_scope_and_key_hash (ir_scope r) (ir_key r) s' = Some q" if "x = Some (Some q)" for q
    using repo_call_Some [of e _ s "Some q" s'] assms(3) that by auto
  ultimately show ?thesis by (auto dest: lease_held_get)
qed

lemma leased_reclaim_fails:
  assumes "lease_held i l ex r s" "list_all (respects_lease i l ex) (env_ops e)" "now < l"
    and "repo_call e (\<lambda>t. try_reclaim t i frm now lu ex') s = (x, s')"
  shows "lease_held i l ex r s' \<and> x \<noteq> Some True"
proof -
  have "lease_held i l ex r s'"
    by (rule lease_held_call [OF assms(1,2) _ assms(4)]) (simp add: lease_held_reclaim assms(3))
  moreover have "\<not> fst (try_reclaim t i frm now lu ex' (env_others e s))" for t
    using lease_held_others [OF assms(1,2)] assms(3)
    by (auto simp: lease_held_def repo.reclaim_ok reclaimable_def)
  ultimately show ?thesis using repo_call_Some [of e _ s True s'] assms(4)
    by (metis fst_conv)
qed

lemma idem_on_existing_leased:
  assumes h: "lease_held i l ex0 r s" and env: "\<And>k. list_all (respects_lease i l ex0) (env_ops (env k))"
    and now: "now < l"
    and c: "idem_on_existing L env (ir_scope r) (ir_key r) fp now lu ex s = (x, s')"
  shows "lease_held i l ex0 r s' \<and> (\<exists>a. x = Claim_Return a)"
proof -
  let ?get = "\<lambda>t s. (get_by_scope_and_key_hash (ir_scope r) (ir_key r) s, s)"
  have st: "idem_on_status L env q now lu ex s1 = (y, s2) \<Longrightarrow> s2 = s1 \<and> (\<exists>a. y = Claim_Return a)"
    if "ir_status q = Processing" for q y s1 s2
    using that by (auto simp: idem_on_status_def)
  obtain a s1 where g: "repo_call (env 1) ?get s = (a, s1)" by force
  note g' = lease_held_get_call [OF h env g]
  show ?thesis
  proof (cases "\<exists>q. a = Some (Some q) \<and> ir_fp q = fp \<and> ir_expires q \<le> now")
    case False
    with c g g' show ?thesis
      by (auto simp: idem_on_existing_def unavail_def split: option.splits if_splits dest!: st)
  next
    case True
    then obtain q where q: "a = Some (Some q)" "ir_fp q = fp" "ir_expires q \<le> now" by blast
    obtain b s2 where rc: "repo_call (env 2) (\<lambda>t. try_reclaim t (ir_id q) (ir_status q) now lu ex) s1 = (b, s2)"
      by force
    have id: "ir_id q = i" using g' q(1) by simp
    have s2: "lease_held i l ex0 r s2" "b \<noteq> Some True"
      using leased_reclaim_fails [OF _ env now rc [unfolded id]] g' by auto
    obtain a3 s3 where g3: "repo_call (env 3) ?get s2 = (a3, s3)" by force
    note g3' = lease_held_get_call [OF s2(1) env g3]
    show ?thesis using c g q rc s2 g3 g3'
      by (auto simp: idem_on_existing_def unavail_def split: option.splits if_splits bool.splits dest!: st)
  qed
qed

lemma idem_claim_leased:
  assumes h: "lease_held i l ex0 r s" and env: "\<And>k. list_all (respects_lease i l ex0) (env_ops (env k))"
    and now: "now < l"
    and c: "idem_claim L env (ir_scope r) (ir_key r) fp now lu ex s = (x, s')"
  shows "lease_held i l ex0 r s' \<and> (\<exists>a. x = Claim_Return a)"
proof -
  let ?rec = "processing_record (ir_scope r) (ir_key r) fp lu ex"
  obtain y s1 where cr: "repo_call (env 0) (\<lambda>t. create_processing t ?rec) s = (y, s1)" by force
  have s1: "lease_held i l ex0 r s1" by (rule lease_held_call [OF h env _ cr]) (rule lease_held_create)
  have "\<not> fst (fst (create_processing t ?rec (env_others (env 0) s)))" for t
    using lease_held_others [OF h env, of 0] repo.present_blocks_create
    by (auto simp: lease_held_def processing_record_def)
  then have "y = Some (b, rec) \<Longrightarrow> \<not> b" for b rec
    using repo_call_Some [of "env 0" _ s "(b, rec)" s1] cr by (metis fst_conv)
  with c cr s1 show ?thesis
    by (auto simp: idem_claim_def unavail_def split: option.splits prod.splits bool.splits
        dest: idem_on_existing_leased [OF s1 env now])
qed

text \<open>
  Claim C1. While a row is leased (processing, locked until \<open>l\<close>) and the other processes respect
  the lease, a second \<open>Execute\<close> for the same scope and key that starts before \<open>l\<close> does not run its
  callback, whatever its payload, the faults it meets and the interleaving with other processes, and it leaves
  the lease intact.
\<close>

theorem idem_execute_mutual_exclusion:
  assumes "lease_held i l ex0 r s" "\<And>k. list_all (respects_lease i l ex0) (env_ops (env k))"
    and "normalize_idempotency_key (op_key opts) = Inr key" "key \<noteq> []"
    and "op_scope opts = ir_scope r" "hash_idempotency_key L key = ir_key r" "t0 < l"
  shows "\<not> fst (snd (idem_execute L cfg present opts env cb t0 t1 t2 s))
     \<and> lease_held i l ex0 r (snd (snd (idem_execute L cfg present opts env cb t0 t1 t2 s)))"
proof -
  have "lease_held i l ex0 r s' \<and> (\<exists>a. x = Claim_Return a)"
    if "idem_claim L env (ir_scope r) (ir_key r) fp t0 lu ex s = (x, s')" for x s' fp lu ex
    using idem_claim_leased [OF assms(1,2,7) that] .
  note claimed = this
  show ?thesis using assms(1,3-6)
    by (auto simp: idem_execute_def Let_def split: option.splits sum.splits prod.splits claim.splits dest!: claimed)
qed

section \<open>Replay, conflict and retry\<close>

text \<open>
  In a calm environment no other process writes and no call fails. A well-formed request has a
  usable key, a scope and a payload that can be fingerprinted.
\<close>

definition calm :: "idem_env \<Rightarrow> bool" where
  "calm env \<longleftrightarrow> (\<forall>k. env_ops (env k) = [] \<and> env_fault (env k) = No_Fault)"

definition idem_request :: "('p, 'd) libs \<Rightarrow> 'p idem_opts \<Rightarrow> string \<Rightarrow> string \<Rightarrow> bool" where
  "idem_request L opts kh fp \<longleftrightarrow> op_scope opts \<noteq> []
     \<and> (\<exists>key. normalize_idempotency_key (op_key opts) = Inr key \<and> key \<noteq> []
          \<and> hash_idempotency_key L key = kh)
     \<and> build_idempotency_fingerprint L (op_method opts) (op_route opts) (op_actor opts)
          (op_payload opts) = Inr fp"

abbreviation effective_ttl :: "idem_config \<Rightarrow> 'p idem_opts \<Rightarrow> duration" where
  "effective_ttl cfg opts \<equiv> (if op_ttl opts \<le> 0 then cf_default_ttl cfg else op_ttl opts)"

lemma repo_call_calm:
  "calm env \<Longrightarrow> repo_call (env k) stmt s = (Some (fst (stmt (env_dbnow (env k)) s)), snd (stmt (env_dbnow (env k)) s))"
  by (simp add: repo_call_def calm_def env_others_def split_beta)

lemma idem_execute_request:
  assumes "idem_request L opts kh fp"
  shows "idem_execute L cfg True opts env (Some res) t0 t1 t2 s =
    (case idem_claim L env (op_scope opts) kh fp t0 (t0 + cf_timeout cfg) (t0 + effective_ttl cfg opts) s of
       (Claim_Return r, s1) \<Rightarrow> (r, False, s1)
     | (Claim_Owned i, s1) \<Rightarrow> if i = 0 then (Inl err_store_unavail, False, s1)
         else (case idem_finish L cfg opts env res i (effective_ttl cfg opts) (t0 + effective_ttl cfg opts) t1 t2 s1 of
            (r, s2) \<Rightarrow> (r, True, s2)))"
  using assms by (auto simp: idem_request_def idem_execute_def Let_def)

lemma get_iff_view: 
  "idem_inv s \<Longrightarrow> get_by_scope_and_key_hash sc kh s = Some r \<longleftrightarrow>
     row_view s (ir_id r) = Some r \<and> ir_scope r = sc \<and> ir_key r = kh"
  using repo.view_id by (auto simp: repo.get_iff)

lemma claim_fresh_calm:
  assumes inv: "idem_inv s" and calm: "calm env" and none: "get_by_scope_and_key_hash sc kh s = None"
  obtains i r s' where "idem_claim L env sc kh fp now lu ex s = (Claim_Owned i, s')" "0 < i"
    "idem_inv s'" "row_view s' i = Some r" "ir_scope r = sc" "ir_key r = kh" "ir_fp r = fp"
proof -
  let ?rec = "processing_record sc kh fp lu ex" and ?t = "env_dbnow (env 0)"
  have new: "fst (fst (create_processing ?t ?rec s))"
    using none by (auto simp: repo.create_new [OF inv] processing_record_def repo.get_iff [OF inv]
        simp flip: not_Some_eq)
  obtain i where i: "0 < i" "snd (fst (create_processing ?t ?rec s)) = ?rec\<lparr>ir_id := i, ir_created := ?t, ir_updated := ?t\<rparr>"
    "row_view (snd (create_processing ?t ?rec s)) = (row_view s)(i \<mapsto> ?rec\<lparr>ir_id := i, ir_created := ?t, ir_updated := ?t,
           ir_resp_status := None, ir_resp_body := None, ir_err := None\<rparr>)"
    using repo.create_row [OF inv new] by blast
  have "idem_claim L env sc kh fp now lu ex s = (Claim_Owned i, snd (create_processing ?t ?rec s))"
    using new i(2) by (auto simp: idem_claim_def repo_call_calm [OF calm] split: prod.splits bool.splits)
  with i show ?thesis using repo.create_inv [OF inv, of ?t ?rec]
    by (intro that [of i "snd (create_processing ?t ?rec s)"]) (auto simp: processing_record_def)
qed

lemma claim_existing_calm:
  assumes inv: "idem_inv s" and calm: "calm env" and r: "get_by_scope_and_key_hash sc kh s = Some r"
    and ex: "now < ir_expires r"
  obtains s1 where "idem_claim L env sc kh fp now lu ex' s =
      (if ir_fp r \<noteq> fp then (Claim_Return (Inl err_key_conflict), s1)
       else idem_on_status L env r now lu ex' s1)"
    "idem_inv s1" "row_view s1 = row_view s"
proof -
  let ?rec = "processing_record sc kh fp lu ex'" and ?t = "env_dbnow (env 0)"
  let ?c = "create_processing ?t ?rec s"
  have old: "\<not> fst (fst ?c)"
    using r by (auto simp: repo.create_new [OF inv] processing_record_def repo.get_iff [OF inv])
  note s1 = repo.create_inv [OF inv, of ?t ?rec] conjunct1 [OF repo.create_old [OF inv old]]
  from s1 r inv have g: "get_by_scope_and_key_hash sc kh (snd ?c) = Some r" by (simp add: get_iff_view)
  have "idem_claim L env sc kh fp now lu ex' s = idem_on_existing L env sc kh fp now lu ex' (snd ?c)"
    using old by (auto simp: idem_claim_def repo_call_calm [OF calm] split: prod.splits bool.splits)
  also have "\<dots> = (if ir_fp r \<noteq> fp then (Claim_Return (Inl err_key_conflict), snd ?c)
       else idem_on_status L env r now lu ex' (snd ?c))"
    using g ex by (simp add: idem_on_existing_def repo_call_calm [OF calm])
  finally show ?thesis using s1 by (intro that)
qed

lemma execute_fresh_success:
  assumes inv: "idem_inv s" and calm: "calm env" and none: "get_by_scope_and_key_hash (op_scope opts) kh s = None"
    and req: "idem_request L opts kh fp" and m: "marshal_stored_response L cfg d = Inr body"
  obtains r s' where "idem_execute L cfg True opts env (Some (Inr d)) t0 t1 t2 s = (Inr \<lparr>rs_data = d, rs_replayed = False\<rparr>, True, s')"
    "idem_inv s'" "get_by_scope_and_key_hash (op_scope opts) kh s' = Some r" "ir_status r = Succeeded" "ir_fp r = fp"
    "ir_resp_body r = Some body" "ir_resp_status r = Some 200"
    "ir_expires r = (if 0 < op_exec_timeout opts then t1 else t0) + effective_ttl cfg opts"
proof -
  let ?ttl = "effective_ttl cfg opts"
  obtain i q s1 where c: "idem_claim L env (op_scope opts) kh fp t0 (t0 + cf_timeout cfg) (t0 + ?ttl) s = (Claim_Owned i, s1)"
    "0 < i" "idem_inv s1" "row_view s1 i = Some q" "ir_scope q = op_scope opts" "ir_key q = kh" "ir_fp q = fp"
    by (rule claim_fresh_calm [OF inv calm none])
  let ?ex = "(if 0 < op_exec_timeout opts then t1 else t0) + ?ttl"
  let ?s2 = "mark_succeeded (env_dbnow (env 5)) i 200 body ?ex s1"
  have f: "idem_finish L cfg opts env (Inr d) i ?ttl (t0 + ?ttl) t1 t2 s1 = (Inr \<lparr>rs_data = d, rs_replayed = False\<rparr>, ?s2)"
    using m by (simp add: idem_finish_def Let_def repo_call_calm [OF calm])
  have s2: "idem_inv ?s2" using c(3) by (rule repo.mark_ok_inv)
  have id: "ir_id q = i" using repo.view_id [OF c(3,4)] .
  let ?r = "q\<lparr>ir_status := Succeeded, ir_resp_status := Some 200,
            ir_resp_body := Some body, ir_err := None, ir_locked := None, ir_expires := ?ex,
            ir_updated := env_dbnow (env 5)\<rparr>"
  have "row_view ?s2 i = Some ?r" using c(3,4) by (simp add: repo.mark_ok_view)
  with s2 c(5,6) id have "get_by_scope_and_key_hash (op_scope opts) kh ?s2 = Some ?r"
    by (simp add: get_iff_view)
  moreover have "idem_execute L cfg True opts env (Some (Inr d)) t0 t1 t2 s = (Inr \<lparr>rs_data = d, rs_replayed = False\<rparr>, True, ?s2)"
    unfolding idem_execute_request [OF req] using c(1,2) f by simp
  ultimately show ?thesis using s2 c(7) by (intro that [of ?s2 ?r]) simp_all
qed

text \<open>
  Claim C2. The same answer. Let the store work without faults and nothing else touch it between the calls
  (\<open>calm\<close>), let the key have no row, and let the callback succeed with a response whose redacted JSON is not
  longer than \<open>cf_max_stored\<close>, not blank, and can be decoded. Then the request succeeds, and a repetition with
  the same key and payload before the row expires is answered with the stored response (the redacted
  response, decoded) and a replay mark, does not run its callback and leaves the row as it is. A longer
  response is cut when it is stored and can then not be replayed (\<open>truncated_response_not_replayed\<close>).
\<close>

theorem idem_execute_replays:
  assumes "idem_inv s" "calm env" "calm env'" "idem_request L opts kh fp"
    and "get_by_scope_and_key_hash (op_scope opts) kh s = None"
    and "lib_marshal L d = Some raw" "int (length (lib_redact L raw)) \<le> cf_max_stored cfg"
    and "trim_space (lib_redact L raw) \<noteq> []" "lib_unmarshal L (lib_redact L raw) = Some d'"
    and "idem_execute L cfg True opts env (Some (Inr d)) t0 t1 t2 s = (a, ran1, s1)"
    and "idem_execute L cfg True opts env' cb' u0 u1 u2 s1 = (b, ran2, s2)" "cb' \<noteq> None"
    and "u0 < (if 0 < op_exec_timeout opts then t1 else t0) + effective_ttl cfg opts"
  shows "a = Inr \<lparr>rs_data = d, rs_replayed = False\<rparr> \<and> ran1
     \<and> b = Inr \<lparr>rs_data = d', rs_replayed = True\<rparr> \<and> \<not> ran2 \<and> row_view s2 = row_view s1"
proof -
  have m: "marshal_stored_response L cfg d = Inr (lib_redact L raw)"
    using assms(6,7) by (simp add: marshal_stored_response_def)
  obtain r s' where e1: "idem_execute L cfg True opts env (Some (Inr d)) t0 t1 t2 s = (Inr \<lparr>rs_data = d, rs_replayed = False\<rparr>, True, s')"
    and r: "idem_inv s'" "get_by_scope_and_key_hash (op_scope opts) kh s' = Some r" "ir_status r = Succeeded"
    "ir_fp r = fp" "ir_resp_body r = Some (lib_redact L raw)"
    "ir_expires r = (if 0 < op_exec_timeout opts then t1 else t0) + effective_ttl cfg opts"
    by (rule execute_fresh_success [OF assms(1,2,5,4) m])
  have "s1 = s'" using e1 assms(10) by simp
  obtain res where cb: "cb' = Some res" using assms(12) by auto
  have "u0 < ir_expires r" using r(6) assms(13) by simp
  from claim_existing_calm [OF r(1) assms(3) r(2) this]
  obtain s3 where "idem_claim L env' (op_scope opts) kh fp u0 (u0 + cf_timeout cfg) (u0 + effective_ttl cfg opts) s'
      = (if ir_fp r \<noteq> fp then (Claim_Return (Inl err_key_conflict), s3)
       else idem_on_status L env' r u0 (u0 + cf_timeout cfg) (u0 + effective_ttl cfg opts) s3)"
    "row_view s3 = row_view s'" by metis
  then have "b = Inr \<lparr>rs_data = d', rs_replayed = True\<rparr> \<and> \<not> ran2 \<and> row_view s2 = row_view s'"
    using assms(8,9,11) r \<open>s1 = s'\<close>
    by (auto simp: cb idem_execute_request [OF assms(4)] idem_on_status_def decode_stored_response_def)
  with e1 assms(10) \<open>s1 = s'\<close> show ?thesis by simp
qed

text \<open>
  Claim C4. A key reused for a different request (another method, route, actor or payload, so
  another fingerprint) before its record expires is refused with \<open>IDEMPOTENCY_KEY_CONFLICT\<close>; the
  callback is not run and no row changes.
\<close>

theorem idem_execute_key_conflict:
  assumes "idem_inv s" "calm env" "idem_request L opts kh fp"
    and "get_by_scope_and_key_hash (op_scope opts) kh s = Some r" "ir_fp r \<noteq> fp" "t0 < ir_expires r"
  shows "\<exists>s'. idem_execute L cfg True opts env (Some res) t0 t1 t2 s = (Inl err_key_conflict, False, s')
     \<and> row_view s' = row_view s"
proof -
  from claim_existing_calm [OF assms(1,2,4,6)]
  obtain s1 where "idem_claim L env (op_scope opts) kh fp t0 (t0 + cf_timeout cfg) (t0 + effective_ttl cfg opts) s
      = (if ir_fp r \<noteq> fp then (Claim_Return (Inl err_key_conflict), s1)
       else idem_on_status L env r t0 (t0 + cf_timeout cfg) (t0 + effective_ttl cfg opts) s1)"
    "row_view s1 = row_view s" by metis
  with assms(5) show ?thesis by (simp add: idem_execute_request [OF assms(3)])
qed

text \<open>
  Retry after a failure: a record left \<open>failed_retryable\<close> refuses the request with
  \<open>IDEMPOTENCY_RETRY_BACKOFF\<close> and the remaining seconds until its back-off is over, and from then
  on runs the callback again.
\<close>

theorem idem_execute_backoff:
  assumes "idem_inv s" "calm env" "idem_request L opts kh fp"
    and "get_by_scope_and_key_hash (op_scope opts) kh s = Some r" "ir_fp r = fp" "t0 < ir_expires r"
    and "ir_status r = Failed_Retryable" "ir_locked r = Some l"
  shows "fst (snd (idem_execute L cfg True opts env (Some res) t0 t1 t2 s)) = (l \<le> t0)
    \<and> (t0 < l \<longrightarrow> fst (idem_execute L cfg True opts env (Some res) t0 t1 t2 s)
          = Inl (conflict_with_retry_after err_retry_backoff (Some l) t0))"
proof -
  let ?lu = "t0 + cf_timeout cfg" and ?ex = "t0 + effective_ttl cfg opts"
  from claim_existing_calm [OF assms(1,2,4,6)]
  obtain s1 where c: "idem_claim L env (op_scope opts) kh fp t0 ?lu ?ex s
      = (if ir_fp r \<noteq> fp then (Claim_Return (Inl err_key_conflict), s1) else idem_on_status L env r t0 ?lu ?ex s1)"
    and s1: "idem_inv s1" "row_view s1 = row_view s" by metis
  have v: "row_view s (ir_id r) = Some r" using assms(4) get_iff_view [OF assms(1)] by blast
  have "ir_id r \<noteq> 0" using v assms(1) by (auto simp: row_view_Some_iff idem_inv_def list_all_iff)
  moreover have "fst (try_reclaim t (ir_id r) Failed_Retryable t0 ?lu ?ex s1) = (l \<le> t0)" for t
    using assms(7,8) s1 v by (simp add: repo.reclaim_ok reclaimable_def)
  ultimately show ?thesis using c assms(5,7,8)
    by (auto simp: idem_execute_request [OF assms(3)] idem_on_status_def repo_call_calm [OF assms(2)]
        split: prod.splits)
qed

lemma truncated_mark_not_blank: "trim_space (b @ truncated_mark) \<noteq> []"
  using trim_space_keeps [of "CHR ''.''" "b @ truncated_mark"] by (auto simp: graph_ascii_def)

text \<open>
  A response that is longer than \<open>MaxStoredResponseLen\<close> is stored cut and marked; if the
  JSON decoder rejects texts that end with the mark, the repetition of a request that succeeded
  is answered with \<open>IDEMPOTENCY_STORE_UNAVAILABLE\<close> (503) instead of a replay. The callback is still
  not run a second time.
\<close>

theorem truncated_response_not_replayed:
  assumes "idem_inv s" "calm env" "calm env'" "idem_request L opts kh fp"
    and "get_by_scope_and_key_hash (op_scope opts) kh s = None"
    and "lib_marshal L d = Some raw" "0 < cf_max_stored cfg" "cf_max_stored cfg < int (length (lib_redact L raw))"
    and "\<And>b. lib_unmarshal L (b @ truncated_mark) = None"
    and "idem_execute L cfg True opts env (Some (Inr d)) t0 t1 t2 s = (a, ran1, s1)"
    and "idem_execute L cfg True opts env' (Some res) u0 u1 u2 s1 = (b, ran2, s2)"
    and "u0 < (if 0 < op_exec_timeout opts then t1 else t0) + effective_ttl cfg opts"
  shows "a = Inr \<lparr>rs_data = d, rs_replayed = False\<rparr> \<and> \<not> ran2
     \<and> (\<exists>e. b = Inl e \<and> error_code (Some e) = 503 \<and> errors_is e err_store_unavail)"
proof -
  have m: "marshal_stored_response L cfg d =
      Inr (truncate_utf8 (lib_redact L raw) (cf_max_stored cfg) @ truncated_mark)"
    using assms(6,7,8) by (simp add: marshal_stored_response_def)
  obtain r s' where e1: "idem_execute L cfg True opts env (Some (Inr d)) t0 t1 t2 s = (Inr \<lparr>rs_data = d, rs_replayed = False\<rparr>, True, s')"
    and r: "idem_inv s'" "get_by_scope_and_key_hash (op_scope opts) kh s' = Some r" "ir_status r = Succeeded"
    "ir_fp r = fp" "ir_resp_body r = Some (truncate_utf8 (lib_redact L raw) (cf_max_stored cfg) @ truncated_mark)"
    "ir_expires r = (if 0 < op_exec_timeout opts then t1 else t0) + effective_ttl cfg opts"
    by (rule execute_fresh_success [OF assms(1,2,5,4) m])
  have "u0 < ir_expires r" using r(6) assms(12) by simp
  from claim_existing_calm [OF r(1) assms(3) r(2) this]
  obtain s3 where "idem_claim L env' (op_scope opts) kh fp u0 (u0 + cf_timeout cfg) (u0 + effective_ttl cfg opts) s'
      = (if ir_fp r \<noteq> fp then (Claim_Return (Inl err_key_conflict), s3)
       else idem_on_status L env' r u0 (u0 + cf_timeout cfg) (u0 + effective_ttl cfg opts) s3)"
    by metis
  then show ?thesis using assms(9,10,11) r e1 truncated_mark_not_blank
    by (auto simp: idem_execute_request [OF assms(4)] idem_on_status_def decode_stored_response_def
        unavail_def err_store_unavail_def error_ctor_defs error_code_def from_error_def app_is_def)
qed

section \<open>Keys, retry hints and stored bodies\<close>

text \<open>
  An accepted key is what the table stores it as: printable ASCII without blanks, at
  most 128 bytes, and normalising it again changes nothing; every other key is refused.
\<close>

theorem normalize_idempotency_key_spec:
  "normalize_idempotency_key raw = Inr key \<longleftrightarrow>
     key = trim_space raw \<and> length key \<le> 128 \<and> list_all graph_ascii key
     \<and> normalize_idempotency_key key = Inr key"
  by (auto simp: normalize_idempotency_key_def Let_def trim_space_graph)

text \<open>
  The seconds a refusal carries are the seconds a handler reads back from it for the
  Retry-After header: the whole seconds until the lock ends, at least one.
\<close>

theorem retry_after_round_trip:
  "retry_after_seconds_from_error (Some (conflict_with_retry_after (App_Error st c) (Some l) now))
     = max 1 (seconds_trunc (time_sub l now))"
proof -
  let ?s = "seconds_trunc (time_sub l now)"
  have "?s \<le> max_int64"
  proof (cases "0 \<le> time_sub l now")
    case True
    then have "?s = time_sub l now div second" by (rule seconds_trunc_nonneg)
    also have "\<dots> \<le> time_sub l now div 1" using True by (intro zdiv_mono2) simp_all
    also have "\<dots> = time_sub l now" by simp
    also have "\<dots> \<le> max_int64" by (simp add: time_sub_def max_int64_def min_int64_def)
    finally show ?thesis .
  next
    case False
    then have "time_sub l now < 0" by (simp only: not_le)
    then have "?s \<le> 0" unfolding seconds_trunc_def
      by (simp add: signed_divide_int_def sgn_if pos_imp_zdiv_nonneg_iff)
    then show ?thesis by (simp add: max_int64_def)
  qed
  then have "atoi (itoa (max 1 ?s)) = Some (max 1 ?s)"
    by (intro atoi_itoa) (auto simp: min_int64_def max_int64_def)
  moreover have "itoa (max 1 ?s) \<noteq> []" by (simp add: itoa_def)
  moreover have "(if ?s \<le> 0 then 1 else ?s) = max 1 ?s" by simp
  ultimately show ?thesis
    by (simp add: retry_after_seconds_from_error_def conflict_with_retry_after_def Let_def
        trim_space_graph itoa_graph del: max_def)
qed

lemma utf8_cut_le: "utf8_cut s n \<le> n"
  by (induction s n rule: utf8_cut.induct) auto

lemma utf8_cut_valid: "utf8_valid (take (utf8_cut s n) s)"
  by (induction s n rule: utf8_cut.induct) auto

lemma utf8_cut_max: "k \<le> n \<Longrightarrow> utf8_valid (take k s) \<Longrightarrow> k \<le> utf8_cut s n"
proof (induction s n rule: utf8_cut.induct)
  case (2 s n)
  then show ?case by (cases "k = Suc n") auto
qed simp

text \<open>
  Cutting a body keeps it a prefix of at most \<open>max\<close> bytes that is valid UTF-8, and it is
  the longest such prefix, so no character is split and none is lost needlessly.
\<close>

theorem truncate_utf8_spec:
  assumes "0 < m" "m < int (length s)"
  shows "prefix (truncate_utf8 s m) s \<and> int (length (truncate_utf8 s m)) \<le> m \<and> utf8_valid (truncate_utf8 s m)
     \<and> (\<forall>p. prefix p s \<and> int (length p) \<le> m \<and> utf8_valid p \<longrightarrow> prefix p (truncate_utf8 s m))"
proof -
  have e: "truncate_utf8 s m = take (utf8_cut s (nat m)) s" using assms by (simp add: truncate_utf8_def)
  have "prefix p (take (utf8_cut s (nat m)) s)"
    if p: "prefix p s" "int (length p) \<le> m" "utf8_valid p" for p
  proof -
    have pe: "p = take (length p) s" using p(1) by (auto simp: prefix_def)
    then have "length p \<le> utf8_cut s (nat m)" using p(2,3) by (intro utf8_cut_max) auto
    then show ?thesis using pe by (metis min.absorb1 take_is_prefix take_take)
  qed
  then show ?thesis using assms e utf8_cut_le [of s "nat m"] utf8_cut_valid [of s "nat m"]
    by (auto simp: take_is_prefix)
qed

section \<open>Concrete runs\<close>

text \<open>
  A concrete instance of the libraries for the runs below: the digest is the identity, JSON is the
  quoted string, and nothing is redacted.
\<close>

definition demo_libs :: "(string, string) libs" where
  "demo_libs = \<lparr>lib_sha256_hex = id, lib_marshal_payload = Some,
     lib_marshal = (\<lambda>d. Some (CHR 0x22 # d @ [CHR 0x22])),
     lib_unmarshal = (\<lambda>b. if 2 \<le> length b \<and> hd b = CHR 0x22 \<and> last b = CHR 0x22
        then Some (butlast (tl b)) else None),
     lib_empty_object = [], lib_redact = id\<rparr>"

definition demo_opts :: "string idem_opts" where
  "demo_opts = \<lparr>op_scope = ''s'', op_actor = ''u1'', op_method = ''POST'', op_route = ''/r'',
     op_key = ''k'', op_payload = ''p'', op_ttl = 0, op_require_key = True, op_exec_timeout = 0\<rparr>"

abbreviation demo_fp :: string where
  "demo_fp \<equiv> ''POST'' @ [char_of (10::nat)] @ ''/r'' @ [char_of (10::nat)] @ ''u1'' @ [char_of (10::nat)] @ ''p''"

definition calm_env :: idem_env where
  "calm_env k = \<lparr>env_ops = [], env_fault = No_Fault, env_dbnow = 0\<rparr>"

definition empty_store :: idem_store where
  "empty_store = \<lparr>st_rows = [], st_next = 1\<rparr>"

definition demo_row :: "idem_status \<Rightarrow> string \<Rightarrow> time \<Rightarrow> idem_row" where
  "demo_row st fp l = \<lparr>ir_id = 1, ir_scope = ''s'', ir_key = ''k'', ir_fp = fp, ir_status = st,
     ir_resp_status = None, ir_resp_body = None, ir_err = None, ir_locked = Some l,
     ir_expires = 1000, ir_created = 0, ir_updated = 0\<rparr>"

abbreviation demo_store :: "idem_status \<Rightarrow> string \<Rightarrow> time \<Rightarrow> idem_store" where
  "demo_store st fp l \<equiv> \<lparr>st_rows = [demo_row st fp l], st_next = 2\<rparr>"

lemma calm_env_calm: "calm calm_env"
  by (simp add: calm_def calm_env_def)

lemma normalize_k: "normalize_idempotency_key ''k'' = Inr ''k''"
  by (simp add: normalize_idempotency_key_def trim_space_graph graph_ascii_def)

lemma demo_request: "idem_request demo_libs demo_opts ''k'' demo_fp"
  by (simp add: idem_request_def demo_opts_def demo_libs_def normalize_k hash_idempotency_key_def
      build_idempotency_fingerprint_def upper_ascii_def Let_def)

lemma empty_store_facts: "idem_inv empty_store" "get_by_scope_and_key_hash sc kh empty_store = None"
  by (simp_all add: empty_store_def idem_inv_def get_by_scope_and_key_hash_def)

lemma demo_store_facts: "idem_inv (demo_store st fp l)"
  "get_by_scope_and_key_hash ''s'' ''k'' (demo_store st fp l) = Some (demo_row st fp l)"
  "row_view (demo_store st fp l) 1 = Some (demo_row st fp l)"
  by (simp_all add: demo_row_def idem_inv_def get_by_scope_and_key_hash_def row_view_def)

theorem idem_claim_owns_witness:
  "owned_row (snd (idem_claim demo_libs calm_env ''s'' ''k'' ''f'' 0 30 100 empty_store)) 1 ''s'' ''k'' ''f'' 30 100"
proof -
  have "idem_claim demo_libs calm_env ''s'' ''k'' ''f'' 0 30 100 empty_store =
      (Claim_Owned 1, snd (idem_claim demo_libs calm_env ''s'' ''k'' ''f'' 0 30 100 empty_store))"
    by (simp add: idem_claim_def repo_call_calm [OF calm_env_calm] create_processing_def empty_store_def Let_def)
  from idem_claim_owns [OF empty_store_facts(1) this] show ?thesis .
qed

theorem idem_execute_mutual_exclusion_witness:
  "\<not> fst (snd (idem_execute demo_libs default_idempotency_config True demo_opts calm_env (Some (Inr ''x'')) 5 6 7
       (demo_store Processing demo_fp 30)))"
  using idem_execute_mutual_exclusion [of 1 30 1000 "demo_row Processing demo_fp 30" "demo_store Processing demo_fp 30"
      calm_env demo_opts "''k''" demo_libs 5 default_idempotency_config True "Some (Inr ''x'')" 6 7]
    demo_store_facts [of Processing demo_fp 30]
  by (simp add: lease_held_def demo_row_def calm_env_def demo_opts_def normalize_k demo_libs_def
      hash_idempotency_key_def)

theorem idem_execute_replays_witness:
  "\<exists>a s1 b s2. idem_execute demo_libs default_idempotency_config True demo_opts calm_env (Some (Inr ''ok'')) 0 1 2 empty_store = (a, True, s1)
     \<and> idem_execute demo_libs default_idempotency_config True demo_opts calm_env (Some (Inr ''no'')) 10 11 12 s1 = (b, False, s2)
     \<and> b = Inr \<lparr>rs_data = ''ok'', rs_replayed = True\<rparr>"
proof -
  obtain a r1 s1 where e1: "idem_execute demo_libs default_idempotency_config True demo_opts calm_env (Some (Inr ''ok'')) 0 1 2 empty_store = (a, r1, s1)"
    by (rule prod_cases3)
  obtain b r2 s2 where e2: "idem_execute demo_libs default_idempotency_config True demo_opts calm_env (Some (Inr ''no'')) 10 11 12 s1 = (b, r2, s2)"
    by (rule prod_cases3)
  let ?raw = "CHR 0x22 # ''ok'' @ [CHR 0x22]"
  have t: "trim_space ?raw = ?raw" by (rule trim_space_graph) (simp add: graph_ascii_def)
  show ?thesis
    using idem_execute_replays [OF empty_store_facts(1) calm_env_calm calm_env_calm demo_request empty_store_facts(2) _ _ _ _ e1 e2, of ?raw "''ok''"]
      e1 e2 t by (simp add: demo_libs_def default_idempotency_config_def demo_opts_def)
qed

theorem idem_execute_key_conflict_witness:
  "\<exists>s'. idem_execute demo_libs default_idempotency_config True demo_opts calm_env (Some (Inr ''x'')) 5 6 7
       (demo_store Succeeded ''other'' 0) = (Inl err_key_conflict, False, s')"
  using idem_execute_key_conflict [OF demo_store_facts(1) calm_env_calm demo_request,
      of Succeeded "''other''" 0 "demo_row Succeeded ''other'' 0" 5 default_idempotency_config "Inr ''x''" 6 7]
    demo_store_facts(2) [of Succeeded "''other''" 0]
  by (auto simp: demo_row_def demo_opts_def)

theorem idem_execute_backoff_witness:
  "\<not> fst (snd (idem_execute demo_libs default_idempotency_config True demo_opts calm_env (Some (Inr ''x'')) 5 6 7
       (demo_store Failed_Retryable demo_fp 30)))"
  using idem_execute_backoff [OF demo_store_facts(1) calm_env_calm demo_request,
      of Failed_Retryable demo_fp 30 "demo_row Failed_Retryable demo_fp 30" 5 30 default_idempotency_config "Inr ''x''" 6 7]
    demo_store_facts(2) [of Failed_Retryable demo_fp 30]
  by (simp add: demo_row_def demo_opts_def)

definition tiny_config :: idem_config where
  "tiny_config = default_idempotency_config\<lparr>cf_max_stored := 2\<rparr>"

theorem truncated_response_not_replayed_witness:
  "\<exists>a s1 e s2. idem_execute demo_libs tiny_config True demo_opts calm_env (Some (Inr ''ok'')) 0 1 2 empty_store = (a, True, s1)
     \<and> idem_execute demo_libs tiny_config True demo_opts calm_env (Some (Inr ''ok'')) 10 11 12 s1 = (Inl e, False, s2)
     \<and> error_code (Some e) = 503"
proof -
  obtain a r1 s1 where e1: "idem_execute demo_libs tiny_config True demo_opts calm_env (Some (Inr ''ok'')) 0 1 2 empty_store = (a, r1, s1)"
    by (rule prod_cases3)
  obtain b r2 s2 where e2: "idem_execute demo_libs tiny_config True demo_opts calm_env (Some (Inr ''ok'')) 10 11 12 s1 = (b, r2, s2)"
    by (rule prod_cases3)
  have r1 using execute_fresh_success [OF empty_store_facts(1) calm_env_calm empty_store_facts(2) demo_request,
      of tiny_config "''ok''" "truncate_utf8 (CHR 0x22 # ''ok'' @ [CHR 0x22]) 2 @ truncated_mark" 0 1 2] e1
    by (auto simp: marshal_stored_response_def demo_libs_def tiny_config_def)
  then show ?thesis
    using truncated_response_not_replayed [OF empty_store_facts(1) calm_env_calm calm_env_calm demo_request empty_store_facts(2) _ _ _ _ e1 e2,
        of "CHR 0x22 # ''ok'' @ [CHR 0x22]"] e1 e2
    by (auto simp: demo_libs_def tiny_config_def default_idempotency_config_def demo_opts_def)
qed

theorem truncate_utf8_spec_witness:
  "prefix (truncate_utf8 ''abc'' 2) ''abc'' \<and> int (length (truncate_utf8 ''abc'' 2)) \<le> 2"
  using truncate_utf8_spec [of 2 "''abc''"] by simp

end
