(* ===== verification/System_Lock.thy ===== *)
theory System_Lock
  imports Idempotency_Laws
begin

text \<open>
  The global lock of administrative operations, \<open>internal/service/system_operation_lock_service.go\<close>:
  one row of the idempotency table under a fixed scope and key, whose fingerprint column carries
  the operation id. \<open>sys_acquire\<close>, \<open>sys_release\<close> and \<open>sys_renew_tick\<close> (one iteration of the
  renewal goroutine) make their repository calls in the same environments as the coordinator. A
  nil service or repository is \<open>present = False\<close>. Also here: the periodic cleanup of
  \<open>idempotency_cleanup_service.go\<close>.
\<close>

section \<open>The service\<close>

abbreviation system_lock_scope :: string where "system_lock_scope \<equiv> ''admin.system.operations.global_lock''"
abbreviation system_lock_key :: string where "system_lock_key \<equiv> ''global-system-operation-lock''"

definition err_system_busy :: go_error where
  "err_system_busy = conflict_error ''SYSTEM_OPERATION_BUSY'' ''another system operation is in progress''"
definition err_operation_id :: go_error where
  "err_operation_id = bad_request ''SYSTEM_OPERATION_ID_REQUIRED'' ''operation id is required''"

record sys_lock =
  lk_record :: int
  lk_operation :: string

record sys_lock_service =
  ss_lease :: duration
  ss_renew_interval :: duration
  ss_ttl :: duration

definition new_system_operation_lock_service :: "idem_config \<Rightarrow> sys_lock_service" where
  "new_system_operation_lock_service cfg =
     (let lease = (if cf_timeout cfg \<le> 0 then 30 * second else cf_timeout cfg);
          renew = lease sdiv 3; renew = (if renew < second then second else renew);
          ttl = (if cf_system_ttl cfg \<le> 0 then hour else cf_system_ttl cfg)
      in \<lparr>ss_lease = lease, ss_renew_interval = renew, ss_ttl = ttl\<rparr>)"

definition busy_error :: "string \<Rightarrow> time option \<Rightarrow> time \<Rightarrow> go_error" where
  "busy_error operation locked now =
     (let md1 = (if operation = [] then [] else [(''operation_id'', operation)]);
          md2 = (case locked of None \<Rightarrow> [] | Some l \<Rightarrow>
             let sec = seconds_trunc (time_sub l now) in
             [(''retry_after'', itoa (if sec \<le> 0 then 1 else sec))]);
          md = md1 @ md2
      in if md = [] then err_system_busy else with_metadata err_system_busy md)"

definition sys_acquire_existing ::
  "sys_lock_service \<Rightarrow> idem_env \<Rightarrow> string \<Rightarrow> time \<Rightarrow> idem_store \<Rightarrow> (go_error + int) \<times> idem_store" where
  "sys_acquire_existing svc env kh now s =
     (let get = (\<lambda>t s. (get_by_scope_and_key_hash system_lock_scope kh s, s)) in
      case repo_call (env 1) get s of
        (None, s1) \<Rightarrow> (Inl (with_cause err_store_unavail err_database), s1)
      | (Some None, s1) \<Rightarrow> (Inl err_store_unavail, s1)
      | (Some (Some existing), s1) \<Rightarrow>
          if ir_status existing = Processing
             \<and> (case ir_locked existing of None \<Rightarrow> False | Some l \<Rightarrow> now < l)
          then (Inl (busy_error (ir_fp existing) (ir_locked existing) now), s1)
          else (case repo_call (env 2) (\<lambda>t. try_reclaim t (ir_id existing) (ir_status existing) now
                  (now + ss_lease svc) (now + ss_ttl svc)) s1 of
              (None, s2) \<Rightarrow> (Inl (with_cause err_store_unavail err_database), s2)
            | (Some True, s2) \<Rightarrow> (Inr (ir_id existing), s2)
            | (Some False, s2) \<Rightarrow> (case repo_call (env 3) get s2 of
                (Some (Some latest), s3) \<Rightarrow> (Inl (busy_error (ir_fp latest) (ir_locked latest) now), s3)
              | (_, s3) \<Rightarrow> (Inl err_system_busy, s3))))"

definition sys_acquire ::
  "('p, 'd) libs \<Rightarrow> bool \<Rightarrow> sys_lock_service \<Rightarrow> idem_env \<Rightarrow> string \<Rightarrow> time \<Rightarrow> idem_store
    \<Rightarrow> (go_error + sys_lock) \<times> idem_store" where
  "sys_acquire L present svc env operation now s =
     (if \<not> present then (Inl err_store_unavail, s)
      else if operation = [] then (Inl err_operation_id, s)
      else let kh = hash_idempotency_key L system_lock_key;
               rec = processing_record system_lock_scope kh operation (now + ss_lease svc) (now + ss_ttl svc);
               (owned, s') = (case repo_call (env 0) (\<lambda>t. create_processing t rec) s of
                   (None, s1) \<Rightarrow> (Inl (with_cause err_store_unavail err_database), s1)
                 | (Some (True, r), s1) \<Rightarrow> (Inr (ir_id r), s1)
                 | (Some (False, r), s1) \<Rightarrow> sys_acquire_existing svc env kh now s1)
      in case owned of Inl e \<Rightarrow> (Inl e, s')
         | Inr i \<Rightarrow> if i = 0 then (Inl err_store_unavail, s')
             else (Inr \<lparr>lk_record = i, lk_operation = operation\<rparr>, s'))"

definition sys_release ::
  "bool \<Rightarrow> sys_lock_service \<Rightarrow> env_step \<Rightarrow> sys_lock option \<Rightarrow> bool \<Rightarrow> string \<Rightarrow> time \<Rightarrow> time \<Rightarrow> idem_store
    \<Rightarrow> go_error option \<times> idem_store" where
  "sys_release present svc e lock succeeded reason t1 t2 s =
     (case lock of None \<Rightarrow> (None, s) | Some lk \<Rightarrow>
       if \<not> present then (None, s)
       else let ex = t1 + ss_ttl svc;
                body = [CHR ''{'', CHR 0x22] @ ''operation_id'' @ [CHR 0x22, CHR '':'', CHR 0x22]
                  @ lk_operation lk @ [CHR 0x22, CHR '','', CHR 0x22] @ ''released'' @ [CHR 0x22] @ '':true}'';
                reason = (if reason = [] then ''SYSTEM_OPERATION_FAILED'' else reason)
            in case repo_call e (\<lambda>t s. ((), if succeeded
                  then mark_succeeded t (lk_record lk) 200 body ex s
                  else mark_failed_retryable t (lk_record lk) reason t2 ex s)) s of
               (Some _, s1) \<Rightarrow> (None, s1) | (None, s1) \<Rightarrow> (Some err_database, s1))"

text \<open>One tick of \<open>renewLoop\<close>: the result says whether the loop goes on.\<close>

definition sys_renew_tick ::
  "sys_lock_service \<Rightarrow> env_step \<Rightarrow> sys_lock \<Rightarrow> time \<Rightarrow> idem_store \<Rightarrow> bool \<times> idem_store" where
  "sys_renew_tick svc e lock now s =
     (case repo_call e (\<lambda>t. extend_processing_lock t (lk_record lock) (lk_operation lock)
        (now + ss_lease svc) (now + ss_ttl svc)) s of
        (None, s1) \<Rightarrow> (True, s1)
      | (Some ok, s1) \<Rightarrow> (ok, s1))"

text \<open>\<open>renewLoop\<close> over the ticks that come before the stop channel closes.\<close>

fun sys_renew_loop ::
  "sys_lock_service \<Rightarrow> sys_lock \<Rightarrow> (env_step \<times> time) list \<Rightarrow> idem_store \<Rightarrow> bool \<times> idem_store" where
  "sys_renew_loop svc lock [] s = (True, s)"
| "sys_renew_loop svc lock ((e, now) # ticks) s =
     (let (ok, s1) = sys_renew_tick svc e lock now s in
      if ok then sys_renew_loop svc lock ticks s1 else (False, s1))"

section \<open>The cleanup service\<close>

record cleanup_service =
  cl_interval :: duration
  cl_batch :: int

definition new_idempotency_cleanup_service :: "(int \<times> int) option \<Rightarrow> cleanup_service" where
  "new_idempotency_cleanup_service cfg =
     (let (secs, batch) = (case cfg of None \<Rightarrow> (0, 0) | Some c \<Rightarrow> c)
      in \<lparr>cl_interval = (if 0 < secs then wrap64 (secs * second) else 60 * second),
          cl_batch = (if 0 < batch then batch else 500)\<rparr>)"

definition cleanup_once :: "cleanup_service \<Rightarrow> env_step \<Rightarrow> time \<Rightarrow> idem_store \<Rightarrow> idem_store" where
  "cleanup_once svc e now s = snd (repo_call e (\<lambda>t. delete_expired now (cl_batch svc)) s)"

section \<open>Ownership and exclusion\<close>

lemma sys_acquire_existing_owned:
  assumes "idem_inv s" "sys_acquire_existing svc env kh now s = (Inr i, s')"
  shows "\<exists>fp. owned_row s' i system_lock_scope kh fp (now + ss_lease svc) (now + ss_ttl svc)"
proof -
  let ?get = "\<lambda>t s. (get_by_scope_and_key_hash system_lock_scope kh s, s)"
  obtain r s1 where g: "repo_call (env 1) ?get s = (Some (Some r), s1)"
    using assms(2) by (auto simp: sys_acquire_existing_def Let_def split: prod.splits option.splits)
  note r = repo_get_Some [OF assms(1) g]
  have c: "repo_call (env 2) (\<lambda>t. try_reclaim t (ir_id r) (ir_status r) now (now + ss_lease svc) (now + ss_ttl svc)) s1
      = (Some True, s')" "i = ir_id r"
    using assms(2) g by (auto simp: sys_acquire_existing_def Let_def split: prod.splits option.splits bool.splits if_splits)
  have "owned_row s' (ir_id r) (ir_scope r) (ir_key r) (ir_fp r) (now + ss_lease svc) (now + ss_ttl svc)"
    using r by (intro reclaim_owned [OF _ _ _ ident_stable_refl c(1)]) auto
  with r c(2) show ?thesis by auto
qed

text \<open>
  When \<open>Acquire\<close> returns a lock, whatever the interleaving and the faults, the lock row is in status
  \<open>processing\<close>, locked for the lease and kept for the TTL counted from the call.
\<close>

theorem sys_acquire_owns:
  assumes "idem_inv s" "sys_acquire L present svc env operation now s = (Inr lock, s')"
  shows "lk_operation lock = operation \<and> operation \<noteq> [] \<and> (\<exists>fp. owned_row s' (lk_record lock) system_lock_scope
     (hash_idempotency_key L system_lock_key) fp (now + ss_lease svc) (now + ss_ttl svc))"
proof -
  let ?kh = "hash_idempotency_key L system_lock_key"
  let ?rec = "processing_record system_lock_scope ?kh operation (now + ss_lease svc) (now + ss_ttl svc)"
  let ?s = "env_others (env 0) s" and ?t = "env_dbnow (env 0)"
  have inv: "idem_inv ?s" using assms(1) by (rule env_others_inv)
  have op: "operation \<noteq> []" using assms(2) by (auto simp: sys_acquire_def split: if_splits)
  obtain b rec s1 where c: "repo_call (env 0) (\<lambda>t. create_processing t ?rec) s = (Some (b, rec), s1)"
    using assms(2) by (auto simp: sys_acquire_def Let_def split: prod.splits option.splits sum.splits if_splits)
  have cp: "create_processing ?t ?rec ?s = ((b, rec), s1)" using repo_call_Some [OF c] .
  then have s1: "idem_inv s1" using repo.create_inv [OF inv, of ?t ?rec] by simp
  show ?thesis
  proof (cases b)
    case True
    with assms(2) c op have "lock = \<lparr>lk_record = ir_id rec, lk_operation = operation\<rparr>" "s' = s1"
      by (auto simp: sys_acquire_def Let_def split: if_splits)
    with repo.create_row [OF inv, of ?t ?rec] cp True op show ?thesis
      by (auto simp: owned_row_def processing_record_def)
  next
    case False
    with assms(2) c op obtain i where "sys_acquire_existing svc env ?kh now s1 = (Inr i, s')"
      "lock = \<lparr>lk_record = i, lk_operation = operation\<rparr>"
      by (auto simp: sys_acquire_def Let_def split: prod.splits sum.splits if_splits)
    with sys_acquire_existing_owned [OF s1] op show ?thesis by auto
  qed
qed

lemma sys_acquire_existing_leased:
  assumes h: "lease_held i l ex0 r s" and env: "\<And>k. list_all (respects_lease i l ex0) (env_ops (env k))"
    and now: "now < l" and sc: "ir_scope r = system_lock_scope"
    and c: "sys_acquire_existing svc env (ir_key r) now s = (x, s')"
  shows "lease_held i l ex0 r s' \<and> (\<exists>e. x = Inl e)"
proof -
  let ?get = "\<lambda>t s. (get_by_scope_and_key_hash (ir_scope r) (ir_key r) s, s)"
  obtain a s1 where g: "repo_call (env 1) ?get s = (a, s1)" by force
  note g' = lease_held_get_call [OF h env g]
  show ?thesis
  proof (cases "\<exists>q. a = Some (Some q)")
    case False
    with c g g' sc show ?thesis
      by (auto simp: sys_acquire_existing_def Let_def split: option.splits)
  next
    case True
    then obtain q where q: "a = Some (Some q)" by blast
    have id: "ir_id q = i" using g' q by simp
    obtain b s2 where rc: "repo_call (env 2) (\<lambda>t. try_reclaim t (ir_id q) (ir_status q) now
        (now + ss_lease svc) (now + ss_ttl svc)) s1 = (b, s2)" by force
    have s2: "lease_held i l ex0 r s2" "b \<noteq> Some True"
      using leased_reclaim_fails [OF _ env now rc [unfolded id]] g' by auto
    obtain a3 s3 where g3: "repo_call (env 3) ?get s2 = (a3, s3)" by force
    note g3' = lease_held_get_call [OF s2(1) env g3]
    show ?thesis using c g q rc s2 g3 g3' g' sc
      by (auto simp: sys_acquire_existing_def Let_def split: option.splits if_splits bool.splits)
  qed
qed

text \<open>
  While the lock row is leased until \<open>l\<close> and nobody breaks the lease, no other
  administrative operation that starts before \<open>l\<close> acquires the lock.
\<close>

theorem sys_acquire_exclusive:
  assumes "lease_held i l ex0 r s" "\<And>k. list_all (respects_lease i l ex0) (env_ops (env k))" "now < l"
    and "ir_scope r = system_lock_scope" "ir_key r = hash_idempotency_key L system_lock_key"
  shows "\<exists>e s'. sys_acquire L present svc env operation now s = (Inl e, s') \<and> lease_held i l ex0 r s'"
proof -
  let ?rec = "processing_record system_lock_scope (ir_key r) operation (now + ss_lease svc) (now + ss_ttl svc)"
  obtain y s1 where cr: "repo_call (env 0) (\<lambda>t. create_processing t ?rec) s = (y, s1)" by force
  have s1: "lease_held i l ex0 r s1"
    by (rule lease_held_call [OF assms(1,2) _ cr]) (rule lease_held_create)
  have "\<not> fst (fst (create_processing t ?rec (env_others (env 0) s)))" for t
    using lease_held_others [OF assms(1,2), of 0] repo.present_blocks_create assms(4)
    by (auto simp: lease_held_def processing_record_def)
  then have y: "y = Some (b, rec) \<Longrightarrow> \<not> b" for b rec
    using repo_call_Some [of "env 0" _ s "(b, rec)" s1] cr by (metis fst_conv)
  obtain x s2 where e: "sys_acquire_existing svc env (ir_key r) now s1 = (x, s2)" by force
  note e' = sys_acquire_existing_leased [OF s1 assms(2-4) e]
  show ?thesis using assms(1,5) cr s1 y e e'
    by (auto simp: sys_acquire_def Let_def split: option.splits prod.splits bool.splits)
qed

section \<open>Renewal\<close>

fun ticks_calm :: "sys_lock_service \<Rightarrow> int \<Rightarrow> time \<Rightarrow> time \<Rightarrow> (env_step \<times> time) list \<Rightarrow> bool" where
  "ticks_calm svc i l ex [] = True"
| "ticks_calm svc i l ex ((e, now) # ticks) =
     (list_all (respects_lease i l ex) (env_ops e) \<and> env_fault e = No_Fault
      \<and> ticks_calm svc i (now + ss_lease svc) (now + ss_ttl svc) ticks)"

definition last_tick :: "time \<Rightarrow> (env_step \<times> time) list \<Rightarrow> time" where
  "last_tick t ticks = (if ticks = [] then t else snd (last ticks))"

lemma extend_leases:
  assumes "lease_held i l ex r s" "ir_fp r = fp"
  shows "fst (extend_processing_lock t i fp lu ex' s)"
    "lease_held i lu ex' r (snd (extend_processing_lock t i fp lu ex' s))"
  using assms by (auto simp: lease_held_def repo.extend_ok repo.extend_view repo.extend_inv)

lemma sys_renew_tick_ok:
  assumes "lease_held i l ex r s" "list_all (respects_lease i l ex) (env_ops e)" "env_fault e = No_Fault"
    and "ir_fp r = lk_operation lock" "lk_record lock = i"
  shows "fst (sys_renew_tick svc e lock now s)
    \<and> lease_held i (now + ss_lease svc) (now + ss_ttl svc) r (snd (sys_renew_tick svc e lock now s))"
  using extend_leases [OF lease_held_others [OF assms(1,2)] assms(4)] assms(3,5)
  by (simp add: sys_renew_tick_def repo_call_def Let_def split_beta)

text \<open>
  Renewal of a lock whose row carries its operation id never stops, and after every
  tick the lock runs a full lease from that tick, as long as the other processes respect the
  current lease and the ticks reach the database.
\<close>

theorem sys_renew_loop_keeps:
  assumes "lease_held i (t + ss_lease svc) (t + ss_ttl svc) r s"
    and "ticks_calm svc i (t + ss_lease svc) (t + ss_ttl svc) ticks"
    and "ir_fp r = lk_operation lock" "lk_record lock = i"
  shows "fst (sys_renew_loop svc lock ticks s)
    \<and> lease_held i (last_tick t ticks + ss_lease svc) (last_tick t ticks + ss_ttl svc) r
        (snd (sys_renew_loop svc lock ticks s))"
  using assms
proof (induction ticks arbitrary: s t)
  case (Cons tick ticks)
  obtain e now where tick: "tick = (e, now)" by force
  let ?s1 = "snd (sys_renew_tick svc e lock now s)"
  have ok: "fst (sys_renew_tick svc e lock now s)"
    "lease_held i (now + ss_lease svc) (now + ss_ttl svc) r ?s1"
    using sys_renew_tick_ok [OF Cons.prems(1)] Cons.prems tick by auto
  have "last_tick t ((e, now) # ticks) = last_tick now ticks" by (simp add: last_tick_def)
  with Cons.IH [OF ok(2)] Cons.prems ok(1) tick show ?case
    by (simp add: split_beta Let_def)
qed (simp add: last_tick_def)

section \<open>The lock of a second operation lapses\<close>

lemma sys_acquire_reclaims:
  assumes inv: "idem_inv s" and calm: "calm env" and op: "operation \<noteq> []"
    and r: "get_by_scope_and_key_hash system_lock_scope (hash_idempotency_key L system_lock_key) s = Some r"
    and free: "case ir_locked r of None \<Rightarrow> True | Some l \<Rightarrow> l \<le> now"
  obtains s1 where "sys_acquire L True svc env operation now s = (Inr \<lparr>lk_record = ir_id r, lk_operation = operation\<rparr>, s1)"
    "idem_inv s1" "row_view s1 (ir_id r) = Some (reclaimed (env_dbnow (env 2)) (now + ss_lease svc) (now + ss_ttl svc) r)"
proof -
  let ?kh = "hash_idempotency_key L system_lock_key"
  let ?rec = "processing_record system_lock_scope ?kh operation (now + ss_lease svc) (now + ss_ttl svc)"
  let ?c = "create_processing (env_dbnow (env 0)) ?rec s"
  have old: "\<not> fst (fst ?c)"
    using r by (auto simp: repo.create_new [OF inv] processing_record_def repo.get_iff [OF inv]) metis
  note s0 = repo.create_inv [OF inv, of "env_dbnow (env 0)" ?rec] conjunct1 [OF repo.create_old [OF inv old]]
  have v: "row_view s (ir_id r) = Some r" using r get_iff_view [OF inv] by blast
  from s0 r inv have g: "get_by_scope_and_key_hash system_lock_scope ?kh (snd ?c) = Some r"
    by (simp add: get_iff_view)
  let ?s1 = "snd (try_reclaim (env_dbnow (env 2)) (ir_id r) (ir_status r) now (now + ss_lease svc) (now + ss_ttl svc) (snd ?c))"
  have ok: "fst (try_reclaim (env_dbnow (env 2)) (ir_id r) (ir_status r) now (now + ss_lease svc) (now + ss_ttl svc) (snd ?c))"
    using s0 v free by (simp add: repo.reclaim_ok reclaimable_def)
  have "sys_acquire_existing svc env ?kh now (snd ?c) = (Inr (ir_id r), ?s1)"
    using g free ok by (auto simp: sys_acquire_existing_def repo_call_calm [OF calm] Let_def split: option.splits)
  moreover have "ir_id r \<noteq> 0" using v inv by (auto simp: row_view_Some_iff idem_inv_def list_all_iff)
  ultimately have "sys_acquire L True svc env operation now s = (Inr \<lparr>lk_record = ir_id r, lk_operation = operation\<rparr>, ?s1)"
    using op old by (auto simp: sys_acquire_def Let_def repo_call_calm [OF calm] split: prod.splits bool.splits)
  moreover have "row_view ?s1 (ir_id r) = Some (reclaimed (env_dbnow (env 2)) (now + ss_lease svc) (now + ss_ttl svc) r)"
    using s0 v free by (simp add: repo.reclaim_view reclaimable_def)
  ultimately show ?thesis using s0 by (intro that) (auto intro: repo.reclaim_inv)
qed

text \<open>
  Claim C5. A defect of the lock: \<open>TryReclaim\<close> leaves the fingerprint of the previous operation
  in the row, while renewal looks for the fingerprint of the new one. So when an operation
  acquires the lock by reclaiming the row an earlier operation left, its first renewal reports
  that ownership is lost and changes nothing, and as soon as the initial lease is over another
  operation acquires the lock although the second one has not released it.
\<close>

theorem reclaimed_lock_lapses:
  assumes "idem_inv s" "calm env" "calm env2" "calm env3" "op2 \<noteq> []" "op3 \<noteq> []"
    and "get_by_scope_and_key_hash system_lock_scope (hash_idempotency_key L system_lock_key) s = Some r"
    and "case ir_locked r of None \<Rightarrow> True | Some l \<Rightarrow> l \<le> now" "ir_fp r \<noteq> op2"
    and "now + ss_lease svc \<le> now3"
  shows "\<exists>lock2 s1 s2 lock3 s3. sys_acquire L True svc env op2 now s = (Inr lock2, s1)
     \<and> sys_renew_tick svc (env2 0) lock2 tick s1 = (False, s2) \<and> row_view s2 = row_view s1
     \<and> sys_acquire L True svc env3 op3 now3 s2 = (Inr lock3, s3) \<and> lk_record lock3 = lk_record lock2"
proof -
  let ?r = "reclaimed (env_dbnow (env 2)) (now + ss_lease svc) (now + ss_ttl svc) r"
  obtain s1 where a: "sys_acquire L True svc env op2 now s = (Inr \<lparr>lk_record = ir_id r, lk_operation = op2\<rparr>, s1)"
    and s1: "idem_inv s1" "row_view s1 (ir_id r) = Some ?r"
    by (rule sys_acquire_reclaims [OF assms(1,2,5,7,8)])
  let ?e = "extend_processing_lock (env_dbnow (env2 0)) (ir_id r) op2 (tick + ss_lease svc) (tick + ss_ttl svc) s1"
  have "\<not> fst ?e" using s1 assms(9) by (simp add: repo.extend_ok reclaimed_def)
  then have t: "sys_renew_tick svc (env2 0) \<lparr>lk_record = ir_id r, lk_operation = op2\<rparr> tick s1 = (False, snd ?e)"
    by (simp add: sys_renew_tick_def repo_call_calm [OF assms(3)])
  have v: "row_view (snd ?e) = row_view s1"
    using s1 assms(9) by (auto simp: repo.extend_view fun_eq_iff reclaimed_def split: option.splits)
  have inv2: "idem_inv (snd ?e)" using s1(1) by (rule repo.extend_inv)
  have id: "ir_id ?r = ir_id r" "ir_scope ?r = ir_scope r" "ir_key ?r = ir_key r" by (simp_all add: reclaimed_def)
  have g: "get_by_scope_and_key_hash system_lock_scope (hash_idempotency_key L system_lock_key) (snd ?e) = Some ?r"
    using inv2 v s1(2) assms(1,7) by (simp add: get_iff_view id)
  have "case ir_locked ?r of None \<Rightarrow> True | Some l \<Rightarrow> l \<le> now3" using assms(10) by (simp add: reclaimed_def)
  from sys_acquire_reclaims [OF inv2 assms(4,6) g this, of svc]
  obtain s3 where "sys_acquire L True svc env3 op3 now3 (snd ?e) = (Inr \<lparr>lk_record = ir_id r, lk_operation = op3\<rparr>, s3)"
    unfolding id by metis
  with a t v show ?thesis
    by (metis sys_lock.select_convs(1))
qed

section \<open>Concrete runs\<close>

definition demo_lock_service :: sys_lock_service where
  "demo_lock_service = new_system_operation_lock_service default_idempotency_config"

definition lock_row :: "idem_status \<Rightarrow> time option \<Rightarrow> idem_row" where
  "lock_row st l = \<lparr>ir_id = 1, ir_scope = system_lock_scope, ir_key = system_lock_key, ir_fp = ''op1'', ir_status = st,
     ir_resp_status = None, ir_resp_body = None, ir_err = None, ir_locked = l,
     ir_expires = hour, ir_created = 0, ir_updated = 0\<rparr>"

abbreviation lock_store :: "idem_status \<Rightarrow> time option \<Rightarrow> idem_store" where
  "lock_store st l \<equiv> \<lparr>st_rows = [lock_row st l], st_next = 2\<rparr>"

lemma demo_lock_service_simps:
  "ss_lease demo_lock_service = 30 * second" "ss_ttl demo_lock_service = hour"
  by (simp_all add: demo_lock_service_def new_system_operation_lock_service_def
      default_idempotency_config_def)

lemma demo_hash: "hash_idempotency_key demo_libs k = k"
  by (simp add: hash_idempotency_key_def demo_libs_def)

lemma lock_store_facts: "idem_inv (lock_store st l)" "row_view (lock_store st l) 1 = Some (lock_row st l)"
  "get_by_scope_and_key_hash system_lock_scope system_lock_key (lock_store st l) = Some (lock_row st l)"
  by (simp_all add: lock_row_def idem_inv_def row_view_def get_by_scope_and_key_hash_def)

lemma lock_store_held: "lease_held 1 (30 * second) hour (lock_row Processing (Some (30 * second)))
    (lock_store Processing (Some (30 * second)))"
  unfolding lease_held_def using lock_store_facts(1) [of Processing "Some (30 * second)"]
  by (simp add: lock_store_facts(2)) (simp add: lock_row_def)

theorem sys_acquire_owns_witness:
  "\<exists>lock s' fp. sys_acquire demo_libs True demo_lock_service calm_env ''op2'' 0 (lock_store Succeeded None) = (Inr lock, s')
     \<and> owned_row s' (lk_record lock) system_lock_scope system_lock_key fp (30 * second) hour"
proof -
  obtain s1 where a: "sys_acquire demo_libs True demo_lock_service calm_env ''op2'' 0 (lock_store Succeeded None)
      = (Inr \<lparr>lk_record = ir_id (lock_row Succeeded None), lk_operation = ''op2''\<rparr>, s1)"
    by (rule sys_acquire_reclaims [OF lock_store_facts(1) [of Succeeded None] calm_env_calm, of "''op2''" demo_libs
          "lock_row Succeeded None" 0 demo_lock_service])
       (use lock_store_facts(3) [of Succeeded None] in \<open>simp_all add: demo_hash lock_row_def\<close>)
  from sys_acquire_owns [OF lock_store_facts(1) a] a show ?thesis
    by (simp add: demo_hash demo_lock_service_simps)
qed

theorem sys_acquire_exclusive_witness:
  "\<exists>e s'. sys_acquire demo_libs True demo_lock_service calm_env ''op2'' 5 (lock_store Processing (Some (30 * second))) = (Inl e, s')"
  using sys_acquire_exclusive [OF lock_store_held, of calm_env 5 demo_libs True demo_lock_service "''op2''"]
  by (auto simp: calm_env_def demo_hash lock_row_def)

theorem sys_renew_loop_keeps_witness:
  "fst (sys_renew_loop demo_lock_service \<lparr>lk_record = 1, lk_operation = ''op1''\<rparr>
     [(calm_env 0, 10 * second), (calm_env 0, 20 * second)] (lock_store Processing (Some (30 * second))))"
  using sys_renew_loop_keeps [of 1 0 demo_lock_service "lock_row Processing (Some (30 * second))"
      "lock_store Processing (Some (30 * second))" "[(calm_env 0, 10 * second), (calm_env 0, 20 * second)]"
      "\<lparr>lk_record = 1, lk_operation = ''op1''\<rparr>"] lock_store_held
  by (simp add: demo_lock_service_simps calm_env_def lock_row_def)

theorem reclaimed_lock_lapses_witness:
  "\<exists>lock2 s1 s2 lock3 s3. sys_acquire demo_libs True demo_lock_service calm_env ''op2'' 0 (lock_store Succeeded None) = (Inr lock2, s1)
     \<and> sys_renew_tick demo_lock_service (calm_env 0) lock2 (10 * second) s1 = (False, s2)
     \<and> sys_acquire demo_libs True demo_lock_service calm_env ''op3'' (30 * second) s2 = (Inr lock3, s3)"
  using reclaimed_lock_lapses [OF lock_store_facts(1) [of Succeeded None] calm_env_calm calm_env_calm calm_env_calm,
      of "''op2''" "''op3''" demo_libs "lock_row Succeeded None" 0 demo_lock_service "30 * second" "10 * second"]
    lock_store_facts(3) [of Succeeded None]
  by (simp add: demo_hash demo_lock_service_simps) (simp add: lock_row_def, blast)

end
