(* ===== verification/Failure_Gate.thy ===== *)
theory Failure_Gate
  imports Prelude "HOL-Library.AList"
begin

text \<open>
  The contract that the proxy circuit breaker and the limiter of invalid authentication attempts
  share: every key has a score that a failure of that key raises by at most one and nothing else
  raises, and a key is blocked only when its score has reached the threshold. The client's
  lemma: a key with fewer failures than the threshold is never blocked, whatever happened to the
  other keys and in whatever order.
\<close>

locale failure_gate =
  fixes step :: "'op \<Rightarrow> 's \<Rightarrow> 's"
    and fails :: "'op \<Rightarrow> 'k \<Rightarrow> bool"
    and score :: "'s \<Rightarrow> 'k \<Rightarrow> int"
    and blocked :: "'s \<Rightarrow> 'k \<Rightarrow> time \<Rightarrow> bool"
    and threshold :: "'s \<Rightarrow> int"
    and invar :: "'s \<Rightarrow> bool"
    and legal :: "'op \<Rightarrow> bool"
  assumes step_invar: "invar s \<Longrightarrow> legal op \<Longrightarrow> invar (step op s)"
    and step_threshold: "threshold (step op s) = threshold s"
    and step_score: "invar s \<Longrightarrow> legal op \<Longrightarrow> score (step op s) k \<le> score s k + (if fails op k then 1 else 0)"
    and blocked_score: "invar s \<Longrightarrow> blocked s k t \<Longrightarrow> 0 \<le> t \<Longrightarrow> threshold s \<le> score s k"
begin

fun gate_run :: "'op list \<Rightarrow> 's \<Rightarrow> 's" where
  "gate_run [] s = s"
| "gate_run (op # ops) s = gate_run ops (step op s)"

lemma gate_run_fold: "gate_run ops s = fold step ops s"
  by (induction ops arbitrary: s) auto

lemma gate_run_invar: "invar s \<Longrightarrow> list_all legal ops \<Longrightarrow> invar (gate_run ops s)"
  by (induction ops arbitrary: s) (auto simp: step_invar)

lemma gate_run_threshold: "threshold (gate_run ops s) = threshold s"
  by (induction ops arbitrary: s) (auto simp: step_threshold)

lemma gate_run_score:
  "invar s \<Longrightarrow> list_all legal ops \<Longrightarrow>
     score (gate_run ops s) k \<le> score s k + int (length (filter (\<lambda>op. fails op k) ops))"
proof (induction ops arbitrary: s)
  case (Cons op ops)
  then have "score (gate_run ops (step op s)) k
      \<le> score (step op s) k + int (length (filter (\<lambda>op. fails op k) ops))"
    by (simp add: step_invar)
  with step_score [of s op k] Cons.prems show ?case by (auto split: if_splits)
qed simp

lemma few_failures_not_blocked:
  assumes "invar s" "list_all legal ops" "0 \<le> t"
    and "score s k + int (length (filter (\<lambda>op. fails op k) ops)) < threshold s"
  shows "\<not> blocked (fold step ops s) k t"
  using blocked_score [OF gate_run_invar [OF assms(1,2)], of k t] gate_run_score [OF assms(1,2), of k]
    gate_run_threshold [of ops s] assms(3,4)
  by (auto simp: gate_run_fold)

end

end
