(* ===== verification/Stream_Circuit.thy ===== *)
theory Stream_Circuit
  imports Failure_Gate App_Errors
begin

text \<open>
  The circuit breaker for proxies whose streams disconnect,
  \<open>internal/service/openai_proxy_stream_circuit.go\<close>. The Go map of entries is an association list
  with distinct keys; its order stands for the iteration order of the Go map, so what holds for
  every list holds for every iteration order. Each method runs under the circuit's mutex, so it is
  one atomic function. \<open>time.Time{}\<close> is \<open>0\<close>.
\<close>

section \<open>State\<close>

record circuit_settings =
  cs_disabled :: bool
  cs_threshold :: int
  cs_window :: duration
  cs_ttl :: duration
  cs_collapse :: duration
  cs_max :: int

record circuit_entry =
  ce_count :: int
  ce_window :: time
  ce_last :: time
  ce_blocked :: time
  ce_touched :: time

record circuit =
  ci_settings :: circuit_settings
  ci_entries :: "(int \<times> circuit_entry) list"

text \<open>The four configuration values the service reads: disabled, threshold, window, TTL.\<close>

definition resolve_circuit_settings :: "(bool \<times> int \<times> int \<times> int) option \<Rightarrow> circuit_settings" where
  "resolve_circuit_settings cfg =
     (let base = \<lparr>cs_disabled = False, cs_threshold = 2, cs_window = minute, cs_ttl = 10 * minute,
        cs_collapse = 3 * second, cs_max = 4096\<rparr>
      in case cfg of None \<Rightarrow> base
         | Some (disabled, threshold, win, ttl) \<Rightarrow>
             \<lparr>cs_disabled = disabled,
              cs_threshold = (if 0 < threshold then threshold else cs_threshold base),
              cs_window = (if 0 < win then wrap64 (win * second) else cs_window base),
              cs_ttl = (if 0 < ttl then wrap64 (ttl * second) else cs_ttl base),
              cs_collapse = cs_collapse base, cs_max = cs_max base\<rparr>)"

definition new_circuit :: "circuit_settings \<Rightarrow> circuit" where
  "new_circuit st = \<lparr>ci_settings = st\<lparr>
      cs_threshold := (if cs_threshold st \<le> 0 then 2 else cs_threshold st),
      cs_window := (if cs_window st \<le> 0 then minute else cs_window st),
      cs_ttl := (if cs_ttl st \<le> 0 then 10 * minute else cs_ttl st),
      cs_max := (if cs_max st \<le> 0 then 4096 else cs_max st),
      cs_collapse := (if cs_collapse st < 0 then 0 else cs_collapse st)\<rparr>,
    ci_entries = []\<rparr>"

section \<open>Operations\<close>

definition circuit_stale :: "circuit_settings \<Rightarrow> time \<Rightarrow> circuit_entry \<Rightarrow> bool" where
  "circuit_stale st now e \<longleftrightarrow>
     ce_blocked e = 0 \<and> cs_window st < time_sub now (ce_touched e)
     \<or> ce_blocked e \<noteq> 0 \<and> \<not> now < ce_blocked e"

definition oldest_step :: "int \<times> time \<Rightarrow> int \<times> circuit_entry \<Rightarrow> int \<times> time" where
  "oldest_step acc x = (if fst acc = 0 \<or> ce_touched (snd x) < snd acc
     then (fst x, ce_touched (snd x)) else acc)"

definition oldest_proxy :: "(int \<times> circuit_entry) list \<Rightarrow> int" where
  "oldest_proxy es = fst (foldl oldest_step (0, 0) es)"

definition ensure_capacity :: "time \<Rightarrow> circuit \<Rightarrow> circuit" where
  "ensure_capacity now c =
     (let st = ci_settings c; full = (\<lambda>es. \<not> int (length es) < cs_max st) in
      if \<not> full (ci_entries c) then c
      else let es = filter (\<lambda>(i, e). \<not> circuit_stale st now e) (ci_entries c) in
        if \<not> full es then c\<lparr>ci_entries := es\<rparr>
        else let old = oldest_proxy es in
          c\<lparr>ci_entries := (if 0 < old then AList.delete old es else es)\<rparr>)"

definition fresh_entry :: circuit_entry where
  "fresh_entry = \<lparr>ce_count = 0, ce_window = 0, ce_last = 0, ce_blocked = 0, ce_touched = 0\<rparr>"

text \<open>The entry that one more failure leaves, and what \<open>recordFailure\<close> reports for it.\<close>

definition failure_entry ::
  "circuit_settings \<Rightarrow> time \<Rightarrow> circuit_entry \<Rightarrow> (bool \<times> time) \<times> circuit_entry" where
  "failure_entry st now e =
     (let e = (if ce_window e = 0 \<or> now < ce_window e \<or> cs_window st < time_sub now (ce_window e)
                then e\<lparr>ce_count := 0, ce_window := now, ce_blocked := 0\<rparr> else e)
      in if 0 < cs_collapse st \<and> ce_last e \<noteq> 0 \<and> 0 \<le> time_sub now (ce_last e)
            \<and> time_sub now (ce_last e) < cs_collapse st
         then ((False, 0), e\<lparr>ce_touched := now\<rparr>)
         else let e = e\<lparr>ce_count := ce_count e + 1, ce_last := now, ce_touched := now\<rparr>;
                  tripped = (cs_threshold st \<le> ce_count e);
                  e = (if tripped then e\<lparr>ce_blocked := now + cs_ttl st\<rparr> else e)
              in ((tripped, ce_blocked e), e))"

definition record_failure :: "int \<Rightarrow> time \<Rightarrow> circuit \<Rightarrow> (bool \<times> time) \<times> circuit" where
  "record_failure i now c =
     (if cs_disabled (ci_settings c) \<or> i \<le> 0 then ((False, 0), c)
      else case map_of (ci_entries c) i of
          Some e \<Rightarrow>
            if now < ce_blocked e
            then ((False, ce_blocked e), c\<lparr>ci_entries := AList.update i (e\<lparr>ce_touched := now\<rparr>) (ci_entries c)\<rparr>)
            else let (r, e') = failure_entry (ci_settings c) now e
                 in (r, c\<lparr>ci_entries := AList.update i e' (ci_entries c)\<rparr>)
        | None \<Rightarrow> let c1 = ensure_capacity now c; (r, e') = failure_entry (ci_settings c1) now fresh_entry
                 in (r, c1\<lparr>ci_entries := AList.update i e' (ci_entries c1)\<rparr>))"

definition record_success :: "int \<Rightarrow> circuit \<Rightarrow> bool \<times> circuit" where
  "record_success i c =
     (if i \<le> 0 then (False, c)
      else if map_of (ci_entries c) i = None then (False, c)
      else (True, c\<lparr>ci_entries := AList.delete i (ci_entries c)\<rparr>))"

definition is_blocked :: "int \<Rightarrow> time \<Rightarrow> circuit \<Rightarrow> bool \<times> circuit" where
  "is_blocked i now c =
     (if cs_disabled (ci_settings c) \<or> i \<le> 0 then (False, c)
      else case map_of (ci_entries c) i of None \<Rightarrow> (False, c)
        | Some e \<Rightarrow> if ce_blocked e = 0 then (False, c)
            else if \<not> now < ce_blocked e then (False, c\<lparr>ci_entries := AList.delete i (ci_entries c)\<rparr>)
            else (True, c))"

definition active_block_count :: "time \<Rightarrow> circuit \<Rightarrow> nat" where
  "active_block_count now c = (if cs_disabled (ci_settings c) then 0
     else length (filter (\<lambda>(i, e). ce_blocked e \<noteq> 0 \<and> now < ce_blocked e) (ci_entries c)))"

text \<open>
  The gateway's use of the circuit. An account is \<open>None\<close> (nil) or its platform and proxy id; the
  circuit of the service is created on first use from the configuration. The time is the value
  of \<open>time.Now\<close>; a disconnect that the request's own cancellation or deadline caused is not a
  failure of the proxy.
\<close>

record proxy_account =
  pa_platform :: string
  pa_proxy :: "int option"

definition circuit_proxy_id :: "proxy_account option \<Rightarrow> int option" where
  "circuit_proxy_id a = (case a of None \<Rightarrow> None
     | Some a \<Rightarrow> if pa_platform a \<noteq> ''openai'' then None
         else case pa_proxy a of None \<Rightarrow> None | Some p \<Rightarrow> if p \<le> 0 then None else Some p)"

definition get_circuit :: "(bool \<times> int \<times> int \<times> int) option \<Rightarrow> circuit option \<Rightarrow> circuit" where
  "get_circuit cfg c = (case c of Some c \<Rightarrow> c | None \<Rightarrow> new_circuit (resolve_circuit_settings cfg))"

abbreviation ctx_canceled :: go_error where "ctx_canceled \<equiv> Other_Error ''context canceled'' None"
abbreviation ctx_deadline :: go_error where "ctx_deadline \<equiv> Other_Error ''context deadline exceeded'' None"

definition record_stream_disconnect ::
  "(bool \<times> int \<times> int \<times> int) option \<Rightarrow> proxy_account option \<Rightarrow> go_error option \<Rightarrow> time
    \<Rightarrow> circuit option \<Rightarrow> circuit option" where
  "record_stream_disconnect cfg a err now c =
     (case circuit_proxy_id a of None \<Rightarrow> c
      | Some p \<Rightarrow> (case err of None \<Rightarrow> c
        | Some e \<Rightarrow> if errors_is e ctx_canceled \<or> errors_is e ctx_deadline then c
            else Some (snd (record_failure p now (get_circuit cfg c)))))"

definition clear_stream_disconnect ::
  "(bool \<times> int \<times> int \<times> int) option \<Rightarrow> proxy_account option \<Rightarrow> circuit option \<Rightarrow> circuit option" where
  "clear_stream_disconnect cfg a c =
     (case circuit_proxy_id a of None \<Rightarrow> c
      | Some p \<Rightarrow> Some (snd (record_success p (get_circuit cfg c))))"

definition is_stream_quarantined ::
  "(bool \<times> int \<times> int \<times> int) option \<Rightarrow> bool \<Rightarrow> proxy_account option \<Rightarrow> time \<Rightarrow> circuit option
    \<Rightarrow> bool \<times> circuit option" where
  "is_stream_quarantined cfg bypass a now c =
     (case circuit_proxy_id a of None \<Rightarrow> (False, c)
      | Some p \<Rightarrow> if bypass then (False, c)
          else let (b, c') = is_blocked p now (get_circuit cfg c) in (b, Some c'))"

section \<open>Invariant\<close>

definition entry_ok :: "circuit_settings \<Rightarrow> circuit_entry \<Rightarrow> bool" where
  "entry_ok st e \<longleftrightarrow> 0 \<le> ce_count e \<and> (ce_blocked e \<noteq> 0 \<longleftrightarrow> cs_threshold st \<le> ce_count e)"

definition settings_ok :: "circuit_settings \<Rightarrow> bool" where
  "settings_ok st \<longleftrightarrow> 0 < cs_threshold st \<and> 0 < cs_window st \<and> 0 < cs_ttl st \<and> 0 \<le> cs_collapse st \<and> 0 < cs_max st"

definition circuit_ok :: "circuit \<Rightarrow> bool" where
  "circuit_ok c \<longleftrightarrow> settings_ok (ci_settings c) \<and> distinct (akeys (ci_entries c))
     \<and> int (length (ci_entries c)) \<le> cs_max (ci_settings c)
     \<and> (\<forall>(i, e) \<in> set (ci_entries c). 0 < i \<and> entry_ok (ci_settings c) e)"

lemma new_circuit_ok: "circuit_ok (new_circuit st)"
  by (auto simp: new_circuit_def circuit_ok_def settings_ok_def)

lemma fresh_entry_ok: "settings_ok st \<Longrightarrow> entry_ok st fresh_entry"
  by (simp add: entry_ok_def settings_ok_def fresh_entry_def)

lemma failure_entry_ok:
  "settings_ok st \<Longrightarrow> entry_ok st e \<Longrightarrow> 0 \<le> now \<Longrightarrow> entry_ok st (snd (failure_entry st now e))"
  by (auto simp: failure_entry_def entry_ok_def settings_ok_def Let_def)

text \<open>The second loop of \<open>ensureCapacityLocked\<close> finds an entry that was touched least recently.\<close>

lemma oldest_fold:
  assumes "fst acc \<noteq> 0" "\<forall>(i, e) \<in> set es. 0 < i"
  shows "(foldl oldest_step acc es = acc \<or> (\<exists>(i, e) \<in> set es. foldl oldest_step acc es = (i, ce_touched e)))
    \<and> snd (foldl oldest_step acc es) \<le> snd acc
    \<and> (\<forall>(i, e) \<in> set es. snd (foldl oldest_step acc es) \<le> ce_touched e)"
  using assms
proof (induction es arbitrary: acc)
  case (Cons x es)
  obtain i e where x: "x = (i, e)" by force
  have h: "fst (oldest_step acc x) \<noteq> 0" "oldest_step acc x = acc \<or> oldest_step acc x = (i, ce_touched e)"
    "snd (oldest_step acc x) \<le> snd acc" "snd (oldest_step acc x) \<le> ce_touched e"
    using Cons.prems x by (auto simp: oldest_step_def)
  have "(foldl oldest_step (oldest_step acc x) es = oldest_step acc x
        \<or> (\<exists>(i, e) \<in> set es. foldl oldest_step (oldest_step acc x) es = (i, ce_touched e)))
    \<and> snd (foldl oldest_step (oldest_step acc x) es) \<le> snd (oldest_step acc x)
    \<and> (\<forall>(i, e) \<in> set es. snd (foldl oldest_step (oldest_step acc x) es) \<le> ce_touched e)"
    using Cons.prems by (intro Cons.IH [OF h(1)]) auto
  with h x show ?case by fastforce
qed simp

lemma oldest_proxy_spec:
  assumes "es \<noteq> []" "\<forall>(i, e) \<in> set es. 0 < i"
  obtains e where "(oldest_proxy es, e) \<in> set es" "\<forall>(i, e') \<in> set es. ce_touched e \<le> ce_touched e'"
proof (cases es)
  case (Cons x xs)
  obtain i e where x: "x = (i, e)" by force
  have f: "oldest_step (0, 0) x = (i, ce_touched e)" using x by (simp add: oldest_step_def)
  have o: "oldest_proxy es = fst (foldl oldest_step (i, ce_touched e) xs)"
    by (simp add: oldest_proxy_def Cons f)
  have "fst (i, ce_touched e) \<noteq> 0" "\<forall>(i, e) \<in> set xs. 0 < i" using assms(2) Cons x by auto
  from oldest_fold [OF this]
  obtain j d where "(j, d) \<in> set es" "foldl oldest_step (i, ce_touched e) xs = (j, ce_touched d)"
    "ce_touched d \<le> ce_touched e" "\<forall>(k, d') \<in> set xs. ce_touched d \<le> ce_touched d'"
    unfolding Cons x by fastforce
  with o Cons x show ?thesis by (intro that [of d]) auto
qed (use assms in simp)

lemma length_delete_less: "k \<in> fst ` set es \<Longrightarrow> length (AList.delete k es) < length es"
  by (auto simp: AList.delete_eq intro!: length_filter_less)

lemma ensure_capacity_settings [simp]: "ci_settings (ensure_capacity now c) = ci_settings c"
  by (simp add: ensure_capacity_def Let_def)

lemma ensure_capacity_keys: "set (ci_entries (ensure_capacity now c)) \<subseteq> set (ci_entries c)"
  by (auto simp: ensure_capacity_def Let_def AList.delete_eq)

lemma ensure_capacity_room:
  assumes "circuit_ok c"
  shows "circuit_ok (ensure_capacity now c)"
    "int (length (ci_entries (ensure_capacity now c))) < cs_max (ci_settings c)"
proof -
  let ?es = "filter (\<lambda>(i, e). \<not> circuit_stale (ci_settings c) now e) (ci_entries c)"
  have max: "0 < cs_max (ci_settings c)" "int (length (ci_entries c)) \<le> cs_max (ci_settings c)"
    using assms by (auto simp: circuit_ok_def settings_ok_def)
  have le: "length ?es \<le> length (ci_entries c)" by (rule length_filter_le)
  have d: "distinct (akeys (ci_entries (ensure_capacity now c)))"
    using assms by (auto simp: ensure_capacity_def Let_def circuit_ok_def distinct_keys_filter AList.delete_eq)
  have "oldest_proxy ?es \<in> fst ` set ?es \<and> 0 < oldest_proxy ?es" if ne: "?es \<noteq> []"
  proof -
    have pos: "\<forall>(i, e) \<in> set ?es. 0 < i" using assms by (auto simp: circuit_ok_def)
    obtain e where "(oldest_proxy ?es, e) \<in> set ?es" by (rule oldest_proxy_spec [OF ne pos])
    with pos show ?thesis by force
  qed
  then have dl: "?es \<noteq> [] \<Longrightarrow> 0 < oldest_proxy ?es \<and> length (AList.delete (oldest_proxy ?es) ?es) < length ?es"
    by (auto intro!: length_delete_less)
  show room: "int (length (ci_entries (ensure_capacity now c))) < cs_max (ci_settings c)"
  proof (cases "int (length ?es) < cs_max (ci_settings c)")
    case False
    then have "?es \<noteq> []" using max by auto
    from dl [OF this] le max(2)
    have "0 < oldest_proxy ?es" "int (length (AList.delete (oldest_proxy ?es) ?es)) < cs_max (ci_settings c)"
      by linarith+
    with False show ?thesis by (auto simp: ensure_capacity_def Let_def)
  qed (auto simp: ensure_capacity_def Let_def)
  show "circuit_ok (ensure_capacity now c)"
    using assms d room ensure_capacity_keys [of now c] by (auto simp: circuit_ok_def)
qed

lemma circuit_ok_update:
  assumes "circuit_ok c" "entry_ok (ci_settings c) e" "0 < i"
    and "i \<in> fst ` set (ci_entries c) \<or> int (length (ci_entries c)) < cs_max (ci_settings c)"
  shows "circuit_ok (c\<lparr>ci_entries := AList.update i e (ci_entries c)\<rparr>)"
proof -
  have u: "(j, d) \<in> set (AList.update i e es) \<Longrightarrow> (j, d) = (i, e) \<or> (j, d) \<in> set es"
    for j d and es :: "(int \<times> circuit_entry) list"
    by (induction es) (auto split: if_splits)
  with assms show ?thesis
    by (auto simp: circuit_ok_def AList.distinct_update length_alist_update dest!: u)
qed

lemma circuit_ok_delete: "circuit_ok c \<Longrightarrow> circuit_ok (c\<lparr>ci_entries := AList.delete i (ci_entries c)\<rparr>)"
  using length_filter_le [of "\<lambda>(k', _). i \<noteq> k'" "ci_entries c"]
  by (auto simp: circuit_ok_def AList.delete_eq distinct_keys_filter simp del: length_filter_le)

lemma circuit_ok_entry: "circuit_ok c \<Longrightarrow> map_of (ci_entries c) i = Some e \<Longrightarrow> entry_ok (ci_settings c) e"
  by (auto simp: circuit_ok_def dest!: map_of_SomeD)

lemma record_failure_ok:
  assumes c: "circuit_ok c" and t: "0 \<le> now"
  shows "circuit_ok (snd (record_failure i now c))"
proof (cases "cs_disabled (ci_settings c) \<or> i \<le> 0")
  case False
  then have i: "0 < i" by simp
  have st: "settings_ok (ci_settings c)" using c by (simp add: circuit_ok_def)
  show ?thesis
  proof (cases "map_of (ci_entries c) i")
    case None
    let ?c1 = "ensure_capacity now c"
    have "entry_ok (ci_settings ?c1) (snd (failure_entry (ci_settings ?c1) now fresh_entry))"
      using st t by (simp add: failure_entry_ok fresh_entry_ok)
    with ensure_capacity_room [OF c, of now] i have
      "circuit_ok (?c1\<lparr>ci_entries := AList.update i (snd (failure_entry (ci_settings ?c1) now fresh_entry)) (ci_entries ?c1)\<rparr>)"
      by (intro circuit_ok_update) auto
    with None False show ?thesis by (simp add: record_failure_def split_beta Let_def)
  next
    case (Some e)
    have e: "entry_ok (ci_settings c) e" using circuit_ok_entry [OF c Some] .
    have m: "i \<in> fst ` set (ci_entries c)" using Some by (force dest: map_of_SomeD)
    have "entry_ok (ci_settings c) (e\<lparr>ce_touched := now\<rparr>)" using e by (simp add: entry_ok_def)
    with failure_entry_ok [OF st e t] Some False i m c show ?thesis
      by (auto simp: record_failure_def split_beta Let_def intro!: circuit_ok_update)
  qed
qed (use c in \<open>auto simp: record_failure_def\<close>)

section \<open>Sequences of operations\<close>

datatype circuit_op = Failure int time | Success int | Check int time

fun circuit_step :: "circuit_op \<Rightarrow> circuit \<Rightarrow> circuit" where
  "circuit_step (Failure i t) c = snd (record_failure i t c)"
| "circuit_step (Success i) c = snd (record_success i c)"
| "circuit_step (Check i t) c = snd (is_blocked i t c)"

fun circuit_legal :: "circuit_op \<Rightarrow> bool" where
  "circuit_legal (Failure i t) = (0 \<le> t)"
| "circuit_legal (Check i t) = (0 \<le> t)"
| "circuit_legal (Success i) = True"

fun circuit_fails :: "circuit_op \<Rightarrow> int \<Rightarrow> bool" where
  "circuit_fails (Failure j t) i = (j = i)"
| "circuit_fails _ i = False"

definition circuit_score :: "circuit \<Rightarrow> int \<Rightarrow> int" where
  "circuit_score c i = (case map_of (ci_entries c) i of None \<Rightarrow> 0 | Some e \<Rightarrow> ce_count e)"

lemma circuit_step_ok: "circuit_ok c \<Longrightarrow> circuit_legal op \<Longrightarrow> circuit_ok (circuit_step op c)"
  by (cases op) (auto simp: record_failure_ok record_success_def is_blocked_def circuit_ok_delete
      split: option.splits)

lemma circuit_step_settings: "ci_settings (circuit_step op c) = ci_settings c"
  by (cases op) (auto simp: record_failure_def record_success_def is_blocked_def split_beta Let_def
      split: option.splits)

lemma failure_entry_count: "settings_ok st \<Longrightarrow> entry_ok st e \<Longrightarrow> ce_count (snd (failure_entry st now e)) \<le> ce_count e + 1"
  by (auto simp: failure_entry_def entry_ok_def Let_def)

lemma ensure_capacity_lookup:
  "circuit_ok c \<Longrightarrow> map_of (ci_entries (ensure_capacity now c)) k = Some e \<Longrightarrow> map_of (ci_entries c) k = Some e"
  using ensure_capacity_keys [of now c] by (auto simp: circuit_ok_def dest!: map_of_SomeD)

lemma circuit_score_nonneg: "circuit_ok c \<Longrightarrow> 0 \<le> circuit_score c k"
  by (auto simp: circuit_score_def entry_ok_def split: option.splits dest!: circuit_ok_entry)

lemma circuit_step_score:
  assumes "circuit_ok c"
  shows "circuit_score (circuit_step op c) k \<le> circuit_score c k + (if circuit_fails op k then 1 else 0)"
proof -
  have st: "settings_ok (ci_settings c)" using assms by (simp add: circuit_ok_def)
  have f: "ce_count (snd (failure_entry (ci_settings c) now fresh_entry)) \<le> 1" for now
    using failure_entry_count [OF st fresh_entry_ok [OF st]] by (simp add: fresh_entry_def)
  show ?thesis
  proof (cases op)
    case (Failure i t)
    have "circuit_score (ensure_capacity t c) k \<le> circuit_score c k"
      using circuit_score_nonneg [OF assms, of k]
      by (auto simp: circuit_score_def split: option.splits dest: ensure_capacity_lookup [OF assms])
    with Failure f st failure_entry_count [OF st] circuit_ok_entry [OF assms] show ?thesis
      by (auto simp: record_failure_def circuit_score_def split_beta Let_def AList.update_conv' split: option.splits)
  qed (use circuit_score_nonneg [OF assms, of k] in \<open>auto simp: record_success_def is_blocked_def circuit_score_def
      AList.delete_conv' split: option.splits if_splits\<close>)
qed

lemma is_blocked_score:
  "circuit_ok c \<Longrightarrow> fst (is_blocked k t c) \<Longrightarrow> cs_threshold (ci_settings c) \<le> circuit_score c k"
  by (auto simp: is_blocked_def circuit_score_def entry_ok_def split: option.splits if_splits dest!: circuit_ok_entry)

interpretation circuit_gate: failure_gate circuit_step circuit_fails circuit_score
  "\<lambda>c k t. fst (is_blocked k t c)" "\<lambda>c. cs_threshold (ci_settings c)" circuit_ok circuit_legal
  by unfold_locales (simp_all add: circuit_step_ok circuit_step_settings circuit_step_score is_blocked_score)

text \<open>
  The circuit stays bounded and consistent for every sequence of reports and checks:
  at most \<open>maxEntries\<close> proxies are tracked, each once, and an entry carries a quarantine deadline
  exactly when its failures reached the threshold.
\<close>

theorem circuit_bounded:
  assumes "list_all circuit_legal ops"
  shows "circuit_ok (fold circuit_step ops (new_circuit st))
    \<and> int (length (ci_entries (fold circuit_step ops (new_circuit st)))) \<le> cs_max (ci_settings (new_circuit st))"
proof -
  have "circuit_ok (fold circuit_step ops (new_circuit st))"
    using circuit_gate.gate_run_invar [OF new_circuit_ok assms] by (simp add: circuit_gate.gate_run_fold)
  moreover have "ci_settings (fold circuit_step ops c) = ci_settings c" for c
    by (induction ops arbitrary: c) (auto simp: circuit_step_settings)
  ultimately show ?thesis by (auto simp: circuit_ok_def)
qed

text \<open>
  Claim C36. No false positive of the circuit: from a new circuit, after any sequence of reports and checks at
  times that are not negative, a proxy with fewer failure reports than the threshold is never
  quarantined, whatever the reports about other proxies.
\<close>

theorem circuit_no_false_positive:
  assumes "list_all circuit_legal ops" "0 \<le> t"
    and "int (length (filter (\<lambda>op. circuit_fails op i) ops)) < cs_threshold (ci_settings (new_circuit st))"
  shows "\<not> fst (is_blocked i t (fold circuit_step ops (new_circuit st)))"
  using assms by (intro circuit_gate.few_failures_not_blocked [OF new_circuit_ok])
    (simp_all add: circuit_score_def new_circuit_def)

section \<open>Tripping and quarantine\<close>

lemma time_sub_le: "min_int64 \<le> w \<Longrightarrow> a - b \<le> w \<Longrightarrow> time_sub a b \<le> w"
  by (simp add: time_sub_def max_int64_def min_int64_def)

lemma time_sub_ge: "w \<le> max_int64 \<Longrightarrow> w \<le> a - b \<Longrightarrow> w \<le> time_sub a b"
  by (simp add: time_sub_def max_int64_def min_int64_def)

lemma failure_entry_counts:
  assumes "settings_ok st" "cs_collapse st \<le> max_int64"
    and "ce_window e \<noteq> 0" "ce_window e \<le> now" "now - ce_window e \<le> cs_window st"
    and "ce_last e + cs_collapse st \<le> now"
  shows "failure_entry st now e =
    (let e' = e\<lparr>ce_count := ce_count e + 1, ce_last := now, ce_touched := now\<rparr> in
     if cs_threshold st \<le> ce_count e + 1
     then ((True, now + cs_ttl st), e'\<lparr>ce_blocked := now + cs_ttl st\<rparr>) else ((False, ce_blocked e), e'))"
proof -
  have "time_sub now (ce_window e) \<le> cs_window st"
    using assms(1,5) by (intro time_sub_le) (auto simp: settings_ok_def min_int64_def)
  moreover have "cs_collapse st \<le> time_sub now (ce_last e)" using assms(2,6) by (intro time_sub_ge) auto
  ultimately show ?thesis using assms(3,4) by (auto simp: failure_entry_def Let_def)
qed

lemma failure_entry_fresh:
  assumes "settings_ok st" "now \<noteq> 0"
  shows "snd (failure_entry st now fresh_entry) =
    \<lparr>ce_count = 1, ce_window = now, ce_last = now,
     ce_blocked = (if cs_threshold st \<le> 1 then now + cs_ttl st else 0), ce_touched = now\<rparr>"
  using assms by (auto simp: failure_entry_def fresh_entry_def Let_def)

fun circuit_failures :: "int \<Rightarrow> time list \<Rightarrow> circuit \<Rightarrow> circuit" where
  "circuit_failures i [] c = c"
| "circuit_failures i (t # ts) c = circuit_failures i ts (snd (record_failure i t c))"

lemma circuit_failures_settings: "ci_settings (circuit_failures i ts c) = ci_settings c"
  using circuit_step_settings [of "Failure i _"] by (induction ts arbitrary: c) auto

lemma circuit_failures_trip:
  assumes "settings_ok (ci_settings c)" "cs_collapse (ci_settings c) \<le> max_int64" "\<not> cs_disabled (ci_settings c)" "0 < i"
    and "map_of (ci_entries c) i = Some e" "0 < ce_window e" "ce_blocked e = 0"
    and "ce_window e \<le> ce_last e"
    and "successively (\<lambda>a b. a + cs_collapse (ci_settings c) \<le> b) (ce_last e # ts)"
    and "\<forall>t \<in> set ts. t - ce_window e \<le> cs_window (ci_settings c)"
    and "ts \<noteq> []" "ce_count e + int (length ts) = cs_threshold (ci_settings c)"
  shows "\<exists>e'. map_of (ci_entries (circuit_failures i ts c)) i = Some e' \<and> ce_blocked e' = last ts + cs_ttl (ci_settings c)"
  using assms
proof (induction ts arbitrary: c e)
  case (Cons t ts)
  let ?st = "ci_settings c"
  have t: "ce_last e + cs_collapse ?st \<le> t" "ce_window e \<le> t" "0 \<le> cs_collapse ?st"
    using Cons.prems by (auto simp: settings_ok_def)
  have "ce_window e \<noteq> 0" "t - ce_window e \<le> cs_window ?st" using Cons.prems by auto
  note f = failure_entry_counts [OF Cons.prems(1,2) this(1) t(2) this(2) t(1)]
  let ?c = "snd (record_failure i t c)"
  let ?e = "snd (failure_entry ?st t e)"
  have c: "map_of (ci_entries ?c) i = Some ?e" "ci_settings ?c = ?st"
    using Cons.prems t by (auto simp: record_failure_def split_beta Let_def AList.update_conv')
  show ?case
  proof (cases "ts = []")
    case True
    with c f Cons.prems show ?thesis by (simp add: Let_def)
  next
    case False
    then have "\<not> cs_threshold ?st \<le> ce_count e + 1" using Cons.prems(12) by (cases ts) auto
    then have e: "?e = e\<lparr>ce_count := ce_count e + 1, ce_last := t, ce_touched := t\<rparr>" using f by (simp add: Let_def)
    have "\<exists>e'. map_of (ci_entries (circuit_failures i ts ?c)) i = Some e' \<and> ce_blocked e' = last ts + cs_ttl (ci_settings ?c)"
      by (rule Cons.IH [of ?c ?e]) (use Cons.prems c t False in \<open>auto simp: e\<close>)
    with False c(2) show ?thesis by simp
  qed
qed simp

lemma spaced_ge:
  fixes d :: int
  shows "0 \<le> d \<Longrightarrow> successively (\<lambda>a b. a + d \<le> b) (t # ts) \<Longrightarrow> u \<in> set ts \<Longrightarrow> t \<le> u"
proof (induction ts arbitrary: t)
  case (Cons v ts)
  have "t \<le> v" "successively (\<lambda>a b. a + d \<le> b) (v # ts)" using Cons.prems(1,2) by simp_all
  with Cons.IH [of v] Cons.prems show ?case by fastforce
qed simp

text \<open>
  Claim C28. A failing proxy is quarantined: after as many failures as the threshold, all within
  one window of the first and each at least the collapse interval after the one before, it is
  blocked until exactly the last failure plus the quarantine TTL.
\<close>

theorem circuit_trips:
  assumes "circuit_ok c" "cs_collapse (ci_settings c) \<le> max_int64" "\<not> cs_disabled (ci_settings c)" "0 < i"
    and "map_of (ci_entries c) i = None" "0 < t"
    and "successively (\<lambda>a b. a + cs_collapse (ci_settings c) \<le> b) (t # ts)"
    and "\<forall>u \<in> set ts. u - t \<le> cs_window (ci_settings c)"
    and "int (length (t # ts)) = cs_threshold (ci_settings c)"
  shows "fst (is_blocked i u (circuit_failures i (t # ts) c)) \<longleftrightarrow> u < last (t # ts) + cs_ttl (ci_settings c)"
proof -
  let ?c = "snd (record_failure i t c)" and ?st = "ci_settings c"
  have st: "settings_ok ?st" using assms(1) by (simp add: circuit_ok_def)
  have pos: "u \<in> set ts \<Longrightarrow> t \<le> u" for u
    using spaced_ge [OF _ assms(7)] st by (simp add: settings_ok_def)
  define e where "e = snd (failure_entry ?st t fresh_entry)"
  have e: "e = \<lparr>ce_count = 1, ce_window = t, ce_last = t,
     ce_blocked = (if cs_threshold ?st \<le> 1 then t + cs_ttl ?st else 0), ce_touched = t\<rparr>"
    unfolding e_def using st assms(6) by (intro failure_entry_fresh) auto
  have c: "map_of (ci_entries ?c) i = Some e" "ci_settings ?c = ?st"
    using assms(3-5) by (auto simp: record_failure_def split_beta Let_def AList.update_conv' e_def)
  have "\<exists>e'. map_of (ci_entries (circuit_failures i (t # ts) c)) i = Some e' \<and> ce_blocked e' = last (t # ts) + cs_ttl ?st"
  proof (cases "ts = []")
    case True
    with assms(9) c e show ?thesis by simp
  next
    case False
    then have "\<not> cs_threshold ?st \<le> 1" using assms(9) by (cases ts) auto
    with circuit_failures_trip [of ?c i e ts] c e st assms False show ?thesis by simp
  qed
  moreover have "0 < last (t # ts) + cs_ttl ?st"
    using pos [of "last ts"] assms(6) st by (auto simp: settings_ok_def)
  ultimately show ?thesis using assms(3,4) circuit_failures_settings [of i "t # ts" c]
    by (auto simp: is_blocked_def split: if_splits)
qed

text \<open>
  The operations that leave the quarantine of proxy \<open>i\<close> until \<open>b\<close> alone: no success of that
  proxy, and its own reports and checks come before the deadline.
\<close>

fun quarantine_respected :: "int \<Rightarrow> time \<Rightarrow> circuit_op \<Rightarrow> bool" where
  "quarantine_respected i b (Failure j t) = (j = i \<longrightarrow> t < b)"
| "quarantine_respected i b (Success j) = (j \<noteq> i)"
| "quarantine_respected i b (Check j t) = (j = i \<longrightarrow> t < b)"

definition quarantined_until :: "int \<Rightarrow> time \<Rightarrow> circuit \<Rightarrow> bool" where
  "quarantined_until i b c \<longleftrightarrow> (\<exists>e. map_of (ci_entries c) i = Some e \<and> ce_blocked e = b)"

abbreviation is_failure :: "circuit_op \<Rightarrow> bool" where
  "is_failure op \<equiv> (case op of Failure i t \<Rightarrow> True | _ \<Rightarrow> False)"

lemma ensure_capacity_id: "int (length (ci_entries c)) < cs_max (ci_settings c) \<Longrightarrow> ensure_capacity now c = c"
  by (simp add: ensure_capacity_def Let_def)

lemma circuit_step_length:
  assumes "int (length (ci_entries c)) < cs_max (ci_settings c)"
  shows "length (ci_entries (circuit_step op c)) \<le> length (ci_entries c) + (if is_failure op then 1 else 0)"
  using assms length_filter_le [of "\<lambda>(k', _). i \<noteq> k'" "ci_entries c" for i]
  by (cases op) (auto simp: record_failure_def record_success_def is_blocked_def ensure_capacity_id
      split_beta Let_def length_alist_update AList.delete_eq simp del: length_filter_le split: option.splits)

lemma quarantine_step:
  assumes "quarantined_until i b c" "quarantine_respected i b op"
    and "int (length (ci_entries c)) < cs_max (ci_settings c)"
  shows "quarantined_until i b (circuit_step op c)"
  using assms
  by (cases op) (auto simp: quarantined_until_def record_failure_def record_success_def is_blocked_def ensure_capacity_id
      split_beta Let_def AList.update_conv' AList.delete_conv' split: option.splits)

lemma quarantine_run:
  assumes "quarantined_until i b c" "list_all (quarantine_respected i b) ops"
    and "int (length (ci_entries c) + length (filter is_failure ops)) < cs_max (ci_settings c)"
  shows "quarantined_until i b (fold circuit_step ops c)"
  using assms
proof (induction ops arbitrary: c)
  case (Cons op ops)
  have room: "int (length (ci_entries c)) < cs_max (ci_settings c)" using Cons.prems(3) by simp
  then have q: "quarantined_until i b (circuit_step op c)" using Cons.prems by (intro quarantine_step) auto
  have "length (ci_entries (circuit_step op c)) \<le> length (ci_entries c) + (if is_failure op then 1 else 0)"
    using room by (rule circuit_step_length)
  with Cons q show ?case by (auto simp: circuit_step_settings split: if_splits)
qed simp

lemma fold_circuit_settings: "ci_settings (fold circuit_step ops c) = ci_settings c"
  by (induction ops arbitrary: c) (auto simp: circuit_step_settings)

text \<open>
  A quarantine is never cut short: while the table has room for the proxies reported
  meanwhile, no report or check about any proxy changes the deadline, only a success of the
  quarantined proxy itself does.
\<close>

theorem quarantine_lasts:
  assumes "quarantined_until i b c" "b \<noteq> 0" "0 < i" "\<not> cs_disabled (ci_settings c)"
    and "list_all (quarantine_respected i b) ops"
    and "int (length (ci_entries c) + length (filter is_failure ops)) < cs_max (ci_settings c)"
  shows "fst (is_blocked i t (fold circuit_step ops c)) \<longleftrightarrow> t < b"
  using quarantine_run [OF assms(1,5,6)] assms(2-4)
  by (auto simp: quarantined_until_def is_blocked_def fold_circuit_settings split: if_splits)

section \<open>Concrete runs\<close>

abbreviation demo_circuit :: circuit where
  "demo_circuit \<equiv> new_circuit (resolve_circuit_settings None)"

lemma demo_circuit_settings: "ci_settings demo_circuit = \<lparr>cs_disabled = False, cs_threshold = 2, cs_window = minute,
   cs_ttl = 10 * minute, cs_collapse = 3 * second, cs_max = 4096\<rparr>" "ci_entries demo_circuit = []"
  by (simp_all add: new_circuit_def resolve_circuit_settings_def)

theorem circuit_bounded_witness:
  "circuit_ok (fold circuit_step [Failure 1 5, Check 1 6, Success 1] demo_circuit)"
  using circuit_bounded [of "[Failure 1 5, Check 1 6, Success 1]" "resolve_circuit_settings None"] by simp

theorem circuit_no_false_positive_witness:
  "\<not> fst (is_blocked 1 9 (fold circuit_step [Failure 1 5, Failure 2 6, Failure 2 7] demo_circuit))"
  using circuit_no_false_positive [of "[Failure 1 5, Failure 2 6, Failure 2 7]" 9 1 "resolve_circuit_settings None"]
  unfolding demo_circuit_settings by simp

theorem circuit_trips_witness:
  "fst (is_blocked 7 (6 * second) (circuit_failures 7 [second, 5 * second] demo_circuit))"
  using circuit_trips [of demo_circuit 7 second "[5 * second]" "6 * second", OF new_circuit_ok]
  unfolding demo_circuit_settings by (simp add: max_int64_def)

theorem quarantine_lasts_witness:
  "fst (is_blocked 1 9 (fold circuit_step [Failure 1 5, Failure 2 6]
     (demo_circuit\<lparr>ci_entries := [(1, fresh_entry\<lparr>ce_blocked := 10\<rparr>)]\<rparr>)))"
  using quarantine_lasts [of 1 10 "demo_circuit\<lparr>ci_entries := [(1, fresh_entry\<lparr>ce_blocked := 10\<rparr>)]\<rparr>"
      "[Failure 1 5, Failure 2 6]" 9]
  by (simp add: demo_circuit_settings quarantined_until_def)

end
