(* ===== verification/Abuse_Limiter.thy ===== *)
theory Abuse_Limiter
  imports Failure_Gate "HOL-Library.Word"
begin

unbundle bit_operations_syntax

text \<open>
  The limiter of clients that keep presenting invalid API keys,
  \<open>internal/service/invalid_auth_abuse_limiter.go\<close>: sixteen shards of a bounded table chosen by an
  FNV-1a hash of the client key, and one shared overflow counter for the clients that find the
  table full. Every call is one atomic step. A shard is an association list with distinct keys
  (any order, so any iteration order of the Go map); counters are 64-bit words, the cleanup cursor
  is a 32-bit word.
\<close>

section \<open>State\<close>

abbreviation shard_count :: nat where "shard_count \<equiv> 16"

record abuse_entry =
  ae_failures :: int
  ae_window :: time
  ae_blocked :: time

record abuse_limiter =
  al_threshold :: int
  al_window :: duration
  al_block :: duration
  al_capacity :: int
  al_shards :: "(string \<times> abuse_entry) list list"
  al_overflow :: abuse_entry
  al_tracked :: int
  al_recorded :: "64 word"
  al_blocks :: "64 word"
  al_rejected :: "64 word"
  al_expired :: "64 word"
  al_overflowed :: "64 word"
  al_global :: "64 word"
  al_cleanup_next :: int
  al_cleanup_cursor :: "32 word"

record abuse_config =
  ac_enabled :: bool
  ac_threshold :: int
  ac_window :: int
  ac_block :: int
  ac_capacity :: int

definition new_invalid_auth_abuse_limiter :: "abuse_config option \<Rightarrow> abuse_limiter option" where
  "new_invalid_auth_abuse_limiter cfg = (case cfg of None \<Rightarrow> None
     | Some c \<Rightarrow> if \<not> ac_enabled c then None
         else if ac_threshold c \<le> 0 \<or> ac_window c \<le> 0 \<or> ac_block c \<le> 0 \<or> ac_capacity c \<le> 0 then None
         else Some \<lparr>al_threshold = ac_threshold c, al_window = wrap64 (ac_window c * second),
           al_block = wrap64 (ac_block c * second), al_capacity = ac_capacity c,
           al_shards = replicate shard_count [],
           al_overflow = \<lparr>ae_failures = 0, ae_window = 0, ae_blocked = 0\<rparr>,
           al_tracked = 0, al_recorded = 0, al_blocks = 0, al_rejected = 0, al_expired = 0,
           al_overflowed = 0, al_global = 0, al_cleanup_next = 0, al_cleanup_cursor = 0\<rparr>)"

section \<open>Operations\<close>

definition fnv_step :: "32 word \<Rightarrow> char \<Rightarrow> 32 word" where
  "fnv_step h c = (h XOR of_nat (byte c)) * 16777619"

definition shard_index :: "string \<Rightarrow> nat" where
  "shard_index key = unat (foldl fnv_step 2166136261 key) mod shard_count"

definition shard_entries :: "abuse_limiter \<Rightarrow> string \<Rightarrow> (string \<times> abuse_entry) list" where
  "shard_entries l key = al_shards l ! shard_index key"

definition set_shard :: "string \<Rightarrow> (string \<times> abuse_entry) list \<Rightarrow> abuse_limiter \<Rightarrow> abuse_limiter" where
  "set_shard key es l = l\<lparr>al_shards := (al_shards l)[shard_index key := es]\<rparr>"

definition entry_expired :: "abuse_limiter \<Rightarrow> time \<Rightarrow> abuse_entry \<Rightarrow> bool" where
  "entry_expired l now e \<longleftrightarrow> \<not> now < ae_blocked e \<and> \<not> now < ae_window e \<and> \<not> now < ae_window e + al_window l"

definition unix_nano :: "time \<Rightarrow> int" where
  "unix_nano t = wrap64 (t - 62135596800 * second)"

definition maybe_cleanup_at_capacity :: "time \<Rightarrow> abuse_limiter \<Rightarrow> abuse_limiter" where
  "maybe_cleanup_at_capacity now l =
     (if al_tracked l < al_capacity l then l
      else if unix_nano now < al_cleanup_next l then l
      else let i = unat (al_cleanup_cursor l) mod shard_count;
               es = al_shards l ! i;
               live = filter (\<lambda>(k, e). \<not> entry_expired l now e) es;
               n = length es - length live
           in l\<lparr>al_cleanup_next := unix_nano (now + 100 * millisecond),
                al_cleanup_cursor := al_cleanup_cursor l + 1,
                al_shards := (al_shards l)[i := live],
                al_tracked := al_tracked l - int n,
                al_expired := al_expired l + of_nat n\<rparr>)"

text \<open>The common start of \<open>check\<close> and \<open>record\<close>: look the key up and drop an expired entry.\<close>

definition live_entry :: "string \<Rightarrow> time \<Rightarrow> abuse_limiter \<Rightarrow> abuse_entry option \<times> abuse_limiter" where
  "live_entry key now l =
     (case map_of (shard_entries l key) key of None \<Rightarrow> (None, l)
      | Some e \<Rightarrow> if entry_expired l now e
          then (None, (set_shard key (AList.delete key (shard_entries l key)) l)
                 \<lparr>al_tracked := al_tracked l - 1, al_expired := al_expired l + 1\<rparr>)
          else (Some e, l))"

definition check_overflow :: "time \<Rightarrow> abuse_limiter \<Rightarrow> duration \<times> bool" where
  "check_overflow now l = (let ov = al_overflow l in
     if now < ae_blocked ov then (time_sub (ae_blocked ov) now, True) else (0, False))"

definition abuse_check :: "string \<Rightarrow> time \<Rightarrow> abuse_limiter \<Rightarrow> (duration \<times> bool) \<times> abuse_limiter" where
  "abuse_check key now l =
     (if key = [] then ((0, False), l)
      else let (entry, l) = live_entry key now (maybe_cleanup_at_capacity now l) in
        if (case entry of None \<Rightarrow> False | Some e \<Rightarrow> now < ae_blocked e)
        then ((time_sub (ae_blocked (the entry)) now, True), l\<lparr>al_rejected := al_rejected l + 1\<rparr>)
        else if entry = None \<and> al_capacity l \<le> al_tracked l then
          (case check_overflow now l of
             (retry, True) \<Rightarrow> ((retry, True), l\<lparr>al_rejected := al_rejected l + 1, al_global := al_global l + 1\<rparr>)
           | (_, False) \<Rightarrow> ((0, False), l))
        else ((0, False), l))"

definition reserve_entry :: "abuse_limiter \<Rightarrow> bool \<times> abuse_limiter" where
  "reserve_entry l = (if al_capacity l \<le> al_tracked l then (False, l)
     else (True, l\<lparr>al_tracked := al_tracked l + 1\<rparr>))"

text \<open>One failure counted in an entry: the new entry and whether it became blocked.\<close>

definition count_failure :: "abuse_limiter \<Rightarrow> time \<Rightarrow> bool \<Rightarrow> abuse_entry \<Rightarrow> abuse_entry \<times> bool" where
  "count_failure l now restart e =
     (let e = (if restart then e\<lparr>ae_window := now, ae_failures := 0\<rparr> else e);
          e = e\<lparr>ae_failures := ae_failures e + 1\<rparr>
      in if al_threshold l \<le> ae_failures e
         then (e\<lparr>ae_failures := 0, ae_blocked := now + al_block l, ae_window := now + al_block l\<rparr>, True)
         else (e, False))"

definition record_overflow :: "time \<Rightarrow> abuse_limiter \<Rightarrow> abuse_limiter" where
  "record_overflow now l =
     (let l = l\<lparr>al_overflowed := al_overflowed l + 1\<rparr>; ov = al_overflow l in
      if now < ae_blocked ov then l
      else case count_failure l now (ae_window ov = 0 \<or> \<not> now < ae_window ov + al_window l) ov of
        (ov', tripped) \<Rightarrow> l\<lparr>al_overflow := ov', al_blocks := al_blocks l + (if tripped then 1 else 0)\<rparr>)"

definition abuse_record :: "string \<Rightarrow> time \<Rightarrow> abuse_limiter \<Rightarrow> abuse_limiter" where
  "abuse_record key now l =
     (if key = [] then l
      else let l = l\<lparr>al_recorded := al_recorded l + 1\<rparr>;
               (found, l) = live_entry key now (maybe_cleanup_at_capacity now l);
               (reserved, l) = (case found of None \<Rightarrow> reserve_entry l | Some e \<Rightarrow> (True, l))
           in if \<not> reserved then record_overflow now l
              else let e = (case found of None \<Rightarrow> \<lparr>ae_failures = 0, ae_window = now, ae_blocked = 0\<rparr>
                              | Some e \<Rightarrow> e)
                   in if now < ae_blocked e then set_shard key (AList.update key e (shard_entries l key)) l
                      else case count_failure l now
                             (now < ae_window e \<or> \<not> now < ae_window e + al_window l) e of
                        (e', tripped) \<Rightarrow> (set_shard key (AList.update key e' (shard_entries l key)) l)
                          \<lparr>al_blocks := al_blocks l + (if tripped then 1 else 0)\<rparr>)"

text \<open>The service's entry points: without a limiter nothing is blocked or recorded.\<close>

definition check_invalid_auth_abuse ::
  "string \<Rightarrow> time \<Rightarrow> abuse_limiter option \<Rightarrow> (duration \<times> bool) \<times> abuse_limiter option" where
  "check_invalid_auth_abuse key now l = (case l of None \<Rightarrow> ((0, False), None)
     | Some l \<Rightarrow> (case abuse_check key now l of (r, l') \<Rightarrow> (r, Some l')))"

definition record_invalid_auth_failure :: "string \<Rightarrow> time \<Rightarrow> abuse_limiter option \<Rightarrow> abuse_limiter option" where
  "record_invalid_auth_failure key now l = map_option (abuse_record key now) l"

section \<open>The table as one map\<close>

definition abuse_view :: "abuse_limiter \<Rightarrow> string \<Rightarrow> abuse_entry option" where
  "abuse_view l key = map_of (shard_entries l key) key"

definition abuse_ok :: "abuse_limiter \<Rightarrow> bool" where
  "abuse_ok l \<longleftrightarrow> length (al_shards l) = shard_count
     \<and> (\<forall>i < shard_count. distinct (akeys (al_shards l ! i)) \<and> (\<forall>(k, e) \<in> set (al_shards l ! i). shard_index k = i \<and> 0 \<le> ae_failures e))
     \<and> al_tracked l = int (sum_list (map length (al_shards l)))
     \<and> al_tracked l \<le> al_capacity l \<and> 0 < al_threshold l \<and> 0 < al_window l \<and> 0 < al_block l"

lemma shard_index_less [simp]: "shard_index key < shard_count"
  by (simp add: shard_index_def)

lemma shard_entries_set [simp]:
  "length (al_shards l) = shard_count \<Longrightarrow> shard_entries (set_shard k es l) k' =
     (if shard_index k' = shard_index k then es else shard_entries l k')"
  by (auto simp: shard_entries_def set_shard_def)

lemma sum_list_list_update:
  "i < length xss \<Longrightarrow> int (sum_list (map length (xss[i := ys]))) =
     int (sum_list (map length xss)) - int (length (xss ! i)) + int (length ys)"
  by (induction xss arbitrary: i) (auto simp: nth_Cons split: nat.splits)

lemma shard_length: "k \<in> fst ` set es \<Longrightarrow> distinct (akeys es) \<Longrightarrow> Suc (length (AList.delete k es)) = length es"
proof (induction es)
  case (Cons x es)
  then show ?case
  proof (cases "fst x = k")
    case True
    then have "k \<notin> fst ` set es" using Cons.prems by auto
    then have "AList.delete k es = es" by (auto simp: AList.delete_eq filter_id_conv image_iff)
    with True show ?thesis by (cases x) (simp add: AList.delete_eq)
  next
    case False
    with Cons show ?thesis by (cases x) (auto simp: AList.delete_eq)
  qed
qed simp

text \<open>Replacing one shard keeps the table well formed when the count follows.\<close>

lemma abuse_ok_shard:
  assumes l: "abuse_ok l" and i: "i < shard_count" and "distinct (akeys es)" "\<forall>(k, e) \<in> set es. shard_index k = i \<and> 0 \<le> ae_failures e"
    and n: "n = al_tracked l - int (length (al_shards l ! i)) + int (length es)" "n \<le> al_capacity l"
  shows "abuse_ok (l\<lparr>al_shards := (al_shards l)[i := es], al_tracked := n\<rparr>)"
proof -
  have "distinct (akeys ((al_shards l)[i := es] ! j)) \<and> (\<forall>(k, e) \<in> set ((al_shards l)[i := es] ! j). shard_index k = j \<and> 0 \<le> ae_failures e)"
    if "j < shard_count" for j
    using that assms by (cases "j = i") (auto simp: abuse_ok_def)
  moreover have "i < length (al_shards l)" using l i by (simp add: abuse_ok_def)
  from sum_list_list_update [OF this, of es] n l
  have "n = int (sum_list (map length ((al_shards l)[i := es])))" by (auto simp: abuse_ok_def)
  ultimately show ?thesis using l n by (simp add: abuse_ok_def)
qed

lemma abuse_ok_counters [simp]:
  "abuse_ok (l\<lparr>al_recorded := w\<rparr>) = abuse_ok l" "abuse_ok (l\<lparr>al_blocks := w\<rparr>) = abuse_ok l"
  "abuse_ok (l\<lparr>al_rejected := w\<rparr>) = abuse_ok l" "abuse_ok (l\<lparr>al_expired := w\<rparr>) = abuse_ok l"
  "abuse_ok (l\<lparr>al_overflowed := w\<rparr>) = abuse_ok l" "abuse_ok (l\<lparr>al_global := w\<rparr>) = abuse_ok l"
  "abuse_ok (l\<lparr>al_overflow := ov\<rparr>) = abuse_ok l" "abuse_ok (l\<lparr>al_cleanup_next := n\<rparr>) = abuse_ok l"
  "abuse_ok (l\<lparr>al_cleanup_cursor := cu\<rparr>) = abuse_ok l"
  by (simp_all add: abuse_ok_def)

lemma abuse_ok_entries:
  assumes "abuse_ok l"
  shows "distinct (akeys (shard_entries l key))" "\<forall>(k, e) \<in> set (shard_entries l key). shard_index k = shard_index key \<and> 0 \<le> ae_failures e"
    "length (al_shards l) = shard_count"
  using assms by (auto simp: abuse_ok_def shard_entries_def)

lemma maybe_cleanup_ok: "abuse_ok l \<Longrightarrow> abuse_ok (maybe_cleanup_at_capacity now l)"
proof -
  assume l: "abuse_ok l"
  let ?i = "unat (al_cleanup_cursor l) mod shard_count"
  let ?es = "al_shards l ! ?i"
  let ?live = "filter (\<lambda>(k, e). \<not> entry_expired l now e) ?es"
  have es: "distinct (akeys ?es)" "\<forall>(k, e) \<in> set ?es. shard_index k = ?i \<and> 0 \<le> ae_failures e" using l by (auto simp: abuse_ok_def)
  have le: "length ?live \<le> length ?es" by (rule length_filter_le)
  have cap: "al_tracked l \<le> al_capacity l" using l by (simp add: abuse_ok_def)
  have "abuse_ok (l\<lparr>al_shards := (al_shards l)[?i := ?live], al_tracked := al_tracked l - int (length ?es - length ?live)\<rparr>)"
  proof (rule abuse_ok_shard [OF l])
    show "al_tracked l - int (length ?es - length ?live) = al_tracked l - int (length ?es) + int (length ?live)"
      using le by (simp add: of_nat_diff)
    show "al_tracked l - int (length ?es - length ?live) \<le> al_capacity l"
      using cap by linarith
  qed (use es in \<open>auto simp: distinct_keys_filter\<close>)
  with l show ?thesis by (simp add: abuse_ok_def maybe_cleanup_at_capacity_def Let_def)
qed

lemma live_entry_ok:
  assumes l: "abuse_ok l"
  shows "abuse_ok (snd (live_entry key now l))"
proof (cases "\<exists>e. map_of (shard_entries l key) key = Some e \<and> entry_expired l now e")
  case True
  then obtain e where e: "map_of (shard_entries l key) key = Some e" "entry_expired l now e" by blast
  let ?es = "shard_entries l key"
  have "key \<in> fst ` set ?es" using e(1) by (force dest: map_of_SomeD)
  then have len: "Suc (length (AList.delete key ?es)) = length ?es"
    by (rule shard_length) (rule abuse_ok_entries(1) [OF l])
  have "abuse_ok (l\<lparr>al_shards := (al_shards l)[shard_index key := AList.delete key ?es], al_tracked := al_tracked l - 1\<rparr>)"
    using abuse_ok_entries(1,2) [OF l, of key] len l
    by (intro abuse_ok_shard) (auto simp: AList.delete_eq distinct_keys_filter shard_entries_def abuse_ok_def)
  with e show ?thesis by (simp add: live_entry_def set_shard_def)
qed (use l in \<open>auto simp: live_entry_def split: option.splits\<close>)

lemma abuse_check_ok: "abuse_ok l \<Longrightarrow> abuse_ok (snd (abuse_check key now l))"
  using live_entry_ok [OF maybe_cleanup_ok [of l now], of key now]
  by (auto simp: abuse_check_def Let_def split: prod.splits option.splits bool.splits)

lemma live_entry_spec:
  assumes "abuse_ok l" "live_entry key now l = (found, l')"
  shows "abuse_view l' key = found" "\<And>k. k \<noteq> key \<Longrightarrow> abuse_view l' k = abuse_view l k"
    "found = (case abuse_view l key of None \<Rightarrow> None | Some e \<Rightarrow> if entry_expired l now e then None else Some e)"
  using assms abuse_ok_entries(3) [OF assms(1)]
  by (auto simp: live_entry_def abuse_view_def shard_entries_def set_shard_def AList.delete_conv'
      nth_list_update split: option.splits if_splits)

lemma abuse_view_set:
  "length (al_shards l) = shard_count \<Longrightarrow> abuse_view (set_shard key (AList.update key e (shard_entries l key)) l) =
     (abuse_view l)(key \<mapsto> e)"
  by (auto simp: abuse_view_def fun_eq_iff AList.update_conv' shard_entries_set)
     (simp_all add: shard_entries_def)

lemma abuse_view_counters [simp]:
  "abuse_view (l\<lparr>al_recorded := w\<rparr>) = abuse_view l" "abuse_view (l\<lparr>al_blocks := w\<rparr>) = abuse_view l"
  "abuse_view (l\<lparr>al_rejected := w\<rparr>) = abuse_view l" "abuse_view (l\<lparr>al_overflowed := w\<rparr>) = abuse_view l"
  "abuse_view (l\<lparr>al_global := w\<rparr>) = abuse_view l" "abuse_view (l\<lparr>al_overflow := ov\<rparr>) = abuse_view l"
  "abuse_view (l\<lparr>al_tracked := n\<rparr>) = abuse_view l"
  by (simp_all add: abuse_view_def shard_entries_def fun_eq_iff)

lemma abuse_view_nonneg: "abuse_ok l \<Longrightarrow> abuse_view l k = Some e \<Longrightarrow> 0 \<le> ae_failures e"
  using abuse_ok_entries(2) [of l k] by (auto simp: abuse_view_def dest!: map_of_SomeD)

lemma maybe_cleanup_view:
  assumes "abuse_ok l"
  shows "abuse_view (maybe_cleanup_at_capacity now l) k = abuse_view l k
    \<or> abuse_view (maybe_cleanup_at_capacity now l) k = None
      \<and> (\<exists>e. abuse_view l k = Some e \<and> entry_expired l now e)"
proof -
  let ?i = "unat (al_cleanup_cursor l) mod shard_count"
  have d: "distinct (akeys (al_shards l ! ?i))" "length (al_shards l) = shard_count"
    using assms by (auto simp: abuse_ok_def)
  show ?thesis
    by (cases "shard_index k = ?i")
       (auto simp: maybe_cleanup_at_capacity_def Let_def abuse_view_def shard_entries_def d
         map_of_filter_distinct [OF d(1)] split: option.splits)
qed

lemma maybe_cleanup_fields [simp]:
  "al_threshold (maybe_cleanup_at_capacity now l) = al_threshold l"
  "al_window (maybe_cleanup_at_capacity now l) = al_window l"
  "al_block (maybe_cleanup_at_capacity now l) = al_block l"
  "al_capacity (maybe_cleanup_at_capacity now l) = al_capacity l"
  by (simp_all add: maybe_cleanup_at_capacity_def Let_def)

lemma live_entry_fields [simp]:
  "al_threshold (snd (live_entry k now l)) = al_threshold l"
  "al_window (snd (live_entry k now l)) = al_window l"
  "al_block (snd (live_entry k now l)) = al_block l"
  "al_capacity (snd (live_entry k now l)) = al_capacity l"
  by (simp_all add: live_entry_def set_shard_def split: option.splits)

lemma entry_expired_fields:
  "al_window l' = al_window l \<Longrightarrow> entry_expired l' = entry_expired l"
  by (simp add: entry_expired_def fun_eq_iff)

text \<open>
  What one recorded failure does, with the cleanup and the shards out of sight. \<open>live\<close> is the
  table as the callers can observe it at time \<open>now\<close>: expired entries count as absent.
\<close>

definition live :: "abuse_limiter \<Rightarrow> time \<Rightarrow> string \<Rightarrow> abuse_entry option" where
  "live l now k = (case abuse_view l k of None \<Rightarrow> None
     | Some e \<Rightarrow> if entry_expired l now e then None else Some e)"

definition spec_entry :: "abuse_limiter \<Rightarrow> time \<Rightarrow> abuse_entry option \<Rightarrow> abuse_entry" where
  "spec_entry l now found =
     (let e = (case found of None \<Rightarrow> \<lparr>ae_failures = 0, ae_window = now, ae_blocked = 0\<rparr> | Some e \<Rightarrow> e)
      in if now < ae_blocked e then e
         else fst (count_failure l now (now < ae_window e \<or> \<not> now < ae_window e + al_window l) e))"

text \<open>\<open>found_state l key now\<close>: the entry found and the limiter after cleanup and expiry.\<close>

abbreviation found_state :: "abuse_limiter \<Rightarrow> string \<Rightarrow> time \<Rightarrow> abuse_entry option \<times> abuse_limiter" where
  "found_state l key now \<equiv> live_entry key now (maybe_cleanup_at_capacity now (l\<lparr>al_recorded := al_recorded l + 1\<rparr>))"

lemma found_state_view:
  assumes "abuse_ok l" "found_state l key now = (found, l')"
  shows "abuse_ok l'" "abuse_view l' key = found" "found = live l now key"
    "al_threshold l' = al_threshold l" "al_window l' = al_window l" "al_block l' = al_block l" "al_capacity l' = al_capacity l"
    "\<And>k. abuse_view l' k = abuse_view l k \<or> abuse_view l' k = None \<and> live l now k = None"
proof -
  let ?l0 = "l\<lparr>al_recorded := al_recorded l + 1\<rparr>"
  let ?l1 = "maybe_cleanup_at_capacity now ?l0"
  have l0: "abuse_ok ?l0" using assms(1) by simp
  have l1: "abuse_ok ?l1" using l0 by (rule maybe_cleanup_ok)
  show "abuse_ok l'" using live_entry_ok [OF l1, of key now] assms(2) by simp
  note sp = live_entry_spec [OF l1 assms(2)]
  have x: "entry_expired ?l1 = entry_expired l" by (rule entry_expired_fields) simp
  have v: "abuse_view ?l1 k = abuse_view l k \<or> abuse_view ?l1 k = None \<and> live l now k = None" for k
    using maybe_cleanup_view [OF l0, of now k] entry_expired_fields [of ?l0 l] by (auto simp: live_def)
  show f: "found = live l now key" using sp(3) v [of key] by (auto simp: live_def x split: option.splits)
  show "abuse_view l' key = found" by (rule sp(1))
  show "abuse_view l' k = abuse_view l k \<or> abuse_view l' k = None \<and> live l now k = None" for k
    using v [of k] sp(1,2,3) f by (cases "k = key") (auto simp: x live_def split: option.splits if_splits)
  show "al_threshold l' = al_threshold l" "al_window l' = al_window l" "al_block l' = al_block l" "al_capacity l' = al_capacity l"
    using live_entry_fields [of key now ?l1] assms(2) by simp_all
qed

lemma spec_entry_fields:
  "al_threshold l' = al_threshold l \<Longrightarrow> al_window l' = al_window l \<Longrightarrow> al_block l' = al_block l \<Longrightarrow>
     spec_entry l' = spec_entry l"
  by (simp add: spec_entry_def count_failure_def fun_eq_iff Let_def)

lemma found_state_tracked: "al_tracked (snd (found_state l key now)) \<le> al_tracked l"
proof -
  have "al_tracked (maybe_cleanup_at_capacity now l) \<le> al_tracked l" for l
    unfolding maybe_cleanup_at_capacity_def Let_def by simp
  moreover have "al_tracked (snd (live_entry key now l)) \<le> al_tracked l" for l
    by (simp add: live_entry_def split: option.splits)
  ultimately show ?thesis using order_trans by (metis abuse_limiter.select_convs(7) abuse_limiter.update_convs(8) abuse_limiter.surjective)
qed

lemma count_failure_nonneg: "0 \<le> ae_failures e \<Longrightarrow> 0 \<le> ae_failures (fst (count_failure l now b e))"
  by (simp add: count_failure_def Let_def)

lemma spec_entry_nonneg: "(\<And>e. found = Some e \<Longrightarrow> 0 \<le> ae_failures e) \<Longrightarrow> 0 \<le> ae_failures (spec_entry l now found)"
  by (auto simp: spec_entry_def Let_def intro!: count_failure_nonneg split: option.splits)

lemma record_overflow_fields:
  "abuse_view (record_overflow now l) = abuse_view l" "abuse_ok (record_overflow now l) = abuse_ok l"
  "al_threshold (record_overflow now l) = al_threshold l" "al_window (record_overflow now l) = al_window l"
  "al_block (record_overflow now l) = al_block l" "al_capacity (record_overflow now l) = al_capacity l"
  by (simp_all add: record_overflow_def Let_def split_beta)

lemma set_alist_update: "(j, d) \<in> set (AList.update i e es) \<Longrightarrow> (j, d) = (i, e) \<or> (j, d) \<in> set es"
  by (induction es) (auto split: if_splits)

text \<open>Writing an entry that exists, or a new one for which a place was reserved.\<close>

lemma abuse_ok_write:
  assumes l: "abuse_ok l" and e: "0 \<le> ae_failures e"
    and n: "n = (if abuse_view l key = None then al_tracked l + 1 else al_tracked l)" "n \<le> al_capacity l"
  shows "abuse_ok ((set_shard key (AList.update key e (shard_entries l key)) l)\<lparr>al_tracked := n\<rparr>)"
proof -
  let ?es = "shard_entries l key"
  have len: "int (length (AList.update key e ?es)) = int (length ?es) + (if abuse_view l key = None then 1 else 0)"
    by (auto simp: length_alist_update abuse_view_def map_of_eq_None_iff)
  have "abuse_ok (l\<lparr>al_shards := (al_shards l)[shard_index key := AList.update key e ?es], al_tracked := n\<rparr>)"
  proof (rule abuse_ok_shard [OF l shard_index_less])
    show "distinct (akeys (AList.update key e ?es))"
      using abuse_ok_entries(1) [OF l] by (rule AList.distinct_update)
    show "\<forall>(k, d) \<in> set (AList.update key e ?es). shard_index k = shard_index key \<and> 0 \<le> ae_failures d"
      using abuse_ok_entries(2) [OF l, of key] e by (auto dest!: set_alist_update)
    show "n = al_tracked l - int (length (al_shards l ! shard_index key)) + int (length (AList.update key e ?es))"
      using n len by (auto simp: shard_entries_def)
    show "n \<le> al_capacity l" by (rule n(2))
  qed
  then show ?thesis by (simp add: set_shard_def)
qed

lemma abuse_record_fields:
  "al_threshold (abuse_record key now l) = al_threshold l" "al_window (abuse_record key now l) = al_window l"
  "al_block (abuse_record key now l) = al_block l" "al_capacity (abuse_record key now l) = al_capacity l"
  by (simp_all add: abuse_record_def Let_def split_beta record_overflow_fields reserve_entry_def set_shard_def
      split: option.splits)

lemma abuse_record_cases:
  assumes l: "abuse_ok l" and key: "key \<noteq> []" and f: "found_state l key now = (found, l1)"
  shows "if found = None \<and> al_capacity l \<le> al_tracked l1 then abuse_record key now l = record_overflow now l1
     else abuse_ok (abuse_record key now l)
       \<and> abuse_view (abuse_record key now l) = (abuse_view l1)(key \<mapsto> spec_entry l now found)"
proof (cases "found = None \<and> al_capacity l \<le> al_tracked l1")
  case True
  with f key found_state_view(7) [OF l f] show ?thesis
    by (simp add: abuse_record_def Let_def reserve_entry_def)
next
  case False
  note v = found_state_view [OF l f]
  let ?n = "if found = None then al_tracked l1 + 1 else al_tracked l1"
  let ?e = "spec_entry l now found"
  have cf: "count_failure l1 = count_failure l" "count_failure (l1\<lparr>al_tracked := m\<rparr>) = count_failure l" for m
    using v(4,6) by (simp_all add: count_failure_def fun_eq_iff Let_def)
  have w: "al_shards (abuse_record key now l) = (al_shards l1)[shard_index key := AList.update key ?e (shard_entries l1 key)]"
    "al_tracked (abuse_record key now l) = ?n"
    using f key False v(7)
    by (cases found; simp add: abuse_record_def reserve_entry_def spec_entry_def set_shard_def shard_entries_def
        split_beta cf v(5) Let_def)+
  have pos: "0 \<le> ae_failures ?e"
    by (rule spec_entry_nonneg) (use v(1,2) abuse_view_nonneg in auto)
  have "al_tracked l1 \<le> al_capacity l1" using v(1) by (simp add: abuse_ok_def)
  then have "?n \<le> al_capacity l1" using False v(7) by auto
  from abuse_ok_write [OF v(1) pos _ this, of key] v(2)
  have "abuse_ok ((set_shard key (AList.update key ?e (shard_entries l1 key)) l1)\<lparr>al_tracked := ?n\<rparr>)" by simp
  then have "abuse_ok (abuse_record key now l)"
    by (simp add: abuse_ok_def w set_shard_def abuse_record_fields v(4-7))
  moreover have "abuse_view (abuse_record key now l) = (abuse_view l1)(key \<mapsto> ?e)"
    using abuse_view_set [of l1 key ?e] abuse_ok_entries(3) [OF v(1)]
    by (simp add: abuse_view_def shard_entries_def set_shard_def w fun_eq_iff)
  ultimately show ?thesis using False by auto
qed

lemma abuse_record_ok: "abuse_ok l \<Longrightarrow> abuse_ok (abuse_record key now l)"
proof (cases "key = []")
  case False
  assume l: "abuse_ok l"
  obtain found l1 where f: "found_state l key now = (found, l1)" by force
  from abuse_record_cases [OF l False f] found_state_view(1) [OF l f] show ?thesis
    by (auto simp: record_overflow_fields split: if_splits)
qed (simp add: abuse_record_def)

lemma spec_entry_live:
  assumes "0 < al_window l" "0 < al_block l" "\<And>e. found = Some e \<Longrightarrow> \<not> entry_expired l now e"
  shows "\<not> entry_expired l now (spec_entry l now found)"
  using assms by (cases found) (auto simp: spec_entry_def entry_expired_def count_failure_def Let_def)

text \<open>
  Claim C29. Shards, lazy expiry and the capacity cleanup are invisible: when the client is
  tracked or there is room for it, recording a failure changes the observable table at exactly
  that client, as the reference definition \<open>spec_entry\<close> on a single map says, and the limiter
  stays well formed with at most \<open>capacity\<close> tracked clients.
\<close>

theorem abuse_record_refines:
  assumes "abuse_ok l" "key \<noteq> []" "live l now key \<noteq> None \<or> al_tracked l < al_capacity l"
  shows "live (abuse_record key now l) now = (live l now)(key \<mapsto> spec_entry l now (live l now key))
    \<and> abuse_ok (abuse_record key now l)"
proof -
  obtain found l1 where f: "found_state l key now = (found, l1)" by force
  note v = found_state_view [OF assms(1) f]
  have "al_tracked l1 \<le> al_tracked l"
    using found_state_tracked [of key now l] f by simp
  then have "\<not> (found = None \<and> al_capacity l \<le> al_tracked l1)" using assms(3) v(3) by auto
  with abuse_record_cases [OF assms(1,2) f]
  have r: "abuse_ok (abuse_record key now l)"
    "abuse_view (abuse_record key now l) = (abuse_view l1)(key \<mapsto> spec_entry l now found)" by auto
  have "0 < al_window l" "0 < al_block l" using assms(1) by (auto simp: abuse_ok_def)
  then have lv: "\<not> entry_expired l now (spec_entry l now found)"
    by (rule spec_entry_live) (auto simp: v(3) live_def split: option.splits if_splits)
  have x: "entry_expired (abuse_record key now l) = entry_expired l"
    by (rule entry_expired_fields) (simp add: abuse_record_fields)
  have "live (abuse_record key now l) now k = ((live l now)(key \<mapsto> spec_entry l now found)) k" for k
    using v(8) [of k] lv by (auto simp: live_def x r(2) split: option.splits if_splits)
  with r(1) v(3) show ?thesis by (simp add: fun_eq_iff)
qed

section \<open>Who is blocked\<close>

lemma abuse_check_state:
  assumes l: "abuse_ok l" and key: "key \<noteq> []"
    and f: "live_entry key now (maybe_cleanup_at_capacity now l) = (found, l1)"
  shows "found = live l now key" "al_tracked l1 \<le> al_tracked l" "al_overflow l1 = al_overflow l" "al_capacity l1 = al_capacity l"
    "\<And>k. abuse_view l1 k = abuse_view l k \<or> abuse_view l1 k = None"
    "abuse_view (snd (abuse_check key now l)) = abuse_view l1"
proof -
  let ?l0 = "maybe_cleanup_at_capacity now l"
  have l0: "abuse_ok ?l0" using l by (rule maybe_cleanup_ok)
  note sp = live_entry_spec [OF l0 f]
  have x: "entry_expired ?l0 = entry_expired l" by (rule entry_expired_fields) simp
  show "found = live l now key" using sp(3) maybe_cleanup_view [OF l, of now key]
    by (auto simp: live_def x split: option.splits)
  show "abuse_view l1 k = abuse_view l k \<or> abuse_view l1 k = None" for k
    using maybe_cleanup_view [OF l, of now k] sp by (cases "k = key") (auto split: option.splits if_splits)
  show "al_capacity l1 = al_capacity l" using live_entry_fields(4) [of key now ?l0] f by simp
  have "al_tracked ?l0 \<le> al_tracked l" unfolding maybe_cleanup_at_capacity_def Let_def by simp
  moreover have "al_tracked l1 \<le> al_tracked ?l0" using f by (auto simp: live_entry_def split: option.splits if_splits)
  ultimately show "al_tracked l1 \<le> al_tracked l" by simp
  show "al_overflow l1 = al_overflow l"
    using f by (auto simp: live_entry_def set_shard_def maybe_cleanup_at_capacity_def Let_def split: option.splits if_splits)
  show "abuse_view (snd (abuse_check key now l)) = abuse_view l1"
    using f key by (auto simp: abuse_check_def Let_def split: prod.splits bool.splits)
qed

lemma abuse_check_result:
  assumes "abuse_ok l" "key \<noteq> []"
  shows "case live l now key of
      Some e \<Rightarrow> fst (abuse_check key now l) = (if now < ae_blocked e then (time_sub (ae_blocked e) now, True) else (0, False))
    | None \<Rightarrow> snd (fst (abuse_check key now l)) \<longrightarrow> al_capacity l \<le> al_tracked l \<and> now < ae_blocked (al_overflow l)"
proof -
  obtain found l1 where f: "live_entry key now (maybe_cleanup_at_capacity now l) = (found, l1)" by force
  note st = abuse_check_state [OF assms f]
  show ?thesis
  proof (cases found)
    case None
    with st f assms(2) show ?thesis
      by (auto simp: abuse_check_def Let_def check_overflow_def split: option.splits if_splits prod.splits bool.splits)
  next
    case (Some e)
    then have lv: "live l now key = Some e" using st(1) by simp
    show ?thesis using f assms(2) by (simp add: abuse_check_def Some lv)
  qed
qed

datatype abuse_op = Record_Failure string time | Check_Client string time

fun abuse_step :: "abuse_op \<Rightarrow> abuse_limiter \<Rightarrow> abuse_limiter" where
  "abuse_step (Record_Failure k t) l = abuse_record k t l"
| "abuse_step (Check_Client k t) l = snd (abuse_check k t l)"

fun abuse_legal :: "abuse_op \<Rightarrow> bool" where
  "abuse_legal (Record_Failure k t) = (0 \<le> t)"
| "abuse_legal (Check_Client k t) = (0 \<le> t)"

fun abuse_fails :: "abuse_op \<Rightarrow> string \<Rightarrow> bool" where
  "abuse_fails (Record_Failure k t) k' = (k = k')"
| "abuse_fails (Check_Client k t) k' = False"

definition entry_score :: "abuse_limiter \<Rightarrow> abuse_entry option \<Rightarrow> int" where
  "entry_score l e = (case e of None \<Rightarrow> 0 | Some e \<Rightarrow> if ae_blocked e \<noteq> 0 then al_threshold l else ae_failures e)"

abbreviation abuse_score :: "abuse_limiter \<Rightarrow> string \<Rightarrow> int" where
  "abuse_score l k \<equiv> entry_score l (abuse_view l k)"

abbreviation blocked_entry :: "abuse_limiter \<Rightarrow> string \<Rightarrow> time \<Rightarrow> bool" where
  "blocked_entry l k t \<equiv> (case abuse_view l k of None \<Rightarrow> False | Some e \<Rightarrow> t < ae_blocked e)"

lemma abuse_step_fields: "al_threshold (abuse_step op l) = al_threshold l" "al_capacity (abuse_step op l) = al_capacity l"
proof -
  have "al_threshold (snd (abuse_check k t l)) = al_threshold l \<and> al_capacity (snd (abuse_check k t l)) = al_capacity l" for k t
  proof -
    let ?x = "live_entry k t (maybe_cleanup_at_capacity t l)"
    have "al_threshold (snd ?x) = al_threshold l" "al_capacity (snd ?x) = al_capacity l" by simp_all
    then show ?thesis
      by (cases ?x) (simp add: abuse_check_def split: prod.splits bool.splits)
  qed
  then show "al_threshold (abuse_step op l) = al_threshold l" "al_capacity (abuse_step op l) = al_capacity l"
    by (cases op; simp add: abuse_record_fields)+
qed

lemma entry_score_drop: "abuse_ok l \<Longrightarrow> v = abuse_view l k \<or> v = None \<Longrightarrow> entry_score l v \<le> abuse_score l k"
proof (elim disjE)
  assume l: "abuse_ok l" and v: "v = None"
  have "0 < al_threshold l" using l by (simp add: abuse_ok_def)
  with v abuse_view_nonneg [OF l, of k] show ?thesis by (simp add: entry_score_def split: option.splits)
qed simp

lemma spec_entry_score:
  assumes "abuse_ok l" "0 \<le> now" "found = abuse_view l key \<or> found = None"
  shows "entry_score l (Some (spec_entry l now found)) \<le> abuse_score l key + 1"
proof -
  have "0 < al_threshold l" "0 < al_block l" using assms(1) by (auto simp: abuse_ok_def)
  moreover have "found = Some e \<Longrightarrow> 0 \<le> ae_failures e" for e
    using assms(3) abuse_view_nonneg [OF assms(1), of key] by auto
  ultimately have "entry_score l (Some (spec_entry l now found)) \<le> entry_score l found + 1"
    using assms(2) by (cases found) (auto simp: entry_score_def spec_entry_def count_failure_def Let_def)
  with entry_score_drop [OF assms(1,3)] show ?thesis by simp
qed

lemma entry_score_cong: "al_threshold l' = al_threshold l \<Longrightarrow> entry_score l' = entry_score l"
  by (simp add: entry_score_def fun_eq_iff split: option.splits)

lemma abuse_step_score:
  assumes l: "abuse_ok l" and op: "abuse_legal op"
  shows "abuse_score (abuse_step op l) k \<le> abuse_score l k + (if abuse_fails op k then 1 else 0)"
proof (cases op)
  case (Check_Client key now)
  have "abuse_view (snd (abuse_check key now l)) k = abuse_view l k \<or> abuse_view (snd (abuse_check key now l)) k = None"
  proof (cases "key = []")
    case False
    obtain found l1 where "live_entry key now (maybe_cleanup_at_capacity now l) = (found, l1)" by force
    from abuse_check_state [OF l False this] show ?thesis by metis
  qed (simp add: abuse_check_def)
  from entry_score_drop [OF l this]
  have "entry_score l (abuse_view (abuse_step op l) k) \<le> abuse_score l k" by (simp add: Check_Client)
  moreover have "entry_score (abuse_step op l) = entry_score l"
    by (rule entry_score_cong) (rule abuse_step_fields)
  ultimately show ?thesis by (simp add: Check_Client)
next
  case (Record_Failure key now)
  have t: "al_threshold (abuse_record key now l) = al_threshold l" by (rule abuse_record_fields)
  show ?thesis
  proof (cases "key = []")
    case False
    obtain found l1 where f: "found_state l key now = (found, l1)" by force
    note v = found_state_view [OF l f]
    have fd: "found = abuse_view l key \<or> found = None" by (auto simp: v(3) live_def split: option.splits)
    have l1: "abuse_view l1 k = abuse_view l k \<or> abuse_view l1 k = None" using v(8) [of k] by auto
    have sp: "entry_score l (Some (spec_entry l now found)) \<le> abuse_score l key + 1"
      by (rule spec_entry_score [OF l _ fd]) (use op Record_Failure in simp)
    from abuse_record_cases [OF l False f] entry_score_drop [OF l l1] sp show ?thesis
      by (auto simp: Record_Failure entry_score_cong [OF t] record_overflow_fields split: if_splits)
  qed (simp add: Record_Failure abuse_record_def)
qed

interpretation abuse_gate: failure_gate abuse_step abuse_fails abuse_score blocked_entry al_threshold abuse_ok abuse_legal
proof unfold_locales
  show "abuse_ok s \<Longrightarrow> abuse_legal op \<Longrightarrow> abuse_ok (abuse_step op s)" for s op
    by (cases op) (simp_all add: abuse_record_ok abuse_check_ok)
  show "abuse_ok s \<Longrightarrow> blocked_entry s k t \<Longrightarrow> 0 \<le> t \<Longrightarrow> al_threshold s \<le> abuse_score s k" for s k t
    by (auto simp: entry_score_def split: option.splits)
qed (auto simp: abuse_step_fields abuse_step_score)

text \<open>
  A client with fewer recorded failures than the threshold is refused only when the
  table is full and the shared overflow counter is in its blocked period, whatever other clients
  do and in whatever order.
\<close>

theorem abuse_no_false_positive:
  assumes "new_invalid_auth_abuse_limiter cfg = Some l0" "abuse_ok l0" "list_all abuse_legal ops" "0 \<le> t" "k \<noteq> []"
    and "int (length (filter (\<lambda>op. abuse_fails op k) ops)) < al_threshold l0"
    and "l = fold abuse_step ops l0" "snd (fst (abuse_check k t l))"
  shows "al_capacity l \<le> al_tracked l \<and> t < ae_blocked (al_overflow l)"
proof -
  have "abuse_view l0 k = None"
    using assms(1) by (auto simp: new_invalid_auth_abuse_limiter_def abuse_view_def shard_entries_def split: option.splits if_splits)
  then have "\<not> blocked_entry l k t"
    unfolding assms(7) using assms(2-6)
    by (intro abuse_gate.few_failures_not_blocked) (auto simp: entry_score_def)
  moreover have "abuse_ok l"
    using abuse_gate.gate_run_invar [OF assms(2,3)] assms(7) by (simp add: abuse_gate.gate_run_fold)
  ultimately show ?thesis using abuse_check_result [of l k t] assms(5,8)
    by (auto simp: live_def split: option.splits if_splits)
qed

fun abuse_records :: "string \<Rightarrow> time list \<Rightarrow> abuse_limiter \<Rightarrow> abuse_limiter" where
  "abuse_records k [] l = l"
| "abuse_records k (t # ts) l = abuse_records k ts (abuse_record k t l)"

lemma abuse_record_view:
  assumes "abuse_ok l" "key \<noteq> []" "live l now key \<noteq> None \<or> al_tracked l < al_capacity l"
  shows "abuse_view (abuse_record key now l) key = Some (spec_entry l now (live l now key))"
proof -
  obtain found l1 where f: "found_state l key now = (found, l1)" by force
  note v = found_state_view [OF assms(1) f]
  have "al_tracked l1 \<le> al_tracked l" using found_state_tracked [of key now l] f by simp
  then have "\<not> (found = None \<and> al_capacity l \<le> al_tracked l1)" using assms(3) v(3) by auto
  with abuse_record_cases [OF assms(1,2) f] v(3) show ?thesis by auto
qed

lemma abuse_records_trip:
  assumes "abuse_ok l" "k \<noteq> []" "abuse_view l k = Some e" "ae_blocked e = 0" "0 \<le> ae_window e"
    and "\<forall>t \<in> set ts. ae_window e \<le> t \<and> t < ae_window e + al_window l"
    and "ts \<noteq> []" "ae_failures e + int (length ts) = al_threshold l"
  shows "\<exists>e'. abuse_view (abuse_records k ts l) k = Some e' \<and> ae_blocked e' = last ts + al_block l
     \<and> ae_window e' = last ts + al_block l \<and> abuse_ok (abuse_records k ts l)"
  using assms
proof (induction ts arbitrary: l e)
  case (Cons t ts)
  let ?l = "abuse_record k t l"
  have t: "ae_window e \<le> t" "t < ae_window e + al_window l" using Cons.prems by auto
  then have lv: "live l t k = Some e" using Cons.prems by (auto simp: live_def entry_expired_def)
  have ok: "abuse_ok ?l" using Cons.prems(1) by (rule abuse_record_ok)
  let ?e = "spec_entry l t (Some e)"
  have v: "abuse_view ?l k = Some ?e"
    using abuse_record_view [OF Cons.prems(1,2), of t] lv by simp
  have e: "?e = (if al_threshold l \<le> ae_failures e + 1
      then e\<lparr>ae_failures := 0, ae_blocked := t + al_block l, ae_window := t + al_block l\<rparr>
      else e\<lparr>ae_failures := ae_failures e + 1\<rparr>)"
    using t Cons.prems by (auto simp: spec_entry_def count_failure_def Let_def)
  show ?case
  proof (cases "ts = []")
    case True
    with v e ok Cons.prems show ?thesis by simp
  next
    case False
    then have "\<not> al_threshold l \<le> ae_failures e + 1" using Cons.prems by (cases ts) auto
    with e have e': "?e = e\<lparr>ae_failures := ae_failures e + 1\<rparr>" by simp
    have "\<exists>e'. abuse_view (abuse_records k ts ?l) k = Some e' \<and> ae_blocked e' = last ts + al_block ?l
       \<and> ae_window e' = last ts + al_block ?l \<and> abuse_ok (abuse_records k ts ?l)"
      by (rule Cons.IH [OF ok _ v]) (use Cons.prems False e' in \<open>auto simp: abuse_record_fields\<close>)
    with False show ?thesis by (simp add: abuse_record_fields)
  qed
qed simp

text \<open>
  Brute force is stopped: when a client's failures within one window reach the
  threshold, every request until the last failure plus the block time is refused with exactly
  the remaining time, and afterwards the client's own entry no longer refuses it.
\<close>

theorem abuse_blocks:
  assumes "abuse_ok l" "k \<noteq> []" "abuse_view l k = None" "al_tracked l < al_capacity l" "0 \<le> t"
    and "\<forall>u \<in> set ts. t \<le> u \<and> u < t + al_window l" "int (length (t # ts)) = al_threshold l"
    and "l' = abuse_records k (t # ts) l" "b = last (t # ts) + al_block l"
  shows "(u < b \<longrightarrow> fst (abuse_check k u l') = (time_sub b u, True))
    \<and> (b \<le> u \<and> \<not> u < ae_blocked (al_overflow l') \<longrightarrow> \<not> snd (fst (abuse_check k u l')))"
proof -
  let ?l = "abuse_record k t l"
  have pos: "0 < al_window l" "0 < al_block l" using assms(1) by (auto simp: abuse_ok_def)
  have ok: "abuse_ok ?l" using assms(1) by (rule abuse_record_ok)
  have lv: "live l t k = None" using assms(3) by (simp add: live_def)
  have v: "abuse_view ?l k = Some (spec_entry l t None)"
    using abuse_record_view [OF assms(1,2), of t] assms(4) lv by simp
  have e: "spec_entry l t None = (if al_threshold l \<le> 1
      then \<lparr>ae_failures = 0, ae_window = t + al_block l, ae_blocked = t + al_block l\<rparr>
      else \<lparr>ae_failures = 1, ae_window = t, ae_blocked = 0\<rparr>)"
    using pos assms(5) by (auto simp: spec_entry_def count_failure_def Let_def)
  have "\<exists>e'. abuse_view l' k = Some e' \<and> ae_blocked e' = b \<and> ae_window e' = b \<and> abuse_ok l'"
  proof (cases "ts = []")
    case True
    with assms(7-9) v e ok show ?thesis by simp
  next
    case False
    then have "\<not> al_threshold l \<le> 1" using assms(7) by (cases ts) auto
    with e have e': "spec_entry l t None = \<lparr>ae_failures = 1, ae_window = t, ae_blocked = 0\<rparr>" by simp
    from abuse_records_trip [OF ok assms(2) v, of ts] False assms(5-9) show ?thesis
      by (simp add: e' abuse_record_fields)
  qed
  then obtain e' where e': "abuse_view l' k = Some e'" "ae_blocked e' = b" "ae_window e' = b" "abuse_ok l'" by blast
  from abuse_check_result [OF e'(4) assms(2), of u] show ?thesis
    by (auto simp: live_def e' entry_expired_def split: if_splits)
qed

section \<open>Concrete runs\<close>

definition demo_limiter_config :: abuse_config where
  "demo_limiter_config = \<lparr>ac_enabled = True, ac_threshold = 2, ac_window = 60, ac_block = 300, ac_capacity = 8\<rparr>"

definition demo_limiter :: abuse_limiter where
  "demo_limiter = the (new_invalid_auth_abuse_limiter (Some demo_limiter_config))"

lemma demo_limiter_new: "new_invalid_auth_abuse_limiter (Some demo_limiter_config) = Some demo_limiter"
  by (simp add: demo_limiter_def new_invalid_auth_abuse_limiter_def demo_limiter_config_def)

lemma demo_limiter_fields: "al_threshold demo_limiter = 2" "al_window demo_limiter = 60 * second"
  "al_block demo_limiter = 300 * second" "al_capacity demo_limiter = 8" "al_tracked demo_limiter = 0"
  "al_shards demo_limiter = replicate shard_count []"
  by (simp_all add: demo_limiter_def new_invalid_auth_abuse_limiter_def demo_limiter_config_def wrap64_id
      min_int64_def max_int64_def)

lemma demo_limiter_ok: "abuse_ok demo_limiter"
  by (simp add: abuse_ok_def demo_limiter_fields sum_list_replicate)

lemma demo_limiter_view: "abuse_view demo_limiter k = None"
  by (simp add: abuse_view_def shard_entries_def demo_limiter_fields)

theorem abuse_record_refines_witness:
  "live (abuse_record ''ip'' 5 demo_limiter) 5 = (live demo_limiter 5)(''ip'' \<mapsto> spec_entry demo_limiter 5 (live demo_limiter 5 ''ip''))"
  using abuse_record_refines [OF demo_limiter_ok, of "''ip''" 5] by (simp add: demo_limiter_fields)

theorem abuse_blocks_witness:
  "fst (abuse_check ''ip'' (4 * second) (abuse_records ''ip'' [second, 2 * second] demo_limiter)) = (298 * second, True)"
  using abuse_blocks [OF demo_limiter_ok, of "''ip''" second "[2 * second]"
      "abuse_records ''ip'' [second, 2 * second] demo_limiter" "302 * second" "4 * second"]
  by (simp add: demo_limiter_fields demo_limiter_view time_sub_def min_int64_def max_int64_def)

lemma abuse_record_tracked: "al_tracked (abuse_record key now l) \<le> al_tracked l + 1"
proof -
  obtain found l1 where f: "found_state l key now = (found, l1)" by force
  have "al_tracked l1 \<le> al_tracked l" using found_state_tracked [of key now l] f by simp
  then show ?thesis using f
    by (cases found) (auto simp: abuse_record_def Let_def reserve_entry_def record_overflow_def set_shard_def split_beta)
qed

theorem abuse_no_false_positive_witness:
  "\<not> snd (fst (abuse_check ''ip'' 7 (abuse_record ''other'' 6 (abuse_record ''ip'' 5 demo_limiter))))"
  using abuse_no_false_positive [OF demo_limiter_new demo_limiter_ok, of "[Record_Failure ''ip'' 5, Record_Failure ''other'' 6]" 7 "''ip''"]
    abuse_record_tracked [of "''ip''" 5 demo_limiter] abuse_record_tracked [of "''other''" 6 "abuse_record ''ip'' 5 demo_limiter"]
  by (auto simp: demo_limiter_fields abuse_record_fields)

end
