(* ===== verification/Capture_Frame.thy ===== *)
theory Capture_Frame
  imports Prelude "HOL-Library.Word" "HOL-Library.Sublist"
begin

unbundle bit_operations_syntax

text \<open>
  The frames of the capture protocol, \<open>internal/capture/protocol/frame.go\<close>: a 28-byte header
  (magic, version, kind, reserved byte, capture id, payload length, all big endian) and up to
  64 KiB of payload. Bytes are 8-bit words. A reader is the list of the bytes the peer sends
  before it closes the connection; a writer is the list of the bytes sent so far together with
  an oracle for the outcome of each call on the connection.
\<close>

type_synonym bytes = "8 word list"

section \<open>Headers\<close>

abbreviation protocol_version :: "16 word" where "protocol_version \<equiv> 2"
abbreviation header_size :: nat where "header_size \<equiv> 28"
abbreviation max_payload_bytes :: nat where "max_payload_bytes \<equiv> 65536"

definition frame_magic :: bytes where "frame_magic = [67, 83, 80, 50]"
definition uuid_nil :: bytes where "uuid_nil = replicate 16 0"

datatype frame_error =
    Invalid_Header | Invalid_Magic | Unknown_Kind | Frame_Too_Large | EOF | Unexpected_EOF
  | Short_Write | Conn_Error

type_synonym kind = "8 word"

abbreviation kind_handshake :: kind where "kind_handshake \<equiv> 1"
abbreviation kind_begin :: kind where "kind_begin \<equiv> 2"
abbreviation kind_request_headers :: kind where "kind_request_headers \<equiv> 3"
abbreviation kind_response_headers :: kind where "kind_response_headers \<equiv> 4"
abbreviation kind_request_chunk :: kind where "kind_request_chunk \<equiv> 5"
abbreviation kind_response_chunk :: kind where "kind_response_chunk \<equiv> 6"
abbreviation kind_final :: kind where "kind_final \<equiv> 7"
abbreviation kind_commit :: kind where "kind_commit \<equiv> 8"
abbreviation kind_abort :: kind where "kind_abort \<equiv> 9"
abbreviation kind_status_request :: kind where "kind_status_request \<equiv> 10"
abbreviation kind_status_response :: kind where "kind_status_response \<equiv> 11"
abbreviation kind_protocol_error :: kind where "kind_protocol_error \<equiv> 12"

record header =
  hd_version :: "16 word"
  hd_kind :: kind
  hd_capture :: bytes
  hd_length :: "32 word"

definition put_uint16 :: "16 word \<Rightarrow> bytes" where
  "put_uint16 v = [ucast (drop_bit 8 v), ucast v]"

definition put_uint32 :: "32 word \<Rightarrow> bytes" where
  "put_uint32 v = [ucast (drop_bit 24 v), ucast (drop_bit 16 v), ucast (drop_bit 8 v), ucast v]"

fun get_uint16 :: "bytes \<Rightarrow> 16 word" where
  "get_uint16 [a, b] = push_bit 8 (ucast a) OR ucast b"
| "get_uint16 _ = 0"

fun get_uint32 :: "bytes \<Rightarrow> 32 word" where
  "get_uint32 [a, b, c, d] = push_bit 24 (ucast a) OR push_bit 16 (ucast b) OR push_bit 8 (ucast c) OR ucast d"
| "get_uint32 _ = 0"

definition marshal_binary :: "header \<Rightarrow> bytes" where
  "marshal_binary h = frame_magic @ put_uint16 (hd_version h) @ [hd_kind h, 0] @ hd_capture h
     @ put_uint32 (hd_length h)"

definition parse_header :: "bytes \<Rightarrow> frame_error + header" where
  "parse_header b =
     (if length b \<noteq> header_size then Inl Invalid_Header
      else if take 4 b \<noteq> frame_magic then Inl Invalid_Magic
      else if b ! 7 \<noteq> 0 then Inl Invalid_Header
      else let k = b ! 6 in
        if k < kind_handshake \<or> k > kind_protocol_error then Inl Unknown_Kind
        else let len = get_uint32 (drop 24 b) in
          if len > of_nat max_payload_bytes then Inl Frame_Too_Large
          else Inr \<lparr>hd_version = get_uint16 (take 2 (drop 4 b)), hd_kind = k,
                    hd_capture = take 16 (drop 8 b), hd_length = len\<rparr>)"

section \<open>Reading and writing frames\<close>

definition read_full :: "nat \<Rightarrow> bytes \<Rightarrow> frame_error + bytes \<times> bytes" where
  "read_full n r = (if n \<le> length r then Inr (take n r, drop n r)
     else if r = [] then Inl EOF else Inl Unexpected_EOF)"

definition read_frame :: "bytes \<Rightarrow> frame_error + header \<times> bytes \<times> bytes" where
  "read_frame r = (case read_full header_size r of Inl e \<Rightarrow> Inl e
     | Inr (hb, r1) \<Rightarrow> (case parse_header hb of Inl e \<Rightarrow> Inl e
       | Inr h \<Rightarrow> if hd_length h = 0 then Inr (h, [], r1)
           else (case read_full (unat (hd_length h)) r1 of Inl e \<Rightarrow> Inl e
             | Inr (p, r2) \<Rightarrow> Inr (h, p, r2))))"

text \<open>
  The outcome of one call on a connection: it succeeds, writes only a prefix without reporting an
  error, or reports an error after a prefix. On a closed connection every call reports an error.
\<close>

datatype conn_event = Conn_Ok | Conn_Short nat | Conn_Fail nat

record conn =
  cn_sent :: bytes
  cn_calls :: nat
  cn_closed :: bool

type_synonym conn_env = "nat \<Rightarrow> conn_event"

definition conn_open :: conn where
  "conn_open = \<lparr>cn_sent = [], cn_calls = 0, cn_closed = False\<rparr>"

definition conn_write :: "conn_env \<Rightarrow> bytes \<Rightarrow> conn \<Rightarrow> nat \<times> bool \<times> conn" where
  "conn_write env p c =
     (if cn_closed c then (0, False, c)
      else let c1 = c\<lparr>cn_calls := cn_calls c + 1\<rparr> in
        case env (cn_calls c) of
          Conn_Ok \<Rightarrow> (length p, True, c1\<lparr>cn_sent := cn_sent c @ p\<rparr>)
        | Conn_Short n \<Rightarrow> (min n (length p), True, c1\<lparr>cn_sent := cn_sent c @ take n p\<rparr>)
        | Conn_Fail n \<Rightarrow> (min n (length p), False, c1\<lparr>cn_sent := cn_sent c @ take n p\<rparr>))"

text \<open>\<open>writeOnce\<close> and \<open>writeConnOnce\<close>.\<close>

definition write_once :: "conn_env \<Rightarrow> bytes \<Rightarrow> conn \<Rightarrow> frame_error option \<times> conn" where
  "write_once env p c = (case conn_write env p c of (n, ok, c1) \<Rightarrow>
     if \<not> ok then (Some Conn_Error, c1)
     else if n \<noteq> length p then (Some Short_Write, c1) else (None, c1))"

definition set_write_deadline :: "conn_env \<Rightarrow> conn \<Rightarrow> frame_error option \<times> conn" where
  "set_write_deadline env c = (case conn_write env [] c of (_, ok, c1) \<Rightarrow>
     (if ok then None else Some Conn_Error, c1))"

definition write_frame :: "conn_env \<Rightarrow> header \<Rightarrow> bytes \<Rightarrow> conn \<Rightarrow> frame_error option \<times> conn" where
  "write_frame env h p c =
     (if length p > max_payload_bytes then (Some Frame_Too_Large, c)
      else case write_once env (marshal_binary (h\<lparr>hd_length := of_nat (length p)\<rparr>)) c of
          (Some e, c1) \<Rightarrow> (Some e, c1)
        | (None, c1) \<Rightarrow> if p = [] then (None, c1) else write_once env p c1)"

definition write_frame_with_absolute_deadline ::
  "conn_env \<Rightarrow> header \<Rightarrow> bytes \<Rightarrow> conn \<Rightarrow> frame_error option \<times> conn" where
  "write_frame_with_absolute_deadline env h p c =
     (if length p > max_payload_bytes then (Some Frame_Too_Large, c)
      else case set_write_deadline env c of (Some e, c1) \<Rightarrow> (Some e, c1)
        | (None, c1) \<Rightarrow>
            (case write_once env (marshal_binary (h\<lparr>hd_length := of_nat (length p)\<rparr>)) c1 of
               (Some e, c2) \<Rightarrow> (Some e, c2)
             | (None, c2) \<Rightarrow> if p = [] then (None, c2) else write_once env p c2))"

text \<open>The bytes of one frame.\<close>

definition frame_bytes :: "header \<Rightarrow> bytes \<Rightarrow> bytes" where
  "frame_bytes h p = marshal_binary (h\<lparr>hd_length := of_nat (length p)\<rparr>) @ p"

section \<open>Round trips\<close>

lemma get_put_uint16 [simp]: "get_uint16 (put_uint16 v) = v"
  by (rule bit_eqI) (auto simp: put_uint16_def bit_simps)

lemma get_put_uint32 [simp]: "get_uint32 (put_uint32 v) = v"
proof (rule bit_eqI)
  fix n :: nat
  consider "n < 8" | "8 \<le> n" "n < 16" | "16 \<le> n" "n < 24" | "24 \<le> n" by linarith
  then show "bit (get_uint32 (put_uint32 v)) n = bit v n"
    by cases (auto simp: put_uint32_def bit_simps dest: bit_imp_le_length)
qed

lemma length_put [simp]: "length (put_uint16 v) = 2" "length (put_uint32 w) = 4"
  by (simp_all add: put_uint16_def put_uint32_def)

lemma put_get_uint16:
  assumes "length b = 2"
  shows "put_uint16 (get_uint16 b) = b"
proof -
  obtain x y where b: "b = [x, y]" using assms by (auto simp: length_Suc_conv numeral_2_eq_2)
  have "ucast (drop_bit 8 (get_uint16 [x, y])) = x" "ucast (get_uint16 [x, y]) = y"
    by (rule bit_eqI; auto simp: bit_simps dest: bit_imp_le_length)+
  with b show ?thesis by (simp add: put_uint16_def)
qed

lemma put_get_uint32:
  assumes "length b = 4"
  shows "put_uint32 (get_uint32 b) = b"
proof -
  obtain x y z w where b: "b = [x, y, z, w]" using assms by (auto simp: length_Suc_conv numeral_eq_Suc)
  have "ucast (drop_bit 24 (get_uint32 [x, y, z, w])) = x" "ucast (drop_bit 16 (get_uint32 [x, y, z, w])) = y"
    "ucast (drop_bit 8 (get_uint32 [x, y, z, w])) = z" "ucast (get_uint32 [x, y, z, w]) = w"
    by (rule bit_eqI; auto simp: bit_simps dest: bit_imp_le_length)+
  with b show ?thesis by (simp add: put_uint32_def)
qed

text \<open>A header that can be sent: a defined kind, a 16-byte id and a payload within the limit.\<close>

definition header_ok :: "header \<Rightarrow> bool" where
  "header_ok h \<longleftrightarrow> kind_handshake \<le> hd_kind h \<and> hd_kind h \<le> kind_protocol_error
     \<and> length (hd_capture h) = 16 \<and> hd_length h \<le> of_nat max_payload_bytes"

lemma kind_ge_1 [simp]: "(1 :: kind) \<le> k \<longleftrightarrow> k \<noteq> 0"
  by (simp flip: not_less)

lemma length_magic [simp]: "length frame_magic = 4"
  by (simp add: frame_magic_def)

lemma length_marshal: "length (marshal_binary h) = 12 + length (hd_capture h)"
  by (simp add: marshal_binary_def)

lemma parse_marshal:
  assumes "header_ok h"
  shows "parse_header (marshal_binary h) = Inr h"
proof -
  let ?b = "marshal_binary h"
  have c: "length (hd_capture h) = 16" using assms by (simp add: header_ok_def)
  obtain m0 m1 m2 m3 where m: "frame_magic = [m0, m1, m2, m3]" by (simp add: frame_magic_def)
  obtain v0 v1 where v: "put_uint16 (hd_version h) = [v0, v1]" by (simp add: put_uint16_def)
  have parts: "take 4 ?b = frame_magic" "?b ! 7 = 0" "?b ! 6 = hd_kind h"
    "drop 24 ?b = put_uint32 (hd_length h)" "take 2 (drop 4 ?b) = put_uint16 (hd_version h)"
    "take 16 (drop 8 ?b) = hd_capture h"
    using c by (simp_all add: marshal_binary_def m v)
  show ?thesis using assms unfolding parse_header_def parts
    by (simp add: length_marshal c header_ok_def Let_def not_less)
qed

text \<open>
  Claim C30. The header encoding is a bijection onto the accepted headers: a sendable header is
  read back unchanged, and any 28 bytes that the parser accepts are exactly the encoding of the
  header it returns.
\<close>

theorem parse_header_iff:
  "parse_header b = Inr h \<longleftrightarrow> b = marshal_binary h \<and> header_ok h"
proof
  assume p: "parse_header b = Inr h"
  have l: "length b = 28" and m: "take 4 b = frame_magic" and z: "b ! 7 = 0"
    and h: "h = \<lparr>hd_version = get_uint16 (take 2 (drop 4 b)), hd_kind = b ! 6,
                    hd_capture = take 16 (drop 8 b), hd_length = get_uint32 (drop 24 b)\<rparr>"
    and ok: "kind_handshake \<le> b ! 6" "b ! 6 \<le> kind_protocol_error" "get_uint32 (drop 24 b) \<le> of_nat max_payload_bytes"
    using p by (auto simp: parse_header_def Let_def split: if_splits)
  have "b = take 4 b @ take 2 (drop 4 b) @ [b ! 6, b ! 7] @ take 16 (drop 8 b) @ drop 24 b"
  proof -
    have "drop 4 b = take 2 (drop 4 b) @ drop 6 b" 
      using append_take_drop_id [of 2 "drop 4 b"] by simp
    moreover have "drop 6 b = b ! 6 # b ! 7 # drop 8 b"
      using l Cons_nth_drop_Suc [of 6 b] Cons_nth_drop_Suc [of 7 b] by simp
    moreover have "drop 8 b = take 16 (drop 8 b) @ drop 24 b"
      using append_take_drop_id [of 16 "drop 8 b"] by simp
    ultimately show ?thesis by (metis append_take_drop_id append_Cons append_Nil)
  qed
  also have "\<dots> = marshal_binary h"
    using l by (simp add: marshal_binary_def h m z put_get_uint16 put_get_uint32)
  finally show "b = marshal_binary h \<and> header_ok h" using ok l by (simp add: header_ok_def h)
qed (simp add: parse_marshal)

lemma unat_payload_length: "length p \<le> max_payload_bytes \<Longrightarrow> unat (of_nat (length p) :: 32 word) = length p"
  by (simp add: unsigned_of_nat take_bit_nat_eq_self)

lemma payload_length_ok: "length p \<le> max_payload_bytes \<Longrightarrow> (of_nat (length p) :: 32 word) \<le> of_nat max_payload_bytes"
  by (simp add: word_le_nat_alt unat_payload_length)

text \<open>A frame that can be sent.\<close>

definition sendable :: "header \<Rightarrow> bytes \<Rightarrow> bool" where
  "sendable h p \<longleftrightarrow> kind_handshake \<le> hd_kind h \<and> hd_kind h \<le> kind_protocol_error
     \<and> length (hd_capture h) = 16 \<and> length p \<le> max_payload_bytes"

lemma sendable_ok: "sendable h p \<Longrightarrow> header_ok (h\<lparr>hd_length := of_nat (length p)\<rparr>)"
  by (auto simp: sendable_def header_ok_def payload_length_ok simp del: of_nat_numeral)

lemma length_frame_bytes: "length (hd_capture h) = 16 \<Longrightarrow> length (frame_bytes h p) = header_size + length p"
  by (simp add: frame_bytes_def length_marshal)

lemma read_frame_bytes:
  assumes "sendable h p"
  shows "read_frame (frame_bytes h p @ rest) = Inr (h\<lparr>hd_length := of_nat (length p)\<rparr>, p, rest)"
proof -
  let ?h = "h\<lparr>hd_length := of_nat (length p)\<rparr>"
  have l: "length (marshal_binary ?h) = 28" "length p \<le> max_payload_bytes"
    using assms by (simp_all add: length_marshal sendable_def)
  have n: "unat (of_nat (length p) :: 32 word) = length p" by (rule unat_payload_length [OF l(2)])
  have z: "(of_nat (length p) :: 32 word) = 0 \<longleftrightarrow> p = []" using n by (cases "p = []") auto
  have "read_full header_size (frame_bytes h p @ rest) = Inr (marshal_binary ?h, p @ rest)"
    using l by (simp add: read_full_def frame_bytes_def)
  then show ?thesis
    by (simp add: read_frame_def parse_marshal [OF sendable_ok [OF assms]] z n read_full_def)
qed

lemma read_frame_shorter:
  "read_frame r = Inr (h, p, r') \<Longrightarrow> length r' + header_size \<le> length r"
proof -
  assume "read_frame r = Inr (h, p, r')"
  then have "(r' = drop 28 r \<or> r' = drop (unat (hd_length h)) (drop 28 r)) \<and> 28 \<le> length r"
    by (auto simp: read_frame_def read_full_def split: sum.splits prod.splits if_splits)
  then show ?thesis by (elim conjE disjE) simp_all
qed

fun read_frames :: "nat \<Rightarrow> bytes \<Rightarrow> (header \<times> bytes) list" where
  "read_frames 0 r = []"
| "read_frames (Suc n) r = (case read_frame r of Inl e \<Rightarrow> [] | Inr (h, p, r') \<Rightarrow> (h, p) # read_frames n r')"

text \<open>
  Frames survive the connection: the frames written one after the other on a
  connection whose writes succeed are read back in order, with their kinds, capture ids and
  payloads, and nothing of the following bytes is consumed.
\<close>

theorem frames_round_trip:
  assumes "\<forall>(h, p) \<in> set fs. sendable h p"
  shows "read_frames (length fs) (concat (map (\<lambda>(h, p). frame_bytes h p) fs) @ rest)
     = map (\<lambda>(h, p). (h\<lparr>hd_length := of_nat (length p)\<rparr>, p)) fs"
  using assms by (induction fs) (auto simp: read_frame_bytes)

section \<open>Writing on a connection\<close>

lemma write_once_ok:
  "\<not> cn_closed c \<Longrightarrow> env (cn_calls c) = Conn_Ok \<Longrightarrow>
     write_once env p c = (None, c\<lparr>cn_calls := cn_calls c + 1, cn_sent := cn_sent c @ p\<rparr>)"
  by (simp add: write_once_def conn_write_def)

lemma write_frame_ok:
  assumes "\<not> cn_closed c" "\<And>k. env k = Conn_Ok" "length p \<le> max_payload_bytes"
  shows "\<exists>c'. write_frame_with_absolute_deadline env h p c = (None, c') \<and> \<not> cn_closed c'
     \<and> cn_sent c' = cn_sent c @ frame_bytes h p"
  using assms by (auto simp: write_frame_with_absolute_deadline_def set_write_deadline_def conn_write_def
      write_once_ok frame_bytes_def Let_def)

lemma conn_write_prefix: "prefix (cn_sent c) (cn_sent (snd (snd (conn_write env p c))))"
  by (simp add: conn_write_def Let_def split: conn_event.splits)

lemma conn_write_closed: "cn_closed (snd (snd (conn_write env p c))) = cn_closed c"
  by (simp add: conn_write_def Let_def split: conn_event.splits)

lemma write_frame_sent:
  assumes "write_frame_with_absolute_deadline env h p c = (r, c')"
  shows "if r = None then cn_sent c' = cn_sent c @ frame_bytes h p
     else \<exists>q. prefix q (frame_bytes h p) \<and> cn_sent c' = cn_sent c @ q"
proof -
  have w: "write_once env b c1 = (x, c2) \<Longrightarrow> if x = None then cn_sent c2 = cn_sent c1 @ b
      else \<exists>q. prefix q b \<and> cn_sent c2 = cn_sent c1 @ q" for b c1 c2 x
    by (auto simp: write_once_def conn_write_def Let_def take_is_prefix min_def split: conn_event.splits if_splits)
  let ?m = "marshal_binary (h\<lparr>hd_length := of_nat (length p)\<rparr>)"
  have d: "set_write_deadline env c = (x, c1) \<Longrightarrow> cn_sent c1 = cn_sent c" for x c1
    by (auto simp: set_write_deadline_def conn_write_def Let_def split: conn_event.splits if_splits)
  have "frame_bytes h p = ?m @ p" by (simp add: frame_bytes_def)
  then show ?thesis using assms
    by (auto simp: write_frame_with_absolute_deadline_def split: prod.splits option.splits if_splits
        dest!: w d intro: prefix_prefix same_prefix_prefix [THEN iffD2])
qed

text \<open>
  A reported success is a complete frame: whatever the connection does, when
  writing a frame reports no error then exactly the bytes of that frame were added to what was
  sent, and an error leaves a prefix of the frame behind it.
\<close>

theorem write_frame_exact:
  assumes "write_frame_with_absolute_deadline env h p c = (r, c')"
  shows "if r = None then cn_sent c' = cn_sent c @ frame_bytes h p
     else \<exists>q. prefix q (frame_bytes h p) \<and> cn_sent c' = cn_sent c @ q"
  using write_frame_sent [OF assms] .

end
