(* ===== verification/Capture_Client.thy ===== *)
theory Capture_Client
  imports Capture_Frame
begin

text \<open>
  The gateway's side of the capture protocol, \<open>internal/capture/protocol/client.go\<close>. An attempt
  owns one connection; every operation runs under the attempt's mutex, so it is one atomic
  function. The first write that fails closes the connection, marks the attempt failed and takes
  it out of the client's table (\<open>at_tracked\<close>). Deadlines appear only through the outcomes of the
  calls on the connection. JSON encodings are arguments (\<open>None\<close>: encoding fails).
\<close>

section \<open>Attempts\<close>

record attempt =
  at_id :: bytes
  at_conn :: conn
  at_failed :: bool
  at_tracked :: bool

definition fail_locked :: "attempt \<Rightarrow> attempt" where
  "fail_locked a = (if at_failed a then a
     else a\<lparr>at_failed := True, at_conn := (at_conn a)\<lparr>cn_closed := True\<rparr>, at_tracked := False\<rparr>)"

definition attempt_header :: "kind \<Rightarrow> bytes \<Rightarrow> header" where
  "attempt_header k i = \<lparr>hd_version = protocol_version, hd_kind = k, hd_capture = i, hd_length = 0\<rparr>"

definition write_frame_locked :: "conn_env \<Rightarrow> kind \<Rightarrow> bytes \<Rightarrow> attempt \<Rightarrow> bool \<times> attempt" where
  "write_frame_locked env k p a =
     (if at_failed a then (False, a)
      else case write_frame_with_absolute_deadline env (attempt_header k (at_id a)) p (at_conn a) of
          (None, c) \<Rightarrow> (True, a\<lparr>at_conn := c\<rparr>)
        | (Some e, c) \<Rightarrow> (False, fail_locked (a\<lparr>at_conn := c\<rparr>)))"

text \<open>The loop of \<open>writePayload\<close> over the remaining payload.\<close>

function write_chunks :: "conn_env \<Rightarrow> kind \<Rightarrow> bytes \<Rightarrow> attempt \<Rightarrow> bool \<times> attempt" where
  "write_chunks env k p a =
     (if p = [] then (True, a)
      else let n = (if length p > max_payload_bytes then max_payload_bytes else length p) in
        case write_frame_locked env k (take n p) a of
          (False, a1) \<Rightarrow> (False, a1)
        | (True, a1) \<Rightarrow> write_chunks env k (drop n p) a1)"
  by pat_completeness auto
termination
  by (relation "measure (\<lambda>(env, k, p, a). length p)") (auto split: if_splits)

declare write_chunks.simps [simp del]

definition write_payload :: "conn_env \<Rightarrow> kind \<Rightarrow> bytes \<Rightarrow> attempt \<Rightarrow> bool \<times> attempt" where
  "write_payload env k p a =
     (if at_failed a then (False, a)
      else if p = [] then write_frame_locked env k [] a else write_chunks env k p a)"

definition attempt_finalize :: "conn_env \<Rightarrow> bytes option \<Rightarrow> attempt \<Rightarrow> bool \<times> attempt" where
  "attempt_finalize env json a = (case json of None \<Rightarrow> (False, a)
     | Some p \<Rightarrow> write_frame_locked env kind_final p a)"

definition attempt_commit :: "conn_env \<Rightarrow> attempt \<Rightarrow> bool \<times> attempt" where
  "attempt_commit env a = (if at_failed a then (False, a)
     else case write_frame_locked env kind_commit [] a of (ok, a1) \<Rightarrow> (ok, fail_locked a1))"

definition attempt_abort :: "conn_env \<Rightarrow> attempt \<Rightarrow> attempt" where
  "attempt_abort env a =
     fail_locked (if at_failed a then a else snd (write_frame_locked env kind_abort [] a))"

definition close_without_frame :: "attempt \<Rightarrow> attempt" where
  "close_without_frame a = fail_locked a"

text \<open>The operations of the interface \<open>Attempt\<close> as data.\<close>

datatype attempt_op =
    Write_Req bytes | Write_Resp bytes | Write_Req_Headers bytes | Write_Resp_Headers bytes
  | Finalize "bytes option" | Commit | Abort

fun attempt_exec :: "conn_env \<Rightarrow> attempt_op \<Rightarrow> attempt \<Rightarrow> bool \<times> attempt" where
  "attempt_exec env (Write_Req p) a = write_payload env kind_request_chunk p a"
| "attempt_exec env (Write_Resp p) a = write_payload env kind_response_chunk p a"
| "attempt_exec env (Write_Req_Headers p) a = write_payload env kind_request_headers p a"
| "attempt_exec env (Write_Resp_Headers p) a = write_payload env kind_response_headers p a"
| "attempt_exec env (Finalize j) a = attempt_finalize env j a"
| "attempt_exec env Commit a = attempt_commit env a"
| "attempt_exec env Abort a = (True, attempt_abort env a)"

fun attempt_run :: "conn_env \<Rightarrow> attempt_op list \<Rightarrow> attempt \<Rightarrow> bool list \<times> attempt" where
  "attempt_run env [] a = ([], a)"
| "attempt_run env (op # ops) a = (let (ok, a1) = attempt_exec env op a; (oks, a2) = attempt_run env ops a1
     in (ok # oks, a2))"

section \<open>Opening a connection\<close>

datatype client_error =
    Client_Closed | Dial_Failed | Frame_Error frame_error | Protocol_Rejected bytes
  | Begin_Rejected | IPC_Backpressure | Capture_Id_Required | Encode_Failed | Send_Begin_Failed
  | Bad_Version "16 word"

definition backpressure_rejection :: bytes where
  "backpressure_rejection = map (of_nat \<circ> byte) ''ipc_backpressure''"

text \<open>\<open>SetReadDeadline\<close> is one more call on the connection.\<close>

definition set_read_deadline :: "conn_env \<Rightarrow> conn \<Rightarrow> frame_error option \<times> conn" where
  "set_read_deadline env c = set_write_deadline env c"

text \<open>
  \<open>open\<close>: dial, send the handshake and check the answer. \<open>reply\<close> is what the server sends; the
  result carries the bytes of it that are not read yet.
\<close>

definition client_open :: "conn_env \<Rightarrow> bool \<Rightarrow> bool \<Rightarrow> bytes \<Rightarrow> client_error + conn \<times> bytes" where
  "client_open env closed dial_ok reply =
     (if closed then Inl Client_Closed
      else if \<not> dial_ok then Inl Dial_Failed
      else case write_frame_with_absolute_deadline env (attempt_header kind_handshake uuid_nil) [] conn_open of
          (Some e, _) \<Rightarrow> Inl (Frame_Error e)
        | (None, c1) \<Rightarrow> (case set_read_deadline env c1 of (Some e, _) \<Rightarrow> Inl (Frame_Error e)
          | (None, c2) \<Rightarrow> (case read_frame reply of Inl e \<Rightarrow> Inl (Frame_Error e)
            | Inr (h, p, rest) \<Rightarrow>
                if hd_kind h = kind_protocol_error then Inl (Protocol_Rejected p)
                else if hd_version h \<noteq> protocol_version \<or> hd_kind h \<noteq> kind_handshake
                  \<or> hd_capture h \<noteq> uuid_nil \<or> p \<noteq> [] then Inl (Frame_Error Invalid_Header)
                else Inr (c2, rest))))"

definition client_begin ::
  "conn_env \<Rightarrow> bool \<Rightarrow> bool \<Rightarrow> bool \<Rightarrow> bytes \<Rightarrow> bytes option \<Rightarrow> bytes \<Rightarrow> client_error + attempt" where
  "client_begin env closed closed_later dial_ok i json reply =
     (if i = uuid_nil then Inl Capture_Id_Required
      else case client_open env closed dial_ok reply of Inl e \<Rightarrow> Inl e
        | Inr (c, rest) \<Rightarrow> (case json of None \<Rightarrow> Inl Encode_Failed
          | Some p \<Rightarrow>
            let a = \<lparr>at_id = i, at_conn = c, at_failed = False, at_tracked = False\<rparr> in
            (case write_frame_locked env kind_begin p a of (False, _) \<Rightarrow> Inl Send_Begin_Failed
             | (True, a1) \<Rightarrow> (case set_read_deadline env (at_conn a1) of (Some e, _) \<Rightarrow> Inl (Frame_Error e)
               | (None, c1) \<Rightarrow> (case read_frame rest of Inl e \<Rightarrow> Inl (Frame_Error e)
                 | Inr (h, resp, _) \<Rightarrow>
                     if hd_version h \<noteq> protocol_version then Inl (Frame_Error Invalid_Header)
                     else if hd_kind h = kind_protocol_error then
                       (if hd_capture h = i \<and> resp = backpressure_rejection then Inl IPC_Backpressure
                        else Inl Begin_Rejected)
                     else if hd_kind h \<noteq> kind_begin \<or> hd_capture h \<noteq> i \<or> resp \<noteq> []
                     then Inl (Frame_Error Invalid_Header)
                     else if closed_later then Inl Client_Closed
                     else Inr (a1\<lparr>at_conn := c1, at_tracked := True\<rparr>))))))"

definition client_status ::
  "conn_env \<Rightarrow> bool \<Rightarrow> bool \<Rightarrow> (bytes \<Rightarrow> 'st option) \<Rightarrow> bytes \<Rightarrow> client_error + 'st" where
  "client_status env closed dial_ok decode reply =
     (case client_open env closed dial_ok reply of Inl e \<Rightarrow> Inl e
      | Inr (c, rest) \<Rightarrow>
        (case write_frame_with_absolute_deadline env (attempt_header kind_status_request uuid_nil) [] c of
           (Some e, _) \<Rightarrow> Inl (Frame_Error e)
         | (None, c1) \<Rightarrow> (case set_read_deadline env c1 of (Some e, _) \<Rightarrow> Inl (Frame_Error e)
           | (None, c2) \<Rightarrow> (case read_frame rest of Inl e \<Rightarrow> Inl (Frame_Error e)
             | Inr (h, p, _) \<Rightarrow>
                 if hd_version h \<noteq> protocol_version then Inl (Bad_Version (hd_version h))
                 else if hd_kind h = kind_protocol_error then Inl (Protocol_Rejected p)
                 else if hd_kind h \<noteq> kind_status_response \<or> hd_capture h \<noteq> uuid_nil
                 then Inl (Frame_Error Invalid_Header)
                 else (case decode p of None \<Rightarrow> Inl Encode_Failed | Some st \<Rightarrow> Inr st)))))"

section \<open>Invariant of an attempt\<close>

text \<open>An attempt is failed exactly when its connection is closed, and then it is not in the table.\<close>

definition attempt_ok :: "attempt \<Rightarrow> bool" where
  "attempt_ok a \<longleftrightarrow> length (at_id a) = 16 \<and> (at_failed a \<longleftrightarrow> cn_closed (at_conn a)) \<and> (at_failed a \<longrightarrow> \<not> at_tracked a)"

lemma write_frame_closed:
  "cn_closed (snd (write_frame_with_absolute_deadline env h p c)) = cn_closed c"
proof -
  have "cn_closed (snd (write_once env b c1)) = cn_closed c1" for b c1
    using conn_write_closed [of env b c1] by (simp add: write_once_def split_beta)
  moreover have "cn_closed (snd (set_write_deadline env c)) = cn_closed c"
    using conn_write_closed [of env "[]" c] by (simp add: set_write_deadline_def split_beta)
  ultimately show ?thesis
    by (simp add: write_frame_with_absolute_deadline_def split_beta split: option.splits)
qed

lemma fail_locked_ok: "attempt_ok a \<Longrightarrow> attempt_ok (fail_locked a)" "at_failed (fail_locked a)"
  by (auto simp: fail_locked_def attempt_ok_def)

lemma write_frame_locked_ok: "attempt_ok a \<Longrightarrow> attempt_ok (snd (write_frame_locked env k p a))"
  using write_frame_closed [of env "attempt_header k (at_id a)" p "at_conn a"]
  by (auto simp: write_frame_locked_def attempt_ok_def fail_locked_def split: prod.splits option.splits)

lemma write_chunks_ok: "attempt_ok a \<Longrightarrow> attempt_ok (snd (write_chunks env k p a))"
proof (induction env k p a rule: write_chunks.induct)
  case (1 env k p a)
  let ?n = "if length p > max_payload_bytes then max_payload_bytes else length p"
  obtain b a1 where w: "write_frame_locked env k (take ?n p) a = (b, a1)" by force
  have "attempt_ok a1" using write_frame_locked_ok [OF 1(2), of env k "take ?n p"] w by simp
  with 1 w show ?case
    by (subst write_chunks.simps) (auto simp: Let_def split: prod.splits bool.splits)
qed

lemma attempt_exec_ok: "attempt_ok a \<Longrightarrow> attempt_ok (snd (attempt_exec env op a))"
  using write_frame_locked_ok [of a env]
  by (cases op) (auto simp: write_payload_def attempt_finalize_def attempt_commit_def attempt_abort_def
      write_chunks_ok fail_locked_ok split_beta split: option.splits)

section \<open>What a successful operation sends\<close>

function chunks :: "'a list \<Rightarrow> 'a list list" where
  "chunks p = (if p = [] then [] else take max_payload_bytes p # chunks (drop max_payload_bytes p))"
  by pat_completeness auto
termination
  by (relation "measure length") auto

declare chunks.simps [simp del]

lemma chunks_Nil [simp]: "chunks [] = []"
  by (simp add: chunks.simps)

lemma chunks_spec: "concat (chunks p) = p \<and> (\<forall>c \<in> set (chunks p). c \<noteq> [] \<and> length c \<le> max_payload_bytes)"
proof (induction p rule: chunks.induct)
  case (1 p)
  then show ?case by (subst (1 2) chunks.simps) auto
qed

definition payload_chunks :: "bytes \<Rightarrow> bytes list" where
  "payload_chunks p = (if p = [] then [[]] else chunks p)"

definition frames_bytes :: "(header \<times> bytes) list \<Rightarrow> bytes" where
  "frames_bytes fs = concat (map (\<lambda>(h, p). frame_bytes h p) fs)"

lemma frames_bytes_simps [simp]:
  "frames_bytes [] = []" "frames_bytes ((h, p) # fs) = frame_bytes h p @ frames_bytes fs"
  "frames_bytes (fs @ gs) = frames_bytes fs @ frames_bytes gs"
  by (simp_all add: frames_bytes_def)

abbreviation kind_frames :: "kind \<Rightarrow> bytes \<Rightarrow> bytes list \<Rightarrow> (header \<times> bytes) list" where
  "kind_frames k i ps \<equiv> map (Pair (attempt_header k i)) ps"

fun op_frames :: "bytes \<Rightarrow> attempt_op \<Rightarrow> (header \<times> bytes) list" where
  "op_frames i (Write_Req p) = kind_frames kind_request_chunk i (payload_chunks p)"
| "op_frames i (Write_Resp p) = kind_frames kind_response_chunk i (payload_chunks p)"
| "op_frames i (Write_Req_Headers p) = kind_frames kind_request_headers i (payload_chunks p)"
| "op_frames i (Write_Resp_Headers p) = kind_frames kind_response_headers i (payload_chunks p)"
| "op_frames i (Finalize j) = (case j of None \<Rightarrow> [] | Some p \<Rightarrow> [(attempt_header kind_final i, p)])"
| "op_frames i Commit = [(attempt_header kind_commit i, [])]"
| "op_frames i Abort = [(attempt_header kind_abort i, [])]"

lemma write_frame_locked_sent:
  assumes "write_frame_locked env k p a = (True, a')"
  shows "at_id a' = at_id a \<and> cn_sent (at_conn a') = cn_sent (at_conn a) @ frame_bytes (attempt_header k (at_id a)) p"
  using assms write_frame_sent [of env "attempt_header k (at_id a)" p "at_conn a"]
  by (auto simp: write_frame_locked_def split: if_splits prod.splits option.splits)

lemma write_chunks_sent:
  "write_chunks env k p a = (True, a') \<Longrightarrow>
     at_id a' = at_id a \<and> cn_sent (at_conn a') = cn_sent (at_conn a) @ frames_bytes (kind_frames k (at_id a) (chunks p))"
proof (induction env k p a rule: write_chunks.induct)
  case (1 env k p a)
  show ?case
  proof (cases "p = []")
    case True
    with 1(2) show ?thesis by (simp add: write_chunks.simps)
  next
    case False
    let ?n = "if length p > max_payload_bytes then max_payload_bytes else length p"
    have n: "take ?n p = take max_payload_bytes p" "drop ?n p = drop max_payload_bytes p" by auto
    obtain a1 where w: "write_frame_locked env k (take ?n p) a = (True, a1)" "write_chunks env k (drop ?n p) a1 = (True, a')"
      using 1(2) False by (subst (asm) write_chunks.simps) (auto simp: Let_def split: prod.splits bool.splits)
    from write_frame_locked_sent [OF w(1)] 1(1) [OF False refl w(1) [symmetric] _ w(2)] show ?thesis
      unfolding n by (subst chunks.simps) (simp add: False)
  qed
qed

lemma write_payload_sent:
  assumes "write_payload env k p a = (True, a')"
  shows "at_id a' = at_id a
    \<and> cn_sent (at_conn a') = cn_sent (at_conn a) @ frames_bytes (kind_frames k (at_id a) (payload_chunks p))"
  using assms write_frame_locked_sent [of env k "[]" a a'] write_chunks_sent [of env k p a a']
  by (auto simp: write_payload_def payload_chunks_def split: if_splits)

lemma fail_locked_sent [simp]: "cn_sent (at_conn (fail_locked a)) = cn_sent (at_conn a)" "at_id (fail_locked a) = at_id a"
  by (simp_all add: fail_locked_def)

lemma attempt_exec_sent:
  assumes "attempt_exec env op a = (True, a')" "op \<noteq> Abort"
  shows "at_id a' = at_id a \<and> cn_sent (at_conn a') = cn_sent (at_conn a) @ frames_bytes (op_frames (at_id a) op)"
  using assms write_payload_sent [of env _ _ a a']
  by (cases op) (auto simp: attempt_finalize_def attempt_commit_def split: option.splits if_splits prod.splits
      dest!: write_frame_locked_sent)

lemma attempt_run_sent:
  assumes "attempt_run env ops a = (oks, a')" "list_all id oks" "Abort \<notin> set ops"
  shows "cn_sent (at_conn a') = cn_sent (at_conn a) @ frames_bytes (concat (map (op_frames (at_id a)) ops))"
  using assms
proof (induction ops arbitrary: a oks a')
  case (Cons op ops)
  obtain ok a1 where e: "attempt_exec env op a = (ok, a1)" by force
  obtain oks1 a2 where r: "attempt_run env ops a1 = (oks1, a2)" by force
  have o: "oks = ok # oks1" "a' = a2" using Cons.prems(1) e r by simp_all
  with Cons.prems e have "attempt_exec env op a = (True, a1)" "op \<noteq> Abort" by auto
  note s = attempt_exec_sent [OF this]
  have "cn_sent (at_conn a2) = cn_sent (at_conn a1) @ frames_bytes (concat (map (op_frames (at_id a1)) ops))"
    using Cons.prems o by (intro Cons.IH [OF r]) auto
  with s o show ?case by simp
qed simp

text \<open>
  What the gateway reports as written is on the wire: whatever the connection does,
  when every operation of an attempt returned true, the bytes sent are exactly the frames of
  those operations in order, payloads over 64 KiB cut into frames of at most 64 KiB.
\<close>

theorem attempt_run_sends:
  assumes "attempt_run env ops a = (oks, a')" "list_all id oks" "Abort \<notin> set ops"
  shows "cn_sent (at_conn a') = cn_sent (at_conn a) @ frames_bytes (concat (map (op_frames (at_id a)) ops))"
  using attempt_run_sent [OF assms] .

text \<open>
  Capture never comes back to life: once an operation of an attempt failed, or the
  attempt was committed or aborted, its connection is closed, it has left the client's table, and
  no later operation sends a byte or reports success (only \<open>Abort\<close>, which has no result, is
  accepted).
\<close>

theorem failed_attempt_silent:
  assumes "attempt_ok a" "at_failed a"
  shows "attempt_run env ops a = (map (\<lambda>op. op = Abort) ops, a)
    \<and> cn_closed (at_conn a) \<and> \<not> at_tracked a"
proof -
  have "attempt_exec env op a = (op = Abort, a)" for op
    using assms(2) by (cases op) (auto simp: write_payload_def attempt_finalize_def attempt_commit_def attempt_abort_def
        write_frame_locked_def fail_locked_def split: option.splits)
  then have "attempt_run env ops a = (map (\<lambda>op. op = Abort) ops, a)" by (induction ops) auto
  with assms show ?thesis by (simp add: attempt_ok_def)
qed

end
