(* ===== verification/Capture_Server.thy ===== *)
theory Capture_Server
  imports Capture_Client
begin

text \<open>
  The sidecar's side of the capture protocol, \<open>internal/capture/protocol/server.go\<close>. The input of
  a connection is the list of bytes the peer sends before it closes. The interface \<open>SessionSink\<close>
  is its call log together with an oracle \<open>sv_sink\<close> that gives the result of the next call from
  the calls so far: it may succeed, return an error or panic. JSON decoding, the session factory
  and the outcome of each write are fields of the environment record. The second part is the
  admission of connections: the semaphore, the table of connections and \<open>Close\<close>.
\<close>

section \<open>A session\<close>

datatype 'f sink_call =
    Sink_Req_Headers bytes | Sink_Resp_Headers bytes | Sink_Req bytes | Sink_Resp bytes
  | Sink_Finalize 'f | Sink_Commit | Sink_Abort

datatype call_result = Call_Ok | Call_Err | Call_Panic

record ('b, 'f) server_env =
  sv_sink :: "'f sink_call list \<Rightarrow> 'f sink_call \<Rightarrow> call_result"
  sv_decode_begin :: "bytes \<Rightarrow> 'b option"
  sv_begin_id :: "'b \<Rightarrow> bytes"
  sv_decode_final :: "bytes \<Rightarrow> 'f option"
  sv_open :: "'b \<Rightarrow> bool"
  sv_status :: "bytes option"
  sv_write_ok :: "nat \<Rightarrow> bool"

record 'f session =
  se_log :: "'f sink_call list"
  se_req_headers :: bool
  se_resp_headers :: bool
  se_final :: bool
  se_prev :: kind

text \<open>
  How a session ends: the calls made, whether it ended in a committed or aborted state
  (\<open>terminal\<close>), and the message of a protocol error sent to the peer.
\<close>

record 'f session_end =
  en_log :: "'f sink_call list"
  en_terminal :: bool
  en_error :: "string option"

definition protocol_error_payload :: "string \<Rightarrow> bytes" where
  "protocol_error_payload m = take max_payload_bytes (map (of_nat \<circ> byte) m)"

definition stop :: "'f sink_call list \<Rightarrow> bool \<Rightarrow> string option \<Rightarrow> 'f session_end" where
  "stop l t e = \<lparr>en_log = l, en_terminal = t, en_error = e\<rparr>"

text \<open>
  A call of the sink inside the loop: success goes on with the given state, an error is reported
  to the peer and ends the session, a panic ends it silently (the deferred function recovers).
\<close>

definition sink_then ::
  "('b, 'f) server_env \<Rightarrow> 'f sink_call \<Rightarrow> 'f session \<Rightarrow> 'f session \<Rightarrow> 'f session_end + 'f session" where
  "sink_then sv c s s' = (case sv_sink sv (se_log s) c of
     Call_Ok \<Rightarrow> Inr (s'\<lparr>se_log := se_log s @ [c]\<rparr>)
   | Call_Err \<Rightarrow> Inl (stop (se_log s @ [c]) False (Some ''capture session rejected''))
   | Call_Panic \<Rightarrow> Inl (stop (se_log s @ [c]) False None))"

definition reject :: "'f session \<Rightarrow> 'f session_end + 'f session" where
  "reject s = Inl (stop (se_log s) False (Some ''capture session rejected''))"

definition session_frame ::
  "('b, 'f) server_env \<Rightarrow> bytes \<Rightarrow> header \<Rightarrow> bytes \<Rightarrow> 'f session \<Rightarrow> 'f session_end + 'f session" where
  "session_frame sv i h p s =
     (let k = hd_kind h; s' = s\<lparr>se_prev := k\<rparr> in
      if hd_version h \<noteq> protocol_version \<or> hd_capture h \<noteq> i
      then Inl (stop (se_log s) False (Some ''capture session identity mismatch''))
      else if se_final s \<and> k \<noteq> kind_commit \<and> k \<noteq> kind_abort
      then Inl (stop (se_log s) False (Some ''message after final''))
      else if k = kind_request_headers then
        (if se_req_headers s \<and> se_prev s \<noteq> kind_request_headers then reject s
         else sink_then sv (Sink_Req_Headers p) s (s'\<lparr>se_req_headers := True\<rparr>))
      else if k = kind_response_headers then
        (if se_resp_headers s \<and> se_prev s \<noteq> kind_response_headers then reject s
         else sink_then sv (Sink_Resp_Headers p) s (s'\<lparr>se_resp_headers := True\<rparr>))
      else if k = kind_request_chunk then sink_then sv (Sink_Req p) s s'
      else if k = kind_response_chunk then sink_then sv (Sink_Resp p) s s'
      else if k = kind_final then
        (case sv_decode_final sv p of None \<Rightarrow> reject s
         | Some f \<Rightarrow> sink_then sv (Sink_Finalize f) s (s'\<lparr>se_final := True\<rparr>))
      else if k = kind_commit then
        (if p \<noteq> [] \<or> \<not> se_final s then reject s
         else case sink_then sv Sink_Commit s s' of
             Inl e \<Rightarrow> Inl e | Inr s1 \<Rightarrow> Inl (stop (se_log s1) True None))
      else if k = kind_abort then
        (if p \<noteq> [] then reject s else Inl (stop (se_log s @ [Sink_Abort]) True None))
      else reject s)"

function session_loop ::
  "('b, 'f) server_env \<Rightarrow> bytes \<Rightarrow> bytes \<Rightarrow> 'f session \<Rightarrow> 'f session_end" where
  "session_loop sv i r s =
     (case read_frame r of Inl e \<Rightarrow> stop (se_log s) False None
      | Inr (h, p, r') \<Rightarrow> (case session_frame sv i h p s of Inl e \<Rightarrow> e
          | Inr s' \<Rightarrow> session_loop sv i r' s'))"
  by pat_completeness auto
termination
  by (relation "measure (\<lambda>(sv, i, r, s). length r)") (auto dest!: read_frame_shorter)

declare session_loop.simps [simp del]

definition new_session :: "'f session" where
  "new_session = \<lparr>se_log = [], se_req_headers = False, se_resp_headers = False, se_final = False, se_prev = 0\<rparr>"

text \<open>
  \<open>handleConnection\<close>: the result is the log of the sink (\<open>None\<close> when no session was opened) and
  the frames sent to the peer (attempted writes included). The deferred function aborts a session
  that did not end in a terminal state.
\<close>

definition reply_header :: "kind \<Rightarrow> bytes \<Rightarrow> header" where
  "reply_header k i = \<lparr>hd_version = protocol_version, hd_kind = k, hd_capture = i, hd_length = 0\<rparr>"

definition error_reply :: "string \<Rightarrow> header \<times> bytes" where
  "error_reply m = (reply_header kind_protocol_error uuid_nil, protocol_error_payload m)"

definition run_session ::
  "('b, 'f) server_env \<Rightarrow> bytes \<Rightarrow> bytes \<Rightarrow> 'f sink_call list \<times> (header \<times> bytes) list" where
  "run_session sv i r = (let e = session_loop sv i r new_session in
     (if en_terminal e then en_log e else en_log e @ [Sink_Abort],
      case en_error e of None \<Rightarrow> [] | Some m \<Rightarrow> [error_reply m]))"

definition handle_begin ::
  "('b, 'f) server_env \<Rightarrow> header \<Rightarrow> bytes \<Rightarrow> bytes \<Rightarrow> 'f sink_call list option \<times> (header \<times> bytes) list" where
  "handle_begin sv h p r =
     (if hd_version h \<noteq> protocol_version then (None, [error_reply ''protocol version mismatch''])
      else if hd_kind h = kind_status_request then
        (if hd_capture h \<noteq> uuid_nil \<or> p \<noteq> [] then (None, [error_reply ''invalid status request''])
         else case sv_status sv of None \<Rightarrow> (None, [error_reply ''encode status''])
           | Some st \<Rightarrow> (None, [(reply_header kind_status_response uuid_nil, st)]))
      else if hd_kind h \<noteq> kind_begin \<or> hd_capture h = uuid_nil then (None, [error_reply ''begin required''])
      else case sv_decode_begin sv p of None \<Rightarrow> (None, [error_reply ''invalid begin''])
        | Some b \<Rightarrow>
            if sv_begin_id sv b \<noteq> hd_capture h then (None, [error_reply ''invalid begin''])
            else if \<not> sv_open sv b then (None, [error_reply ''open session''])
            else let ack = (reply_header kind_begin (hd_capture h), []) in
              if \<not> sv_write_ok sv 1 then (Some [Sink_Abort], [ack])
              else case run_session sv (hd_capture h) r of (log, out) \<Rightarrow> (Some log, ack # out))"

definition handle_connection ::
  "('b, 'f) server_env \<Rightarrow> bytes \<Rightarrow> 'f sink_call list option \<times> (header \<times> bytes) list" where
  "handle_connection sv r =
     (case read_frame r of Inl e \<Rightarrow> (None, [])
      | Inr (h, p, r1) \<Rightarrow>
          if hd_kind h \<noteq> kind_handshake \<or> hd_capture h \<noteq> uuid_nil \<or> p \<noteq> []
          then (None, [error_reply ''handshake required''])
          else if hd_version h \<noteq> protocol_version then (None, [error_reply ''protocol version mismatch''])
          else let hs = (reply_header kind_handshake uuid_nil, []) in
            if \<not> sv_write_ok sv 0 then (None, [hs])
            else case read_frame r1 of Inl e \<Rightarrow> (None, [hs])
              | Inr (h2, p2, r2) \<Rightarrow> (case handle_begin sv h2 p2 r2 of (log, out) \<Rightarrow> (log, hs # out)))"

text \<open>
  \<open>rejectOverloadedConnection\<close>: what a peer is told when all session slots are taken; the write
  of the handshake may fail.
\<close>

definition reject_overloaded_connection :: "('b, 'f) server_env \<Rightarrow> bytes \<Rightarrow> (header \<times> bytes) list" where
  "reject_overloaded_connection sv r =
     (case read_frame r of Inl e \<Rightarrow> []
      | Inr (h, p, r1) \<Rightarrow>
          if hd_version h \<noteq> protocol_version \<or> hd_kind h \<noteq> kind_handshake \<or> hd_capture h \<noteq> uuid_nil \<or> p \<noteq> []
          then []
          else let hs = (reply_header kind_handshake uuid_nil, []) in
            if \<not> sv_write_ok sv 0 then [hs]
            else case read_frame r1 of Inl e \<Rightarrow> [hs]
              | Inr (h2, p2, _) \<Rightarrow>
                  if hd_version h2 \<noteq> protocol_version \<or> hd_kind h2 \<noteq> kind_begin \<or> hd_capture h2 = uuid_nil then [hs]
                  else (case sv_decode_begin sv p2 of None \<Rightarrow> [hs]
                    | Some b \<Rightarrow> if sv_begin_id sv b \<noteq> hd_capture h2 then [hs]
                        else [hs, (reply_header kind_protocol_error (sv_begin_id sv b), backpressure_rejection)]))"

section \<open>Admission of connections\<close>

record server =
  sr_max :: nat
  sr_slots :: nat
  sr_active :: int
  sr_conns :: "nat list"
  sr_closed :: bool

definition new_server :: "int \<Rightarrow> server" where
  "new_server max_sessions = \<lparr>sr_max = (if max_sessions \<le> 0 \<or> max_sessions > 32 then 32 else nat max_sessions),
     sr_slots = 0, sr_active = 0, sr_conns = [], sr_closed = False\<rparr>"

definition track_connection :: "nat \<Rightarrow> server \<Rightarrow> bool \<times> server" where
  "track_connection c s = (if sr_closed s then (False, s)
     else (True, s\<lparr>sr_conns := (if c \<in> set (sr_conns s) then sr_conns s else c # sr_conns s)\<rparr>))"

definition untrack_connection :: "nat \<Rightarrow> server \<Rightarrow> server" where
  "untrack_connection c s = s\<lparr>sr_conns := filter (\<lambda>x. x \<noteq> c) (sr_conns s)\<rparr>"

datatype admission = Served | Dropped | Overloaded

text \<open>One iteration of the accept loop of \<open>Serve\<close> for a new connection \<open>c\<close>.\<close>

definition server_accept :: "nat \<Rightarrow> server \<Rightarrow> admission \<times> server" where
  "server_accept c s =
     (if sr_slots s < sr_max s then
        (case track_connection c (s\<lparr>sr_slots := sr_slots s + 1\<rparr>) of
           (False, s1) \<Rightarrow> (Dropped, s1\<lparr>sr_slots := sr_slots s1 - 1\<rparr>)
         | (True, s1) \<Rightarrow> (Served, s1\<lparr>sr_active := sr_active s1 + 1\<rparr>))
      else (Overloaded, s))"

text \<open>The deferred function of \<open>serveConnection\<close>.\<close>

definition server_done :: "nat \<Rightarrow> server \<Rightarrow> server" where
  "server_done c s = (let s1 = untrack_connection c s in
     s1\<lparr>sr_active := sr_active s1 - 1, sr_slots := sr_slots s1 - 1\<rparr>)"

definition server_close :: "server \<Rightarrow> server" where
  "server_close s = s\<lparr>sr_closed := True\<rparr>"

text \<open>A new connection is not in the table; a handler ends only once, while its connection is there.\<close>

inductive server_reach :: "int \<Rightarrow> server \<Rightarrow> bool" for max_sessions where
  init: "server_reach max_sessions (new_server max_sessions)"
| accept: "server_reach max_sessions s \<Longrightarrow> c \<notin> set (sr_conns s) \<Longrightarrow> server_reach max_sessions (snd (server_accept c s))"
| finish: "server_reach max_sessions s \<Longrightarrow> c \<in> set (sr_conns s) \<Longrightarrow> server_reach max_sessions (server_done c s)"
| closing: "server_reach max_sessions s \<Longrightarrow> server_reach max_sessions (server_close s)"

section \<open>Discipline of the calls on a sink\<close>

fun data_call :: "'f sink_call \<Rightarrow> bool" where
  "data_call (Sink_Req_Headers p) = True"
| "data_call (Sink_Resp_Headers p) = True"
| "data_call (Sink_Req p) = True"
| "data_call (Sink_Resp p) = True"
| "data_call _ = False"

text \<open>The calls of a session before its end: data, then at most one finalize.\<close>

definition open_log :: "bool \<Rightarrow> 'f sink_call list \<Rightarrow> bool" where
  "open_log final log \<longleftrightarrow> (\<exists>data fin. log = data @ fin \<and> list_all data_call data
     \<and> (if final then \<exists>f. fin = [Sink_Finalize f] else fin = []))"

text \<open>The calls of a finished session.\<close>

definition closed_log :: "('b, 'f) server_env \<Rightarrow> 'f sink_call list \<Rightarrow> bool" where
  "closed_log sv log \<longleftrightarrow> (\<exists>final l. open_log final l \<and>
     (log = l @ [Sink_Abort]
      \<or> final \<and> log = l @ [Sink_Commit] \<and> sv_sink sv l Sink_Commit = Call_Ok
      \<or> final \<and> log = l @ [Sink_Commit, Sink_Abort] \<and> sv_sink sv l Sink_Commit \<noteq> Call_Ok))"

lemma closed_logI:
  "open_log final l \<Longrightarrow> closed_log sv (l @ [Sink_Abort])"
  "open_log True l \<Longrightarrow> sv_sink sv l Sink_Commit = Call_Ok \<Longrightarrow> closed_log sv (l @ [Sink_Commit])"
  "open_log True l \<Longrightarrow> sv_sink sv l Sink_Commit \<noteq> Call_Ok \<Longrightarrow> closed_log sv (l @ [Sink_Commit, Sink_Abort])"
  unfolding closed_log_def by blast+

lemma new_session_open: "open_log (se_final new_session) (se_log new_session)"
  by (simp add: new_session_def open_log_def)

lemma open_log_data: "open_log False l \<Longrightarrow> data_call c \<Longrightarrow> open_log False (l @ [c])"
  by (auto simp: open_log_def)

lemma open_log_final: "open_log False l \<Longrightarrow> open_log True (l @ [Sink_Finalize f])"
  by (auto simp: open_log_def)

text \<open>What a stopped loop leaves for the deferred abort.\<close>

definition end_ok :: "('b, 'f) server_env \<Rightarrow> 'f session_end \<Rightarrow> bool" where
  "end_ok sv e \<longleftrightarrow> closed_log sv (if en_terminal e then en_log e else en_log e @ [Sink_Abort])"

lemma end_ok_open: "open_log final l \<Longrightarrow> end_ok sv (stop l False m)"
  by (simp add: end_ok_def stop_def closed_logI)

lemma sink_then_data:
  assumes "open_log False (se_log s)" "data_call c \<or> (\<exists>f. c = Sink_Finalize f)" "se_final s' = (\<not> data_call c)"
  shows "case sink_then sv c s s' of Inl e \<Rightarrow> end_ok sv e | Inr s1 \<Rightarrow> open_log (se_final s1) (se_log s1)"
proof -
  have "open_log (\<not> data_call c) (se_log s @ [c])"
    using assms(1,2) by (auto simp: open_log_data open_log_final)
  with assms(3) show ?thesis
    by (auto simp: sink_then_def end_ok_open split: call_result.splits)
qed

lemma session_frame_ok:
  assumes "open_log (se_final s) (se_log s)"
  shows "case session_frame sv i h p s of Inl e \<Rightarrow> end_ok sv e | Inr s1 \<Rightarrow> open_log (se_final s1) (se_log s1)"
proof -
  have r: "\<And>m. end_ok sv (stop (se_log s) False m)" "case reject s of Inl e \<Rightarrow> end_ok sv e | Inr s1 \<Rightarrow> open_log (se_final s1) (se_log s1)"
    using assms by (auto simp: reject_def end_ok_open)
  have a: "end_ok sv (stop (se_log s @ [Sink_Abort]) True None)"
    using assms by (simp add: end_ok_def stop_def closed_logI)
  have c: "case (case sink_then sv Sink_Commit s s' of Inl e \<Rightarrow> Inl e | Inr s1 \<Rightarrow> Inl (stop (se_log s1) True None))
      of Inl e \<Rightarrow> end_ok sv e | Inr (s1 :: 'a session) \<Rightarrow> open_log (se_final s1) (se_log s1)" if "se_final s" for s'
    using assms that by (auto simp: sink_then_def end_ok_def stop_def closed_logI split: call_result.splits)
  show ?thesis
  proof (cases "se_final s")
    case True
    with r a c show ?thesis by (auto simp: session_frame_def Let_def)
  next
    case False
    with assms have o: "open_log False (se_log s)" by simp
    show ?thesis using False r a
      by (simp add: session_frame_def Let_def sink_then_data [OF o] split: option.splits)
  qed
qed

lemma session_loop_ok: "open_log (se_final s) (se_log s) \<Longrightarrow> end_ok sv (session_loop sv i r s)"
proof (induction sv i r s rule: session_loop.induct)
  case (1 sv i r s)
  show ?case
  proof (cases "read_frame r")
    case (Inl e)
    with 1(2) show ?thesis by (simp add: session_loop.simps end_ok_open)
  next
    case (Inr x)
    obtain h p r' where x: "x = (h, p, r')" by (rule prod_cases3)
    with 1 Inr session_frame_ok [OF 1(2), of sv i h p] show ?thesis
      by (subst session_loop.simps) (auto split: sum.splits)
  qed
qed

text \<open>
  Claim C32. Whatever bytes a peer sends and however the sink behaves (errors and panics
  included), a session that was opened makes its calls in order: data, then at most one
  finalize, then exactly one end. A commit comes only after a finalize and ends the session when
  it succeeds; in every other case the last call is an abort.
\<close>

theorem session_calls_disciplined:
  assumes "handle_connection sv r = (Some log, out)"
  shows "closed_log sv log"
proof -
  have "closed_log sv (fst (run_session sv i r))" for i r
    using session_loop_ok [OF new_session_open, of sv i r] by (simp add: run_session_def end_ok_def Let_def)
  moreover have "closed_log sv [Sink_Abort]"
    using closed_logI(1) [of False "[]" sv] by (simp add: open_log_def)
  ultimately show ?thesis using assms
    by (auto simp: handle_connection_def handle_begin_def Let_def split: sum.splits prod.splits if_splits option.splits)
       (metis fst_conv)+
qed

section \<open>From the gateway to the sink\<close>

definition kind_call :: "kind \<Rightarrow> bytes \<Rightarrow> 'f sink_call" where
  "kind_call k p = (if k = kind_request_headers then Sink_Req_Headers p
     else if k = kind_response_headers then Sink_Resp_Headers p
     else if k = kind_request_chunk then Sink_Req p else Sink_Resp p)"

definition data_kind :: "kind \<Rightarrow> bool" where
  "data_kind k \<longleftrightarrow> k = kind_request_headers \<or> k = kind_response_headers \<or> k = kind_request_chunk \<or> k = kind_response_chunk"

text \<open>A frame of kind \<open>k\<close> may come next: headers of one direction are consecutive.\<close>

definition may_follow :: "kind \<Rightarrow> 'f session \<Rightarrow> bool" where
  "may_follow k s \<longleftrightarrow> \<not> se_final s
     \<and> (k = kind_request_headers \<and> se_req_headers s \<longrightarrow> se_prev s = k)
     \<and> (k = kind_response_headers \<and> se_resp_headers s \<longrightarrow> se_prev s = k)"

definition after_frames :: "kind \<Rightarrow> bytes list \<Rightarrow> 'f session \<Rightarrow> 'f session" where
  "after_frames k ps s = (if ps = [] then s else s\<lparr>se_log := se_log s @ map (kind_call k) ps, se_prev := k,
     se_req_headers := (se_req_headers s \<or> k = kind_request_headers),
     se_resp_headers := (se_resp_headers s \<or> k = kind_response_headers)\<rparr>)"

lemma attempt_header_sendable:
  "length i = 16 \<Longrightarrow> length p \<le> max_payload_bytes \<Longrightarrow> k \<noteq> 0 \<Longrightarrow> k \<le> kind_protocol_error \<Longrightarrow> sendable (attempt_header k i) p"
  by (simp add: sendable_def attempt_header_def)

lemma data_kind_range: "data_kind k \<Longrightarrow> k \<noteq> 0 \<and> k \<le> kind_protocol_error"
  by (auto simp: data_kind_def)

lemmas frame_step_defs = session_frame_def attempt_header_def after_frames_def sink_then_def kind_call_def Let_def

lemma session_data_frame:
  assumes "\<And>l c. sv_sink sv l c = Call_Ok" "data_kind k" "may_follow k s"
  shows "session_frame sv i (attempt_header k i\<lparr>hd_length := n\<rparr>) p s = Inr (after_frames k [p] s)"
proof -
  have f: "\<not> se_final s" using assms(3) by (simp add: may_follow_def)
  consider "k = kind_request_headers" | "k = kind_response_headers" | "k = kind_request_chunk" | "k = kind_response_chunk"
    using assms(2) by (auto simp: data_kind_def)
  then show ?thesis
  proof cases
    case 1
    then show ?thesis using assms(3) f
      by (auto simp: frame_step_defs may_follow_def assms(1))
  next
    case 2
    then show ?thesis using assms(3) f
      by (auto simp: frame_step_defs may_follow_def assms(1))
  next
    case 3
    then show ?thesis using f
      by (simp add: frame_step_defs assms(1))
  next
    case 4
    then show ?thesis using f
      by (simp add: frame_step_defs assms(1))
  qed
qed

lemma session_data_frames:
  assumes "\<And>l c. sv_sink sv l c = Call_Ok" "data_kind k" "may_follow k s" "length i = 16"
    and "\<forall>p \<in> set ps. length p \<le> max_payload_bytes"
  shows "session_loop sv i (frames_bytes (kind_frames k i ps) @ rest) s = session_loop sv i rest (after_frames k ps s)"
  using assms(3,5)
proof (induction ps arbitrary: s)
  case (Cons p ps)
  have sd: "sendable (attempt_header k i) p"
    using Cons.prems(2) assms(4) data_kind_range [OF assms(2)] by (intro attempt_header_sendable) auto
  have m: "may_follow k (after_frames k [p] s)"
    using Cons.prems(1) by (auto simp: may_follow_def after_frames_def)
  have "after_frames k ps (after_frames k [p] s) = after_frames k (p # ps) s"
    by (simp add: after_frames_def)
  with Cons.IH [OF m] Cons.prems(2) show ?case
    by (subst session_loop.simps) (simp add: read_frame_bytes [OF sd] session_data_frame [OF assms(1,2) Cons.prems(1)])
qed (simp add: after_frames_def)

fun op_kind :: "attempt_op \<Rightarrow> kind" where
  "op_kind (Write_Req p) = kind_request_chunk"
| "op_kind (Write_Resp p) = kind_response_chunk"
| "op_kind (Write_Req_Headers p) = kind_request_headers"
| "op_kind (Write_Resp_Headers p) = kind_response_headers"
| "op_kind (Finalize j) = kind_final"
| "op_kind Commit = kind_commit"
| "op_kind Abort = kind_abort"

fun op_payload :: "attempt_op \<Rightarrow> bytes" where
  "op_payload (Write_Req p) = p"
| "op_payload (Write_Resp p) = p"
| "op_payload (Write_Req_Headers p) = p"
| "op_payload (Write_Resp_Headers p) = p"
| "op_payload _ = []"

text \<open>
  The data operations of an attempt: any writes of body chunks and at most one write of the
  headers of each direction (\<open>rq\<close>, \<open>rs\<close>: still allowed).
\<close>

fun data_ops :: "bool \<Rightarrow> bool \<Rightarrow> attempt_op list \<Rightarrow> bool" where
  "data_ops rq rs [] = True"
| "data_ops rq rs (op # ops) = (case op of
     Write_Req p \<Rightarrow> data_ops rq rs ops
   | Write_Resp p \<Rightarrow> data_ops rq rs ops
   | Write_Req_Headers p \<Rightarrow> rq \<and> data_ops False rs ops
   | Write_Resp_Headers p \<Rightarrow> rs \<and> data_ops rq False ops
   | _ \<Rightarrow> False)"

definition op_calls :: "attempt_op \<Rightarrow> 'f sink_call list" where
  "op_calls op = map (kind_call (op_kind op)) (payload_chunks (op_payload op))"

lemma payload_chunks_ok: "\<forall>c \<in> set (payload_chunks p). length c \<le> max_payload_bytes" "payload_chunks p \<noteq> []"
  "concat (payload_chunks p) = p"
  using chunks_spec [of p] by (auto simp: payload_chunks_def)

lemma data_ops_cases:
  assumes "data_ops rq rs (op # ops)"
  shows "data_kind (op_kind op) \<and> op_frames i op = kind_frames (op_kind op) i (payload_chunks (op_payload op))
     \<and> data_ops (rq \<and> op_kind op \<noteq> kind_request_headers) (rs \<and> op_kind op \<noteq> kind_response_headers) ops
     \<and> (op_kind op = kind_request_headers \<longrightarrow> rq) \<and> (op_kind op = kind_response_headers \<longrightarrow> rs)"
  using assms by (cases op) (auto simp: data_kind_def)

lemma session_data_ops:
  assumes "\<And>l c. sv_sink sv l c = Call_Ok" "length i = 16"
    and "data_ops (\<not> se_req_headers s) (\<not> se_resp_headers s) ops" "\<not> se_final s"
  shows "\<exists>s'. session_loop sv i (frames_bytes (concat (map (op_frames i) ops)) @ rest) s = session_loop sv i rest s'
    \<and> se_log s' = se_log s @ concat (map op_calls ops) \<and> \<not> se_final s'"
  using assms(3,4)
proof (induction ops arbitrary: s)
  case (Cons op ops)
  let ?k = "op_kind op" and ?ps = "payload_chunks (op_payload op)"
  note d = data_ops_cases [OF Cons.prems(1), of i]
  let ?s = "after_frames ?k ?ps s"
  have m: "may_follow ?k s" using d Cons.prems(2) by (auto simp: may_follow_def)
  have st: "session_loop sv i (frames_bytes (op_frames i op) @ r) s = session_loop sv i r ?s" for r
    using d session_data_frames [OF assms(1) _ m assms(2) payload_chunks_ok(1)] by auto
  have s: "data_ops (\<not> se_req_headers ?s) (\<not> se_resp_headers ?s) ops" "\<not> se_final ?s"
    "se_log ?s = se_log s @ op_calls op"
    using d Cons.prems(2) payload_chunks_ok(2) by (simp_all add: after_frames_def op_calls_def)
  from Cons.IH [OF s(1,2)] obtain s' where
    "session_loop sv i (frames_bytes (concat (map (op_frames i) ops)) @ rest) ?s = session_loop sv i rest s'"
    "se_log s' = se_log ?s @ concat (map op_calls ops)" "\<not> se_final s'" by blast
  with st s(3) show ?case by (intro exI [of _ s']) simp
qed auto

lemma session_tail:
  assumes "\<And>l c. sv_sink sv l c = Call_Ok" "length i = 16" "\<not> se_final s" "length j \<le> max_payload_bytes"
    and "sv_decode_final sv j = Some f"
  shows "session_loop sv i (frames_bytes (op_frames i (Finalize (Some j)) @ op_frames i Commit)) s
     = stop (se_log s @ [Sink_Finalize f, Sink_Commit]) True None"
proof -
  let ?s = "s\<lparr>se_prev := kind_final, se_final := True, se_log := se_log s @ [Sink_Finalize f]\<rparr>"
  have sd: "sendable (attempt_header kind_final i) j" "sendable (attempt_header kind_commit i) []"
    using assms(2,4) by (auto intro!: attempt_header_sendable)
  have 1: "session_frame sv i (attempt_header kind_final i\<lparr>hd_length := n\<rparr>) j s = Inr ?s" for n
    using assms(3,5) by (simp add: frame_step_defs assms(1))
  have 2: "session_frame sv i (attempt_header kind_commit i\<lparr>hd_length := n\<rparr>) [] ?s
      = Inl (stop (se_log s @ [Sink_Finalize f, Sink_Commit]) True None)" for n
    by (simp add: frame_step_defs assms(1))
  have "session_loop sv i (frame_bytes (attempt_header kind_commit i) []) ?s
      = stop (se_log s @ [Sink_Finalize f, Sink_Commit]) True None"
    using read_frame_bytes [OF sd(2), of "[]"] 2 by (subst session_loop.simps) simp
  then show ?thesis
    by (subst session_loop.simps) (simp add: read_frame_bytes [OF sd(1)] 1)
qed

lemma attempt_finalize_fits:
  "attempt_exec env (Finalize (Some j)) a = (True, a') \<Longrightarrow> length j \<le> max_payload_bytes"
  by (auto simp: attempt_finalize_def write_frame_locked_def write_frame_with_absolute_deadline_def
      split: if_splits prod.splits option.splits)

lemma attempt_run_append:
  "attempt_run env (xs @ ys) a = (let (o1, a1) = attempt_run env xs a; (o2, a2) = attempt_run env ys a1 in (o1 @ o2, a2))"
  by (induction xs arbitrary: a) (auto simp: split_beta Let_def)

lemma data_ops_no_abort: "data_ops rq rs ops \<Longrightarrow> Abort \<notin> set ops"
  by (induction rq rs ops rule: data_ops.induct) (auto split: attempt_op.splits)

definition collect :: "kind \<Rightarrow> 'f sink_call list \<Rightarrow> bytes" where
  "collect k log = concat (map (\<lambda>c. case c of
      Sink_Req_Headers p \<Rightarrow> if k = kind_request_headers then p else []
    | Sink_Resp_Headers p \<Rightarrow> if k = kind_response_headers then p else []
    | Sink_Req p \<Rightarrow> if k = kind_request_chunk then p else []
    | Sink_Resp p \<Rightarrow> if k = kind_response_chunk then p else []
    | _ \<Rightarrow> []) log)"

lemma collect_append [simp]: "collect k (a @ b) = collect k a @ collect k b" "collect k [] = []"
  by (simp_all add: collect_def)

lemma collect_op_calls:
  assumes "data_kind (op_kind op)" "data_kind k"
  shows "collect k (op_calls op :: 'f sink_call list) = (if op_kind op = k then op_payload op else [])"
proof -
  have "collect k (map (kind_call (op_kind op)) ps :: 'f sink_call list) = (if op_kind op = k then concat ps else [])" for ps
    using assms by (induction ps) (auto simp: collect_def kind_call_def data_kind_def)
  then show ?thesis by (simp add: op_calls_def payload_chunks_ok(3))
qed

lemma collect_data_ops:
  "data_ops rq rs ops \<Longrightarrow> data_kind k \<Longrightarrow>
     collect k (concat (map op_calls ops) :: 'f sink_call list) = concat (map op_payload (filter (\<lambda>op. op_kind op = k) ops))"
proof (induction ops arbitrary: rq rs)
  case (Cons op ops)
  note d = data_ops_cases [OF Cons.prems(1), of "[]"]
  from d have "collect k (concat (map op_calls ops) :: 'f sink_call list) = concat (map op_payload (filter (\<lambda>op. op_kind op = k) ops))"
    using Cons.IH Cons.prems(2) by blast
  moreover have "collect k (op_calls op :: 'f sink_call list) = (if op_kind op = k then op_payload op else [])"
    using d Cons.prems(2) by (intro collect_op_calls) auto
  ultimately show ?case by auto
qed simp

text \<open>
  Claim C27. End to end: when the gateway's writes of an attempt (at most one write of the
  headers of each direction, any number of body chunks, then \<open>Finalize\<close> and \<open>Commit\<close>) all report
  success, and the sidecar receives these bytes with a sink that accepts every call, then the
  sink is finalized with the decoded metadata and committed, and for each of the four streams it
  was given exactly the concatenation of what the gateway wrote.
\<close>

theorem capture_end_to_end:
  assumes "attempt_run env (ops @ [Finalize (Some j), Commit]) a = (oks, a')" "list_all id oks"
    and "data_ops True True ops" "length (at_id a) = 16"
    and "\<And>l c. sv_sink sv l c = Call_Ok" "sv_decode_final sv j = Some f"
    and "cn_sent (at_conn a') = cn_sent (at_conn a) @ sent" "run_session sv (at_id a) sent = (log, out)"
  shows "out = [] \<and> (\<exists>l. log = l @ [Sink_Finalize f, Sink_Commit])
    \<and> (\<forall>k \<in> {kind_request_headers, kind_response_headers, kind_request_chunk, kind_response_chunk}.
         collect k log = concat (map op_payload (filter (\<lambda>op. op_kind op = k) ops)))"
proof -
  let ?i = "at_id a"
  have na: "Abort \<notin> set (ops @ [Finalize (Some j), Commit])" using data_ops_no_abort [OF assms(3)] by auto
  have sent: "sent = frames_bytes (concat (map (op_frames ?i) ops)) @ frames_bytes (op_frames ?i (Finalize (Some j)) @ op_frames ?i Commit)"
    using attempt_run_sent [OF assms(1,2) na] assms(7) by simp
  have fits: "length j \<le> max_payload_bytes"
  proof -
    obtain o1 a1 where r1: "attempt_run env ops a = (o1, a1)" by force
    obtain ok a2 where r2: "attempt_exec env (Finalize (Some j)) a1 = (ok, a2)" by force
    have "ok \<in> set oks" using assms(1) r1 r2 by (auto simp: attempt_run_append Let_def split_beta simp del: attempt_exec.simps)
    then have ok using assms(2) by (auto simp: list_all_iff)
    with r2 show ?thesis using attempt_finalize_fits [of env j a1 a2] by simp
  qed
  have "data_ops (\<not> se_req_headers (new_session :: 'a session)) (\<not> se_resp_headers (new_session :: 'a session)) ops"
    "\<not> se_final (new_session :: 'a session)" using assms(3) by (simp_all add: new_session_def)
  from session_data_ops [OF assms(5,4) this, of "frames_bytes (op_frames ?i (Finalize (Some j)) @ op_frames ?i Commit)"]
  obtain s' :: "'a session" where s': "session_loop sv ?i sent new_session
      = session_loop sv ?i (frames_bytes (op_frames ?i (Finalize (Some j)) @ op_frames ?i Commit)) s'"
    "se_log s' = concat (map op_calls ops)" "\<not> se_final s'"
    unfolding sent by (auto simp: new_session_def simp del: op_frames.simps frames_bytes_simps)
  have "session_loop sv ?i sent new_session = stop (concat (map op_calls ops) @ [Sink_Finalize f, Sink_Commit]) True None"
    unfolding s'(1) session_tail [OF assms(5,4) s'(3) fits assms(6)] s'(2) ..
  then have log: "log = concat (map op_calls ops) @ [Sink_Finalize f, Sink_Commit]" "out = []"
    using assms(8) by (simp_all add: run_session_def stop_def)
  have "collect k [Sink_Finalize f, Sink_Commit] = []" for k by (simp add: collect_def)
  then show ?thesis using collect_data_ops [OF assms(3)] by (auto simp: log data_kind_def)
qed

section \<open>Opening a session\<close>

lemma conn_ok_write:
  assumes "env = (\<lambda>k. Conn_Ok)" "\<not> cn_closed c" "length p \<le> max_payload_bytes"
  obtains c' where "write_frame_with_absolute_deadline env h p c = (None, c')" "\<not> cn_closed c'"
    "cn_sent c' = cn_sent c @ frame_bytes h p"
  using write_frame_ok [of c env p h] assms by blast

lemma conn_ok_deadline:
  assumes "env = (\<lambda>k. Conn_Ok)" "\<not> cn_closed c"
  shows "\<exists>c'. set_read_deadline env c = (None, c') \<and> \<not> cn_closed c' \<and> cn_sent c' = cn_sent c"
  using assms(2) unfolding assms(1) by (simp add: set_read_deadline_def set_write_deadline_def conn_write_def)

text \<open>The bytes that \<open>Begin\<close> sends: the handshake and the begin frame.\<close>

definition begin_bytes :: "bytes \<Rightarrow> bytes \<Rightarrow> bytes" where
  "begin_bytes i p = frame_bytes (attempt_header kind_handshake uuid_nil) [] @ frame_bytes (attempt_header kind_begin i) p"

lemma uuid_nil_length [simp]: "length uuid_nil = 16"
  by (simp add: uuid_nil_def)

lemma reply_is_attempt_header: "reply_header = attempt_header"
  by (simp add: reply_header_def attempt_header_def fun_eq_iff)

lemma control_sendable:
  "sendable (attempt_header kind_handshake uuid_nil) []"
  "length i = 16 \<Longrightarrow> length p \<le> max_payload_bytes \<Longrightarrow> sendable (attempt_header kind_begin i) p"
  "length i = 16 \<Longrightarrow> sendable (attempt_header kind_protocol_error i) backpressure_rejection"
  by (simp_all add: attempt_header_sendable backpressure_rejection_def)

lemmas control_frames = read_frame_bytes [OF control_sendable(1)] read_frame_bytes [OF control_sendable(2)]
  read_frame_bytes [OF control_sendable(3)]

lemma attempt_header_fields [simp]:
  "hd_version (attempt_header k i) = protocol_version" "hd_kind (attempt_header k i) = k" "hd_capture (attempt_header k i) = i"
  by (simp_all add: attempt_header_def)

lemma client_begin_ok:
  assumes env: "env = (\<lambda>k. Conn_Ok)" and i: "length i = 16" "i \<noteq> uuid_nil" and p: "length p \<le> max_payload_bytes"
    and h: "read_frame rest = Inr (h, resp, r)"
  shows "\<exists>a. client_begin env False closed_later True i (Some p) (frame_bytes (attempt_header kind_handshake uuid_nil) [] @ rest)
      = (if hd_version h \<noteq> protocol_version then Inl (Frame_Error Invalid_Header)
         else if hd_kind h = kind_protocol_error then
           (if hd_capture h = i \<and> resp = backpressure_rejection then Inl IPC_Backpressure else Inl Begin_Rejected)
         else if hd_kind h \<noteq> kind_begin \<or> hd_capture h \<noteq> i \<or> resp \<noteq> [] then Inl (Frame_Error Invalid_Header)
         else if closed_later then Inl Client_Closed else Inr a)
     \<and> at_id a = i \<and> \<not> at_failed a \<and> at_tracked a \<and> attempt_ok a \<and> cn_sent (at_conn a) = begin_bytes i p"
proof -
  have c0: "\<not> cn_closed conn_open" "cn_sent conn_open = []" by (simp_all add: conn_open_def)
  obtain c1 where c1: "write_frame_with_absolute_deadline env (attempt_header kind_handshake uuid_nil) [] conn_open = (None, c1)"
    "\<not> cn_closed c1" "cn_sent c1 = cn_sent conn_open @ frame_bytes (attempt_header kind_handshake uuid_nil) []"
    using conn_ok_write [OF env c0(1), of "[]"] by auto
  obtain c2 where c2: "set_read_deadline env c1 = (None, c2)" "\<not> cn_closed c2" "cn_sent c2 = cn_sent c1"
    using conn_ok_deadline [OF env c1(2)] by blast
  obtain c3 where c3: "write_frame_with_absolute_deadline env (attempt_header kind_begin i) p c2 = (None, c3)"
    "\<not> cn_closed c3" "cn_sent c3 = cn_sent c2 @ frame_bytes (attempt_header kind_begin i) p"
    by (rule conn_ok_write [OF env c2(2) p])
  obtain c4 where c4: "set_read_deadline env c3 = (None, c4)" "\<not> cn_closed c4" "cn_sent c4 = cn_sent c3"
    using conn_ok_deadline [OF env c3(2)] by blast
  have o: "client_open env False True (frame_bytes (attempt_header kind_handshake uuid_nil) [] @ rest) = Inr (c2, rest)"
    using c1 c2 by (simp add: client_open_def control_frames)
  show ?thesis
    by (rule exI [of _ "\<lparr>at_id = i, at_conn = c4, at_failed = False, at_tracked = True\<rparr>"])
       (use o c0 c1 c2 c3 c4 i h in \<open>simp add: client_begin_def write_frame_locked_def attempt_ok_def begin_bytes_def\<close>)
qed

text \<open>
  Opening a session over a working connection: when the sidecar has a free slot and
  its factory accepts, the gateway's \<open>Begin\<close> yields a live, tracked attempt for the capture id;
  when all slots are taken, the sidecar's refusal is recognised and \<open>Begin\<close> reports
  \<open>ErrIPCBackpressure\<close>, which the caller counts as a dropped capture.
\<close>

theorem begin_answers:
  assumes "env = (\<lambda>k. Conn_Ok)" "length i = 16" "i \<noteq> uuid_nil" "length p \<le> max_payload_bytes"
    and "sv_decode_begin sv p = Some b" "sv_begin_id sv b = i" "sv_open sv b" "sv_write_ok sv 0" "sv_write_ok sv 1"
  shows "(\<exists>a. client_begin env False False True i (Some p) (frames_bytes (snd (handle_connection sv (begin_bytes i p)))) = Inr a
       \<and> attempt_ok a \<and> at_id a = i \<and> \<not> at_failed a \<and> at_tracked a)
    \<and> client_begin env False False True i (Some p) (frames_bytes (reject_overloaded_connection sv (begin_bytes i p)))
       = Inl IPC_Backpressure"
proof -
  let ?hs = "frame_bytes (attempt_header kind_handshake uuid_nil) []"
  have "frames_bytes (reject_overloaded_connection sv (begin_bytes i p)) = ?hs @ frame_bytes (attempt_header kind_protocol_error i) backpressure_rejection @ []"
    using assms(2-6,8) control_frames(2) [of i p "[]"]
    by (simp add: reject_overloaded_connection_def begin_bytes_def control_frames reply_is_attempt_header)
  moreover have "read_frame (frame_bytes (attempt_header kind_protocol_error i) backpressure_rejection @ [])
     = Inr (attempt_header kind_protocol_error i\<lparr>hd_length := of_nat (length backpressure_rejection)\<rparr>, backpressure_rejection, [])"
    using assms(2) by (rule control_frames(3))
  ultimately have o: "client_begin env False False True i (Some p) (frames_bytes (reject_overloaded_connection sv (begin_bytes i p)))
       = Inl IPC_Backpressure"
    using client_begin_ok [OF assms(1-4), of "frame_bytes (attempt_header kind_protocol_error i) backpressure_rejection @ []" _ _ _ False]
    by auto
  obtain rest where hc: "frames_bytes (snd (handle_connection sv (begin_bytes i p))) = ?hs @ frame_bytes (attempt_header kind_begin i) [] @ rest"
    using assms(2-9) control_frames(2) [of i p "[]"]
    by (simp add: handle_connection_def handle_begin_def begin_bytes_def control_frames reply_is_attempt_header split_beta)
  have "read_frame (frame_bytes (attempt_header kind_begin i) [] @ rest) = Inr (attempt_header kind_begin i\<lparr>hd_length := of_nat (length ([] :: bytes))\<rparr>, [], rest)"
    using assms(2) by (intro control_frames(2)) simp_all
  from client_begin_ok [OF assms(1-4) this, of False] hc o show ?thesis by auto
qed

section \<open>Admission\<close>

definition server_ok :: "server \<Rightarrow> bool" where
  "server_ok s \<longleftrightarrow> sr_slots s = length (sr_conns s) \<and> sr_active s = int (length (sr_conns s))
     \<and> distinct (sr_conns s) \<and> sr_slots s \<le> sr_max s \<and> 0 < sr_max s \<and> sr_max s \<le> 32"

lemma length_filter_neq: "distinct xs \<Longrightarrow> c \<in> set xs \<Longrightarrow> length (filter (\<lambda>x. x \<noteq> c) xs) = length xs - 1"
proof -
  assume d: "distinct xs" "c \<in> set xs"
  have "filter (\<lambda>x. x \<noteq> c) xs = remove1 c xs"
    using distinct_remove1_removeAll [OF d(1)] by (simp add: removeAll_filter_not_eq eq_commute)
  with d show ?thesis by (simp add: length_remove1)
qed

text \<open>
  The sidecar never serves more connections than its limit (at most 32): in every
  reachable state the semaphore, the handler count and the table of connections agree, and a new
  connection is served exactly when the server is open and a slot is free.
\<close>

theorem server_admission:
  assumes "server_reach m s"
  shows "server_ok s \<and> (fst (server_accept c s) = Served \<longleftrightarrow> \<not> sr_closed s \<and> length (sr_conns s) < sr_max s)"
proof -
  have ok: "server_ok s" using assms
  proof (induction rule: server_reach.induct)
    case (finish s c)
    then have "0 < length (sr_conns s)" by auto
    with finish show ?case
      by (auto simp: server_ok_def server_done_def untrack_connection_def length_filter_neq Let_def int_minus)
  qed (auto simp: server_ok_def new_server_def server_accept_def track_connection_def server_close_def split: if_splits)
  then show ?thesis by (auto simp: server_ok_def server_accept_def track_connection_def)
qed

section \<open>Concrete runs\<close>

abbreviation live_attempt :: "attempt \<Rightarrow> bool" where
  "live_attempt a \<equiv> \<not> at_failed a \<and> \<not> cn_closed (at_conn a)"

lemma write_frame_locked_live:
  assumes "live_attempt a" "length p \<le> max_payload_bytes"
  shows "\<exists>a'. write_frame_locked (\<lambda>k. Conn_Ok) k p a = (True, a') \<and> live_attempt a'"
proof -
  obtain c where "write_frame_with_absolute_deadline (\<lambda>k. Conn_Ok) (attempt_header k (at_id a)) p (at_conn a) = (None, c)" "\<not> cn_closed c"
    using conn_ok_write [of "\<lambda>k. Conn_Ok" "at_conn a" p] assms by auto
  with assms show ?thesis by (simp add: write_frame_locked_def)
qed

lemma write_chunks_live:
  "live_attempt a \<Longrightarrow> \<exists>a'. write_chunks (\<lambda>k. Conn_Ok) k p a = (True, a') \<and> live_attempt a'"
proof (induction "\<lambda>k :: nat. Conn_Ok" k p a rule: write_chunks.induct)
  case (1 k p a)
  show ?case
  proof (cases "p = []")
    case False
    let ?n = "if length p > max_payload_bytes then max_payload_bytes else length p"
    have n: "length (take ?n p) \<le> max_payload_bytes" by auto
    obtain a1 where w: "write_frame_locked (\<lambda>k. Conn_Ok) k (take ?n p) a = (True, a1)" "live_attempt a1"
      using write_frame_locked_live [OF 1(2) n] by blast
    from 1(1) [OF False refl w(1) [symmetric] _ w(2)] False w(1) show ?thesis
      by (subst write_chunks.simps) simp
  qed (use 1(2) in \<open>simp add: write_chunks.simps\<close>)
qed

lemma attempt_exec_live:
  assumes "live_attempt a" "op \<noteq> Commit" "op \<noteq> Abort" "\<And>j. op = Finalize j \<Longrightarrow> \<exists>p. j = Some p \<and> length p \<le> max_payload_bytes"
  shows "\<exists>a'. attempt_exec (\<lambda>k. Conn_Ok) op a = (True, a') \<and> live_attempt a'"
  using assms write_frame_locked_live [OF assms(1)] write_chunks_live [OF assms(1)]
  by (cases op) (auto simp: write_payload_def attempt_finalize_def)

lemma attempt_commit_live:
  assumes "live_attempt a"
  shows "\<exists>a'. attempt_exec (\<lambda>k. Conn_Ok) Commit a = (True, a')"
  using assms write_frame_locked_live [OF assms, of "[]" kind_commit] by (auto simp: attempt_commit_def)

definition demo_attempt :: attempt where
  "demo_attempt = \<lparr>at_id = replicate 16 1, at_conn = conn_open, at_failed = False, at_tracked = True\<rparr>"

definition demo_server :: "(bytes, bytes) server_env" where
  "demo_server = \<lparr>sv_sink = (\<lambda>l c. Call_Ok), sv_decode_begin = (\<lambda>p. Some (replicate 16 1)), sv_begin_id = id,
     sv_decode_final = Some, sv_open = (\<lambda>b. True), sv_status = None, sv_write_ok = (\<lambda>k. True)\<rparr>"

lemma demo_id_not_nil: "replicate 16 1 \<noteq> uuid_nil"
  by (simp add: uuid_nil_def replicate_eq_replicate)

lemma demo_attempt_run:
  "\<exists>a'. attempt_run (\<lambda>k. Conn_Ok) [Write_Req [1, 2], Finalize (Some [7]), Commit] demo_attempt = ([True, True, True], a')"
proof -
  have l: "live_attempt demo_attempt" by (simp add: demo_attempt_def conn_open_def)
  obtain a1 where 1: "attempt_exec (\<lambda>k. Conn_Ok) (Write_Req [1, 2]) demo_attempt = (True, a1)" "live_attempt a1"
    using attempt_exec_live [OF l, of "Write_Req [1, 2]"] by auto
  obtain a2 where 2: "attempt_exec (\<lambda>k. Conn_Ok) (Finalize (Some [7])) a1 = (True, a2)" "live_attempt a2"
    using attempt_exec_live [OF 1(2), of "Finalize (Some [7])"] by auto
  obtain a3 where "attempt_exec (\<lambda>k. Conn_Ok) Commit a2 = (True, a3)" using attempt_commit_live [OF 2(2)] by auto
  with 1 2 show ?thesis by (simp del: attempt_exec.simps)
qed

theorem attempt_run_sends_witness:
  "\<exists>a'. attempt_run (\<lambda>k. Conn_Ok) [Write_Req [1, 2], Finalize (Some [7]), Commit] demo_attempt = ([True, True, True], a')
     \<and> cn_sent (at_conn a') = frames_bytes (concat (map (op_frames (replicate 16 1)) [Write_Req [1, 2], Finalize (Some [7]), Commit]))"
proof -
  obtain a' where r: "attempt_run (\<lambda>k. Conn_Ok) [Write_Req [1, 2], Finalize (Some [7]), Commit] demo_attempt = ([True, True, True], a')"
    using demo_attempt_run by blast
  from attempt_run_sends [OF r] have "cn_sent (at_conn a') = frames_bytes (concat (map (op_frames (replicate 16 1)) [Write_Req [1, 2], Finalize (Some [7]), Commit]))"
    by (simp add: demo_attempt_def conn_open_def del: op_frames.simps)
  with r show ?thesis by blast
qed

theorem capture_end_to_end_witness:
  "\<exists>a' log. attempt_run (\<lambda>k. Conn_Ok) [Write_Req [1, 2], Finalize (Some [7]), Commit] demo_attempt = ([True, True, True], a')
     \<and> run_session demo_server (replicate 16 1) (cn_sent (at_conn a')) = (log, []) \<and> collect kind_request_chunk log = [1, 2]"
proof -
  obtain a' where r: "attempt_run (\<lambda>k. Conn_Ok) ([Write_Req [1, 2]] @ [Finalize (Some [7]), Commit]) demo_attempt = ([True, True, True], a')"
    using demo_attempt_run by auto
  obtain log out where s: "run_session demo_server (at_id demo_attempt) (cn_sent (at_conn a')) = (log, out)" by force
  have c: "cn_sent (at_conn a') = cn_sent (at_conn demo_attempt) @ cn_sent (at_conn a')"
    by (simp add: demo_attempt_def conn_open_def)
  have d: "sv_sink demo_server l c = Call_Ok" "sv_decode_final demo_server [7] = Some [7]" for l c
    by (simp_all add: demo_server_def)
  have "length (at_id demo_attempt) = 16" by (simp add: demo_attempt_def)
  from capture_end_to_end [OF r _ _ this d c s] have "out = []" "collect kind_request_chunk log = [1, 2]" by simp_all
  with r s show ?thesis by (auto simp: demo_attempt_def)
qed

theorem failed_attempt_silent_witness:
  "attempt_run (\<lambda>k. Conn_Ok) [Write_Req [1], Commit] (fail_locked demo_attempt) = ([False, False], fail_locked demo_attempt)"
  using failed_attempt_silent [of "fail_locked demo_attempt" "\<lambda>k. Conn_Ok" "[Write_Req [1], Commit]"]
  by (simp add: attempt_ok_def demo_attempt_def fail_locked_def conn_open_def)

theorem frames_round_trip_witness:
  "read_frames 1 (frame_bytes (attempt_header kind_commit uuid_nil) []) = [(attempt_header kind_commit uuid_nil, [])]"
  using frames_round_trip [of "[(attempt_header kind_commit uuid_nil, [])]" "[]"]
  by (simp add: sendable_def attempt_header_def)

theorem write_frame_exact_witness:
  "cn_sent (snd (write_frame_with_absolute_deadline (\<lambda>k. Conn_Ok) (attempt_header kind_commit uuid_nil) [] conn_open))
     = frame_bytes (attempt_header kind_commit uuid_nil) []"
proof -
  obtain c where c: "write_frame_with_absolute_deadline (\<lambda>k. Conn_Ok) (attempt_header kind_commit uuid_nil) [] conn_open = (None, c)"
    using conn_ok_write [OF refl, of conn_open "[]" "attempt_header kind_commit uuid_nil"] by (auto simp: conn_open_def)
  from write_frame_exact [OF c] c show ?thesis by (simp add: conn_open_def)
qed

theorem session_calls_disciplined_witness:
  "\<exists>log. fst (handle_connection demo_server (begin_bytes (replicate 16 1) [])) = Some log \<and> closed_log demo_server log"
proof -
  obtain log out where h: "handle_connection demo_server (begin_bytes (replicate 16 1) []) = (Some log, out)"
    using control_frames(2) [of "replicate 16 1" "[]" "[]"] demo_id_not_nil
    by (auto simp: handle_connection_def handle_begin_def begin_bytes_def control_frames demo_server_def split_beta)
  from session_calls_disciplined [OF h] h show ?thesis by simp
qed

theorem begin_answers_witness:
  "client_begin (\<lambda>k. Conn_Ok) False False True (replicate 16 1) (Some []) (frames_bytes
      (reject_overloaded_connection demo_server (begin_bytes (replicate 16 1) []))) = Inl IPC_Backpressure"
  using begin_answers [of "\<lambda>k. Conn_Ok" "replicate 16 1" "[]" demo_server "replicate 16 1"]
    demo_id_not_nil by (simp add: demo_server_def)

theorem server_admission_witness:
  "fst (server_accept 5 (new_server 4)) = Served"
  using server_admission [OF server_reach.init, of 4 5] by (simp add: new_server_def)

end
