(* ===== verification/Money.thy ===== *)
theory Money
  imports Complex_Main Prelude
begin

text \<open>
  Decimal amounts. Package \<open>decimal\<close> and the columns of type \<open>NUMERIC\<close> compute with exact decimals,
  which are rational numbers here, and round where a result is cut to a number of places. An
  amount is \<open>scaled\<close> when it has at most eight decimal places, the scale of the money columns
  (\<open>NUMERIC(20,8)\<close>): sums and differences of scaled amounts are stored as they are, and a comparison
  with the tolerance \<open>1e-9\<close> of the code is then an exact comparison.
\<close>

section \<open>Rounding\<close>

definition trunc_rat :: "rat \<Rightarrow> int" where
  "trunc_rat q = (if q < 0 then \<lceil>q\<rceil> else \<lfloor>q\<rfloor>)"

text \<open>\<open>RoundUp\<close> of package \<open>decimal\<close> rounds away from zero, \<open>StringFixed\<close> to nearest, half away from zero.\<close>

definition round_up :: "rat \<Rightarrow> nat \<Rightarrow> rat" where
  "round_up q n = (let s = q * 10 ^ n in of_int (if s < 0 then \<lfloor>s\<rfloor> else \<lceil>s\<rceil>) / 10 ^ n)"

definition fixed :: "rat \<Rightarrow> nat \<Rightarrow> rat" where
  "fixed q n = (let s = q * 10 ^ n in
     of_int (if s < 0 then - \<lfloor>- s + 1/2\<rfloor> else \<lfloor>s + 1/2\<rfloor>) / 10 ^ n)"

section \<open>The scale of the money columns\<close>

definition money :: "rat \<Rightarrow> rat" where
  "money q = fixed q 8"

definition scaled :: "rat \<Rightarrow> bool" where
  "scaled q \<longleftrightarrow> of_int \<lfloor>q * 10 ^ 8\<rfloor> = q * 10 ^ 8"

definition eps :: rat where "eps = 1 / 10 ^ 9"

lemma scaledI: "q * 10 ^ 8 = of_int k \<Longrightarrow> scaled q"
  by (simp add: scaled_def)

lemma scaledE:
  assumes "scaled q" obtains k where "q * 10 ^ 8 = of_int k"
  using assms unfolding scaled_def by metis

lemma scaled_0 [simp]: "scaled 0"
  by (simp add: scaled_def)

lemma scaled_of_int [simp]: "scaled (of_int k)"
  by (rule scaledI [of _ "k * 10 ^ 8"]) simp

lemma scaled_numeral [simp]: "scaled 1" "scaled (numeral n)"
  using scaled_of_int [of 1] scaled_of_int [of "numeral n"] by simp_all

lemma scaled_add [intro]: "scaled a \<Longrightarrow> scaled b \<Longrightarrow> scaled (a + b)"
  by (elim scaledE) (rule scaledI [of _ "k + ka" for k ka], simp only: ring_distribs of_int_add)

lemma scaled_minus [intro]: "scaled a \<Longrightarrow> scaled (- a)"
  by (elim scaledE) (rule scaledI [of _ "- k" for k], simp only: minus_mult_left [symmetric] of_int_minus)

lemma scaled_diff [intro]: "scaled a \<Longrightarrow> scaled b \<Longrightarrow> scaled (a - b)"
  using scaled_add [of a "- b"] by auto

lemma scaled_sum_list: "(\<And>x. x \<in> set xs \<Longrightarrow> scaled (f x)) \<Longrightarrow> scaled (sum_list (map f xs))"
  by (induction xs) auto

lemma floor_half: "\<lfloor>of_int k + 1 / 2 :: rat\<rfloor> = k"
  by (simp add: floor_eq_iff)

lemma fixed_of_int: "q * 10 ^ n = of_int k \<Longrightarrow> fixed q n = q"
  using floor_half [of k] floor_half [of "- k"]
  by (simp add: fixed_def Let_def of_int_minus nonzero_eq_divide_eq [symmetric] del: of_int_floor)

lemma money_id [simp]: "scaled q \<Longrightarrow> money q = q"
  by (elim scaledE) (simp add: money_def fixed_of_int)

lemma scaled_money [simp, intro]: "scaled (money q)"
proof -
  obtain k :: int where "money q = of_int k / 10 ^ 8"
    unfolding money_def fixed_def Let_def by blast
  thus ?thesis by (intro scaledI [of _ k]) simp
qed

lemma floor_half_error: "\<bar>of_int \<lfloor>x + 1 / 2\<rfloor> - x\<bar> \<le> (1 / 2 :: rat)"
  using floor_correct [of "x + 1 / 2"] unfolding abs_le_iff of_int_add of_int_1 by linarith

lemma fixed_error: "\<bar>fixed q n - q\<bar> \<le> 1 / (2 * 10 ^ n)"
proof -
  define s where "s = q * 10 ^ n"
  define r where "r = (if s < 0 then - \<lfloor>- s + 1/2\<rfloor> else \<lfloor>s + 1/2\<rfloor>)"
  have "\<bar>of_int r - s\<bar> \<le> 1 / 2"
  proof (cases "s < 0")
    case True
    hence "of_int r = - (of_int \<lfloor>- s + 1/2\<rfloor> :: rat)" by (simp only: r_def if_True of_int_minus)
    thus ?thesis using floor_half_error [of "- s"] by linarith
  next
    case False
    hence "r = \<lfloor>s + 1/2\<rfloor>" by (simp only: r_def if_False)
    thus ?thesis using floor_half_error [of s] by (simp only:)
  qed
  moreover have "fixed q n - q = (of_int r - s) / 10 ^ n"
    unfolding fixed_def Let_def r_def s_def by (simp add: diff_divide_distrib)
  ultimately show ?thesis by (simp only: abs_divide) (simp add: divide_le_eq)
qed

lemma money_error: "\<bar>money q - q\<bar> \<le> 1 / (2 * 10 ^ 8)"
  unfolding money_def by (rule fixed_error)

lemma fixed_mono: "0 \<le> p \<Longrightarrow> p \<le> q \<Longrightarrow> fixed p n \<le> fixed q n"
proof -
  assume h: "0 \<le> p" "p \<le> q"
  have "p * 10 ^ n + 1 / 2 \<le> q * 10 ^ n + 1 / 2" using h by (simp add: mult_right_mono)
  then have "\<lfloor>p * 10 ^ n + 1 / 2\<rfloor> \<le> \<lfloor>q * 10 ^ n + 1 / 2\<rfloor>" by (rule floor_mono)
  moreover have "\<not> p * 10 ^ n < 0" "\<not> q * 10 ^ n < 0" using h by (simp_all add: not_less)
  ultimately show ?thesis by (simp add: fixed_def Let_def divide_right_mono)
qed

lemma fixed_nonneg: "0 \<le> q \<Longrightarrow> 0 \<le> fixed q n"
  using fixed_mono [of 0 q n] fixed_of_int [of 0 n 0] by simp

lemma scaled_gap: "scaled a \<Longrightarrow> scaled b \<Longrightarrow> a < b \<Longrightarrow> a + 1 / 10 ^ 8 \<le> b"
proof (elim scaledE)
  fix i j assume i: "a * 10 ^ 8 = of_int i" and j: "b * 10 ^ 8 = of_int j" and ab: "a < b"
  have "a * 10 ^ 8 < b * 10 ^ 8" using ab by simp
  hence "i + 1 \<le> j" unfolding i j of_int_less_iff by simp
  hence "(of_int (i + 1) :: rat) \<le> of_int j" by (simp only: of_int_le_iff)
  hence "(of_int i :: rat) + 1 \<le> of_int j" by simp
  hence "a * 10 ^ 8 + 1 \<le> b * 10 ^ 8" unfolding i j .
  thus ?thesis by simp
qed

lemma eps_less_iff [simp]: "scaled a \<Longrightarrow> scaled b \<Longrightarrow> a + eps < b \<longleftrightarrow> a < b"
  using scaled_gap [of a b] by (auto simp: eps_def)

lemma eps_le_iff [simp]: "scaled a \<Longrightarrow> scaled b \<Longrightarrow> b \<le> a + eps \<longleftrightarrow> b \<le> a"
  using eps_less_iff [of a b] by linarith

lemma le_eps_iff [simp]: "scaled a \<Longrightarrow> a \<le> eps \<longleftrightarrow> a \<le> 0"
  using eps_le_iff [of 0 a] by simp

end
