(* ===== verification/Payment_Types.thy ===== *)
theory Payment_Types
  imports Money App_Errors
begin

text \<open>
  The data and the pure rules of the payment subsystem: currencies and fees
  (\<open>internal/payment/currency.go\<close>, \<open>fee.go\<close>), payment types and order states
  (\<open>internal/payment/types.go\<close>), the provider snapshot of an order and the checks of a
  notification against it (\<open>internal/service/payment_order_provider_snapshot.go\<close>,
  \<open>payment_currency.go\<close>, \<open>payment_fulfillment.go\<close>), redeem codes (\<open>internal/service/redeem_code.go\<close>).

  Amounts are decimals in the database and in package \<open>decimal\<close> and are rational numbers here;
  a \<open>float64\<close> that comes from a provider may also be infinite or not a number. Rounding of
  \<open>float64\<close> itself is not modelled. \<open>strings.EqualFold\<close> is modelled on ASCII letters.
\<close>

section \<open>Currencies\<close>

record amount_unit =
  api_minor_unit :: nat
  max_fraction_digits :: nat

definition zero_decimal_unit :: amount_unit where
  "zero_decimal_unit = \<lparr>api_minor_unit = 0, max_fraction_digits = 0\<rparr>"
definition two_decimal_unit :: amount_unit where
  "two_decimal_unit = \<lparr>api_minor_unit = 2, max_fraction_digits = 2\<rparr>"
definition three_decimal_unit :: amount_unit where
  "three_decimal_unit = \<lparr>api_minor_unit = 3, max_fraction_digits = 3\<rparr>"
definition stripe_legacy_zero :: amount_unit where
  "stripe_legacy_zero = \<lparr>api_minor_unit = 2, max_fraction_digits = 0\<rparr>"

definition payment_currency_amount_units :: "(string \<times> amount_unit) list" where
  "payment_currency_amount_units =
     map (\<lambda>c. (c, zero_decimal_unit)) [''BIF'', ''CLP'', ''DJF'', ''GNF'', ''JPY'', ''KMF'', ''KRW'',
       ''MGA'', ''PYG'', ''RWF'', ''VND'', ''VUV'', ''XAF'', ''XOF'', ''XPF''] @
     map (\<lambda>c. (c, stripe_legacy_zero)) [''ISK'', ''UGX''] @
     map (\<lambda>c. (c, three_decimal_unit)) [''BHD'', ''IQD'', ''JOD'', ''KWD'', ''LYD'', ''OMR'', ''TND'']"

abbreviation default_payment_currency :: string where "default_payment_currency \<equiv> ''CNY''"

definition err_currency :: go_error where
  "err_currency = Other_Error ''payment currency must be a 3-letter ISO currency code'' None"

definition normalize_payment_currency :: "string \<Rightarrow> go_error + string" where
  "normalize_payment_currency raw = (let currency = to_upper (trim_space raw) in
     if currency = [] then Inr default_payment_currency
     else if length currency \<noteq> 3 then Inl err_currency
     else if list_all (\<lambda>ch. 65 \<le> byte ch \<and> byte ch \<le> 90) currency then Inr currency
     else Inl err_currency)"

definition payment_currency_amount_unit_for :: "string \<Rightarrow> amount_unit" where
  "payment_currency_amount_unit_for currency = (case normalize_payment_currency currency of
     Inl _ \<Rightarrow> two_decimal_unit
   | Inr n \<Rightarrow> (case map_of payment_currency_amount_units n of
       Some u \<Rightarrow> u | None \<Rightarrow> two_decimal_unit))"

definition currency_minor_unit :: "string \<Rightarrow> nat" where
  "currency_minor_unit c = api_minor_unit (payment_currency_amount_unit_for c)"

definition currency_max_fraction_digits :: "string \<Rightarrow> nat" where
  "currency_max_fraction_digits c = max_fraction_digits (payment_currency_amount_unit_for c)"

text \<open>
  \<open>parse\<close> is \<open>decimal.NewFromString\<close>. \<open>Truncate(0)\<close> cuts towards zero and \<open>IntPart\<close> is the
  64-bit conversion of the integer part.
\<close>

definition amount_to_minor_unit :: "(string \<Rightarrow> rat option) \<Rightarrow> string \<Rightarrow> string \<Rightarrow> go_error + int" where
  "amount_to_minor_unit parse amount_str currency =
     (case parse (trim_space amount_str) of
        None \<Rightarrow> Inl (Other_Error ''invalid amount'' None)
      | Some d \<Rightarrow> (case normalize_payment_currency currency of
          Inl e \<Rightarrow> Inl e
        | Inr normalized \<Rightarrow>
            let u = payment_currency_amount_unit_for normalized;
                scaled = d * 10 ^ max_fraction_digits u
            in if scaled \<noteq> of_int (trunc_rat scaled)
               then Inl (Other_Error (if max_fraction_digits u = 0
                      then ''payment amount must be a whole number''
                      else ''payment amount has too many decimal places'') None)
               else Inr (wrap64 (trunc_rat (d * 10 ^ api_minor_unit u)))))"

definition minor_unit_to_amount :: "int \<Rightarrow> string \<Rightarrow> rat" where
  "minor_unit_to_amount v currency = of_int v / 10 ^ currency_minor_unit currency"

definition calculate_pay_amount_for_currency :: "rat \<Rightarrow> rat \<Rightarrow> string \<Rightarrow> rat" where
  "calculate_pay_amount_for_currency amount fee_rate currency =
     (let digits = currency_max_fraction_digits currency in
      if fee_rate \<le> 0 then fixed amount digits
      else fixed (amount + round_up (amount * fee_rate / 100) digits) digits)"

definition calculate_pay_amount :: "rat \<Rightarrow> rat \<Rightarrow> rat" where
  "calculate_pay_amount amount fee_rate =
     calculate_pay_amount_for_currency amount fee_rate default_payment_currency"

section \<open>Payment types and order states\<close>

abbreviation "TypeAlipay \<equiv> ''alipay''"
abbreviation "TypeWxpay \<equiv> ''wxpay''"
abbreviation "TypeStripe \<equiv> ''stripe''"
abbreviation "TypeEasyPay \<equiv> ''easypay''"
abbreviation "TypeIkunPay \<equiv> ''ikunpay''"
abbreviation "TypeAirwallex \<equiv> ''airwallex''"

definition get_base_payment_type :: "string \<Rightarrow> string" where
  "get_base_payment_type t =
     (if t = TypeEasyPay then TypeEasyPay
      else if t = TypeIkunPay then TypeIkunPay
      else if t = TypeAirwallex then TypeAirwallex
      else if t = TypeStripe \<or> t = ''card'' \<or> t = ''link'' then TypeStripe
      else if 6 \<le> length t \<and> take 6 t = TypeAlipay then TypeAlipay
      else if 5 \<le> length t \<and> take 5 t = TypeWxpay then TypeWxpay
      else t)"

datatype order_status = OS_Pending | OS_Paid | OS_Recharging | OS_Completed | OS_Expired
  | OS_Cancelled | OS_Failed | OS_Refund_Requested | OS_Refunding | OS_Refund_Pending
  | OS_Partially_Refunded | OS_Refunded | OS_Refund_Failed

fun ps_is_refund_status :: "order_status \<Rightarrow> bool" where
  "ps_is_refund_status s = (s \<in> {OS_Refund_Requested, OS_Refunding, OS_Refund_Pending,
     OS_Partially_Refunded, OS_Refunded, OS_Refund_Failed})"

text \<open>The values of the JSON object \<open>provider_snapshot\<close>; \<open>SV_Int\<close> is a number after conversion to \<open>int\<close>.\<close>

datatype snap_value = SV_Str string | SV_Int int | SV_Other

record payment_order =
  po_id :: int
  po_user :: int
  po_amount :: rat
  po_pay_amount :: rat
  po_bonus :: rat
  po_recharge_code :: string
  po_out_trade_no :: string
  po_payment_type :: string
  po_trade_no :: string
  po_order_type :: string
  po_plan :: "int option"
  po_group :: "int option"
  po_days :: "int option"
  po_status :: order_status
  po_provider_key :: "string option"
  po_provider_instance :: "string option"
  po_snapshot :: "(string \<times> snap_value) list"
  po_expires :: time
  po_paid_at :: "time option"
  po_completed_at :: "time option"
  po_failed_at :: "time option"
  po_failed_reason :: "go_error option"
  po_updated :: time

section \<open>Provider snapshots\<close>

definition equal_fold :: "string \<Rightarrow> string \<Rightarrow> bool" where
  "equal_fold a b \<longleftrightarrow> to_lower a = to_lower b"

definition ps_string_value :: "string option \<Rightarrow> string" where
  "ps_string_value v = (case v of None \<Rightarrow> [] | Some s \<Rightarrow> s)"

fun ps_snapshot_string_value :: "snap_value option \<Rightarrow> string" where
  "ps_snapshot_string_value (Some (SV_Str s)) = trim_space s"
| "ps_snapshot_string_value _ = []"

fun ps_snapshot_int_value :: "snap_value option \<Rightarrow> int" where
  "ps_snapshot_int_value (Some (SV_Int n)) = n"
| "ps_snapshot_int_value (Some (SV_Str s)) = (case atoi (trim_space s) of Some n \<Rightarrow> n | None \<Rightarrow> 0)"
| "ps_snapshot_int_value _ = 0"

record provider_snapshot =
  sn_schema_version :: int
  sn_instance_id :: string
  sn_provider_key :: string
  sn_payment_mode :: string
  sn_merchant_app_id :: string
  sn_merchant_id :: string
  sn_currency :: string

definition ps_order_provider_snapshot :: "payment_order \<Rightarrow> provider_snapshot option" where
  "ps_order_provider_snapshot ord = (let m = po_snapshot ord in
     if m = [] then None
     else let sn = \<lparr>sn_schema_version = ps_snapshot_int_value (map_of m ''schema_version''),
                 sn_instance_id = ps_snapshot_string_value (map_of m ''provider_instance_id''),
                 sn_provider_key = ps_snapshot_string_value (map_of m ''provider_key''),
                 sn_payment_mode = ps_snapshot_string_value (map_of m ''payment_mode''),
                 sn_merchant_app_id = ps_snapshot_string_value (map_of m ''merchant_app_id''),
                 sn_merchant_id = ps_snapshot_string_value (map_of m ''merchant_id''),
                 sn_currency = ps_snapshot_string_value (map_of m ''currency'')\<rparr>
          in if sn_schema_version sn = 0 \<and> sn_instance_id sn = [] \<and> sn_provider_key sn = [] \<and>
                sn_payment_mode sn = [] \<and> sn_merchant_app_id sn = [] \<and> sn_merchant_id sn = [] \<and>
                sn_currency sn = []
             then None else Some sn)"

definition payment_order_currency :: "payment_order \<Rightarrow> string" where
  "payment_order_currency ord = (case ps_order_provider_snapshot ord of
     Some sn \<Rightarrow> (case normalize_payment_currency (sn_currency sn) of
       Inr c \<Rightarrow> c | Inl _ \<Rightarrow> default_payment_currency)
   | None \<Rightarrow> default_payment_currency)"

definition snapshot_error :: "string \<Rightarrow> go_error option" where
  "snapshot_error m = Some (Other_Error m None)"

text \<open>
  One comparison of \<open>validateProviderSnapshotMetadata\<close>: the expected value, when there is one, is
  required in the metadata of the notification.
\<close>

definition metadata_at :: "(string \<times> string) list \<Rightarrow> string \<Rightarrow> string" where
  "metadata_at md k = (case map_of md k of None \<Rightarrow> [] | Some v \<Rightarrow> v)"

definition check_expected :: "string \<Rightarrow> string \<Rightarrow> string \<Rightarrow> go_error option" where
  "check_expected what expected actual =
     (if expected = [] then None
      else if actual = [] then snapshot_error (what @ '' missing'')
      else if \<not> equal_fold expected actual then snapshot_error (what @ '' mismatch'')
      else None)"

definition check_state :: "string \<Rightarrow> string \<Rightarrow> string \<Rightarrow> go_error option" where
  "check_state what expected actual =
     (if actual \<noteq> [] \<and> \<not> equal_fold actual expected then snapshot_error (what @ '' mismatch'')
      else None)"

fun first_error :: "go_error option list \<Rightarrow> go_error option" where
  "first_error [] = None"
| "first_error (None # es) = first_error es"
| "first_error (Some e # es) = Some e"

definition validate_provider_snapshot_metadata ::
  "payment_order \<Rightarrow> string \<Rightarrow> (string \<times> string) list \<Rightarrow> go_error option" where
  "validate_provider_snapshot_metadata ord provider_key metadata =
     (if metadata = [] then None
      else case ps_order_provider_snapshot ord of None \<Rightarrow> None
      | Some sn \<Rightarrow>
        let fld = (\<lambda>k. trim_space (metadata_at metadata k));
            app = trim_space (sn_merchant_app_id sn); mid = trim_space (sn_merchant_id sn);
            cur = trim_space (sn_currency sn); pk = trim_space provider_key
        in if pk = TypeWxpay then
             first_error [check_expected ''wxpay appid'' app (fld ''appid''),
               check_expected ''wxpay mchid'' mid (fld ''mchid''),
               check_expected ''wxpay currency'' cur (to_upper (fld ''currency'')),
               check_state ''wxpay trade_state'' ''SUCCESS'' (fld ''trade_state'')]
           else if pk = TypeAlipay then check_expected ''alipay app_id'' app (fld ''app_id'')
           else if pk = TypeEasyPay then check_expected ''easypay pid'' mid (fld ''pid'')
           else if pk = TypeIkunPay then check_expected ''ikunpay pid'' mid (fld ''pid'')
           else if pk = TypeStripe then
             check_expected ''stripe currency'' cur (to_upper (fld ''currency''))
           else if pk = TypeAirwallex then
             first_error [check_expected ''airwallex account_id'' mid (fld ''account_id''),
               check_expected ''airwallex currency'' cur (to_upper (fld ''currency'')),
               check_state ''airwallex status'' ''SUCCEEDED'' (fld ''status'')]
           else None)"

section \<open>Provider instances\<close>

record provider_instance =
  pi_id :: int
  pi_provider_key :: string
  pi_supported_types :: string

definition normalize_visible_method_support_type :: "string \<Rightarrow> string" where
  "normalize_visible_method_support_type t = (let p = trim_space t in
     if p = TypeAlipay \<or> p = ''alipay_direct'' then TypeAlipay
     else if p = TypeWxpay \<or> p = ''wxpay_direct'' then TypeWxpay
     else p)"

fun split_on :: "char \<Rightarrow> string \<Rightarrow> string list" where
  "split_on d [] = [[]]"
| "split_on d (c # cs) = (if c = d then [] # split_on d cs
     else case split_on d cs of [] \<Rightarrow> [[c]] | w # ws \<Rightarrow> (c # w) # ws)"

definition instance_supports_type :: "string \<Rightarrow> string \<Rightarrow> bool" where
  "instance_supports_type supported_types target \<longleftrightarrow> supported_types = [] \<or>
     list_ex (\<lambda>t. let supported = trim_space t in supported = target \<or>
       normalize_visible_method_support_type supported = normalize_visible_method_support_type target)
       (split_on (CHR '','') supported_types)"

definition ps_legacy_order_matches_instance :: "string \<Rightarrow> provider_instance \<Rightarrow> bool" where
  "ps_legacy_order_matches_instance order_payment_type inst =
     (let base = get_base_payment_type (trim_space order_payment_type);
          key = trim_space (pi_provider_key inst)
      in if base = [] then False
         else if base = TypeStripe then key = TypeStripe
         else if key = TypeStripe then False
         else if key = base then True
         else instance_supports_type (pi_supported_types inst) base)"

definition ps_filter_legacy_order_provider_instances ::
  "string \<Rightarrow> provider_instance list \<Rightarrow> provider_instance list" where
  "ps_filter_legacy_order_provider_instances order_payment_type instances =
     (if trim_space order_payment_type = [] then instances
      else filter (ps_legacy_order_matches_instance order_payment_type) instances)"

text \<open>
  The resolution of the instance that handled an order, on the table of instances. The result
  \<open>Inl\<close> stands for an error, \<open>Inr None\<close> for a nil instance.
\<close>

definition resolve_unique_legacy_order_provider_instance ::
  "provider_instance list \<Rightarrow> payment_order \<Rightarrow> provider_instance option" where
  "resolve_unique_legacy_order_provider_instance insts ord =
     (let ptype = get_base_payment_type (trim_space (po_payment_type ord));
          pkey = trim_space (ps_string_value (po_provider_key ord));
          pick = (\<lambda>xs. case xs of [i] \<Rightarrow> Some i | _ \<Rightarrow> None)
      in if pkey \<noteq> [] then
           pick (ps_filter_legacy_order_provider_instances ptype
             (filter (\<lambda>i. pi_provider_key i = pkey) insts))
         else if ptype = [] then None
         else pick (ps_filter_legacy_order_provider_instances ptype insts))"

definition err_instance :: go_error where "err_instance = Other_Error ''provider instance'' None"

definition resolve_snapshot_order_provider_instance ::
  "provider_instance list \<Rightarrow> payment_order \<Rightarrow> provider_snapshot \<Rightarrow> go_error + provider_instance" where
  "resolve_snapshot_order_provider_instance insts ord sn =
     (let column = trim_space (ps_string_value (po_provider_instance ord));
          sid = trim_space (sn_instance_id sn); sid = (if sid = [] then column else sid)
      in if sid = [] then Inl err_instance
         else if column \<noteq> [] \<and> sn_instance_id sn \<noteq> [] \<and> \<not> equal_fold column (sn_instance_id sn)
           then Inl err_instance
         else case atoi sid of None \<Rightarrow> Inl err_instance
         | Some n \<Rightarrow> (case find (\<lambda>i. pi_id i = n) insts of None \<Rightarrow> Inl err_instance
             | Some inst \<Rightarrow>
                 if sn_provider_key sn \<noteq> [] \<and>
                    \<not> equal_fold (trim_space (pi_provider_key inst)) (sn_provider_key sn)
                 then Inl err_instance else Inr inst))"

definition get_order_provider_instance ::
  "provider_instance list \<Rightarrow> payment_order \<Rightarrow> go_error + provider_instance option" where
  "get_order_provider_instance insts ord =
     (case ps_order_provider_snapshot ord of
        Some sn \<Rightarrow> map_sum id Some (resolve_snapshot_order_provider_instance insts ord sn)
      | None \<Rightarrow> let s = trim_space (ps_string_value (po_provider_instance ord)) in
          if s = [] then Inr (resolve_unique_legacy_order_provider_instance insts ord)
          else case atoi s of None \<Rightarrow> Inr None
          | Some n \<Rightarrow> (case find (\<lambda>i. pi_id i = n) insts of
              None \<Rightarrow> Inl err_instance | Some inst \<Rightarrow> Inr (Some inst)))"

section \<open>Checks of a notification\<close>

datatype float64 = Fin rat | PInf | NInf | NaN

fun is_valid_provider_amount :: "float64 \<Rightarrow> bool" where
  "is_valid_provider_amount (Fin x) = (0 < x)"
| "is_valid_provider_amount _ = False"

definition payment_amount_tolerance_for_currency :: "string \<Rightarrow> rat" where
  "payment_amount_tolerance_for_currency currency = (let m = currency_minor_unit currency in
     if m \<le> 2 then 1 / 100 else 1 / 10 ^ m / 2)"

text \<open>\<open>registry\<close> is \<open>Registry.GetProviderKey\<close>: the empty string when there is no provider.\<close>

definition expected_notification_provider_key ::
  "(string \<Rightarrow> string) option \<Rightarrow> string \<Rightarrow> string \<Rightarrow> string \<Rightarrow> string" where
  "expected_notification_provider_key registry order_type order_key instance_key =
     (if trim_space instance_key \<noteq> [] then trim_space instance_key
      else if trim_space order_key \<noteq> [] then trim_space order_key
      else case registry of
        Some r \<Rightarrow> if trim_space (r order_type) \<noteq> [] then trim_space (r order_type)
                  else trim_space order_type
      | None \<Rightarrow> trim_space order_type)"

definition expected_notification_provider_key_for_order ::
  "(string \<Rightarrow> string) option \<Rightarrow> payment_order \<Rightarrow> string \<Rightarrow> string" where
  "expected_notification_provider_key_for_order registry ord instance_key =
     (let order_key = (case ps_order_provider_snapshot ord of
            Some sn \<Rightarrow> if sn_provider_key sn \<noteq> [] then sn_provider_key sn
                       else ps_string_value (po_provider_key ord)
          | None \<Rightarrow> ps_string_value (po_provider_key ord))
      in expected_notification_provider_key registry (po_payment_type ord) order_key instance_key)"

definition parse_legacy_payment_order_id :: "string \<Rightarrow> bool \<Rightarrow> int option" where
  "parse_legacy_payment_order_id order_id not_found =
     (if \<not> not_found then None
      else let s = trim_space order_id in
        if take 5 s \<noteq> ''sub2_'' then None
        else if drop 5 s = [] then None
        else case atoi (drop 5 s) of None \<Rightarrow> None | Some n \<Rightarrow> if n \<le> 0 then None else Some n)"

section \<open>Redeem codes\<close>

abbreviation "StatusUnused \<equiv> ''unused''"
abbreviation "StatusUsed \<equiv> ''used''"
abbreviation "StatusExpired \<equiv> ''expired''"
abbreviation "RedeemTypeBalance \<equiv> ''balance''"
abbreviation "RedeemTypeConcurrency \<equiv> ''concurrency''"
abbreviation "RedeemTypeSubscription \<equiv> ''subscription''"
abbreviation "RedeemTypeInvitation \<equiv> ''invitation''"

record redeem_code =
  rc_id :: int
  rc_code :: string
  rc_type :: string
  rc_value :: rat
  rc_status :: string
  rc_used_by :: "int option"
  rc_used_at :: "time option"
  rc_expires :: "time option"
  rc_group :: "int option"
  rc_plan :: "int option"

definition rc_is_used :: "redeem_code \<Rightarrow> bool" where
  "rc_is_used c \<longleftrightarrow> rc_status c = StatusUsed"

definition rc_is_expired_at :: "redeem_code \<Rightarrow> time \<Rightarrow> bool" where
  "rc_is_expired_at c now = (if rc_status c = StatusExpired then True
     else rc_status c = StatusUnused \<and> (case rc_expires c of None \<Rightarrow> False | Some x \<Rightarrow> \<not> now < x))"

definition rc_can_use :: "redeem_code \<Rightarrow> time \<Rightarrow> bool" where
  "rc_can_use c now \<longleftrightarrow> rc_status c = StatusUnused \<and> \<not> rc_is_expired_at c now"

datatype redeem_action = Redeem_Create | Redeem_Only | Redeem_Skip_Completed

text \<open>The lookup of a code: \<open>Inl None\<close> is \<open>ErrRedeemCodeNotFound\<close>, \<open>Inl (Some e)\<close> another error.\<close>

definition resolve_redeem_action ::
  "go_error option + redeem_code \<Rightarrow> go_error + redeem_action" where
  "resolve_redeem_action r = (case r of
     Inl None \<Rightarrow> Inr Redeem_Create
   | Inl (Some e) \<Rightarrow> Inl (Other_Error ''lookup payment redeem code'' (Some e))
   | Inr c \<Rightarrow> Inr (if rc_is_used c then Redeem_Skip_Completed else Redeem_Only))"

definition validate_payment_redeem_code :: "payment_order \<Rightarrow> redeem_code \<Rightarrow> go_error option" where
  "validate_payment_redeem_code ord c =
     (if rc_code c \<noteq> po_recharge_code ord then Some (Other_Error ''payment redeem code mismatch'' None)
      else if rc_type c \<noteq> RedeemTypeBalance
        then Some (Other_Error ''payment redeem code type mismatch'' None)
      else if \<bar>rc_value c - po_amount ord\<bar> > 1 / 10 ^ 8
        then Some (Other_Error ''payment redeem code amount mismatch'' None)
      else if rc_status c = StatusUnused then
        (if rc_used_by c \<noteq> None
         then Some (Other_Error ''unused payment redeem code has a user'' None) else None)
      else if rc_status c = StatusUsed then
        (if rc_used_by c \<noteq> Some (po_user ord)
         then Some (Other_Error ''payment redeem code user mismatch'' None) else None)
      else Some (Other_Error ''payment redeem code has invalid status'' None))"

end
