(* ===== verification/Interleaving.thy ===== *)
theory Interleaving
  imports Prelude
begin

text \<open>
  Programs that run concurrently against one shared state.

  A program is a tree: it returns a result or makes a call and continues with the answer. A call
  is one round trip to the database, the cache or an upstream service, and takes effect at one
  moment. A pool holds the programs of all requests in progress on all instances of the service;
  a schedule starts new requests and lets any program make its next call, in any order. What the
  schedule chooses for a call besides the order (a fault, the clock, an answer from outside) is
  the argument \<open>'e\<close> of the semantics of calls. A program that the schedule never picks again has
  crashed.

  The locale \<open>rely_guarantee\<close> gives the rule by which an invariant of the state and a relation
  that all calls respect are proved for every schedule from a proof about each program alone.
\<close>

section \<open>Programs\<close>

datatype ('c, 'a, 'r) prog = Ret 'r | Call 'c "'a \<Rightarrow> ('c, 'a, 'r) prog"

primrec bind_prog :: "('c, 'a, 'r) prog \<Rightarrow> ('r \<Rightarrow> ('c, 'a, 'q) prog) \<Rightarrow> ('c, 'a, 'q) prog" where
  "bind_prog (Ret r) f = f r"
| "bind_prog (Call c k) f = Call c (\<lambda>a. bind_prog (k a) f)"

lemma bind_prog_Ret_right [simp]: "bind_prog p Ret = p"
  by (induction p) auto

lemma bind_prog_assoc: "bind_prog (bind_prog p f) g = bind_prog p (\<lambda>x. bind_prog (f x) g)"
  by (induction p) auto

text \<open>One program alone, with the choices of its successive calls.\<close>

fun run_prog ::
  "('e \<Rightarrow> 'c \<Rightarrow> 's \<Rightarrow> 'a \<times> 's) \<Rightarrow> 'e list \<Rightarrow> ('c, 'a, 'r) prog \<Rightarrow> 's \<Rightarrow> ('c, 'a, 'r) prog \<times> 's" where
  "run_prog exec es (Ret r) s = (Ret r, s)"
| "run_prog exec [] (Call c k) s = (Call c k, s)"
| "run_prog exec (e # es) (Call c k) s = (case exec e c s of (a, s1) \<Rightarrow> run_prog exec es (k a) s1)"

lemma run_prog_append:
  "run_prog exec (es @ fs) p s = (case run_prog exec es p s of (q, s1) \<Rightarrow> run_prog exec fs q s1)"
  by (induction exec es p s rule: run_prog.induct) (auto split: prod.splits)

text \<open>One program alone to its end, with the same choice for every call.\<close>

primrec run_alone :: "('e \<Rightarrow> 'c \<Rightarrow> 's \<Rightarrow> 'a \<times> 's) \<Rightarrow> 'e \<Rightarrow> ('c, 'a, 'r) prog \<Rightarrow> 's \<Rightarrow> 'r \<times> 's" where
  "run_alone exec e (Ret r) = (\<lambda>s. (r, s))"
| "run_alone exec e (Call c k) = (\<lambda>s. case exec e c s of (a, u) \<Rightarrow> run_alone exec e (k a) u)"

lemma run_alone_bind:
  "run_alone exec e (bind_prog p f) s = (case run_alone exec e p s of (r, u) \<Rightarrow> run_alone exec e (f r) u)"
  by (induction p arbitrary: s) (auto split: prod.splits)

section \<open>Programs that end\<close>

text \<open>
  \<open>ends exec C Q p n s\<close>: when the choices of all calls satisfy \<open>C\<close> and no other program runs, \<open>p\<close>
  returns after at most \<open>n\<close> calls, with a result and a state that satisfy \<open>Q\<close>.
\<close>

primrec ends ::
  "('e \<Rightarrow> 'c \<Rightarrow> 's \<Rightarrow> 'a \<times> 's) \<Rightarrow> ('e \<Rightarrow> bool) \<Rightarrow> ('r \<Rightarrow> 's \<Rightarrow> bool) \<Rightarrow> ('c, 'a, 'r) prog \<Rightarrow> nat \<Rightarrow> 's \<Rightarrow> bool"
where
  "ends exec C Q (Ret r) = (\<lambda>n s. Q r s)"
| "ends exec C Q (Call c k) = (\<lambda>n s. 0 < n \<and>
     (\<forall>e a u. C e \<longrightarrow> exec e c s = (a, u) \<longrightarrow> ends exec C Q (k a) (n - 1) u))"

lemma ends_run:
  "ends exec C Q p n s \<Longrightarrow> list_all C es \<Longrightarrow> n \<le> length es \<Longrightarrow>
    \<exists>r u. run_prog exec es p s = (Ret r, u) \<and> Q r u"
proof (induction exec es p s arbitrary: n rule: run_prog.induct)
  case (3 exec e es c k s)
  obtain a u where e: "exec e c s = (a, u)" by fastforce
  have "ends exec C Q (k a) (n - 1) u" "n - 1 \<le> length es" using 3(2-4) e by auto
  then show ?case using 3(1) [OF e [symmetric]] 3(3) e by auto
qed auto

lemma ends_weaken: "ends exec C Q p n s \<Longrightarrow> n \<le> m \<Longrightarrow> ends exec C Q p m s"
proof (induction p arbitrary: n m s)
  case (Call c k)
  have "ends exec C Q (k a) (m - 1) u" if "C e" "exec e c s = (a, u)" for e a u
    using Call.IH [of "k a" "n - 1" u "m - 1"] Call.prems that by auto
  then show ?case using Call.prems by auto
qed simp

lemma ends_mono: "ends exec C Q p n s \<Longrightarrow> (\<And>r t. Q r t \<Longrightarrow> R r t) \<Longrightarrow> ends exec C R p n s"
  by (induction p arbitrary: n s) auto

lemma ends_bind:
  "ends exec C (\<lambda>r t. ends exec C Q (f r) n t) p m s \<Longrightarrow> ends exec C Q (bind_prog p f) (m + n) s"
proof (induction p arbitrary: m s)
  case (Ret r) then show ?case by (auto intro: ends_weaken)
next
  case (Call c k)
  have "ends exec C Q (bind_prog (k a) f) (m - 1 + n) u" if "C e" "exec e c s = (a, u)" for e a u
    using Call.IH [of "k a" "m - 1" u] Call.prems that by auto
  moreover have "0 < m" using Call.prems by simp
  moreover from this have "m + n - 1 = m - 1 + n" by simp
  ultimately show ?case by auto
qed

lemma ends_bindI:
  assumes "ends exec C P p m s" "\<And>r t. P r t \<Longrightarrow> ends exec C Q (f r) n t" "m + n \<le> l"
  shows "ends exec C Q (bind_prog p f) l s"
proof -
  have "ends exec C (\<lambda>r t. ends exec C Q (f r) n t) p m s" using assms(1,2) by (rule ends_mono)
  from ends_weaken [OF ends_bind [OF this] assms(3)] show ?thesis .
qed

section \<open>Pools and schedules\<close>

datatype ('q, 'e) event = Start 'q | Step nat 'e

definition pool_step ::
  "('e \<Rightarrow> 'c \<Rightarrow> 's \<Rightarrow> 'a \<times> 's) \<Rightarrow> ('q \<Rightarrow> ('c, 'a, 'r) prog) \<Rightarrow> ('q, 'e) event
    \<Rightarrow> ('c, 'a, 'r) prog list \<times> 's \<Rightarrow> ('c, 'a, 'r) prog list \<times> 's" where
  "pool_step exec handler ev st = (case st of (ps, s) \<Rightarrow>
     (case ev of Start q \<Rightarrow> (ps @ [handler q], s)
      | Step i e \<Rightarrow> if i < length ps then
          (case ps ! i of Ret r \<Rightarrow> (ps, s)
           | Call c k \<Rightarrow> (case exec e c s of (a, s1) \<Rightarrow> (ps[i := k a], s1)))
        else (ps, s)))"

definition run_pool ::
  "('e \<Rightarrow> 'c \<Rightarrow> 's \<Rightarrow> 'a \<times> 's) \<Rightarrow> ('q \<Rightarrow> ('c, 'a, 'r) prog) \<Rightarrow> ('q, 'e) event list
    \<Rightarrow> ('c, 'a, 'r) prog list \<times> 's \<Rightarrow> ('c, 'a, 'r) prog list \<times> 's" where
  "run_pool exec handler evs st = fold (pool_step exec handler) evs st"

section \<open>Reasoning about all schedules\<close>

locale rely_guarantee =
  fixes exec :: "'e \<Rightarrow> 'c \<Rightarrow> 's \<Rightarrow> 'a \<times> 's"
    and inv :: "'s \<Rightarrow> bool"
    and rely :: "'s \<Rightarrow> 's \<Rightarrow> bool"
  assumes rely_refl: "rely s s"
    and rely_trans: "rely s t \<Longrightarrow> rely t u \<Longrightarrow> rely s u"
begin

text \<open>
  \<open>safe Q p s\<close>: from the state \<open>s\<close>, whatever the others do within \<open>rely\<close>, each call of \<open>p\<close> keeps
  the invariant and stays within \<open>rely\<close>, and a result \<open>r\<close> satisfies \<open>Q r\<close> from then on.
\<close>

primrec safe :: "('r \<Rightarrow> 's \<Rightarrow> bool) \<Rightarrow> ('c, 'a, 'r) prog \<Rightarrow> 's \<Rightarrow> bool" where
  "safe Q (Ret r) = (\<lambda>s. \<forall>t. rely s t \<longrightarrow> inv t \<longrightarrow> Q r t)"
| "safe Q (Call c k) = (\<lambda>s. \<forall>t. rely s t \<longrightarrow> inv t \<longrightarrow> (\<forall>e a u. exec e c t = (a, u) \<longrightarrow>
     inv u \<and> rely t u \<and> safe Q (k a) u))"

lemma safe_stable: "safe Q p s \<Longrightarrow> rely s t \<Longrightarrow> safe Q p t"
  by (cases p) (auto intro: rely_trans)

lemma safe_mono:
  "safe Q p s \<Longrightarrow> (\<And>r t. rely s t \<Longrightarrow> inv t \<Longrightarrow> Q r t \<Longrightarrow> R r t) \<Longrightarrow> safe R p s"
proof (induction p arbitrary: s)
  case (Ret r) then show ?case by (auto intro: rely_trans)
next
  case (Call c k)
  show ?case
  proof (clarsimp)
    fix t e a u assume h: "rely s t" "inv t" "exec e c t = (a, u)"
    then have q: "inv u" "rely t u" "safe Q (k a) u" using Call.prems(1) by auto
    moreover have "safe R (k a) u"
      using q h Call.prems(2) by (intro Call.IH) (auto dest: rely_trans)
    ultimately show "inv u \<and> rely t u \<and> safe R (k a) u" by simp
  qed
qed

lemma safe_bind:
  "safe (\<lambda>r. safe Q (f r)) p s \<Longrightarrow> inv s \<Longrightarrow> safe Q (bind_prog p f) s"
proof (induction p arbitrary: s)
  case (Ret r) then show ?case using rely_refl by auto
next
  case (Call c k) then show ?case by auto
qed

lemma safe_bindI:
  assumes "safe P p s" "inv s" "\<And>r t. rely s t \<Longrightarrow> inv t \<Longrightarrow> P r t \<Longrightarrow> safe Q (f r) t"
  shows "safe Q (bind_prog p f) s"
  using assms(3) by (intro safe_bind [OF safe_mono [OF assms(1)] assms(2)])

lemma safe_CallI:
  assumes "\<And>t e a u. rely s t \<Longrightarrow> inv t \<Longrightarrow> exec e c t = (a, u) \<Longrightarrow>
    inv u \<and> rely t u \<and> safe Q (k a) u"
  shows "safe Q (Call c k) s"
  using assms by auto

lemma safe_RetI: "(\<And>t. rely s t \<Longrightarrow> inv t \<Longrightarrow> Q r t) \<Longrightarrow> safe Q (Ret r) s"
  by auto

lemma pool_step_safe:
  assumes "inv s" "\<forall>p \<in> set ps. safe (\<lambda>_ _. True) p s"
    and h: "\<And>q t. ev = Start q \<Longrightarrow> inv t \<Longrightarrow> safe (\<lambda>_ _. True) (handler q) t"
    and st: "pool_step exec handler ev (ps, s) = (ps', s')"
  shows "inv s' \<and> rely s s' \<and> (\<forall>p \<in> set ps'. safe (\<lambda>_ _. True) p s')"
proof (cases ev)
  case (Start q)
  then show ?thesis using assms rely_refl by (auto simp: pool_step_def)
next
  case (Step i e)
  show ?thesis
  proof (cases "i < length ps \<and> (\<exists>c k. ps ! i = Call c k)")
    case False
    then have "(ps', s') = (ps, s)"
      using st Step by (cases "ps ! i") (auto simp: pool_step_def split: if_splits)
    then show ?thesis using assms rely_refl by auto
  next
    case True
    then obtain c k where i: "i < length ps" "ps ! i = Call c k" by blast
    obtain a u where e: "exec e c s = (a, u)" by fastforce
    have new: "ps' = ps[i := k a]" "s' = u" using st Step i e by (auto simp: pool_step_def)
    have "safe (\<lambda>_ _. True) (Call c k) s" using assms(2) i by (metis nth_mem)
    then have u: "inv u" "rely s u" "safe (\<lambda>_ _. True) (k a) u"
      using rely_refl assms(1) e by auto
    then have "\<forall>p \<in> set ps. safe (\<lambda>_ _. True) p u" using assms(2) safe_stable by blast
    then show ?thesis using u new set_update_subset_insert [of ps i "k a"] by auto
  qed
qed

text \<open>Only the requests that the schedule starts have to be safe.\<close>

lemma run_pool_safe_starts:
  assumes "inv s" "\<forall>p \<in> set ps. safe (\<lambda>_ _. True) p s"
    and h: "\<And>q t. Start q \<in> set evs \<Longrightarrow> inv t \<Longrightarrow> safe (\<lambda>_ _. True) (handler q) t"
    and "run_pool exec handler evs (ps, s) = (ps', s')"
  shows "inv s' \<and> rely s s' \<and> (\<forall>p \<in> set ps'. safe (\<lambda>_ _. True) p s')"
  using assms
proof (induction evs arbitrary: ps s)
  case Nil then show ?case using rely_refl by (simp add: run_pool_def)
next
  case (Cons ev evs)
  obtain qs t where t: "pool_step exec handler ev (ps, s) = (qs, t)" by fastforce
  have m: "inv t \<and> rely s t \<and> (\<forall>p \<in> set qs. safe (\<lambda>_ _. True) p t)"
    using Cons.prems(1,2,3) t by (intro pool_step_safe [where handler = handler and ev = ev and ps = ps and s = s]) auto
  have "run_pool exec handler evs (qs, t) = (ps', s')" using Cons.prems(4) t by (simp add: run_pool_def)
  then show ?case using m Cons.prems(3) Cons.IH [of t qs] by (auto intro: rely_trans)
qed

lemma run_pool_safe:
  assumes "inv s" "\<forall>p \<in> set ps. safe (\<lambda>_ _. True) p s"
    and h: "\<And>q t. inv t \<Longrightarrow> safe (\<lambda>_ _. True) (handler q) t"
    and "run_pool exec handler evs (ps, s) = (ps', s')"
  shows "inv s' \<and> rely s s' \<and> (\<forall>p \<in> set ps'. safe (\<lambda>_ _. True) p s')"
  using assms(1,2) h assms(4) by (rule run_pool_safe_starts)

end

end
