(* ===== verification/Payment_Store.thy ===== *)
theory Payment_Store
  imports Payment_Types Interleaving
begin

text \<open>
  The tables behind payments and the calls that the payment and redeem services make.

  A call is one SQL statement or one transaction that commits, a round trip to the cache or to a
  payment provider, or a reading of the clock. \<open>pay_stmt\<close> gives its effect when it succeeds, and
  \<open>pay_exec\<close> adds the faults: a call may be lost before it takes effect, or take effect while its
  answer is lost. What a call learns from outside the tables is in \<open>pay_choice\<close>.

  Transactions are atomic at their commit. For the redemption this is the row lock that
  \<open>UPDATE ... WHERE status = 'unused'\<close> takes; for the assignment of a group subscription and for the
  rebate it is the unique index on \<open>payment_audit_logs (order_id, action)\<close> (migration 131), which
  makes the second of two concurrent transactions roll back.

  \<open>db_ledger\<close>, \<open>db_postings\<close>, \<open>db_terms\<close> and \<open>db_rewards\<close> are history variables: the redemptions
  that changed a balance, all changes of balances (redemptions and affiliate rewards), the
  subscription terms and the orders that settled an affiliate relationship, in the order of their
  commits. No program reads them. Of a subscription the table keeps the notes, which the fulfilment
  reads; its dates are not modelled. Of \<open>user_reward_credits\<close> the table keeps the rows that the
  settlement inserts, by their unique key and amount; what happens to a credit later is in theory
  \<open>Reward_Credits\<close>.
\<close>

section \<open>Tables\<close>

record user_row =
  us_balance :: rat
  us_total_recharged :: rat
  us_concurrency :: int

record sub_row =
  sb_user :: int
  sb_group :: int
  sb_notes :: string

record group_row =
  gr_active :: bool
  gr_subscription :: bool

text \<open>A row of \<open>user_affiliates\<close>; the empty string stands for a mode or status that is NULL.\<close>

record affiliate_row =
  af_inviter :: "int option"
  af_mode :: string
  af_status :: string
  af_reward_count :: int
  af_inviter_rewarded :: bool
  af_invitee_rewarded :: bool
  af_source_order :: "int option"

record affiliate_grant =
  gc_user :: int
  gc_type :: string
  gc_source_key :: string
  gc_amount :: rat

datatype posting = Redemption string int rat | Reward affiliate_grant

record pay_db =
  db_orders :: "payment_order list"
  db_codes :: "redeem_code list"
  db_next_code :: int
  db_users :: "int \<Rightarrow> user_row option"
  db_audit :: "(int \<times> string) list"
  db_instances :: "provider_instance list"
  db_groups :: "int \<Rightarrow> group_row option"
  db_subs :: "sub_row list"
  db_ledger :: "(string \<times> int \<times> rat) list"
  db_terms :: "(int \<times> int) list"
  db_rewards :: "int list"
  db_affiliates :: "int \<Rightarrow> affiliate_row option"
  db_credits :: "affiliate_grant list"
  db_postings :: "posting list"

record query_response =
  qr_status :: string
  qr_amount :: float64
  qr_trade_no :: string
  qr_metadata :: "(string \<times> string) list"

datatype call_outcome = Done | Lost_Before | Lost_After

record affiliate_reward_config =
  ac_first_recharge_threshold :: rat
  ac_inviter_reward :: rat
  ac_invitee_reward :: rat
  ac_validity_days :: int
  ac_inviter_reward_limit :: int

record pay_choice =
  ch_outcome :: call_outcome
  ch_now :: time
  ch_flag :: bool
  ch_pick :: nat
  ch_count :: int
  ch_provider :: "string option"
  ch_query :: "query_response option"
  ch_config :: affiliate_reward_config

section \<open>Calls and answers\<close>

datatype pay_call =
    C_Now
  | C_Order int
  | C_Order_By_Trade_No string
  | C_Expired_Orders time
  | C_Reconcilable_Orders time nat
  | C_Instances
  | C_Audit int string
  | C_Has_Audit int string
  | C_To_Paid int time rat string
  | C_Acquire int time
  | C_Complete int time time
  | C_Fail int time time go_error
  | C_Close int order_status
  | C_Trade_No int string
  | C_Code string
  | C_Code_By_Id int
  | C_Create_Code redeem_code
  | C_Redeem redeem_code int
  | C_User int
  | C_Redeem_Lock string
  | C_Redeem_Unlock string
  | C_Redeem_Attempts int
  | C_Redeem_Attempt_Failed int
  | C_Rebate payment_order rat
  | C_Group int
  | C_Sub int int
  | C_Assign_Plan int int int int string
  | C_Assign_Group int int int int string
  | C_Invalidate int int
  | C_Provider payment_order
  | C_Query string
  | C_Cancel_Payment string

datatype pay_answer =
    A_Err
  | A_None
  | A_Unit
  | A_Time time
  | A_Order payment_order
  | A_Orders "payment_order list"
  | A_Instances "provider_instance list"
  | A_Rows nat
  | A_Bool bool
  | A_Int int
  | A_Code redeem_code
  | A_Used
  | A_Group group_row
  | A_Sub sub_row
  | A_Seat_Limit
  | A_Provider string
  | A_Query query_response

section \<open>Statements on orders\<close>

definition update_orders ::
  "(payment_order \<Rightarrow> bool) \<Rightarrow> (payment_order \<Rightarrow> payment_order) \<Rightarrow> pay_db \<Rightarrow> pay_answer \<times> pay_db" where
  "update_orders P f db = (A_Rows (length (filter P (db_orders db))),
     db\<lparr>db_orders := map (\<lambda>r. if P r then f r else r) (db_orders db)\<rparr>)"

definition only_order :: "(payment_order \<Rightarrow> bool) \<Rightarrow> pay_db \<Rightarrow> pay_answer" where
  "only_order P db = (case filter P (db_orders db) of
     [] \<Rightarrow> A_None | [r] \<Rightarrow> A_Order r | _ \<Rightarrow> A_Err)"

abbreviation payment_grace :: duration where "payment_grace \<equiv> 5 * minute"
abbreviation payment_lease_duration :: duration where "payment_lease_duration \<equiv> 5 * minute"

definition payable :: "time \<Rightarrow> payment_order \<Rightarrow> bool" where
  "payable now r \<longleftrightarrow> po_status r = OS_Pending \<or> po_status r = OS_Cancelled \<or>
     po_status r = OS_Expired \<and> now - payment_grace \<le> po_updated r"

definition sql_to_paid :: "time \<Rightarrow> int \<Rightarrow> time \<Rightarrow> rat \<Rightarrow> string \<Rightarrow> pay_db \<Rightarrow> pay_answer \<times> pay_db" where
  "sql_to_paid clock oid now paid trade_no = update_orders (\<lambda>r. po_id r = oid \<and> payable now r)
     (\<lambda>r. r\<lparr>po_status := OS_Paid, po_pay_amount := paid, po_trade_no := trade_no,
            po_paid_at := Some now, po_failed_at := None, po_failed_reason := None,
            po_updated := clock\<rparr>)"

definition acquirable :: "time \<Rightarrow> payment_order \<Rightarrow> bool" where
  "acquirable now r \<longleftrightarrow> po_status r = OS_Paid \<or> po_status r = OS_Failed \<or>
     po_status r = OS_Recharging \<and> po_updated r \<le> now - payment_lease_duration"

definition sql_acquire :: "int \<Rightarrow> time \<Rightarrow> pay_db \<Rightarrow> pay_answer \<times> pay_db" where
  "sql_acquire oid now = update_orders (\<lambda>r. po_id r = oid \<and> acquirable now r)
     (\<lambda>r. r\<lparr>po_status := OS_Recharging, po_updated := now, po_failed_at := None,
            po_failed_reason := None\<rparr>)"

definition held :: "int \<Rightarrow> time \<Rightarrow> payment_order \<Rightarrow> bool" where
  "held oid version r \<longleftrightarrow> po_id r = oid \<and> po_status r = OS_Recharging \<and> po_updated r = version"

definition sql_complete :: "time \<Rightarrow> int \<Rightarrow> time \<Rightarrow> time \<Rightarrow> pay_db \<Rightarrow> pay_answer \<times> pay_db" where
  "sql_complete clock oid version now = update_orders (held oid version)
     (\<lambda>r. r\<lparr>po_status := OS_Completed, po_completed_at := Some now, po_updated := clock\<rparr>)"

definition sql_fail :: "time \<Rightarrow> int \<Rightarrow> time \<Rightarrow> time \<Rightarrow> go_error \<Rightarrow> pay_db \<Rightarrow> pay_answer \<times> pay_db" where
  "sql_fail clock oid version now reason = update_orders (held oid version)
     (\<lambda>r. r\<lparr>po_status := OS_Failed, po_failed_at := Some now, po_failed_reason := Some reason,
            po_updated := clock\<rparr>)"

definition sql_close :: "time \<Rightarrow> int \<Rightarrow> order_status \<Rightarrow> pay_db \<Rightarrow> pay_answer \<times> pay_db" where
  "sql_close clock oid fs = update_orders (\<lambda>r. po_id r = oid \<and> po_status r = OS_Pending)
     (\<lambda>r. r\<lparr>po_status := fs, po_updated := clock\<rparr>)"

definition sql_trade_no :: "time \<Rightarrow> int \<Rightarrow> string \<Rightarrow> pay_db \<Rightarrow> pay_answer \<times> pay_db" where
  "sql_trade_no clock oid trade_no = update_orders (\<lambda>r. po_id r = oid)
     (\<lambda>r. r\<lparr>po_trade_no := trade_no, po_updated := clock\<rparr>)"

text \<open>
  The queries of the background jobs. The table is kept in order of creation; a limit \<open>n\<close> takes
  the oldest orders.
\<close>

definition order_timed_out :: "time \<Rightarrow> payment_order \<Rightarrow> bool" where
  "order_timed_out now r \<longleftrightarrow> po_status r = OS_Pending \<and> po_expires r \<le> now"

definition of_kind :: "string \<Rightarrow> string \<Rightarrow> bool" where
  "of_kind t s \<longleftrightarrow> s = t \<or> take (length t + 1) s = t @ ''_''"

definition order_reconcilable :: "time \<Rightarrow> payment_order \<Rightarrow> bool" where
  "order_reconcilable now r \<longleftrightarrow> po_status r = OS_Pending \<and> now < po_expires r \<and>
     list_ex (\<lambda>t. of_kind t (po_payment_type r) \<or>
         (case po_provider_key r of None \<Rightarrow> False | Some k \<Rightarrow> of_kind t k))
       [TypeWxpay, TypeIkunPay, TypeAlipay]"

section \<open>Audit log\<close>

text \<open>The unique index on (order id, action) makes a repeated entry an error, which is ignored.\<close>

definition has_audit :: "int \<Rightarrow> string \<Rightarrow> pay_db \<Rightarrow> bool" where
  "has_audit oid action db \<longleftrightarrow> (oid, action) \<in> set (db_audit db)"

definition sql_audit :: "int \<Rightarrow> string \<Rightarrow> pay_db \<Rightarrow> pay_answer \<times> pay_db" where
  "sql_audit oid action db = (if has_audit oid action db then (A_Err, db)
     else (A_Unit, db\<lparr>db_audit := (oid, action) # db_audit db\<rparr>))"

section \<open>Redeem codes and users\<close>

definition repo_get_by_code :: "string \<Rightarrow> pay_db \<Rightarrow> pay_answer" where
  "repo_get_by_code code db = (case filter (\<lambda>c. rc_code c = code) (db_codes db) of
     [] \<Rightarrow> A_None | [c] \<Rightarrow> A_Code c | _ \<Rightarrow> A_Err)"

definition repo_create_code :: "redeem_code \<Rightarrow> pay_db \<Rightarrow> pay_answer \<times> pay_db" where
  "repo_create_code c db = (if \<exists>d \<in> set (db_codes db). rc_code d = rc_code c then (A_Err, db)
     else (A_Unit, db\<lparr>db_codes := db_codes db @ [c\<lparr>rc_id := db_next_code db\<rparr>],
                      db_next_code := db_next_code db + 1\<rparr>))"

definition code_unused :: "int \<Rightarrow> redeem_code \<Rightarrow> bool" where
  "code_unused i c \<longleftrightarrow> rc_id c = i \<and> rc_status c = StatusUnused"

definition repo_use_code :: "time \<Rightarrow> int \<Rightarrow> int \<Rightarrow> pay_db \<Rightarrow> pay_db option" where
  "repo_use_code clock i user db =
     (if \<exists>c \<in> set (db_codes db). code_unused i c
      then Some (db\<lparr>db_codes := map (\<lambda>c. if code_unused i c
             then c\<lparr>rc_status := StatusUsed, rc_used_by := Some user, rc_used_at := Some clock\<rparr>
             else c) (db_codes db)\<rparr>)
      else None)"

text \<open>\<open>UpdateBalance\<close> for an amount that is not negative, \<open>ApplyRedeemBalanceAdjustment\<close> otherwise.\<close>

definition update_balance :: "rat \<Rightarrow> user_row \<Rightarrow> user_row" where
  "update_balance amount u = u\<lparr>us_balance := us_balance u + amount,
     us_total_recharged := us_total_recharged u + (if 0 < amount then amount else 0)\<rparr>"

definition apply_redeem_balance_adjustment :: "rat \<Rightarrow> user_row \<Rightarrow> user_row" where
  "apply_redeem_balance_adjustment delta u = u\<lparr>us_balance := max (us_balance u + delta) 0\<rparr>"

definition credit :: "rat \<Rightarrow> user_row \<Rightarrow> user_row" where
  "credit amount u = (if amount < 0 then apply_redeem_balance_adjustment amount u
     else update_balance amount u)"

definition adjust_concurrency :: "int \<Rightarrow> user_row \<Rightarrow> user_row" where
  "adjust_concurrency delta u = u\<lparr>us_concurrency :=
     (if delta < 0 then max (us_concurrency u + delta) 0 else us_concurrency u + delta)\<rparr>"

text \<open>
  The transaction of \<open>redeem\<close>: mark the code \<open>c\<close>, as it was read before, as used and apply what it
  is worth. The subscription that a code of type subscription gives is outside the model, and may
  fail.
\<close>

definition tx_redeem :: "pay_choice \<Rightarrow> redeem_code \<Rightarrow> int \<Rightarrow> pay_db \<Rightarrow> pay_answer \<times> pay_db" where
  "tx_redeem e c user db = (case repo_use_code (ch_now e) (rc_id c) user db of
     None \<Rightarrow> (A_Used, db)
   | Some db1 \<Rightarrow>
       if rc_type c = RedeemTypeBalance then
         (case db_users db user of None \<Rightarrow> (A_Err, db)
          | Some u \<Rightarrow> (A_Unit, db1\<lparr>db_users := (db_users db)(user \<mapsto> credit (rc_value c) u),
                        db_ledger := db_ledger db @ [(rc_code c, user, rc_value c)],
                        db_postings := db_postings db @ [Redemption (rc_code c) user (rc_value c)]\<rparr>))
       else if rc_type c = RedeemTypeConcurrency then
         (case db_users db user of None \<Rightarrow> (A_Err, db)
          | Some u \<Rightarrow> (A_Unit, db1\<lparr>db_users := (db_users db)(user \<mapsto>
                        adjust_concurrency (trunc_rat (rc_value c)) u)\<rparr>))
       else if rc_type c = RedeemTypeSubscription \<and> ch_flag e then (A_Unit, db1)
       else (A_Err, db))"

section \<open>Affiliate rewards\<close>

text \<open>
  The settlement of the first recharge of an invited user. \<open>None\<close> is an error, which rolls back
  the transaction around it. A grant inserts a credit, whose key (user, type, source key) is unique,
  and adds its amount to the balance of the user; a credit that is there already changes nothing.
\<close>

definition same_grant :: "affiliate_grant \<Rightarrow> affiliate_grant \<Rightarrow> bool" where
  "same_grant g c \<longleftrightarrow> gc_user c = gc_user g \<and> gc_type c = gc_type g \<and> gc_source_key c = gc_source_key g"

definition grant_reward_credit_tx :: "affiliate_grant \<Rightarrow> pay_db \<Rightarrow> (bool \<times> pay_db) option" where
  "grant_reward_credit_tx g db =
     (if list_ex (same_grant g) (db_credits db) then Some (False, db)
      else case db_users db (gc_user g) of None \<Rightarrow> None
       | Some u \<Rightarrow> Some (True, db\<lparr>db_credits := db_credits db @ [g],
           db_users := (db_users db)(gc_user g \<mapsto> u\<lparr>us_balance := us_balance u + gc_amount g\<rparr>),
           db_postings := db_postings db @ [Reward g]\<rparr>))"

definition affiliate_source_key :: "int \<Rightarrow> int \<Rightarrow> string" where
  "affiliate_source_key inviter invitee = ''affiliate:'' @ itoa inviter @ '':'' @ itoa invitee"

definition affiliate_credit :: "int \<Rightarrow> string \<Rightarrow> int \<Rightarrow> int \<Rightarrow> rat \<Rightarrow> affiliate_grant" where
  "affiliate_credit user kind inviter invitee amount = \<lparr>gc_user = user, gc_type = kind,
     gc_source_key = affiliate_source_key inviter invitee, gc_amount = amount\<rparr>"

definition grant_inviter_reward :: "int \<Rightarrow> int \<Rightarrow> rat \<Rightarrow> int \<Rightarrow> pay_db \<Rightarrow> (bool \<times> pay_db) option" where
  "grant_inviter_reward inviter invitee amount limit db =
     (case db_affiliates db inviter of None \<Rightarrow> None
      | Some p \<Rightarrow>
          if 0 < amount \<and> \<not> (0 < limit \<and> limit \<le> af_reward_count p) then
            (case grant_reward_credit_tx (affiliate_credit inviter ''affiliate_inviter'' inviter invitee amount) db of
               None \<Rightarrow> None
             | Some (applied, db1) \<Rightarrow> Some (applied, if applied then db1\<lparr>db_affiliates :=
                 (db_affiliates db1)(inviter \<mapsto> p\<lparr>af_reward_count := af_reward_count p + 1\<rparr>)\<rparr> else db1))
          else Some (False, db))"

definition grant_invitee_reward :: "int \<Rightarrow> int \<Rightarrow> rat \<Rightarrow> pay_db \<Rightarrow> (bool \<times> pay_db) option" where
  "grant_invitee_reward inviter invitee amount db =
     (if 0 < amount
      then grant_reward_credit_tx (affiliate_credit invitee ''affiliate_invitee'' inviter invitee amount) db
      else Some (False, db))"

definition grant_affiliate_relationship_rewards_tx ::
  "int \<Rightarrow> int \<Rightarrow> rat \<Rightarrow> rat \<Rightarrow> int \<Rightarrow> pay_db \<Rightarrow> (bool \<times> bool \<times> pay_db) option" where
  "grant_affiliate_relationship_rewards_tx inviter invitee inviter_reward invitee_reward limit db =
     (case grant_inviter_reward inviter invitee inviter_reward limit db of None \<Rightarrow> None
      | Some (inviter_rewarded, db1) \<Rightarrow>
          (case grant_invitee_reward inviter invitee invitee_reward db1 of None \<Rightarrow> None
           | Some (invitee_rewarded, db2) \<Rightarrow> Some (inviter_rewarded, invitee_rewarded, db2)))"

text \<open>The row of the user is made when it is missing; the users of orders are never removed from the table.\<close>

definition ensure_user_affiliate :: "int \<Rightarrow> pay_db \<Rightarrow> affiliate_row \<times> pay_db" where
  "ensure_user_affiliate user db = (case db_affiliates db user of Some r \<Rightarrow> (r, db)
     | None \<Rightarrow> let r = \<lparr>af_inviter = None, af_mode = [], af_status = [], af_reward_count = 0,
           af_inviter_rewarded = False, af_invitee_rewarded = False, af_source_order = None\<rparr>
         in (r, db\<lparr>db_affiliates := (db_affiliates db)(user \<mapsto> r)\<rparr>))"

definition affiliate_reward_inputs_valid :: "affiliate_reward_config \<Rightarrow> bool" where
  "affiliate_reward_inputs_valid cfg \<longleftrightarrow> 0 \<le> ac_inviter_reward cfg \<and> 0 \<le> ac_invitee_reward cfg \<and>
     1 \<le> ac_validity_days cfg \<and> 0 \<le> ac_inviter_reward_limit cfg"

definition affiliate_pending :: "affiliate_row \<Rightarrow> bool" where
  "affiliate_pending r \<longleftrightarrow> af_inviter r \<noteq> None \<and> af_mode r = ''first_recharge'' \<and> af_status r = ''pending''"

definition resolve_affiliate :: "int \<Rightarrow> int \<Rightarrow> bool \<Rightarrow> bool \<Rightarrow> pay_db \<Rightarrow> pay_db" where
  "resolve_affiliate invitee oid inviter_rewarded invitee_rewarded db = db\<lparr>db_affiliates :=
     (db_affiliates db)(invitee := map_option (\<lambda>r. r\<lparr>af_status := ''resolved'',
        af_source_order := (if 0 < oid then Some oid else None),
        af_inviter_rewarded := inviter_rewarded, af_invitee_rewarded := invitee_rewarded\<rparr>)
       (db_affiliates db invitee))\<rparr>"

definition resolve_first_recharge ::
  "affiliate_reward_config \<Rightarrow> int \<Rightarrow> int \<Rightarrow> bool \<Rightarrow> pay_db \<Rightarrow> (bool \<times> pay_db) option" where
  "resolve_first_recharge cfg invitee oid qualified db =
     (if invitee \<le> 0 \<or> \<not> affiliate_reward_inputs_valid cfg then None
      else case ensure_user_affiliate invitee db of (rel, db1) \<Rightarrow>
        (case af_inviter rel of None \<Rightarrow> Some (False, db1)
         | Some inviter \<Rightarrow>
             if \<not> affiliate_pending rel then Some (False, db1)
             else if \<not> qualified then Some (False, resolve_affiliate invitee oid False False db1)
             else (case grant_affiliate_relationship_rewards_tx inviter invitee (ac_inviter_reward cfg)
                     (ac_invitee_reward cfg) (ac_inviter_reward_limit cfg) db1 of None \<Rightarrow> None
               | Some (r1, r2, db2) \<Rightarrow> Some (True, resolve_affiliate invitee oid r1 r2 db2))))"

text \<open>
  \<open>GrantFirstRechargeReward\<close>, called with \<open>isFirstRecharge\<close>; the rewards are rounded to 8 places. The
  settings are read from outside: the activity is enabled or not (\<open>ch_flag\<close>), the amounts are \<open>ch_config\<close>.
\<close>

definition grant_first_recharge_reward ::
  "pay_choice \<Rightarrow> int \<Rightarrow> rat \<Rightarrow> bool \<Rightarrow> int \<Rightarrow> pay_db \<Rightarrow> (bool \<times> pay_db) option" where
  "grant_first_recharge_reward e invitee base is_subscription oid db =
     (if invitee \<le> 0 then Some (False, db)
      else let cfg = ch_config e;
               qualified = (ch_flag e \<and> (is_subscription \<or> 0 < base \<and> ac_first_recharge_threshold cfg \<le> base))
        in resolve_first_recharge (cfg\<lparr>ac_inviter_reward := fixed (ac_inviter_reward cfg) 8,
             ac_invitee_reward := fixed (ac_invitee_reward cfg) 8\<rparr>) invitee oid qualified db)"

text \<open>
  The transaction of \<open>applyAffiliateRebateForOrder\<close>: claim the audit entry, settle the relationship,
  and name the entry after the result. It may also roll back because a statement or the reading of
  the settings fails (\<open>ch_pick \<noteq> 0\<close>).
\<close>

definition tx_rebate :: "pay_choice \<Rightarrow> payment_order \<Rightarrow> rat \<Rightarrow> pay_db \<Rightarrow> pay_answer \<times> pay_db" where
  "tx_rebate e ord base db =
     (if has_audit (po_id ord) ''AFFILIATE_REBATE_APPLIED'' db \<or>
         has_audit (po_id ord) ''AFFILIATE_REBATE_SKIPPED'' db
      then (A_Bool False, db)
      else if ch_pick e \<noteq> 0 then (A_Err, db)
      else case grant_first_recharge_reward e (po_user ord) base (po_order_type ord = ''subscription'')
             (po_id ord) db of
          None \<Rightarrow> (A_Err, db)
        | Some (True, db1) \<Rightarrow> (A_Bool True,
            db1\<lparr>db_audit := (po_id ord, ''AFFILIATE_REBATE_APPLIED'') # db_audit db,
               db_rewards := db_rewards db @ [po_id ord]\<rparr>)
        | Some (False, db1) \<Rightarrow> (A_Bool True,
            db1\<lparr>db_audit := (po_id ord, ''AFFILIATE_REBATE_SKIPPED'') # db_audit db\<rparr>))"

section \<open>Subscriptions\<close>

definition newline :: char where "newline = char_of (10::nat)"

definition append_subscription_notes :: "string \<Rightarrow> string \<Rightarrow> string" where
  "append_subscription_notes existing new = (if new = [] then existing
     else if existing = [] then new else existing @ [newline] @ new)"

definition effective_days :: "int \<Rightarrow> int" where
  "effective_days d = min (if d \<le> 0 then 30 else d) 36500"

definition sub_of :: "int \<Rightarrow> int \<Rightarrow> sub_row \<Rightarrow> bool" where
  "sub_of user gid r \<longleftrightarrow> sb_user r = user \<and> sb_group r = (if gid \<le> 0 then 0 else gid)"

definition get_existing_subscription :: "int \<Rightarrow> int \<Rightarrow> pay_db \<Rightarrow> sub_row option" where
  "get_existing_subscription user gid db = find (sub_of user gid) (db_subs db)"

definition assign_or_extend_subscription_term ::
  "int \<Rightarrow> int \<Rightarrow> int \<Rightarrow> int \<Rightarrow> string \<Rightarrow> pay_db \<Rightarrow> pay_db" where
  "assign_or_extend_subscription_term oid user gid days notes db =
     (let db1 = db\<lparr>db_terms := db_terms db @ [(oid, effective_days days)]\<rparr> in
      case get_existing_subscription user gid db of
        None \<Rightarrow> db1\<lparr>db_subs := db_subs db @
          [\<lparr>sb_user = user, sb_group = (if gid \<le> 0 then 0 else gid), sb_notes = notes\<rparr>]\<rparr>
      | Some _ \<Rightarrow> db1\<lparr>db_subs := map (\<lambda>r. if sub_of user gid r
          then r\<lparr>sb_notes := append_subscription_notes (sb_notes r) notes\<rparr> else r) (db_subs db)\<rparr>)"

fun replace_crlf :: "string \<Rightarrow> string" where
  "replace_crlf (a # b # s) = (if byte a = 13 \<and> byte b = 10 then b # replace_crlf s
     else a # replace_crlf (b # s))"
| "replace_crlf s = s"

definition has_payment_subscription_order_note :: "string \<Rightarrow> string \<Rightarrow> bool" where
  "has_payment_subscription_order_note notes order_note =
     list_ex (\<lambda>line. trim_space line = order_note) (split_on newline (replace_crlf notes))"

definition has_payment_subscription_assignment_audit :: "int \<Rightarrow> pay_db \<Rightarrow> bool" where
  "has_payment_subscription_assignment_audit oid db \<longleftrightarrow>
     has_audit oid ''SUBSCRIPTION_ASSIGNED'' db \<or> has_audit oid ''SUBSCRIPTION_SUCCESS'' db"

text \<open>The transaction of \<open>ensurePaymentSubscriptionAssigned\<close>.\<close>

definition tx_assign_group ::
  "pay_choice \<Rightarrow> int \<Rightarrow> int \<Rightarrow> int \<Rightarrow> int \<Rightarrow> string \<Rightarrow> pay_db \<Rightarrow> pay_answer \<times> pay_db" where
  "tx_assign_group e oid user gid days note db =
     (if has_payment_subscription_assignment_audit oid db then (A_Unit, db)
      else if ch_pick e \<noteq> 0 then (A_Err, db)
      else let recovered = (case get_existing_subscription user gid db of
               None \<Rightarrow> False | Some r \<Rightarrow> has_payment_subscription_order_note (sb_notes r) note)
           in if recovered then
                (A_Unit, db\<lparr>db_audit := (oid, ''SUBSCRIPTION_ASSIGNED'') # db_audit db\<rparr>)
              else (case db_groups db gid of None \<Rightarrow> (A_Err, db)
                | Some g \<Rightarrow> if \<not> gr_subscription g then (A_Err, db)
                  else let db1 = assign_or_extend_subscription_term oid user gid days note db
                       in (A_Unit, db1\<lparr>db_audit := (oid, ''SUBSCRIPTION_ASSIGNED'') # db_audit db1\<rparr>)))"

text \<open>
  The transaction of \<open>doSubWithPlanSeat\<close>: the plan row is locked and a free seat is required, which
  are outside the tables (\<open>ch_pick\<close>: 1 no seat, more than 1 another error).
\<close>

definition tx_assign_plan ::
  "pay_choice \<Rightarrow> int \<Rightarrow> int \<Rightarrow> int \<Rightarrow> int \<Rightarrow> string \<Rightarrow> pay_db \<Rightarrow> pay_answer \<times> pay_db" where
  "tx_assign_plan e oid user gid days note db =
     (if ch_pick e = 1 then (A_Seat_Limit, db) else if ch_pick e > 1 then (A_Err, db)
      else (A_Unit, assign_or_extend_subscription_term oid user gid days note db))"

section \<open>All calls\<close>

fun pay_stmt :: "pay_choice \<Rightarrow> pay_call \<Rightarrow> pay_db \<Rightarrow> pay_answer \<times> pay_db" where
  "pay_stmt e C_Now db = (A_Time (ch_now e), db)"
| "pay_stmt e (C_Order oid) db = (only_order (\<lambda>r. po_id r = oid) db, db)"
| "pay_stmt e (C_Order_By_Trade_No t) db = (only_order (\<lambda>r. po_out_trade_no r = t) db, db)"
| "pay_stmt e (C_Expired_Orders now) db = (A_Orders (filter (order_timed_out now) (db_orders db)), db)"
| "pay_stmt e (C_Reconcilable_Orders now n) db =
     (A_Orders (take n (filter (order_reconcilable now) (db_orders db))), db)"
| "pay_stmt e C_Instances db = (A_Instances (db_instances db), db)"
| "pay_stmt e (C_Audit oid action) db = sql_audit oid action db"
| "pay_stmt e (C_Has_Audit oid action) db = (A_Bool (has_audit oid action db), db)"
| "pay_stmt e (C_To_Paid oid now paid trade_no) db = sql_to_paid (ch_now e) oid now paid trade_no db"
| "pay_stmt e (C_Acquire oid now) db = sql_acquire oid now db"
| "pay_stmt e (C_Complete oid version now) db = sql_complete (ch_now e) oid version now db"
| "pay_stmt e (C_Fail oid version now reason) db = sql_fail (ch_now e) oid version now reason db"
| "pay_stmt e (C_Close oid fs) db = sql_close (ch_now e) oid fs db"
| "pay_stmt e (C_Trade_No oid trade_no) db = sql_trade_no (ch_now e) oid trade_no db"
| "pay_stmt e (C_Code code) db = (repo_get_by_code code db, db)"
| "pay_stmt e (C_Code_By_Id i) db =
     (case find (\<lambda>c. rc_id c = i) (db_codes db) of None \<Rightarrow> A_None | Some c \<Rightarrow> A_Code c, db)"
| "pay_stmt e (C_Create_Code c) db = repo_create_code c db"
| "pay_stmt e (C_Redeem c user) db = tx_redeem e c user db"
| "pay_stmt e (C_User user) db = (if db_users db user = None then A_None else A_Unit, db)"
| "pay_stmt e (C_Redeem_Lock code) db = (A_Bool (ch_flag e), db)"
| "pay_stmt e (C_Redeem_Unlock code) db = (A_Unit, db)"
| "pay_stmt e (C_Redeem_Attempts user) db = (A_Int (ch_count e), db)"
| "pay_stmt e (C_Redeem_Attempt_Failed user) db = (A_Unit, db)"
| "pay_stmt e (C_Rebate ord base) db = tx_rebate e ord base db"
| "pay_stmt e (C_Group g) db =
     (case db_groups db g of None \<Rightarrow> A_None | Some r \<Rightarrow> A_Group r, db)"
| "pay_stmt e (C_Sub user gid) db =
     (case get_existing_subscription user gid db of None \<Rightarrow> A_None | Some r \<Rightarrow> A_Sub r, db)"
| "pay_stmt e (C_Assign_Plan oid user gid days note) db = tx_assign_plan e oid user gid days note db"
| "pay_stmt e (C_Assign_Group oid user gid days note) db = tx_assign_group e oid user gid days note db"
| "pay_stmt e (C_Invalidate user gid) db = (if ch_flag e then A_Unit else A_Err, db)"
| "pay_stmt e (C_Provider ord) db =
     (case ch_provider e of None \<Rightarrow> A_Err | Some k \<Rightarrow> A_Provider k, db)"
| "pay_stmt e (C_Query ref) db = (case ch_query e of None \<Rightarrow> A_Err | Some q \<Rightarrow> A_Query q, db)"
| "pay_stmt e (C_Cancel_Payment ref) db = (A_Unit, db)"

definition pay_exec :: "pay_choice \<Rightarrow> pay_call \<Rightarrow> pay_db \<Rightarrow> pay_answer \<times> pay_db" where
  "pay_exec e c db = (case c of C_Now \<Rightarrow> pay_stmt e C_Now db
   | _ \<Rightarrow> (case ch_outcome e of Done \<Rightarrow> pay_stmt e c db
     | Lost_Before \<Rightarrow> (A_Err, db)
     | Lost_After \<Rightarrow> (A_Err, snd (pay_stmt e c db))))"

end
