(* ===== verification/Payment_Fulfillment.thy ===== *)
theory Payment_Fulfillment
  imports Payment_Store
begin

text \<open>
  The operations of the payment service that move an order through its states, and the redemption
  of codes, as programs over the calls of \<open>Payment_Store\<close>:
  \<open>internal/service/payment_fulfillment.go\<close>, \<open>payment_order_lifecycle.go\<close>, \<open>redeem_service.go\<close>.

  An error of type \<open>error\<close> is \<open>go_error option\<close>, \<open>None\<close> being nil; a pair of a value and an error is
  a sum. \<open>pay_service\<close> holds what the service was constructed with: the registry of providers,
  and whether the affiliate service and the cache of the redeem service are there. Emails, log
  lines and the invalidation of caches that cannot fail have no effect on the tables and are left
  out. Answers of a kind that a call never gives are treated as its error.
\<close>

type_synonym 'r pay = "(pay_call, pay_answer, 'r) prog"

record pay_service =
  sv_registry :: "(string \<Rightarrow> string) option"
  sv_affiliate :: bool
  sv_redeem_cache :: bool

definition err_db :: "string \<Rightarrow> go_error" where "err_db m = Other_Error m None"

definition invalid_status :: "string \<Rightarrow> go_error" where
  "invalid_status m = bad_request ''INVALID_STATUS'' m"
definition pay_conflict :: "string \<Rightarrow> go_error" where
  "pay_conflict m = conflict_error ''CONFLICT'' m"
definition err_order_missing :: go_error where
  "err_order_missing = not_found_error ''NOT_FOUND'' ''order not found''"

section \<open>Audit log and rebate\<close>

definition write_audit_log :: "int \<Rightarrow> string \<Rightarrow> unit pay" where
  "write_audit_log oid action = Call (C_Audit oid action) (\<lambda>_. Ret ())"

definition has_audit_log :: "int \<Rightarrow> string \<Rightarrow> bool pay" where
  "has_audit_log oid action = Call (C_Has_Audit oid action)
     (\<lambda>a. Ret (case a of A_Bool b \<Rightarrow> b | _ \<Rightarrow> False))"

definition payment_order_amount_without_bonus :: "payment_order \<Rightarrow> rat" where
  "payment_order_amount_without_bonus ord =
     (if po_order_type ord \<noteq> ''balance'' \<or> po_bonus ord \<le> 0 then po_amount ord
      else max (fixed (po_amount ord - po_bonus ord) 2) 0)"

definition affiliate_rebate_base_amount :: "payment_order \<Rightarrow> rat" where
  "affiliate_rebate_base_amount ord =
     (if po_order_type ord = ''balance'' then payment_order_amount_without_bonus ord
      else if po_order_type ord = ''subscription'' then po_amount ord else 0)"

definition apply_affiliate_rebate_for_order :: "pay_service \<Rightarrow> payment_order \<Rightarrow> go_error option pay" where
  "apply_affiliate_rebate_for_order sv ord =
     (if affiliate_rebate_base_amount ord \<le> 0 \<and> po_order_type ord \<noteq> ''subscription'' then Ret None
      else if \<not> sv_affiliate sv then Ret None
      else Call (C_Rebate ord (affiliate_rebate_base_amount ord)) (\<lambda>a. case a of
          A_Bool _ \<Rightarrow> Ret None
        | _ \<Rightarrow> bind_prog (write_audit_log (po_id ord) ''AFFILIATE_REBATE_FAILED'')
            (\<lambda>_. Ret (Some (err_db ''affiliate rebate'')))))"

section \<open>Redeeming a code\<close>

definition err_code_not_found :: go_error where
  "err_code_not_found = not_found_error ''REDEEM_CODE_NOT_FOUND'' ''redeem code not found''"
definition err_code_used :: go_error where
  "err_code_used = conflict_error ''REDEEM_CODE_USED'' ''redeem code already used''"
definition err_code_expired :: go_error where
  "err_code_expired = conflict_error ''REDEEM_CODE_EXPIRED'' ''redeem code expired''"
definition err_code_locked :: go_error where
  "err_code_locked = conflict_error ''REDEEM_CODE_LOCKED'' ''redeem code is being processed, please try again''"
definition err_redeem_rate_limited :: go_error where
  "err_redeem_rate_limited = new_error 429 ''REDEEM_RATE_LIMITED'' ''too many failed attempts, please try again later''"
definition err_redeem_type :: "string \<Rightarrow> string \<Rightarrow> go_error" where
  "err_redeem_type reason m = bad_request reason m"

definition get_by_code :: "string \<Rightarrow> (go_error option + redeem_code) pay" where
  "get_by_code code = Call (C_Code code) (\<lambda>a. Ret (case a of
     A_Code c \<Rightarrow> Inr c | A_None \<Rightarrow> Inl None | _ \<Rightarrow> Inl (Some (err_db ''get redeem code''))))"

definition create_code :: "redeem_code \<Rightarrow> go_error option pay" where
  "create_code c0 = (let c = c0\<lparr>rc_code := trim_space (rc_code c0)\<rparr> in
     if rc_code c = [] then Ret (Some (Other_Error ''code is required'' None))
     else let c = (if rc_type c = [] then c\<lparr>rc_type := RedeemTypeBalance\<rparr> else c) in
       if rc_type c \<noteq> RedeemTypeInvitation \<and> rc_value c = 0
       then Ret (Some (Other_Error ''value must not be zero'' None))
       else let c = (if rc_status c = [] then c\<lparr>rc_status := StatusUnused\<rparr> else c) in
         Call C_Now (\<lambda>t. case t of
           A_Time now \<Rightarrow>
             if rc_is_expired_at c now then Ret (Some err_code_expired)
             else Call (C_Create_Code c) (\<lambda>a. case a of A_Unit \<Rightarrow> Ret None
               | _ \<Rightarrow> Ret (Some (err_db ''create redeem code'')))
         | _ \<Rightarrow> Ret (Some (err_db ''clock''))))"

definition check_redeem_rate_limit :: "pay_service \<Rightarrow> int \<Rightarrow> go_error option pay" where
  "check_redeem_rate_limit sv user = (if \<not> sv_redeem_cache sv then Ret None
     else Call (C_Redeem_Attempts user) (\<lambda>a. case a of
         A_Int n \<Rightarrow> Ret (if 30 \<le> n then Some err_redeem_rate_limited else None)
       | _ \<Rightarrow> Ret None))"

definition increment_redeem_error_count :: "pay_service \<Rightarrow> int \<Rightarrow> unit pay" where
  "increment_redeem_error_count sv user = (if \<not> sv_redeem_cache sv then Ret ()
     else Call (C_Redeem_Attempt_Failed user) (\<lambda>_. Ret ()))"

definition acquire_redeem_lock :: "pay_service \<Rightarrow> string \<Rightarrow> bool pay" where
  "acquire_redeem_lock sv code = (if \<not> sv_redeem_cache sv then Ret True
     else Call (C_Redeem_Lock code) (\<lambda>a. Ret (case a of A_Bool b \<Rightarrow> b | _ \<Rightarrow> True)))"

definition release_redeem_lock :: "pay_service \<Rightarrow> string \<Rightarrow> unit pay" where
  "release_redeem_lock sv code = (if \<not> sv_redeem_cache sv then Ret ()
     else Call (C_Redeem_Unlock code) (\<lambda>_. Ret ()))"

definition unsupported_redeem_type_error :: "string \<Rightarrow> go_error" where
  "unsupported_redeem_type_error t = err_redeem_type ''REDEEM_CODE_UNSUPPORTED_TYPE''
     (if t = RedeemTypeInvitation then ''invitation codes can only be used during registration''
      else ''unsupported redeem type: '' @ t)"

definition redeem_type_error :: "redeem_code \<Rightarrow> go_error option" where
  "redeem_type_error c =
     (if rc_type c = RedeemTypeBalance \<or> rc_type c = RedeemTypeConcurrency then None
      else if rc_type c = RedeemTypeSubscription then
        (if rc_group c = None \<and> rc_plan c = None then Some (err_redeem_type ''REDEEM_CODE_INVALID''
             ''invalid subscription redeem code: missing group_id or plan_id'')
         else if rc_group c \<noteq> None \<and> rc_plan c \<noteq> None then Some (err_redeem_type
             ''REDEEM_CODE_TARGET_CONFLICT'' ''plan_id and group_id cannot both be set for subscription type'')
         else None)
      else Some (unsupported_redeem_type_error (rc_type c)))"

text \<open>The refusal of a code, counted against the user when the limit is enforced.\<close>

definition redeem_refuse ::
  "pay_service \<Rightarrow> bool \<Rightarrow> int \<Rightarrow> go_error \<Rightarrow> (go_error + redeem_code) pay" where
  "redeem_refuse sv limited user e = bind_prog
     (if limited then increment_redeem_error_count sv user else Ret ()) (\<lambda>_. Ret (Inl e))"

definition redeem_tx :: "redeem_code \<Rightarrow> int \<Rightarrow> (go_error + redeem_code) pay" where
  "redeem_tx c user = Call (C_Redeem c user) (\<lambda>a. case a of
       A_Unit \<Rightarrow> Call (C_Code_By_Id (rc_id c)) (\<lambda>a. Ret (case a of A_Code c' \<Rightarrow> Inr c'
         | _ \<Rightarrow> Inl (err_db ''get updated redeem code'')))
     | A_Used \<Rightarrow> Ret (Inl err_code_used)
     | _ \<Rightarrow> Ret (Inl (err_db ''redeem transaction'')))"

text \<open>The checks of a code that was found, and its transaction.\<close>

definition redeem_found :: "pay_service \<Rightarrow> bool \<Rightarrow> int \<Rightarrow> redeem_code \<Rightarrow> (go_error + redeem_code) pay" where
  "redeem_found sv limited user c = Call C_Now (\<lambda>t. case t of
     A_Time now1 \<Rightarrow>
       if rc_is_expired_at c now1 then redeem_refuse sv limited user err_code_expired
       else Call C_Now (\<lambda>t. case t of
         A_Time now2 \<Rightarrow>
           if \<not> rc_can_use c now2 then redeem_refuse sv limited user err_code_used
           else (case redeem_type_error c of Some e \<Rightarrow> Ret (Inl e)
           | None \<Rightarrow> Call (C_User user) (\<lambda>a. case a of
               A_Unit \<Rightarrow> redeem_tx c user
             | _ \<Rightarrow> Ret (Inl (err_db ''get user''))))
       | _ \<Rightarrow> Ret (Inl (err_db ''clock'')))
   | _ \<Rightarrow> Ret (Inl (err_db ''clock'')))"

definition redeem_locked :: "pay_service \<Rightarrow> bool \<Rightarrow> int \<Rightarrow> string \<Rightarrow> (go_error + redeem_code) pay" where
  "redeem_locked sv limited user code = bind_prog (get_by_code code) (\<lambda>r. case r of
       Inl None \<Rightarrow> redeem_refuse sv limited user err_code_not_found
     | Inl (Some e) \<Rightarrow> Ret (Inl e)
     | Inr c \<Rightarrow> redeem_found sv limited user c)"

definition redeem :: "pay_service \<Rightarrow> bool \<Rightarrow> int \<Rightarrow> string \<Rightarrow> (go_error + redeem_code) pay" where
  "redeem sv limited user code = bind_prog
     (if limited then check_redeem_rate_limit sv user else Ret None) (\<lambda>err. case err of
       Some e \<Rightarrow> Ret (Inl e)
     | None \<Rightarrow> bind_prog (acquire_redeem_lock sv code) (\<lambda>ok.
         if \<not> ok then Ret (Inl err_code_locked)
         else bind_prog (redeem_locked sv limited user code)
           (\<lambda>r. bind_prog (release_redeem_lock sv code) (\<lambda>_. Ret r))))"

section \<open>The lease of an order\<close>

definition truncate_us :: "time \<Rightarrow> time" where "truncate_us t = t - t mod 1000"

definition acquire_payment_fulfillment_lease :: "payment_order \<Rightarrow> (go_error + time option) pay" where
  "acquire_payment_fulfillment_lease ord = Call C_Now (\<lambda>t. case t of
     A_Time t0 \<Rightarrow> Call (C_Acquire (po_id ord) (truncate_us t0)) (\<lambda>a. case a of
         A_Rows n \<Rightarrow>
           if n = 0 then Call (C_Order (po_id ord)) (\<lambda>a. case a of
               A_Order cur \<Rightarrow>
                 if po_status cur = OS_Completed then Ret (Inr None)
                 else if po_status cur = OS_Recharging
                 then Ret (Inl (pay_conflict ''order is being processed''))
                 else Ret (Inl (pay_conflict ''order status changed while acquiring fulfillment lease''))
             | _ \<Rightarrow> Ret (Inl (err_db ''reload fulfillment lease'')))
           else Call (C_Order (po_id ord)) (\<lambda>a. case a of
               A_Order claimed \<Rightarrow>
                 if po_status claimed \<noteq> OS_Recharging
                 then Ret (Inl (pay_conflict ''fulfillment lease was lost''))
                 else Ret (Inr (Some (po_updated claimed)))
             | _ \<Rightarrow> Ret (Inl (err_db ''reload acquired fulfillment lease'')))
       | _ \<Rightarrow> Ret (Inl (err_db ''acquire fulfillment lease'')))
   | _ \<Rightarrow> Ret (Inl (err_db ''clock'')))"

definition mark_completed :: "payment_order \<Rightarrow> time \<Rightarrow> string \<Rightarrow> go_error option pay" where
  "mark_completed ord version action = Call C_Now (\<lambda>t. case t of
     A_Time now \<Rightarrow> Call (C_Complete (po_id ord) version now) (\<lambda>a. case a of
         A_Rows n \<Rightarrow>
           if n = 0 then Call (C_Order (po_id ord)) (\<lambda>a. Ret (case a of
               A_Order cur \<Rightarrow> if po_status cur = OS_Completed then None
                 else Some (pay_conflict ''fulfillment lease was lost before completion'')
             | _ \<Rightarrow> Some (pay_conflict ''fulfillment lease was lost before completion'')))
           else bind_prog (has_audit_log (po_id ord) action) (\<lambda>b.
             if b then Ret None
             else bind_prog (write_audit_log (po_id ord) action) (\<lambda>_. Ret None))
       | _ \<Rightarrow> Ret (Some (err_db ''mark completed'')))
   | _ \<Rightarrow> Ret (Some (err_db ''clock'')))"

definition mark_failed :: "int \<Rightarrow> time \<Rightarrow> go_error \<Rightarrow> unit pay" where
  "mark_failed oid version cause = Call C_Now (\<lambda>t. case t of
     A_Time now \<Rightarrow> Call (C_Fail oid version now cause) (\<lambda>a. case a of
         A_Rows n \<Rightarrow> if 0 < n then write_audit_log oid ''FULFILLMENT_FAILED'' else Ret ()
       | _ \<Rightarrow> Ret ())
   | _ \<Rightarrow> Ret ())"

section \<open>Fulfilment of a balance order\<close>

definition payment_redeem_code :: "payment_order \<Rightarrow> redeem_code" where
  "payment_redeem_code ord = \<lparr>rc_id = 0, rc_code = po_recharge_code ord, rc_type = RedeemTypeBalance,
     rc_value = po_amount ord, rc_status = StatusUnused, rc_used_by = None, rc_used_at = None,
     rc_expires = None, rc_group = None, rc_plan = None\<rparr>"

definition rebate_and_complete ::
  "pay_service \<Rightarrow> payment_order \<Rightarrow> time \<Rightarrow> string \<Rightarrow> go_error option pay" where
  "rebate_and_complete sv ord version action = bind_prog (apply_affiliate_rebate_for_order sv ord)
     (\<lambda>err. case err of Some e \<Rightarrow> Ret (Some e) | None \<Rightarrow> mark_completed ord version action)"

definition redeem_and_complete :: "pay_service \<Rightarrow> payment_order \<Rightarrow> time \<Rightarrow> go_error option pay" where
  "redeem_and_complete sv ord version =
     bind_prog (redeem sv False (po_user ord) (po_recharge_code ord)) (\<lambda>r. case r of
       Inl e \<Rightarrow> Ret (Some (Other_Error ''redeem balance'' (Some e)))
     | Inr _ \<Rightarrow> rebate_and_complete sv ord version ''RECHARGE_SUCCESS'')"

definition do_balance :: "pay_service \<Rightarrow> payment_order \<Rightarrow> time \<Rightarrow> go_error option pay" where
  "do_balance sv ord version = bind_prog (get_by_code (po_recharge_code ord)) (\<lambda>r.
     case resolve_redeem_action r of
       Inl e \<Rightarrow> Ret (Some e)
     | Inr act \<Rightarrow>
       (case (case r of Inr c \<Rightarrow> validate_payment_redeem_code ord c | Inl _ \<Rightarrow> None) of
          Some e \<Rightarrow> Ret (Some e)
        | None \<Rightarrow> (case act of
            Redeem_Skip_Completed \<Rightarrow> rebate_and_complete sv ord version ''RECHARGE_SUCCESS''
          | Redeem_Create \<Rightarrow> bind_prog (create_code (payment_redeem_code ord)) (\<lambda>err. case err of
              Some e \<Rightarrow> Ret (Some (Other_Error ''create redeem code'' (Some e)))
            | None \<Rightarrow> redeem_and_complete sv ord version)
          | Redeem_Only \<Rightarrow> redeem_and_complete sv ord version)))"

text \<open>The frame that both kinds of fulfilment share: the states that may be fulfilled, the lease, the failure.\<close>

definition fulfillable_error :: "payment_order \<Rightarrow> go_error option" where
  "fulfillable_error ord =
     (if ps_is_refund_status (po_status ord)
      then Some (invalid_status ''refund-related order cannot fulfill'')
      else if po_status ord \<noteq> OS_Paid \<and> po_status ord \<noteq> OS_Failed \<and> po_status ord \<noteq> OS_Recharging
      then Some (invalid_status ''order cannot fulfill in status'') else None)"

definition with_lease ::
  "payment_order \<Rightarrow> (time \<Rightarrow> go_error option pay) \<Rightarrow> go_error option pay" where
  "with_lease ord body = bind_prog (acquire_payment_fulfillment_lease ord) (\<lambda>r. case r of
       Inl e \<Rightarrow> Ret (Some e)
     | Inr None \<Rightarrow> Ret None
     | Inr (Some version) \<Rightarrow> bind_prog (body version) (\<lambda>err. case err of
         None \<Rightarrow> Ret None
       | Some e \<Rightarrow> bind_prog (mark_failed (po_id ord) version e) (\<lambda>_. Ret (Some e))))"

definition execute_balance_fulfillment :: "pay_service \<Rightarrow> int \<Rightarrow> go_error option pay" where
  "execute_balance_fulfillment sv oid = Call (C_Order oid) (\<lambda>a. case a of
     A_Order ord \<Rightarrow>
       if po_status ord = OS_Completed then Ret None
       else (case fulfillable_error ord of Some e \<Rightarrow> Ret (Some e)
       | None \<Rightarrow> with_lease ord (do_balance sv ord))
   | _ \<Rightarrow> Ret (Some err_order_missing))"

section \<open>Fulfilment of a subscription order\<close>

definition payment_subscription_order_note :: "int \<Rightarrow> string" where
  "payment_subscription_order_note oid = ''payment order '' @ itoa oid"

abbreviation group_or_0 :: "payment_order \<Rightarrow> int" where
  "group_or_0 ord \<equiv> (case po_group ord of None \<Rightarrow> 0 | Some g \<Rightarrow> g)"

definition subscription_has_order_note :: "payment_order \<Rightarrow> string \<Rightarrow> bool pay" where
  "subscription_has_order_note ord note = (if trim_space note = [] then Ret False
     else Call (C_Sub (po_user ord) (group_or_0 ord)) (\<lambda>a. Ret (case a of
         A_Sub r \<Rightarrow> list_ex (\<lambda>line. trim_space line = note) (split_on newline (sb_notes r))
       | _ \<Rightarrow> False)))"

definition err_group_not_subscription :: go_error where
  "err_group_not_subscription = bad_request ''GROUP_NOT_SUBSCRIPTION_TYPE'' ''group is not a subscription type''"

definition check_group :: "int \<Rightarrow> go_error option pay" where
  "check_group gid = Call (C_Group gid) (\<lambda>a. Ret (case a of
       A_Group g \<Rightarrow> if \<not> gr_active g then Some (err_db ''group no longer exists or inactive'')
         else if \<not> gr_subscription g then Some err_group_not_subscription else None
     | _ \<Rightarrow> Some (err_db ''group no longer exists or inactive'')))"

definition do_sub_with_plan_seat :: "payment_order \<Rightarrow> int \<Rightarrow> string \<Rightarrow> go_error option pay" where
  "do_sub_with_plan_seat ord days note = bind_prog
     (if 0 < group_or_0 ord then check_group (group_or_0 ord) else Ret None) (\<lambda>err. case err of
       Some e \<Rightarrow> Ret (Some e)
     | None \<Rightarrow> (let gid = (if 0 < group_or_0 ord then group_or_0 ord else 0) in
         Call (C_Assign_Plan (po_id ord) (po_user ord) gid days note) (\<lambda>a. case a of
           A_Unit \<Rightarrow> Call (C_Invalidate (po_user ord) gid) (\<lambda>a. Ret (case a of A_Unit \<Rightarrow> None
             | _ \<Rightarrow> Some (err_db ''invalidate subscription cache after plan fulfillment'')))
         | A_Seat_Limit \<Rightarrow> bind_prog (write_audit_log (po_id ord) ''SUBSCRIPTION_SEAT_LIMIT_REACHED'')
             (\<lambda>_. Ret (Some (err_db ''seat limit'')))
         | _ \<Rightarrow> Ret (Some (err_db ''plan seat transaction'')))))"

definition ensure_payment_subscription_assigned ::
  "payment_order \<Rightarrow> int \<Rightarrow> int \<Rightarrow> go_error option pay" where
  "ensure_payment_subscription_assigned ord gid days =
     Call (C_Assign_Group (po_id ord) (po_user ord) gid days (payment_subscription_order_note (po_id ord)))
       (\<lambda>a. case a of
         A_Unit \<Rightarrow> Call (C_Invalidate (po_user ord) gid) (\<lambda>a. Ret (case a of A_Unit \<Rightarrow> None
           | _ \<Rightarrow> Some (err_db ''invalidate subscription cache after fulfillment'')))
       | _ \<Rightarrow> Ret (Some (err_db ''subscription fulfillment tx'')))"

definition do_sub_assign :: "pay_service \<Rightarrow> payment_order \<Rightarrow> int \<Rightarrow> time \<Rightarrow> go_error option pay" where
  "do_sub_assign sv ord days version =
     (let note = payment_subscription_order_note (po_id ord);
          then_finish = (\<lambda>err. case err of Some e \<Rightarrow> Ret (Some e)
            | None \<Rightarrow> rebate_and_complete sv ord version ''SUBSCRIPTION_SUCCESS'')
      in case po_plan ord of
           Some _ \<Rightarrow> bind_prog (do_sub_with_plan_seat ord days note) then_finish
         | None \<Rightarrow> (case po_group ord of
             None \<Rightarrow> Ret (Some (invalid_status ''missing subscription group''))
           | Some gid \<Rightarrow> bind_prog (check_group gid) (\<lambda>err. case err of Some e \<Rightarrow> Ret (Some e)
               | None \<Rightarrow> bind_prog (ensure_payment_subscription_assigned ord gid days) then_finish)))"

definition do_sub :: "pay_service \<Rightarrow> payment_order \<Rightarrow> int \<Rightarrow> time \<Rightarrow> go_error option pay" where
  "do_sub sv ord days version =
     bind_prog (has_audit_log (po_id ord) ''SUBSCRIPTION_SUCCESS'') (\<lambda>assigned.
       if assigned then rebate_and_complete sv ord version ''SUBSCRIPTION_SUCCESS''
       else bind_prog (subscription_has_order_note ord (payment_subscription_order_note (po_id ord)))
         (\<lambda>noted. if noted then rebate_and_complete sv ord version ''SUBSCRIPTION_SUCCESS''
           else do_sub_assign sv ord days version))"

definition execute_subscription_fulfillment :: "pay_service \<Rightarrow> int \<Rightarrow> go_error option pay" where
  "execute_subscription_fulfillment sv oid = Call (C_Order oid) (\<lambda>a. case a of
     A_Order ord \<Rightarrow>
       if po_status ord = OS_Completed then Ret None
       else (case fulfillable_error ord of Some e \<Rightarrow> Ret (Some e)
       | None \<Rightarrow> (case po_days ord of
           None \<Rightarrow> Ret (Some (invalid_status ''missing subscription info''))
         | Some days \<Rightarrow> if po_plan ord = None \<and> po_group ord = None
             then Ret (Some (invalid_status ''missing subscription info''))
             else with_lease ord (do_sub sv ord days)))
   | _ \<Rightarrow> Ret (Some err_order_missing))"

section \<open>Notifications\<close>

definition execute_fulfillment :: "pay_service \<Rightarrow> int \<Rightarrow> go_error option pay" where
  "execute_fulfillment sv oid = Call (C_Order oid) (\<lambda>a. case a of
     A_Order ord \<Rightarrow> if po_order_type ord = ''subscription'' then execute_subscription_fulfillment sv oid
                     else execute_balance_fulfillment sv oid
   | _ \<Rightarrow> Ret (Some (err_db ''get order'')))"

definition already_processed :: "pay_service \<Rightarrow> payment_order \<Rightarrow> go_error option pay" where
  "already_processed sv ord = Call (C_Order (po_id ord)) (\<lambda>a. case a of
     A_Order cur \<Rightarrow>
       if po_status cur \<in> {OS_Completed, OS_Refunded} then Ret None
       else if po_status cur \<in> {OS_Failed, OS_Paid, OS_Recharging}
       then execute_fulfillment sv (po_id ord)
       else if po_status cur = OS_Expired
       then bind_prog (write_audit_log (po_id ord) ''PAYMENT_AFTER_EXPIRY'') (\<lambda>_. Ret None)
       else Ret None
   | _ \<Rightarrow> Ret None)"

definition to_paid :: "pay_service \<Rightarrow> payment_order \<Rightarrow> string \<Rightarrow> rat \<Rightarrow> go_error option pay" where
  "to_paid sv ord trade_no paid = Call C_Now (\<lambda>t. case t of
     A_Time now \<Rightarrow> Call (C_To_Paid (po_id ord) now paid trade_no) (\<lambda>a. case a of
         A_Rows n \<Rightarrow>
           if n = 0 then already_processed sv ord
           else bind_prog (if po_status ord \<in> {OS_Cancelled, OS_Expired}
               then write_audit_log (po_id ord) ''ORDER_RECOVERED'' else Ret ()) (\<lambda>_.
             bind_prog (write_audit_log (po_id ord) ''ORDER_PAID'')
               (\<lambda>_. execute_fulfillment sv (po_id ord)))
       | _ \<Rightarrow> Ret (Some (err_db ''update to PAID'')))
   | _ \<Rightarrow> Ret (Some (err_db ''clock'')))"

text \<open>The verdict of \<open>confirmPayment\<close> on a notification: the audit action and the error, or the amount.\<close>

definition instance_key :: "pay_answer \<Rightarrow> payment_order \<Rightarrow> string" where
  "instance_key a ord = (case a of
     A_Instances insts \<Rightarrow> (case get_order_provider_instance insts ord of
       Inr (Some i) \<Rightarrow> pi_provider_key i | _ \<Rightarrow> [])
   | _ \<Rightarrow> [])"

definition judge_notification ::
  "pay_service \<Rightarrow> payment_order \<Rightarrow> string \<Rightarrow> float64 \<Rightarrow> string \<Rightarrow> (string \<times> string) list
    \<Rightarrow> (string \<times> go_error) + rat" where
  "judge_notification sv ord inst_key paid pk metadata =
     (let expected = expected_notification_provider_key_for_order (sv_registry sv) ord inst_key in
      if expected \<noteq> [] \<and> trim_space pk \<noteq> [] \<and> \<not> equal_fold expected (trim_space pk)
      then Inl (''PAYMENT_PROVIDER_MISMATCH'', Other_Error ''provider mismatch'' None)
      else case validate_provider_snapshot_metadata ord pk metadata of
        Some e \<Rightarrow> Inl (''PAYMENT_PROVIDER_METADATA_MISMATCH'', e)
      | None \<Rightarrow> (case paid of
          Fin p \<Rightarrow>
            if \<not> is_valid_provider_amount paid
            then Inl (''PAYMENT_INVALID_AMOUNT'', Other_Error ''invalid paid amount from provider'' None)
            else if \<bar>p - po_pay_amount ord\<bar> >
                payment_amount_tolerance_for_currency (payment_order_currency ord)
            then Inl (''PAYMENT_AMOUNT_MISMATCH'', Other_Error ''amount mismatch'' None)
            else Inr p
        | _ \<Rightarrow> Inl (''PAYMENT_INVALID_AMOUNT'', Other_Error ''invalid paid amount from provider'' None)))"

definition confirm_payment ::
  "pay_service \<Rightarrow> int \<Rightarrow> string \<Rightarrow> float64 \<Rightarrow> string \<Rightarrow> (string \<times> string) list \<Rightarrow> go_error option pay" where
  "confirm_payment sv oid trade_no paid pk metadata = Call (C_Order oid) (\<lambda>a. case a of
     A_Order ord \<Rightarrow> Call C_Instances (\<lambda>a.
       case judge_notification sv ord (instance_key a ord) paid pk metadata of
         Inl (action, e) \<Rightarrow> bind_prog (write_audit_log (po_id ord) action) (\<lambda>_. Ret (Some e))
       | Inr p \<Rightarrow> to_paid sv ord trade_no p)
   | _ \<Rightarrow> Ret None)"

record payment_notification =
  nt_trade_no :: string
  nt_order_id :: string
  nt_amount :: float64
  nt_status :: string
  nt_metadata :: "(string \<times> string) list"

definition err_payment_order_not_found :: go_error where
  "err_payment_order_not_found = Other_Error ''payment order not found'' None"

definition handle_payment_notification ::
  "pay_service \<Rightarrow> payment_notification \<Rightarrow> string \<Rightarrow> go_error option pay" where
  "handle_payment_notification sv n pk =
     (let confirm = (\<lambda>oid. confirm_payment sv oid (nt_trade_no n) (nt_amount n) pk (nt_metadata n)) in
      if nt_status n \<noteq> ''success'' then Ret None
      else Call (C_Order_By_Trade_No (nt_order_id n)) (\<lambda>a. case a of
          A_Order ord \<Rightarrow> confirm (po_id ord)
        | A_None \<Rightarrow> (case parse_legacy_payment_order_id (nt_order_id n) True of
            Some oid \<Rightarrow> confirm oid
          | None \<Rightarrow> Ret (Some (Other_Error ''out_trade_no'' (Some err_payment_order_not_found))))
        | _ \<Rightarrow> Ret (Some (err_db ''lookup order failed''))))"

definition retry_fulfillment :: "pay_service \<Rightarrow> int \<Rightarrow> go_error option pay" where
  "retry_fulfillment sv oid = Call (C_Order oid) (\<lambda>a. case a of
     A_Order ord \<Rightarrow>
       if po_paid_at ord = None then Ret (Some (invalid_status ''order is not paid''))
       else if ps_is_refund_status (po_status ord)
       then Ret (Some (invalid_status ''refund-related order cannot retry''))
       else if po_status ord = OS_Completed
       then Ret (Some (invalid_status ''order already completed''))
       else if po_status ord \<noteq> OS_Failed \<and> po_status ord \<noteq> OS_Paid \<and> po_status ord \<noteq> OS_Recharging
       then Ret (Some (invalid_status ''only paid, failed, and recoverable recharging orders can retry''))
       else bind_prog (write_audit_log oid ''RECHARGE_RETRY'') (\<lambda>_. execute_fulfillment sv oid)
   | _ \<Rightarrow> Ret (Some err_order_missing))"

end
