(* ===== verification/Payment_Lifecycle.thy ===== *)
theory Payment_Lifecycle
  imports Payment_Fulfillment
begin

text \<open>
  Cancelling, expiring and reconciling orders (\<open>internal/service/payment_order_lifecycle.go\<close>), and
  the requests that the payment subsystem serves as one pool of programs.

  The provider that handles an order is outside the model: the call \<open>C_Provider\<close> answers its key,
  \<open>C_Query\<close> what it says of a payment.
\<close>

section \<open>Asking the provider\<close>

definition payment_order_query_reference :: "payment_order \<Rightarrow> string \<Rightarrow> string" where
  "payment_order_query_reference ord prov_key =
     (let k = trim_space prov_key;
          k = (if k = [] then (case ps_order_provider_snapshot ord of
                 Some sn \<Rightarrow> trim_space (sn_provider_key sn) | None \<Rightarrow> []) else k);
          k = (if k = [] then trim_space (ps_string_value (po_provider_key ord)) else k);
          k = (if k = [] then trim_space (po_payment_type ord) else k)
      in if get_base_payment_type k \<in> {TypeAlipay, TypeEasyPay, TypeIkunPay, TypeWxpay}
         then trim_space (po_out_trade_no ord)
         else if trim_space (po_trade_no ord) \<noteq> [] then trim_space (po_trade_no ord)
         else trim_space (po_out_trade_no ord))"

definition payment_order_should_persist_upstream_trade_no :: "string \<Rightarrow> string \<Rightarrow> string \<Rightarrow> bool" where
  "payment_order_should_persist_upstream_trade_no query_ref upstream current =
     (let u = trim_space upstream in
      if u = [] then False
      else if equal_fold u (trim_space current) then False
      else if equal_fold u (trim_space query_ref) then False
      else True)"

definition requery_paid_order_once :: "string \<Rightarrow> query_response option pay" where
  "requery_paid_order_once ref = (if trim_space ref = [] then Ret None
     else Call (C_Query ref) (\<lambda>a. Ret (case a of
         A_Query q \<Rightarrow> if qr_status q \<noteq> ''paid'' \<or> \<not> is_valid_provider_amount (qr_amount q)
                       then None else Some q
       | _ \<Rightarrow> None)))"

definition paid_response ::
  "pay_service \<Rightarrow> payment_order \<Rightarrow> string \<Rightarrow> string \<Rightarrow> query_response \<Rightarrow> bool pay" where
  "paid_response sv ord prov_key ref q =
     (let upstream = trim_space (qr_trade_no q);
          notify = (\<lambda>trade_no. bind_prog (handle_payment_notification sv
            \<lparr>nt_trade_no = trade_no, nt_order_id = po_out_trade_no ord, nt_amount = qr_amount q,
             nt_status = ''success'', nt_metadata = qr_metadata q\<rparr> prov_key) (\<lambda>_. Ret True))
      in if payment_order_should_persist_upstream_trade_no ref upstream (po_trade_no ord)
         then Call (C_Trade_No (po_id ord) upstream) (\<lambda>_. notify upstream)
         else notify (po_trade_no ord))"

text \<open>The result says whether the order was found to be paid already.\<close>

definition check_paid_with_options :: "pay_service \<Rightarrow> payment_order \<Rightarrow> bool \<Rightarrow> bool pay" where
  "check_paid_with_options sv ord cancel_if_unpaid = Call (C_Provider ord) (\<lambda>a. case a of
     A_Provider prov_key \<Rightarrow>
       (let ref = payment_order_query_reference ord prov_key in
        if ref = [] then Ret False
        else Call (C_Query ref) (\<lambda>a. case a of
            A_Query q \<Rightarrow>
              if qr_status q = ''paid'' then
                (if \<not> is_valid_provider_amount (qr_amount q)
                 then bind_prog (write_audit_log (po_id ord) ''PAYMENT_INVALID_AMOUNT'') (\<lambda>_.
                   bind_prog (requery_paid_order_once ref) (\<lambda>r. case r of
                     None \<Rightarrow> Ret False
                   | Some q' \<Rightarrow> paid_response sv ord prov_key ref q'))
                 else paid_response sv ord prov_key ref q)
              else if \<not> cancel_if_unpaid then Ret False
              else Call (C_Cancel_Payment ref) (\<lambda>_. Ret False)
          | _ \<Rightarrow> Ret False))
   | _ \<Rightarrow> Ret False)"

abbreviation "check_paid sv ord \<equiv> check_paid_with_options sv ord True"
abbreviation "reconcile_paid sv ord \<equiv> check_paid_with_options sv ord False"

section \<open>Cancelling and expiring\<close>

datatype close_result = Already_Paid | Close_Done | Close_Error go_error

definition cancel_core :: "pay_service \<Rightarrow> payment_order \<Rightarrow> order_status \<Rightarrow> close_result pay" where
  "cancel_core sv ord fs = bind_prog
     (if po_trade_no ord \<noteq> [] \<or> po_payment_type ord \<noteq> [] then check_paid sv ord else Ret False)
     (\<lambda>paid. if paid then Ret Already_Paid
       else Call (C_Close (po_id ord) fs) (\<lambda>a. case a of
           A_Rows n \<Rightarrow>
             if 0 < n then bind_prog (write_audit_log (po_id ord)
                 (if fs = OS_Expired then ''ORDER_EXPIRED'' else ''ORDER_CANCELLED''))
                 (\<lambda>_. Ret Close_Done)
             else Ret Close_Done
         | _ \<Rightarrow> Ret (Close_Error (err_db ''update order status''))))"

definition cancel_order :: "pay_service \<Rightarrow> int \<Rightarrow> int \<Rightarrow> close_result pay" where
  "cancel_order sv oid user = Call (C_Order oid) (\<lambda>a. case a of
     A_Order ord \<Rightarrow>
       if po_user ord \<noteq> user
       then Ret (Close_Error (forbidden_error ''FORBIDDEN'' ''no permission for this order''))
       else if po_status ord \<noteq> OS_Pending
       then Ret (Close_Error (invalid_status ''order cannot be cancelled in current status''))
       else cancel_core sv ord OS_Cancelled
   | _ \<Rightarrow> Ret (Close_Error err_order_missing))"

definition admin_cancel_order :: "pay_service \<Rightarrow> int \<Rightarrow> close_result pay" where
  "admin_cancel_order sv oid = Call (C_Order oid) (\<lambda>a. case a of
     A_Order ord \<Rightarrow>
       if po_status ord \<noteq> OS_Pending
       then Ret (Close_Error (invalid_status ''order cannot be cancelled in current status''))
       else cancel_core sv ord OS_Cancelled
   | _ \<Rightarrow> Ret (Close_Error err_order_missing))"

fun expire_each :: "pay_service \<Rightarrow> payment_order list \<Rightarrow> nat \<Rightarrow> nat pay" where
  "expire_each sv [] n = Ret n"
| "expire_each sv (ord # ords) n = bind_prog (cancel_core sv ord OS_Expired) (\<lambda>r. case r of
     Close_Done \<Rightarrow> expire_each sv ords (n + 1)
   | _ \<Rightarrow> expire_each sv ords n)"

definition expire_timed_out_orders :: "pay_service \<Rightarrow> (go_error + nat) pay" where
  "expire_timed_out_orders sv = Call C_Now (\<lambda>t. case t of
     A_Time now \<Rightarrow> Call (C_Expired_Orders now) (\<lambda>a. case a of
         A_Orders ords \<Rightarrow> bind_prog (expire_each sv ords 0) (\<lambda>n. Ret (Inr n))
       | _ \<Rightarrow> Ret (Inl (err_db ''query expired'')))
   | _ \<Rightarrow> Ret (Inl (err_db ''clock'')))"

section \<open>Reconciling\<close>

fun reconcile_each :: "pay_service \<Rightarrow> payment_order list \<Rightarrow> nat \<Rightarrow> nat pay" where
  "reconcile_each sv [] n = Ret n"
| "reconcile_each sv (ord # ords) n = bind_prog (reconcile_paid sv ord)
     (\<lambda>paid. reconcile_each sv ords (if paid then n + 1 else n))"

definition reconcile_pending_provider_orders :: "pay_service \<Rightarrow> (go_error + nat) pay" where
  "reconcile_pending_provider_orders sv = Call C_Now (\<lambda>t. case t of
     A_Time now \<Rightarrow> Call (C_Reconcilable_Orders now 20) (\<lambda>a. case a of
         A_Orders ords \<Rightarrow> bind_prog (reconcile_each sv ords 0) (\<lambda>n. Ret (Inr n))
       | _ \<Rightarrow> Ret (Inl (err_db ''query pending provider orders'')))
   | _ \<Rightarrow> Ret (Inl (err_db ''clock'')))"

definition trade_no_char :: "char \<Rightarrow> bool" where
  "trade_no_char ch \<longleftrightarrow> 97 \<le> byte ch \<and> byte ch \<le> 122 \<or> 65 \<le> byte ch \<and> byte ch \<le> 90 \<or>
     48 \<le> byte ch \<and> byte ch \<le> 57 \<or> ch = CHR ''_'' \<or> ch = CHR ''-''"

definition normalize_order_lookup_out_trade_no :: "string \<Rightarrow> go_error + string" where
  "normalize_order_lookup_out_trade_no raw = (let t = trim_space raw in
     if t = [] then Inl (bad_request ''INVALID_OUT_TRADE_NO'' ''out_trade_no is required'')
     else if length t > 64 then Inl (bad_request ''INVALID_OUT_TRADE_NO'' ''out_trade_no is invalid'')
     else if list_all trade_no_char t then Inr t
     else Inl (bad_request ''INVALID_OUT_TRADE_NO'' ''out_trade_no is invalid''))"

definition verify_order_by_out_trade_no ::
  "pay_service \<Rightarrow> string \<Rightarrow> int \<Rightarrow> (go_error + payment_order) pay" where
  "verify_order_by_out_trade_no sv raw user = (case normalize_order_lookup_out_trade_no raw of
     Inl e \<Rightarrow> Ret (Inl e)
   | Inr t \<Rightarrow> Call (C_Order_By_Trade_No t) (\<lambda>a. case a of
       A_Order ord \<Rightarrow>
         if po_user ord \<noteq> user
         then Ret (Inl (forbidden_error ''FORBIDDEN'' ''no permission for this order''))
         else if po_status ord \<in> {OS_Pending, OS_Expired} then
           bind_prog (reconcile_paid sv ord) (\<lambda>paid. if paid
             then Call (C_Order (po_id ord)) (\<lambda>a. Ret (case a of A_Order cur \<Rightarrow> Inr cur
               | _ \<Rightarrow> Inl (err_db ''reload order'')))
             else Ret (Inr ord))
         else Ret (Inr ord)
     | _ \<Rightarrow> Ret (Inl err_order_missing)))"

section \<open>The requests of the subsystem\<close>

datatype pay_request =
    Req_Notify payment_notification string
  | Req_Retry int
  | Req_Cancel int int
  | Req_Admin_Cancel int
  | Req_Expire
  | Req_Reconcile
  | Req_Verify string int
  | Req_Redeem int string
  | Req_Create_Code redeem_code

abbreviation ignore_result :: "'r pay \<Rightarrow> unit pay" where
  "ignore_result p \<equiv> bind_prog p (\<lambda>_. Ret ())"

fun serve :: "pay_service \<Rightarrow> pay_request \<Rightarrow> unit pay" where
  "serve sv (Req_Notify n pk) = ignore_result (handle_payment_notification sv n pk)"
| "serve sv (Req_Retry oid) = ignore_result (retry_fulfillment sv oid)"
| "serve sv (Req_Cancel oid user) = ignore_result (cancel_order sv oid user)"
| "serve sv (Req_Admin_Cancel oid) = ignore_result (admin_cancel_order sv oid)"
| "serve sv Req_Expire = ignore_result (expire_timed_out_orders sv)"
| "serve sv Req_Reconcile = ignore_result (reconcile_pending_provider_orders sv)"
| "serve sv (Req_Verify t user) = ignore_result (verify_order_by_out_trade_no sv t user)"
| "serve sv (Req_Redeem user code) = ignore_result (redeem sv True user code)"
| "serve sv (Req_Create_Code c) = ignore_result
     (create_code (c\<lparr>rc_status := StatusUnused, rc_used_by := None, rc_used_at := None\<rparr>))"

end
