(* ===== verification/Payment_Invariant.thy ===== *)
theory Payment_Invariant
  imports Payment_Lifecycle
begin

text \<open>
  The invariant of the payment tables, the relation that every call respects, and the proof that
  each call keeps both. \<open>call_ok\<close> is what a caller has to know before a call: the order it
  completes has been credited, the code it redeems is a row of the table, a plan is assigned only
  to an order for a plan.
\<close>

section \<open>What an order and a code keep\<close>

definition po_core :: "payment_order \<Rightarrow> payment_order" where
  "po_core r = r\<lparr>po_status := OS_Pending, po_pay_amount := 0, po_trade_no := [], po_paid_at := None,
     po_completed_at := None, po_failed_at := None, po_failed_reason := None, po_updated := 0\<rparr>"

definition unpaid :: "order_status \<Rightarrow> bool" where
  "unpaid st \<longleftrightarrow> st = OS_Pending \<or> st = OS_Cancelled \<or> st = OS_Expired"

text \<open>A provider may pay the amount asked for up to the tolerance of the currency.\<close>

definition paid_ok :: "payment_order \<Rightarrow> rat \<Rightarrow> bool" where
  "paid_ok ord p \<longleftrightarrow> 0 < p \<and>
     \<bar>p - po_pay_amount ord\<bar> \<le> payment_amount_tolerance_for_currency (payment_order_currency ord)"

text \<open>How an order may change: it is paid once, with an acceptable amount, and completed for good.\<close>

definition order_step :: "payment_order \<Rightarrow> payment_order \<Rightarrow> bool" where
  "order_step r r' \<longleftrightarrow> po_core r' = po_core r \<and> (unpaid (po_status r') \<longrightarrow> unpaid (po_status r)) \<and>
     (po_status r = OS_Completed \<longrightarrow> po_status r' = OS_Completed) \<and>
     (po_paid_at r \<noteq> None \<longrightarrow> po_paid_at r' \<noteq> None) \<and>
     (if unpaid (po_status r) \<and> \<not> unpaid (po_status r')
      then paid_ok r (po_pay_amount r') \<and> po_paid_at r' \<noteq> None
      else po_pay_amount r' = po_pay_amount r)"

definition code_core :: "redeem_code \<Rightarrow> redeem_code" where
  "code_core c = c\<lparr>rc_status := [], rc_used_by := None, rc_used_at := None\<rparr>"

definition code_step :: "redeem_code \<Rightarrow> redeem_code \<Rightarrow> bool" where
  "code_step c c' \<longleftrightarrow> code_core c' = code_core c \<and>
     (rc_status c = StatusUsed \<longrightarrow> rc_status c' = StatusUsed \<and> rc_used_by c' = rc_used_by c)"

lemma po_core_eq:
  assumes "po_core r' = po_core r"
  shows "po_id r' = po_id r" "po_user r' = po_user r" "po_amount r' = po_amount r"
    "po_recharge_code r' = po_recharge_code r" "po_order_type r' = po_order_type r"
    "po_plan r' = po_plan r" "po_group r' = po_group r" "po_days r' = po_days r"
    "po_out_trade_no r' = po_out_trade_no r" "po_snapshot r' = po_snapshot r"
proof -
  have "f (po_core r') = f (po_core r)" for f :: "payment_order \<Rightarrow> 'a" using assms by simp
  from this [of po_id] this [of po_user] this [of po_amount] this [of po_recharge_code]
    this [of po_order_type] this [of po_plan] this [of po_group] this [of po_days] this [of po_out_trade_no]
    this [of po_snapshot]
  show "po_id r' = po_id r" "po_user r' = po_user r" "po_amount r' = po_amount r"
    "po_recharge_code r' = po_recharge_code r" "po_order_type r' = po_order_type r"
    "po_plan r' = po_plan r" "po_group r' = po_group r" "po_days r' = po_days r"
    "po_out_trade_no r' = po_out_trade_no r" "po_snapshot r' = po_snapshot r"
    by (simp_all add: po_core_def)
qed

lemma paid_ok_core:
  assumes "po_core r' = po_core r" "po_pay_amount r' = po_pay_amount r"
  shows "paid_ok r' p = paid_ok r p"
  using assms(2) po_core_eq(10) [OF assms(1)]
  by (simp add: paid_ok_def payment_order_currency_def ps_order_provider_snapshot_def)

lemma code_core_eq:
  assumes "code_core c' = code_core c"
  shows "rc_id c' = rc_id c" "rc_code c' = rc_code c" "rc_type c' = rc_type c" "rc_value c' = rc_value c"
proof -
  have "f (code_core c') = f (code_core c)" for f :: "redeem_code \<Rightarrow> 'a" using assms by simp
  from this [of rc_id] this [of rc_code] this [of rc_type] this [of rc_value]
  show "rc_id c' = rc_id c" "rc_code c' = rc_code c" "rc_type c' = rc_type c" "rc_value c' = rc_value c"
    by (simp_all add: code_core_def)
qed

lemma order_step_refl [simp]: "order_step r r"
  by (simp add: order_step_def)

lemma order_step_trans: "order_step a b \<Longrightarrow> order_step b c \<Longrightarrow> order_step a c"
proof -
  assume a: "order_step a b" and b: "order_step b c"
  have eq: "po_pay_amount b = po_pay_amount a \<Longrightarrow> paid_ok b p = paid_ok a p" for p
    using a by (intro paid_ok_core) (simp_all add: order_step_def)
  show ?thesis
  proof (cases "unpaid (po_status b)")
    case True
    then have "unpaid (po_status a)" "po_pay_amount b = po_pay_amount a" using a by (simp_all add: order_step_def)
    then show ?thesis using a b True eq unfolding order_step_def by (simp split: if_splits)
  next
    case False
    then have "\<not> unpaid (po_status c)" "po_pay_amount c = po_pay_amount b" using b by (auto simp: order_step_def)
    then show ?thesis using a b False unfolding order_step_def by (simp split: if_splits)
  qed
qed

lemma code_step_refl [simp]: "code_step c c"
  by (simp add: code_step_def)

lemma code_step_trans: "code_step a b \<Longrightarrow> code_step b c \<Longrightarrow> code_step a c"
  by (auto simp: code_step_def)

lemma list_all2_member1: "list_all2 R xs ys \<Longrightarrow> x \<in> set xs \<Longrightarrow> \<exists>y \<in> set ys. R x y"
  by (induction rule: list_all2_induct) auto

lemma list_all2_member2: "list_all2 R xs ys \<Longrightarrow> y \<in> set ys \<Longrightarrow> \<exists>x \<in> set xs. R x y"
  by (induction rule: list_all2_induct) auto

section \<open>Invariant\<close>

abbreviation is_sub :: "payment_order \<Rightarrow> bool" where
  "is_sub ord \<equiv> po_order_type ord = ''subscription''"

definition worth :: "payment_order \<Rightarrow> rat \<Rightarrow> bool" where
  "worth ord v \<longleftrightarrow> \<bar>v - po_amount ord\<bar> \<le> 1 / 10 ^ 8"

text \<open>The code of the order is in the table and is worth what was bought, and it has been redeemed by its user.\<close>

definition code_ready :: "pay_db \<Rightarrow> payment_order \<Rightarrow> bool" where
  "code_ready db ord \<longleftrightarrow> (\<exists>c \<in> set (db_codes db). rc_code c = po_recharge_code ord \<and>
     rc_type c = RedeemTypeBalance \<and> worth ord (rc_value c))"

definition used_by_user :: "pay_db \<Rightarrow> string \<Rightarrow> int \<Rightarrow> bool" where
  "used_by_user db code user \<longleftrightarrow> (\<exists>c \<in> set (db_codes db). rc_code c = code \<and>
     rc_status c = StatusUsed \<and> rc_used_by c = Some user)"

definition credited :: "pay_db \<Rightarrow> payment_order \<Rightarrow> bool" where
  "credited db ord \<longleftrightarrow> code_ready db ord \<and> used_by_user db (po_recharge_code ord) (po_user ord)"

definition codes_inv :: "pay_db \<Rightarrow> bool" where
  "codes_inv db \<longleftrightarrow> distinct (map rc_id (db_codes db)) \<and> distinct (map rc_code (db_codes db)) \<and>
     (\<forall>c \<in> set (db_codes db). rc_id c < db_next_code db)"

definition ledger_inv :: "pay_db \<Rightarrow> bool" where
  "ledger_inv db \<longleftrightarrow> distinct (map fst (db_ledger db)) \<and>
     (\<forall>(k, u, v) \<in> set (db_ledger db). \<exists>c \<in> set (db_codes db). rc_code c = k \<and>
        rc_type c = RedeemTypeBalance \<and> rc_status c = StatusUsed \<and> rc_used_by c = Some u \<and> rc_value c = v) \<and>
     (\<forall>c \<in> set (db_codes db). rc_type c = RedeemTypeBalance \<longrightarrow> rc_status c = StatusUsed \<longrightarrow>
        (\<exists>u. rc_used_by c = Some u \<and> (rc_code c, u, rc_value c) \<in> set (db_ledger db)))"

definition orders_inv :: "pay_db \<Rightarrow> bool" where
  "orders_inv db \<longleftrightarrow> distinct (map po_id (db_orders db)) \<and>
     (\<forall>ord \<in> set (db_orders db). \<not> is_sub ord \<longrightarrow>
        trim_space (po_recharge_code ord) = po_recharge_code ord \<and>
        (po_status ord = OS_Completed \<longrightarrow> credited db ord))"

definition terms_of :: "pay_db \<Rightarrow> int \<Rightarrow> (int \<times> int) list" where
  "terms_of db oid = filter (\<lambda>t. fst t = oid) (db_terms db)"

definition terms_inv :: "pay_db \<Rightarrow> bool" where
  "terms_inv db \<longleftrightarrow> (\<forall>ord \<in> set (db_orders db). po_plan ord = None \<longrightarrow>
     length (terms_of db (po_id ord)) \<le> 1 \<and>
     (terms_of db (po_id ord) \<noteq> [] \<longrightarrow> has_audit (po_id ord) ''SUBSCRIPTION_ASSIGNED'' db))"

definition rewards_inv :: "pay_db \<Rightarrow> bool" where
  "rewards_inv db \<longleftrightarrow> distinct (db_rewards db) \<and>
     (\<forall>oid \<in> set (db_rewards db). has_audit oid ''AFFILIATE_REBATE_APPLIED'' db)"

definition pay_inv :: "pay_db \<Rightarrow> bool" where
  "pay_inv db \<longleftrightarrow> codes_inv db \<and> ledger_inv db \<and> orders_inv db \<and> terms_inv db \<and> rewards_inv db"

section \<open>Relation between successive states\<close>

fun apply_posting :: "int \<Rightarrow> posting \<Rightarrow> rat \<Rightarrow> rat" where
  "apply_posting u (Redemption k u' v) b = (if u' = u then (if v < 0 then max (b + v) 0 else b + v) else b)"
| "apply_posting u (Reward g) b = (if gc_user g = u then b + gc_amount g else b)"

definition replay :: "int \<Rightarrow> posting list \<Rightarrow> rat \<Rightarrow> rat" where
  "replay u l b = fold (apply_posting u) l b"

lemma replay_append [simp]: "replay u (l @ m) b = replay u m (replay u l b)"
  by (simp add: replay_def)

lemma replay_Nil [simp]: "replay u [] b = b"
  by (simp add: replay_def)

fun redemptions :: "posting list \<Rightarrow> (string \<times> int \<times> rat) list" where
  "redemptions [] = []"
| "redemptions (Redemption k u v # l) = (k, u, v) # redemptions l"
| "redemptions (Reward g # l) = redemptions l"

fun grants :: "posting list \<Rightarrow> affiliate_grant list" where
  "grants [] = []"
| "grants (Redemption k u v # l) = grants l"
| "grants (Reward g # l) = g # grants l"

lemma redemptions_append [simp]: "redemptions (l @ m) = redemptions l @ redemptions m"
  by (induction l rule: redemptions.induct) simp_all

lemma grants_append [simp]: "grants (l @ m) = grants l @ grants m"
  by (induction l rule: grants.induct) simp_all

definition credit_key :: "affiliate_grant \<Rightarrow> int \<times> string \<times> string" where
  "credit_key g = (gc_user g, gc_type g, gc_source_key g)"

definition balance_of :: "pay_db \<Rightarrow> int \<Rightarrow> rat option" where
  "balance_of db u = map_option us_balance (db_users db u)"

definition codes_le :: "pay_db \<Rightarrow> pay_db \<Rightarrow> bool" where
  "codes_le s t \<longleftrightarrow> (\<forall>c \<in> set (db_codes s). \<exists>c' \<in> set (db_codes t). code_step c c')"

definition accounts_le :: "pay_db \<Rightarrow> pay_db \<Rightarrow> bool" where
  "accounts_le s t \<longleftrightarrow> (\<exists>l. db_postings t = db_postings s @ l \<and>
     db_ledger t = db_ledger s @ redemptions l \<and> db_credits t = db_credits s @ grants l \<and>
     (distinct (map credit_key (db_credits s)) \<longrightarrow> distinct (map credit_key (db_credits t))) \<and>
     (\<forall>u. balance_of t u = map_option (replay u l) (balance_of s u)))"

text \<open>The tables of the accounts.\<close>

definition same_accounts :: "pay_db \<Rightarrow> pay_db \<Rightarrow> bool" where
  "same_accounts s t \<longleftrightarrow> db_ledger t = db_ledger s \<and> db_users t = db_users s \<and>
     db_credits t = db_credits s \<and> db_postings t = db_postings s"

lemma same_accounts_le: "same_accounts s t \<Longrightarrow> accounts_le s t"
  unfolding accounts_le_def same_accounts_def
  by (intro exI [of _ "[]"]) (simp add: balance_of_def option.map_comp comp_def)

definition pay_rely :: "pay_db \<Rightarrow> pay_db \<Rightarrow> bool" where
  "pay_rely s t \<longleftrightarrow> list_all2 order_step (db_orders s) (db_orders t) \<and> codes_le s t \<and>
     accounts_le s t \<and> set (db_audit s) \<subseteq> set (db_audit t)"

lemma codes_le_refl [simp]: "codes_le s s"
  unfolding codes_le_def by (meson code_step_refl)

lemma codes_le_trans: "codes_le s t \<Longrightarrow> codes_le t u \<Longrightarrow> codes_le s u"
  unfolding codes_le_def by (meson code_step_trans)

lemma accounts_le_refl [simp]: "accounts_le s s"
  by (rule same_accounts_le) (simp add: same_accounts_def)

lemma accounts_le_trans: "accounts_le s t \<Longrightarrow> accounts_le t u \<Longrightarrow> accounts_le s u"
proof -
  assume "accounts_le s t" "accounts_le t u"
  then obtain l m where l: "db_postings t = db_postings s @ l" "db_ledger t = db_ledger s @ redemptions l"
      "db_credits t = db_credits s @ grants l"
      "distinct (map credit_key (db_credits s)) \<longrightarrow> distinct (map credit_key (db_credits t))"
      "\<And>v. balance_of t v = map_option (replay v l) (balance_of s v)"
    and m: "db_postings u = db_postings t @ m" "db_ledger u = db_ledger t @ redemptions m"
      "db_credits u = db_credits t @ grants m"
      "distinct (map credit_key (db_credits t)) \<longrightarrow> distinct (map credit_key (db_credits u))"
      "\<And>v. balance_of u v = map_option (replay v m) (balance_of t v)"
    unfolding accounts_le_def by blast
  have "balance_of u v = map_option (replay v (l @ m)) (balance_of s v)" for v
    by (simp add: l(5) m(5) option.map_comp comp_def replay_append [abs_def])
  then show ?thesis unfolding accounts_le_def
    using l(1-4) m(1-4) by (intro exI [of _ "l @ m"]) simp
qed

lemma pay_rely_refl: "pay_rely s s"
  by (simp add: pay_rely_def list_all2_refl)

lemma pay_rely_trans: "pay_rely s t \<Longrightarrow> pay_rely t u \<Longrightarrow> pay_rely s u"
  unfolding pay_rely_def
  by (auto intro: list_all2_trans [of order_step order_step order_step] order_step_trans codes_le_trans
      accounts_le_trans)

interpretation pay: rely_guarantee pay_exec pay_inv pay_rely
  by unfold_locales (auto intro: pay_rely_refl pay_rely_trans)

section \<open>Facts that last\<close>

definition known_order :: "payment_order \<Rightarrow> pay_db \<Rightarrow> bool" where
  "known_order ord db \<longleftrightarrow> (\<exists>r \<in> set (db_orders db). po_core r = po_core ord)"

definition known_code :: "redeem_code \<Rightarrow> pay_db \<Rightarrow> bool" where
  "known_code c db \<longleftrightarrow> (\<exists>d \<in> set (db_codes db). code_step c d)"

lemma rely_known_order: "pay_rely s t \<Longrightarrow> known_order ord s \<Longrightarrow> known_order ord t"
  unfolding pay_rely_def known_order_def by (metis list_all2_member1 order_step_def)

text \<open>An order as it was read: while it is unpaid the amount asked for does not change.\<close>

definition seen_order :: "payment_order \<Rightarrow> pay_db \<Rightarrow> bool" where
  "seen_order ord db \<longleftrightarrow> (\<exists>r \<in> set (db_orders db). order_step ord r)"

lemma rely_seen_order: "pay_rely s t \<Longrightarrow> seen_order ord s \<Longrightarrow> seen_order ord t"
  unfolding pay_rely_def seen_order_def by (metis list_all2_member1 order_step_trans)

lemma rely_known_code: "pay_rely s t \<Longrightarrow> known_code c s \<Longrightarrow> known_code c t"
  unfolding pay_rely_def known_code_def codes_le_def by (meson code_step_trans)

lemma rely_code_ready: "pay_rely s t \<Longrightarrow> code_ready s ord \<Longrightarrow> code_ready t ord"
proof -
  assume r: "pay_rely s t" and "code_ready s ord"
  then obtain c where c: "c \<in> set (db_codes s)" "rc_code c = po_recharge_code ord"
    "rc_type c = RedeemTypeBalance" "worth ord (rc_value c)" by (auto simp: code_ready_def)
  then obtain d where d: "d \<in> set (db_codes t)" "code_core d = code_core c"
    using r by (auto simp: pay_rely_def codes_le_def code_step_def)
  then show ?thesis using c code_core_eq [OF d(2)] unfolding code_ready_def
    by (intro bexI [of _ d]) simp_all
qed

lemma rely_used_by_user: "pay_rely s t \<Longrightarrow> used_by_user s k u \<Longrightarrow> used_by_user t k u"
proof -
  assume r: "pay_rely s t" and "used_by_user s k u"
  then obtain c where c: "c \<in> set (db_codes s)" "rc_code c = k" "rc_status c = StatusUsed"
    "rc_used_by c = Some u" by (auto simp: used_by_user_def)
  then obtain d where d: "d \<in> set (db_codes t)" "code_step c d"
    using r by (auto simp: pay_rely_def codes_le_def)
  then have "code_core d = code_core c" by (simp add: code_step_def)
  then show ?thesis using c d code_core_eq [of d c] unfolding used_by_user_def
    by (intro bexI [of _ d]) (simp_all add: code_step_def)
qed

lemma rely_credited: "pay_rely s t \<Longrightarrow> credited s ord \<Longrightarrow> credited t ord"
  unfolding credited_def using rely_code_ready rely_used_by_user by blast

lemmas rely_stable = rely_known_order rely_known_code rely_code_ready rely_used_by_user rely_credited

lemma worth_core: "po_core r = po_core ord \<Longrightarrow> worth r v = worth ord v"
  by (simp add: worth_def po_core_eq [of r ord])

lemma credited_core: "po_core r = po_core ord \<Longrightarrow> credited db r = credited db ord"
  by (simp add: credited_def code_ready_def worth_core [of r ord] po_core_eq [of r ord])

section \<open>Each call keeps the invariant\<close>

text \<open>Updates of orders.\<close>

lemma same_tables_inv:
  assumes "pay_inv db" "db_codes db' = db_codes db" "db_next_code db' = db_next_code db"
    "db_ledger db' = db_ledger db" "db_terms db' = db_terms db" "db_rewards db' = db_rewards db"
    "db_orders db' = db_orders db" "set (db_audit db) \<subseteq> set (db_audit db')"
  shows "pay_inv db'"
  using assms unfolding pay_inv_def codes_inv_def ledger_inv_def orders_inv_def terms_inv_def
    rewards_inv_def credited_def code_ready_def used_by_user_def terms_of_def has_audit_def
  by (simp add: subset_iff)

lemma update_orders_keeps:
  assumes inv: "pay_inv db" and "update_orders P f db = (a, db')"
    and step: "\<And>r. r \<in> set (db_orders db) \<Longrightarrow> P r \<Longrightarrow> order_step r (f r)"
    and compl: "\<And>r. r \<in> set (db_orders db) \<Longrightarrow> P r \<Longrightarrow> po_status (f r) = OS_Completed \<Longrightarrow>
      po_status r = OS_Completed \<or> is_sub r \<or> credited db r"
  shows "pay_inv db' \<and> pay_rely db db'"
proof -
  define g where "g = (\<lambda>r. if P r then f r else r)"
  have db': "db' = db\<lparr>db_orders := map g (db_orders db)\<rparr>" 
    using assms(2) by (simp add: update_orders_def g_def)
  have st: "order_step r (g r)" if "r \<in> set (db_orders db)" for r using step that by (simp add: g_def)
  have core: "po_core (g r) = po_core r" if "r \<in> set (db_orders db)" for r
    using st [OF that] by (simp add: order_step_def)
  have ids: "map po_id (map g (db_orders db)) = map po_id (db_orders db)"
    using po_core_eq(1) [OF core] by simp
  have all2: "list_all2 order_step (db_orders db) (map g (db_orders db))"
    using st by (simp add: list_all2_map2 list.rel_refl_strong)
  have cr: "credited db' r = credited db r" for r
    by (simp add: db' credited_def code_ready_def used_by_user_def)
  have "orders_inv db'"
  proof -
    have "trim_space (po_recharge_code (g r)) = po_recharge_code (g r) \<and>
        (po_status (g r) = OS_Completed \<longrightarrow> credited db' (g r))"
      if r: "r \<in> set (db_orders db)" "\<not> is_sub (g r)" for r
    proof -
      note c = core [OF r(1)] and e = po_core_eq [OF core [OF r(1)]]
      have i: "trim_space (po_recharge_code r) = po_recharge_code r"
        "po_status r = OS_Completed \<longrightarrow> credited db r"
        using inv r e(5) by (auto simp: pay_inv_def orders_inv_def)
      have "credited db' (g r)" if "po_status (g r) = OS_Completed"
      proof -
        have "po_status r = OS_Completed \<or> credited db r"
          using compl [OF r(1)] that r(2) e(5) by (auto simp: g_def split: if_splits)
        then have "credited db r" using i(2) by blast
        then show ?thesis using cr credited_core [OF c] by simp
      qed
      then show ?thesis using i(1) e(4) by simp
    qed
    moreover have "distinct (map po_id (map g (db_orders db)))"
      using inv unfolding ids by (simp add: orders_inv_def pay_inv_def)
    ultimately show ?thesis by (simp add: db' orders_inv_def del: map_map)
  qed
  moreover have "terms_inv db'"
    using inv po_core_eq(1) [OF core] po_core_eq(6) [OF core]
    by (simp add: db' terms_inv_def pay_inv_def terms_of_def has_audit_def)
  moreover have "codes_inv db' \<and> ledger_inv db' \<and> rewards_inv db'"
    using inv by (simp add: db' pay_inv_def codes_inv_def ledger_inv_def rewards_inv_def has_audit_def)
  moreover have "accounts_le db db'" by (rule same_accounts_le) (simp add: same_accounts_def db')
  ultimately show ?thesis
    using all2 by (simp add: pay_inv_def pay_rely_def db' codes_le_def) (meson code_step_refl)
qed

lemma unpaid_simps [simp]:
  "unpaid OS_Pending" "unpaid OS_Cancelled" "unpaid OS_Expired" "\<not> unpaid OS_Paid"
  "\<not> unpaid OS_Recharging" "\<not> unpaid OS_Completed" "\<not> unpaid OS_Failed"
  by (simp_all add: unpaid_def)

lemma sql_to_paid_keeps:
  assumes "\<And>r. r \<in> set (db_orders db) \<Longrightarrow> po_id r = oid \<Longrightarrow> unpaid (po_status r) \<Longrightarrow> paid_ok r p"
  shows "pay_inv db \<Longrightarrow> sql_to_paid clk oid now p t db = (a, db') \<Longrightarrow> pay_inv db' \<and> pay_rely db db'"
  unfolding sql_to_paid_def
  by (erule update_orders_keeps, assumption)
    (use assms in \<open>auto simp: order_step_def po_core_def payable_def\<close>)

lemma sql_acquire_keeps:
  "pay_inv db \<Longrightarrow> sql_acquire oid now db = (a, db') \<Longrightarrow> pay_inv db' \<and> pay_rely db db'"
  unfolding sql_acquire_def
  by (erule update_orders_keeps, assumption) (auto simp: order_step_def po_core_def acquirable_def)

lemma sql_complete_keeps:
  assumes "\<And>r. r \<in> set (db_orders db) \<Longrightarrow> po_id r = oid \<Longrightarrow> is_sub r \<or> credited db r"
  shows "pay_inv db \<Longrightarrow> sql_complete clk oid v now db = (a, db') \<Longrightarrow> pay_inv db' \<and> pay_rely db db'"
  unfolding sql_complete_def
  by (erule update_orders_keeps, assumption) (use assms in \<open>auto simp: order_step_def po_core_def held_def\<close>)

lemma sql_fail_keeps:
  "pay_inv db \<Longrightarrow> sql_fail clk oid v now e db = (a, db') \<Longrightarrow> pay_inv db' \<and> pay_rely db db'"
  unfolding sql_fail_def
  by (erule update_orders_keeps, assumption) (auto simp: order_step_def po_core_def held_def)

lemma sql_close_keeps:
  "fs = OS_Cancelled \<or> fs = OS_Expired \<Longrightarrow> pay_inv db \<Longrightarrow> sql_close clk oid fs db = (a, db') \<Longrightarrow>
    pay_inv db' \<and> pay_rely db db'"
  unfolding sql_close_def
  by (erule update_orders_keeps, assumption) (auto simp: order_step_def po_core_def)

lemma sql_trade_no_keeps:
  "pay_inv db \<Longrightarrow> sql_trade_no clk oid t db = (a, db') \<Longrightarrow> pay_inv db' \<and> pay_rely db db'"
  unfolding sql_trade_no_def
  by (erule update_orders_keeps, assumption) (auto simp: order_step_def po_core_def)

text \<open>Calls that leave orders, codes and balances alone.\<close>

lemma same_accounts_rely:
  assumes "db_codes db' = db_codes db" "accounts_le db db'"
    "db_orders db' = db_orders db" "set (db_audit db) \<subseteq> set (db_audit db')"
  shows "pay_rely db db'"
  using assms by (simp add: pay_rely_def codes_le_def list_all2_refl) (meson code_step_refl)

lemmas same_accounts_intros = same_accounts_rely same_accounts_le same_accounts_def [THEN iffD2]

lemma sql_audit_keeps:
  assumes "pay_inv db" "sql_audit oid act db = (a, db')"
  shows "pay_inv db' \<and> pay_rely db db'"
  using assms by (auto simp: sql_audit_def pay_rely_refl split: if_splits
      intro!: same_tables_inv [of db] same_accounts_intros)

text \<open>The settlement of a first recharge changes accounts and affiliates only.\<close>

definition settles :: "pay_db \<Rightarrow> pay_db \<Rightarrow> bool" where
  "settles s t \<longleftrightarrow> accounts_le s t \<and> db_orders t = db_orders s \<and> db_codes t = db_codes s \<and>
     db_next_code t = db_next_code s \<and> db_ledger t = db_ledger s \<and> db_terms t = db_terms s \<and>
     db_rewards t = db_rewards s \<and> db_audit t = db_audit s"

lemma settles_refl [simp]: "settles s s"
  by (simp add: settles_def)

lemma settles_trans: "settles s t \<Longrightarrow> settles t u \<Longrightarrow> settles s u"
  by (auto simp: settles_def intro: accounts_le_trans)

lemma settles_affiliates: "settles s (s\<lparr>db_affiliates := f\<rparr>)"
  by (simp add: settles_def same_accounts_le same_accounts_def)

lemma settles_resolve: "settles s t \<Longrightarrow> settles s (resolve_affiliate i oid a b t)"
  unfolding resolve_affiliate_def by (rule settles_trans [OF _ settles_affiliates])

lemma grant_reward_credit_settles:
  assumes "grant_reward_credit_tx g db = Some (b, db')"
  shows "settles db db'"
proof (cases "list_ex (same_grant g) (db_credits db)")
  case True then show ?thesis using assms by (simp add: grant_reward_credit_tx_def)
next
  case False
  then obtain u where u: "db_users db (gc_user g) = Some u"
    and db': "db' = db\<lparr>db_credits := db_credits db @ [g],
           db_users := (db_users db)(gc_user g \<mapsto> u\<lparr>us_balance := us_balance u + gc_amount g\<rparr>),
           db_postings := db_postings db @ [Reward g]\<rparr>"
    using assms by (auto simp: grant_reward_credit_tx_def split: option.splits)
  have "credit_key g \<notin> credit_key ` set (db_credits db)"
    using False by (auto simp: list_ex_iff same_grant_def credit_key_def)
  then have "accounts_le db db'" unfolding accounts_le_def
    by (intro exI [of _ "[Reward g]"])
      (auto simp: db' balance_of_def u replay_def option.map_comp comp_def option.map_id0 map_option_idI)
  then show ?thesis by (simp add: settles_def db')
qed

lemma resolve_first_recharge_settles:
  assumes "resolve_first_recharge cfg invitee oid q db = Some (b, db')"
  shows "settles db db'"
proof -
  obtain rel db1 where en: "ensure_user_affiliate invitee db = (rel, db1)" by fastforce
  have 1: "settles db db1"
    using en by (auto simp: ensure_user_affiliate_def Let_def settles_affiliates split: option.splits)
  have inviter: "settles x y" if "grant_inviter_reward i j v l x = Some (c, y)" for i j v l x c y
    using that settles_trans [OF grant_reward_credit_settles settles_affiliates]
    by (auto simp: grant_inviter_reward_def grant_reward_credit_settles split: option.splits if_splits)
  have invitee: "settles x y" if "grant_invitee_reward i j v x = Some (c, y)" for i j v x c y
    using that by (auto simp: grant_invitee_reward_def grant_reward_credit_settles split: if_splits)
  have "settles x z" if "grant_affiliate_relationship_rewards_tx i j v w l x = Some (c, d, z)" for i j v w l x c d z
    using that by (auto simp: grant_affiliate_relationship_rewards_tx_def split: option.splits
        intro: settles_trans [OF inviter invitee])
  then show ?thesis using assms 1 settles_trans [OF 1]
    by (auto simp: resolve_first_recharge_def en intro!: settles_resolve split: if_splits option.splits)
qed

lemma grant_first_recharge_settles:
  "grant_first_recharge_reward e invitee base sub oid db = Some (b, db') \<Longrightarrow> settles db db'"
  by (auto simp: grant_first_recharge_reward_def Let_def split: if_splits dest: resolve_first_recharge_settles)

lemma tx_rebate_keeps:
  assumes inv: "pay_inv db" and tx: "tx_rebate e ord base db = (a, db')"
  shows "pay_inv db' \<and> pay_rely db db'"
proof (cases "db' = db")
  case True then show ?thesis using inv pay_rely_refl by simp
next
  case False
  then obtain b db1 where g: "grant_first_recharge_reward e (po_user ord) base
      (po_order_type ord = ''subscription'') (po_id ord) db = Some (b, db1)"
    and new: "\<not> has_audit (po_id ord) ''AFFILIATE_REBATE_APPLIED'' db"
    and db': "db' = (if b then db1\<lparr>db_audit := (po_id ord, ''AFFILIATE_REBATE_APPLIED'') # db_audit db,
         db_rewards := db_rewards db @ [po_id ord]\<rparr>
       else db1\<lparr>db_audit := (po_id ord, ''AFFILIATE_REBATE_SKIPPED'') # db_audit db\<rparr>)"
    using tx by (auto simp: tx_rebate_def split: if_splits option.splits bool.splits)
  have st: "settles db db1" using g by (rule grant_first_recharge_settles)
  then have "accounts_le db db1" by (simp add: settles_def)
  moreover have "accounts_le db1 db'" by (rule same_accounts_le) (simp add: same_accounts_def db')
  ultimately have "accounts_le db db'" by (rule accounts_le_trans)
  then have rel: "pay_rely db db'" using st by (intro same_accounts_rely) (auto simp: settles_def db')
  have "pay_inv (db'\<lparr>db_rewards := db_rewards db\<rparr>)"
    by (rule same_tables_inv [OF inv]) (use st in \<open>auto simp: settles_def db'\<close>)
  moreover have "rewards_inv db'"
    using inv new st by (auto simp: db' rewards_inv_def pay_inv_def has_audit_def settles_def)
  ultimately have "pay_inv db'"
    by (simp add: pay_inv_def codes_inv_def ledger_inv_def orders_inv_def terms_inv_def
        credited_def code_ready_def used_by_user_def terms_of_def has_audit_def)
  then show ?thesis using rel by blast
qed

text \<open>Terms of subscriptions.\<close>

lemma assign_fields [simp]:
  "db_codes (assign_or_extend_subscription_term oid user gid days note db) = db_codes db"
  "db_next_code (assign_or_extend_subscription_term oid user gid days note db) = db_next_code db"
  "db_ledger (assign_or_extend_subscription_term oid user gid days note db) = db_ledger db"
  "db_users (assign_or_extend_subscription_term oid user gid days note db) = db_users db"
  "db_orders (assign_or_extend_subscription_term oid user gid days note db) = db_orders db"
  "db_audit (assign_or_extend_subscription_term oid user gid days note db) = db_audit db"
  "db_rewards (assign_or_extend_subscription_term oid user gid days note db) = db_rewards db"
  "db_credits (assign_or_extend_subscription_term oid user gid days note db) = db_credits db"
  "db_postings (assign_or_extend_subscription_term oid user gid days note db) = db_postings db"
  "db_terms (assign_or_extend_subscription_term oid user gid days note db) =
     db_terms db @ [(oid, effective_days days)]"
  by (simp_all add: assign_or_extend_subscription_term_def Let_def split: option.splits)

lemma terms_added:
  assumes inv: "pay_inv db" and f: "db_codes db' = db_codes db" "db_next_code db' = db_next_code db"
    "same_accounts db db'" "db_orders db' = db_orders db"
    "db_rewards db' = db_rewards db" "set (db_audit db) \<subseteq> set (db_audit db')"
    "db_terms db' = db_terms db @ [(oid, d)]"
    and ok: "\<And>r. r \<in> set (db_orders db) \<Longrightarrow> po_id r = oid \<Longrightarrow> po_plan r = None \<Longrightarrow>
      \<not> has_audit oid ''SUBSCRIPTION_ASSIGNED'' db \<and> has_audit oid ''SUBSCRIPTION_ASSIGNED'' db'"
  shows "pay_inv db' \<and> pay_rely db db'"
proof -
  have old: "terms_inv db" using inv by (simp add: pay_inv_def)
  have "terms_inv db'" unfolding terms_inv_def
  proof (intro ballI impI)
    fix r assume r: "r \<in> set (db_orders db')" "po_plan r = None"
    then have o: "length (terms_of db (po_id r)) \<le> 1"
      "terms_of db (po_id r) \<noteq> [] \<longrightarrow> has_audit (po_id r) ''SUBSCRIPTION_ASSIGNED'' db"
      using old f(4) by (simp_all add: terms_inv_def)
    show "length (terms_of db' (po_id r)) \<le> 1 \<and>
        (terms_of db' (po_id r) \<noteq> [] \<longrightarrow> has_audit (po_id r) ''SUBSCRIPTION_ASSIGNED'' db')"
    proof (cases "po_id r = oid")
      case True
      then have "terms_of db oid = []" using ok r o f(4) by auto
      then show ?thesis using True ok r f by (simp add: terms_of_def)
    next
      case False
      then show ?thesis using o f(6,7) by (auto simp: terms_of_def has_audit_def)
    qed
  qed
  moreover have "codes_inv db' \<and> ledger_inv db' \<and> orders_inv db' \<and> rewards_inv db'"
    using inv f by (auto simp: pay_inv_def codes_inv_def ledger_inv_def orders_inv_def same_accounts_def
        credited_def code_ready_def used_by_user_def rewards_inv_def has_audit_def)
  ultimately show ?thesis using f by (simp add: pay_inv_def same_accounts_rely same_accounts_le)
qed

lemma tx_assign_plan_keeps:
  assumes "pay_inv db" "tx_assign_plan e oid user gid days note db = (a, db')"
    and "\<And>r. r \<in> set (db_orders db) \<Longrightarrow> po_id r = oid \<Longrightarrow> po_plan r \<noteq> None"
  shows "pay_inv db' \<and> pay_rely db db'"
proof (cases "db' = db")
  case True then show ?thesis using assms(1) pay_rely_refl by simp
next
  case False
  then have "db' = assign_or_extend_subscription_term oid user gid days note db"
    using assms(2) by (auto simp: tx_assign_plan_def split: if_splits)
  moreover have "po_plan r \<noteq> None" if "r \<in> set (db_orders db)" "po_id r = oid" for r
    using assms(3) that by blast
  ultimately show ?thesis using assms(1)
    by (intro terms_added [of db _ oid "effective_days days"]) (simp_all add: same_accounts_def, metis option.distinct(1))
qed

lemma tx_assign_group_keeps:
  assumes "pay_inv db" "tx_assign_group e oid user gid days note db = (a, db')"
  shows "pay_inv db' \<and> pay_rely db db'"
proof -
  consider "db' = db"
    | "db' = db\<lparr>db_audit := (oid, ''SUBSCRIPTION_ASSIGNED'') # db_audit db\<rparr>"
    | "\<not> has_payment_subscription_assignment_audit oid db"
      "db' = (assign_or_extend_subscription_term oid user gid days note db)
         \<lparr>db_audit := (oid, ''SUBSCRIPTION_ASSIGNED'') # db_audit db\<rparr>"
    using assms(2) by (auto simp: tx_assign_group_def Let_def split: if_splits option.splits)
  then show ?thesis
  proof cases
    case 1 then show ?thesis using assms pay_rely_refl by simp
  next
    case 2 then show ?thesis using assms(1) by (auto intro!: same_tables_inv [of db] same_accounts_intros)
  next
    case 3 then show ?thesis using assms(1)
      by (intro terms_added [of db _ oid "effective_days days"])
        (auto simp: has_payment_subscription_assignment_audit_def has_audit_def same_accounts_def)
  qed
qed

text \<open>Codes.\<close>

lemma repo_create_code_keeps:
  assumes inv: "pay_inv db" and mk: "repo_create_code c db = (a, db')" and "rc_status c \<noteq> StatusUsed"
  shows "pay_inv db' \<and> pay_rely db db'"
proof (cases "\<exists>d \<in> set (db_codes db). rc_code d = rc_code c")
  case True then show ?thesis using inv mk pay_rely_refl by (simp add: repo_create_code_def)
next
  case False
  then have db': "db' = db\<lparr>db_codes := db_codes db @ [c\<lparr>rc_id := db_next_code db\<rparr>],
      db_next_code := db_next_code db + 1\<rparr>" using mk by (simp add: repo_create_code_def)
  have le: "codes_le db db'" unfolding codes_le_def
  proof
    fix x assume "x \<in> set (db_codes db)"
    then show "\<exists>y \<in> set (db_codes db'). code_step x y" by (intro bexI [of _ x]) (simp_all add: db')
  qed
  have rel: "pay_rely db db'"
    using le by (auto simp: pay_rely_def list_all2_refl db' same_accounts_def intro!: same_accounts_le)
  have "codes_inv db'" using inv False
    by (fastforce simp: pay_inv_def codes_inv_def db')
  moreover have "ledger_inv db'" using inv assms(3) by (fastforce simp: pay_inv_def ledger_inv_def db')
  moreover have "orders_inv db'"
    using inv rely_credited [OF rel] by (auto simp: pay_inv_def orders_inv_def db')
  moreover have "terms_inv db' \<and> rewards_inv db'"
    using inv by (simp add: pay_inv_def terms_inv_def rewards_inv_def terms_of_def has_audit_def db')
  ultimately show ?thesis using rel by (simp add: pay_inv_def)
qed

lemma known_code_row:
  assumes "pay_inv db" "known_code c db" "\<exists>d \<in> set (db_codes db). code_unused (rc_id c) d"
  obtains d where "d \<in> set (db_codes db)" "code_core d = code_core c" "rc_status d = StatusUnused"
    "\<And>x. x \<in> set (db_codes db) \<Longrightarrow> rc_id x = rc_id c \<Longrightarrow> x = d"
proof -
  obtain d where d: "d \<in> set (db_codes db)" "code_step c d" using assms(2) by (auto simp: known_code_def)
  have core: "code_core d = code_core c" using d by (simp add: code_step_def)
  have id: "rc_id d = rc_id c" by (rule code_core_eq(1) [OF core])
  have uniq: "x = d" if "x \<in> set (db_codes db)" "rc_id x = rc_id c" for x
    using assms(1) that d(1) id by (auto simp: pay_inv_def codes_inv_def distinct_map inj_on_def)
  then have "rc_status d = StatusUnused" using assms(3) by (auto simp: code_unused_def)
  then show ?thesis using that d core uniq by blast
qed

definition use_code :: "time \<Rightarrow> int \<Rightarrow> redeem_code \<Rightarrow> redeem_code" where
  "use_code clk user c = c\<lparr>rc_status := StatusUsed, rc_used_by := Some user, rc_used_at := Some clk\<rparr>"

lemma use_code_simps [simp]:
  "code_core (use_code clk user c) = code_core c" "rc_status (use_code clk user c) = StatusUsed"
  "rc_used_by (use_code clk user c) = Some user" "rc_code (use_code clk user c) = rc_code c"
  "rc_type (use_code clk user c) = rc_type c" "rc_value (use_code clk user c) = rc_value c"
  "rc_id (use_code clk user c) = rc_id c"
  by (simp_all add: use_code_def code_core_def)

lemma repo_use_code_SomeE:
  assumes "pay_inv db" "known_code c db" "repo_use_code clk (rc_id c) user db = Some db1"
  obtains d where "d \<in> set (db_codes db)" "code_core d = code_core c" "rc_status d = StatusUnused"
    "db1 = db\<lparr>db_codes := map (\<lambda>x. if x = d then use_code clk user d else x) (db_codes db)\<rparr>"
proof -
  have "\<exists>d \<in> set (db_codes db). code_unused (rc_id c) d"
    using assms(3) by (auto simp: repo_use_code_def split: if_splits)
  then obtain d where d: "d \<in> set (db_codes db)" "code_core d = code_core c" "rc_status d = StatusUnused"
    "\<And>x. x \<in> set (db_codes db) \<Longrightarrow> rc_id x = rc_id c \<Longrightarrow> x = d"
    using known_code_row [OF assms(1,2)] by blast
  have "code_unused (rc_id c) x \<longleftrightarrow> x = d" if "x \<in> set (db_codes db)" for x
    unfolding code_unused_def using that d(3,4) code_core_eq(1) [OF d(2)] by metis
  then have m: "map (\<lambda>x. if code_unused (rc_id c) x then use_code clk user x else x) (db_codes db) =
      map (\<lambda>x. if x = d then use_code clk user d else x) (db_codes db)"
    by (intro map_cong) simp_all
  have "db1 = db\<lparr>db_codes :=
      map (\<lambda>x. if code_unused (rc_id c) x then use_code clk user x else x) (db_codes db)\<rparr>"
    using assms(3) unfolding repo_use_code_def use_code_def by (simp split: if_splits)
  then have "db1 = db\<lparr>db_codes := map (\<lambda>x. if x = d then use_code clk user d else x) (db_codes db)\<rparr>"
    by (simp only: m)
  then show ?thesis using that d by blast
qed

lemma ledger_entry:
  assumes "ledger_inv db" "(k, u, v) \<in> set (db_ledger db)"
  shows "\<exists>c \<in> set (db_codes db). rc_code c = k \<and> rc_type c = RedeemTypeBalance \<and>
    rc_status c = StatusUsed \<and> rc_used_by c = Some u \<and> rc_value c = v"
proof -
  have "\<forall>(k, u, v) \<in> set (db_ledger db). \<exists>c \<in> set (db_codes db). rc_code c = k \<and>
      rc_type c = RedeemTypeBalance \<and> rc_status c = StatusUsed \<and> rc_used_by c = Some u \<and> rc_value c = v"
    using assms(1) by (simp add: ledger_inv_def)
  from bspec [OF this assms(2)] show ?thesis by simp
qed

lemma used_codes_keep:
  assumes inv: "pay_inv db" and d: "d \<in> set (db_codes db)" "rc_status d = StatusUnused"
    and f: "db_codes db' = map (\<lambda>x. if x = d then use_code clk user d else x) (db_codes db)"
      "db_orders db' = db_orders db" "db_next_code db' = db_next_code db" "db_audit db' = db_audit db"
      "db_terms db' = db_terms db" "db_rewards db' = db_rewards db"
    and acc: "accounts_le db db'"
    and l: "db_ledger db' = db_ledger db @ (if rc_type d = RedeemTypeBalance
      then [(rc_code d, user, rc_value d)] else [])"
  shows "pay_inv db' \<and> pay_rely db db'"
proof -
  let ?g = "\<lambda>x. if x = d then use_code clk user d else x"
  have st: "code_step x (?g x)" for x using d by (simp add: code_step_def)
  have "codes_le db db'" unfolding codes_le_def f(1) using st by fastforce
  then have rel: "pay_rely db db'" using acc f(2,4) by (simp add: pay_rely_def list_all2_refl)
  have ids: "map rc_id (db_codes db') = map rc_id (db_codes db)"
    "map rc_code (db_codes db') = map rc_code (db_codes db)" by (simp_all add: f(1))
  have "codes_inv db'"
    using inv by (auto simp: pay_inv_def codes_inv_def ids f(3)) (auto simp: f(1))
  moreover have "ledger_inv db'"
  proof -
    have old: "ledger_inv db" and dist: "distinct (map rc_code (db_codes db))"
      using inv by (simp_all add: pay_inv_def codes_inv_def)
    have fresh: "rc_code d \<notin> fst ` set (db_ledger db)"
    proof
      assume "rc_code d \<in> fst ` set (db_ledger db)"
      then obtain u v where "(rc_code d, u, v) \<in> set (db_ledger db)" by force
      then obtain c where c: "c \<in> set (db_codes db)" "rc_code c = rc_code d" "rc_status c = StatusUsed"
        using ledger_entry [OF old] by blast
      then have "c = d" using dist d(1) by (auto simp: distinct_map inj_on_def)
      then show False using c d(2) by simp
    qed
    have old1: "\<exists>c \<in> set (db_codes db'). rc_code c = k \<and> rc_type c = RedeemTypeBalance \<and>
        rc_status c = StatusUsed \<and> rc_used_by c = Some u \<and> rc_value c = v"
      if m: "(k, u, v) \<in> set (db_ledger db)" for k u v
    proof -
      obtain c where "c \<in> set (db_codes db)" "rc_code c = k" "rc_type c = RedeemTypeBalance"
        "rc_status c = StatusUsed" "rc_used_by c = Some u" "rc_value c = v"
        using ledger_entry [OF old m] by blast
      moreover from this have "c \<in> set (db_codes db')" using d(2) unfolding f(1)
        by (auto simp: image_iff)
      ultimately show ?thesis by blast
    qed
    have new1: "use_code clk user d \<in> set (db_codes db')" using d(1) by (auto simp: f(1))
    show ?thesis unfolding ledger_inv_def
    proof (intro conjI)
      show "distinct (map fst (db_ledger db'))" using old fresh by (simp add: l ledger_inv_def)
      show "\<forall>(k, u, v) \<in> set (db_ledger db'). \<exists>c \<in> set (db_codes db'). rc_code c = k \<and>
          rc_type c = RedeemTypeBalance \<and> rc_status c = StatusUsed \<and> rc_used_by c = Some u \<and> rc_value c = v"
        using old1 unfolding l by (auto split: if_splits) (rule bexI [OF _ new1], simp)
      show "\<forall>c \<in> set (db_codes db'). rc_type c = RedeemTypeBalance \<longrightarrow> rc_status c = StatusUsed \<longrightarrow>
          (\<exists>u. rc_used_by c = Some u \<and> (rc_code c, u, rc_value c) \<in> set (db_ledger db'))"
        using old by (auto simp: l f(1) ledger_inv_def)
    qed
  qed
  moreover have "orders_inv db'"
    using inv rely_credited [OF rel] by (auto simp: pay_inv_def orders_inv_def f)
  moreover have "terms_inv db' \<and> rewards_inv db'"
    using inv by (simp add: pay_inv_def terms_inv_def rewards_inv_def terms_of_def has_audit_def f)
  ultimately show ?thesis using rel by (simp add: pay_inv_def)
qed

lemma tx_redeem_keeps:
  assumes inv: "pay_inv db" and known: "known_code c db" and tx: "tx_redeem e c user db = (a, db')"
  shows "pay_inv db' \<and> pay_rely db db' \<and> (a = A_Unit \<longrightarrow> used_by_user db' (rc_code c) user)"
proof (cases "a = A_Unit")
  case False
  then have "db' = db" using tx by (auto simp: tx_redeem_def split: option.splits if_splits)
  then show ?thesis using inv False pay_rely_refl by simp
next
  case True
  then obtain db1 where u: "repo_use_code (ch_now e) (rc_id c) user db = Some db1"
    using tx by (auto simp: tx_redeem_def split: option.splits)
  obtain d where d: "d \<in> set (db_codes db)" "code_core d = code_core c" "rc_status d = StatusUnused"
    and db1: "db1 = db\<lparr>db_codes := map (\<lambda>x. if x = d then use_code (ch_now e) user d else x) (db_codes db)\<rparr>"
    using repo_use_code_SomeE [OF inv known u] by blast
  note eq = code_core_eq [OF d(2)]
  have fields: "db_codes db' = map (\<lambda>x. if x = d then use_code (ch_now e) user d else x) (db_codes db)"
      "db_orders db' = db_orders db" "db_next_code db' = db_next_code db" "db_audit db' = db_audit db"
      "db_terms db' = db_terms db" "db_rewards db' = db_rewards db"
    and led: "db_ledger db' = db_ledger db @ (if rc_type d = RedeemTypeBalance
      then [(rc_code d, user, rc_value d)] else [])"
    using tx u True eq by (auto simp: tx_redeem_def db1 split: option.splits if_splits)
  have "accounts_le db db'" unfolding accounts_le_def
  proof (intro exI conjI allI)
    let ?l = "if rc_type d = RedeemTypeBalance then [Redemption (rc_code d) user (rc_value d)] else []"
    show "db_postings db' = db_postings db @ ?l" "db_credits db' = db_credits db @ grants ?l"
      "distinct (map credit_key (db_credits db)) \<longrightarrow> distinct (map credit_key (db_credits db'))"
      using tx u True eq by (auto simp: tx_redeem_def db1 split: option.splits if_splits)
    show "db_ledger db' = db_ledger db @ redemptions ?l" by (simp add: led)
    fix w
    show "balance_of db' w = map_option (replay w ?l) (balance_of db w)"
      using tx u True eq
      by (auto simp: tx_redeem_def db1 balance_of_def credit_def update_balance_def replay_def
          apply_redeem_balance_adjustment_def adjust_concurrency_def map_option_idI option.map_comp comp_def
          split: option.splits if_splits)
  qed
  moreover have "used_by_user db' (rc_code c) user"
    unfolding used_by_user_def fields(1) using d(1) eq
    by (intro bexI [of _ "use_code (ch_now e) user d"]) auto
  ultimately show ?thesis using used_codes_keep [OF inv d(1,3) fields _ led] by blast
qed

section \<open>All calls\<close>

fun call_ok :: "pay_call \<Rightarrow> pay_db \<Rightarrow> bool" where
  "call_ok (C_Complete oid version now) db =
     (\<forall>r \<in> set (db_orders db). po_id r = oid \<longrightarrow> is_sub r \<or> credited db r)"
| "call_ok (C_To_Paid oid now p t) db =
     (\<forall>r \<in> set (db_orders db). po_id r = oid \<longrightarrow> unpaid (po_status r) \<longrightarrow> paid_ok r p)"
| "call_ok (C_Close oid fs) db = (fs = OS_Cancelled \<or> fs = OS_Expired)"
| "call_ok (C_Create_Code c) db = (rc_status c \<noteq> StatusUsed)"
| "call_ok (C_Redeem c user) db = known_code c db"
| "call_ok (C_Assign_Plan oid user gid days note) db =
     (\<forall>r \<in> set (db_orders db). po_id r = oid \<longrightarrow> po_plan r \<noteq> None)"
| "call_ok _ db = True"

lemma pay_stmt_keeps:
  assumes "pay_inv db" "call_ok c db" "pay_stmt e c db = (a, db')"
  shows "pay_inv db' \<and> pay_rely db db'"
proof (cases c)
  case (C_Audit oid act) then show ?thesis using assms sql_audit_keeps by simp
next
  case (C_To_Paid oid now p t)
  then show ?thesis using assms by (intro sql_to_paid_keeps [of db oid p "ch_now e" now t a]) simp_all
next
  case (C_Acquire oid now) then show ?thesis using assms sql_acquire_keeps by simp
next
  case (C_Complete oid v now)
  then show ?thesis using assms by (intro sql_complete_keeps [of db oid "ch_now e" v now a]) simp_all
next
  case (C_Fail oid v now err) then show ?thesis using assms sql_fail_keeps by simp
next
  case (C_Close oid fs) then show ?thesis using assms sql_close_keeps by simp
next
  case (C_Trade_No oid t) then show ?thesis using assms sql_trade_no_keeps by simp
next
  case (C_Create_Code c) then show ?thesis using assms repo_create_code_keeps by simp
next
  case (C_Redeem c user)
  then show ?thesis using assms tx_redeem_keeps [of db c e user a db'] by simp
next
  case (C_Rebate ord base) then show ?thesis using assms tx_rebate_keeps by simp
next
  case (C_Assign_Plan oid user gid days nt)
  then show ?thesis using assms
    by (intro tx_assign_plan_keeps [of db e oid user gid days nt a]) (simp_all del: not_None_eq)
next
  case (C_Assign_Group oid user gid days nt)
  then show ?thesis using assms tx_assign_group_keeps by simp
qed (insert assms pay_rely_refl [of db], simp_all)

lemma pay_exec_calls:
  "c \<noteq> C_Now \<Longrightarrow> pay_exec e c db = (case ch_outcome e of Done \<Rightarrow> pay_stmt e c db
     | Lost_Before \<Rightarrow> (A_Err, db) | Lost_After \<Rightarrow> (A_Err, snd (pay_stmt e c db)))"
  unfolding pay_exec_def by (cases c; hypsubst; simp del: pay_stmt.simps)

lemma pay_exec_cases:
  assumes "pay_exec e c db = (a, db')"
  shows "pay_stmt e c db = (a, db') \<or> a = A_Err \<and> (db' = db \<or> (\<exists>b. pay_stmt e c db = (b, db')))"
proof (cases "c = C_Now")
  case True then show ?thesis using assms by (simp add: pay_exec_def)
next
  case False then show ?thesis using assms
    by (auto simp: pay_exec_calls prod_eq_iff simp del: pay_stmt.simps split: call_outcome.splits)
qed

lemma pay_exec_keeps:
  assumes "pay_inv db" "call_ok c db" "pay_exec e c db = (a, db')"
  shows "pay_inv db' \<and> pay_rely db db'"
  using pay_exec_cases [OF assms(3)] pay_stmt_keeps [OF assms(1,2)] assms(1) pay_rely_refl by blast

end
