(* ===== verification/Payment_Safety.thy ===== *)
theory Payment_Safety
  imports Payment_Invariant
begin

text \<open>
  Every program of the payment subsystem keeps the invariant against any interference of the
  others: at each of its calls it knows what \<open>call_ok\<close> asks for. \<open>always p\<close> says so of a program
  that needs no knowledge of the state it starts in.
\<close>

section \<open>Rules\<close>

declare pay.safe.simps(2) [simp del]

lemma safe_call:
  assumes "\<And>t. pay_rely s t \<Longrightarrow> pay_inv t \<Longrightarrow> call_ok c t"
    and "\<And>t e a u. pay_rely s t \<Longrightarrow> pay_rely s u \<Longrightarrow> pay_inv t \<Longrightarrow> pay_exec e c t = (a, u) \<Longrightarrow> pay_inv u \<Longrightarrow>
      pay.safe Q (k a) u"
  shows "pay.safe Q (Call c k) s"
proof (rule pay.safe_CallI)
  fix t e a u assume t: "pay_rely s t" "pay_inv t" "pay_exec e c t = (a, u)"
  then have "pay_inv u \<and> pay_rely t u" using assms(1) pay_exec_keeps by blast
  then show "pay_inv u \<and> pay_rely t u \<and> pay.safe Q (k a) u"
    using t assms(2) pay_rely_trans by blast
qed

definition always :: "'r pay \<Rightarrow> bool" where
  "always p \<longleftrightarrow> (\<forall>s. pay_inv s \<longrightarrow> pay.safe (\<lambda>_ _. True) p s)"

lemma always_Ret [simp, intro]: "always (Ret r)"
  by (simp add: always_def)

lemma always_Call [intro]: "(\<And>t. call_ok c t) \<Longrightarrow> (\<And>a. always (k a)) \<Longrightarrow> always (Call c k)"
  unfolding always_def by (blast intro: safe_call)

lemma always_bind [intro]:
  assumes "always p" "\<And>r. always (f r)"
  shows "always (bind_prog p f)"
  unfolding always_def
proof (intro allI impI)
  fix s assume "pay_inv s"
  then show "pay.safe (\<lambda>_ _. True) (bind_prog p f) s"
    using assms by (intro pay.safe_bindI [where P = "\<lambda>_ _. True"]) (auto simp: always_def)
qed

lemma always_safe: "always p \<Longrightarrow> pay_inv s \<Longrightarrow> pay.safe (\<lambda>_ _. True) p s"
  by (simp add: always_def)

lemma always_bind_safe:
  assumes "always p" "pay_inv s" "\<And>r t. pay_rely s t \<Longrightarrow> pay_inv t \<Longrightarrow> pay.safe Q (f r) t"
  shows "pay.safe Q (bind_prog p f) s"
  using assms by (intro pay.safe_bindI [where P = "\<lambda>_ _. True"]) (auto simp: always_def)

section \<open>What the answers tell\<close>

lemma only_order_A_Order:
  "only_order P db = A_Order r \<Longrightarrow> r \<in> set (db_orders db) \<and> P r"
  by (auto simp: only_order_def filter_eq_Cons_iff split: list.splits)

lemma order_known: "r \<in> set (db_orders db) \<Longrightarrow> known_order r db"
  by (auto simp: known_order_def)

lemma order_seen: "r \<in> set (db_orders db) \<Longrightarrow> seen_order r db"
  by (auto simp: seen_order_def intro!: bexI [of _ r])

lemma exec_order_seen: "pay_exec e (C_Order oid) t = (A_Order r, u) \<Longrightarrow> seen_order r u"
  by (drule pay_exec_cases) (auto dest: only_order_A_Order order_seen)

lemma exec_order:
  "pay_exec e (C_Order oid) t = (A_Order r, u) \<Longrightarrow> known_order r u \<and> po_id r = oid"
  by (drule pay_exec_cases) (auto dest: only_order_A_Order order_known)

lemma exec_code:
  "pay_exec e (C_Code code) t = (A_Code c, u) \<Longrightarrow> known_code c u \<and> rc_code c = code"
proof (drule pay_exec_cases, clarsimp)
  assume "repo_get_by_code code u = A_Code c"
  then have "c \<in> set (db_codes u)" "rc_code c = code"
    by (auto simp: repo_get_by_code_def filter_eq_Cons_iff split: list.splits)
  then show "known_code c u \<and> rc_code c = code" by (auto simp: known_code_def intro!: bexI [of _ c])
qed

lemma exec_redeem:
  "pay_exec e (C_Redeem c user) t = (A_Unit, u) \<Longrightarrow> pay_inv t \<Longrightarrow> known_code c t \<Longrightarrow>
    used_by_user u (rc_code c) user"
  by (drule pay_exec_cases) (auto dest: tx_redeem_keeps)

definition listed :: "redeem_code \<Rightarrow> pay_db \<Rightarrow> bool" where
  "listed c db \<longleftrightarrow> (\<exists>d \<in> set (db_codes db). rc_code d = rc_code c \<and> rc_type d = rc_type c \<and>
     rc_value d = rc_value c)"

lemma rely_listed: "pay_rely s t \<Longrightarrow> listed c s \<Longrightarrow> listed c t"
proof -
  assume r: "pay_rely s t" and "listed c s"
  then obtain d where d: "d \<in> set (db_codes s)" "rc_code d = rc_code c" "rc_type d = rc_type c"
    "rc_value d = rc_value c" by (auto simp: listed_def)
  then obtain d' where "d' \<in> set (db_codes t)" "code_core d' = code_core d"
    using r by (auto simp: pay_rely_def codes_le_def code_step_def)
  then show ?thesis using d code_core_eq [of d' d] unfolding listed_def by (intro bexI [of _ d']) simp_all
qed

lemma exec_create_code: "pay_exec e (C_Create_Code c) t = (A_Unit, u) \<Longrightarrow> listed c u"
  by (drule pay_exec_cases) (auto simp: repo_create_code_def listed_def split: if_splits)

lemma same_id_core:
  assumes "pay_inv db" "known_order ord db" "r \<in> set (db_orders db)" "po_id r = po_id ord"
  shows "po_core r = po_core ord"
proof -
  obtain q where q: "q \<in> set (db_orders db)" "po_core q = po_core ord"
    using assms(2) by (auto simp: known_order_def)
  then have "r = q" using assms po_core_eq(1) [OF q(2)]
    by (auto simp: pay_inv_def orders_inv_def distinct_map inj_on_def)
  then show ?thesis using q by simp
qed

lemma same_id_known:
  assumes "pay_inv db" "known_order ord db" "known_order r db" "po_id r = po_id ord"
  shows "po_core r = po_core ord"
proof -
  obtain q where q: "q \<in> set (db_orders db)" "po_core q = po_core r"
    using assms(3) by (auto simp: known_order_def)
  then show ?thesis using same_id_core [OF assms(1,2) q(1)] po_core_eq(1) [OF q(2)] assms(4) by simp
qed

section \<open>Programs that know nothing\<close>

named_theorems always

lemma always_audit [always]: "always (write_audit_log oid act)" "always (has_audit_log oid act)"
  unfolding write_audit_log_def has_audit_log_def by auto

lemma always_rebate [always]: "always (apply_affiliate_rebate_for_order sv ord)"
  unfolding apply_affiliate_rebate_for_order_def
  by (auto intro!: always_Call always_bind always split: pay_answer.splits)

lemma always_redeem_cache [always]:
  "always (check_redeem_rate_limit sv user)" "always (increment_redeem_error_count sv user)"
  "always (acquire_redeem_lock sv code)" "always (release_redeem_lock sv code)"
  unfolding check_redeem_rate_limit_def increment_redeem_error_count_def acquire_redeem_lock_def
    release_redeem_lock_def
  by (auto intro!: always_Call split: pay_answer.splits)

lemma always_lease [always]:
  "always (acquire_payment_fulfillment_lease ord)" "always (mark_failed oid version cause)"
  unfolding acquire_payment_fulfillment_lease_def mark_failed_def
  by (auto intro!: always_Call always split: pay_answer.splits)

lemma always_sub [always]:
  "always (subscription_has_order_note ord n)" "always (check_group gid)"
  "always (ensure_payment_subscription_assigned ord gid days)"
  unfolding subscription_has_order_note_def check_group_def ensure_payment_subscription_assigned_def
  by (auto intro!: always_Call split: pay_answer.splits)

lemma always_requery [always]: "always (requery_paid_order_once ref)"
  unfolding requery_paid_order_once_def by (auto intro!: always_Call)

section \<open>Codes\<close>

lemma insert_code_safe:
  assumes "rc_status c \<noteq> StatusUsed"
  shows "pay.safe (\<lambda>r u. r = None \<longrightarrow> listed c u) (Call (C_Create_Code c) (\<lambda>a. case a of A_Unit \<Rightarrow> Ret None
    | _ \<Rightarrow> Ret (Some e))) s"
proof (rule safe_call)
  show "call_ok (C_Create_Code c) t" for t using assms by simp
  fix t x a u assume "pay_exec x (C_Create_Code c) t = (a, u)"
  then show "pay.safe (\<lambda>r u. r = None \<longrightarrow> listed c u) (case a of A_Unit \<Rightarrow> Ret None | _ \<Rightarrow> Ret (Some e)) u"
    by (cases a) (auto dest!: exec_create_code elim: rely_listed)
qed

lemma safe_now:
  assumes "\<And>t now. pay_rely s t \<Longrightarrow> pay_inv t \<Longrightarrow> pay.safe Q (f now) t"
  shows "pay.safe Q (Call C_Now (\<lambda>t. case t of A_Time now \<Rightarrow> f now | _ \<Rightarrow> g t)) s"
  using assms by (intro safe_call) (auto simp: pay_exec_def)

lemma always_create_code [always]: "rc_status c0 \<noteq> StatusUsed \<Longrightarrow> always (create_code c0)"
  unfolding create_code_def Let_def by (auto intro!: always_Call split: pay_answer.splits)

lemma create_payment_code_safe:
  assumes "trim_space (po_recharge_code ord) = po_recharge_code ord"
  shows "pay.safe (\<lambda>r u. r = None \<longrightarrow> code_ready u ord) (create_code (payment_redeem_code ord)) s"
proof -
  let ?c = "payment_redeem_code ord"
  have c: "?c\<lparr>rc_code := trim_space (rc_code ?c)\<rparr> = ?c" "rc_type ?c \<noteq> []" "rc_status ?c \<noteq> []"
    by (simp_all add: payment_redeem_code_def assms)
  have "listed ?c u \<Longrightarrow> code_ready u ord" for u
    by (auto simp: listed_def code_ready_def payment_redeem_code_def worth_def)
  moreover have "rc_status ?c \<noteq> StatusUsed" by (simp add: payment_redeem_code_def)
  ultimately have "pay.safe (\<lambda>r u. r = None \<longrightarrow> code_ready u ord) (Call (C_Create_Code ?c)
      (\<lambda>a. case a of A_Unit \<Rightarrow> Ret None | _ \<Rightarrow> Ret (Some e))) t" for t e
    by (intro pay.safe_mono [OF insert_code_safe]) auto
  then show ?thesis
    using c by (auto simp: create_code_def Let_def intro!: safe_now)
qed

lemma get_by_code_safe:
  "pay.safe (\<lambda>r u. \<forall>c. r = Inr c \<longrightarrow> known_code c u \<and> rc_code c = code) (get_by_code code) s"
  unfolding get_by_code_def
proof (rule safe_call)
  fix t x a u assume "pay_exec x (C_Code code) t = (a, u)"
  then show "pay.safe (\<lambda>r u. \<forall>c. r = Inr c \<longrightarrow> known_code c u \<and> rc_code c = code)
     (Ret (case a of A_Code c \<Rightarrow> Inr c | A_None \<Rightarrow> Inl None | _ \<Rightarrow> Inl (Some (err_db ''get redeem code'')))) u"
    by (cases a) (auto dest!: exec_code elim: rely_known_code)
qed simp

lemma redeem_tx_safe:
  assumes "known_code c s"
  shows "pay.safe (\<lambda>r u. (\<exists>d. r = Inr d) \<longrightarrow> used_by_user u (rc_code c) user) (redeem_tx c user) s"
    (is "pay.safe ?Q _ _")
  unfolding redeem_tx_def
proof (rule safe_call)
  show "pay_rely s t \<Longrightarrow> pay_inv t \<Longrightarrow> call_ok (C_Redeem c user) t" for t
    using assms rely_known_code by simp
  fix t e a u assume h: "pay_rely s t" "pay_inv t" "pay_exec e (C_Redeem c user) t = (a, u)" "pay_inv u"
  have "pay.safe ?Q (Call (C_Code_By_Id (rc_id c)) (\<lambda>a. Ret (case a of A_Code c' \<Rightarrow> Inr c'
         | _ \<Rightarrow> Inl (err_db ''get updated redeem code'')))) u" if "used_by_user u (rc_code c) user"
    using that by (intro safe_call) (auto elim: rely_used_by_user)
  moreover have "used_by_user u (rc_code c) user" if "a = A_Unit"
    using h that exec_redeem [of e c user t u] rely_known_code [OF h(1) assms] by simp
  ultimately show "pay.safe ?Q (case a of A_Unit \<Rightarrow> Call (C_Code_By_Id (rc_id c)) (\<lambda>a. Ret (case a of
         A_Code c' \<Rightarrow> Inr c' | _ \<Rightarrow> Inl (err_db ''get updated redeem code'')))
       | A_Used \<Rightarrow> Ret (Inl err_code_used) | _ \<Rightarrow> Ret (Inl (err_db ''redeem transaction''))) u"
    by (cases a) auto
qed

lemma redeem_refuse_safe:
  "pay_inv s \<Longrightarrow> pay.safe (\<lambda>r u. (\<exists>d. r = Inr d) \<longrightarrow> P u) (redeem_refuse sv limited user e) s"
  unfolding redeem_refuse_def by (rule always_bind_safe) (auto intro: always)

lemma safe_user:
  assumes "\<And>t. pay_rely s t \<Longrightarrow> pay_inv t \<Longrightarrow> pay.safe Q p t" "\<And>t. Q r t"
  shows "pay.safe Q (Call (C_User user) (\<lambda>a. case a of A_Unit \<Rightarrow> p | _ \<Rightarrow> Ret r)) s"
  using assms by (intro safe_call) (auto split: pay_answer.splits)

lemma redeem_found_safe:
  assumes c: "known_code c s" "rc_code c = code"
  shows "pay.safe (\<lambda>r u. (\<exists>d. r = Inr d) \<longrightarrow> used_by_user u code user) (redeem_found sv limited user c) s"
proof -
  have tx: "pay_rely s u \<Longrightarrow> pay.safe (\<lambda>r u. (\<exists>d. r = Inr d) \<longrightarrow> used_by_user u code user)
      (redeem_tx c user) u" for u
    using redeem_tx_safe [of c u user] rely_known_code [OF _ c(1)] c(2) by blast
  show ?thesis unfolding redeem_found_def
    by (intro safe_now) (auto intro!: safe_now redeem_refuse_safe safe_user tx split: option.splits,
        meson pay_rely_trans)
qed

lemma redeem_locked_safe:
  assumes "pay_inv s"
  shows "pay.safe (\<lambda>r u. (\<exists>d. r = Inr d) \<longrightarrow> used_by_user u code user) (redeem_locked sv limited user code) s"
  unfolding redeem_locked_def
  by (rule pay.safe_bindI [OF get_by_code_safe assms])
    (auto intro!: redeem_refuse_safe redeem_found_safe split: sum.splits option.splits)

lemma redeem_safe:
  assumes "pay_inv s"
  shows "pay.safe (\<lambda>r u. (\<exists>d. r = Inr d) \<longrightarrow> used_by_user u code user) (redeem sv limited user code) s"
  unfolding redeem_def
  by (auto intro!: always_bind_safe [OF _ assms] always_bind_safe pay.safe_bindI [OF redeem_locked_safe]
      always split: option.splits) (meson rely_used_by_user)+

lemma always_redeem [always]: "always (redeem sv limited user code)"
  unfolding always_def by (blast intro: pay.safe_mono [OF redeem_safe])

section \<open>Completing an order\<close>

lemma mark_completed_safe:
  assumes "known_order ord s" "is_sub ord \<or> credited s ord"
  shows "pay.safe (\<lambda>_ _. True) (mark_completed ord version act) s"
  unfolding mark_completed_def
proof (rule safe_now, rule safe_call)
  fix t u now assume t: "pay_rely s t" "pay_rely t u" and u: "pay_inv u"
  have su: "pay_rely s u" using t pay_rely_trans by blast
  have k: "known_order ord u" "is_sub ord \<or> credited u ord"
    using assms rely_known_order [OF su] rely_credited [OF su] by blast+
  have "is_sub r \<or> credited u r" if r: "r \<in> set (db_orders u)" "po_id r = po_id ord" for r
  proof -
    have core: "po_core r = po_core ord" by (rule same_id_core [OF u k(1) r])
    show ?thesis using k(2) po_core_eq(5) [OF core] credited_core [OF core] by simp
  qed
  then show "call_ok (C_Complete (po_id ord) version now) u" by simp
next
  fix u a assume u: "pay_inv u"
  show "pay.safe (\<lambda>_ _. True) (case a of A_Rows n \<Rightarrow>
           if n = 0 then Call (C_Order (po_id ord)) (\<lambda>a. Ret (case a of
               A_Order cur \<Rightarrow> if po_status cur = OS_Completed then None
                 else Some (pay_conflict ''fulfillment lease was lost before completion'')
             | _ \<Rightarrow> Some (pay_conflict ''fulfillment lease was lost before completion'')))
           else bind_prog (has_audit_log (po_id ord) act) (\<lambda>b.
             if b then Ret None
             else bind_prog (write_audit_log (po_id ord) act) (\<lambda>_. Ret None))
       | _ \<Rightarrow> Ret (Some (err_db ''mark completed''))) u"
    by (rule always_safe [OF _ u]) (auto intro!: always_Call always_bind always split: pay_answer.splits)
qed

lemma rebate_and_complete_safe:
  assumes "pay_inv s" "known_order ord s" "is_sub ord \<or> credited s ord"
  shows "pay.safe (\<lambda>_ _. True) (rebate_and_complete sv ord version act) s"
  unfolding rebate_and_complete_def
  using assms rely_known_order rely_credited
  by (intro always_bind_safe [OF _ assms(1)])
    (auto intro!: always mark_completed_safe split: option.splits)

lemma redeem_and_complete_safe:
  assumes "pay_inv s" "known_order ord s" "is_sub ord \<or> code_ready s ord"
  shows "pay.safe (\<lambda>_ _. True) (redeem_and_complete sv ord version) s"
  unfolding redeem_and_complete_def
  using assms rely_known_order rely_code_ready
  by (intro pay.safe_bindI [OF redeem_safe assms(1)])
    (auto intro!: rebate_and_complete_safe split: sum.splits simp: credited_def)

section \<open>Balance orders\<close>

lemma valid_code_ready:
  assumes "known_code c s" "validate_payment_redeem_code ord c = None"
  shows "code_ready s ord" "rc_is_used c \<Longrightarrow> credited s ord"
proof -
  have v: "rc_code c = po_recharge_code ord" "rc_type c = RedeemTypeBalance" "worth ord (rc_value c)"
    "rc_is_used c \<Longrightarrow> rc_used_by c = Some (po_user ord)"
    using assms(2) by (auto simp: validate_payment_redeem_code_def worth_def rc_is_used_def split: if_splits)
  obtain d where d: "d \<in> set (db_codes s)" "code_step c d" using assms(1) by (auto simp: known_code_def)
  then have e: "rc_code d = rc_code c" "rc_type d = rc_type c" "rc_value d = rc_value c"
    using code_core_eq [of d c] by (simp_all add: code_step_def)
  show r: "code_ready s ord" unfolding code_ready_def using d v e by (intro bexI [of _ d]) simp_all
  show "credited s ord" if "rc_is_used c"
    unfolding credited_def used_by_user_def using r d v e that
    by (auto simp: code_step_def rc_is_used_def intro!: bexI [of _ d])
qed

lemma known_order_trimmed:
  assumes "pay_inv db" "known_order ord db" "\<not> is_sub ord"
  shows "trim_space (po_recharge_code ord) = po_recharge_code ord"
proof -
  obtain r where r: "r \<in> set (db_orders db)" "po_core r = po_core ord"
    using assms(2) by (auto simp: known_order_def)
  show ?thesis using assms(1,3) r(1) po_core_eq(4,5) [OF r(2)] by (auto simp: pay_inv_def orders_inv_def)
qed

lemma do_balance_safe:
  assumes inv: "pay_inv s" and ord: "known_order ord s"
  shows "pay.safe (\<lambda>_ _. True) (do_balance sv ord version) s"
  unfolding do_balance_def
proof (rule pay.safe_bindI [OF get_by_code_safe inv], goal_cases)
  case (1 r t)
  then have t: "pay_inv t" "known_order ord t" using ord rely_known_order by blast+
  have create: "pay.safe (\<lambda>r u. r = None \<longrightarrow> is_sub ord \<or> code_ready u ord)
      (create_code (payment_redeem_code ord)) t"
  proof (cases "is_sub ord")
    case True then show ?thesis
      using always_safe [OF always_create_code t(1)] by (simp add: payment_redeem_code_def)
  next
    case False
    then have "trim_space (po_recharge_code ord) = po_recharge_code ord" by (rule known_order_trimmed [OF t])
    then show ?thesis by (intro pay.safe_mono [OF create_payment_code_safe]) simp_all
  qed
  show ?case
  proof (cases r)
    case (Inl x)
    show ?thesis
    proof (cases x)
      case None
      show ?thesis using t rely_known_order unfolding Inl None resolve_redeem_action_def
        by (auto intro!: pay.safe_bindI [OF create t(1)] redeem_and_complete_safe split: option.splits)
    qed (simp add: Inl resolve_redeem_action_def)
  next
    case (Inr c)
    then show ?thesis using 1(3) t
      by (auto simp: resolve_redeem_action_def dest: valid_code_ready
          intro!: redeem_and_complete_safe rebate_and_complete_safe split: option.splits)
  qed
qed

section \<open>Subscription orders\<close>

lemma do_sub_with_plan_seat_safe:
  assumes "pay_inv s" "known_order ord s" "po_plan ord \<noteq> None"
  shows "pay.safe (\<lambda>_ _. True) (do_sub_with_plan_seat ord days n) s"
  unfolding do_sub_with_plan_seat_def
proof (rule always_bind_safe [OF _ assms(1)], goal_cases)
  case 1 then show ?case by (auto intro: always)
next
  case (2 err t)
  have plan: "po_plan r \<noteq> None" if "pay_rely t u" "pay_inv u" "r \<in> set (db_orders u)" "po_id r = po_id ord" for r u
  proof -
    have "known_order ord u" using assms(2) 2(1) that(1) rely_known_order by blast
    from po_core_eq(6) [OF same_id_core [OF that(2) this that(3,4)]] show ?thesis using assms(3) by simp
  qed
  show ?case
  proof (cases err)
    case None
    show ?thesis unfolding None Let_def option.case
    proof (rule safe_call, goal_cases)
      case (1 u) then show ?case using plan by simp
    next
      case (2 u e a w)
      show ?case by (rule always_safe [OF _ 2(5)])
        (auto intro!: always_Call always_bind always split: pay_answer.splits)
    qed
  qed simp
qed

lemma do_sub_assign_safe:
  assumes "pay_inv s" "known_order ord s" "is_sub ord"
  shows "pay.safe (\<lambda>_ _. True) (do_sub_assign sv ord days version) s"
proof -
  let ?fin = "\<lambda>err. case err of Some e \<Rightarrow> Ret (Some e)
    | None \<Rightarrow> rebate_and_complete sv ord version ''SUBSCRIPTION_SUCCESS''"
  have fin: "pay_rely s t \<Longrightarrow> pay_inv t \<Longrightarrow> pay.safe (\<lambda>_ _. True) (?fin err) t" for t err
    using assms rely_known_order by (auto intro!: rebate_and_complete_safe split: option.splits)
  show ?thesis
  proof (cases "po_plan ord")
    case (Some p)
    then show ?thesis unfolding do_sub_assign_def Let_def
      using assms by (simp, intro pay.safe_bindI [OF do_sub_with_plan_seat_safe] fin) simp_all
  next
    case None
    have "pay_rely s t \<Longrightarrow> pay_inv t \<Longrightarrow> pay.safe (\<lambda>_ _. True)
        (bind_prog (ensure_payment_subscription_assigned ord gid days) ?fin) t" for t gid
      by (rule always_bind_safe) (auto intro!: always fin intro: pay_rely_trans)
    then show ?thesis unfolding do_sub_assign_def Let_def None
      by (auto intro!: always_bind_safe [OF _ assms(1)] always split: option.splits)
  qed
qed

lemma do_sub_safe:
  assumes "pay_inv s" "known_order ord s" "is_sub ord"
  shows "pay.safe (\<lambda>_ _. True) (do_sub sv ord days version) s"
  unfolding do_sub_def
  using assms rely_known_order pay_rely_trans
  by (intro always_bind_safe [OF _ assms(1)])
    (auto intro!: always always_bind_safe rebate_and_complete_safe do_sub_assign_safe)

section \<open>Fulfilment and notifications\<close>

lemma with_lease_safe:
  assumes "pay_inv s"
    and "\<And>version t. pay_rely s t \<Longrightarrow> pay_inv t \<Longrightarrow> pay.safe (\<lambda>_ _. True) (body version) t"
  shows "pay.safe (\<lambda>_ _. True) (with_lease ord body) s"
proof -
  have "pay.safe (\<lambda>_ _. True) (bind_prog (body v) (\<lambda>err. case err of None \<Rightarrow> Ret None
      | Some e \<Rightarrow> bind_prog (mark_failed (po_id ord) v e) (\<lambda>_. Ret (Some e)))) t"
    if t: "pay_rely s t" "pay_inv t" for t v
  proof (rule pay.safe_bindI [OF assms(2) [OF t] t(2)], goal_cases)
    case (1 err u) show ?case
      by (rule always_safe [OF _ 1(2)]) (auto intro!: always_bind always split: option.splits)
  qed
  then show ?thesis unfolding with_lease_def
    by (intro always_bind_safe [OF _ assms(1)]) (auto intro: always split: sum.splits option.splits)
qed

lemma always_execute_balance [always]: "always (execute_balance_fulfillment sv oid)"
  unfolding always_def execute_balance_fulfillment_def
proof (intro allI impI safe_call)
  fix t e a u assume u: "pay_exec e (C_Order oid) t = (a, u)" "pay_inv u"
  have "pay.safe (\<lambda>_ _. True) (with_lease ord (do_balance sv ord)) u" if "a = A_Order ord" for ord
    using u that exec_order [of e oid t ord u] rely_known_order
    by (intro with_lease_safe do_balance_safe) auto
  then show "pay.safe (\<lambda>_ _. True) (case a of A_Order ord \<Rightarrow>
       if po_status ord = OS_Completed then Ret None
       else (case fulfillable_error ord of Some e \<Rightarrow> Ret (Some e)
       | None \<Rightarrow> with_lease ord (do_balance sv ord))
     | _ \<Rightarrow> Ret (Some err_order_missing)) u"
    by (auto split: pay_answer.splits option.splits)
qed simp

lemma execute_subscription_safe:
  assumes "known_order o0 s" "po_id o0 = oid" "is_sub o0"
  shows "pay.safe (\<lambda>_ _. True) (execute_subscription_fulfillment sv oid) s"
  unfolding execute_subscription_fulfillment_def
proof (rule safe_call)
  fix t e a u assume su: "pay_rely s u" and u: "pay_exec e (C_Order oid) t = (a, u)" "pay_inv u"
  have "pay.safe (\<lambda>_ _. True) (with_lease ord (do_sub sv ord days)) u" if "a = A_Order ord" for ord days
  proof -
    have k: "known_order ord u" "po_id ord = oid" using u that exec_order by auto
    have "po_core ord = po_core o0"
      using same_id_known [OF u(2) rely_known_order [OF su assms(1)] k(1)] k(2) assms(2) by simp
    then have "is_sub ord" using po_core_eq(5) assms(3) by metis
    then show ?thesis using k u(2) rely_known_order by (intro with_lease_safe do_sub_safe) auto
  qed
  then show "pay.safe (\<lambda>_ _. True) (case a of A_Order ord \<Rightarrow>
       if po_status ord = OS_Completed then Ret None
       else (case fulfillable_error ord of Some e \<Rightarrow> Ret (Some e)
       | None \<Rightarrow> (case po_days ord of
           None \<Rightarrow> Ret (Some (invalid_status ''missing subscription info''))
         | Some days \<Rightarrow> if po_plan ord = None \<and> po_group ord = None
             then Ret (Some (invalid_status ''missing subscription info''))
             else with_lease ord (do_sub sv ord days)))
     | _ \<Rightarrow> Ret (Some err_order_missing)) u"
    by (auto split: pay_answer.splits option.splits)
qed simp

lemma always_execute [always]: "always (execute_fulfillment sv oid)"
  unfolding always_def execute_fulfillment_def
proof (intro allI impI safe_call)
  fix t e a u assume u: "pay_exec e (C_Order oid) t = (a, u)" "pay_inv u"
  show "pay.safe (\<lambda>_ _. True) (case a of A_Order ord \<Rightarrow>
       if po_order_type ord = ''subscription'' then execute_subscription_fulfillment sv oid
       else execute_balance_fulfillment sv oid
     | _ \<Rightarrow> Ret (Some (err_db ''get order''))) u"
    using u exec_order by (auto split: pay_answer.splits intro!: execute_subscription_safe
        always_safe [OF always_execute_balance])
qed simp

lemma always_already_processed [always]: "always (already_processed sv ord)"
  unfolding already_processed_def by (auto intro!: always_Call always_bind always split: pay_answer.splits)

lemma judge_notification_ok: "judge_notification sv ord k paid pk md = Inr p \<Longrightarrow> paid_ok ord p"
  by (auto simp: judge_notification_def paid_ok_def Let_def split: if_splits option.splits float64.splits)

lemma to_paid_safe:
  assumes "seen_order ord s" "paid_ok ord p"
  shows "pay.safe (\<lambda>_ _. True) (to_paid sv ord tn p) s"
  unfolding to_paid_def
proof (rule safe_now, rule safe_call)
  fix t u now assume t: "pay_rely s t" "pay_rely t u" and u: "pay_inv u"
  obtain q where q: "q \<in> set (db_orders u)" "order_step ord q"
    using rely_seen_order [OF pay_rely_trans [OF t] assms(1)] by (auto simp: seen_order_def)
  have core: "po_core q = po_core ord" using q by (simp add: order_step_def)
  have "paid_ok r p" if r: "r \<in> set (db_orders u)" "po_id r = po_id ord" "unpaid (po_status r)" for r
  proof -
    have "r = q" using u q r po_core_eq(1) [OF core]
      by (auto simp: pay_inv_def orders_inv_def distinct_map inj_on_def)
    then show ?thesis using assms(2) q(2) r(3) paid_ok_core [OF core] by (auto simp: order_step_def)
  qed
  then show "call_ok (C_To_Paid (po_id ord) now p tn) u" by simp
next
  fix a u assume u: "pay_inv u"
  show "pay.safe (\<lambda>_ _. True) (case a of A_Rows n \<Rightarrow>
           if n = 0 then already_processed sv ord
           else bind_prog (if po_status ord \<in> {OS_Cancelled, OS_Expired}
               then write_audit_log (po_id ord) ''ORDER_RECOVERED'' else Ret ()) (\<lambda>_.
             bind_prog (write_audit_log (po_id ord) ''ORDER_PAID'')
               (\<lambda>_. execute_fulfillment sv (po_id ord)))
       | _ \<Rightarrow> Ret (Some (err_db ''update to PAID''))) u"
    by (rule always_safe [OF _ u]) (auto intro!: always_bind always split: pay_answer.splits)
qed

lemma always_confirm [always]: "always (confirm_payment sv oid tn paid pk md)"
  unfolding always_def confirm_payment_def
proof (intro allI impI safe_call, simp)
  fix t e a u assume u: "pay_exec e (C_Order oid) t = (a, u)" "pay_inv u"
  have "pay.safe (\<lambda>_ _. True) (Call C_Instances (\<lambda>a.
       case judge_notification sv ord (instance_key a ord) paid pk md of
         Inl (action, e) \<Rightarrow> bind_prog (write_audit_log (po_id ord) action) (\<lambda>_. Ret (Some e))
       | Inr p \<Rightarrow> to_paid sv ord tn p)) u" if "a = A_Order ord" for ord
    using exec_order_seen u that
    by (intro safe_call) (auto intro!: always_safe always_bind always to_paid_safe
        elim: rely_seen_order dest: judge_notification_ok split: sum.splits)
  then show "pay.safe (\<lambda>_ _. True) (case a of A_Order ord \<Rightarrow> Call C_Instances (\<lambda>a.
       case judge_notification sv ord (instance_key a ord) paid pk md of
         Inl (action, e) \<Rightarrow> bind_prog (write_audit_log (po_id ord) action) (\<lambda>_. Ret (Some e))
       | Inr p \<Rightarrow> to_paid sv ord tn p)
     | _ \<Rightarrow> Ret None) u"
    by (auto split: pay_answer.splits)
qed

lemma always_notify [always]:
  "always (handle_payment_notification sv n pk)" "always (retry_fulfillment sv oid)"
  unfolding handle_payment_notification_def retry_fulfillment_def
  by (auto intro!: always_Call always_bind always split: pay_answer.splits option.splits simp: Let_def)

section \<open>Lifecycle\<close>

lemma always_check_paid [always]: "always (check_paid_with_options sv ord b)"
proof -
  have 1: "always (paid_response sv ord pk ref q)" for pk ref q
    unfolding paid_response_def by (auto simp: Let_def intro!: always_Call always_bind always)
  show ?thesis unfolding check_paid_with_options_def
    by (auto simp: Let_def intro!: always_Call always_bind always 1 split: pay_answer.splits option.splits)
qed

lemma always_cancel_core [always]:
  "fs = OS_Cancelled \<or> fs = OS_Expired \<Longrightarrow> always (cancel_core sv ord fs)"
  unfolding cancel_core_def by (auto intro!: always_Call always_bind always split: pay_answer.splits)

lemma always_jobs [always]:
  "always (cancel_order sv oid user)" "always (admin_cancel_order sv oid)"
  "always (expire_timed_out_orders sv)" "always (reconcile_pending_provider_orders sv)"
  "always (verify_order_by_out_trade_no sv raw user)"
proof -
  show "always (cancel_order sv oid user)" "always (admin_cancel_order sv oid)"
    unfolding cancel_order_def admin_cancel_order_def
    by (auto intro!: always_Call always_cancel_core split: pay_answer.splits)
  have e: "always (expire_each sv ords n)" for ords n
    by (induction sv ords n rule: expire_each.induct)
      (auto intro!: always_bind always_cancel_core split: close_result.splits)
  show "always (expire_timed_out_orders sv)"
    unfolding expire_timed_out_orders_def by (auto intro!: always_Call always_bind e split: pay_answer.splits)
  have r: "always (reconcile_each sv ords n)" for ords n
    by (induction sv ords n rule: reconcile_each.induct) (auto intro!: always_bind always)
  show "always (reconcile_pending_provider_orders sv)"
    unfolding reconcile_pending_provider_orders_def
    by (auto intro!: always_Call always_bind r split: pay_answer.splits)
  show "always (verify_order_by_out_trade_no sv raw user)"
    unfolding verify_order_by_out_trade_no_def
    by (auto intro!: always_Call always_bind always split: pay_answer.splits sum.splits)
qed

lemma always_serve: "always (serve sv q)"
  by (cases q) (auto intro!: always_bind always)

theorem pool_keeps:
  assumes "pay_inv db" "run_pool pay_exec (serve sv) evs ([], db) = (ps, db')"
  shows "pay_inv db' \<and> pay_rely db db'"
  using pay.run_pool_safe [OF assms(1) _ _ assms(2)] always_safe [OF always_serve] by auto

end
