(* ===== verification/Payment_Laws.thy ===== *)
theory Payment_Laws
  imports Payment_Safety
begin

text \<open>
  What the payment subsystem guarantees, for any number of concurrent requests on any number of
  instances, in any order of their calls, with calls that fail before or after they take effect
  and requests that stop at any point.
\<close>

section \<open>Credits\<close>

lemma ledger_of_code:
  assumes "ledger_inv db"
  shows "length (filter (\<lambda>t. fst t = k) (db_ledger db)) \<le> 1"
proof -
  have "distinct (map fst (filter (\<lambda>t. fst t = k) (db_ledger db)))"
    using assms by (simp add: ledger_inv_def distinct_map_filter)
  moreover have "set (map fst (filter (\<lambda>t. fst t = k) (db_ledger db))) \<subseteq> {k}" by auto
  ultimately show ?thesis
    by (metis card_mono distinct_card finite.emptyI finite_insert is_singletonI is_singleton_altdef length_map)
qed

lemma credited_ledger:
  assumes "pay_inv db" "credited db ord"
  shows "\<exists>v. filter (\<lambda>t. fst t = po_recharge_code ord) (db_ledger db) =
    [(po_recharge_code ord, po_user ord, v)] \<and> worth ord v"
proof -
  have inv: "ledger_inv db" and dist: "distinct (map rc_code (db_codes db))"
    using assms(1) by (simp_all add: pay_inv_def codes_inv_def)
  obtain c d where c: "c \<in> set (db_codes db)" "rc_code c = po_recharge_code ord"
      "rc_type c = RedeemTypeBalance" "worth ord (rc_value c)"
    and d: "d \<in> set (db_codes db)" "rc_code d = po_recharge_code ord" "rc_status d = StatusUsed"
      "rc_used_by d = Some (po_user ord)"
    using assms(2) by (auto simp: credited_def code_ready_def used_by_user_def)
  have "d = c" using dist c d by (auto simp: distinct_map inj_on_def)
  then have m: "(po_recharge_code ord, po_user ord, rc_value c) \<in> set (db_ledger db)"
    using inv c d by (auto simp: ledger_inv_def)
  let ?f = "filter (\<lambda>t. fst t = po_recharge_code ord) (db_ledger db)"
  have "(po_recharge_code ord, po_user ord, rc_value c) \<in> set ?f" using m by simp
  moreover have "length ?f \<le> 1" by (rule ledger_of_code [OF inv])
  ultimately have "?f = [(po_recharge_code ord, po_user ord, rc_value c)]"
    by (cases ?f) (auto simp: length_Suc_conv)
  then show ?thesis using c(4) by blast
qed

text \<open>
  Claim C6. The account is credited at most once for an order, and exactly once when the order is
  completed. From any state of the tables that satisfies the invariant, after any interleaving of
  notifications, retries, cancellations, background jobs and public redemptions, with lost calls and
  crashed requests: the balance adjustments for the recharge code of an order that is not a
  subscription are at most one, and for a completed order there is exactly one, to the user of the
  order, of the amount of the order up to the tolerance of the code check.
\<close>

theorem payment_credited_once:
  assumes "pay_inv db" "run_pool pay_exec (serve sv) evs ([], db) = (ps, db')"
    and "ord \<in> set (db_orders db')" "po_order_type ord \<noteq> ''subscription''"
  shows "length (filter (\<lambda>t. fst t = po_recharge_code ord) (db_ledger db')) \<le> 1 \<and>
    (po_status ord = OS_Completed \<longrightarrow>
      (\<exists>v. filter (\<lambda>t. fst t = po_recharge_code ord) (db_ledger db') =
             [(po_recharge_code ord, po_user ord, v)] \<and> \<bar>v - po_amount ord\<bar> \<le> 1 / 10 ^ 8))"
proof -
  have inv: "pay_inv db'" using pool_keeps [OF assms(1,2)] by simp
  then have "po_status ord = OS_Completed \<longrightarrow> credited db' ord"
    using assms(3,4) by (simp add: pay_inv_def orders_inv_def)
  then show ?thesis
    using credited_ledger [OF inv] ledger_of_code inv by (auto simp: pay_inv_def worth_def)
qed

text \<open>
  Claim C31. The balances are the sum of what was posted to them. In any run of the payment operations
  the balance of every user changes exactly by the postings that committed, in their order: the
  redemptions of codes, which are the new entries of the ledger, and the affiliate rewards for a first
  recharge, which are the new rows of \<open>user_reward_credits\<close>. No user appears or disappears, and no two
  credits share user, type and source key when none did before, so that an invitation is rewarded at
  most once to each side.
\<close>

theorem balances_follow_ledger:
  assumes "pay_inv db" "run_pool pay_exec (serve sv) evs ([], db) = (ps, db')"
  shows "\<exists>l. db_postings db' = db_postings db @ l \<and> db_ledger db' = db_ledger db @ redemptions l \<and>
    db_credits db' = db_credits db @ grants l \<and>
    (distinct (map credit_key (db_credits db)) \<longrightarrow> distinct (map credit_key (db_credits db'))) \<and>
    (\<forall>u. balance_of db' u = map_option (replay u l) (balance_of db u))"
  using pool_keeps [OF assms] by (simp add: pay_rely_def accounts_le_def)

section \<open>States of an order\<close>

text \<open>
  Claim C8. In any run of the payment operations (notifications, retries, cancellations, expiry,
  reconciliation and redemptions), an order keeps its user, its amount and all other fields that define it;
  an order that left the states pending, cancelled and expired never returns to them; it left them with a
  positive amount paid within the tolerance of its currency; and a completed order stays completed. Refunds
  are operations of their own, in theory \<open>Refund\<close>, and move completed orders on.
\<close>

theorem order_states:
  assumes "pay_inv db" "run_pool pay_exec (serve sv) evs ([], db) = (ps, db')"
    and "i < length (db_orders db)" "r = db_orders db ! i" "r' = db_orders db' ! i"
  shows "length (db_orders db') = length (db_orders db) \<and> po_core r' = po_core r \<and>
    (unpaid (po_status r') \<longrightarrow> unpaid (po_status r)) \<and>
    (unpaid (po_status r) \<and> \<not> unpaid (po_status r') \<longrightarrow> 0 < po_pay_amount r' \<and>
      \<bar>po_pay_amount r' - po_pay_amount r\<bar> \<le>
        payment_amount_tolerance_for_currency (payment_order_currency r) \<and> po_paid_at r' \<noteq> None) \<and>
    (po_status r = OS_Completed \<longrightarrow> po_status r' = OS_Completed)"
proof -
  have "list_all2 order_step (db_orders db) (db_orders db')"
    using pool_keeps [OF assms(1,2)] by (simp add: pay_rely_def)
  then have "length (db_orders db') = length (db_orders db)" "order_step r r'"
    using assms(3-5) by (simp_all add: list_all2_conv_all_nth)
  then show ?thesis by (auto simp: order_step_def paid_ok_def)
qed

section \<open>Subscriptions and rebates\<close>

text \<open>
  An order for a group subscription extends the subscription at most once, and the
  affiliate relationship of its user is settled by an order at most once, in any run.
\<close>

theorem group_order_assigned_once:
  assumes "pay_inv db" "run_pool pay_exec (serve sv) evs ([], db) = (ps, db')"
    and "ord \<in> set (db_orders db')" "po_plan ord = None"
  shows "length (filter (\<lambda>t. fst t = po_id ord) (db_terms db')) \<le> 1 \<and> distinct (db_rewards db')"
  using pool_keeps [OF assms(1,2)] assms(3,4)
  by (auto simp: pay_inv_def terms_inv_def terms_of_def rewards_inv_def)

end
