(* ===== verification/Payment_Liveness.thy ===== *)
theory Payment_Liveness
  imports Payment_Laws
begin

text \<open>
  Recovery. After crashes and faults of any kind, one retry that is not disturbed brings a paid
  balance order to its end. \<open>calm lo e\<close>: the call succeeds, the cache and the other services answer
  favourably, the affiliate settings are valid, and the clock is at \<open>lo\<close> or later.
\<close>

definition calm :: "time \<Rightarrow> pay_choice \<Rightarrow> bool" where
  "calm lo e \<longleftrightarrow> ch_outcome e = Done \<and> ch_flag e \<and> ch_pick e = 0 \<and> ch_count e < 30 \<and> lo \<le> ch_now e \<and>
     affiliate_reward_inputs_valid (ch_config e)"

abbreviation pends where "pends lo Q p n s \<equiv> ends pay_exec (calm lo) Q p n s"

lemma calm_exec: "calm lo e \<Longrightarrow> pay_exec e c db = pay_stmt e c db"
  by (cases "c = C_Now") (simp add: pay_exec_def, simp add: pay_exec_calls calm_def del: pay_stmt.simps)

lemma pends_call:
  assumes "0 < n" "\<And>e a u. calm lo e \<Longrightarrow> pay_stmt e c s = (a, u) \<Longrightarrow> pends lo Q (k a) (n - 1) u"
  shows "pends lo Q (Call c k) n s"
  using assms by (auto simp: calm_exec)

lemma pends_now:
  assumes "0 < n" "\<And>now. lo \<le> now \<Longrightarrow> pends lo Q (f now) (n - 1) s"
  shows "pends lo Q (Call C_Now (\<lambda>t. case t of A_Time now \<Rightarrow> f now | _ \<Rightarrow> g t)) n s"
  using assms by (intro pends_call) (auto simp: calm_def)

declare ends.simps(2) [simp del]

section \<open>What the retry needs of the tables\<close>

lemma filter_key: "distinct (map f xs) \<Longrightarrow> x \<in> set xs \<Longrightarrow> filter (\<lambda>y. f y = f x) xs = [x]"
  by (induction xs) (auto simp: filter_empty_conv image_iff)

text \<open>The tables a retry of \<open>ord\<close> works on; the audit log may grow.\<close>

definition same_tables :: "pay_db \<Rightarrow> pay_db \<Rightarrow> bool" where
  "same_tables db u \<longleftrightarrow> db_orders u = db_orders db \<and> db_codes u = db_codes db \<and> db_users u = db_users db \<and>
     db_affiliates u = db_affiliates db"

text \<open>The user of the order has an account and, when he was invited, his inviter has an account and a profile.\<close>

definition settleable :: "payment_order \<Rightarrow> pay_db \<Rightarrow> bool" where
  "settleable ord db \<longleftrightarrow> db_users db (po_user ord) \<noteq> None \<and>
     (case db_affiliates db (po_user ord) of None \<Rightarrow> True
      | Some rel \<Rightarrow> (case af_inviter rel of None \<Rightarrow> True
          | Some i \<Rightarrow> db_affiliates db i \<noteq> None \<and> db_users db i \<noteq> None))"

definition payable_code :: "payment_order \<Rightarrow> pay_db \<Rightarrow> bool" where
  "payable_code ord db \<longleftrightarrow> settleable ord db \<and> po_recharge_code ord \<noteq> [] \<and>
     po_amount ord \<noteq> 0 \<and> po_order_type ord \<noteq> ''subscription'' \<and>
     (\<forall>c \<in> set (db_codes db). rc_code c = po_recharge_code ord \<longrightarrow>
        validate_payment_redeem_code ord c = None \<and> (rc_status c = StatusUnused \<longrightarrow> rc_expires c = None))"

definition leased_order :: "payment_order \<Rightarrow> time \<Rightarrow> pay_db \<Rightarrow> bool" where
  "leased_order ord v db \<longleftrightarrow> pay_inv db \<and>
     (\<exists>r \<in> set (db_orders db). po_core r = po_core ord \<and> held (po_id ord) v r)"

definition completed_order :: "payment_order \<Rightarrow> pay_db \<Rightarrow> bool" where
  "completed_order ord db \<longleftrightarrow> pay_inv db \<and>
     (\<exists>r \<in> set (db_orders db). po_core r = po_core ord \<and> po_status r = OS_Completed)"

lemma same_tables_refl [simp]: "same_tables db db"
  by (simp add: same_tables_def)

lemma leased_same: "leased_order ord v db \<Longrightarrow> db_orders u = db_orders db \<Longrightarrow> pay_inv u \<Longrightarrow> leased_order ord v u"
  by (simp add: leased_order_def)

lemma settleable_mono:
  "settleable ord db \<Longrightarrow> dom (db_users db) \<subseteq> dom (db_users u) \<Longrightarrow> db_affiliates u = db_affiliates db \<Longrightarrow>
    settleable ord u"
  by (auto simp: settleable_def split: option.splits)

lemma payable_same: "payable_code ord db \<Longrightarrow> same_tables db u \<Longrightarrow> payable_code ord u"
  using settleable_mono [of ord db u] by (simp add: payable_code_def same_tables_def)

lemma credited_same: "credited db ord \<Longrightarrow> db_codes u = db_codes db \<Longrightarrow> credited u ord"
  by (simp add: credited_def code_ready_def used_by_user_def)

lemma get_order [simp]:
  assumes "pay_inv db" "ord \<in> set (db_orders db)"
  shows "only_order (\<lambda>r. po_id r = po_id ord) db = A_Order ord"
  using assms filter_key [of po_id "db_orders db" ord]
  by (simp add: only_order_def pay_inv_def orders_inv_def)

lemma get_code:
  assumes "pay_inv db" "c \<in> set (db_codes db)"
  shows "repo_get_by_code (rc_code c) db = A_Code c"
  using assms filter_key [of rc_code "db_codes db" c]
  by (simp add: repo_get_by_code_def pay_inv_def codes_inv_def)

section \<open>The parts of a retry\<close>

lemma audit_ends:
  "pay_inv s \<Longrightarrow> pends lo (\<lambda>_ u. pay_inv u \<and> same_tables s u) (write_audit_log oid act) 1 s"
  unfolding write_audit_log_def
  by (rule pends_call) (auto dest: sql_audit_keeps simp: sql_audit_def same_tables_def split: if_splits)

lemma grant_reward_credit_defined:
  assumes "db_users db (gc_user g) \<noteq> None"
  obtains b u where "grant_reward_credit_tx g db = Some (b, u)" "dom (db_users db) \<subseteq> dom (db_users u)"
proof (cases "list_ex (same_grant g) (db_credits db)")
  case True then show ?thesis using that [of False db] by (simp add: grant_reward_credit_tx_def)
next
  case False then show ?thesis using that [of True] assms by (auto simp: grant_reward_credit_tx_def subset_insertI)
qed

lemma grant_inviter_defined:
  assumes "db_affiliates db i \<noteq> None" "db_users db i \<noteq> None"
  shows "\<exists>b u. grant_inviter_reward i j v l db = Some (b, u) \<and> dom (db_users db) \<subseteq> dom (db_users u)"
proof -
  obtain b u where "grant_reward_credit_tx (affiliate_credit i ''affiliate_inviter'' i j v) db = Some (b, u)"
    "dom (db_users db) \<subseteq> dom (db_users u)"
    using assms(2) by (auto intro: grant_reward_credit_defined [of db "affiliate_credit i ''affiliate_inviter'' i j v"]
        simp: affiliate_credit_def)
  then show ?thesis using assms(1) by (auto simp: grant_inviter_reward_def)
qed

lemma grant_rewards_defined:
  assumes "db_affiliates db i \<noteq> None" "db_users db i \<noteq> None" "db_users db j \<noteq> None"
  shows "\<exists>b c u. grant_affiliate_relationship_rewards_tx i j v w l db = Some (b, c, u)"
proof -
  obtain b u where u: "grant_inviter_reward i j v l db = Some (b, u)" "dom (db_users db) \<subseteq> dom (db_users u)"
    using grant_inviter_defined [OF assms(1,2)] by blast
  then have "db_users u j \<noteq> None" using assms(3) by blast
  then obtain c x where "grant_invitee_reward i j w u = Some (c, x)"
    by (cases "0 < w") (auto simp: grant_invitee_reward_def affiliate_credit_def
        intro: grant_reward_credit_defined [of u "affiliate_credit j ''affiliate_invitee'' i j w"])
  then show ?thesis using u(1) by (auto simp: grant_affiliate_relationship_rewards_tx_def)
qed

lemma resolve_first_recharge_defined:
  assumes "settleable ord db" "affiliate_reward_inputs_valid cfg" "0 < po_user ord"
  shows "resolve_first_recharge cfg (po_user ord) oid q db \<noteq> None"
proof (cases "db_affiliates db (po_user ord)")
  case None
  then show ?thesis using assms(2,3)
    by (simp add: resolve_first_recharge_def ensure_user_affiliate_def Let_def)
next
  case (Some rel)
  note rel = this
  show ?thesis
  proof (cases "af_inviter rel")
    case None
    then show ?thesis using assms(2,3) rel by (simp add: resolve_first_recharge_def ensure_user_affiliate_def)
  next
    case (Some i)
    then have "\<exists>b c u. grant_affiliate_relationship_rewards_tx i (po_user ord) v w l db = Some (b, c, u)" for v w l
      using assms(1) rel by (intro grant_rewards_defined) (simp_all add: settleable_def)
    then obtain b c u where "grant_affiliate_relationship_rewards_tx i (po_user ord) (ac_inviter_reward cfg)
        (ac_invitee_reward cfg) (ac_inviter_reward_limit cfg) db = Some (b, c, u)" by blast
    then show ?thesis using assms(2,3) rel Some by (auto simp: resolve_first_recharge_def ensure_user_affiliate_def)
  qed
qed

lemma rebate_defined:
  assumes "calm lo e" "settleable ord db"
  shows "\<exists>b u. tx_rebate e ord base db = (A_Bool b, u)"
proof -
  have "affiliate_reward_inputs_valid ((ch_config e)\<lparr>ac_inviter_reward := fixed (ac_inviter_reward (ch_config e)) 8,
      ac_invitee_reward := fixed (ac_invitee_reward (ch_config e)) 8\<rparr>)"
    using assms(1) by (simp add: calm_def affiliate_reward_inputs_valid_def fixed_nonneg)
  then have "grant_first_recharge_reward e (po_user ord) base sub (po_id ord) db \<noteq> None" for sub
    using resolve_first_recharge_defined [OF assms(2)] by (auto simp: grant_first_recharge_reward_def Let_def)
  then obtain b u where "grant_first_recharge_reward e (po_user ord) base
      (po_order_type ord = ''subscription'') (po_id ord) db = Some (b, u)" by fastforce
  then show ?thesis using assms(1) by (cases b) (auto simp: tx_rebate_def calm_def)
qed

lemma rebate_tables: "tx_rebate e ord base db = (a, u) \<Longrightarrow> db_orders u = db_orders db \<and> db_codes u = db_codes db"
  by (auto simp: tx_rebate_def settles_def dest!: grant_first_recharge_settles
      split: if_splits option.splits bool.splits)

lemma rebate_ends:
  assumes "pay_inv s" "settleable ord s"
  shows "pends lo (\<lambda>r u. r = None \<and> pay_inv u \<and> db_orders u = db_orders s \<and> db_codes u = db_codes s)
    (apply_affiliate_rebate_for_order sv ord) 1 s" (is "pends lo ?Q _ _ _")
proof -
  let ?c = "C_Rebate ord (affiliate_rebate_base_amount ord)"
  have "pends lo ?Q (Call ?c (\<lambda>a. case a of A_Bool _ \<Rightarrow> Ret None | _ \<Rightarrow> p)) 1 s" for p
  proof (rule pends_call)
    fix e a u assume e: "calm lo e" "pay_stmt e ?c s = (a, u)"
    have "pay_inv u" using e(2) tx_rebate_keeps [OF assms(1)] by simp
    moreover have "\<exists>b. a = A_Bool b" using rebate_defined [OF e(1) assms(2), of "affiliate_rebate_base_amount ord"] e(2) by auto
    moreover have "db_orders u = db_orders s \<and> db_codes u = db_codes s" using e(2) rebate_tables by simp
    ultimately show "pends lo ?Q (case a of A_Bool _ \<Rightarrow> Ret None | _ \<Rightarrow> p) (1 - 1) u" by auto
  qed simp
  note call = this
  show ?thesis
  proof (cases "affiliate_rebate_base_amount ord \<le> 0 \<and> \<not> is_sub ord \<or> \<not> sv_affiliate sv")
    case True then show ?thesis using assms by (auto simp: apply_affiliate_rebate_for_order_def)
  next
    case False
    then have "apply_affiliate_rebate_for_order sv ord = Call ?c (\<lambda>a. case a of
          A_Bool _ \<Rightarrow> Ret None
        | _ \<Rightarrow> bind_prog (write_audit_log (po_id ord) ''AFFILIATE_REBATE_FAILED'')
            (\<lambda>_. Ret (Some (err_db ''affiliate rebate''))))"
      unfolding apply_affiliate_rebate_for_order_def by presburger
    then show ?thesis by (simp only: call)
  qed
qed

lemma truncate_us_mono: "a \<le> b \<Longrightarrow> truncate_us a \<le> truncate_us b"
proof -
  assume "a \<le> b"
  then have "a div 1000 \<le> b div 1000" by (rule zdiv_mono1) simp
  then show ?thesis by (simp add: truncate_us_def minus_mod_eq_mult_div)
qed

definition retryable :: "time \<Rightarrow> payment_order \<Rightarrow> bool" where
  "retryable lo ord \<longleftrightarrow> po_paid_at ord \<noteq> None \<and> acquirable (truncate_us lo) ord"

lemma acquire_ends:
  assumes s: "pay_inv s" "ord \<in> set (db_orders s)" and r: "retryable lo ord"
  shows "pends lo (\<lambda>r u. \<exists>v. r = Inr (Some v) \<and> leased_order ord v u \<and> db_codes u = db_codes s \<and>
    db_users u = db_users s \<and> db_affiliates u = db_affiliates s) (acquire_payment_fulfillment_lease ord) 3 s"
    (is "pends lo ?Q _ _ _")
  unfolding acquire_payment_fulfillment_lease_def
proof (rule pends_now, simp, rule pends_call, simp)
  fix now e a u
  assume now: "lo \<le> now" and st: "pay_stmt e (C_Acquire (po_id ord) (truncate_us now)) s = (a, u)"
  define v where "v = truncate_us now"
  define f where "f = (\<lambda>r :: payment_order. r\<lparr>po_status := OS_Recharging, po_updated := v, po_failed_at := None,
            po_failed_reason := None\<rparr>)"
  have acq: "acquirable v ord" using r truncate_us_mono [OF now] by (auto simp: retryable_def acquirable_def v_def)
  have u: "pay_inv u" using st s(1) sql_acquire_keeps by simp
  have res: "a = A_Rows (length (filter (\<lambda>r. po_id r = po_id ord \<and> acquirable v r) (db_orders s)))"
    "u = s\<lparr>db_orders := map (\<lambda>r. if po_id r = po_id ord \<and> acquirable v r then f r else r) (db_orders s)\<rparr>"
    using st by (auto simp: sql_acquire_def update_orders_def v_def f_def)
  have codes: "db_codes u = db_codes s" "db_users u = db_users s" "db_affiliates u = db_affiliates s" by (simp_all add: res(2))
  have mem: "ord \<in> set (filter (\<lambda>r. po_id r = po_id ord \<and> acquirable v r) (db_orders s))" using s acq by simp
  have o': "f ord \<in> set (db_orders u)" using s acq by (auto simp: res(2))
  have id: "po_id (f ord) = po_id ord" and core: "po_core (f ord) = po_core ord"
    and hv: "held (po_id ord) v (f ord)" and v: "po_updated (f ord) = v" "po_status (f ord) = OS_Recharging"
    by (simp_all add: f_def po_core_def held_def)
  have oo: "only_order (\<lambda>r. po_id r = po_id ord) u = A_Order (f ord)" using get_order [OF u o'] id by simp
  have "leased_order ord v u" using u o' core hv by (auto simp: leased_order_def)
  moreover have "0 < length (filter (\<lambda>r. po_id r = po_id ord \<and> acquirable v r) (db_orders s))"
    using mem by (cases "filter (\<lambda>r. po_id r = po_id ord \<and> acquirable v r) (db_orders s)") auto
  ultimately show "pends lo ?Q (case a of
         A_Rows n \<Rightarrow>
           if n = 0 then Call (C_Order (po_id ord)) (\<lambda>a. case a of
               A_Order cur \<Rightarrow>
                 if po_status cur = OS_Completed then Ret (Inr None)
                 else if po_status cur = OS_Recharging
                 then Ret (Inl (pay_conflict ''order is being processed''))
                 else Ret (Inl (pay_conflict ''order status changed while acquiring fulfillment lease''))
             | _ \<Rightarrow> Ret (Inl (err_db ''reload fulfillment lease'')))
           else Call (C_Order (po_id ord)) (\<lambda>a. case a of
               A_Order claimed \<Rightarrow>
                 if po_status claimed \<noteq> OS_Recharging
                 then Ret (Inl (pay_conflict ''fulfillment lease was lost''))
                 else Ret (Inr (Some (po_updated claimed)))
             | _ \<Rightarrow> Ret (Inl (err_db ''reload acquired fulfillment lease'')))
       | _ \<Rightarrow> Ret (Inl (err_db ''acquire fulfillment lease''))) (3 - 1 - 1) u"
    by (auto simp: res(1) oo v codes intro!: pends_call)
qed

lemma mark_completed_ends:
  assumes s: "leased_order ord v s" "credited s ord"
  shows "pends lo (\<lambda>r u. r = None \<and> completed_order ord u) (mark_completed ord v act) 4 s"
    (is "pends lo ?Q _ _ _")
  unfolding mark_completed_def
proof (rule pends_now, simp, rule pends_call, simp)
  fix now e a u assume st: "pay_stmt e (C_Complete (po_id ord) v now) s = (a, u)"
  obtain r where inv: "pay_inv s" and r: "r \<in> set (db_orders s)" "po_core r = po_core ord" "held (po_id ord) v r"
    using s by (auto simp: leased_order_def)
  have "credited s q" if "q \<in> set (db_orders s)" "po_id q = po_id ord" for q
  proof -
    have "po_core q = po_core r"
      by (rule same_id_core [OF inv order_known [OF r(1)] that(1)]) (simp add: that(2) po_core_eq(1) [OF r(2)])
    then show ?thesis using s(2) r(2) credited_core [of q ord] by simp
  qed
  then have "call_ok (C_Complete (po_id ord) v now) s" by simp
  then have u: "pay_inv u" using st inv pay_stmt_keeps by blast
  define f where "f = (\<lambda>r :: payment_order. r\<lparr>po_status := OS_Completed, po_completed_at := Some now, po_updated := ch_now e\<rparr>)"
  have res: "a = A_Rows (length (filter (held (po_id ord) v) (db_orders s)))"
    "u = s\<lparr>db_orders := map (\<lambda>r. if held (po_id ord) v r then f r else r) (db_orders s)\<rparr>"
    using st by (auto simp: sql_complete_def update_orders_def f_def)
  have "f r \<in> set (db_orders u)" using r by (auto simp: res(2))
  moreover have "po_core (f r) = po_core ord" "po_status (f r) = OS_Completed"
    using r(2) by (simp_all add: f_def po_core_def)
  ultimately have c: "completed_order ord u" using u by (auto simp: completed_order_def)
  have "0 < length (filter (held (po_id ord) v) (db_orders s))"
    using r(1,3) by (cases "filter (held (po_id ord) v) (db_orders s)") (auto simp: filter_empty_conv)
  moreover have "pends lo ?Q (bind_prog (has_audit_log (po_id ord) act) (\<lambda>b. if b then Ret None
      else bind_prog (write_audit_log (po_id ord) act) (\<lambda>_. Ret None))) (4 - 1 - 1) u"
  proof (rule ends_bindI [where m = 1 and n = 1 and P = "\<lambda>b w. w = u"])
    show "pends lo (\<lambda>b w. w = u) (has_audit_log (po_id ord) act) 1 u"
      unfolding has_audit_log_def by (rule pends_call) auto
    have "pends lo ?Q (bind_prog (write_audit_log (po_id ord) act) (\<lambda>_. Ret None)) 1 u"
      using c by (intro ends_bindI [OF audit_ends [OF u], where n = 0])
        (auto simp: completed_order_def same_tables_def)
    then show "w = u \<Longrightarrow> pends lo ?Q (if b then Ret None
        else bind_prog (write_audit_log (po_id ord) act) (\<lambda>_. Ret None)) 1 w" for b w
      using c by simp
  qed simp
  ultimately show "pends lo ?Q (case a of A_Rows n \<Rightarrow>
           if n = 0 then Call (C_Order (po_id ord)) (\<lambda>a. Ret (case a of
               A_Order cur \<Rightarrow> if po_status cur = OS_Completed then None
                 else Some (pay_conflict ''fulfillment lease was lost before completion'')
             | _ \<Rightarrow> Some (pay_conflict ''fulfillment lease was lost before completion'')))
           else bind_prog (has_audit_log (po_id ord) act) (\<lambda>b.
             if b then Ret None
             else bind_prog (write_audit_log (po_id ord) act) (\<lambda>_. Ret None))
       | _ \<Rightarrow> Ret (Some (err_db ''mark completed''))) (4 - 1 - 1) u"
    by (simp add: res(1))
qed

lemma rebate_and_complete_ends:
  assumes "leased_order ord v s" "credited s ord" "settleable ord s"
  shows "pends lo (\<lambda>r u. r = None \<and> completed_order ord u) (rebate_and_complete sv ord v act) 5 s"
proof -
  have "pay_inv s" using assms(1) by (simp add: leased_order_def)
  then show ?thesis unfolding rebate_and_complete_def
    by (rule ends_bindI [OF rebate_ends [OF _ assms(3)], where n = 4])
      (auto intro!: mark_completed_ends leased_same [OF assms(1)] credited_same [OF assms(2)])
qed

section \<open>Redeeming the code\<close>

lemma redeem_tx_ends:
  assumes s: "leased_order ord v s" "settleable ord s"
    and c: "c \<in> set (db_codes s)" "rc_status c = StatusUnused"
      "rc_code c = po_recharge_code ord" "rc_type c = RedeemTypeBalance" "worth ord (rc_value c)"
  shows "pends lo (\<lambda>r u. (\<exists>d. r = Inr d) \<and> leased_order ord v u \<and> credited u ord \<and> settleable ord u)
    (redeem_tx c (po_user ord)) 2 s" (is "pends lo ?Q _ _ _")
  unfolding redeem_tx_def
proof (rule pends_call, simp)
  fix e a u assume st: "pay_stmt e (C_Redeem c (po_user ord)) s = (a, u)"
  have inv: "pay_inv s" using s by (simp add: leased_order_def)
  have known: "known_code c s" using c(1) by (auto simp: known_code_def intro!: bexI [of _ c])
  have ex: "\<exists>d \<in> set (db_codes s). code_unused (rc_id c) d" using c by (auto simp: code_unused_def)
  have a: "a = A_Unit" "db_orders u = db_orders s"
    and su: "dom (db_users s) \<subseteq> dom (db_users u)" "db_affiliates u = db_affiliates s"
    using st s(2) ex c(4) by (auto simp: tx_redeem_def repo_use_code_def settleable_def)
  have su: "settleable ord u" using settleable_mono [OF s(2)] su by simp
  have k: "pay_inv u" "pay_rely s u" "used_by_user u (po_recharge_code ord) (po_user ord)"
    using tx_redeem_keeps [OF inv known] st a(1) c(3) by auto
  have "code_ready s ord" using c by (auto simp: code_ready_def)
  then have cr: "credited u ord" using rely_code_ready [OF k(2)] k(3) by (simp add: credited_def)
  have le: "leased_order ord v u" using s(1) a(2) k(1) by (simp add: leased_order_def)
  obtain d where d: "d \<in> set (db_codes u)" "code_core d = code_core c"
    using k(2) c(1) by (auto simp: pay_rely_def codes_le_def code_step_def)
  have "find (\<lambda>c'. rc_id c' = rc_id c) (db_codes u) \<noteq> None"
    using d(1) code_core_eq(1) [OF d(2)] by (auto simp: find_None_iff)
  then have "pends lo ?Q (Call (C_Code_By_Id (rc_id c)) (\<lambda>a. Ret (case a of A_Code c' \<Rightarrow> Inr c'
         | _ \<Rightarrow> Inl (err_db ''get updated redeem code'')))) (2 - 1) u"
    using cr le su by (intro pends_call) auto
  then show "pends lo ?Q (case a of A_Unit \<Rightarrow> Call (C_Code_By_Id (rc_id c)) (\<lambda>a. Ret (case a of
         A_Code c' \<Rightarrow> Inr c' | _ \<Rightarrow> Inl (err_db ''get updated redeem code'')))
       | A_Used \<Rightarrow> Ret (Inl err_code_used) | _ \<Rightarrow> Ret (Inl (err_db ''redeem transaction''))) (2 - 1) u"
    by (simp add: a)
qed

lemma redeem_ends:
  assumes s: "leased_order ord v s" "settleable ord s"
    and c: "c \<in> set (db_codes s)" "rc_status c = StatusUnused"
      "rc_code c = po_recharge_code ord" "rc_type c = RedeemTypeBalance" "worth ord (rc_value c)"
      "rc_expires c = None"
  shows "pends lo (\<lambda>r u. (\<exists>d. r = Inr d) \<and> leased_order ord v u \<and> credited u ord \<and> settleable ord u)
    (redeem sv False (po_user ord) (po_recharge_code ord)) 8 s" (is "pends lo ?Q _ _ _")
proof -
  have inv: "pay_inv s" using s by (simp add: leased_order_def)
  have use: "\<not> rc_is_expired_at c now" "rc_can_use c now" for now
    using c by (simp_all add: rc_is_expired_at_def rc_can_use_def)
  have "pends lo ?Q (Call (C_User (po_user ord)) (\<lambda>a. case a of A_Unit \<Rightarrow> redeem_tx c (po_user ord)
      | _ \<Rightarrow> Ret (Inl e))) 3 s" for e
    using redeem_tx_ends [OF s c(1-5), of lo] s(2) by (intro pends_call) (auto simp: settleable_def)
  then have "pends lo ?Q (redeem_found sv False (po_user ord) c) 5 s"
    unfolding redeem_found_def using c(4)
    by (auto intro!: pends_now simp: use redeem_type_error_def numeral_eq_Suc)
  then have "pends lo ?Q (redeem_locked sv False (po_user ord) (po_recharge_code ord)) 6 s"
    unfolding redeem_locked_def get_by_code_def
    by (intro ends_bindI [where m = 1 and n = 5 and P = "\<lambda>r u. r = Inr c \<and> u = s"])
      (auto intro!: pends_call simp: get_code [OF inv c(1), unfolded c(3)])
  moreover have "pends lo ?Q (bind_prog (release_redeem_lock sv code) (\<lambda>_. Ret r)) 1 u" if "?Q r u" for code r u
    using that by (auto simp: release_redeem_lock_def intro!: pends_call)
  ultimately have "pends lo ?Q (bind_prog (redeem_locked sv False (po_user ord) (po_recharge_code ord))
      (\<lambda>r. bind_prog (release_redeem_lock sv (po_recharge_code ord)) (\<lambda>_. Ret r))) 7 s"
    by (rule ends_bindI) simp_all
  then show ?thesis unfolding redeem_def
    by (simp, intro ends_bindI [where m = 1 and n = 7 and P = "\<lambda>r u. r \<and> u = s"])
      (auto simp: acquire_redeem_lock_def calm_def intro!: pends_call)
qed

section \<open>The whole retry\<close>

lemma redeem_and_complete_ends:
  assumes s: "leased_order ord v s" "settleable ord s"
    and c: "c \<in> set (db_codes s)" "rc_status c = StatusUnused"
      "rc_code c = po_recharge_code ord" "rc_type c = RedeemTypeBalance" "worth ord (rc_value c)"
      "rc_expires c = None"
  shows "pends lo (\<lambda>r u. r = None \<and> completed_order ord u) (redeem_and_complete sv ord v) 13 s"
  unfolding redeem_and_complete_def
  by (rule ends_bindI [OF redeem_ends [OF s c], where n = 5]) (auto intro: rebate_and_complete_ends)

lemma create_ends:
  assumes s: "leased_order ord v s" "payable_code ord s"
    and no: "\<forall>c \<in> set (db_codes s). rc_code c \<noteq> po_recharge_code ord"
    and t: "trim_space (po_recharge_code ord) = po_recharge_code ord"
  shows "pends lo (\<lambda>r u. r = None \<and> leased_order ord v u \<and> settleable ord u \<and>
      (\<exists>c \<in> set (db_codes u). c = payment_redeem_code ord\<lparr>rc_id := db_next_code s\<rparr>))
    (create_code (payment_redeem_code ord)) 2 s" (is "pends lo ?Q _ _ _")
proof -
  let ?c = "payment_redeem_code ord"
  have "pends lo ?Q (Call (C_Create_Code ?c) (\<lambda>a. case a of A_Unit \<Rightarrow> Ret None | _ \<Rightarrow> Ret (Some x))) 1 s" for x
  proof (rule pends_call, simp)
    fix e a u assume st: "pay_stmt e (C_Create_Code ?c) s = (a, u)"
    have "pay_inv s" using s by (simp add: leased_order_def)
    moreover have "call_ok (C_Create_Code ?c) s" by (simp add: payment_redeem_code_def)
    ultimately have "pay_inv u" using st pay_stmt_keeps by blast
    then show "pends lo ?Q (case a of A_Unit \<Rightarrow> Ret None | _ \<Rightarrow> Ret (Some x)) (1 - 1) u"
      using st s no settleable_mono [of ord s u]
      by (auto simp: repo_create_code_def leased_order_def payment_redeem_code_def payable_code_def)
  qed
  then show ?thesis unfolding create_code_def Let_def
    using s(2) t
    by (auto simp: payment_redeem_code_def payable_code_def rc_is_expired_at_def numeral_2_eq_2 intro!: pends_now)
qed

lemma do_balance_ends:
  assumes s: "leased_order ord v s" "payable_code ord s"
    and t: "trim_space (po_recharge_code ord) = po_recharge_code ord"
  shows "pends lo (\<lambda>r u. r = None \<and> completed_order ord u) (do_balance sv ord v) 16 s"
    (is "pends lo ?Q _ _ _")
proof -
  have inv: "pay_inv s" using s by (simp add: leased_order_def)
  have users: "settleable ord s" using s(2) by (simp add: payable_code_def)
  show ?thesis
  proof (cases "\<exists>c \<in> set (db_codes s). rc_code c = po_recharge_code ord")
    case False
    then have no: "repo_get_by_code (po_recharge_code ord) s = A_None"
      by (simp add: repo_get_by_code_def filter_empty_conv [THEN iffD2])
    have new: "pends lo ?Q (redeem_and_complete sv ord v) 13 u"
      if "leased_order ord v u" "settleable ord u"
        "payment_redeem_code ord\<lparr>rc_id := i\<rparr> \<in> set (db_codes u)" for u i
      using that by (intro redeem_and_complete_ends [OF that])
        (simp_all add: payment_redeem_code_def worth_def)
    have "pends lo ?Q (bind_prog (create_code (payment_redeem_code ord)) (\<lambda>err. case err of
        Some e \<Rightarrow> Ret (Some (Other_Error ''create redeem code'' (Some e)))
      | None \<Rightarrow> redeem_and_complete sv ord v)) 15 s"
      using False by (intro ends_bindI [OF create_ends [OF s _ t], where n = 13]) (auto intro: new)
    then show ?thesis unfolding do_balance_def get_by_code_def
      by (intro ends_bindI [where m = 1 and n = 15 and P = "\<lambda>r u. r = Inl None \<and> u = s"])
        (auto intro!: pends_call simp: no resolve_redeem_action_def)
  next
    case True
    then obtain c where c: "c \<in> set (db_codes s)" "rc_code c = po_recharge_code ord" by blast
    have val: "validate_payment_redeem_code ord c = None" "rc_status c = StatusUnused \<longrightarrow> rc_expires c = None"
      using s(2) c by (auto simp: payable_code_def)
    have known: "known_code c s" using c(1) by (auto simp: known_code_def intro!: bexI [of _ c])
    have used: "pends lo ?Q (rebate_and_complete sv ord v ''RECHARGE_SUCCESS'') 15 s" if "rc_is_used c"
      using valid_code_ready(2) [OF known val(1) that] s(1) users
      by (intro ends_weaken [OF rebate_and_complete_ends]) simp_all
    have "rc_type c = RedeemTypeBalance" "worth ord (rc_value c)" "\<not> rc_is_used c \<longrightarrow> rc_status c = StatusUnused"
      using val(1) by (auto simp: validate_payment_redeem_code_def worth_def rc_is_used_def split: if_splits)
    then have unused: "pends lo ?Q (redeem_and_complete sv ord v) 15 s" if "\<not> rc_is_used c"
      using that val(2) c users s(1) by (intro ends_weaken [OF redeem_and_complete_ends]) auto
    have gc: "repo_get_by_code (po_recharge_code ord) s = A_Code c" using get_code [OF inv c(1)] c(2) by simp
    show ?thesis unfolding do_balance_def get_by_code_def
      using used unused
      by (intro ends_bindI [where m = 1 and n = 15 and P = "\<lambda>r u. r = Inr c \<and> u = s"])
        (auto intro!: pends_call simp: resolve_redeem_action_def gc val(1))
  qed
qed

lemma execute_balance_ends:
  assumes s: "pay_inv s" "ord \<in> set (db_orders s)" "payable_code ord s" "retryable lo ord"
  shows "pends lo (\<lambda>r u. r = None \<and> completed_order ord u) (execute_balance_fulfillment sv (po_id ord)) 20 s"
    (is "pends lo ?Q _ _ _")
proof -
  have t: "trim_space (po_recharge_code ord) = po_recharge_code ord"
    using s by (auto simp: pay_inv_def orders_inv_def payable_code_def)
  have ok: "po_status ord \<noteq> OS_Completed" "fulfillable_error ord = None"
    using s(4) by (auto simp: retryable_def acquirable_def fulfillable_error_def)
  have "pends lo ?Q (with_lease ord (do_balance sv ord)) 19 s"
    unfolding with_lease_def
  proof (rule ends_bindI [OF acquire_ends [OF s(1,2,4)], where n = 16])
    fix r :: "go_error + time option" and u
    assume "\<exists>v. r = Inr (Some v) \<and> leased_order ord v u \<and> db_codes u = db_codes s \<and> db_users u = db_users s \<and>
      db_affiliates u = db_affiliates s"
    then obtain v where v: "r = Inr (Some v)" "leased_order ord v u" "db_codes u = db_codes s"
      "db_users u = db_users s" "db_affiliates u = db_affiliates s" by blast
    then have "payable_code ord u" using s(3) settleable_mono [of ord s u] by (simp add: payable_code_def)
    from do_balance_ends [OF v(2) this t, of lo sv] show "pends lo ?Q (case r of
         Inl e \<Rightarrow> Ret (Some e)
       | Inr None \<Rightarrow> Ret None
       | Inr (Some version) \<Rightarrow> bind_prog (do_balance sv ord version) (\<lambda>err. case err of
           None \<Rightarrow> Ret None
         | Some e \<Rightarrow> bind_prog (mark_failed (po_id ord) version e) (\<lambda>_. Ret (Some e)))) 16 u"
      unfolding v by simp (erule ends_bindI [where n = 0], auto)
  qed simp
  then show ?thesis unfolding execute_balance_fulfillment_def
    using s(1,2) ok by (intro pends_call) auto
qed

text \<open>
  Claim C7. Recovery of a balance order after a crash. Let the tables satisfy the invariant and hold a
  paid order that is not a subscription and whose amount is not zero, in state paid or failed, or in
  state recharging with a lease that has run out (\<open>retryable\<close>). Let its recharge code be absent, or
  present, valid for the order and without an expiry while it is unused; let the user of the order,
  and his inviter when he has one, have their accounts and profiles (\<open>payable_code\<close>). When every call
  of the retry succeeds, the cache and the affiliate settings answer favourably and the clock does not
  go back (\<open>calm\<close>), the retry returns without an error after at most 23 calls, and the order is completed
  and credited.
\<close>

theorem retry_completes:
  assumes "pay_inv db" "ord \<in> set (db_orders db)" "payable_code ord db" "retryable lo ord"
    and "list_all (calm lo) es" "23 \<le> length es"
  shows "\<exists>db'. run_prog pay_exec es (retry_fulfillment sv (po_id ord)) db = (Ret None, db') \<and>
    pay_inv db' \<and> (\<exists>r \<in> set (db_orders db'). po_id r = po_id ord \<and> po_status r = OS_Completed \<and> credited db' r)"
proof -
  let ?Q = "\<lambda>r u. r = None \<and> completed_order ord u"
  have st: "po_status ord = OS_Paid \<or> po_status ord = OS_Failed \<or> po_status ord = OS_Recharging"
    "po_paid_at ord \<noteq> None" "\<not> is_sub ord"
    using assms(3,4) by (auto simp: retryable_def acquirable_def payable_code_def)
  have exec: "pends lo ?Q (execute_fulfillment sv (po_id ord)) 21 u" if "pay_inv u" "same_tables db u" for u
  proof -
    have "pends lo ?Q (execute_balance_fulfillment sv (po_id ord)) 20 u"
      using that assms(2,4) payable_same [OF assms(3)] by (intro execute_balance_ends) (auto simp: same_tables_def)
    then show ?thesis unfolding execute_fulfillment_def
      using that assms(2) st(3) by (intro pends_call) (auto simp: same_tables_def)
  qed
  have "pends lo ?Q (bind_prog (write_audit_log (po_id ord) ''RECHARGE_RETRY'')
      (\<lambda>_. execute_fulfillment sv (po_id ord))) 22 db"
    by (rule ends_bindI [OF audit_ends [OF assms(1)], where n = 21]) (auto intro: exec)
  then have "pends lo ?Q (retry_fulfillment sv (po_id ord)) 23 db"
    unfolding retry_fulfillment_def using assms(1,2) st by (intro pends_call) auto
  from ends_run [OF this assms(5,6)] obtain db' where
    run: "run_prog pay_exec es (retry_fulfillment sv (po_id ord)) db = (Ret None, db')"
    and c: "completed_order ord db'" by auto
  then obtain r where r: "r \<in> set (db_orders db')" "po_core r = po_core ord" "po_status r = OS_Completed"
    by (auto simp: completed_order_def)
  have "credited db' r" using c r po_core_eq(5) [OF r(2)] st(3)
    by (auto simp: completed_order_def pay_inv_def orders_inv_def)
  then show ?thesis using run r c po_core_eq(1) [OF r(2)] by (auto simp: completed_order_def)
qed

end
