(* ===== verification/Payment_Examples.thy ===== *)
theory Payment_Examples
  imports Payment_Liveness
begin

text \<open>
  Concrete runs of the payment subsystem: the hypotheses of its theorems hold on them, and one of them
  shows that an order for a plan can extend a subscription twice.
\<close>

definition demo_service :: pay_service where
  "demo_service = \<lparr>sv_registry = None, sv_affiliate = True, sv_redeem_cache = True\<rparr>"

definition demo_order :: "order_status \<Rightarrow> string \<Rightarrow> int option \<Rightarrow> payment_order" where
  "demo_order st kind plan = \<lparr>po_id = 1, po_user = 7, po_amount = 10, po_pay_amount = 10, po_bonus = 0,
     po_recharge_code = ''PAY-1-5'', po_out_trade_no = ''T1'', po_payment_type = ''stripe'',
     po_trade_no = [], po_order_type = kind, po_plan = plan, po_group = Some 3, po_days = Some 30,
     po_status = st, po_provider_key = None, po_provider_instance = None, po_snapshot = [],
     po_expires = 0, po_paid_at = (if unpaid st then None else Some 1), po_completed_at = None,
     po_failed_at = None, po_failed_reason = None, po_updated = 0\<rparr>"

text \<open>User 7 was invited by user 8 and has not recharged yet.\<close>

definition demo_profile :: "int option \<Rightarrow> affiliate_row" where
  "demo_profile inviter = \<lparr>af_inviter = inviter, af_mode = ''first_recharge'', af_status = ''pending'',
     af_reward_count = 0, af_inviter_rewarded = False, af_invitee_rewarded = False, af_source_order = None\<rparr>"

definition demo_db :: "payment_order \<Rightarrow> pay_db" where
  "demo_db ord = \<lparr>db_orders = [ord], db_codes = [], db_next_code = 1,
     db_users = (\<lambda>u. if u = 7 \<or> u = 8 then Some \<lparr>us_balance = 0, us_total_recharged = 0, us_concurrency = 1\<rparr>
       else None),
     db_audit = [], db_instances = [],
     db_groups = (\<lambda>g. Some \<lparr>gr_active = True, gr_subscription = True\<rparr>), db_subs = [],
     db_ledger = [], db_terms = [], db_rewards = [],
     db_affiliates = (\<lambda>u. if u = 7 then Some (demo_profile (Some 8)) else if u = 8 then Some (demo_profile None)
       else None),
     db_credits = [], db_postings = []\<rparr>"

definition demo_choice :: "call_outcome \<Rightarrow> time \<Rightarrow> pay_choice" where
  "demo_choice oc now = \<lparr>ch_outcome = oc, ch_now = now, ch_flag = True, ch_pick = 0, ch_count = 0,
     ch_provider = None, ch_query = None, ch_config = \<lparr>ac_first_recharge_threshold = 5, ac_inviter_reward = 2,
       ac_invitee_reward = 1, ac_validity_days = 30, ac_inviter_reward_limit = 0\<rparr>\<rparr>"

definition demo_notification :: payment_notification where
  "demo_notification = \<lparr>nt_trade_no = ''X'', nt_order_id = ''T1'', nt_amount = Fin 10,
     nt_status = ''success'', nt_metadata = []\<rparr>"

text \<open>Two deliveries of one notification that work at the same time; the one that wins loses its last answers.\<close>

definition demo_events :: "(pay_request, pay_choice) event list" where
  "demo_events = [Start (Req_Notify demo_notification ''stripe''), Start (Req_Notify demo_notification ''stripe'')] @
     replicate 4 (Step 1 (demo_choice Done 500)) @ replicate 20 (Step 0 (demo_choice Done 1000)) @
     replicate 8 (Step 1 (demo_choice Done 2000)) @
     replicate 4 (Step 0 (demo_choice Done 3000)) @ replicate 2 (Step 0 (demo_choice Lost_After 3000))"

abbreviation "demo_start \<equiv> demo_db (demo_order OS_Pending ''balance'' None)"

definition demo_end :: pay_db where
  "demo_end = snd (run_pool pay_exec (serve demo_service) demo_events ([], demo_start))"

lemma trim_pay [simp]: "trim_space ''PAY-1-5'' = ''PAY-1-5''"
  by code_simp

lemma demo_inv: "st \<noteq> OS_Completed \<Longrightarrow> pay_inv (demo_db (demo_order st kind plan))"
  by (simp add: pay_inv_def codes_inv_def ledger_inv_def orders_inv_def terms_inv_def rewards_inv_def
      terms_of_def demo_db_def demo_order_def)

lemma demo_run:
  "run_pool pay_exec (serve demo_service) demo_events ([], demo_start) =
     (fst (run_pool pay_exec (serve demo_service) demo_events ([], demo_start)), demo_end)"
  by (simp add: demo_end_def)

text \<open>Rewrite rules that run a pool on concrete tables.\<close>

lemmas program_simps = serve.simps handle_payment_notification_def confirm_payment_def to_paid_def
  already_processed_def execute_fulfillment_def execute_balance_fulfillment_def with_lease_def
  acquire_payment_fulfillment_lease_def do_balance_def get_by_code_def create_code_def
  redeem_and_complete_def redeem_def redeem_locked_def redeem_found_def redeem_tx_def
  rebate_and_complete_def apply_affiliate_rebate_for_order_def mark_completed_def mark_failed_def
  has_audit_log_def write_audit_log_def acquire_redeem_lock_def release_redeem_lock_def
  retry_fulfillment_def execute_subscription_fulfillment_def do_sub_def do_sub_assign_def
  do_sub_with_plan_seat_def subscription_has_order_note_def check_group_def

lemmas rebate_simps = grant_first_recharge_reward_def resolve_first_recharge_def
  affiliate_reward_inputs_valid_def ensure_user_affiliate_def affiliate_pending_def
  grant_affiliate_relationship_rewards_tx_def grant_inviter_reward_def grant_invitee_reward_def
  grant_reward_credit_tx_def affiliate_credit_def same_grant_def resolve_affiliate_def

lemma demo_fixed [simp]: "fixed 2 n = 2" "fixed 1 n = 1"
  using fixed_of_int [of 2 n "2 * 10 ^ n"] fixed_of_int [of 1 n "10 ^ n"] by simp_all

lemmas statement_simps = pay_exec_def only_order_def update_orders_def sql_to_paid_def payable_def
  sql_audit_def has_audit_def sql_acquire_def acquirable_def sql_complete_def held_def
  repo_get_by_code_def repo_create_code_def tx_redeem_def repo_use_code_def code_unused_def
  credit_def update_balance_def tx_rebate_def rebate_simps tx_assign_plan_def get_existing_subscription_def
  assign_or_extend_subscription_term_def effective_days_def sub_of_def

lemmas rule_simps = truncate_us_def fulfillable_error_def resolve_redeem_action_def
  payment_redeem_code_def rc_is_expired_at_def rc_can_use_def redeem_type_error_def
  affiliate_rebate_base_amount_def payment_order_amount_without_bonus_def

lemmas demo_simps = demo_db_def demo_profile_def demo_order_def demo_choice_def demo_notification_def demo_service_def

lemmas run_simps = run_pool_def pool_step_def program_simps statement_simps rule_simps demo_simps
  numeral_eq_Suc Let_def

lemma demo_judge:
  "judge_notification demo_service (demo_order OS_Pending ''balance'' None)
     (instance_key (A_Instances []) (demo_order OS_Pending ''balance'' None)) (Fin 10) ''stripe'' [] = Inr 10"
  by code_simp

lemma demo_status:
  "map (\<lambda>r. (po_status r, po_recharge_code r, po_order_type r, po_plan r, po_id r)) (db_orders demo_end) =
    [(OS_Completed, ''PAY-1-5'', ''balance'', None, 1)]"
  using demo_judge unfolding demo_end_def demo_events_def by (simp add: run_simps)

text \<open>Applications of the theorems on pools.\<close>

lemma demo_order_end:
  obtains r where "db_orders demo_end = [r]" "po_status r = OS_Completed" "po_recharge_code r = ''PAY-1-5''"
    "po_order_type r = ''balance''" "po_plan r = None" "po_id r = 1"
  using demo_status by (auto simp: map_eq_Cons_conv)

theorem payment_credited_once_witness:
  "\<exists>r v. db_orders demo_end = [r] \<and> po_status r = OS_Completed \<and>
     filter (\<lambda>t. fst t = ''PAY-1-5'') (db_ledger demo_end) = [(''PAY-1-5'', po_user r, v)] \<and>
     \<bar>v - po_amount r\<bar> \<le> 1 / 10 ^ 8"
proof -
  obtain r where r: "db_orders demo_end = [r]" "po_status r = OS_Completed"
    "po_recharge_code r = ''PAY-1-5''" "po_order_type r = ''balance''" by (rule demo_order_end)
  have "pay_inv demo_start" by (rule demo_inv) simp
  from payment_credited_once [OF this demo_run, of r] r show ?thesis by auto
qed

lemma demo_postings:
  "db_postings demo_end = [Redemption ''PAY-1-5'' 7 10, Reward (affiliate_credit 8 ''affiliate_inviter'' 8 7 2),
     Reward (affiliate_credit 7 ''affiliate_invitee'' 8 7 1)]"
  using demo_judge unfolding demo_end_def demo_events_def by (simp add: run_simps)

theorem balances_follow_ledger_witness:
  "balance_of demo_end 7 = Some 11 \<and> balance_of demo_end 8 = Some 2 \<and>
   db_ledger demo_end = [(''PAY-1-5'', 7, 10)] \<and> distinct (map credit_key (db_credits demo_end))"
proof -
  have "pay_inv demo_start" by (rule demo_inv) simp
  from balances_follow_ledger [OF this demo_run] show ?thesis
    unfolding demo_postings by (auto simp: demo_db_def balance_of_def replay_def affiliate_credit_def)
qed

theorem order_states_witness:
  "\<exists>r. db_orders demo_end = [r] \<and> po_status r = OS_Completed \<and> 0 < po_pay_amount r \<and>
     \<bar>po_pay_amount r - 10\<bar> \<le> payment_amount_tolerance_for_currency (payment_order_currency
       (demo_order OS_Pending ''balance'' None))"
proof -
  obtain r where r: "db_orders demo_end = [r]" "po_status r = OS_Completed" by (rule demo_order_end)
  have "pay_inv demo_start" by (rule demo_inv) simp
  from order_states [OF this demo_run, of 0 "demo_order OS_Pending ''balance'' None" r] r
  show ?thesis by (auto simp: demo_db_def demo_order_def)
qed

theorem group_order_assigned_once_witness:
  "length (filter (\<lambda>t. fst t = 1) (db_terms demo_end)) \<le> 1 \<and> distinct (db_rewards demo_end)"
proof -
  obtain r where r: "db_orders demo_end = [r]" "po_plan r = None" "po_id r = 1" by (rule demo_order_end)
  have "pay_inv demo_start" by (rule demo_inv) simp
  from group_order_assigned_once [OF this demo_run, of r] r show ?thesis by simp
qed

text \<open>A retry of an order whose first worker crashed just after it took the lease, six minutes later.\<close>

theorem retry_completes_witness:
  "\<exists>db'. run_prog pay_exec (replicate 23 (demo_choice Done (6 * minute)))
       (retry_fulfillment demo_service 1) (demo_db (demo_order OS_Recharging ''balance'' None)) = (Ret None, db') \<and>
     (\<exists>r \<in> set (db_orders db'). po_status r = OS_Completed \<and> credited db' r)"
proof -
  let ?ord = "demo_order OS_Recharging ''balance'' None"
  have "\<exists>db'. run_prog pay_exec (replicate 23 (demo_choice Done (6 * minute)))
       (retry_fulfillment demo_service (po_id ?ord)) (demo_db ?ord) = (Ret None, db') \<and> pay_inv db' \<and>
     (\<exists>r \<in> set (db_orders db'). po_id r = po_id ?ord \<and> po_status r = OS_Completed \<and> credited db' r)"
  proof (rule retry_completes [where lo = "6 * minute"])
    show "pay_inv (demo_db ?ord)" by (rule demo_inv) simp
    show "payable_code ?ord (demo_db ?ord)" by (simp add: payable_code_def settleable_def demo_db_def demo_order_def demo_profile_def)
    show "retryable (6 * minute) ?ord"
      by (simp add: retryable_def acquirable_def truncate_us_def demo_order_def)
    show "list_all (calm (6 * minute)) (replicate 23 (demo_choice Done (6 * minute)))"
      by (simp add: calm_def demo_choice_def list_all_iff affiliate_reward_inputs_valid_def)
  qed (simp_all add: demo_db_def)
  then show ?thesis by (auto simp: demo_order_def)
qed

section \<open>A plan order can be assigned twice\<close>

text \<open>
  A worker assigns the plan and stops before it completes the order. Six minutes later a retry takes
  over the lease; both of its checks fail with a lost call, which the code takes for a missing
  entry, and it assigns the plan again.
\<close>

definition plan_start :: pay_db where
  "plan_start = demo_db (demo_order OS_Paid ''subscription'' (Some 4))"

definition plan_events :: "(pay_request, pay_choice) event list" where
  "plan_events = [Start (Req_Retry 1)] @ replicate 11 (Step 0 (demo_choice Done 1000)) @
     [Start (Req_Retry 1)] @ replicate 7 (Step 1 (demo_choice Done (6 * minute))) @
     replicate 2 (Step 1 (demo_choice Lost_Before (6 * minute))) @
     replicate 2 (Step 1 (demo_choice Done (6 * minute)))"

lemma demo_note: "trim_space (payment_subscription_order_note 1) \<noteq> []"
  by code_simp

text \<open>
  The plan path of the subscription fulfilment is not idempotent: there is a run, from
  tables that satisfy the invariant and with two failed reads as the only faults, in which one paid
  order for a plan extends the subscription of its user twice.
\<close>

theorem plan_order_assigned_twice:
  "pay_inv plan_start \<and>
   db_terms (snd (run_pool pay_exec (serve demo_service) plan_events ([], plan_start))) = [(1, 30), (1, 30)]"
proof
  show "pay_inv plan_start" unfolding plan_start_def by (rule demo_inv) simp
  show "db_terms (snd (run_pool pay_exec (serve demo_service) plan_events ([], plan_start))) = [(1, 30), (1, 30)]"
    unfolding plan_start_def plan_events_def by (simp add: run_simps demo_note)
qed

end
