(* ===== verification/Reward_Credits.thy ===== *)
theory Reward_Credits
  imports Money App_Errors "HOL-Library.Product_Lexorder"
begin

text \<open>
  The wallet of a user and its expiring reward credits,
  \<open>internal/repository/reward_credit_repo.go\<close>. A user has a balance and a frozen balance; reward
  credits are lots of the balance with an expiry, and every movement of a lot leaves an event. The
  tables carry the constraints of migration 184: a statement that violates one fails and its
  transaction rolls back. Amounts that go into a column of type \<open>NUMERIC(20,8)\<close> are rounded by
  \<open>money\<close>. Columns that nothing reads (\<open>created_at\<close>, \<open>updated_at\<close>, the request and batch of an event)
  are left out.

  Every operation is one transaction and takes effect at its commit; \<open>we_locked\<close> says which lots
  another transaction holds locked at that time, since the expiry skips them. A transaction that
  fails leaves the wallet as it was: its result is \<open>Inl\<close>.
\<close>

section \<open>Tables\<close>

record wallet_user =
  wu_balance :: rat
  wu_frozen :: rat
  wu_deleted :: bool

abbreviation "RewardCreditDailyCheckIn \<equiv> ''daily_check_in''"
abbreviation "RewardCreditAffiliateInviter \<equiv> ''affiliate_inviter''"
abbreviation "RewardCreditAffiliateInvitee \<equiv> ''affiliate_invitee''"

record reward_credit =
  rc_id :: int
  rc_user :: int
  rc_type :: string
  rc_source :: string
  rc_original :: rat
  rc_remaining :: rat
  rc_reserved :: rat
  rc_granted_at :: time
  rc_expires_at :: time
  rc_consumed_at :: "time option"
  rc_expired_at :: "time option"

datatype event_type = Ev_Grant | Ev_Consume | Ev_Reserve | Ev_Capture | Ev_Release | Ev_Expire

record reward_event =
  ev_credit :: int
  ev_user :: int
  ev_type :: event_type
  ev_key :: string
  ev_amount :: rat

record reward_allocation =
  al_id :: int
  al_hold_key :: string
  al_credit :: int
  al_user :: int
  al_reserved :: rat
  al_captured :: rat
  al_released :: rat
  al_expires_at :: time

record claim =
  cl_request :: string
  cl_api_key :: int
  cl_fingerprint :: string
  cl_created_at :: time

record billed_sub =
  bs_deleted :: bool
  bs_daily :: rat
  bs_weekly :: rat
  bs_monthly :: rat
  bs_week_start :: "time option"

record usage_window =
  uw_used :: rat
  uw_start :: "time option"

record billed_key =
  bk_deleted :: bool
  bk_status :: string
  bk_quota :: rat
  bk_quota_used :: rat
  bk_5h :: usage_window
  bk_1d :: usage_window
  bk_7d :: usage_window

record quota_period =
  qp_limit :: rat
  qp_used :: rat
  qp_fixed :: bool
  qp_start :: "time option"
  qp_reset_at :: "time option"

record billed_account =
  ba_deleted :: bool
  ba_used :: rat
  ba_limit :: rat
  ba_daily :: quota_period
  ba_weekly :: quota_period

record wallet =
  w_users :: "int \<Rightarrow> wallet_user option"
  w_credits :: "reward_credit list"
  w_next_credit :: int
  w_events :: "reward_event list"
  w_allocs :: "reward_allocation list"
  w_next_alloc :: int
  w_claims :: "claim list"
  w_archive :: "claim list"
  w_subs :: "int \<Rightarrow> billed_sub option"
  w_keys :: "int \<Rightarrow> billed_key option"
  w_accounts :: "int \<Rightarrow> billed_account option"
  w_outbox :: "int list"

text \<open>
  What a transaction reads from outside the tables: the clock of the process and of the database,
  the start of the database's day, the next reset of the daily and the weekly quota of an
  account in its time zone, and the lots locked by others.
\<close>

record wallet_env =
  we_now :: time
  we_db_now :: time
  we_day_start :: time
  we_next_reset :: "int \<Rightarrow> bool \<Rightarrow> time"
  we_locked :: "int \<Rightarrow> bool"

section \<open>Statements\<close>

definition err_check :: go_error where "err_check = Other_Error ''check constraint'' None"
definition err_unique :: go_error where "err_unique = Other_Error ''unique constraint'' None"
definition err_user_not_found :: go_error where
  "err_user_not_found = not_found_error ''USER_NOT_FOUND'' ''user not found''"
definition err_credit_changed :: go_error where
  "err_credit_changed = Other_Error ''reward credit changed while locked'' None"

text \<open>\<open>UPDATE users SET balance = balance + db, frozen_balance = frozen_balance + df
  WHERE id = u AND deleted_at IS NULL AND guard RETURNING ...\<close>\<close>

definition update_user ::
  "int \<Rightarrow> (wallet_user \<Rightarrow> bool) \<Rightarrow> rat \<Rightarrow> rat \<Rightarrow> wallet \<Rightarrow> (wallet_user \<times> wallet) option" where
  "update_user u guard db df w = (case w_users w u of
     None \<Rightarrow> None
   | Some r \<Rightarrow> if wu_deleted r \<or> \<not> guard r then None
       else let r' = r\<lparr>wu_balance := money (wu_balance r + db), wu_frozen := money (wu_frozen r + df)\<rparr>
            in Some (r', w\<lparr>w_users := (w_users w)(u \<mapsto> r')\<rparr>))"

definition user_exists :: "wallet \<Rightarrow> int \<Rightarrow> bool" where
  "user_exists w u = (case w_users w u of None \<Rightarrow> False | Some r \<Rightarrow> \<not> wu_deleted r)"

definition credit_checks :: "reward_credit \<Rightarrow> bool" where
  "credit_checks c \<longleftrightarrow> 0 < rc_original c \<and> 0 \<le> rc_remaining c \<and> 0 \<le> rc_reserved c \<and>
     rc_remaining c + rc_reserved c \<le> rc_original c \<and> rc_granted_at c < rc_expires_at c"

definition update_credit ::
  "int \<Rightarrow> (reward_credit \<Rightarrow> bool) \<Rightarrow> (reward_credit \<Rightarrow> reward_credit) \<Rightarrow> wallet \<Rightarrow> go_error + nat \<times> wallet" where
  "update_credit i P f w = (let hit = (\<lambda>c. rc_id c = i \<and> P c) in
     if list_all (\<lambda>c. hit c \<longrightarrow> credit_checks (f c)) (w_credits w)
     then Inr (length (filter hit (w_credits w)),
               w\<lparr>w_credits := map (\<lambda>c. if hit c then f c else c) (w_credits w)\<rparr>)
     else Inl err_check)"

definition same_event :: "int \<Rightarrow> event_type \<Rightarrow> string \<Rightarrow> reward_event \<Rightarrow> bool" where
  "same_event c t k e \<longleftrightarrow> ev_credit e = c \<and> ev_type e = t \<and> ev_key e = k"

definition insert_event ::
  "int \<Rightarrow> int \<Rightarrow> event_type \<Rightarrow> string \<Rightarrow> rat \<Rightarrow> wallet \<Rightarrow> go_error + wallet" where
  "insert_event c u t k a w =
     (if money a \<le> 0 then Inl err_check
      else if list_ex (same_event c t k) (w_events w) then Inl err_unique
      else Inr (w\<lparr>w_events := w_events w @ [\<lparr>ev_credit = c, ev_user = u, ev_type = t, ev_key = k,
             ev_amount = money a\<rparr>]\<rparr>))"

text \<open>\<open>ON CONFLICT (credit_id, event_type, event_key) DO NOTHING\<close>\<close>

definition insert_event_once ::
  "int \<Rightarrow> int \<Rightarrow> event_type \<Rightarrow> string \<Rightarrow> rat \<Rightarrow> wallet \<Rightarrow> go_error + wallet" where
  "insert_event_once c u t k a w =
     (if 0 < money a \<and> list_ex (same_event c t k) (w_events w) then Inr w
      else insert_event c u t k a w)"

section \<open>Expiry\<close>

abbreviation in_expiry_order :: "reward_credit list \<Rightarrow> reward_credit list" where
  "in_expiry_order \<equiv> sort_key (\<lambda>c. (rc_expires_at c, rc_id c))"

definition select_expired_reward_credits ::
  "wallet_env \<Rightarrow> int \<Rightarrow> time \<Rightarrow> int \<Rightarrow> wallet \<Rightarrow> reward_credit list" where
  "select_expired_reward_credits env u now limit w =
     (let cs = in_expiry_order (filter (\<lambda>c. rc_expires_at c \<le> now \<and> 0 < rc_remaining c \<and>
        rc_expired_at c = None \<and> (0 < u \<longrightarrow> rc_user c = u) \<and> \<not> we_locked env (rc_id c)) (w_credits w))
      in if 0 < limit then take (nat limit) cs else cs)"

definition expire_reward_credit :: "reward_credit \<Rightarrow> time \<Rightarrow> wallet \<Rightarrow> go_error + wallet" where
  "expire_reward_credit c now w =
     and_then (update_credit (rc_id c) (\<lambda>r. 0 < rc_remaining r)
       (\<lambda>r. r\<lparr>rc_remaining := 0, rc_expired_at := (case rc_expired_at r of None \<Rightarrow> Some now | t \<Rightarrow> t)\<rparr>) w)
     (\<lambda>(_, w1). insert_event_once (rc_id c) (rc_user c) Ev_Expire ''auto-expiry'' (rc_remaining c) w1)"

fun expire_credits :: "time \<Rightarrow> reward_credit list \<Rightarrow> wallet \<Rightarrow> go_error + wallet" where
  "expire_credits now [] w = Inr w"
| "expire_credits now (c # cs) w = and_then (expire_reward_credit c now w) (expire_credits now cs)"

definition subtract_expired_reward_balance :: "int \<Rightarrow> rat \<Rightarrow> wallet \<Rightarrow> go_error + wallet" where
  "subtract_expired_reward_balance u amount w =
     (case update_user u (\<lambda>_. True) (- amount) 0 w of
        None \<Rightarrow> Inl err_user_not_found | Some (_, w') \<Rightarrow> Inr w')"

abbreviation total_remaining :: "reward_credit list \<Rightarrow> rat" where
  "total_remaining cs \<equiv> sum_list (map rc_remaining cs)"

definition expire_reward_credits_for_user ::
  "wallet_env \<Rightarrow> int \<Rightarrow> time \<Rightarrow> wallet \<Rightarrow> go_error + rat \<times> wallet" where
  "expire_reward_credits_for_user env u now w =
     (let cs = select_expired_reward_credits env u now 0 w in
      if cs = [] then Inr (0, w)
      else and_then (expire_credits now cs w)
        (\<lambda>w1. and_then (subtract_expired_reward_balance u (total_remaining cs) w1)
          (\<lambda>w2. Inr (total_remaining cs, w2))))"

definition expire_user :: "wallet_env \<Rightarrow> int \<Rightarrow> wallet \<Rightarrow> go_error + rat \<times> wallet" where
  "expire_user env u w = (if u \<le> 0 then Inl err_user_not_found
     else expire_reward_credits_for_user env u (we_now env) w)"

text \<open>
  The background job. The Go map \<open>byUser\<close> is iterated in some order; the model takes the order of the
  first lot of each user.
\<close>

fun subtract_each :: "(int \<times> rat) list \<Rightarrow> wallet \<Rightarrow> go_error + wallet" where
  "subtract_each [] w = Inr w"
| "subtract_each ((u, a) # us) w = and_then (subtract_expired_reward_balance u a w) (subtract_each us)"

definition by_user :: "reward_credit list \<Rightarrow> (int \<times> rat) list" where
  "by_user cs = map (\<lambda>u. (u, total_remaining (filter (\<lambda>c. rc_user c = u) cs))) (remdups (map rc_user cs))"

definition batch_limit :: "int \<Rightarrow> int" where
  "batch_limit limit = (if limit \<le> 0 then 200 else if 1000 < limit then 1000 else limit)"

definition expire_batch :: "wallet_env \<Rightarrow> int \<Rightarrow> wallet \<Rightarrow> go_error + (int \<times> rat) list \<times> wallet" where
  "expire_batch env limit w =
     (let cs = select_expired_reward_credits env 0 (we_now env) (batch_limit limit) w in
      if cs = [] then Inr ([], w)
      else and_then (expire_credits (we_now env) cs w)
        (\<lambda>w1. and_then (subtract_each (by_user cs) w1) (\<lambda>w2. Inr (by_user cs, w2))))"

section \<open>Granting\<close>

record reward_grant =
  gr_user :: int
  gr_type :: string
  gr_source :: string
  gr_amount :: rat
  gr_granted_at :: time
  gr_expires_at :: time

record grant_result =
  gs_credit :: int
  gs_applied :: bool
  gs_balance :: rat

definition valid_reward_credit_type :: "string \<Rightarrow> bool" where
  "valid_reward_credit_type t \<longleftrightarrow> t = RewardCreditDailyCheckIn \<or> t = RewardCreditAffiliateInviter \<or>
     t = RewardCreditAffiliateInvitee"

text \<open>The zero \<open>time.Time\<close> is the instant 0.\<close>

definition validate_reward_credit_grant :: "reward_grant \<Rightarrow> go_error option" where
  "validate_reward_credit_grant g =
     (if gr_user g \<le> 0 \<or> trim_space (gr_source g) = [] \<or> 191 < length (gr_source g)
      then Some (Other_Error ''invalid reward credit grant'' None)
      else if \<not> valid_reward_credit_type (gr_type g) then Some (Other_Error ''invalid reward credit type'' None)
      else if gr_amount g \<le> 0 then Some (Other_Error ''invalid reward credit amount'' None)
      else if gr_granted_at g = 0 \<or> gr_expires_at g = 0 \<or> gr_expires_at g \<le> gr_granted_at g
      then Some (Other_Error ''invalid reward credit expiry'' None)
      else None)"

definition same_credit :: "reward_grant \<Rightarrow> reward_credit \<Rightarrow> bool" where
  "same_credit g c \<longleftrightarrow> rc_user c = gr_user g \<and> rc_type c = gr_type g \<and> rc_source c = gr_source g"

definition existing_reward_credit_grant_result :: "reward_grant \<Rightarrow> wallet \<Rightarrow> go_error + grant_result" where
  "existing_reward_credit_grant_result g w =
     (case (List.find (same_credit g) (w_credits w), w_users w (gr_user g)) of
        (Some c, Some r) \<Rightarrow> Inr \<lparr>gs_credit = rc_id c, gs_applied = False, gs_balance = wu_balance r\<rparr>
      | _ \<Rightarrow> Inl (Other_Error ''reward credit conflict row not found'' None))"

definition granted_credit :: "reward_grant \<Rightarrow> int \<Rightarrow> reward_credit" where
  "granted_credit g i = \<lparr>rc_id = i, rc_user = gr_user g, rc_type = gr_type g, rc_source = gr_source g,
     rc_original = money (gr_amount g), rc_remaining = money (gr_amount g), rc_reserved = 0,
     rc_granted_at = gr_granted_at g, rc_expires_at = gr_expires_at g,
     rc_consumed_at = None, rc_expired_at = None\<rparr>"

definition grant_reward_credit :: "reward_grant \<Rightarrow> wallet \<Rightarrow> go_error + grant_result \<times> wallet" where
  "grant_reward_credit g w =
     (if list_ex (same_credit g) (w_credits w)
      then and_then (existing_reward_credit_grant_result g w) (\<lambda>r. Inr (r, w))
      else let i = w_next_credit w; c = granted_credit g i in
        if \<not> credit_checks c then Inl err_check
        else case update_user (gr_user g) (\<lambda>_. True) (gr_amount g) 0
               (w\<lparr>w_credits := w_credits w @ [c], w_next_credit := i + 1\<rparr>) of
          None \<Rightarrow> Inl err_user_not_found
        | Some (r, w1) \<Rightarrow>
            and_then (insert_event i (gr_user g) Ev_Grant (gr_source g) (gr_amount g) w1)
              (\<lambda>w2. Inr (\<lparr>gs_credit = i, gs_applied = True, gs_balance = wu_balance r\<rparr>, w2)))"

definition repo_grant :: "reward_grant \<Rightarrow> wallet \<Rightarrow> go_error + grant_result \<times> wallet" where
  "repo_grant g w = (case validate_reward_credit_grant g of
     Some e \<Rightarrow> Inl e | None \<Rightarrow> grant_reward_credit g w)"

section \<open>Summary\<close>

record reward_summary =
  rs_daily :: rat
  rs_daily_expiry :: "time option"
  rs_affiliate :: rat
  rs_affiliate_expiry :: "time option"
  rs_affiliate_count :: nat

definition min_time :: "time list \<Rightarrow> time option" where
  "min_time ts = (if ts = [] then None else Some (Min (set ts)))"

definition is_affiliate :: "string \<Rightarrow> bool" where
  "is_affiliate t \<longleftrightarrow> t = RewardCreditAffiliateInviter \<or> t = RewardCreditAffiliateInvitee"

definition get_summary :: "wallet_env \<Rightarrow> int \<Rightarrow> wallet \<Rightarrow> go_error + reward_summary \<times> wallet" where
  "get_summary env u w = (if u \<le> 0 then Inl err_user_not_found
     else and_then (expire_reward_credits_for_user env u (we_now env) w) (\<lambda>(_, w1).
       let active = filter (\<lambda>c. rc_user c = u \<and> 0 < rc_remaining c \<and> rc_expired_at c = None \<and>
             we_now env < rc_expires_at c) (w_credits w1);
           daily = filter (\<lambda>c. rc_type c = RewardCreditDailyCheckIn) active;
           affiliate = filter (\<lambda>c. is_affiliate (rc_type c)) active
       in Inr (\<lparr>rs_daily = total_remaining daily, rs_daily_expiry = min_time (map rc_expires_at daily),
                rs_affiliate = total_remaining affiliate,
                rs_affiliate_expiry = min_time (map rc_expires_at affiliate),
                rs_affiliate_count = length affiliate\<rparr>, w1)))"

end
