(* ===== verification/Usage_Billing.thy ===== *)
theory Usage_Billing
  imports Reward_Credits
begin

text \<open>
  The settlement of usage, \<open>internal/repository/usage_billing_repo.go\<close> and
  \<open>internal/service/usage_billing.go\<close>, and the holds of image batches
  (\<open>internal/service/batch_image_billing_hold.go\<close>). A request is paid by exactly one layer: the
  daily check-in credits, the affiliate credits, the subscription, or the account balance. Each
  request is claimed once by its id and API key before anything is charged; claims move to an
  archive after a while (\<open>CleanupUsageBillingDedup\<close>).

  SHA-256 and the formatting verb \<open>%0.10f\<close> are the parameters \<open>sha\<close> and \<open>f10\<close> of the fingerprint.
  Costs are exact decimals; NaN and infinities do not occur. The interval of seven days of a
  subscription window is 168 hours, as in a session time zone without daylight saving.
\<close>

section \<open>Commands\<close>

record usage_cmd =
  uc_request :: string
  uc_api_key :: int
  uc_fingerprint :: string
  uc_payload_hash :: string
  uc_user :: int
  uc_account :: int
  uc_subscription :: "int option"
  uc_platform :: string
  uc_account_type :: string
  uc_model :: string
  uc_service_tier :: string
  uc_effort :: string
  uc_billing_type :: int
  uc_allow_fallback :: bool
  uc_allow_overrun :: bool
  uc_week_limit :: "rat option"
  uc_input_tokens :: int
  uc_output_tokens :: int
  uc_cache_creation :: int
  uc_cache_read :: int
  uc_image_count :: int
  uc_media_type :: string
  uc_balance_cost :: rat
  uc_fallback_cost :: rat
  uc_subscription_cost :: rat
  uc_key_quota_cost :: rat
  uc_key_rate_cost :: rat
  uc_account_cost :: rat

definition quantize_usage_billing_amount :: "rat \<Rightarrow> rat" where
  "quantize_usage_billing_amount v = (if v = 0 then v else money v)"

definition quantize_monetary_fields :: "usage_cmd \<Rightarrow> usage_cmd" where
  "quantize_monetary_fields c = c\<lparr>
     uc_balance_cost := quantize_usage_billing_amount (uc_balance_cost c),
     uc_subscription_cost := quantize_usage_billing_amount (uc_subscription_cost c),
     uc_key_quota_cost := quantize_usage_billing_amount (uc_key_quota_cost c),
     uc_key_rate_cost := quantize_usage_billing_amount (uc_key_rate_cost c),
     uc_account_cost := quantize_usage_billing_amount (uc_account_cost c)\<rparr>"

definition value_or_zero :: "int option \<Rightarrow> int" where
  "value_or_zero v = (case v of None \<Rightarrow> 0 | Some x \<Rightarrow> x)"

definition float_value_or_zero :: "rat option \<Rightarrow> rat" where
  "float_value_or_zero v = (case v of None \<Rightarrow> 0 | Some x \<Rightarrow> x)"

definition show_bool :: "bool \<Rightarrow> string" where
  "show_bool b = (if b then ''true'' else ''false'')"

fun join_bars :: "string list \<Rightarrow> string" where
  "join_bars [] = []"
| "join_bars [x] = x"
| "join_bars (x # xs) = x @ ''|'' @ join_bars xs"

definition with_payload :: "string \<Rightarrow> string \<Rightarrow> string" where
  "with_payload raw payload_hash =
     (if trim_space payload_hash \<noteq> [] then raw @ ''|'' @ trim_space payload_hash else raw)"

definition build_usage_billing_fingerprint ::
  "(string \<Rightarrow> string) \<Rightarrow> (rat \<Rightarrow> string) \<Rightarrow> usage_cmd \<Rightarrow> string" where
  "build_usage_billing_fingerprint sha f10 c = sha (with_payload (join_bars
     [itoa (uc_user c), itoa (uc_account c), itoa (uc_api_key c), trim_space (uc_account_type c),
      trim_space (uc_model c), trim_space (uc_service_tier c), trim_space (uc_effort c),
      itoa (uc_billing_type c), show_bool (uc_allow_fallback c), show_bool (uc_allow_overrun c),
      f10 (float_value_or_zero (uc_week_limit c)), itoa (uc_input_tokens c), itoa (uc_output_tokens c),
      itoa (uc_cache_creation c), itoa (uc_cache_read c), itoa (uc_image_count c),
      trim_space (uc_media_type c), itoa (value_or_zero (uc_subscription c)), f10 (uc_balance_cost c),
      f10 (uc_fallback_cost c), f10 (uc_subscription_cost c), f10 (uc_key_quota_cost c),
      f10 (uc_key_rate_cost c), f10 (uc_account_cost c)]) (uc_payload_hash c))"

definition usage_normalize :: "(string \<Rightarrow> string) \<Rightarrow> (rat \<Rightarrow> string) \<Rightarrow> usage_cmd \<Rightarrow> usage_cmd" where
  "usage_normalize sha f10 c0 = (let c = c0\<lparr>uc_request := trim_space (uc_request c0)\<rparr> in
     quantize_monetary_fields
       (if trim_space (uc_fingerprint c) = [] then c\<lparr>uc_fingerprint := build_usage_billing_fingerprint sha f10 c\<rparr>
        else c))"

datatype funding = Fund_None | Fund_Daily | Fund_Affiliate | Fund_Subscription | Fund_Account

record quota_state =
  qs_total_used :: rat
  qs_total_limit :: rat
  qs_daily_used :: rat
  qs_daily_limit :: rat
  qs_weekly_used :: rat
  qs_weekly_limit :: rat

record apply_result =
  ar_applied :: bool
  ar_key_exhausted :: bool
  ar_billing_type :: int
  ar_funding :: funding
  ar_new_balance :: "rat option"
  ar_overdrafted :: bool
  ar_quota_state :: "quota_state option"

abbreviation "BillingTypeBalance \<equiv> (0 :: int)"
abbreviation "BillingTypeSubscription \<equiv> (1 :: int)"

definition not_applied :: apply_result where
  "not_applied = \<lparr>ar_applied = False, ar_key_exhausted = False, ar_billing_type = 0, ar_funding = Fund_None,
     ar_new_balance = None, ar_overdrafted = False, ar_quota_state = None\<rparr>"

section \<open>Claims\<close>

definition err_request_id_required :: go_error where
  "err_request_id_required = Other_Error ''usage billing request_id is required'' None"
definition err_request_conflict :: go_error where
  "err_request_conflict = Other_Error ''usage billing request fingerprint conflict'' None"
definition err_weekly_limit :: go_error where
  "err_weekly_limit = too_many_requests ''WEEKLY_LIMIT_EXCEEDED'' ''weekly usage limit exceeded''"
definition err_subscription_not_found :: go_error where
  "err_subscription_not_found = not_found_error ''SUBSCRIPTION_NOT_FOUND'' ''subscription not found''"
definition err_api_key_not_found :: go_error where
  "err_api_key_not_found = not_found_error ''API_KEY_NOT_FOUND'' ''api key not found''"
definition err_account_not_found :: go_error where
  "err_account_not_found = not_found_error ''ACCOUNT_NOT_FOUND'' ''account not found''"

definition find_claim :: "string \<Rightarrow> int \<Rightarrow> claim list \<Rightarrow> claim option" where
  "find_claim rid key cs = List.find (\<lambda>c. cl_request c = rid \<and> cl_api_key c = key) cs"

definition claim_verdict :: "claim \<Rightarrow> string \<Rightarrow> go_error + bool" where
  "claim_verdict c fp = (if trim_space (cl_fingerprint c) \<noteq> trim_space fp then Inl err_request_conflict
     else Inr False)"

definition claim_usage_billing_request ::
  "wallet_env \<Rightarrow> string \<Rightarrow> int \<Rightarrow> string \<Rightarrow> wallet \<Rightarrow> go_error + bool \<times> wallet" where
  "claim_usage_billing_request env rid key fp w =
     (case find_claim rid key (w_claims w) of
        Some c \<Rightarrow> and_then (claim_verdict c fp) (\<lambda>b. Inr (b, w))
      | None \<Rightarrow>
          let w1 = w\<lparr>w_claims := w_claims w @ [\<lparr>cl_request = rid, cl_api_key = key, cl_fingerprint = fp,
                       cl_created_at = we_db_now env\<rparr>]\<rparr>
          in case find_claim rid key (w_archive w) of
               Some c \<Rightarrow> and_then (claim_verdict c fp) (\<lambda>b. Inr (b, w1))
             | None \<Rightarrow> Inr (True, w1))"

text \<open>
  One statement of the cleanup: up to ten thousand claims older than \<open>cutoff\<close> (\<open>victim\<close> says which)
  move to the archive.
\<close>

definition archive_claims :: "(claim \<Rightarrow> bool) \<Rightarrow> time \<Rightarrow> wallet \<Rightarrow> wallet" where
  "archive_claims victim cutoff w =
     (let vs = filter (\<lambda>c. cl_created_at c < cutoff \<and> victim c) (w_claims w) in
      w\<lparr>w_archive := w_archive w @ filter (\<lambda>c. find_claim (cl_request c) (cl_api_key c) (w_archive w) = None) vs,
        w_claims := filter (\<lambda>c. \<not> (cl_created_at c < cutoff \<and> victim c)) (w_claims w)\<rparr>)"

section \<open>Paying from a layer of reward credits\<close>

definition usable_credits :: "int \<Rightarrow> time \<Rightarrow> string list \<Rightarrow> wallet \<Rightarrow> reward_credit list" where
  "usable_credits u now types w = in_expiry_order (filter (\<lambda>c. rc_user c = u \<and> now < rc_expires_at c \<and>
     0 < rc_remaining c \<and> rc_expired_at c = None \<and> rc_type c \<in> set types) (w_credits w))"

definition take_from :: "rat \<Rightarrow> reward_credit \<Rightarrow> rat" where
  "take_from left c = (if left < rc_remaining c then left else rc_remaining c)"

definition consume_credit :: "rat \<Rightarrow> time \<Rightarrow> reward_credit \<Rightarrow> reward_credit" where
  "consume_credit a now r = r\<lparr>rc_remaining := money (rc_remaining r - a),
     rc_consumed_at := (if rc_remaining r - a \<le> eps
        then (case rc_consumed_at r of None \<Rightarrow> Some now | t \<Rightarrow> t) else rc_consumed_at r)\<rparr>"

fun consume_credits ::
  "int \<Rightarrow> string \<Rightarrow> time \<Rightarrow> reward_credit list \<Rightarrow> rat \<Rightarrow> wallet \<Rightarrow> go_error + wallet" where
  "consume_credits u key now [] left w = Inr w"
| "consume_credits u key now (c # cs) left w =
     (if left \<le> eps then Inr w
      else let a = take_from left c in
        and_then (update_credit (rc_id c) (\<lambda>r. a \<le> rc_remaining r + eps) (consume_credit a now) w)
          (\<lambda>(n, w1). if n \<noteq> 1 then Inl err_credit_changed
             else and_then (insert_event (rc_id c) u Ev_Consume key a w1)
               (consume_credits u key now cs (left - a))))"

definition try_consume_reward_layer ::
  "int \<Rightarrow> string list \<Rightarrow> rat \<Rightarrow> string \<Rightarrow> time \<Rightarrow> wallet \<Rightarrow> go_error + rat option \<times> wallet" where
  "try_consume_reward_layer u types amount key now w =
     (if amount \<le> 0 \<or> types = [] then Inr (None, w)
      else let cs = usable_credits u now types w in
        if total_remaining cs + eps < amount then Inr (None, w)
        else and_then (consume_credits u key now cs amount w)
          (\<lambda>w1. case update_user u (\<lambda>_. True) (- amount) 0 w1 of
             None \<Rightarrow> Inl err_user_not_found
           | Some (r, w2) \<Rightarrow> Inr (Some (wu_balance r), w2)))"

abbreviation daily_layer :: "string list" where "daily_layer \<equiv> [RewardCreditDailyCheckIn]"
abbreviation affiliate_layer :: "string list" where
  "affiliate_layer \<equiv> [RewardCreditAffiliateInviter, RewardCreditAffiliateInvitee]"

definition usage_amount :: "usage_cmd \<Rightarrow> rat" where
  "usage_amount c = (if uc_subscription c \<noteq> None \<and> 0 < uc_subscription_cost c
     then uc_subscription_cost c else uc_balance_cost c)"

definition funded_by :: "funding \<Rightarrow> rat \<Rightarrow> apply_result \<Rightarrow> apply_result" where
  "funded_by src balance res = res\<lparr>ar_new_balance := Some balance, ar_billing_type := BillingTypeBalance,
     ar_funding := src\<rparr>"

definition apply_usage_billing_reward_layer ::
  "wallet_env \<Rightarrow> usage_cmd \<Rightarrow> apply_result \<Rightarrow> wallet \<Rightarrow> go_error + bool \<times> apply_result \<times> wallet" where
  "apply_usage_billing_reward_layer env c res w =
     (let amount = usage_amount c; now = we_now env; u = uc_user c in
      if amount \<le> 0 then Inr (False, res, w)
      else and_then (expire_reward_credits_for_user env u now w) (\<lambda>(_, w1).
        and_then (try_consume_reward_layer u daily_layer amount (uc_request c) now w1) (\<lambda>(d, w2).
          case d of Some b \<Rightarrow> Inr (True, funded_by Fund_Daily b res, w2)
          | None \<Rightarrow>
              and_then (try_consume_reward_layer u affiliate_layer amount (uc_request c) now w2) (\<lambda>(a, w3).
                case a of Some b \<Rightarrow> Inr (True, funded_by Fund_Affiliate b res, w3)
                | None \<Rightarrow> Inr (False, res, w3)))))"

section \<open>Subscription and account\<close>

abbreviation days :: "int \<Rightarrow> duration" where "days n \<equiv> n * 24 * hour"

definition elapsed :: "time option \<Rightarrow> duration \<Rightarrow> time \<Rightarrow> bool" where
  "elapsed start d now = (case start of None \<Rightarrow> False | Some t \<Rightarrow> t + d \<le> now)"

definition sub_live :: "wallet \<Rightarrow> int \<Rightarrow> billed_sub option" where
  "sub_live w i = (case w_subs w i of Some s \<Rightarrow> if bs_deleted s then None else Some s | None \<Rightarrow> None)"

definition charge_sub :: "rat \<Rightarrow> bool \<Rightarrow> time \<Rightarrow> billed_sub \<Rightarrow> billed_sub" where
  "charge_sub cost reset now s = s\<lparr>bs_daily := fixed (bs_daily s + cost) 10,
     bs_weekly := fixed (if reset then cost else bs_weekly s + cost) 10,
     bs_week_start := (if reset then Some now else bs_week_start s),
     bs_monthly := fixed (bs_monthly s + cost) 10\<rparr>"

definition increment_usage_billing_subscription ::
  "wallet_env \<Rightarrow> int \<Rightarrow> rat \<Rightarrow> rat option \<Rightarrow> wallet \<Rightarrow> go_error + bool \<times> wallet" where
  "increment_usage_billing_subscription env i cost limit w =
     (case sub_live w i of
        None \<Rightarrow> Inl err_subscription_not_found
      | Some s \<Rightarrow> (case limit of
          None \<Rightarrow> Inr (True, w\<lparr>w_subs := (w_subs w)(i \<mapsto> charge_sub cost False (we_db_now env) s)\<rparr>)
        | Some l \<Rightarrow>
            let reset = elapsed (bs_week_start s) (days 7) (we_db_now env) in
            if (if reset then 0 else bs_weekly s) + cost \<le> l + eps
            then Inr (True, w\<lparr>w_subs := (w_subs w)(i \<mapsto> charge_sub cost reset (we_db_now env) s)\<rparr>)
            else Inr (False, w)))"

text \<open>The part of a user's balance that the code treats as reward credits.\<close>

definition reward_claims :: "wallet \<Rightarrow> int \<Rightarrow> rat" where
  "reward_claims w u = sum_list (map (\<lambda>c. rc_remaining c + rc_reserved c)
     (filter (\<lambda>c. rc_user c = u \<and> rc_expired_at c = None \<and> (0 < rc_remaining c \<or> 0 < rc_reserved c))
       (w_credits w)))"

definition deduct_usage_billing_balance ::
  "int \<Rightarrow> rat \<Rightarrow> wallet \<Rightarrow> go_error + (rat \<times> bool) \<times> wallet" where
  "deduct_usage_billing_balance u amount w =
     (case update_user u (\<lambda>r. amount \<le> wu_balance r - reward_claims w u) (- amount) 0 w of
        Some (r, w1) \<Rightarrow> Inr ((wu_balance r, True), w1)
      | None \<Rightarrow> (case update_user u (\<lambda>_. True) (- amount) 0 w of
          Some (r, w1) \<Rightarrow> Inr ((wu_balance r, False), w1)
        | None \<Rightarrow> Inl err_user_not_found))"

definition pay_from_account :: "int \<Rightarrow> rat \<Rightarrow> apply_result \<Rightarrow> wallet \<Rightarrow> go_error + apply_result \<times> wallet" where
  "pay_from_account u cost res w = and_then (deduct_usage_billing_balance u cost w)
     (\<lambda>((b, sufficient), w1). Inr ((funded_by Fund_Account b res)\<lparr>ar_overdrafted := \<not> sufficient\<rparr>, w1))"

section \<open>Quotas of the API key and the upstream account\<close>

definition charge_window :: "duration \<Rightarrow> time \<Rightarrow> time \<Rightarrow> rat \<Rightarrow> usage_window \<Rightarrow> usage_window" where
  "charge_window len now restart cost win = (let over = elapsed (uw_start win) len now in
     \<lparr>uw_used = money (if over then cost else uw_used win + cost),
      uw_start = (if uw_start win = None \<or> over then Some restart else uw_start win)\<rparr>)"

definition key_live :: "wallet \<Rightarrow> int \<Rightarrow> billed_key option" where
  "key_live w i = (case w_keys w i of Some k \<Rightarrow> if bk_deleted k then None else Some k | None \<Rightarrow> None)"

definition increment_usage_billing_api_key_quota ::
  "int \<Rightarrow> rat \<Rightarrow> wallet \<Rightarrow> go_error + bool \<times> wallet" where
  "increment_usage_billing_api_key_quota i amount w = (case key_live w i of
     None \<Rightarrow> Inl err_api_key_not_found
   | Some k \<Rightarrow>
       let used = money (bk_quota_used k + amount);
           k' = k\<lparr>bk_quota_used := used,
             bk_status := (if 0 < bk_quota k \<and> bk_status k = ''active'' \<and> bk_quota_used k < bk_quota k \<and>
                bk_quota k \<le> bk_quota_used k + amount then ''quota_exhausted'' else bk_status k)\<rparr>
       in Inr (0 < bk_quota k \<and> bk_quota k \<le> used \<and> used - amount < bk_quota k,
               w\<lparr>w_keys := (w_keys w)(i \<mapsto> k')\<rparr>))"

definition increment_usage_billing_api_key_rate_limit ::
  "wallet_env \<Rightarrow> int \<Rightarrow> rat \<Rightarrow> wallet \<Rightarrow> go_error + wallet" where
  "increment_usage_billing_api_key_rate_limit env i cost w = (case key_live w i of
     None \<Rightarrow> Inl err_api_key_not_found
   | Some k \<Rightarrow> let now = we_db_now env; day = we_day_start env in
       Inr (w\<lparr>w_keys := (w_keys w)(i \<mapsto> k\<lparr>
         bk_5h := charge_window (5 * hour) now now cost (bk_5h k),
         bk_1d := charge_window (24 * hour) now day cost (bk_1d k),
         bk_7d := charge_window (days 7) now day cost (bk_7d k)\<rparr>)\<rparr>))"

text \<open>The instant \<open>1970-01-01\<close> on the scale of \<open>time.Time\<close>.\<close>

definition unix_epoch :: time where "unix_epoch = 62135596800 * second"

definition period_expired :: "duration \<Rightarrow> time \<Rightarrow> quota_period \<Rightarrow> bool" where
  "period_expired len now q = (if qp_fixed q
     then (case qp_reset_at q of None \<Rightarrow> unix_epoch | Some t \<Rightarrow> t) \<le> now
     else (case qp_start q of None \<Rightarrow> unix_epoch | Some t \<Rightarrow> t) + len \<le> now)"

definition charge_period :: "duration \<Rightarrow> time \<Rightarrow> time \<Rightarrow> rat \<Rightarrow> quota_period \<Rightarrow> quota_period" where
  "charge_period len now next_reset amount q =
     (if qp_limit q \<le> 0 then q
      else let over = period_expired len now q in q\<lparr>
        qp_used := (if over then amount else qp_used q + amount),
        qp_start := (if over \<or> qp_start q = None then Some now else qp_start q),
        qp_reset_at := (if over \<and> qp_fixed q then Some next_reset else qp_reset_at q)\<rparr>)"

definition crossed :: "rat \<Rightarrow> rat \<Rightarrow> rat \<Rightarrow> bool" where
  "crossed limit used amount \<longleftrightarrow> 0 < limit \<and> limit \<le> used \<and> used - amount < limit"

definition increment_usage_billing_account_quota ::
  "wallet_env \<Rightarrow> int \<Rightarrow> rat \<Rightarrow> wallet \<Rightarrow> go_error + quota_state \<times> wallet" where
  "increment_usage_billing_account_quota env i amount w =
     (case w_accounts w i of None \<Rightarrow> Inl err_account_not_found
      | Some a \<Rightarrow> if ba_deleted a then Inl err_account_not_found
        else let now = we_db_now env;
               d = charge_period (24 * hour) now (we_next_reset env i False) amount (ba_daily a);
               k = charge_period (168 * hour) now (we_next_reset env i True) amount (ba_weekly a);
               a' = a\<lparr>ba_used := ba_used a + amount, ba_daily := d, ba_weekly := k\<rparr>;
               st = \<lparr>qs_total_used = ba_used a', qs_total_limit = ba_limit a', qs_daily_used = qp_used d,
                 qs_daily_limit = qp_limit d, qs_weekly_used = qp_used k, qs_weekly_limit = qp_limit k\<rparr>;
               full = crossed (ba_limit a') (ba_used a') amount \<or> crossed (qp_limit d) (qp_used d) amount \<or>
                 crossed (qp_limit k) (qp_used k) amount
             in Inr (st, w\<lparr>w_accounts := (w_accounts w)(i \<mapsto> a'),
                   w_outbox := (if full \<and> i \<notin> set (w_outbox w) then w_outbox w @ [i] else w_outbox w)\<rparr>))"

definition fold_equal :: "string \<Rightarrow> string \<Rightarrow> bool" where
  "fold_equal a b \<longleftrightarrow> to_lower a = to_lower b"

definition should_apply_usage_billing_account_quota :: "usage_cmd \<Rightarrow> bool" where
  "should_apply_usage_billing_account_quota c \<longleftrightarrow>
     fold_equal (uc_account_type c) ''apikey'' \<or> fold_equal (uc_account_type c) ''bedrock'' \<or>
     fold_equal (uc_platform c) ''kiro'' \<and> fold_equal (uc_account_type c) ''oauth''"

definition apply_key_quota :: "usage_cmd \<Rightarrow> apply_result \<Rightarrow> wallet \<Rightarrow> go_error + apply_result \<times> wallet" where
  "apply_key_quota c res w = (if uc_key_quota_cost c \<le> 0 then Inr (res, w)
     else case increment_usage_billing_api_key_quota (uc_api_key c) (uc_key_quota_cost c) w of
        Inr (ex, w1) \<Rightarrow> Inr (res\<lparr>ar_key_exhausted := ex\<rparr>, w1)
      | Inl e \<Rightarrow> if errors_is e err_api_key_not_found then Inr (res\<lparr>ar_key_exhausted := False\<rparr>, w) else Inl e)"

definition apply_key_rate :: "wallet_env \<Rightarrow> usage_cmd \<Rightarrow> wallet \<Rightarrow> go_error + wallet" where
  "apply_key_rate env c w = (if uc_key_rate_cost c \<le> 0 then Inr w
     else case increment_usage_billing_api_key_rate_limit env (uc_api_key c) (uc_key_rate_cost c) w of
        Inr w1 \<Rightarrow> Inr w1
      | Inl e \<Rightarrow> if errors_is e err_api_key_not_found then Inr w else Inl e)"

definition apply_usage_billing_quotas ::
  "wallet_env \<Rightarrow> usage_cmd \<Rightarrow> apply_result \<Rightarrow> wallet \<Rightarrow> go_error + apply_result \<times> wallet" where
  "apply_usage_billing_quotas env c res w =
     and_then (apply_key_quota c res w) (\<lambda>(res1, w1).
     and_then (apply_key_rate env c w1) (\<lambda>w2.
       if 0 < uc_account_cost c \<and> should_apply_usage_billing_account_quota c
       then and_then (increment_usage_billing_account_quota env (uc_account c) (uc_account_cost c) w2)
              (\<lambda>(st, w3). Inr (res1\<lparr>ar_quota_state := Some st\<rparr>, w3))
       else Inr (res1, w2)))"

section \<open>Settling a request\<close>

text \<open>The subscription part of \<open>applyUsageBillingEffects\<close>: \<open>Inr (True, ...)\<close> when it returns at once.\<close>

definition apply_subscription ::
  "wallet_env \<Rightarrow> usage_cmd \<Rightarrow> apply_result \<Rightarrow> wallet \<Rightarrow> go_error + bool \<times> apply_result \<times> wallet" where
  "apply_subscription env c res w =
     (case uc_subscription c of None \<Rightarrow> Inr (False, res, w)
      | Some sid \<Rightarrow>
          if uc_subscription_cost c \<le> 0 then Inr (False, res, w)
          else let fallback = uc_allow_fallback c \<and> 0 < uc_fallback_cost c in
          (case uc_week_limit c of
             None \<Rightarrow> if fallback
               then and_then (pay_from_account (uc_user c) (uc_fallback_cost c) res w) (\<lambda>(r, w1). Inr (True, r, w1))
               else Inl err_weekly_limit
           | Some l \<Rightarrow>
               and_then (increment_usage_billing_subscription env sid (uc_subscription_cost c)
                   (if uc_allow_overrun c then None else Some l) w) (\<lambda>(ok, w1).
                 if ok then Inr (False, res\<lparr>ar_billing_type := BillingTypeSubscription,
                   ar_funding := Fund_Subscription\<rparr>, w1)
                 else if fallback
                 then and_then (pay_from_account (uc_user c) (uc_fallback_cost c) res w1) (\<lambda>(r, w2). Inr (False, r, w2))
                 else Inl err_weekly_limit)))"

definition apply_usage_billing_effects ::
  "wallet_env \<Rightarrow> usage_cmd \<Rightarrow> apply_result \<Rightarrow> wallet \<Rightarrow> go_error + apply_result \<times> wallet" where
  "apply_usage_billing_effects env c res w =
     and_then (apply_usage_billing_reward_layer env c res w) (\<lambda>(funded, res1, w1).
       if funded then apply_usage_billing_quotas env c res1 w1
       else and_then (apply_subscription env c res1 w1) (\<lambda>(done, res2, w2).
         if done \<or> uc_balance_cost c \<le> 0 then apply_usage_billing_quotas env c res2 w2
         else and_then (pay_from_account (uc_user c) (uc_balance_cost c) res2 w2)
           (\<lambda>(res3, w3). apply_usage_billing_quotas env c res3 w3)))"

definition usage_apply ::
  "(string \<Rightarrow> string) \<Rightarrow> (rat \<Rightarrow> string) \<Rightarrow> wallet_env \<Rightarrow> usage_cmd \<Rightarrow> wallet \<Rightarrow> go_error + apply_result \<times> wallet" where
  "usage_apply sha f10 env cmd w = (let c = usage_normalize sha f10 cmd in
     if uc_request c = [] then Inl err_request_id_required
     else and_then (claim_usage_billing_request env (uc_request c) (uc_api_key c) (uc_fingerprint c) w)
       (\<lambda>(applied, w1). if \<not> applied then Inr (not_applied, w)
          else apply_usage_billing_effects env c
            (not_applied\<lparr>ar_applied := True, ar_billing_type := uc_billing_type c\<rparr>) w1))"

end
