(* ===== verification/Batch_Hold.thy ===== *)
theory Batch_Hold
  imports Usage_Billing
begin

text \<open>
  Holds for image batches: \<open>ReserveBatchImageBalance\<close>, \<open>CaptureBatchImageBalance\<close> and
  \<open>ReleaseBatchImageBalance\<close> of \<open>internal/repository/usage_billing_repo.go\<close>, and the service functions
  that call them (\<open>internal/service/batch_image_billing_hold.go\<close>). A hold moves an amount from the
  balance to the frozen balance, out of one layer; the settlement captures what the batch really
  cost and gives the rest back, except the part whose credits expired in the meantime.
\<close>

section \<open>Commands\<close>

record hold_cmd =
  hc_request :: string
  hc_api_key :: int
  hc_fingerprint :: string
  hc_payload_hash :: string
  hc_user :: int
  hc_batch :: string
  hc_hold :: rat
  hc_actual :: rat

definition build_batch_image_balance_hold_fingerprint ::
  "(string \<Rightarrow> string) \<Rightarrow> (rat \<Rightarrow> string) \<Rightarrow> hold_cmd \<Rightarrow> string" where
  "build_batch_image_balance_hold_fingerprint sha f10 c = sha (with_payload (join_bars
     [itoa (hc_user c), itoa (hc_api_key c), trim_space (hc_batch c), f10 (hc_hold c), f10 (hc_actual c)])
     (hc_payload_hash c))"

definition hold_normalize :: "(string \<Rightarrow> string) \<Rightarrow> (rat \<Rightarrow> string) \<Rightarrow> hold_cmd \<Rightarrow> hold_cmd" where
  "hold_normalize sha f10 c0 =
     (let c = c0\<lparr>hc_request := trim_space (hc_request c0), hc_batch := trim_space (hc_batch c0)\<rparr> in
      if trim_space (hc_fingerprint c) = []
      then c\<lparr>hc_fingerprint := build_batch_image_balance_hold_fingerprint sha f10 c\<rparr> else c)"

record hold_result =
  hr_applied :: bool
  hr_funding :: funding
  hr_balance :: "rat option"
  hr_frozen :: "rat option"

definition no_hold :: hold_result where
  "no_hold = \<lparr>hr_applied = False, hr_funding = Fund_None, hr_balance = None, hr_frozen = None\<rparr>"

definition hold_from :: "funding \<Rightarrow> wallet_user \<Rightarrow> hold_result" where
  "hold_from src r = \<lparr>hr_applied = False, hr_funding = src, hr_balance = Some (wu_balance r),
     hr_frozen = Some (wu_frozen r)\<rparr>"

definition hold_request_id :: "string \<Rightarrow> string" where
  "hold_request_id b = ''batch_image_hold:'' @ trim_space b"
definition capture_request_id :: "string \<Rightarrow> string" where
  "capture_request_id b = ''batch_image_capture:'' @ trim_space b"
definition release_request_id :: "string \<Rightarrow> string" where
  "release_request_id b = ''batch_image_release:'' @ trim_space b"

definition err_batch_insufficient :: go_error where
  "err_batch_insufficient = new_error 402 ''BATCH_IMAGE_INSUFFICIENT_BALANCE'' ''insufficient balance for batch image hold''"
definition err_cost_exceeds_hold :: go_error where
  "err_cost_exceeds_hold = new_error 409 ''BATCH_IMAGE_SETTLEMENT_COST_EXCEEDS_HOLD''
     ''batch image settlement cost exceeds held balance''"
definition err_frozen_insufficient :: go_error where
  "err_frozen_insufficient = Other_Error ''batch image frozen balance is insufficient'' None"
definition err_reservation_insufficient :: go_error where
  "err_reservation_insufficient = Other_Error ''batch image reward reservation is insufficient'' None"
definition err_reservation_changed :: go_error where
  "err_reservation_changed = Other_Error ''batch image reward reservation changed while locked'' None"

definition err_allocation_changed :: go_error where
  "err_allocation_changed = Other_Error ''batch image reward allocation changed while locked'' None"

section \<open>Reserving\<close>

definition insert_allocation ::
  "string \<Rightarrow> int \<Rightarrow> int \<Rightarrow> rat \<Rightarrow> time \<Rightarrow> wallet \<Rightarrow> go_error + wallet" where
  "insert_allocation key c u a expires w =
     (if money a \<le> 0 then Inl err_check
      else if list_ex (\<lambda>l. al_hold_key l = key \<and> al_credit l = c) (w_allocs w) then Inl err_unique
      else Inr (w\<lparr>w_allocs := w_allocs w @ [\<lparr>al_id = w_next_alloc w, al_hold_key = key, al_credit = c,
             al_user = u, al_reserved = money a, al_captured = 0, al_released = 0, al_expires_at = expires\<rparr>],
             w_next_alloc := w_next_alloc w + 1\<rparr>))"

definition reserve_credit :: "rat \<Rightarrow> reward_credit \<Rightarrow> reward_credit" where
  "reserve_credit a r = r\<lparr>rc_remaining := money (rc_remaining r - a), rc_reserved := money (rc_reserved r + a)\<rparr>"

fun reserve_credits :: "hold_cmd \<Rightarrow> reward_credit list \<Rightarrow> rat \<Rightarrow> wallet \<Rightarrow> go_error + wallet" where
  "reserve_credits cmd [] left w = Inr w"
| "reserve_credits cmd (c # cs) left w =
     (if left \<le> eps then Inr w
      else let a = take_from left c in
        and_then (update_credit (rc_id c) (\<lambda>r. a \<le> rc_remaining r + eps) (reserve_credit a) w)
          (\<lambda>(n, w1). if n \<noteq> 1 then Inl err_credit_changed
             else and_then (insert_allocation (hold_request_id (hc_batch cmd)) (rc_id c) (hc_user cmd) a
                    (rc_expires_at c) w1)
               (\<lambda>w2. and_then (insert_event (rc_id c) (hc_user cmd) Ev_Reserve (hc_request cmd) a w2)
                  (reserve_credits cmd cs (left - a)))))"

definition try_reserve_batch_image_reward_layer ::
  "hold_cmd \<Rightarrow> string list \<Rightarrow> funding \<Rightarrow> time \<Rightarrow> wallet \<Rightarrow> go_error + hold_result option \<times> wallet" where
  "try_reserve_batch_image_reward_layer cmd types src now w =
     (let cs = usable_credits (hc_user cmd) now types w in
      if total_remaining cs + eps < hc_hold cmd then Inr (None, w)
      else and_then (reserve_credits cmd cs (hc_hold cmd) w)
        (\<lambda>w1. case update_user (hc_user cmd) (\<lambda>_. True) (- hc_hold cmd) (hc_hold cmd) w1 of
           None \<Rightarrow> Inl err_user_not_found
         | Some (r, w2) \<Rightarrow> Inr (Some (hold_from src r), w2)))"

definition reserve_from_account :: "hold_cmd \<Rightarrow> wallet \<Rightarrow> go_error + hold_result \<times> wallet" where
  "reserve_from_account cmd w =
     (case update_user (hc_user cmd) (\<lambda>r. hc_hold cmd \<le> wu_balance r - reward_claims w (hc_user cmd))
             (- hc_hold cmd) (hc_hold cmd) w of
        Some (r, w1) \<Rightarrow> Inr (hold_from Fund_Account r, w1)
      | None \<Rightarrow> Inl (if user_exists w (hc_user cmd) then err_batch_insufficient else err_user_not_found))"

definition reserve_rewards ::
  "wallet_env \<Rightarrow> hold_cmd \<Rightarrow> wallet \<Rightarrow> go_error + hold_result option \<times> wallet" where
  "reserve_rewards env cmd w =
     and_then (expire_reward_credits_for_user env (hc_user cmd) (we_now env) w) (\<lambda>(_, w1).
     and_then (try_reserve_batch_image_reward_layer cmd daily_layer Fund_Daily (we_now env) w1) (\<lambda>(d, w2).
       if d \<noteq> None then Inr (d, w2)
       else try_reserve_batch_image_reward_layer cmd affiliate_layer Fund_Affiliate (we_now env) w2))"

definition reserve_usage_billing_batch_image_balance ::
  "wallet_env \<Rightarrow> hold_cmd \<Rightarrow> wallet \<Rightarrow> go_error + hold_result \<times> wallet" where
  "reserve_usage_billing_batch_image_balance env cmd w =
     (if hc_hold cmd \<le> 0 then Inr (no_hold, w)
      else if hc_batch cmd = [] then reserve_from_account cmd w
      else and_then (reserve_rewards env cmd w) (\<lambda>(r, w1). case r of
             Some x \<Rightarrow> Inr (x, w1) | None \<Rightarrow> reserve_from_account cmd w1))"

section \<open>Settling\<close>

definition load_batch_image_reward_allocations :: "int \<Rightarrow> string \<Rightarrow> wallet \<Rightarrow> reward_allocation list" where
  "load_batch_image_reward_allocations u key w =
     sort_key (\<lambda>l. (al_expires_at l, al_id l)) (filter (\<lambda>l. al_hold_key l = key \<and> al_user l = u \<and>
       list_ex (\<lambda>c. rc_id c = al_credit l) (w_credits w)) (w_allocs w))"

definition outstanding :: "reward_allocation \<Rightarrow> rat" where
  "outstanding l = al_reserved l - al_captured l - al_released l"

definition settle_credit :: "rat \<Rightarrow> rat \<Rightarrow> rat \<Rightarrow> rat \<Rightarrow> time \<Rightarrow> reward_credit \<Rightarrow> reward_credit" where
  "settle_credit out restored captured expired now r =
     (let empty = rc_remaining r + restored \<le> eps \<and> rc_reserved r - out \<le> eps in
      r\<lparr>rc_reserved := money (rc_reserved r - out), rc_remaining := money (rc_remaining r + restored),
        rc_consumed_at := (if 0 < captured \<and> empty
          then (case rc_consumed_at r of None \<Rightarrow> Some now | t \<Rightarrow> t) else rc_consumed_at r),
        rc_expired_at := (if 0 < expired \<and> empty
          then (case rc_expired_at r of None \<Rightarrow> Some now | t \<Rightarrow> t) else rc_expired_at r)\<rparr>)"

definition allocation_checks :: "reward_allocation \<Rightarrow> bool" where
  "allocation_checks l \<longleftrightarrow> 0 < al_reserved l \<and> 0 \<le> al_captured l \<and> 0 \<le> al_released l \<and>
     al_captured l + al_released l \<le> al_reserved l"

definition settle_allocation :: "rat \<Rightarrow> rat \<Rightarrow> reward_allocation \<Rightarrow> reward_allocation" where
  "settle_allocation captured unused l = l\<lparr>al_captured := money (al_captured l + captured),
     al_released := money (al_released l + unused)\<rparr>"

definition update_allocation :: "int \<Rightarrow> rat \<Rightarrow> rat \<Rightarrow> wallet \<Rightarrow> go_error + nat \<times> wallet" where
  "update_allocation i captured unused w =
     (if list_all (\<lambda>l. al_id l = i \<longrightarrow> allocation_checks (settle_allocation captured unused l)) (w_allocs w)
      then Inr (length (filter (\<lambda>l. al_id l = i) (w_allocs w)),
        w\<lparr>w_allocs := map (\<lambda>l. if al_id l = i then settle_allocation captured unused l else l) (w_allocs w)\<rparr>)
      else Inl err_check)"

definition insert_batch_image_reward_event ::
  "hold_cmd \<Rightarrow> int \<Rightarrow> event_type \<Rightarrow> rat \<Rightarrow> wallet \<Rightarrow> go_error + wallet" where
  "insert_batch_image_reward_event cmd c t a w =
     (if eps < a then insert_event c (hc_user cmd) t (hc_request cmd) a w else Inr w)"

fun settle_each ::
  "hold_cmd \<Rightarrow> time \<Rightarrow> reward_allocation list \<Rightarrow> rat \<Rightarrow> rat \<Rightarrow> wallet \<Rightarrow> go_error + rat \<times> wallet" where
  "settle_each cmd now [] left restored_total w = Inr (restored_total, w)"
| "settle_each cmd now (l # ls) left restored_total w =
     (if outstanding l \<le> eps then settle_each cmd now ls left restored_total w
      else
        let out = outstanding l;
            captured = (if left < out then left else out);
            unused = out - captured;
            lapsed = al_expires_at l \<le> now;
            restored = (if lapsed then 0 else unused);
            expired = (if lapsed then unused else 0)
        in and_then (update_credit (al_credit l) (\<lambda>r. out \<le> rc_reserved r + eps)
               (settle_credit out restored captured expired now) w) (\<lambda>(n, w1).
             if n \<noteq> 1 then Inl err_reservation_changed
             else and_then (update_allocation (al_id l) captured unused w1) (\<lambda>(m, w2).
               if m \<noteq> 1 then Inl err_allocation_changed
               else and_then (insert_batch_image_reward_event cmd (al_credit l) Ev_Capture captured w2) (\<lambda>w3.
                 and_then (insert_batch_image_reward_event cmd (al_credit l) Ev_Release restored w3) (\<lambda>w4.
                 and_then (insert_batch_image_reward_event cmd (al_credit l) Ev_Expire expired w4) (\<lambda>w5.
                   settle_each cmd now ls (left - captured)
                     (if eps < restored then restored_total + restored else restored_total) w5))))))"

definition settle_batch_image_reward_allocations ::
  "hold_cmd \<Rightarrow> reward_allocation list \<Rightarrow> time \<Rightarrow> wallet \<Rightarrow> go_error + hold_result \<times> wallet" where
  "settle_batch_image_reward_allocations cmd ls now w =
     (let total = sum_list (map outstanding (filter (\<lambda>l. eps < outstanding l) ls)) in
      if eps < hc_actual cmd - total then Inl err_reservation_insufficient
      else and_then (settle_each cmd now ls (hc_actual cmd) 0 w) (\<lambda>(restored, w1).
        case update_user (hc_user cmd) (\<lambda>r. total \<le> wu_frozen r + eps) restored (- total) w1 of
          Some (r, w2) \<Rightarrow> Inr (hold_from
            (if list_ex (\<lambda>c. rc_id c = al_credit (hd ls) \<and> rc_type c = RewardCreditDailyCheckIn) (w_credits w)
             then Fund_Daily else Fund_Affiliate) r, w2)
        | None \<Rightarrow> Inl (if user_exists w1 (hc_user cmd) then err_frozen_insufficient else err_user_not_found)))"

text \<open>The part that capture and release share: settle the reward allocations of the hold, if it has any.\<close>

definition settle_rewards ::
  "wallet_env \<Rightarrow> hold_cmd \<Rightarrow> wallet \<Rightarrow> go_error + hold_result option \<times> wallet" where
  "settle_rewards env cmd w =
     (if hc_batch cmd = [] then Inr (None, w)
      else and_then (expire_reward_credits_for_user env (hc_user cmd) (we_now env) w) (\<lambda>(_, w1).
        let ls = load_batch_image_reward_allocations (hc_user cmd) (hold_request_id (hc_batch cmd)) w1 in
        if ls = [] then Inr (None, w1)
        else and_then (settle_batch_image_reward_allocations cmd ls (we_now env) w1)
               (\<lambda>(r, w2). Inr (Some r, w2))))"

definition settle_account :: "hold_cmd \<Rightarrow> rat \<Rightarrow> wallet \<Rightarrow> go_error + hold_result \<times> wallet" where
  "settle_account cmd returned w =
     (case update_user (hc_user cmd) (\<lambda>r. hc_hold cmd \<le> wu_frozen r) returned (- hc_hold cmd) w of
        Some (r, w1) \<Rightarrow> Inr (hold_from Fund_Account r, w1)
      | None \<Rightarrow> Inl (if user_exists w (hc_user cmd) then err_frozen_insufficient else err_user_not_found))"

definition capture_usage_billing_batch_image_balance ::
  "wallet_env \<Rightarrow> hold_cmd \<Rightarrow> wallet \<Rightarrow> go_error + hold_result \<times> wallet" where
  "capture_usage_billing_batch_image_balance env cmd w =
     (if hc_hold cmd \<le> 0 \<and> hc_actual cmd \<le> 0 then Inr (no_hold, w)
      else if 1 / 10 ^ 8 < hc_actual cmd - hc_hold cmd then Inl err_cost_exceeds_hold
      else and_then (settle_rewards env cmd w) (\<lambda>(r, w1). case r of
             Some x \<Rightarrow> Inr (x, w1)
           | None \<Rightarrow> settle_account cmd (hc_hold cmd - hc_actual cmd) w1))"

definition hold_claim_exists :: "string \<Rightarrow> int \<Rightarrow> wallet \<Rightarrow> bool" where
  "hold_claim_exists rid key w \<longleftrightarrow> find_claim rid key (w_claims w) \<noteq> None \<or> find_claim rid key (w_archive w) \<noteq> None"

definition release_usage_billing_batch_image_balance ::
  "wallet_env \<Rightarrow> hold_cmd \<Rightarrow> wallet \<Rightarrow> go_error + hold_result \<times> wallet" where
  "release_usage_billing_batch_image_balance env cmd w =
     (if hc_hold cmd \<le> 0 then Inr (no_hold, w)
      else if \<not> hold_claim_exists (hold_request_id (hc_batch cmd)) (hc_api_key cmd) w then Inr (no_hold, w)
      else and_then (settle_rewards env (cmd\<lparr>hc_actual := 0\<rparr>) w) (\<lambda>(r, w1). case r of
             Some x \<Rightarrow> Inr (x, w1)
           | None \<Rightarrow> settle_account cmd (hc_hold cmd) w1))"

section \<open>The three operations\<close>

definition apply_batch_image_balance_hold ::
  "(string \<Rightarrow> string) \<Rightarrow> (rat \<Rightarrow> string) \<Rightarrow>
   (wallet_env \<Rightarrow> hold_cmd \<Rightarrow> wallet \<Rightarrow> go_error + hold_result \<times> wallet) \<Rightarrow>
   wallet_env \<Rightarrow> hold_cmd \<Rightarrow> wallet \<Rightarrow> go_error + hold_result \<times> wallet" where
  "apply_batch_image_balance_hold sha f10 op env cmd w = (let c = hold_normalize sha f10 cmd in
     if hc_request c = [] then Inl err_request_id_required
     else and_then (claim_usage_billing_request env (hc_request c) (hc_api_key c) (hc_fingerprint c) w)
       (\<lambda>(applied, w1). if \<not> applied then Inr (no_hold, w)
          else and_then (op env c w1) (\<lambda>(r, w2). Inr (r\<lparr>hr_applied := True\<rparr>, w2))))"

definition reserve_batch_image_balance where
  "reserve_batch_image_balance sha f10 =
     apply_batch_image_balance_hold sha f10 reserve_usage_billing_batch_image_balance"

definition capture_batch_image_balance where
  "capture_batch_image_balance sha f10 =
     apply_batch_image_balance_hold sha f10 capture_usage_billing_batch_image_balance"

definition release_batch_image_balance where
  "release_batch_image_balance sha f10 =
     apply_batch_image_balance_hold sha f10 release_usage_billing_batch_image_balance"

section \<open>The service's calls\<close>

record batch_job =
  bj_batch :: string
  bj_user :: int
  bj_api_key :: "int option"
  bj_estimated :: rat
  bj_hold :: "rat option"

definition err_hold_failed :: go_error where
  "err_hold_failed = new_error 502 ''BATCH_IMAGE_BILLING_HOLD_FAILED'' ''batch image balance hold failed''"
definition err_settlement_failed :: go_error where
  "err_settlement_failed = new_error 502 ''BATCH_IMAGE_SETTLEMENT_BILLING_FAILED''
     ''batch image settlement billing failed''"
definition err_missing_api_key :: go_error where
  "err_missing_api_key = new_error 400 ''BATCH_IMAGE_SETTLEMENT_MISSING_API_KEY_ID''
     ''batch image settlement api key id is missing''"

definition build_batch_image_hold_command ::
  "batch_job \<Rightarrow> string \<Rightarrow> rat \<Rightarrow> string \<Rightarrow> go_error + hold_cmd" where
  "build_batch_image_hold_command job rid actual payload_hash = (case bj_api_key job of
     None \<Rightarrow> Inl err_missing_api_key
   | Some k \<Rightarrow> if k \<le> 0 then Inl err_missing_api_key
       else let h = (case bj_hold job of Some x \<Rightarrow> x | None \<Rightarrow> bj_estimated job) in
         Inr \<lparr>hc_request = rid, hc_api_key = k, hc_fingerprint = [], hc_payload_hash = trim_space payload_hash,
              hc_user = bj_user job, hc_batch = bj_batch job, hc_hold = max 0 h, hc_actual = max 0 actual\<rparr>)"

type_synonym hold_call = "wallet_env \<Rightarrow> hold_cmd \<Rightarrow> wallet \<Rightarrow> go_error + hold_result \<times> wallet"

definition reserve_batch_image_balance_hold ::
  "hold_call \<Rightarrow> wallet_env \<Rightarrow> batch_job \<Rightarrow> string \<Rightarrow> wallet \<Rightarrow> go_error + wallet" where
  "reserve_batch_image_balance_hold repo env job payload_hash w =
     and_then (build_batch_image_hold_command job (hold_request_id (bj_batch job)) 0 payload_hash) (\<lambda>c.
       if hc_hold c \<le> 0 then Inr w
       else case repo env c w of
         Inr (_, w1) \<Rightarrow> Inr w1
       | Inl e \<Rightarrow> Inl (if errors_is e err_batch_insufficient then err_batch_insufficient
                     else with_cause err_hold_failed e))"

definition capture_batch_image_balance_hold ::
  "hold_call \<Rightarrow> wallet_env \<Rightarrow> batch_job \<Rightarrow> rat \<Rightarrow> string \<Rightarrow> wallet \<Rightarrow> go_error + wallet" where
  "capture_batch_image_balance_hold repo env job actual payload_hash w =
     and_then (build_batch_image_hold_command job (capture_request_id (bj_batch job)) actual payload_hash) (\<lambda>c.
       case repo env c w of
         Inr (_, w1) \<Rightarrow> Inr w1
       | Inl e \<Rightarrow> Inl (with_cause err_settlement_failed e))"

definition release_batch_image_balance_hold ::
  "hold_call \<Rightarrow> wallet_env \<Rightarrow> batch_job \<Rightarrow> string \<Rightarrow> wallet \<Rightarrow> go_error + wallet" where
  "release_batch_image_balance_hold repo env job payload_hash w =
     and_then (build_batch_image_hold_command job (release_request_id (bj_batch job)) 0 payload_hash) (\<lambda>c.
       if hc_hold c \<le> 0 then Inr w
       else case repo env c w of
         Inr (_, w1) \<Rightarrow> Inr w1
       | Inl e \<Rightarrow> if errors_is e err_request_conflict then Inr w else Inl (with_cause err_hold_failed e))"

end
