(* ===== verification/Wallet_Ledger.thy ===== *)
theory Wallet_Ledger
  imports Batch_Hold
begin

text \<open>
  The ledger of the reward credits. Every credit is explained by its events and allocations: what
  was granted is what remains, plus what holds have reserved, plus what was consumed, captured or
  expired; what is reserved is what the allocations of its holds still have outstanding. Every
  operation of the wallet keeps this.
\<close>

section \<open>The invariant\<close>

definition spending :: "int \<Rightarrow> reward_event \<Rightarrow> bool" where
  "spending i e \<longleftrightarrow> ev_credit e = i \<and> (ev_type e = Ev_Consume \<or> ev_type e = Ev_Capture \<or> ev_type e = Ev_Expire)"

definition spent :: "wallet \<Rightarrow> int \<Rightarrow> rat" where
  "spent w i = sum_list (map ev_amount (filter (spending i) (w_events w)))"

definition held :: "wallet \<Rightarrow> int \<Rightarrow> rat" where
  "held w i = sum_list (map outstanding (filter (\<lambda>l. al_credit l = i) (w_allocs w)))"

definition credit_ok :: "wallet \<Rightarrow> reward_credit \<Rightarrow> bool" where
  "credit_ok w c \<longleftrightarrow> credit_checks c \<and> scaled (rc_original c) \<and> scaled (rc_remaining c) \<and> scaled (rc_reserved c) \<and>
     rc_reserved c = held w (rc_id c) \<and>
     rc_original c = rc_remaining c + rc_reserved c + spent w (rc_id c)"

definition allocation_ok :: "reward_allocation \<Rightarrow> bool" where
  "allocation_ok l \<longleftrightarrow> allocation_checks l \<and> scaled (al_reserved l) \<and> scaled (al_captured l) \<and> scaled (al_released l)"

definition auto_expired :: "wallet \<Rightarrow> int \<Rightarrow> bool" where
  "auto_expired w i \<longleftrightarrow> list_ex (same_event i Ev_Expire ''auto-expiry'') (w_events w)"

definition ledger_inv :: "wallet \<Rightarrow> bool" where
  "ledger_inv w \<longleftrightarrow> distinct (map rc_id (w_credits w)) \<and>
     (\<forall>c \<in> set (w_credits w). rc_id c < w_next_credit w \<and> credit_ok w c \<and>
        (auto_expired w (rc_id c) \<longrightarrow> rc_expired_at c \<noteq> None)) \<and>
     distinct (map al_id (w_allocs w)) \<and>
     (\<forall>l \<in> set (w_allocs w). al_id l < w_next_alloc w \<and> al_credit l < w_next_credit w \<and> allocation_ok l) \<and>
     (\<forall>e \<in> set (w_events w). ev_credit e < w_next_credit w)"

lemma ledger_frame [simp]:
  "ledger_inv (w\<lparr>w_users := us\<rparr>) = ledger_inv w"
  "ledger_inv (w\<lparr>w_claims := cl\<rparr>) = ledger_inv w"
  "ledger_inv (w\<lparr>w_archive := ar\<rparr>) = ledger_inv w"
  "ledger_inv (w\<lparr>w_subs := sb\<rparr>) = ledger_inv w"
  "ledger_inv (w\<lparr>w_keys := ks\<rparr>) = ledger_inv w"
  "ledger_inv (w\<lparr>w_accounts := ac\<rparr>) = ledger_inv w"
  "ledger_inv (w\<lparr>w_outbox := ob\<rparr>) = ledger_inv w"
  by (simp_all add: ledger_inv_def credit_ok_def spent_def held_def auto_expired_def)

lemma update_user_Some_iff:
  "update_user u g db df w = Some (r', w') \<longleftrightarrow>
     (\<exists>r. w_users w u = Some r \<and> \<not> wu_deleted r \<and> g r \<and>
        r' = r\<lparr>wu_balance := money (wu_balance r + db), wu_frozen := money (wu_frozen r + df)\<rparr> \<and>
        w' = w\<lparr>w_users := (w_users w)(u \<mapsto> r')\<rparr>)"
  by (auto simp: update_user_def Let_def split: option.splits if_splits)

lemma update_user_ledger: "update_user u g db df w = Some (r', w') \<Longrightarrow> ledger_inv w' = ledger_inv w"
  by (auto simp: update_user_Some_iff)

lemma ledger_credit:
  assumes "ledger_inv w" "c \<in> set (w_credits w)"
  shows "credit_ok w c" "rc_id c < w_next_credit w"
  using assms by (auto simp: ledger_inv_def)

lemma same_id:
  assumes "ledger_inv w" "c \<in> set (w_credits w)" "d \<in> set (w_credits w)" "rc_id c = rc_id d"
  shows "c = d"
  using assms unfolding ledger_inv_def by (metis distinct_map inj_onD)

lemma credit_okD:
  assumes "credit_ok w c"
  shows "credit_checks c" "scaled (rc_original c)" "scaled (rc_remaining c)" "scaled (rc_reserved c)"
    "rc_reserved c = held w (rc_id c)" "rc_original c = rc_remaining c + rc_reserved c + spent w (rc_id c)"
  using assms unfolding credit_ok_def by blast+

lemma credit_ok_cong:
  "held w' (rc_id c) = held w (rc_id c) \<Longrightarrow> spent w' (rc_id c) = spent w (rc_id c) \<Longrightarrow> credit_ok w' c = credit_ok w c"
  by (simp only: credit_ok_def)

text \<open>A movement: one row replaced, with the events and allocations that go with it.\<close>

lemma spent_movement:
  assumes "w_events w' = w_events w @ es"
  shows "spent w' j = spent w j + sum_list (map ev_amount (filter (spending j) es))"
  using assms by (simp add: spent_def)

lemma foreign_events:
  assumes "\<And>e. e \<in> set es \<Longrightarrow> ev_credit e = i" "j \<noteq> i"
  shows "filter (spending j) es = []" "\<not> list_ex (same_event j t k) es"
  using assms by (auto simp: filter_empty_conv spending_def list_ex_iff same_event_def)

lemma ledger_movement:
  assumes inv: "ledger_inv w" and c: "c \<in> set (w_credits w)" "rc_id c = i"
    and w': "w_credits w' = map (\<lambda>r. if rc_id r = i then f r else r) (w_credits w)"
      "w_next_credit w' = w_next_credit w" "w_events w' = w_events w @ es"
    and es: "\<And>e. e \<in> set es \<Longrightarrow> ev_credit e = i"
    and f: "\<And>r. rc_id (f r) = rc_id r" "rc_original (f c) = rc_original c" "credit_checks (f c)"
      "scaled (rc_remaining (f c))" "scaled (rc_reserved (f c))"
    and held: "held w' i = rc_reserved (f c)" "\<And>j. j \<noteq> i \<Longrightarrow> held w' j = held w j"
    and sum: "rc_remaining c + rc_reserved c =
      rc_remaining (f c) + rc_reserved (f c) + sum_list (map ev_amount (filter (spending i) es))"
    and expired: "rc_expired_at c \<noteq> None \<or> list_ex (same_event i Ev_Expire ''auto-expiry'') es \<Longrightarrow> rc_expired_at (f c) \<noteq> None"
    and allocs: "distinct (map al_id (w_allocs w'))"
      "\<And>l. l \<in> set (w_allocs w') \<Longrightarrow> al_id l < w_next_alloc w' \<and> al_credit l < w_next_credit w \<and> allocation_ok l"
  shows "ledger_inv w'"
proof -
  have ids: "map rc_id (w_credits w') = map rc_id (w_credits w)" by (simp add: w' f(1))
  have cok: "credit_ok w c" and cid: "i < w_next_credit w" using ledger_credit [OF inv c(1)] c(2) by auto
  have row: "rc_id d < w_next_credit w \<and> credit_ok w' d \<and> (auto_expired w' (rc_id d) \<longrightarrow> rc_expired_at d \<noteq> None)"
    if d: "d \<in> set (w_credits w')" for d
  proof -
    obtain r where r: "r \<in> set (w_credits w)" "d = (if rc_id r = i then f r else r)"
      using d unfolding w'(1) by auto
    have old: "credit_ok w r" "rc_id r < w_next_credit w" "auto_expired w (rc_id r) \<Longrightarrow> rc_expired_at r \<noteq> None"
      using inv r(1) by (auto simp: ledger_inv_def)
    show ?thesis
    proof (cases "rc_id r = i")
      case True
      hence rc: "r = c" using same_id [OF inv r(1) c(1)] c(2) by simp
      have o1: "scaled (rc_original (f c))" using credit_okD(2) [OF cok] f(2) by simp
      have o2: "rc_original (f c) = rc_remaining (f c) + rc_reserved (f c) + spent w' i"
        using credit_okD(6) [OF cok] sum spent_movement [OF w'(3), of i] f(2) c(2) by simp
      have "credit_ok w' (f c)" unfolding credit_ok_def f(1) c(2)
        using o1 o2 f(3,4,5) held(1) by (simp only: simp_thms)
      moreover have "auto_expired w' i \<Longrightarrow> rc_expired_at (f c) \<noteq> None"
        using expired old(3) True rc w'(3) by (auto simp: auto_expired_def)
      ultimately show ?thesis using r(2) True rc cid f(1) c(2) by simp
    next
      case False
      have none: "filter (spending (rc_id r)) es = []" "\<not> list_ex (same_event (rc_id r) Ev_Expire ''auto-expiry'') es"
        using foreign_events [OF es False] by blast+
      have "credit_ok w' r"
        using old(1) credit_ok_cong [of w' r w] held(2) [OF False] spent_movement [OF w'(3), of "rc_id r"] none by simp
      moreover have "auto_expired w' (rc_id r) = auto_expired w (rc_id r)"
        using none w'(3) by (simp add: auto_expired_def)
      ultimately show ?thesis using r(2) False old by simp
    qed
  qed
  have "\<And>e. e \<in> set (w_events w') \<Longrightarrow> ev_credit e < w_next_credit w"
    using inv es cid w'(3) by (auto simp: ledger_inv_def)
  thus ?thesis using inv allocs w'(2) ids row by (simp add: ledger_inv_def)
qed

lemma ledger_allocs:
  assumes "ledger_inv w"
  shows "distinct (map al_id (w_allocs w))"
    "\<And>l. l \<in> set (w_allocs w) \<Longrightarrow> al_id l < w_next_alloc w \<and> al_credit l < w_next_credit w \<and> allocation_ok l"
  using assms by (auto simp: ledger_inv_def)

lemma update_credit_Inr:
  assumes "update_credit i P f w = Inr (n, w1)"
  shows "length (filter (\<lambda>c. rc_id c = i \<and> P c) (w_credits w)) = n"
    "w1 = w\<lparr>w_credits := map (\<lambda>r. if rc_id r = i \<and> P r then f r else r) (w_credits w)\<rparr>"
    "\<And>c. c \<in> set (w_credits w) \<Longrightarrow> rc_id c = i \<and> P c \<Longrightarrow> credit_checks (f c)"
proof -
  let ?ck = "list_all (\<lambda>c. rc_id c = i \<and> P c \<longrightarrow> credit_checks (f c)) (w_credits w)"
  have ck: ?ck using assms by (cases ?ck) (simp_all add: update_credit_def)
  with assms show "length (filter (\<lambda>c. rc_id c = i \<and> P c) (w_credits w)) = n"
    "w1 = w\<lparr>w_credits := map (\<lambda>r. if rc_id r = i \<and> P r then f r else r) (w_credits w)\<rparr>"
    by (simp_all add: update_credit_def)
  show "credit_checks (f c)" if "c \<in> set (w_credits w)" "rc_id c = i \<and> P c" for c
    using ck that by (simp add: list_all_iff)
qed

lemma update_credit_InrE:
  assumes "update_credit i P f w = Inr (n, w1)" "n = 1" "ledger_inv w"
  obtains c where "c \<in> set (w_credits w)" "rc_id c = i" "P c" "credit_checks (f c)"
    "w1 = w\<lparr>w_credits := map (\<lambda>r. if rc_id r = i then f r else r) (w_credits w)\<rparr>"
proof -
  let ?hit = "\<lambda>c. rc_id c = i \<and> P c"
  have n: "length (filter ?hit (w_credits w)) = 1"
    and w1: "w1 = w\<lparr>w_credits := map (\<lambda>r. if ?hit r then f r else r) (w_credits w)\<rparr>"
    and ck: "\<And>c. c \<in> set (w_credits w) \<Longrightarrow> ?hit c \<Longrightarrow> credit_checks (f c)"
    by (fact update_credit_Inr(1) [OF assms(1), unfolded assms(2)], fact update_credit_Inr(2) [OF assms(1)],
        fact update_credit_Inr(3) [OF assms(1)])
  obtain c where "filter ?hit (w_credits w) = [c]" using n by (auto simp: length_Suc_conv)
  hence "c \<in> set (filter ?hit (w_credits w))" by simp
  hence c: "c \<in> set (w_credits w)" "rc_id c = i" "P c" by auto
  have "map (\<lambda>r. if ?hit r then f r else r) (w_credits w) = map (\<lambda>r. if rc_id r = i then f r else r) (w_credits w)"
  proof (rule map_cong [OF refl])
    fix r assume r: "r \<in> set (w_credits w)"
    have "P r" if "rc_id r = i"
      using same_id [OF assms(3) r c(1)] that c(2,3) by simp
    thus "(if ?hit r then f r else r) = (if rc_id r = i then f r else r)" by simp
  qed
  thus ?thesis using that [OF c ck [OF c(1)]] c(2,3) w1 by simp
qed

lemma insert_event_InrE:
  assumes "insert_event c u t k a w = Inr w'"
  obtains "0 < money a" "\<not> list_ex (same_event c t k) (w_events w)"
    "w' = w\<lparr>w_events := w_events w @ [\<lparr>ev_credit = c, ev_user = u, ev_type = t, ev_key = k, ev_amount = money a\<rparr>]\<rparr>"
  using assms by (auto simp: insert_event_def split: if_splits)

lemma held_frame [simp]:
  "held (w\<lparr>w_events := es\<rparr>) i = held w i" "held (w\<lparr>w_credits := cs\<rparr>) i = held w i"
  by (simp_all add: held_def)

lemma ledger_reserved: "ledger_inv w \<Longrightarrow> c \<in> set (w_credits w) \<Longrightarrow> held w (rc_id c) = rc_reserved c"
  by (auto simp: ledger_inv_def credit_ok_def)

section \<open>Movements of one credit\<close>

text \<open>The tables that only the ledger writes, and what a movement leaves alone.\<close>

definition ledger_only :: "wallet \<Rightarrow> wallet \<Rightarrow> bool" where
  "ledger_only w w' \<longleftrightarrow> w_users w' = w_users w \<and> w_next_credit w' = w_next_credit w \<and> w_claims w' = w_claims w \<and>
     w_archive w' = w_archive w \<and> w_subs w' = w_subs w \<and> w_keys w' = w_keys w \<and> w_accounts w' = w_accounts w \<and>
     w_outbox w' = w_outbox w"

lemma ledger_only_refl [simp]: "ledger_only w w"
  by (simp add: ledger_only_def)

lemma ledger_only_trans: "ledger_only a b \<Longrightarrow> ledger_only b c \<Longrightarrow> ledger_only a c"
  by (simp add: ledger_only_def)

definition moved :: "wallet \<Rightarrow> wallet \<Rightarrow> int \<Rightarrow> (reward_credit \<Rightarrow> reward_credit) \<Rightarrow> bool" where
  "moved w w' i f \<longleftrightarrow> ledger_inv w' \<and> ledger_only w w' \<and>
     w_credits w' = map (\<lambda>r. if rc_id r = i then f r else r) (w_credits w)"

definition reward_part :: "int \<Rightarrow> reward_credit \<Rightarrow> rat" where
  "reward_part u c = (if rc_user c = u \<and> rc_expired_at c = None then rc_remaining c else 0)"

definition rewards :: "wallet \<Rightarrow> int \<Rightarrow> rat" where
  "rewards w u = sum_list (map (reward_part u) (w_credits w))"

lemma moved_others: "moved w w' i f \<Longrightarrow> d \<in> set (w_credits w) \<Longrightarrow> rc_id d \<noteq> i \<Longrightarrow> d \<in> set (w_credits w')"
  by (force simp: moved_def)

lemma moved_rewards:
  assumes "ledger_inv w" "c \<in> set (w_credits w)" "rc_id c = i" "moved w w' i f"
  shows "rewards w' u = rewards w u + reward_part u (f c) - reward_part u c"
  using sum_list_update_row [of rc_id "w_credits w" c i "reward_part u" f] assms
  by (simp add: rewards_def moved_def ledger_inv_def)

lemma expire_moved:
  assumes inv: "ledger_inv w" and c: "c \<in> set (w_credits w)" "0 < rc_remaining c" "rc_expired_at c = None"
    and run: "expire_reward_credit c now w = Inr w'"
  shows "moved w w' (rc_id c) (\<lambda>r. r\<lparr>rc_remaining := 0, rc_expired_at := Some now\<rparr>)"
proof -
  let ?f = "\<lambda>r. r\<lparr>rc_remaining := 0, rc_expired_at := (case rc_expired_at r of None \<Rightarrow> Some now | t \<Rightarrow> t)\<rparr>"
  let ?g = "\<lambda>r. r\<lparr>rc_remaining := 0, rc_expired_at := Some now\<rparr>"
  have ok: "credit_ok w c" using ledger_credit inv c by simp
  obtain n w1 where u: "update_credit (rc_id c) (\<lambda>r. 0 < rc_remaining r) ?f w = Inr (n, w1)"
    and i: "insert_event_once (rc_id c) (rc_user c) Ev_Expire ''auto-expiry'' (rc_remaining c) w1 = Inr w'"
    using run by (auto simp: expire_reward_credit_def elim!: and_then_InrE)
  have row: "(if rc_id r = rc_id c \<and> 0 < rc_remaining r then ?f r else r) = (if rc_id r = rc_id c then ?g r else r)"
    if "r \<in> set (w_credits w)" for r
    using same_id [OF inv that c(1)] c(2,3) by auto
  have w1: "w1 = w\<lparr>w_credits := map (\<lambda>r. if rc_id r = rc_id c then ?g r else r) (w_credits w)\<rparr>"
    using update_credit_Inr(2) [OF u] row by (simp cong: map_cong)
  have fresh: "\<not> list_ex (same_event (rc_id c) Ev_Expire ''auto-expiry'') (w_events w)"
    using inv c by (auto simp: ledger_inv_def auto_expired_def)
  have w': "w' = w1\<lparr>w_events := w_events w1 @ [\<lparr>ev_credit = rc_id c, ev_user = rc_user c, ev_type = Ev_Expire,
      ev_key = ''auto-expiry'', ev_amount = rc_remaining c\<rparr>]\<rparr>"
    using i fresh c(2) credit_okD(3) [OF ok] by (simp add: insert_event_once_def insert_event_def w1)
  have "ledger_inv w'"
  proof (rule ledger_movement [OF inv c(1) refl, where f = ?g])
    show "w_events w' = w_events w @ [\<lparr>ev_credit = rc_id c, ev_user = rc_user c, ev_type = Ev_Expire,
      ev_key = ''auto-expiry'', ev_amount = rc_remaining c\<rparr>]" by (simp add: w' w1)
    show "credit_checks (?g c)" "scaled (rc_reserved (?g c))" using ok c(2) by (auto simp: credit_ok_def credit_checks_def)
    show "held w' (rc_id c) = rc_reserved (?g c)" using ledger_reserved [OF inv c(1)] by (simp add: w' w1)
  qed (use ledger_allocs [OF inv] in \<open>simp_all add: w' w1 spending_def\<close>)
  thus ?thesis by (simp add: moved_def w' w1 ledger_only_def)
qed

lemma consume_moved:
  assumes inv: "ledger_inv w" and c: "c \<in> set (w_credits w)" and a: "0 < a" "a \<le> rc_remaining c" "scaled a"
    and upd: "update_credit (rc_id c) P (consume_credit a now) w = Inr (1, w1)"
    and ev: "insert_event (rc_id c) u Ev_Consume key a w1 = Inr w2"
  shows "moved w w2 (rc_id c) (consume_credit a now)"
proof -
  have ok: "credit_ok w c" using ledger_credit inv c by simp
  obtain d where "w1 = w\<lparr>w_credits := map (\<lambda>r. if rc_id r = rc_id c then consume_credit a now r else r) (w_credits w)\<rparr>"
    using update_credit_InrE [OF upd refl inv] by metis
  note w1 = this
  obtain w2: "w2 = w1\<lparr>w_events := w_events w1 @ [\<lparr>ev_credit = rc_id c, ev_user = u, ev_type = Ev_Consume,
      ev_key = key, ev_amount = a\<rparr>]\<rparr>"
    using insert_event_InrE [OF ev] a(3) by (metis money_id)
  note okD = credit_okD [OF ok]
  have rem: "scaled (rc_remaining c - a)" using okD(3) a(3) by (rule scaled_diff)
  have "ledger_inv w2"
  proof (rule ledger_movement [OF inv c refl, where f = "consume_credit a now"])
    show "w_events w2 = w_events w @ [\<lparr>ev_credit = rc_id c, ev_user = u, ev_type = Ev_Consume, ev_key = key,
      ev_amount = a\<rparr>]" by (simp add: w1 w2)
    show "credit_checks (consume_credit a now c)" "scaled (rc_reserved (consume_credit a now c))"
      using okD(1,4) a rem by (auto simp: consume_credit_def credit_checks_def)
    show "held w2 (rc_id c) = rc_reserved (consume_credit a now c)"
      using ledger_reserved [OF inv c] by (simp add: w1 w2 consume_credit_def)
  qed (use ledger_allocs [OF inv] rem in \<open>simp_all add: w1 w2 spending_def consume_credit_def same_event_def\<close>)
  thus ?thesis by (simp add: moved_def w1 w2 ledger_only_def)
qed

lemma insert_allocation_InrE:
  assumes "insert_allocation key c u a t w = Inr w'" "scaled a"
  obtains "0 < a" "w' = w\<lparr>w_allocs := w_allocs w @ [\<lparr>al_id = w_next_alloc w, al_hold_key = key, al_credit = c,
      al_user = u, al_reserved = a, al_captured = 0, al_released = 0, al_expires_at = t\<rparr>],
      w_next_alloc := w_next_alloc w + 1\<rparr>"
  using assms by (auto simp: insert_allocation_def split: if_splits)

lemma reserve_moved:
  assumes inv: "ledger_inv w" and c: "c \<in> set (w_credits w)" and a: "0 < a" "a \<le> rc_remaining c" "scaled a"
    and upd: "update_credit (rc_id c) P (reserve_credit a) w = Inr (1, w1)"
    and al: "insert_allocation key (rc_id c) u a t w1 = Inr w2"
    and ev: "insert_event (rc_id c) u Ev_Reserve k a w2 = Inr w3"
  shows "moved w w3 (rc_id c) (reserve_credit a)"
proof -
  have ok: "credit_ok w c" using ledger_credit inv c by simp
  note okD = credit_okD [OF ok]
  let ?l = "\<lparr>al_id = w_next_alloc w, al_hold_key = key, al_credit = rc_id c, al_user = u, al_reserved = a,
    al_captured = 0, al_released = 0, al_expires_at = t\<rparr>"
  obtain d where "w1 = w\<lparr>w_credits := map (\<lambda>r. if rc_id r = rc_id c then reserve_credit a r else r) (w_credits w)\<rparr>"
    using update_credit_InrE [OF upd refl inv] by metis
  note w1 = this
  have w2: "w2 = w1\<lparr>w_allocs := w_allocs w @ [?l], w_next_alloc := w_next_alloc w + 1\<rparr>"
    using insert_allocation_InrE [OF al a(3)] w1 by simp
  have w3: "w3 = w2\<lparr>w_events := w_events w @ [\<lparr>ev_credit = rc_id c, ev_user = u, ev_type = Ev_Reserve,
      ev_key = k, ev_amount = a\<rparr>]\<rparr>"
    using insert_event_InrE [OF ev] a(3) w1 w2 by simp
  have rem: "scaled (rc_remaining c - a)" "scaled (rc_reserved c + a)"
    using okD(3,4) a(3) by (auto intro: scaled_diff scaled_add)
  have fresh: "w_next_alloc w \<notin> al_id ` set (w_allocs w)" using ledger_allocs(2) [OF inv] by force
  have "ledger_inv w3"
  proof (rule ledger_movement [OF inv c refl, where f = "reserve_credit a"])
    show "w_events w3 = w_events w @ [\<lparr>ev_credit = rc_id c, ev_user = u, ev_type = Ev_Reserve, ev_key = k,
      ev_amount = a\<rparr>]" by (simp add: w3)
    show "credit_checks (reserve_credit a c)"
      using okD(1) a rem by (auto simp: reserve_credit_def credit_checks_def)
    show "held w3 (rc_id c) = rc_reserved (reserve_credit a c)"
      using okD(5) rem by (simp add: held_def w1 w2 w3 reserve_credit_def outstanding_def)
    show "held w3 j = held w j" if "j \<noteq> rc_id c" for j using that by (simp add: held_def w1 w2 w3)
    show "distinct (map al_id (w_allocs w3))" using ledger_allocs(1) [OF inv] fresh by (simp add: w1 w2 w3)
    show "al_id l < w_next_alloc w3 \<and> al_credit l < w_next_credit w \<and> allocation_ok l" if "l \<in> set (w_allocs w3)" for l
      using that ledger_allocs(2) [OF inv, of l] ledger_credit(2) [OF inv c] a
      by (auto simp: w1 w2 w3 allocation_ok_def allocation_checks_def)
  qed (use rem in \<open>simp_all add: w1 w2 w3 spending_def reserve_credit_def same_event_def\<close>)
  thus ?thesis by (simp add: moved_def w1 w2 w3 ledger_only_def)
qed

lemma update_allocation_Inr:
  assumes "update_allocation i captured unused w = Inr (n, w')"
  shows "w' = w\<lparr>w_allocs := map (\<lambda>x. if al_id x = i then settle_allocation captured unused x else x) (w_allocs w)\<rparr>"
    "\<And>l. l \<in> set (w_allocs w) \<Longrightarrow> al_id l = i \<Longrightarrow> allocation_checks (settle_allocation captured unused l)"
proof -
  let ?ck = "list_all (\<lambda>l. al_id l = i \<longrightarrow> allocation_checks (settle_allocation captured unused l)) (w_allocs w)"
  have ck: ?ck using assms by (cases ?ck) (simp_all add: update_allocation_def)
  with assms show "w' = w\<lparr>w_allocs := map (\<lambda>x. if al_id x = i then settle_allocation captured unused x else x) (w_allocs w)\<rparr>"
    by (simp add: update_allocation_def)
  show "allocation_checks (settle_allocation captured unused l)" if "l \<in> set (w_allocs w)" "al_id l = i" for l
    using that ck by (simp add: list_all_iff)
qed

definition batch_events :: "hold_cmd \<Rightarrow> int \<Rightarrow> event_type \<Rightarrow> rat \<Rightarrow> reward_event list" where
  "batch_events cmd i t a = (if eps < a then [\<lparr>ev_credit = i, ev_user = hc_user cmd, ev_type = t,
     ev_key = hc_request cmd, ev_amount = money a\<rparr>] else [])"

lemma batch_event_Inr:
  "insert_batch_image_reward_event cmd i t a w = Inr w' \<Longrightarrow> w' = w\<lparr>w_events := w_events w @ batch_events cmd i t a\<rparr>"
  by (auto simp: insert_batch_image_reward_event_def batch_events_def insert_event_def split: if_splits)

lemma batch_events_sum:
  assumes "scaled a" "0 \<le> a" "t = Ev_Capture \<or> t = Ev_Expire"
  shows "sum_list (map ev_amount (filter (spending i) (batch_events cmd i t a))) = a"
  using assms le_eps_iff [of a] by (auto simp: batch_events_def spending_def not_less)

lemma batch_events_release: "filter (spending i) (batch_events cmd i Ev_Release a) = []"
  by (simp add: batch_events_def spending_def)

lemma batch_events_key: "hc_request cmd \<noteq> k \<Longrightarrow> \<not> list_ex (same_event i t k) (batch_events cmd j t' a)"
  by (simp add: batch_events_def same_event_def)

lemma settle_credit_expired: "rc_expired_at c \<noteq> None \<Longrightarrow> rc_expired_at (settle_credit p q r x now c) \<noteq> None"
  by (auto simp: settle_credit_def Let_def)

lemma batch_events_credit: "e \<in> set (batch_events cmd i t a) \<Longrightarrow> ev_credit e = i"
  by (auto simp: batch_events_def split: if_splits)

lemma held_settled:
  assumes "distinct (map al_id as)" "l \<in> set as"
  shows "sum_list (map outstanding (filter (\<lambda>x. al_credit x = j)
      (map (\<lambda>x. if al_id x = al_id l then settle_allocation p q x else x) as))) =
    sum_list (map outstanding (filter (\<lambda>x. al_credit x = j) as)) +
    (if al_credit l = j then outstanding (settle_allocation p q l) - outstanding l else 0)"
proof -
  let ?f = "\<lambda>x. if al_credit x = j then outstanding x else 0"
  have "al_credit (settle_allocation p q l) = al_credit l" by (simp add: settle_allocation_def)
  thus ?thesis
    using sum_list_update_row [OF assms refl, of ?f "settle_allocation p q"]
    by (simp add: sum_list_map_filter')
qed

lemma settle_moved:
  assumes inv: "ledger_inv w" and l: "l \<in> set (w_allocs w)" "0 < outstanding l"
    and parts: "scaled captured" "scaled restored" "scaled expired" "0 \<le> captured" "0 \<le> restored" "0 \<le> expired"
      "outstanding l = captured + unused" "unused = restored + expired"
    and key: "hc_request cmd \<noteq> ''auto-expiry''"
    and upd: "update_credit (al_credit l) P (settle_credit (outstanding l) restored captured expired now) w = Inr (1, w1)"
    and ual: "update_allocation (al_id l) captured unused w1 = Inr (n, w2)"
    and ev: "insert_batch_image_reward_event cmd (al_credit l) Ev_Capture captured w2 = Inr w3"
      "insert_batch_image_reward_event cmd (al_credit l) Ev_Release restored w3 = Inr w4"
      "insert_batch_image_reward_event cmd (al_credit l) Ev_Expire expired w4 = Inr w5"
  shows "moved w w5 (al_credit l) (settle_credit (outstanding l) restored captured expired now)"
    "w_allocs w5 = map (\<lambda>x. if al_id x = al_id l then settle_allocation captured unused x else x) (w_allocs w)"
proof -
  let ?i = "al_credit l" and ?f = "settle_credit (outstanding l) restored captured expired now"
  let ?es = "batch_events cmd ?i Ev_Capture captured @ batch_events cmd ?i Ev_Release restored @
    batch_events cmd ?i Ev_Expire expired"
  obtain c where c: "c \<in> set (w_credits w)" "rc_id c = ?i" and chk: "credit_checks (?f c)"
    and w1: "w1 = w\<lparr>w_credits := map (\<lambda>r. if rc_id r = ?i then ?f r else r) (w_credits w)\<rparr>"
    by (rule update_credit_InrE [OF upd refl inv])
  have w2: "w2 = w1\<lparr>w_allocs := map (\<lambda>x. if al_id x = al_id l then settle_allocation captured unused x else x) (w_allocs w)\<rparr>"
    and ack: "allocation_checks (settle_allocation captured unused l)"
    using update_allocation_Inr [OF ual] l(1) by (simp_all add: w1)
  have w5: "w5 = w2\<lparr>w_events := w_events w @ ?es\<rparr>"
    using batch_event_Inr [OF ev(1)] batch_event_Inr [OF ev(2)] batch_event_Inr [OF ev(3)] w1 w2 by simp
  note okD = credit_okD [OF ledger_credit(1) [OF inv c(1)]]
  have lok: "allocation_ok l" using ledger_allocs(2) [OF inv l(1)] by simp
  have su: "scaled unused" using parts by auto
  have sout: "scaled (outstanding l)" using parts su by auto
  have res: "scaled (rc_reserved c - outstanding l)" "scaled (rc_remaining c + restored)"
    using okD(3,4) sout parts(2) by (auto intro: scaled_diff scaled_add)
  have settled: "settle_allocation captured unused l = l\<lparr>al_captured := al_captured l + captured, al_released := al_released l + unused\<rparr>"
    using lok parts(1) su by (simp add: settle_allocation_def allocation_ok_def scaled_add)
  have out0: "outstanding (settle_allocation captured unused l) = 0"
    using parts(7) by (simp add: settled outstanding_def)
  show allocs: "w_allocs w5 = map (\<lambda>x. if al_id x = al_id l then settle_allocation captured unused x else x) (w_allocs w)"
    by (simp add: w5 w2)
  have held5: "held w5 j = held w j - (if j = ?i then outstanding l else 0)" for j
    using held_settled [OF ledger_allocs(1) [OF inv] l(1), of j captured unused] out0
    by (simp add: held_def w5 w2 w1)
  have "ledger_inv w5"
  proof (rule ledger_movement [OF inv c, where f = ?f])
    show "w_events w5 = w_events w @ ?es" by (simp add: w5)
    show "\<And>e. e \<in> set ?es \<Longrightarrow> ev_credit e = ?i" by (auto dest: batch_events_credit)
    show "held w5 ?i = rc_reserved (?f c)"
      using held5 [of ?i] okD(5) c(2) res(1) by (simp add: settle_credit_def Let_def)
    show "rc_remaining c + rc_reserved c = rc_remaining (?f c) + rc_reserved (?f c) + sum_list (map ev_amount (filter (spending ?i) ?es))"
      using batch_events_sum [of captured Ev_Capture] batch_events_sum [of expired Ev_Expire] parts res
      by (simp add: settle_credit_def Let_def batch_events_release)
    show "al_id x < w_next_alloc w5 \<and> al_credit x < w_next_credit w \<and> allocation_ok x" if x: "x \<in> set (w_allocs w5)" for x
    proof -
      obtain y where y: "y \<in> set (w_allocs w)" "x = (if al_id y = al_id l then settle_allocation captured unused y else y)"
        using x unfolding allocs by auto
      have "al_id y = al_id l \<Longrightarrow> y = l" using y(1) l(1) ledger_allocs(1) [OF inv] by (metis distinct_map inj_onD)
      thus ?thesis using y ledger_allocs(2) [OF inv y(1)] lok ack parts(1) su
        by (auto simp: w5 w2 w1 allocation_ok_def settled)
    qed
    show "distinct (map al_id (w_allocs w5))"
      using ledger_allocs(1) [OF inv] by (simp add: allocs comp_def settle_allocation_def if_distrib cong: if_cong)
    show "rc_expired_at (?f c) \<noteq> None"
      if "rc_expired_at c \<noteq> None \<or> list_ex (same_event ?i Ev_Expire ''auto-expiry'') ?es"
      using that batch_events_key [OF key] settle_credit_expired by (auto simp del: not_None_eq)
  qed (use res chk held5 in \<open>simp_all add: w5 w2 w1 settle_credit_def Let_def\<close>)
  thus "moved w w5 ?i ?f" by (simp add: moved_def w5 w2 w1 ledger_only_def)
qed

end
