(* ===== verification/Wallet_Moves.thy ===== *)
theory Wallet_Moves
  imports Wallet_Ledger
begin

text \<open>
  The effect of each operation of the wallet on the layers of a user: the account part of the
  balance, the reward credits and the frozen balance. \<open>wallet_inv\<close> adds to the ledger invariant that
  the balances have the scale of their columns.
\<close>

section \<open>The layers of a user\<close>

definition balance :: "wallet \<Rightarrow> int \<Rightarrow> rat" where
  "balance w u = (case w_users w u of None \<Rightarrow> 0 | Some r \<Rightarrow> wu_balance r)"

definition frozen :: "wallet \<Rightarrow> int \<Rightarrow> rat" where
  "frozen w u = (case w_users w u of None \<Rightarrow> 0 | Some r \<Rightarrow> wu_frozen r)"

definition account :: "wallet \<Rightarrow> int \<Rightarrow> rat" where
  "account w u = balance w u - rewards w u"

definition wallet_inv :: "wallet \<Rightarrow> bool" where
  "wallet_inv w \<longleftrightarrow> ledger_inv w \<and>
     (\<forall>u r. w_users w u = Some r \<longrightarrow> scaled (wu_balance r) \<and> scaled (wu_frozen r))"

lemma wallet_inv_ledger: "wallet_inv w \<Longrightarrow> ledger_inv w"
  by (simp add: wallet_inv_def)

lemma ledger_step_wallet: "wallet_inv w \<Longrightarrow> ledger_only w w' \<Longrightarrow> ledger_inv w' \<Longrightarrow> wallet_inv w'"
  by (simp add: wallet_inv_def ledger_only_def)

lemma ledger_only_layers:
  "ledger_only w w' \<Longrightarrow> balance w' u = balance w u" "ledger_only w w' \<Longrightarrow> frozen w' u = frozen w u"
  by (simp_all add: ledger_only_def balance_def frozen_def)

lemma rewards_frame [simp]: "rewards (w\<lparr>w_users := us\<rparr>) u = rewards w u"
  by (simp add: rewards_def)

lemma update_user_layers:
  assumes "wallet_inv w" "update_user u g db df w = Some (r, w')" "scaled db" "scaled df"
  shows "wallet_inv w'" "rewards w' v = rewards w v"
    "balance w' v = balance w v + (if v = u then db else 0)"
    "frozen w' v = frozen w v + (if v = u then df else 0)"
  using assms by (auto simp: update_user_Some_iff wallet_inv_def balance_def frozen_def scaled_add split: if_splits)

section \<open>Expiry\<close>

definition of_user :: "int \<Rightarrow> reward_credit list \<Rightarrow> reward_credit list" where
  "of_user u cs = filter (\<lambda>c. rc_user c = u) cs"

definition live_rows :: "wallet \<Rightarrow> reward_credit list \<Rightarrow> bool" where
  "live_rows w cs \<longleftrightarrow> distinct (map rc_id cs) \<and>
     (\<forall>c \<in> set cs. c \<in> set (w_credits w) \<and> 0 < rc_remaining c \<and> rc_expired_at c = None)"

lemma live_rows_Cons:
  assumes "live_rows w (c # cs)"
  shows "c \<in> set (w_credits w)" "0 < rc_remaining c" "rc_expired_at c = None" "rc_id c \<notin> rc_id ` set cs"
  using assms by (auto simp: live_rows_def)

lemma live_rows_moved:
  assumes "live_rows w (c # cs)" "moved w w' (rc_id c) f"
  shows "live_rows w' cs"
proof -
  have "d \<in> set (w_credits w')" if "d \<in> set cs" for d
  proof (rule moved_others [OF assms(2)])
    show "d \<in> set (w_credits w)" using assms(1) that by (simp add: live_rows_def)
    show "rc_id d \<noteq> rc_id c" using live_rows_Cons(4) [OF assms(1)] that by (metis imageI)
  qed
  thus ?thesis using assms(1) by (simp add: live_rows_def)
qed

lemma live_rows_sorted:
  assumes "ledger_inv w" "\<And>c. P c \<Longrightarrow> 0 < rc_remaining c \<and> rc_expired_at c = None"
  shows "live_rows w (sort_key k (filter P (w_credits w)))"
proof -
  have "distinct (map rc_id (filter P (w_credits w)))"
    using assms(1) by (simp add: ledger_inv_def distinct_map_filter)
  hence "inj_on rc_id (set (filter P (w_credits w)))" "distinct (filter P (w_credits w))" by (simp_all add: distinct_map)
  hence "distinct (map rc_id (sort_key k (filter P (w_credits w))))" by (simp add: distinct_map)
  thus ?thesis using assms(2) by (auto simp: live_rows_def)
qed

lemma live_rows_take: "live_rows w cs \<Longrightarrow> live_rows w (take n cs)"
  by (auto simp: live_rows_def take_map [symmetric] dest: in_set_takeD)

lemma select_expired_live: "ledger_inv w \<Longrightarrow> live_rows w (select_expired_reward_credits env u now limit w)"
  unfolding select_expired_reward_credits_def Let_def by (auto intro!: live_rows_take live_rows_sorted)

lemma expire_credits_ok:
  assumes "ledger_inv w" "live_rows w cs" "expire_credits now cs w = Inr w'"
  shows "ledger_inv w' \<and> ledger_only w w' \<and> (\<forall>u. rewards w' u = rewards w u - total_remaining (of_user u cs))"
  using assms
proof (induction cs arbitrary: w)
  case (Cons c cs)
  obtain w1 where w1: "expire_reward_credit c now w = Inr w1" and rest: "expire_credits now cs w1 = Inr w'"
    using Cons.prems(3) by (auto elim: and_then_InrE)
  note c = live_rows_Cons [OF Cons.prems(2)]
  note m = expire_moved [OF Cons.prems(1) c(1,2,3) w1]
  have r: "rewards w1 u = rewards w u - (if rc_user c = u then rc_remaining c else 0)" for u
    using moved_rewards [OF Cons.prems(1) c(1) refl m] c(3) by (simp add: reward_part_def)
  have "ledger_inv w1" "ledger_only w w1" using m by (simp_all add: moved_def)
  thus ?case using Cons.IH [OF _ live_rows_moved [OF Cons.prems(2) m] rest] r
    by (auto simp: of_user_def intro: ledger_only_trans)
qed (simp add: of_user_def)

lemma scaled_total: "ledger_inv w \<Longrightarrow> live_rows w cs \<Longrightarrow> scaled (total_remaining cs)"
  by (auto simp: live_rows_def intro!: scaled_sum_list credit_okD(3) ledger_credit(1))

lemma subtract_expired_ok:
  assumes "wallet_inv w" "scaled a" "subtract_expired_reward_balance u a w = Inr w'"
  shows "wallet_inv w' \<and> (\<forall>v. rewards w' v = rewards w v \<and> frozen w' v = frozen w v \<and>
    balance w' v = balance w v - (if v = u then a else 0))"
proof -
  obtain r where "update_user u (\<lambda>_. True) (- a) 0 w = Some (r, w')"
    using assms(3) by (auto simp: subtract_expired_reward_balance_def split: option.splits)
  thus ?thesis using update_user_layers [OF assms(1) _ scaled_minus [OF assms(2)] scaled_0] by auto
qed

text \<open>What expired at \<open>now\<close> and is not locked by others.\<close>

definition expiring :: "wallet_env \<Rightarrow> int \<Rightarrow> time \<Rightarrow> wallet \<Rightarrow> rat" where
  "expiring env u now w = total_remaining (select_expired_reward_credits env u now 0 w)"

lemma select_expired_user:
  "0 < u \<Longrightarrow> of_user v (select_expired_reward_credits env u now 0 w) =
     (if v = u then select_expired_reward_credits env u now 0 w else [])"
  by (auto simp: of_user_def select_expired_reward_credits_def Let_def filter_id_conv filter_empty_conv)

lemma expire_for_user_ok:
  assumes inv: "wallet_inv w" and u: "0 < u" and run: "expire_reward_credits_for_user env u now w = Inr (x, w')"
  shows "wallet_inv w' \<and> x = expiring env u now w \<and> (\<forall>v. frozen w' v = frozen w v \<and> account w' v = account w v \<and>
    rewards w' v = rewards w v - (if v = u then expiring env u now w else 0))"
proof -
  define cs where "cs = select_expired_reward_credits env u now 0 w"
  have x: "expiring env u now w = total_remaining cs" by (simp add: expiring_def cs_def)
  have linv: "ledger_inv w" using inv by (rule wallet_inv_ledger)
  have live: "live_rows w cs" using select_expired_live [OF linv] by (simp add: cs_def)
  show ?thesis
  proof (cases "cs = []")
    case True
    thus ?thesis using run inv x by (simp add: expire_reward_credits_for_user_def Let_def cs_def [symmetric])
  next
    case False
    then obtain w1 where w1: "expire_credits now cs w = Inr w1"
      and sub: "subtract_expired_reward_balance u (total_remaining cs) w1 = Inr w'" and xx: "x = total_remaining cs"
      using run by (auto simp: expire_reward_credits_for_user_def Let_def cs_def [symmetric] elim!: and_then_InrE)
    note e = expire_credits_ok [OF linv live w1]
    have inv1: "wallet_inv w1" using ledger_step_wallet inv e by blast
    note s = subtract_expired_ok [OF inv1 scaled_total [OF linv live] sub]
    have "total_remaining (of_user v cs) = (if v = u then total_remaining cs else 0)" for v
      using select_expired_user [OF u, of v env now w] by (simp add: cs_def)
    thus ?thesis using e s xx x by (auto simp: account_def ledger_only_layers)
  qed
qed

section \<open>Paying and reserving from credits\<close>

definition rows_of :: "wallet \<Rightarrow> int \<Rightarrow> reward_credit list \<Rightarrow> bool" where
  "rows_of w u cs \<longleftrightarrow> live_rows w cs \<and> (\<forall>c \<in> set cs. rc_user c = u)"

lemma usable_rows: "ledger_inv w \<Longrightarrow> rows_of w u (usable_credits u now types w)"
  unfolding usable_credits_def rows_of_def by (auto intro!: live_rows_sorted)

lemma take_from_bounds:
  assumes "scaled left" "scaled (rc_remaining c)" "0 < left" "0 < rc_remaining c"
  shows "scaled (take_from left c)" "0 < take_from left c" "take_from left c \<le> rc_remaining c" "take_from left c \<le> left"
    "take_from left c = min left (rc_remaining c)"
  using assms by (auto simp: take_from_def)

text \<open>
  Paying and reserving take an amount out of a list of credits, the credit that expires first
  first. The contract: an empty list or an amount that is used up changes nothing, and otherwise
  the first credit gives what it can and the rest of the list the rest.
\<close>

locale credit_drain =
  fixes drain :: "reward_credit list \<Rightarrow> rat \<Rightarrow> wallet \<Rightarrow> go_error + wallet"
  assumes drain_Nil: "drain [] left w = Inr w' \<Longrightarrow> w' = w"
    and drain_done: "left \<le> eps \<Longrightarrow> drain (c # cs) left w = Inr w' \<Longrightarrow> w' = w"
    and drain_step: "ledger_inv w \<Longrightarrow> c \<in> set (w_credits w) \<Longrightarrow> rc_expired_at c = None \<Longrightarrow> \<not> left \<le> eps \<Longrightarrow>
      a = take_from left c \<Longrightarrow> 0 < a \<Longrightarrow> a \<le> rc_remaining c \<Longrightarrow> scaled a \<Longrightarrow> drain (c # cs) left w = Inr w' \<Longrightarrow>
      \<exists>w1 f. moved w w1 (rc_id c) f \<and>
        (\<forall>v. reward_part v (f c) = reward_part v c - (if v = rc_user c then a else 0)) \<and>
        drain cs (left - a) w1 = Inr w'"
begin

lemma drained:
  assumes "ledger_inv w" "rows_of w u cs" "scaled left" "0 \<le> left" "drain cs left w = Inr w'"
  shows "ledger_inv w' \<and> ledger_only w w' \<and>
    (\<forall>v. rewards w' v = rewards w v - (if v = u then min left (total_remaining cs) else 0))"
  using assms
proof (induction cs arbitrary: w left)
  case Nil
  thus ?case using drain_Nil by fastforce
next
  case (Cons c cs)
  note live = Cons.prems(2) [unfolded rows_of_def, THEN conjunct1]
  note c = live_rows_Cons [OF live]
  have tot: "0 \<le> total_remaining cs"
    using live by (intro sum_list_nonneg) (auto simp: live_rows_def intro: less_imp_le)
  have uc: "rc_user c = u" using Cons.prems(2) by (simp add: rows_of_def)
  note cok = credit_okD [OF ledger_credit(1) [OF Cons.prems(1) c(1)]]
  show ?case
  proof (cases "left \<le> eps")
    case True
    hence "left = 0" "w' = w" using Cons.prems(3,4) drain_done [OF True Cons.prems(5)] by auto
    thus ?thesis using Cons.prems(1) tot c(2) by (simp add: min_def)
  next
    case False
    hence pos: "0 < left" using Cons.prems(3) by simp
    let ?a = "take_from left c"
    note a = take_from_bounds [OF Cons.prems(3) cok(3) pos c(2)]
    obtain w1 f where m: "moved w w1 (rc_id c) f"
      and f: "\<And>v. reward_part v (f c) = reward_part v c - (if v = rc_user c then ?a else 0)"
      and rest: "drain cs (left - ?a) w1 = Inr w'"
      using drain_step [OF Cons.prems(1) c(1,3) False refl a(2,3,1) Cons.prems(5)] by blast
    have r: "rewards w1 v = rewards w v - (if v = u then ?a else 0)" for v
      using moved_rewards [OF Cons.prems(1) c(1) refl m] f uc by auto
    have rows: "rows_of w1 u cs" using Cons.prems(2) live_rows_moved [OF live m] by (simp add: rows_of_def)
    have "ledger_inv w' \<and> ledger_only w1 w' \<and>
      (\<forall>v. rewards w' v = rewards w1 v - (if v = u then min (left - ?a) (total_remaining cs) else 0))"
      using Cons.IH [OF _ rows scaled_diff [OF Cons.prems(3) a(1)] _ rest] m a(4) by (simp add: moved_def)
    moreover have "?a + min (left - ?a) (total_remaining cs) = min left (rc_remaining c + total_remaining cs)"
      using a(5) tot by (auto simp: min_def)
    ultimately show ?thesis using r m by (auto simp: moved_def intro: ledger_only_trans)
  qed
qed

end

interpretation consume: credit_drain "consume_credits u key now" for u key now
proof
  fix c cs left w w' a
  assume A: "ledger_inv w" "c \<in> set (w_credits w)" "rc_expired_at c = None" "\<not> left \<le> eps"
    "a = take_from left c" "0 < a" "a \<le> rc_remaining c" "scaled a" "consume_credits u key now (c # cs) left w = Inr w'"
  obtain w1 w2 where upd: "update_credit (rc_id c) (\<lambda>r. a \<le> rc_remaining r + eps) (consume_credit a now) w = Inr (1, w1)"
    and ev: "insert_event (rc_id c) u Ev_Consume key a w1 = Inr w2"
    and rest: "consume_credits u key now cs (left - a) w2 = Inr w'"
    using A(4,5,9) by (auto simp: Let_def elim!: and_then_InrE split: if_splits)
  have "scaled (rc_remaining c - a)" using ledger_credit(1) [OF A(1,2)] A(8) by (auto dest: credit_okD(3))
  thus "\<exists>w1 f. moved w w1 (rc_id c) f \<and>
      (\<forall>v. reward_part v (f c) = reward_part v c - (if v = rc_user c then a else 0)) \<and>
      consume_credits u key now cs (left - a) w1 = Inr w'"
    using consume_moved [OF A(1,2,6,7,8) upd ev] rest A(3)
    by (intro exI [of _ w2] exI [of _ "consume_credit a now"]) (auto simp: reward_part_def consume_credit_def)
qed auto

interpretation reserve: credit_drain "reserve_credits cmd" for cmd
proof
  fix c cs left w w' a
  assume A: "ledger_inv w" "c \<in> set (w_credits w)" "rc_expired_at c = None" "\<not> left \<le> eps"
    "a = take_from left c" "0 < a" "a \<le> rc_remaining c" "scaled a" "reserve_credits cmd (c # cs) left w = Inr w'"
  obtain w1 w2 w3 where upd: "update_credit (rc_id c) (\<lambda>r. a \<le> rc_remaining r + eps) (reserve_credit a) w = Inr (1, w1)"
    and al: "insert_allocation (hold_request_id (hc_batch cmd)) (rc_id c) (hc_user cmd) a (rc_expires_at c) w1 = Inr w2"
    and ev: "insert_event (rc_id c) (hc_user cmd) Ev_Reserve (hc_request cmd) a w2 = Inr w3"
    and rest: "reserve_credits cmd cs (left - a) w3 = Inr w'"
    using A(4,5,9) by (auto simp: Let_def elim!: and_then_InrE split: if_splits)
  have "scaled (rc_remaining c - a)" using ledger_credit(1) [OF A(1,2)] A(8) by (auto dest: credit_okD(3))
  thus "\<exists>w1 f. moved w w1 (rc_id c) f \<and>
      (\<forall>v. reward_part v (f c) = reward_part v c - (if v = rc_user c then a else 0)) \<and>
      reserve_credits cmd cs (left - a) w1 = Inr w'"
    using reserve_moved [OF A(1,2,6,7,8) upd al ev] rest A(3)
    by (intro exI [of _ w3] exI [of _ "reserve_credit a"]) (auto simp: reward_part_def reserve_credit_def)
qed auto

lemma try_consume_ok:
  assumes inv: "wallet_inv w" and a: "scaled amount"
    and run: "try_consume_reward_layer u types amount key now w = Inr (b, w')"
  shows "wallet_inv w' \<and> (b = None \<longrightarrow> w' = w) \<and> (b \<noteq> None \<longrightarrow> 0 < amount \<and>
    (\<forall>v. frozen w' v = frozen w v \<and> account w' v = account w v \<and>
      rewards w' v = rewards w v - (if v = u then amount else 0)))"
proof (cases "b")
  case None
  thus ?thesis using run inv
    by (auto simp: try_consume_reward_layer_def Let_def elim!: and_then_InrE split: if_splits option.splits)
next
  case (Some x)
  let ?cs = "usable_credits u now types w"
  have linv: "ledger_inv w" using inv by (rule wallet_inv_ledger)
  note rows = usable_rows [OF linv, of u now types]
  obtain w1 r where pos: "0 < amount" and enough: "\<not> total_remaining ?cs + eps < amount"
    and w1: "consume_credits u key now ?cs amount w = Inr w1"
    and upd: "update_user u (\<lambda>_. True) (- amount) 0 w1 = Some (r, w')"
    using run Some by (auto simp: try_consume_reward_layer_def Let_def elim!: and_then_InrE split: if_splits option.splits)
  have "scaled (total_remaining ?cs)" using scaled_total [OF linv] rows by (simp add: rows_of_def)
  hence tot: "min amount (total_remaining ?cs) = amount" using enough a by (simp add: min_def)
  note d = consume.drained [OF linv rows a less_imp_le [OF pos] w1]
  have inv1: "wallet_inv w1" using ledger_step_wallet inv d by blast
  note l = update_user_layers [OF inv1 upd scaled_minus [OF a] scaled_0]
  show ?thesis using d l Some pos tot by (auto simp: account_def ledger_only_layers)
qed

lemma try_reserve_ok:
  assumes inv: "wallet_inv w" and a: "scaled (hc_hold cmd)" "0 < hc_hold cmd"
    and run: "try_reserve_batch_image_reward_layer cmd types src now w = Inr (b, w')"
  shows "wallet_inv w' \<and> (b = None \<longrightarrow> w' = w) \<and> (b \<noteq> None \<longrightarrow>
    (\<forall>v. frozen w' v = frozen w v + (if v = hc_user cmd then hc_hold cmd else 0) \<and> account w' v = account w v \<and>
      rewards w' v = rewards w v - (if v = hc_user cmd then hc_hold cmd else 0)))"
proof (cases "b")
  case None
  thus ?thesis using run inv
    by (auto simp: try_reserve_batch_image_reward_layer_def Let_def elim!: and_then_InrE split: if_splits option.splits)
next
  case (Some x)
  let ?cs = "usable_credits (hc_user cmd) now types w"
  have linv: "ledger_inv w" using inv by (rule wallet_inv_ledger)
  note rows = usable_rows [OF linv, of "hc_user cmd" now types]
  obtain w1 r where enough: "\<not> total_remaining ?cs + eps < hc_hold cmd"
    and w1: "reserve_credits cmd ?cs (hc_hold cmd) w = Inr w1"
    and upd: "update_user (hc_user cmd) (\<lambda>_. True) (- hc_hold cmd) (hc_hold cmd) w1 = Some (r, w')"
    using run Some
    by (auto simp: try_reserve_batch_image_reward_layer_def Let_def elim!: and_then_InrE split: if_splits option.splits)
  have "scaled (total_remaining ?cs)" using scaled_total [OF linv] rows by (simp add: rows_of_def)
  hence tot: "min (hc_hold cmd) (total_remaining ?cs) = hc_hold cmd" using enough a by (simp add: min_def)
  note d = reserve.drained [OF linv rows a(1) less_imp_le [OF a(2)] w1]
  have inv1: "wallet_inv w1" using ledger_step_wallet inv d by blast
  note l = update_user_layers [OF inv1 upd scaled_minus [OF a(1)] a(1)]
  show ?thesis using d l Some tot by (auto simp: account_def ledger_only_layers)
qed

section \<open>Settling holds\<close>

definition hold_rows :: "wallet \<Rightarrow> reward_allocation list \<Rightarrow> bool" where
  "hold_rows w ls \<longleftrightarrow> distinct (map al_id ls) \<and> set ls \<subseteq> set (w_allocs w)"

lemma outstanding_ok:
  assumes "ledger_inv w" "l \<in> set (w_allocs w)"
  shows "scaled (outstanding l)" "0 \<le> outstanding l"
  using ledger_allocs(2) [OF assms] by (auto simp: allocation_ok_def allocation_checks_def outstanding_def intro!: scaled_diff)

definition unsettled :: "wallet \<Rightarrow> int \<Rightarrow> rat" where
  "unsettled w i = sum_list (map outstanding (filter (\<lambda>l. al_id l = i) (w_allocs w)))"

lemma hold_rows_Cons:
  assumes "hold_rows w (l # ls)"
  shows "l \<in> set (w_allocs w)" "hold_rows w ls" "al_id l \<notin> al_id ` set ls"
  using assms by (auto simp: hold_rows_def)

lemma hold_rows_settled:
  assumes "hold_rows w (l # ls)" "w_allocs w' = map (\<lambda>x. if al_id x = al_id l then f x else x) (w_allocs w)"
  shows "hold_rows w' ls"
proof -
  have "x \<in> set (w_allocs w')" if "x \<in> set ls" for x
  proof -
    have "x \<in> set (w_allocs w)" "al_id x \<noteq> al_id l"
      using hold_rows_Cons [OF assms(1)] that by (auto simp: hold_rows_def) (metis imageI)
    thus ?thesis unfolding assms(2) by force
  qed
  thus ?thesis using assms(1) by (auto simp: hold_rows_def)
qed

text \<open>
  What a settlement of \<open>left\<close> gives back: each allocation in turn covers what is left of the cost, and
  what it has over returns to the balance, unless it has expired.
\<close>

fun give_back :: "time \<Rightarrow> reward_allocation list \<Rightarrow> rat \<Rightarrow> rat" where
  "give_back now [] left = 0"
| "give_back now (l # ls) left =
     (if al_expires_at l \<le> now then 0 else outstanding l - min left (outstanding l)) +
     give_back now ls (left - min left (outstanding l))"

text \<open>
  The allocations of a hold come in the order of their expiry, so the expired ones cover the cost
  first: of the rest of the hold as much returns as the live ones have outstanding.
\<close>

definition live_outstanding :: "time \<Rightarrow> reward_allocation list \<Rightarrow> rat" where
  "live_outstanding now ls = sum_list (map outstanding (filter (\<lambda>l. now < al_expires_at l) ls))"

lemma live_outstanding_bounds:
  "\<forall>l \<in> set ls. 0 \<le> outstanding l \<Longrightarrow>
     0 \<le> live_outstanding now ls \<and> live_outstanding now ls \<le> sum_list (map outstanding ls)"
  by (induction ls) (auto simp: live_outstanding_def)

lemma live_outstanding_all:
  "\<forall>l \<in> set ls. now < al_expires_at l \<Longrightarrow> live_outstanding now ls = sum_list (map outstanding ls)"
  by (simp add: live_outstanding_def)

lemma give_back_closed:
  assumes "sorted (map al_expires_at ls)" "\<forall>l \<in> set ls. 0 \<le> outstanding l" "0 \<le> left"
  shows "give_back now ls left = min (live_outstanding now ls) (max 0 (sum_list (map outstanding ls) - left))"
  using assms
proof (induction ls arbitrary: left)
  case (Cons l ls)
  let ?o = "outstanding l"
  let ?left = "left - min left ?o"
  have ih: "give_back now ls ?left = min (live_outstanding now ls) (max 0 (sum_list (map outstanding ls) - ?left))"
    using Cons by simp
  have b: "0 \<le> ?o" "0 \<le> live_outstanding now ls" "live_outstanding now ls \<le> sum_list (map outstanding ls)"
    using live_outstanding_bounds [of ls] Cons.prems(2) by simp_all
  show ?case
  proof (cases "al_expires_at l \<le> now")
    case True
    hence "live_outstanding now (l # ls) = live_outstanding now ls" by (simp add: live_outstanding_def)
    thus ?thesis using True ih b Cons.prems(3) by (auto simp: min_def max_def)
  next
    case False
    hence "\<forall>x \<in> set (l # ls). now < al_expires_at x" using Cons.prems(1) by (auto simp: less_le_trans)
    hence "live_outstanding now (l # ls) = ?o + sum_list (map outstanding ls)"
      "live_outstanding now ls = sum_list (map outstanding ls)"
      using live_outstanding_all [of "l # ls" now] live_outstanding_all [of ls now] by simp_all
    thus ?thesis using False ih b Cons.prems(3) by (auto simp: min_def max_def)
  qed
qed (simp add: live_outstanding_def)

lemma settle_each_ok:
  assumes "ledger_inv w" "hold_rows w ls" "scaled left" "0 \<le> left" "hc_request cmd \<noteq> ''auto-expiry''"
    "settle_each cmd now ls left t w = Inr (t', w')"
  shows "ledger_inv w' \<and> ledger_only w w' \<and> scaled (t' - t) \<and> t' - t = give_back now ls left"
  using assms
proof (induction ls arbitrary: w left t)
  case (Cons l ls)
  note l = hold_rows_Cons [OF Cons.prems(2)]
  note out = outstanding_ok [OF Cons.prems(1) l(1)]
  let ?o = "outstanding l"
  show ?case
  proof (cases "?o \<le> eps")
    case True
    hence o: "?o = 0" using out by simp
    hence "give_back now (l # ls) left = give_back now ls left" using Cons.prems(4) by (simp add: min_absorb2)
    moreover have "settle_each cmd now ls left t w = Inr (t', w')" using Cons.prems(6) True by simp
    ultimately show ?thesis using Cons.IH [OF Cons.prems(1) l(2) Cons.prems(3,4,5)] by metis
  next
    case False
    hence pos: "0 < ?o" using out(1) by simp
    define captured where "captured = (if left < ?o then left else ?o)"
    define unused where "unused = ?o - captured"
    define lapsed where "lapsed = (al_expires_at l \<le> now)"
    define restored where "restored = (if lapsed then 0 else unused)"
    define expired where "expired = (if lapsed then unused else 0)"
    note defs = captured_def unused_def lapsed_def restored_def expired_def
    have cap: "scaled captured" "0 \<le> captured" "captured \<le> ?o" "captured = min left ?o"
      using Cons.prems(3,4) out by (auto simp: captured_def)
    have un: "scaled unused" "0 \<le> unused" using cap out by (auto simp: unused_def)
    have parts: "scaled restored" "scaled expired" "0 \<le> restored" "0 \<le> expired" "unused = restored + expired"
      using un by (auto simp: restored_def expired_def)
    obtain w1 w2 w3 w4 w5 where
      st: "update_credit (al_credit l) (\<lambda>r. ?o \<le> rc_reserved r + eps) (settle_credit ?o restored captured expired now) w = Inr (1, w1)"
        "update_allocation (al_id l) captured unused w1 = Inr (1, w2)"
        "insert_batch_image_reward_event cmd (al_credit l) Ev_Capture captured w2 = Inr w3"
        "insert_batch_image_reward_event cmd (al_credit l) Ev_Release restored w3 = Inr w4"
        "insert_batch_image_reward_event cmd (al_credit l) Ev_Expire expired w4 = Inr w5"
      and rest: "settle_each cmd now ls (left - captured) (if eps < restored then t + restored else t) w5 = Inr (t', w')"
      using Cons.prems(6) False
      unfolding settle_each.simps Let_def captured_def [symmetric] unused_def [symmetric] lapsed_def [symmetric]
        restored_def [symmetric] expired_def [symmetric]
      by (auto simp: if_Inl_eq_Inr elim!: and_then_InrE)
    have o: "?o = captured + unused" by (simp add: unused_def)
    note m = settle_moved [OF Cons.prems(1) l(1) pos cap(1) parts(1,2) cap(2) parts(3,4) o parts(5) Cons.prems(5) st]
    have t1: "(if eps < restored then t + restored else t) = t + restored"
      using parts(3) le_eps_iff [OF parts(1)] by (auto simp: not_less)
    have l1: "scaled (left - captured)" "0 \<le> left - captured" using Cons.prems(3,4) cap by auto
    have inv5: "ledger_inv w5" "ledger_only w w5" using m(1) by (simp_all add: moved_def)
    note ih = Cons.IH [OF inv5(1) hold_rows_settled [OF Cons.prems(2) m(2)] l1 Cons.prems(5) rest, unfolded t1]
    have tt: "t' - t = (t' - (t + restored)) + restored" by simp
    have "scaled (t' - t)" unfolding tt using ih parts(1) by (intro scaled_add) blast+
    moreover have "t' - t = give_back now (l # ls) left"
    proof -
      have "t' - t = restored + give_back now ls (left - captured)" using tt ih by simp
      thus ?thesis by (simp add: restored_def lapsed_def unused_def cap(4))
    qed
    moreover have "ledger_only w w'" using ih inv5(2) ledger_only_trans by blast
    ultimately show ?thesis using ih by blast
  qed
qed simp

end
