(* ===== verification/Wallet_Books.thy ===== *)
theory Wallet_Books
  imports Batch_Hold
begin

text \<open>
  What the operations on credits and balances leave alone: the claims, the archive, the
  subscriptions, the API keys, the accounts and the outbox. And the claims: a claim once made stays
  in the claims or in the archive, and an operation that reports that it was applied has made one
  that was not there.
\<close>

section \<open>Frames\<close>

definition books :: "wallet \<Rightarrow> wallet \<Rightarrow> bool" where
  "books w w' \<longleftrightarrow> w_claims w' = w_claims w \<and> w_archive w' = w_archive w \<and> w_subs w' = w_subs w \<and>
     w_keys w' = w_keys w \<and> w_accounts w' = w_accounts w \<and> w_outbox w' = w_outbox w"

named_theorems keeps_books \<open>operations that leave the books alone\<close>

lemma books_refl [simp]: "books w w"
  by (simp add: books_def)

lemma books_trans [trans]: "books a b \<Longrightarrow> books b c \<Longrightarrow> books a c"
  by (simp add: books_def)

lemma update_user_books [keeps_books]: "update_user u g db df w = Some (r, w') \<Longrightarrow> books w w'"
  by (auto simp: update_user_def Let_def books_def split: option.splits if_splits)

lemma update_credit_books [keeps_books]: "update_credit i P f w = Inr (n, w') \<Longrightarrow> books w w'"
  by (auto simp: update_credit_def Let_def books_def split: if_splits)

lemma insert_event_books [keeps_books]: "insert_event c u t k a w = Inr w' \<Longrightarrow> books w w'"
  by (auto simp: insert_event_def books_def split: if_splits)

lemma insert_event_once_books [keeps_books]: "insert_event_once c u t k a w = Inr w' \<Longrightarrow> books w w'"
  by (auto simp: insert_event_once_def keeps_books split: if_splits)

lemma expire_reward_credit_books [keeps_books]: "expire_reward_credit c now w = Inr w' \<Longrightarrow> books w w'"
  by (auto simp: books_def expire_reward_credit_def elim!: and_then_InrE dest!: keeps_books)

lemma expire_credits_books [keeps_books]: "expire_credits now cs w = Inr w' \<Longrightarrow> books w w'"
  by (induction cs arbitrary: w) (auto elim!: and_then_InrE dest!: keeps_books, (blast intro: books_trans)+)

lemma subtract_expired_books [keeps_books]: "subtract_expired_reward_balance u a w = Inr w' \<Longrightarrow> books w w'"
  by (auto simp: subtract_expired_reward_balance_def intro: keeps_books split: option.splits)

lemma subtract_each_books [keeps_books]: "subtract_each us w = Inr w' \<Longrightarrow> books w w'"
  by (induction us arbitrary: w) (auto elim!: and_then_InrE dest!: keeps_books, (blast intro: books_trans)+)

lemma expire_for_user_books [keeps_books]: "expire_reward_credits_for_user env u now w = Inr (x, w') \<Longrightarrow> books w w'"
  by (auto simp: books_def expire_reward_credits_for_user_def Let_def elim!: and_then_InrE dest!: keeps_books split: if_splits)

lemma expire_batch_books [keeps_books]: "expire_batch env n w = Inr (x, w') \<Longrightarrow> books w w'"
  by (auto simp: books_def expire_batch_def Let_def elim!: and_then_InrE dest!: keeps_books split: if_splits)

lemma repo_grant_books [keeps_books]: "repo_grant g w = Inr (x, w') \<Longrightarrow> books w w'"
proof -
  assume r: "repo_grant g w = Inr (x, w')"
  have start: "books w (w\<lparr>w_credits := cs, w_next_credit := i\<rparr>)" for cs i by (simp add: books_def)
  show ?thesis using r
    by (auto simp: books_def repo_grant_def grant_reward_credit_def Let_def elim!: and_then_InrE
        dest!: keeps_books split: option.splits if_splits)
qed

lemma get_summary_books [keeps_books]: "get_summary env u w = Inr (x, w') \<Longrightarrow> books w w'"
  by (auto simp: get_summary_def Let_def elim!: and_then_InrE intro: keeps_books split: if_splits)

lemma consume_credits_books [keeps_books]: "consume_credits u key now cs left w = Inr w' \<Longrightarrow> books w w'"
  by (induction cs arbitrary: left w)
    (auto simp: Let_def elim!: and_then_InrE dest!: keeps_books split: if_splits, (blast intro: books_trans)+)

lemma try_consume_books [keeps_books]: "try_consume_reward_layer u ts a key now w = Inr (x, w') \<Longrightarrow> books w w'"
  by (auto simp: books_def try_consume_reward_layer_def Let_def elim!: and_then_InrE dest!: keeps_books
      split: if_splits option.splits)

lemma reward_layer_books [keeps_books]: "apply_usage_billing_reward_layer env c res w = Inr (x, y, w') \<Longrightarrow> books w w'"
  by (auto simp: books_def apply_usage_billing_reward_layer_def Let_def elim!: and_then_InrE dest!: keeps_books
      split: if_splits option.splits)

lemma pay_from_account_books [keeps_books]: "pay_from_account u cost res w = Inr (x, w') \<Longrightarrow> books w w'"
  by (auto simp: pay_from_account_def deduct_usage_billing_balance_def elim!: and_then_InrE intro: keeps_books
      split: option.splits)

lemma insert_allocation_books [keeps_books]: "insert_allocation k c u a t w = Inr w' \<Longrightarrow> books w w'"
  by (auto simp: insert_allocation_def books_def split: if_splits)

lemma reserve_credits_books [keeps_books]: "reserve_credits cmd cs left w = Inr w' \<Longrightarrow> books w w'"
  by (induction cs arbitrary: left w)
    (auto simp: Let_def elim!: and_then_InrE dest!: keeps_books split: if_splits, (blast intro: books_trans)+)

lemma try_reserve_books [keeps_books]: "try_reserve_batch_image_reward_layer cmd ts src now w = Inr (x, w') \<Longrightarrow> books w w'"
  by (auto simp: books_def try_reserve_batch_image_reward_layer_def Let_def elim!: and_then_InrE dest!: keeps_books
      split: if_splits option.splits)

lemma reserve_books [keeps_books]: "reserve_usage_billing_batch_image_balance env cmd w = Inr (x, w') \<Longrightarrow> books w w'"
  by (auto simp: books_def reserve_usage_billing_batch_image_balance_def reserve_rewards_def reserve_from_account_def Let_def
      elim!: and_then_InrE dest!: keeps_books split: if_splits option.splits)

lemma update_allocation_books [keeps_books]: "update_allocation i p q w = Inr (n, w') \<Longrightarrow> books w w'"
  by (auto simp: update_allocation_def books_def split: if_splits)

lemma batch_event_books [keeps_books]: "insert_batch_image_reward_event cmd c t a w = Inr w' \<Longrightarrow> books w w'"
  by (auto simp: insert_batch_image_reward_event_def intro: keeps_books split: if_splits)

lemma settle_each_books [keeps_books]: "settle_each cmd now ls left t w = Inr (x, w') \<Longrightarrow> books w w'"
  by (induction ls arbitrary: left t w)
    (auto simp: Let_def elim!: and_then_InrE dest!: keeps_books split: if_split_asm, (blast intro: books_trans)+)

lemma settle_batch_books [keeps_books]:
  "settle_batch_image_reward_allocations cmd ls now w = Inr (x, w') \<Longrightarrow> books w w'"
  by (auto simp: books_def settle_batch_image_reward_allocations_def Let_def elim!: and_then_InrE dest!: keeps_books
      split: if_splits option.splits)

lemma settle_rewards_books [keeps_books]: "settle_rewards env cmd w = Inr (x, w') \<Longrightarrow> books w w'"
  by (auto simp: books_def settle_rewards_def Let_def elim!: and_then_InrE dest!: keeps_books split: if_splits)

lemma settle_account_books [keeps_books]: "settle_account cmd a w = Inr (x, w') \<Longrightarrow> books w w'"
  by (auto simp: settle_account_def intro: keeps_books split: option.splits)

lemma capture_books [keeps_books]: "capture_usage_billing_batch_image_balance env cmd w = Inr (x, w') \<Longrightarrow> books w w'"
  by (auto simp: books_def capture_usage_billing_batch_image_balance_def elim!: and_then_InrE dest!: keeps_books
      split: if_splits option.splits)

lemma release_books [keeps_books]: "release_usage_billing_batch_image_balance env cmd w = Inr (x, w') \<Longrightarrow> books w w'"
  by (auto simp: books_def release_usage_billing_batch_image_balance_def elim!: and_then_InrE dest!: keeps_books
      split: if_splits option.splits)

section \<open>Operations that take effect at most once\<close>

text \<open>
  A store whose operations may claim a key. The contract: a claim is never lost, and an operation
  that reports a key claimed it just now. The client's lemma: in every run at most one operation
  reports a given key, and none does once it is claimed.
\<close>

fun run_ops :: "('op \<Rightarrow> 'db \<Rightarrow> 'r \<times> 'db) \<Rightarrow> 'op list \<Rightarrow> 'db \<Rightarrow> 'r list \<times> 'db" where
  "run_ops exec [] db = ([], db)"
| "run_ops exec (o1 # os) db = (case exec o1 db of (r, db1) \<Rightarrow>
     (case run_ops exec os db1 of (rs, db2) \<Rightarrow> (r # rs, db2)))"

locale at_most_once =
  fixes exec :: "'op \<Rightarrow> 'db \<Rightarrow> 'k option \<times> 'db" and claimed :: "'db \<Rightarrow> 'k \<Rightarrow> bool"
  assumes claim_kept: "claimed db k \<Longrightarrow> claimed (snd (exec op1 db)) k"
    and claim_fresh: "fst (exec op1 db) = Some k \<Longrightarrow> \<not> claimed db k \<and> claimed (snd (exec op1 db)) k"
begin

lemma none_after_claim: "claimed db k \<Longrightarrow> Some k \<notin> set (fst (run_ops exec os db))"
proof (induction os arbitrary: db)
  case (Cons o1 os)
  have "fst (exec o1 db) \<noteq> Some k" using claim_fresh Cons.prems by blast
  thus ?case using Cons.IH [OF claim_kept [OF Cons.prems, of o1]] by (auto simp: split_beta)
qed simp

lemma one_claim: "count_list (fst (run_ops exec os db)) (Some k) \<le> 1"
proof (induction os arbitrary: db)
  case (Cons o1 os)
  show ?case
  proof (cases "fst (exec o1 db) = Some k")
    case True
    hence "Some k \<notin> set (fst (run_ops exec os (snd (exec o1 db))))"
      using none_after_claim claim_fresh by blast
    thus ?thesis by (simp add: split_beta)
  next
    case False
    thus ?thesis using Cons.IH by (simp add: split_beta)
  qed
qed simp

end

datatype wallet_op =
    Do_Apply usage_cmd
  | Do_Reserve hold_cmd
  | Do_Capture hold_cmd
  | Do_Release hold_cmd
  | Do_Grant reward_grant
  | Do_Expire_User int
  | Do_Expire_Batch int
  | Do_Summary int
  | Do_Archive "claim \<Rightarrow> bool" time
  | Do_Adjust int rat

text \<open>
  \<open>Do_Adjust\<close> is a committed change of a balance by another part of the system (a redeemed code, an
  administrator). The answer of a step is the request that it settled, if any. A failed transaction
  rolls back; a transaction whose commit is not acknowledged is a step whose answer is lost.
\<close>

definition commit :: "('r \<Rightarrow> 'k option) \<Rightarrow> wallet \<Rightarrow> go_error + 'r \<times> wallet \<Rightarrow> 'k option \<times> wallet" where
  "commit f w res = (case res of Inl _ \<Rightarrow> (None, w) | Inr (r, w') \<Rightarrow> (f r, w'))"

definition hold_key :: "hold_cmd \<Rightarrow> hold_result \<Rightarrow> (string \<times> int) option" where
  "hold_key c r = (if hr_applied r then Some (trim_space (hc_request c), hc_api_key c) else None)"

definition usage_key :: "usage_cmd \<Rightarrow> apply_result \<Rightarrow> (string \<times> int) option" where
  "usage_key c r = (if ar_applied r then Some (trim_space (uc_request c), uc_api_key c) else None)"

fun wallet_step :: "(string \<Rightarrow> string) \<Rightarrow> (rat \<Rightarrow> string) \<Rightarrow> wallet_env \<times> wallet_op \<Rightarrow> wallet \<Rightarrow>
    (string \<times> int) option \<times> wallet" where
  "wallet_step sha f10 (env, Do_Apply c) w = commit (usage_key c) w (usage_apply sha f10 env c w)"
| "wallet_step sha f10 (env, Do_Reserve c) w = commit (hold_key c) w (reserve_batch_image_balance sha f10 env c w)"
| "wallet_step sha f10 (env, Do_Capture c) w = commit (hold_key c) w (capture_batch_image_balance sha f10 env c w)"
| "wallet_step sha f10 (env, Do_Release c) w = commit (hold_key c) w (release_batch_image_balance sha f10 env c w)"
| "wallet_step sha f10 (env, Do_Grant g) w = commit (\<lambda>_. None) w (repo_grant g w)"
| "wallet_step sha f10 (env, Do_Expire_User u) w = commit (\<lambda>_. None) w (expire_user env u w)"
| "wallet_step sha f10 (env, Do_Expire_Batch n) w = commit (\<lambda>_. None) w (expire_batch env n w)"
| "wallet_step sha f10 (env, Do_Summary u) w = commit (\<lambda>_. None) w (get_summary env u w)"
| "wallet_step sha f10 (env, Do_Archive victim cutoff) w = (None, archive_claims victim cutoff w)"
| "wallet_step sha f10 (env, Do_Adjust u a) w =
     (None, case update_user u (\<lambda>_. True) a 0 w of None \<Rightarrow> w | Some (_, w') \<Rightarrow> w')"

definition has_claim :: "wallet \<Rightarrow> string \<times> int \<Rightarrow> bool" where
  "has_claim w k \<longleftrightarrow> find_claim (fst k) (snd k) (w_claims w) \<noteq> None \<or> find_claim (fst k) (snd k) (w_archive w) \<noteq> None"

lemma books_claims: "books w w' \<Longrightarrow> has_claim w' k = has_claim w k"
  by (simp add: books_def has_claim_def)

lemma find_claim_append:
  "find_claim rid key (xs @ ys) = (case find_claim rid key xs of None \<Rightarrow> find_claim rid key ys | Some c \<Rightarrow> Some c)"
  unfolding find_claim_def by (rule find_append_if)

lemma find_claim_new [simp]: "cl_request c = rid \<Longrightarrow> cl_api_key c = key \<Longrightarrow> find_claim rid key [c] = Some c"
  by (simp add: find_claim_def)

lemma claim_kept_by_claiming:
  "claim_usage_billing_request env rid key fp w = Inr (b, w') \<Longrightarrow> has_claim w k \<Longrightarrow> has_claim w' k"
  by (auto simp: claim_usage_billing_request_def claim_verdict_def Let_def has_claim_def find_claim_append
      elim!: and_then_InrE split: option.splits if_splits)

lemma claim_made:
  "claim_usage_billing_request env rid key fp w = Inr (True, w') \<Longrightarrow> \<not> has_claim w (rid, key) \<and> has_claim w' (rid, key)"
  by (auto simp: claim_usage_billing_request_def claim_verdict_def Let_def has_claim_def find_claim_append
      elim!: and_then_InrE split: option.splits if_splits)

lemma find_claim_not_None: "find_claim rid key cs \<noteq> None \<longleftrightarrow> (\<exists>c \<in> set cs. cl_request c = rid \<and> cl_api_key c = key)"
  by (auto simp: find_claim_def find_None_iff)

lemma archive_keeps_claims:
  assumes "has_claim w (rid, key)"
  shows "has_claim (archive_claims victim cutoff w) (rid, key)"
proof (cases "find_claim rid key (w_archive w)")
  case (Some c)
  thus ?thesis by (simp add: has_claim_def archive_claims_def Let_def find_claim_append)
next
  case None
  then obtain c where c: "c \<in> set (w_claims w)" "cl_request c = rid" "cl_api_key c = key"
    using assms by (auto simp: has_claim_def find_claim_not_None simp del: not_None_eq)
  show ?thesis
  proof (cases "cl_created_at c < cutoff \<and> victim c")
    case True
    hence "c \<in> set (w_archive (archive_claims victim cutoff w))" using c None by (simp add: archive_claims_def Let_def)
    thus ?thesis using c unfolding has_claim_def find_claim_not_None by auto
  next
    case False
    hence "c \<in> set (w_claims (archive_claims victim cutoff w))" using c by (simp add: archive_claims_def Let_def)
    thus ?thesis using c unfolding has_claim_def find_claim_not_None by auto
  qed
qed

definition same_claims :: "wallet \<Rightarrow> wallet \<Rightarrow> bool" where
  "same_claims w w' \<longleftrightarrow> w_claims w' = w_claims w \<and> w_archive w' = w_archive w"

lemma same_claims_trans: "same_claims a b \<Longrightarrow> same_claims b c \<Longrightarrow> same_claims a c"
  by (simp add: same_claims_def)

lemma books_same_claims: "books w w' \<Longrightarrow> same_claims w w'"
  by (simp add: books_def same_claims_def)

lemma key_quota_claims: "apply_key_quota c res w = Inr (r, w') \<Longrightarrow> same_claims w w'"
  by (auto simp: apply_key_quota_def increment_usage_billing_api_key_quota_def Let_def same_claims_def
      split: if_splits option.splits)

lemma key_rate_claims: "apply_key_rate env c w = Inr w' \<Longrightarrow> same_claims w w'"
  by (auto simp: apply_key_rate_def increment_usage_billing_api_key_rate_limit_def Let_def same_claims_def
      split: if_splits option.splits)

lemma account_quota_claims: "increment_usage_billing_account_quota env i a w = Inr (st, w') \<Longrightarrow> same_claims w w'"
  by (auto simp: increment_usage_billing_account_quota_def Let_def same_claims_def split: if_splits option.splits)

lemma quotas_claims: "apply_usage_billing_quotas env c res w = Inr (r, w') \<Longrightarrow> same_claims w w'"
  unfolding apply_usage_billing_quotas_def
  by (auto elim!: and_then_InrE dest!: key_quota_claims key_rate_claims account_quota_claims
      simp: same_claims_def split: if_splits)

lemma increment_subscription_claims:
  "increment_usage_billing_subscription env i x l w = Inr (y, w') \<Longrightarrow> same_claims w w'"
  by (auto simp: increment_usage_billing_subscription_def Let_def same_claims_def split: option.splits if_splits)

lemma subscription_claims: "apply_subscription env c res w = Inr (b, r, w') \<Longrightarrow> same_claims w w'"
  unfolding apply_subscription_def Let_def
  by (auto elim!: and_then_InrE dest!: increment_subscription_claims pay_from_account_books books_same_claims
      simp: same_claims_def split: option.splits if_splits)

lemma effects_claims:
  assumes "apply_usage_billing_effects env c res w = Inr (r, w')"
  shows "same_claims w w'"
proof -
  obtain funded res1 w1 where l: "apply_usage_billing_reward_layer env c res w = Inr (funded, res1, w1)"
    and next1: "(if funded then apply_usage_billing_quotas env c res1 w1
       else and_then (apply_subscription env c res1 w1) (\<lambda>(done, res2, w2).
         if done \<or> uc_balance_cost c \<le> 0 then apply_usage_billing_quotas env c res2 w2
         else and_then (pay_from_account (uc_user c) (uc_balance_cost c) res2 w2)
           (\<lambda>(res3, w3). apply_usage_billing_quotas env c res3 w3))) = Inr (r, w')"
    using assms unfolding apply_usage_billing_effects_def by (auto elim!: and_then_InrE)
  have "same_claims w1 w'" using next1
    by (auto elim!: and_then_InrE dest!: quotas_claims subscription_claims pay_from_account_books books_same_claims
        simp: same_claims_def split: if_splits)
  thus ?thesis using books_same_claims [OF reward_layer_books [OF l]] same_claims_trans by blast
qed

lemma has_claim_same: "same_claims w w' \<Longrightarrow> has_claim w' k = has_claim w k"
  by (simp add: same_claims_def has_claim_def)

lemma key_quota_applied: "apply_key_quota c res w = Inr (r, w') \<Longrightarrow> ar_applied r = ar_applied res"
  by (auto simp: apply_key_quota_def split: if_splits sum.splits)

lemma quotas_applied: "apply_usage_billing_quotas env c res w = Inr (r, w') \<Longrightarrow> ar_applied r = ar_applied res"
  unfolding apply_usage_billing_quotas_def
  by (auto elim!: and_then_InrE dest!: key_quota_applied split: if_splits)

lemma pay_applied: "pay_from_account u a res w = Inr (r, w') \<Longrightarrow> ar_applied r = ar_applied res"
  by (auto simp: pay_from_account_def funded_by_def elim!: and_then_InrE)

lemma subscription_applied: "apply_subscription env c res w = Inr (b, r, w') \<Longrightarrow> ar_applied r = ar_applied res"
  unfolding apply_subscription_def Let_def
  by (auto elim!: and_then_InrE dest!: pay_applied split: option.splits if_splits)

lemma reward_layer_applied:
  "apply_usage_billing_reward_layer env c res w = Inr (b, r, w') \<Longrightarrow> ar_applied r = ar_applied res"
  by (auto simp: apply_usage_billing_reward_layer_def Let_def funded_by_def elim!: and_then_InrE split: if_splits option.splits)

lemma effects_applied: "apply_usage_billing_effects env c res w = Inr (r, w') \<Longrightarrow> ar_applied r = ar_applied res"
  unfolding apply_usage_billing_effects_def
  by (auto elim!: and_then_InrE dest!: reward_layer_applied subscription_applied pay_applied quotas_applied split: if_splits)

lemma usage_claims:
  assumes "usage_apply sha f10 env c w = Inr (r, w')"
  shows "has_claim w k \<Longrightarrow> has_claim w' k"
    "ar_applied r \<Longrightarrow> \<not> has_claim w (trim_space (uc_request c), uc_api_key c) \<and> has_claim w' (trim_space (uc_request c), uc_api_key c)"
    "\<not> ar_applied r \<Longrightarrow> w' = w"
proof -
  let ?c = "usage_normalize sha f10 c"
  let ?r0 = "not_applied\<lparr>ar_applied := True, ar_billing_type := uc_billing_type ?c\<rparr>"
  have rid: "uc_request ?c = trim_space (uc_request c)" "uc_api_key ?c = uc_api_key c"
    by (simp_all add: usage_normalize_def quantize_monetary_fields_def Let_def)
  obtain b w1 where cl: "claim_usage_billing_request env (uc_request ?c) (uc_api_key ?c) (uc_fingerprint ?c) w = Inr (b, w1)"
    and rest: "(if \<not> b then Inr (not_applied, w) else apply_usage_billing_effects env ?c ?r0 w1) = Inr (r, w')"
    using assms by (auto simp: usage_apply_def Let_def elim!: and_then_InrE)
  have k: "has_claim w' k \<longleftrightarrow> has_claim (if b then w1 else w) k" for k
    using rest has_claim_same [OF effects_claims, of env ?c ?r0 w1 r w' k] by (cases b) auto
  have ap: "ar_applied r = b"
    using rest effects_applied [of env ?c ?r0 w1 r w'] by (cases b) (auto simp: not_applied_def)
  show "has_claim w k \<Longrightarrow> has_claim w' k" using k claim_kept_by_claiming [OF cl] by auto
  show "ar_applied r \<Longrightarrow> \<not> has_claim w (trim_space (uc_request c), uc_api_key c) \<and> has_claim w' (trim_space (uc_request c), uc_api_key c)"
    using k ap cl claim_made [of env "uc_request ?c" "uc_api_key ?c" "uc_fingerprint ?c" w w1] unfolding rid by auto
  show "\<not> ar_applied r \<Longrightarrow> w' = w" using ap rest by auto
qed

lemma hold_claims:
  assumes "apply_batch_image_balance_hold sha f10 oper env c w = Inr (r, w')"
    and oper: "\<And>env c w x w'. oper env c w = Inr (x, w') \<Longrightarrow> books w w'"
  shows "has_claim w k \<Longrightarrow> has_claim w' k"
    "hr_applied r \<Longrightarrow> \<not> has_claim w (trim_space (hc_request c), hc_api_key c) \<and> has_claim w' (trim_space (hc_request c), hc_api_key c)"
    "\<not> hr_applied r \<Longrightarrow> w' = w"
proof -
  let ?c = "hold_normalize sha f10 c"
  have rid: "hc_request ?c = trim_space (hc_request c)" "hc_api_key ?c = hc_api_key c"
    by (simp_all add: hold_normalize_def Let_def)
  obtain b w1 where cl: "claim_usage_billing_request env (hc_request ?c) (hc_api_key ?c) (hc_fingerprint ?c) w = Inr (b, w1)"
    and rest: "(if \<not> b then Inr (no_hold, w) else and_then (oper env ?c w1) (\<lambda>(r, w2). Inr (r\<lparr>hr_applied := True\<rparr>, w2))) = Inr (r, w')"
    using assms(1) by (auto simp: apply_batch_image_balance_hold_def Let_def elim!: and_then_InrE)
  have k: "has_claim w' k \<longleftrightarrow> has_claim (if b then w1 else w) k" for k
    using rest by (cases b) (auto elim!: and_then_InrE dest!: oper books_claims [where k = k])
  have ap: "hr_applied r = b"
    using rest by (cases b) (auto simp: no_hold_def elim!: and_then_InrE)
  show "has_claim w k \<Longrightarrow> has_claim w' k" using k claim_kept_by_claiming [OF cl] by auto
  show "hr_applied r \<Longrightarrow> \<not> has_claim w (trim_space (hc_request c), hc_api_key c) \<and> has_claim w' (trim_space (hc_request c), hc_api_key c)"
    using k ap cl claim_made [of env "hc_request ?c" "hc_api_key ?c" "hc_fingerprint ?c" w w1] unfolding rid by auto
  show "\<not> hr_applied r \<Longrightarrow> w' = w" using ap rest by auto
qed

lemma commit_books:
  assumes "\<And>r w'. res = Inr (r, w') \<Longrightarrow> books w w'"
  shows "has_claim (snd (commit f w res)) k = has_claim w k"
  using books_claims [OF assms, where k = k] by (cases res) (auto simp: commit_def)

lemma usage_step:
  shows "has_claim w k \<Longrightarrow> has_claim (snd (commit (usage_key c) w (usage_apply sha f10 env c w))) k"
    "fst (commit (usage_key c) w (usage_apply sha f10 env c w)) = Some k \<Longrightarrow>
      \<not> has_claim w k \<and> has_claim (snd (commit (usage_key c) w (usage_apply sha f10 env c w))) k"
  using usage_claims [of sha f10 env c w]
  by (auto simp: commit_def usage_key_def split: sum.splits if_splits)

lemma hold_step:
  assumes "\<And>env c w x w'. oper env c w = Inr (x, w') \<Longrightarrow> books w w'"
  shows "has_claim w k \<Longrightarrow> has_claim (snd (commit (hold_key c) w (apply_batch_image_balance_hold sha f10 oper env c w))) k"
    "fst (commit (hold_key c) w (apply_batch_image_balance_hold sha f10 oper env c w)) = Some k \<Longrightarrow>
      \<not> has_claim w k \<and> has_claim (snd (commit (hold_key c) w (apply_batch_image_balance_hold sha f10 oper env c w))) k"
proof -
  show "has_claim (snd (commit (hold_key c) w (apply_batch_image_balance_hold sha f10 oper env c w))) k" if "has_claim w k"
  proof (cases "apply_batch_image_balance_hold sha f10 oper env c w")
    case (Inr p)
    then obtain r w' where p: "apply_batch_image_balance_hold sha f10 oper env c w = Inr (r, w')" by (cases p) auto
    show ?thesis using hold_claims(1) [OF p assms that] by (simp add: p commit_def)
  qed (use that in \<open>simp add: commit_def\<close>)
  show "\<not> has_claim w k \<and> has_claim (snd (commit (hold_key c) w (apply_batch_image_balance_hold sha f10 oper env c w))) k"
    if "fst (commit (hold_key c) w (apply_batch_image_balance_hold sha f10 oper env c w)) = Some k"
  proof (cases "apply_batch_image_balance_hold sha f10 oper env c w")
    case (Inr p)
    then obtain r w' where p: "apply_batch_image_balance_hold sha f10 oper env c w = Inr (r, w')" by (cases p) auto
    have "hr_applied r" "k = (trim_space (hc_request c), hc_api_key c)"
      using that by (auto simp: p commit_def hold_key_def split: if_splits)
    thus ?thesis using hold_claims(2) [OF p assms] by (simp add: p commit_def)
  qed (use that in \<open>simp add: commit_def\<close>)
qed

lemmas hold_ops = reserve_batch_image_balance_def capture_batch_image_balance_def release_batch_image_balance_def

lemma expire_user_books [keeps_books]: "expire_user env u w = Inr (x, w') \<Longrightarrow> books w w'"
  by (auto simp: expire_user_def intro: keeps_books)

interpretation settle: at_most_once "wallet_step sha f10" has_claim for sha f10
proof
  fix p :: "wallet_env \<times> wallet_op" and w k
  obtain env op where p: "p = (env, op)" by force
  show "has_claim (snd (wallet_step sha f10 p w)) k" if "has_claim w k"
    using that usage_step(1) hold_step(1) [OF reserve_books] hold_step(1) [OF capture_books] hold_step(1) [OF release_books]
      archive_keeps_claims [of w "fst k" "snd k"]
    by (cases op) (auto simp: p hold_ops commit_books keeps_books books_claims [OF update_user_books] split: option.splits)
  show "\<not> has_claim w k \<and> has_claim (snd (wallet_step sha f10 p w)) k" if "fst (wallet_step sha f10 p w) = Some k"
    using that usage_step(2) hold_step(2) [OF reserve_books] hold_step(2) [OF capture_books] hold_step(2) [OF release_books]
    by (cases op) (auto simp: p hold_ops commit_def split: sum.splits)
qed

end
