(* ===== verification/Wallet_Laws.thy ===== *)
theory Wallet_Laws
  imports Wallet_Moves Wallet_Books
begin

text \<open>
  The operations of the wallet as steps, in any order and number: each request is settled at most
  once, every operation keeps the ledger, a request is paid by exactly one layer and in full, and a
  settled hold returns exactly what was not captured or lapsed.
\<close>

section \<open>Operations keep the wallet in order\<close>

lemma update_user_inv: "wallet_inv w \<Longrightarrow> update_user u g db df w = Some (r, w') \<Longrightarrow> wallet_inv w'"
  by (auto simp: update_user_Some_iff wallet_inv_def split: if_splits)

lemma wallet_inv_frame [simp]:
  "wallet_inv (w\<lparr>w_claims := cl\<rparr>) = wallet_inv w" "wallet_inv (w\<lparr>w_archive := ar\<rparr>) = wallet_inv w"
  "wallet_inv (w\<lparr>w_subs := sb\<rparr>) = wallet_inv w" "wallet_inv (w\<lparr>w_keys := ks\<rparr>) = wallet_inv w"
  "wallet_inv (w\<lparr>w_accounts := ac\<rparr>) = wallet_inv w" "wallet_inv (w\<lparr>w_outbox := ob\<rparr>) = wallet_inv w"
  by (simp_all add: wallet_inv_def)

definition same_money :: "wallet \<Rightarrow> wallet \<Rightarrow> bool" where
  "same_money w w' \<longleftrightarrow> w_users w' = w_users w \<and> w_credits w' = w_credits w \<and> w_events w' = w_events w \<and>
     w_allocs w' = w_allocs w \<and> w_next_credit w' = w_next_credit w \<and> w_next_alloc w' = w_next_alloc w"

lemma same_money_refl [simp]: "same_money w w"
  by (simp add: same_money_def)

lemma same_money_trans: "same_money a b \<Longrightarrow> same_money b c \<Longrightarrow> same_money a c"
  by (simp add: same_money_def)

lemma same_money_layers:
  assumes "same_money w w'"
  shows "balance w' u = balance w u" "frozen w' u = frozen w u" "rewards w' u = rewards w u"
    "account w' u = account w u" "wallet_inv w' = wallet_inv w"
  using assms
  by (simp_all add: same_money_def balance_def frozen_def rewards_def account_def wallet_inv_def ledger_inv_def
      credit_ok_def held_def spent_def auto_expired_def)

lemma claim_same_money: "claim_usage_billing_request env rid key fp w = Inr (b, w') \<Longrightarrow> same_money w w'"
  by (auto simp: claim_usage_billing_request_def claim_verdict_def Let_def same_money_def
      elim!: and_then_InrE split: option.splits if_splits)

lemma quotas_same_money:
  assumes "apply_usage_billing_quotas env c res w = Inr (res', w')"
  shows "same_money w w' \<and> w_subs w' = w_subs w \<and> ar_funding res' = ar_funding res \<and> ar_applied res' = ar_applied res \<and>
    ar_overdrafted res' = ar_overdrafted res"
proof -
  obtain res1 w1 w2 where k: "apply_key_quota c res w = Inr (res1, w1)" and r: "apply_key_rate env c w1 = Inr w2"
    and a: "(if 0 < uc_account_cost c \<and> should_apply_usage_billing_account_quota c
       then and_then (increment_usage_billing_account_quota env (uc_account c) (uc_account_cost c) w2)
              (\<lambda>(st, w3). Inr (res1\<lparr>ar_quota_state := Some st\<rparr>, w3))
       else Inr (res1, w2)) = Inr (res', w')"
    using assms by (auto simp: apply_usage_billing_quotas_def elim!: and_then_InrE)
  have "same_money w w1 \<and> w_subs w1 = w_subs w \<and> ar_funding res1 = ar_funding res \<and> ar_applied res1 = ar_applied res \<and>
    ar_overdrafted res1 = ar_overdrafted res"
    using k by (auto simp: apply_key_quota_def increment_usage_billing_api_key_quota_def Let_def same_money_def
        split: if_splits option.splits)
  moreover have "same_money w1 w2 \<and> w_subs w2 = w_subs w1"
    using r by (auto simp: apply_key_rate_def increment_usage_billing_api_key_rate_limit_def Let_def same_money_def
        split: if_splits option.splits)
  moreover have "same_money w2 w' \<and> w_subs w' = w_subs w2 \<and> ar_funding res' = ar_funding res1 \<and>
    ar_applied res' = ar_applied res1 \<and> ar_overdrafted res' = ar_overdrafted res1"
    using a by (auto simp: increment_usage_billing_account_quota_def Let_def same_money_def
        elim!: and_then_InrE split: if_splits option.splits)
  ultimately show ?thesis by (auto intro: same_money_trans)
qed

definition account_paid :: "int \<Rightarrow> rat \<Rightarrow> wallet \<Rightarrow> wallet \<Rightarrow> bool" where
  "account_paid u cost w w' \<longleftrightarrow> (\<forall>v. rewards w' v = rewards w v \<and> frozen w' v = frozen w v \<and>
     account w' v = account w v - (if v = u then cost else 0))"

lemma pay_from_account_ok:
  assumes "wallet_inv w" "pay_from_account u cost res w = Inr (res', w')"
  shows "wallet_inv w'" "ar_funding res' = Fund_Account" "w_subs w' = w_subs w" "ar_applied res' = ar_applied res"
    "scaled cost \<Longrightarrow> account_paid u cost w w'"
proof -
  obtain g r where upd: "update_user u g (- cost) 0 w = Some (r, w')" and fund: "ar_funding res' = Fund_Account"
    and ap: "ar_applied res' = ar_applied res"
    using assms(2) by (auto simp: pay_from_account_def deduct_usage_billing_balance_def funded_by_def
        elim!: and_then_InrE split: option.splits)
  show "wallet_inv w'" using update_user_inv [OF assms(1) upd] .
  show "w_subs w' = w_subs w" using upd by (auto simp: update_user_Some_iff)
  show "account_paid u cost w w'" if "scaled cost"
    using update_user_layers [OF assms(1) upd scaled_minus [OF that] scaled_0] by (simp add: account_def account_paid_def)
  show "ar_funding res' = Fund_Account" "ar_applied res' = ar_applied res" by (fact fund, fact ap)
qed

lemma quantized_amount: "scaled (usage_amount (usage_normalize sha f10 c))"
  by (simp add: usage_amount_def usage_normalize_def quantize_monetary_fields_def quantize_usage_billing_amount_def Let_def)

definition lapsing :: "wallet_env \<Rightarrow> usage_cmd \<Rightarrow> wallet \<Rightarrow> rat" where
  "lapsing env c w = (if 0 < usage_amount c then expiring env (uc_user c) (we_now env) w else 0)"

lemma reward_layer_ok:
  assumes inv: "wallet_inv w" and u: "0 < uc_user c" and a: "scaled (usage_amount c)"
    and run: "apply_usage_billing_reward_layer env c res w = Inr (funded, res', w')"
  shows "wallet_inv w'" "funded \<Longrightarrow> ar_funding res' = Fund_Daily \<or> ar_funding res' = Fund_Affiliate"
    "\<not> funded \<Longrightarrow> res' = res"
    "frozen w' v = frozen w v" "account w' v = account w v"
    "rewards w' v = rewards w v - (if v = uc_user c then lapsing env c w + (if funded then usage_amount c else 0) else 0)"
proof -
  let ?u = "uc_user c" and ?a = "usage_amount c" and ?now = "we_now env"
  have "wallet_inv w' \<and> (funded \<longrightarrow> ar_funding res' = Fund_Daily \<or> ar_funding res' = Fund_Affiliate) \<and>
    (\<not> funded \<longrightarrow> res' = res) \<and> (\<forall>v. frozen w' v = frozen w v \<and> account w' v = account w v \<and>
      rewards w' v = rewards w v - (if v = ?u then lapsing env c w + (if funded then ?a else 0) else 0))"
  proof (cases "?a \<le> 0")
    case True
    thus ?thesis using run inv by (simp add: apply_usage_billing_reward_layer_def Let_def lapsing_def)
  next
    case False
    obtain x w1 d w2 where e: "expire_reward_credits_for_user env ?u ?now w = Inr (x, w1)"
      and dl: "try_consume_reward_layer ?u daily_layer ?a (uc_request c) ?now w1 = Inr (d, w2)"
      and rest: "(case d of Some b \<Rightarrow> Inr (True, funded_by Fund_Daily b res, w2)
          | None \<Rightarrow> and_then (try_consume_reward_layer ?u affiliate_layer ?a (uc_request c) ?now w2) (\<lambda>(a, w3).
                case a of Some b \<Rightarrow> Inr (True, funded_by Fund_Affiliate b res, w3)
                | None \<Rightarrow> Inr (False, res, w3))) = Inr (funded, res', w')"
      using run False by (auto simp: apply_usage_billing_reward_layer_def Let_def elim!: and_then_InrE)
    note eo = expire_for_user_ok [OF inv u e]
    have l: "lapsing env c w = expiring env ?u ?now w" using False by (simp add: lapsing_def)
    note d1 = try_consume_ok [OF conjunct1 [OF eo] a dl]
    show ?thesis
    proof (cases d)
      case (Some b)
      thus ?thesis using rest eo d1 l by (auto simp: funded_by_def)
    next
      case None
      obtain ab where aff: "try_consume_reward_layer ?u affiliate_layer ?a (uc_request c) ?now w2 = Inr (ab, w')"
        and fin: "(case ab of Some b \<Rightarrow> Inr (True, funded_by Fund_Affiliate b res, w')
                | None \<Rightarrow> Inr (False, res, w')) = (Inr (funded, res', w') :: go_error + _)"
        using rest None by (auto elim!: and_then_InrE split: option.splits)
      note d2 = try_consume_ok [OF conjunct1 [OF d1] a aff]
      show ?thesis using fin None eo d1 d2 l by (cases ab) (auto simp: funded_by_def)
    qed
  qed
  thus "wallet_inv w'" "funded \<Longrightarrow> ar_funding res' = Fund_Daily \<or> ar_funding res' = Fund_Affiliate"
    "\<not> funded \<Longrightarrow> res' = res" "frozen w' v = frozen w v" "account w' v = account w v"
    "rewards w' v = rewards w v - (if v = uc_user c then lapsing env c w + (if funded then usage_amount c else 0) else 0)"
    by blast+
qed

text \<open>The subscription after the charge of a request.\<close>

definition sub_charged :: "wallet_env \<Rightarrow> usage_cmd \<Rightarrow> wallet \<Rightarrow> wallet \<Rightarrow> bool" where
  "sub_charged env c w w' \<longleftrightarrow> (\<exists>i s reset. uc_subscription c = Some i \<and> sub_live w i = Some s \<and>
     w_subs w' = (w_subs w)(i \<mapsto> charge_sub (uc_subscription_cost c) reset (we_db_now env) s) \<and>
     (\<not> uc_allow_overrun c \<longrightarrow> (\<exists>l. uc_week_limit c = Some l \<and>
        (if reset then 0 else bs_weekly s) + uc_subscription_cost c \<le> l + eps)))"

lemma increment_subscription_ok:
  assumes run: "increment_usage_billing_subscription env i cost l w = Inr (ok, w')"
  shows "same_money w w'" "\<not> ok \<Longrightarrow> w' = w"
    "ok \<Longrightarrow> \<exists>s reset. sub_live w i = Some s \<and> w_subs w' = (w_subs w)(i \<mapsto> charge_sub cost reset (we_db_now env) s) \<and>
       (\<forall>x. l = Some x \<longrightarrow> (if reset then 0 else bs_weekly s) + cost \<le> x + eps)"
proof -
  obtain s where s: "sub_live w i = Some s"
    using run by (auto simp: increment_usage_billing_subscription_def split: option.splits)
  have "same_money w w' \<and> (\<not> ok \<longrightarrow> w' = w) \<and> (ok \<longrightarrow> (\<exists>reset.
    w_subs w' = (w_subs w)(i \<mapsto> charge_sub cost reset (we_db_now env) s) \<and>
    (\<forall>x. l = Some x \<longrightarrow> (if reset then 0 else bs_weekly s) + cost \<le> x + eps)))"
  proof (cases l)
    case None
    hence "ok" "w' = w\<lparr>w_subs := (w_subs w)(i \<mapsto> charge_sub cost False (we_db_now env) s)\<rparr>"
      using run s by (simp_all add: increment_usage_billing_subscription_def)
    thus ?thesis using None by (simp add: same_money_def) (rule exI [of _ False], simp)
  next
    case (Some x)
    define reset where "reset = elapsed (bs_week_start s) (days 7) (we_db_now env)"
    have r: "(if (if reset then 0 else bs_weekly s) + cost \<le> x + eps
      then Inr (True, w\<lparr>w_subs := (w_subs w)(i \<mapsto> charge_sub cost reset (we_db_now env) s)\<rparr>)
      else Inr (False, w)) = (Inr (ok, w') :: go_error + _)"
      using run s Some unfolding increment_usage_billing_subscription_def Let_def reset_def by simp
    show ?thesis
    proof (cases "(if reset then 0 else bs_weekly s) + cost \<le> x + eps")
      case True
      hence "ok" "w' = w\<lparr>w_subs := (w_subs w)(i \<mapsto> charge_sub cost reset (we_db_now env) s)\<rparr>" using r by simp_all
      thus ?thesis using True Some by (simp add: same_money_def) (rule exI [of _ reset], simp split: if_splits)
    next
      case False
      thus ?thesis using r by simp
    qed
  qed
  thus "same_money w w'" "\<not> ok \<Longrightarrow> w' = w"
    "ok \<Longrightarrow> \<exists>s reset. sub_live w i = Some s \<and> w_subs w' = (w_subs w)(i \<mapsto> charge_sub cost reset (we_db_now env) s) \<and>
       (\<forall>x. l = Some x \<longrightarrow> (if reset then 0 else bs_weekly s) + cost \<le> x + eps)"
    using s by blast+
qed

definition subscription_billed :: "usage_cmd \<Rightarrow> bool" where
  "subscription_billed c \<longleftrightarrow> uc_subscription c \<noteq> None \<and> 0 < uc_subscription_cost c"

lemma apply_subscription_ok:
  assumes inv: "wallet_inv w" and run: "apply_subscription env c res w = Inr (done, res', w')"
  shows "wallet_inv w'"
    "\<not> subscription_billed c \<Longrightarrow> \<not> done \<and> res' = res \<and> w' = w"
    "subscription_billed c \<Longrightarrow> ar_funding res' = Fund_Subscription \<and> same_money w w' \<and> sub_charged env c w w' \<and> \<not> done \<or>
       ar_funding res' = Fund_Account \<and> w_subs w' = w_subs w \<and>
       (scaled (uc_fallback_cost c) \<longrightarrow> account_paid (uc_user c) (uc_fallback_cost c) w w')"
proof -
  show "\<not> subscription_billed c \<Longrightarrow> \<not> done \<and> res' = res \<and> w' = w"
    using run by (auto simp: apply_subscription_def subscription_billed_def split: option.splits)
  have "wallet_inv w' \<and> (ar_funding res' = Fund_Subscription \<and> same_money w w' \<and> sub_charged env c w w' \<and> \<not> done \<or>
       ar_funding res' = Fund_Account \<and> w_subs w' = w_subs w \<and>
       (scaled (uc_fallback_cost c) \<longrightarrow> account_paid (uc_user c) (uc_fallback_cost c) w w'))"
    if b: "subscription_billed c"
  proof -
    obtain i where i: "uc_subscription c = Some i" and cost: "\<not> uc_subscription_cost c \<le> 0"
      using b by (auto simp: subscription_billed_def)
    let ?fb = "uc_allow_fallback c \<and> 0 < uc_fallback_cost c"
    show ?thesis
    proof (cases "uc_week_limit c")
      case None
      then obtain r where "pay_from_account (uc_user c) (uc_fallback_cost c) res w = Inr (res', w')"
        using run i cost by (auto simp: apply_subscription_def elim!: and_then_InrE split: if_splits)
      note p = pay_from_account_ok [OF inv this]
      show ?thesis using p(1,2,3,5) by simp
    next
      case (Some l)
      obtain ok w1 where inc: "increment_usage_billing_subscription env i (uc_subscription_cost c)
          (if uc_allow_overrun c then None else Some l) w = Inr (ok, w1)"
        and rest: "(if ok then Inr (False, res\<lparr>ar_billing_type := BillingTypeSubscription, ar_funding := Fund_Subscription\<rparr>, w1)
          else if ?fb then and_then (pay_from_account (uc_user c) (uc_fallback_cost c) res w1) (\<lambda>(r, w2). Inr (False, r, w2))
          else Inl err_weekly_limit) = Inr (done, res', w')"
        using run i cost Some by (auto simp: apply_subscription_def Let_def elim!: and_then_InrE)
      note ink = increment_subscription_ok [OF inc]
      show ?thesis
      proof (cases ok)
        case True
        hence r: "w' = w1" "ar_funding res' = Fund_Subscription" "\<not> done" using rest by auto
        obtain s reset where "sub_live w i = Some s"
          "w_subs w1 = (w_subs w)(i \<mapsto> charge_sub (uc_subscription_cost c) reset (we_db_now env) s)"
          "\<And>x. (if uc_allow_overrun c then None else Some l) = Some x \<Longrightarrow>
             (if reset then 0 else bs_weekly s) + uc_subscription_cost c \<le> x + eps"
          using ink(3) [OF True] by blast
        hence "sub_charged env c w w1" unfolding sub_charged_def
          by (intro exI [of _ i] exI [of _ s] exI [of _ reset]) (simp add: i Some)
        thus ?thesis using r ink(1) same_money_layers(5) [OF ink(1)] inv by simp
      next
        case False
        hence "pay_from_account (uc_user c) (uc_fallback_cost c) res w = Inr (res', w')"
          using rest ink(2) by (auto elim!: and_then_InrE split: if_splits)
        note p = pay_from_account_ok [OF inv this]
        show ?thesis using p(1,2,3,5) by simp
      qed
    qed
  qed
  thus "wallet_inv w'" "subscription_billed c \<Longrightarrow> ar_funding res' = Fund_Subscription \<and> same_money w w' \<and> sub_charged env c w w' \<and> \<not> done \<or>
       ar_funding res' = Fund_Account \<and> w_subs w' = w_subs w \<and>
       (scaled (uc_fallback_cost c) \<longrightarrow> account_paid (uc_user c) (uc_fallback_cost c) w w')"
    using \<open>\<not> subscription_billed c \<Longrightarrow> \<not> done \<and> res' = res \<and> w' = w\<close> inv by blast+
qed

section \<open>Settling a request\<close>

definition reward_charge :: "apply_result \<Rightarrow> usage_cmd \<Rightarrow> rat" where
  "reward_charge r c = (if ar_funding r = Fund_Daily \<or> ar_funding r = Fund_Affiliate then usage_amount c else 0)"

definition account_charge :: "apply_result \<Rightarrow> usage_cmd \<Rightarrow> rat" where
  "account_charge r c = (if ar_funding r = Fund_Account
     then (if subscription_billed c then uc_fallback_cost c else uc_balance_cost c) else 0)"

lemma effects_split:
  assumes "apply_usage_billing_effects env c res w = Inr (r, w')"
  obtains funded res1 w1 res3 w3 where "apply_usage_billing_reward_layer env c res w = Inr (funded, res1, w1)"
    "apply_usage_billing_quotas env c res3 w3 = Inr (r, w')"
    "funded \<longrightarrow> res3 = res1 \<and> w3 = w1"
    "\<not> funded \<longrightarrow> (\<exists>done res2 w2. apply_subscription env c res1 w1 = Inr (done, res2, w2) \<and>
       (if done \<or> uc_balance_cost c \<le> 0 then res3 = res2 \<and> w3 = w2
        else pay_from_account (uc_user c) (uc_balance_cost c) res2 w2 = Inr (res3, w3)))"
proof -
  obtain funded res1 w1 where l: "apply_usage_billing_reward_layer env c res w = Inr (funded, res1, w1)"
    and next1: "(if funded then apply_usage_billing_quotas env c res1 w1
       else and_then (apply_subscription env c res1 w1) (\<lambda>(done, res2, w2).
         if done \<or> uc_balance_cost c \<le> 0 then apply_usage_billing_quotas env c res2 w2
         else and_then (pay_from_account (uc_user c) (uc_balance_cost c) res2 w2)
           (\<lambda>(res3, w3). apply_usage_billing_quotas env c res3 w3))) = Inr (r, w')"
    using assms unfolding apply_usage_billing_effects_def by (auto elim!: and_then_InrE)
  show ?thesis
  proof (cases funded)
    case True
    thus ?thesis using that [OF l, of res1 w1] next1 by simp
  next
    case False
    then obtain d res2 w2 where s: "apply_subscription env c res1 w1 = Inr (d, res2, w2)"
      and n: "(if d \<or> uc_balance_cost c \<le> 0 then apply_usage_billing_quotas env c res2 w2
         else and_then (pay_from_account (uc_user c) (uc_balance_cost c) res2 w2)
           (\<lambda>(res3, w3). apply_usage_billing_quotas env c res3 w3)) = Inr (r, w')"
      using next1 by (auto elim!: and_then_InrE)
    show ?thesis
    proof (cases "d \<or> uc_balance_cost c \<le> 0")
      case True
      thus ?thesis using that [OF l, of res2 w2] n s False by auto
    next
      case nd: False
      then obtain res3 w3 where "pay_from_account (uc_user c) (uc_balance_cost c) res2 w2 = Inr (res3, w3)"
        "apply_usage_billing_quotas env c res3 w3 = Inr (r, w')"
        using n by (auto elim!: and_then_InrE)
      thus ?thesis using that [OF l, of res3 w3] s False nd by auto
    qed
  qed
qed

lemma effects_inv:
  assumes "wallet_inv w" "0 < uc_user c" "scaled (usage_amount c)" "apply_usage_billing_effects env c res w = Inr (r, w')"
  shows "wallet_inv w'"
  using assms(4)
proof (rule effects_split)
  fix funded res1 w1 res3 w3
  assume l: "apply_usage_billing_reward_layer env c res w = Inr (funded, res1, w1)"
    and q: "apply_usage_billing_quotas env c res3 w3 = Inr (r, w')" and y: "funded \<longrightarrow> res3 = res1 \<and> w3 = w1"
    and n: "\<not> funded \<longrightarrow> (\<exists>done res2 w2. apply_subscription env c res1 w1 = Inr (done, res2, w2) \<and>
       (if done \<or> uc_balance_cost c \<le> 0 then res3 = res2 \<and> w3 = w2
        else pay_from_account (uc_user c) (uc_balance_cost c) res2 w2 = Inr (res3, w3)))"
  have w1: "wallet_inv w1" by (rule reward_layer_ok(1) [OF assms(1,2,3) l])
  have "wallet_inv w3"
  proof (cases funded)
    case False
    thus ?thesis using n apply_subscription_ok(1) [OF w1] pay_from_account_ok(1) by (metis (full_types))
  qed (use w1 y in simp)
  thus "wallet_inv w'" using quotas_same_money [OF q] same_money_layers(5) by blast
qed

text \<open>The layers after the reward credits did not suffice.\<close>

lemma second_layer_ok:
  assumes inv: "wallet_inv w1" and costs: "scaled (uc_balance_cost c)" "scaled (uc_fallback_cost c)"
      "subscription_billed c \<Longrightarrow> uc_balance_cost c \<le> 0"
    and none: "ar_funding res1 = Fund_None" and sub: "apply_subscription env c res1 w1 = Inr (done, res2, w2)"
    and pay: "if done \<or> uc_balance_cost c \<le> 0 then res3 = res2 \<and> w3 = w2
        else pay_from_account (uc_user c) (uc_balance_cost c) res2 w2 = Inr (res3, w3)"
  shows "frozen w3 v = frozen w1 v" "rewards w3 v = rewards w1 v"
    "account w3 v = account w1 v - (if v = uc_user c then account_charge res3 c else 0)" "reward_charge res3 c = 0"
    "if ar_funding res3 = Fund_Subscription then sub_charged env c w1 w3 else w_subs w3 = w_subs w1"
    "ar_funding res3 = Fund_None \<Longrightarrow> \<not> subscription_billed c \<and> uc_balance_cost c \<le> 0"
proof -
  note s = apply_subscription_ok [OF inv sub]
  have "frozen w3 v = frozen w1 v \<and> rewards w3 v = rewards w1 v \<and> reward_charge res3 c = 0 \<and>
    account w3 v = account w1 v - (if v = uc_user c then account_charge res3 c else 0) \<and>
    (if ar_funding res3 = Fund_Subscription then sub_charged env c w1 w3 else w_subs w3 = w_subs w1) \<and>
    (ar_funding res3 = Fund_None \<longrightarrow> \<not> subscription_billed c \<and> uc_balance_cost c \<le> 0)"
  proof (cases "subscription_billed c")
    case True
    hence r: "res3 = res2" "w3 = w2" using pay costs(3) by simp_all
    show ?thesis using s(3) [OF True] costs(2) True
      by (auto simp: r account_paid_def account_charge_def reward_charge_def same_money_layers)
  next
    case False
    hence r: "\<not> done" "res2 = res1" "w2 = w1" using s(2) by simp_all
    show ?thesis
    proof (cases "uc_balance_cost c \<le> 0")
      case True
      thus ?thesis using pay r none False by (simp add: account_charge_def reward_charge_def)
    next
      case pos: False
      hence "pay_from_account (uc_user c) (uc_balance_cost c) res1 w1 = Inr (res3, w3)" using pay r by simp
      note p = pay_from_account_ok [OF inv this]
      show ?thesis using p(2,3) p(5) [OF costs(1)] False
        by (simp add: account_paid_def account_charge_def reward_charge_def)
    qed
  qed
  thus "frozen w3 v = frozen w1 v" "rewards w3 v = rewards w1 v"
    "account w3 v = account w1 v - (if v = uc_user c then account_charge res3 c else 0)" "reward_charge res3 c = 0"
    "if ar_funding res3 = Fund_Subscription then sub_charged env c w1 w3 else w_subs w3 = w_subs w1"
    "ar_funding res3 = Fund_None \<Longrightarrow> \<not> subscription_billed c \<and> uc_balance_cost c \<le> 0"
    by blast+
qed

lemma sub_charged_cong: "w_subs w1 = w_subs w \<Longrightarrow> w_subs w3 = w_subs w' \<Longrightarrow> sub_charged env c w1 w3 = sub_charged env c w w'"
  by (simp add: sub_charged_def sub_live_def)

lemma effects_ok:
  assumes inv: "wallet_inv w" and u: "0 < uc_user c" and a: "scaled (usage_amount c)"
    and costs: "scaled (uc_balance_cost c)" "scaled (uc_fallback_cost c)" "subscription_billed c \<Longrightarrow> uc_balance_cost c \<le> 0"
    and res: "ar_funding res = Fund_None" and run: "apply_usage_billing_effects env c res w = Inr (r, w')"
  shows "frozen w' v = frozen w v"
    "account w' v = account w v - (if v = uc_user c then account_charge r c else 0)"
    "rewards w' v = rewards w v - (if v = uc_user c then lapsing env c w + reward_charge r c else 0)"
    "if ar_funding r = Fund_Subscription then sub_charged env c w w' else w_subs w' = w_subs w"
    "ar_funding r = Fund_None \<Longrightarrow> \<not> subscription_billed c \<and> uc_balance_cost c \<le> 0"
proof -
  obtain funded res1 w1 res3 w3 where
    l: "apply_usage_billing_reward_layer env c res w = Inr (funded, res1, w1)"
    and q: "apply_usage_billing_quotas env c res3 w3 = Inr (r, w')" and y: "funded \<longrightarrow> res3 = res1 \<and> w3 = w1"
    and n: "\<not> funded \<longrightarrow> (\<exists>done res2 w2. apply_subscription env c res1 w1 = Inr (done, res2, w2) \<and>
       (if done \<or> uc_balance_cost c \<le> 0 then res3 = res2 \<and> w3 = w2
        else pay_from_account (uc_user c) (uc_balance_cost c) res2 w2 = Inr (res3, w3)))"
    by (rule effects_split [OF run])
  note rl = reward_layer_ok [OF inv u a l]
  note qs = quotas_same_money [OF q]
  have subs1: "w_subs w1 = w_subs w" using reward_layer_books [OF l] by (simp add: books_def)
  have fund: "ar_funding r = ar_funding res3" using qs by simp
  have ch: "account_charge r c = account_charge res3 c" "reward_charge r c = reward_charge res3 c"
    by (simp_all add: account_charge_def reward_charge_def fund)
  note lay = same_money_layers [OF conjunct1 [OF qs]]
  have "frozen w3 v = frozen w v \<and>
    account w3 v = account w v - (if v = uc_user c then account_charge res3 c else 0) \<and>
    rewards w3 v = rewards w v - (if v = uc_user c then lapsing env c w + reward_charge res3 c else 0) \<and>
    (if ar_funding res3 = Fund_Subscription then sub_charged env c w w3 else w_subs w3 = w_subs w) \<and>
    (ar_funding res3 = Fund_None \<longrightarrow> \<not> subscription_billed c \<and> uc_balance_cost c \<le> 0)"
  proof (cases funded)
    case True
    show ?thesis using y True rl(2) [OF True] rl(4,5,6) [of v] True subs1
      by (auto simp: account_charge_def reward_charge_def)
  next
    case False
    obtain d res2 w2 where sub: "apply_subscription env c res1 w1 = Inr (d, res2, w2)"
      and pay: "if d \<or> uc_balance_cost c \<le> 0 then res3 = res2 \<and> w3 = w2
        else pay_from_account (uc_user c) (uc_balance_cost c) res2 w2 = Inr (res3, w3)"
      using n False by blast
    have r1: "ar_funding res1 = Fund_None" using rl(3) [OF False] res by simp
    note s = second_layer_ok [OF rl(1) costs r1 sub pay]
    have "if ar_funding res3 = Fund_Subscription then sub_charged env c w w3 else w_subs w3 = w_subs w"
      using s(5) subs1 sub_charged_cong [OF subs1 refl, of env c w3] by (cases "ar_funding res3 = Fund_Subscription") simp_all
    thus ?thesis using s(1,2,3) [of v] s(4,6) rl(4,5,6) [of v] False by simp
  qed
  thus "frozen w' v = frozen w v"
    "account w' v = account w v - (if v = uc_user c then account_charge r c else 0)"
    "rewards w' v = rewards w v - (if v = uc_user c then lapsing env c w + reward_charge r c else 0)"
    "if ar_funding r = Fund_Subscription then sub_charged env c w w' else w_subs w' = w_subs w"
    "ar_funding r = Fund_None \<Longrightarrow> \<not> subscription_billed c \<and> uc_balance_cost c \<le> 0"
    using lay(1,2,3,4) qs fund ch sub_charged_cong [OF refl, of w3 w' env c w] by (simp_all split: if_splits)
qed

section \<open>Holds\<close>

text \<open>A command as the service builds it, with amounts of the scale of the balance columns.\<close>

definition hold_ok :: "hold_cmd \<Rightarrow> bool" where
  "hold_ok c \<longleftrightarrow> 0 < hc_user c \<and> scaled (hc_hold c) \<and> scaled (hc_actual c) \<and> 0 \<le> hc_actual c \<and>
     trim_space (hc_request c) \<noteq> ''auto-expiry''"

text \<open>What the reservation of \<open>a\<close> does to the layers of user \<open>u\<close>; \<open>from_rewards\<close> says which layer gave it.\<close>

definition reserved :: "int \<Rightarrow> rat \<Rightarrow> rat \<Rightarrow> bool \<Rightarrow> wallet \<Rightarrow> wallet \<Rightarrow> bool" where
  "reserved u a lapse from_rewards w w' \<longleftrightarrow> (\<forall>v.
     frozen w' v = frozen w v + (if v = u then a else 0) \<and>
     account w' v = account w v - (if v = u \<and> \<not> from_rewards then a else 0) \<and>
     rewards w' v = rewards w v - (if v = u then lapse + (if from_rewards then a else 0) else 0))"

lemma reserve_rewards_ok:
  assumes inv: "wallet_inv w" and u: "0 < hc_user c" and a: "scaled (hc_hold c)" "0 < hc_hold c"
    and run: "reserve_rewards env c w = Inr (x, w')"
  shows "wallet_inv w'" "x \<noteq> None \<Longrightarrow> reserved (hc_user c) (hc_hold c) (expiring env (hc_user c) (we_now env) w) True w w'"
    "x = None \<Longrightarrow> reserved (hc_user c) 0 (expiring env (hc_user c) (we_now env) w) True w w'"
proof -
  obtain y w1 d w2 where e: "expire_reward_credits_for_user env (hc_user c) (we_now env) w = Inr (y, w1)"
    and dl: "try_reserve_batch_image_reward_layer c daily_layer Fund_Daily (we_now env) w1 = Inr (d, w2)"
    and rest: "(if d \<noteq> None then Inr (d, w2)
       else try_reserve_batch_image_reward_layer c affiliate_layer Fund_Affiliate (we_now env) w2) = Inr (x, w')"
    using run by (auto simp: reserve_rewards_def elim!: and_then_InrE)
  note eo = expire_for_user_ok [OF inv u e]
  note d1 = try_reserve_ok [OF conjunct1 [OF eo] a dl]
  have "wallet_inv w' \<and> reserved (hc_user c) (if x = None then 0 else hc_hold c) (expiring env (hc_user c) (we_now env) w) True w w'"
  proof (cases d)
    case (Some b)
    thus ?thesis using rest eo d1 by (auto simp: reserved_def)
  next
    case None
    hence "try_reserve_batch_image_reward_layer c affiliate_layer Fund_Affiliate (we_now env) w2 = Inr (x, w')"
      using rest by simp
    note d2 = try_reserve_ok [OF conjunct1 [OF d1] a this]
    show ?thesis using None eo d1 d2 by (auto simp: reserved_def)
  qed
  thus "wallet_inv w'" "x \<noteq> None \<Longrightarrow> reserved (hc_user c) (hc_hold c) (expiring env (hc_user c) (we_now env) w) True w w'"
    "x = None \<Longrightarrow> reserved (hc_user c) 0 (expiring env (hc_user c) (we_now env) w) True w w'"
    by auto
qed

lemma reserve_from_account_ok:
  assumes inv: "wallet_inv w" and run: "reserve_from_account c w = Inr (x, w')"
  shows "wallet_inv w'" "scaled (hc_hold c) \<Longrightarrow> reserved (hc_user c) (hc_hold c) 0 False w w'"
    "hr_funding x = Fund_Account" "hc_hold c \<le> balance w (hc_user c) - reward_claims w (hc_user c)"
proof -
  obtain r where upd: "update_user (hc_user c) (\<lambda>r. hc_hold c \<le> wu_balance r - reward_claims w (hc_user c))
      (- hc_hold c) (hc_hold c) w = Some (r, w')" and f: "hr_funding x = Fund_Account"
    using run by (auto simp: reserve_from_account_def hold_from_def split: option.splits)
  show "wallet_inv w'" by (rule update_user_inv [OF inv upd])
  show "hr_funding x = Fund_Account" by (fact f)
  show "hc_hold c \<le> balance w (hc_user c) - reward_claims w (hc_user c)"
    using upd by (auto simp: update_user_Some_iff balance_def)
  show "reserved (hc_user c) (hc_hold c) 0 False w w'" if "scaled (hc_hold c)"
    using update_user_layers [OF inv upd scaled_minus [OF that] that] by (simp add: reserved_def account_def)
qed

lemma reserved_trans:
  "reserved u a l b w w1 \<Longrightarrow> reserved u 0 l' True w w1 \<Longrightarrow> reserved u a' l'' b' w1 w2 \<Longrightarrow> reserved u a' (l' + l'') b' w w2"
  by (simp add: reserved_def)

lemma reserve_ok:
  assumes inv: "wallet_inv w" and c: "0 < hc_user c" "scaled (hc_hold c)" "0 < hc_hold c" "hc_batch c \<noteq> []"
    and run: "reserve_usage_billing_batch_image_balance env c w = Inr (x, w')"
  shows "wallet_inv w'"
    "\<exists>b. reserved (hc_user c) (hc_hold c) (expiring env (hc_user c) (we_now env) w) b w w'"
proof -
  obtain y w1 where r: "reserve_rewards env c w = Inr (y, w1)"
    and rest: "(case y of Some z \<Rightarrow> Inr (z, w1) | None \<Rightarrow> reserve_from_account c w1) = Inr (x, w')"
    using run c by (auto simp: reserve_usage_billing_batch_image_balance_def elim!: and_then_InrE)
  note rr = reserve_rewards_ok [OF inv c(1-3) r]
  have "wallet_inv w' \<and> (\<exists>b. reserved (hc_user c) (hc_hold c) (expiring env (hc_user c) (we_now env) w) b w w')"
  proof (cases y)
    case (Some z)
    thus ?thesis using rest rr(1,2) by auto
  next
    case None
    hence "reserve_from_account c w1 = Inr (x, w')" using rest by simp
    note ra = reserve_from_account_ok [OF rr(1) this]
    have r0: "reserved (hc_user c) 0 (expiring env (hc_user c) (we_now env) w) True w w1" using rr(3) None by simp
    show ?thesis using reserved_trans [OF r0 r0 ra(2) [OF c(2)]] ra(1) by auto
  qed
  thus "wallet_inv w'" "\<exists>b. reserved (hc_user c) (hc_hold c) (expiring env (hc_user c) (we_now env) w) b w w'"
    by blast+
qed

lemma load_rows:
  assumes "ledger_inv w"
  shows "hold_rows w (load_batch_image_reward_allocations u key w)"
proof -
  have "distinct (map al_id (filter P (w_allocs w)))" for P
    using ledger_allocs(1) [OF assms] by (rule distinct_map_filter)
  hence "inj_on al_id (set (filter P (w_allocs w))) \<and> distinct (filter P (w_allocs w))" for P by (simp add: distinct_map)
  thus ?thesis by (auto simp: hold_rows_def load_batch_image_reward_allocations_def distinct_map)
qed

lemma outstanding_total:
  assumes "ledger_inv w" "hold_rows w ls"
  shows "sum_list (map outstanding (filter (\<lambda>l. eps < outstanding l) ls)) = sum_list (map outstanding ls)"
    "scaled (sum_list (map outstanding ls))" "0 \<le> sum_list (map outstanding ls)"
proof -
  have o: "scaled (outstanding l) \<and> 0 \<le> outstanding l" if "l \<in> set ls" for l
    using outstanding_ok [OF assms(1)] assms(2) that by (auto simp: hold_rows_def)
  show "scaled (sum_list (map outstanding ls))" by (rule scaled_sum_list) (use o in blast)
  show "0 \<le> sum_list (map outstanding ls)" by (rule sum_list_nonneg) (use o in auto)
  have "\<not> eps < outstanding l \<Longrightarrow> outstanding l = 0" if "l \<in> set ls" for l
    using o [OF that] le_eps_iff [of "outstanding l"] by (simp add: not_less)
  thus "sum_list (map outstanding (filter (\<lambda>l. eps < outstanding l) ls)) = sum_list (map outstanding ls)"
    by (induction ls) auto
qed

text \<open>
  Settling a hold: \<open>tot\<close> leaves the frozen balance and \<open>refund\<close> of it returns to the balance. Nothing
  but \<open>actual\<close> is kept when no part of the hold lapsed.
\<close>

definition settled :: "int \<Rightarrow> rat \<Rightarrow> rat \<Rightarrow> wallet \<Rightarrow> wallet \<Rightarrow> bool" where
  "settled u tot refund w w' \<longleftrightarrow> (\<forall>v. frozen w' v = frozen w v - (if v = u then tot else 0) \<and>
     balance w' v = balance w v + (if v = u then refund else 0)) \<and> tot \<le> frozen w u"

lemma update_user_frozen:
  "update_user u (\<lambda>r. t \<le> wu_frozen r + eps) db df w = Some (r, w') \<Longrightarrow> t \<le> frozen w u + eps"
  "update_user u (\<lambda>r. t \<le> wu_frozen r) db df w = Some (r, w') \<Longrightarrow> t \<le> frozen w u"
  by (auto simp: update_user_Some_iff frozen_def)

lemma frozen_scaled: "wallet_inv w \<Longrightarrow> scaled (frozen w u)"
  by (simp add: wallet_inv_def frozen_def split: option.splits)

lemma settle_batch_ok:
  assumes inv: "wallet_inv w" and ls: "hold_rows w ls" and a: "scaled (hc_actual c)" "0 \<le> hc_actual c"
    and key: "hc_request c \<noteq> ''auto-expiry''" and run: "settle_batch_image_reward_allocations c ls now w = Inr (x, w')"
  shows "wallet_inv w'"
    "settled (hc_user c) (sum_list (map outstanding ls)) (give_back now ls (hc_actual c)) w w' \<and>
       hc_actual c \<le> sum_list (map outstanding ls)"
proof -
  have linv: "ledger_inv w" using inv by (rule wallet_inv_ledger)
  define tot where "tot = sum_list (map outstanding ls)"
  note t = outstanding_total [OF linv ls, folded tot_def]
  obtain restored w1 r where enough: "\<not> eps < hc_actual c - tot"
    and each: "settle_each c now ls (hc_actual c) 0 w = Inr (restored, w1)"
    and upd: "update_user (hc_user c) (\<lambda>r. tot \<le> wu_frozen r + eps) restored (- tot) w1 = Some (r, w')"
    using run by (auto simp: settle_batch_image_reward_allocations_def Let_def t(1) if_Inl_eq_Inr elim!: and_then_InrE split: option.splits)
  have le: "hc_actual c \<le> tot" using enough a(1) t(2) le_eps_iff [OF scaled_diff, of "hc_actual c" tot] by simp
  note e = settle_each_ok [OF linv ls a key each, folded tot_def]
  have sr: "scaled restored" "restored = give_back now ls (hc_actual c)" using e unfolding diff_0_right by blast+
  have inv1: "wallet_inv w1" using ledger_step_wallet inv e by blast
  note l = update_user_layers [OF inv1 upd sr(1) scaled_minus [OF t(2)]]
  have only: "balance w1 v = balance w v" "frozen w1 v = frozen w v" for v using e ledger_only_layers by blast+
  have "tot \<le> frozen w (hc_user c)"
    using update_user_frozen(1) [OF upd] frozen_scaled [OF inv] t(2) by (simp add: only)
  hence "settled (hc_user c) tot restored w w'" using l(3,4) only by (simp add: settled_def)
  thus "wallet_inv w'" "settled (hc_user c) tot (give_back now ls (hc_actual c)) w w' \<and> hc_actual c \<le> tot"
    using l(1) le by (simp_all add: sr(2))
qed

lemma settle_account_ok:
  assumes inv: "wallet_inv w" and run: "settle_account c refund w = Inr (x, w')"
  shows "wallet_inv w'" "scaled (hc_hold c) \<Longrightarrow> scaled refund \<Longrightarrow> settled (hc_user c) (hc_hold c) refund w w'"
proof -
  obtain r where upd: "update_user (hc_user c) (\<lambda>r. hc_hold c \<le> wu_frozen r) refund (- hc_hold c) w = Some (r, w')"
    using run by (auto simp: settle_account_def split: option.splits)
  show "wallet_inv w'" by (rule update_user_inv [OF inv upd])
  show "settled (hc_user c) (hc_hold c) refund w w'" if "scaled (hc_hold c)" "scaled refund"
    using update_user_layers [OF inv upd that(2) scaled_minus [OF that(1)]] update_user_frozen(2) [OF upd]
    by (simp add: settled_def)
qed

lemma settle_rewards_ok:
  assumes inv: "wallet_inv w" and u: "0 < hc_user c" and a: "scaled (hc_actual c)" "0 \<le> hc_actual c"
    and key: "hc_request c \<noteq> ''auto-expiry''" and run: "settle_rewards env c w = Inr (x, w')"
  shows "wallet_inv w'"
proof (cases "hc_batch c = []")
  case True
  thus ?thesis using run inv by (simp add: settle_rewards_def)
next
  case False
  obtain y w1 where e: "expire_reward_credits_for_user env (hc_user c) (we_now env) w = Inr (y, w1)"
    and rest: "(let ls = load_batch_image_reward_allocations (hc_user c) (hold_request_id (hc_batch c)) w1 in
        if ls = [] then Inr (None, w1)
        else and_then (settle_batch_image_reward_allocations c ls (we_now env) w1) (\<lambda>(r, w2). Inr (Some r, w2))) = Inr (x, w')"
    using run False by (auto simp: settle_rewards_def elim!: and_then_InrE)
  have inv1: "wallet_inv w1" using expire_for_user_ok [OF inv u e] by blast
  note rows = load_rows [OF wallet_inv_ledger [OF inv1]]
  show ?thesis using rest inv1 settle_batch_ok(1) [OF inv1 rows a key]
    by (auto simp: Let_def elim!: and_then_InrE split: if_splits)
qed

lemma capture_split:
  assumes "capture_usage_billing_batch_image_balance env c w = Inr (x, w')"
  obtains "hc_hold c \<le> 0" "hc_actual c \<le> 0" "w' = w"
  | "settle_rewards env c w = Inr (Some x, w')" "hc_actual c \<le> hc_hold c + 1 / 10 ^ 8"
  | w1 where "settle_rewards env c w = Inr (None, w1)" "settle_account c (hc_hold c - hc_actual c) w1 = Inr (x, w')"
      "hc_actual c \<le> hc_hold c + 1 / 10 ^ 8"
  using assms unfolding capture_usage_billing_batch_image_balance_def
  by (auto simp: not_less elim!: and_then_InrE split: if_split_asm option.split_asm)

lemma release_split:
  assumes "release_usage_billing_batch_image_balance env c w = Inr (x, w')"
  obtains "w' = w"
  | "settle_rewards env (c\<lparr>hc_actual := 0\<rparr>) w = Inr (Some x, w')"
  | w1 where "settle_rewards env (c\<lparr>hc_actual := 0\<rparr>) w = Inr (None, w1)" "settle_account c (hc_hold c) w1 = Inr (x, w')"
  using assms unfolding release_usage_billing_batch_image_balance_def
  by (auto elim!: and_then_InrE split: if_split_asm option.split_asm)

lemma capture_inv:
  assumes inv: "wallet_inv w" and c: "0 < hc_user c" "scaled (hc_actual c)" "0 \<le> hc_actual c" "hc_request c \<noteq> ''auto-expiry''"
    and run: "capture_usage_billing_batch_image_balance env c w = Inr (x, w')"
  shows "wallet_inv w'"
  using run
proof (cases rule: capture_split)
  case (3 w1)
  thus ?thesis using settle_account_ok(1) [OF settle_rewards_ok [OF inv c 3(1)] 3(2)] by simp
qed (use inv settle_rewards_ok [OF inv c] in simp_all)

lemma release_inv:
  assumes inv: "wallet_inv w" and c: "0 < hc_user c" "hc_request c \<noteq> ''auto-expiry''"
    and run: "release_usage_billing_batch_image_balance env c w = Inr (x, w')"
  shows "wallet_inv w'"
proof -
  have r: "wallet_inv w1" if "settle_rewards env (c\<lparr>hc_actual := 0\<rparr>) w = Inr (y, w1)" for y w1
    using settle_rewards_ok [OF inv _ _ _ _ that] c by simp
  from run show ?thesis
  proof (cases rule: release_split)
    case (3 w1)
    thus ?thesis using settle_account_ok(1) [OF r [OF 3(1)] 3(2)] by simp
  qed (use inv r in simp_all)
qed

end
