(* ===== verification/Wallet_Safety.thy ===== *)
theory Wallet_Safety
  imports Wallet_Laws
begin

text \<open>
  Runs of the wallet: grants, the background expiry and the steps keep \<open>wallet_inv\<close>; the properties
  of settling a request and a hold.
\<close>

section \<open>Granting\<close>

lemma no_history:
  assumes inv: "ledger_inv w" and i: "w_next_credit w \<le> i"
  shows "held w i = 0" "spent w i = 0" "\<not> auto_expired w i"
proof -
  have a: "filter (\<lambda>l. al_credit l = i) (w_allocs w) = []"
    using inv i by (fastforce simp: filter_empty_conv ledger_inv_def)
  have e: "filter (spending i) (w_events w) = []"
    using inv i by (fastforce simp: filter_empty_conv ledger_inv_def spending_def)
  have x: "\<not> list_ex (same_event i Ev_Expire ''auto-expiry'') (w_events w)"
    using inv i by (fastforce simp: list_ex_iff ledger_inv_def same_event_def)
  show "held w i = 0" "spent w i = 0" "\<not> auto_expired w i"
    by (simp_all add: held_def spent_def auto_expired_def a e x)
qed

text \<open>A new row with no history but the event of its grant.\<close>

lemma ledger_new_credit:
  assumes inv: "ledger_inv w" and c: "rc_id c = w_next_credit w" "credit_checks c" "scaled (rc_original c)"
      "rc_remaining c = rc_original c" "rc_reserved c = 0"
    and e: "ev_credit e = rc_id c" "ev_type e = Ev_Grant"
  shows "ledger_inv (w\<lparr>w_credits := w_credits w @ [c], w_next_credit := w_next_credit w + 1, w_events := w_events w @ [e]\<rparr>)"
proof -
  let ?w = "w\<lparr>w_credits := w_credits w @ [c], w_next_credit := w_next_credit w + 1, w_events := w_events w @ [e]\<rparr>"
  have h: "held ?w i = held w i" "spent ?w i = spent w i" "auto_expired ?w i = auto_expired w i" for i
    using e by (simp_all add: held_def spent_def spending_def auto_expired_def same_event_def)
  have ok: "credit_ok ?w d = credit_ok w d" for d using credit_ok_cong h by blast
  have new: "credit_ok ?w c" unfolding credit_ok_def h using c no_history [OF inv, of "rc_id c"] by simp
  have fresh: "w_next_credit w \<notin> rc_id ` set (w_credits w)" using ledger_credit(2) [OF inv] by force
  have old: "credit_ok w d \<and> rc_id d < w_next_credit w + 1 \<and> (auto_expired w (rc_id d) \<longrightarrow> rc_expired_at d \<noteq> None)"
    if "d \<in> set (w_credits w)" for d using inv that by (force simp: ledger_inv_def)
  have al: "al_id l < w_next_alloc w \<and> al_credit l < w_next_credit w + 1 \<and> allocation_ok l" if "l \<in> set (w_allocs w)" for l
    using ledger_allocs(2) [OF inv that] by simp
  have ev: "ev_credit x < w_next_credit w + 1" if "x \<in> set (w_events w)" for x
    using inv that by (force simp: ledger_inv_def)
  have na: "\<not> auto_expired w (rc_id c)" using no_history [OF inv] c(1) by simp
  have d1: "distinct (map rc_id (w_credits w))" "distinct (map al_id (w_allocs w))" using inv by (simp_all add: ledger_inv_def)
  show ?thesis unfolding ledger_inv_def h ok using new fresh old al ev na d1 e(1) c(1) unfolding ok
    by (simp add: ball_Un)
qed

lemma repo_grant_cases:
  assumes "repo_grant g w = Inr (x, w')"
  obtains "w' = w" "\<not> gs_applied x"
  | r w1 where "gs_applied x" "credit_checks (granted_credit g (w_next_credit w))"
      "update_user (gr_user g) (\<lambda>_. True) (gr_amount g) 0
        (w\<lparr>w_credits := w_credits w @ [granted_credit g (w_next_credit w)], w_next_credit := w_next_credit w + 1\<rparr>) = Some (r, w1)"
      "insert_event (w_next_credit w) (gr_user g) Ev_Grant (gr_source g) (gr_amount g) w1 = Inr w'"
  using assms
  by (auto simp: repo_grant_def grant_reward_credit_def existing_reward_credit_grant_result_def Let_def
      elim!: and_then_InrE split: option.split_asm if_split_asm)

lemma grant_inv:
  assumes inv: "wallet_inv w" and run: "repo_grant g w = Inr (x, w')"
  shows "wallet_inv w'"
  using run
proof (cases rule: repo_grant_cases)
  case (2 r w1)
  let ?c = "granted_credit g (w_next_credit w)"
  let ?e = "\<lparr>ev_credit = w_next_credit w, ev_user = gr_user g, ev_type = Ev_Grant, ev_key = gr_source g,
      ev_amount = money (gr_amount g)\<rparr>"
  obtain r0 where w1: "w1 = w\<lparr>w_credits := w_credits w @ [?c], w_next_credit := w_next_credit w + 1,
      w_users := (w_users w)(gr_user g \<mapsto> r)\<rparr>"
    and r: "w_users w (gr_user g) = Some r0" "scaled (wu_balance r)" "scaled (wu_frozen r)"
    using 2(3) inv by (auto simp: update_user_Some_iff wallet_inv_def)
  have w': "w' = w\<lparr>w_credits := w_credits w @ [?c], w_next_credit := w_next_credit w + 1,
      w_events := w_events w @ [?e]\<rparr>\<lparr>w_users := (w_users w)(gr_user g \<mapsto> r)\<rparr>"
    by (rule insert_event_InrE [OF 2(4)]) (simp add: w1)
  have "ledger_inv w'" unfolding w' ledger_frame
    by (rule ledger_new_credit [OF wallet_inv_ledger [OF inv]]) (use 2(2) in \<open>simp_all add: granted_credit_def\<close>)
  thus ?thesis using inv r by (simp add: wallet_inv_def w')
qed (use inv in simp)

section \<open>The background expiry\<close>

lemma subtract_each_ok:
  assumes "wallet_inv w" "\<And>u a. (u, a) \<in> set us \<Longrightarrow> scaled a" "subtract_each us w = Inr w'"
  shows "wallet_inv w' \<and> (\<forall>v. rewards w' v = rewards w v \<and> frozen w' v = frozen w v \<and>
    balance w' v = balance w v - sum_list (map snd (filter (\<lambda>p. fst p = v) us)))"
  using assms
proof (induction us arbitrary: w)
  case (Cons p us)
  obtain u a where p: "p = (u, a)" by force
  obtain w1 where s: "subtract_expired_reward_balance u a w = Inr w1" and rest: "subtract_each us w1 = Inr w'"
    using Cons.prems(3) by (auto simp: p elim!: and_then_InrE)
  note o = subtract_expired_ok [OF Cons.prems(1) Cons.prems(2) [of u a] s]
  have "wallet_inv w' \<and> (\<forall>v. rewards w' v = rewards w1 v \<and> frozen w' v = frozen w1 v \<and>
    balance w' v = balance w1 v - sum_list (map snd (filter (\<lambda>p. fst p = v) us)))"
    by (rule Cons.IH [OF _ _ rest]) (use o Cons.prems(2) p in auto)
  thus ?case using o by (simp add: p)
qed simp

lemma by_user_total: "sum_list (map snd (filter (\<lambda>p. fst p = v) (by_user cs))) = total_remaining (of_user v cs)"
proof -
  have one: "distinct us \<Longrightarrow> sum_list (map snd (filter (\<lambda>p. fst p = v) (map (\<lambda>u. (u, f u)) us))) = (if v \<in> set us then f v else 0)"
    for us :: "int list" and f :: "int \<Rightarrow> rat"
    by (induction us) auto
  have none: "v \<notin> set (map rc_user cs) \<Longrightarrow> of_user v cs = []" by (auto simp: of_user_def filter_empty_conv)
  show ?thesis unfolding by_user_def one [OF distinct_remdups] using none by (auto simp: of_user_def)
qed

lemma expire_batch_ok:
  assumes inv: "wallet_inv w" and run: "expire_batch env n w = Inr (x, w')"
  shows "wallet_inv w' \<and> (\<forall>v. frozen w' v = frozen w v \<and> account w' v = account w v \<and>
    rewards w' v = rewards w v - total_remaining (of_user v (select_expired_reward_credits env 0 (we_now env) (batch_limit n) w)))"
proof -
  define cs where "cs = select_expired_reward_credits env 0 (we_now env) (batch_limit n) w"
  have linv: "ledger_inv w" using inv by (rule wallet_inv_ledger)
  have live: "live_rows w cs" using select_expired_live [OF linv] by (simp add: cs_def)
  have "wallet_inv w' \<and> (\<forall>v. frozen w' v = frozen w v \<and> account w' v = account w v \<and>
    rewards w' v = rewards w v - total_remaining (of_user v cs))"
  proof (cases "cs = []")
    case True
    thus ?thesis using run inv by (simp add: expire_batch_def Let_def cs_def [symmetric] of_user_def)
  next
    case False
    then obtain w1 where w1: "expire_credits (we_now env) cs w = Inr w1" and sub: "subtract_each (by_user cs) w1 = Inr w'"
      using run by (auto simp: expire_batch_def Let_def cs_def [symmetric] elim!: and_then_InrE)
    note e = expire_credits_ok [OF linv live w1]
    have inv1: "wallet_inv w1" using ledger_step_wallet inv e by blast
    have "scaled a" if "(u, a) \<in> set (by_user cs)" for u a
    proof -
      have "live_rows w (filter (\<lambda>c. rc_user c = u) cs)" using live by (auto simp: live_rows_def distinct_map_filter)
      thus ?thesis using that scaled_total [OF linv] by (auto simp: by_user_def)
    qed
    note s = subtract_each_ok [OF inv1 this sub, unfolded by_user_total]
    show ?thesis using e s by (auto simp: account_def ledger_only_layers)
  qed
  thus ?thesis by (simp add: cs_def)
qed

section \<open>Steps\<close>

definition op_ok :: "wallet_op \<Rightarrow> bool" where
  "op_ok x = (case x of Do_Apply c \<Rightarrow> 0 < uc_user c | Do_Reserve c \<Rightarrow> hold_ok c | Do_Capture c \<Rightarrow> hold_ok c
     | Do_Release c \<Rightarrow> hold_ok c | _ \<Rightarrow> True)"

lemma normalize_fields [simp]:
  "uc_user (usage_normalize sha f10 c) = uc_user c"
  "hc_user (hold_normalize sha f10 h) = hc_user h" "hc_hold (hold_normalize sha f10 h) = hc_hold h"
  "hc_actual (hold_normalize sha f10 h) = hc_actual h" "hc_api_key (hold_normalize sha f10 h) = hc_api_key h"
  "hc_request (hold_normalize sha f10 h) = trim_space (hc_request h)"
  "hc_batch (hold_normalize sha f10 h) = trim_space (hc_batch h)"
  by (simp_all add: usage_normalize_def quantize_monetary_fields_def hold_normalize_def Let_def)

lemma usage_apply_split:
  assumes "usage_apply sha f10 env c w = Inr (r, w')"
  obtains "r = not_applied" "w' = w"
  | w1 where "claim_usage_billing_request env (uc_request (usage_normalize sha f10 c)) (uc_api_key (usage_normalize sha f10 c))
        (uc_fingerprint (usage_normalize sha f10 c)) w = Inr (True, w1)"
      "apply_usage_billing_effects env (usage_normalize sha f10 c)
        (not_applied\<lparr>ar_applied := True, ar_billing_type := uc_billing_type (usage_normalize sha f10 c)\<rparr>) w1 = Inr (r, w')"
  using assms by (auto simp: usage_apply_def Let_def elim!: and_then_InrE split: if_split_asm)

lemma usage_apply_inv:
  assumes inv: "wallet_inv w" and u: "0 < uc_user c" and run: "usage_apply sha f10 env c w = Inr (r, w')"
  shows "wallet_inv w'"
  using run
proof (cases rule: usage_apply_split)
  case (2 w1)
  have "wallet_inv w1" using same_money_layers(5) [OF claim_same_money [OF 2(1)]] inv by simp
  thus ?thesis using effects_inv [OF _ _ quantized_amount 2(2)] u by simp
qed (use inv in simp)

lemma hold_apply_split:
  assumes "apply_batch_image_balance_hold sha f10 oper env c w = Inr (r, w')"
  obtains "r = no_hold" "w' = w"
  | w1 x where "claim_usage_billing_request env (hc_request (hold_normalize sha f10 c)) (hc_api_key (hold_normalize sha f10 c))
        (hc_fingerprint (hold_normalize sha f10 c)) w = Inr (True, w1)"
      "oper env (hold_normalize sha f10 c) w1 = Inr (x, w')" "r = x\<lparr>hr_applied := True\<rparr>"
  using assms by (auto simp: apply_batch_image_balance_hold_def Let_def elim!: and_then_InrE split: if_split_asm)

lemma hold_apply_inv:
  assumes inv: "wallet_inv w" and run: "apply_batch_image_balance_hold sha f10 oper env c w = Inr (r, w')"
    and oper: "\<And>w1 x w2. wallet_inv w1 \<Longrightarrow> oper env (hold_normalize sha f10 c) w1 = Inr (x, w2) \<Longrightarrow> wallet_inv w2"
  shows "wallet_inv w'"
  using run
proof (cases rule: hold_apply_split)
  case (2 w1 x)
  have "wallet_inv w1" using same_money_layers(5) [OF claim_same_money [OF 2(1)]] inv by simp
  thus ?thesis using oper 2(2) by blast
qed (use inv in simp)

lemma reserve_inv:
  assumes inv: "wallet_inv w" and c: "0 < hc_user c" "scaled (hc_hold c)"
    and run: "reserve_usage_billing_batch_image_balance env c w = Inr (x, w')"
  shows "wallet_inv w'"
proof (cases "0 < hc_hold c \<and> hc_batch c \<noteq> []")
  case True
  thus ?thesis using reserve_ok(1) [OF inv c _ _ run] by simp
next
  case False
  hence "w' = w \<or> reserve_from_account c w = Inr (x, w')"
    using run by (auto simp: reserve_usage_billing_batch_image_balance_def split: if_splits)
  thus ?thesis using inv reserve_from_account_ok(1) [OF inv] by blast
qed

lemma hold_inv:
  assumes "wallet_inv w" "hold_ok c"
  shows "reserve_batch_image_balance sha f10 env c w = Inr (r, w') \<Longrightarrow> wallet_inv w'"
    "capture_batch_image_balance sha f10 env c w = Inr (r, w') \<Longrightarrow> wallet_inv w'"
    "release_batch_image_balance sha f10 env c w = Inr (r, w') \<Longrightarrow> wallet_inv w'"
proof -
  let ?c = "hold_normalize sha f10 c"
  have c: "0 < hc_user ?c" "scaled (hc_hold ?c)" "scaled (hc_actual ?c)" "0 \<le> hc_actual ?c" "hc_request ?c \<noteq> ''auto-expiry''"
    using assms(2) by (simp_all add: hold_ok_def)
  show "wallet_inv w'" if "reserve_batch_image_balance sha f10 env c w = Inr (r, w')"
    by (rule hold_apply_inv [OF assms(1) that [unfolded reserve_batch_image_balance_def]]) (rule reserve_inv [OF _ c(1,2)])
  show "wallet_inv w'" if "capture_batch_image_balance sha f10 env c w = Inr (r, w')"
    by (rule hold_apply_inv [OF assms(1) that [unfolded capture_batch_image_balance_def]]) (rule capture_inv [OF _ c(1,3,4,5)])
  show "wallet_inv w'" if "release_batch_image_balance sha f10 env c w = Inr (r, w')"
    by (rule hold_apply_inv [OF assms(1) that [unfolded release_batch_image_balance_def]]) (rule release_inv [OF _ c(1,5)])
qed

lemma expire_user_inv:
  assumes "wallet_inv w"
  shows "expire_user env u w = Inr (x, w') \<Longrightarrow> wallet_inv w'" "get_summary env u w = Inr (y, w') \<Longrightarrow> wallet_inv w'"
  using expire_for_user_ok [OF assms, of u env]
  by (auto simp: expire_user_def get_summary_def Let_def elim!: and_then_InrE split: if_splits)

lemma commit_inv: "wallet_inv w \<Longrightarrow> (\<And>r w'. res = Inr (r, w') \<Longrightarrow> wallet_inv w') \<Longrightarrow> wallet_inv (snd (commit f w res))"
  by (auto simp: commit_def split: sum.splits)

lemma wallet_step_inv:
  assumes "wallet_inv w" "op_ok x"
  shows "wallet_inv (snd (wallet_step sha f10 (env, x) w))"
proof (cases x)
  case (Do_Archive victim cutoff)
  thus ?thesis using assms(1) by (simp add: archive_claims_def Let_def)
next
  case (Do_Adjust u a)
  thus ?thesis using assms(1) update_user_inv [OF assms(1)] by (auto split: option.splits)
qed (use assms in \<open>auto simp: op_ok_def intro!: commit_inv intro: usage_apply_inv hold_inv grant_inv expire_user_inv
    conjunct1 [OF expire_batch_ok]\<close>)

lemma run_inv:
  assumes "wallet_inv w" "list_all (\<lambda>(env, x). op_ok x) ops"
  shows "wallet_inv (snd (run_ops (wallet_step sha f10) ops w))"
  using assms
proof (induction ops arbitrary: w)
  case (Cons p ops)
  obtain env x where p: "p = (env, x)" by force
  show ?case using Cons.IH [OF wallet_step_inv [of w x sha f10 env]] Cons.prems by (simp add: p split_beta)
qed simp

section \<open>Settling a hold\<close>

definition hold_allocations :: "hold_cmd \<Rightarrow> wallet \<Rightarrow> reward_allocation list" where
  "hold_allocations c w = load_batch_image_reward_allocations (hc_user c) (hold_request_id (hc_batch c)) w"

lemma expire_credits_rows:
  "expire_credits now cs w = Inr w' \<Longrightarrow> w_allocs w' = w_allocs w \<and> map rc_id (w_credits w') = map rc_id (w_credits w)"
proof (induction cs arbitrary: w)
  case (Cons c cs)
  obtain n w1 w2 where upd: "update_credit (rc_id c) (\<lambda>r. 0 < rc_remaining r)
       (\<lambda>r. r\<lparr>rc_remaining := 0, rc_expired_at := (case rc_expired_at r of None \<Rightarrow> Some now | t \<Rightarrow> t)\<rparr>) w = Inr (n, w1)"
    and ev: "insert_event_once (rc_id c) (rc_user c) Ev_Expire ''auto-expiry'' (rc_remaining c) w1 = Inr w2"
    and rest: "expire_credits now cs w2 = Inr w'"
    using Cons.prems by (auto simp: expire_reward_credit_def elim!: and_then_InrE)
  have "w_allocs w2 = w_allocs w1 \<and> w_credits w2 = w_credits w1"
    using ev by (auto simp: insert_event_once_def insert_event_def split: if_splits)
  thus ?case using Cons.IH [OF rest] update_credit_Inr(2) [OF upd] by (simp add: comp_def if_distrib cong: if_cong)
qed simp

lemma expire_user_rows:
  assumes "expire_reward_credits_for_user env u now w = Inr (x, w')"
  shows "w_allocs w' = w_allocs w" "map rc_id (w_credits w') = map rc_id (w_credits w)"
  using assms expire_credits_rows [of now "select_expired_reward_credits env u now 0 w" w]
  by (auto simp: expire_reward_credits_for_user_def subtract_expired_reward_balance_def update_user_Some_iff Let_def
      elim!: and_then_InrE split: if_splits option.splits)

lemma hold_allocations_cong:
  assumes "w_allocs w' = w_allocs w" "map rc_id (w_credits w') = map rc_id (w_credits w)"
  shows "hold_allocations c w' = hold_allocations c w"
proof -
  have "list_ex (\<lambda>r. rc_id r = i) (w_credits w') = list_ex (\<lambda>r. rc_id r = i) (w_credits w)" for i
    using arg_cong [OF assms(2), of "list_ex (\<lambda>j. j = i)"] by (simp only: list_ex_iff set_map bex_simps)
  thus ?thesis by (simp add: hold_allocations_def load_batch_image_reward_allocations_def assms(1))
qed

text \<open>
  What the settlement of a hold does to the user: expired credits leave the balance, \<open>tot\<close> leaves
  the frozen balance, and \<open>refund\<close> of it returns to the balance.
\<close>

definition hold_settled :: "int \<Rightarrow> rat \<Rightarrow> rat \<Rightarrow> rat \<Rightarrow> wallet \<Rightarrow> wallet \<Rightarrow> bool" where
  "hold_settled u lapse tot refund w w' \<longleftrightarrow> tot \<le> frozen w u \<and> (\<forall>v.
     frozen w' v = frozen w v - (if v = u then tot else 0) \<and>
     balance w' v = balance w v + (if v = u then refund - lapse else 0))"

definition returned :: "time \<Rightarrow> hold_cmd \<Rightarrow> reward_allocation list \<Rightarrow> rat \<Rightarrow> rat \<Rightarrow> bool" where
  "returned now c ls tot refund \<longleftrightarrow>
     (if ls = [] then tot = hc_hold c \<and> refund = hc_hold c - hc_actual c
      else tot = sum_list (map outstanding ls) \<and> hc_actual c \<le> tot \<and>
        refund = min (live_outstanding now ls) (tot - hc_actual c))"

lemma hold_allocations_sorted: "sorted (map al_expires_at (hold_allocations c w))"
proof -
  have "sorted (map fst (map (\<lambda>l. (al_expires_at l, al_id l)) (sort_key (\<lambda>l. (al_expires_at l, al_id l)) ls)))" for ls
    using sorted_sort_key [of "\<lambda>l. (al_expires_at l, al_id l)" ls]
    by (auto simp: sorted_iff_nth_mono less_eq_prod_def intro: less_imp_le)
  thus ?thesis by (simp add: hold_allocations_def load_batch_image_reward_allocations_def comp_def)
qed

lemma settle_hold_ok:
  assumes inv: "wallet_inv w" and u: "0 < hc_user c" and a: "scaled (hc_actual c)" "0 \<le> hc_actual c" "scaled (hc_hold c)"
    and key: "hc_request c \<noteq> ''auto-expiry''" and b: "hc_batch c \<noteq> []"
    and run: "settle_rewards env c w = Inr (x, w1)"
    and last: "case x of Some y \<Rightarrow> w' = w1 | None \<Rightarrow> \<exists>y. settle_account d (hc_hold c - hc_actual c) w1 = Inr (y, w')"
    and d: "hc_user d = hc_user c" "hc_hold d = hc_hold c"
  shows "\<exists>tot refund. hold_settled (hc_user c) (expiring env (hc_user c) (we_now env) w) tot refund w w' \<and>
    returned (we_now env) c (hold_allocations c w) tot refund"
proof -
  obtain y w0 where e: "expire_reward_credits_for_user env (hc_user c) (we_now env) w = Inr (y, w0)"
    and rest: "(let ls = load_batch_image_reward_allocations (hc_user c) (hold_request_id (hc_batch c)) w0 in
        if ls = [] then Inr (None, w0)
        else and_then (settle_batch_image_reward_allocations c ls (we_now env) w0) (\<lambda>(r, w2). Inr (Some r, w2))) = Inr (x, w1)"
    using run b by (auto simp: settle_rewards_def elim!: and_then_InrE)
  note eo = expire_for_user_ok [OF inv u e]
  have bal: "balance w0 v = balance w v - (if v = hc_user c then expiring env (hc_user c) (we_now env) w else 0)"
    "frozen w0 v = frozen w v" for v
    using spec [OF conjunct2 [OF conjunct2 [OF eo]], of v] by (simp_all add: account_def)
  have inv0: "wallet_inv w0" using eo by blast
  define ls where "ls = hold_allocations c w"
  have ls: "load_batch_image_reward_allocations (hc_user c) (hold_request_id (hc_batch c)) w0 = ls"
    using hold_allocations_cong [OF expire_user_rows [OF e]] by (simp add: ls_def hold_allocations_def)
  have "\<exists>tot refund. settled (hc_user c) tot refund w0 w' \<and> returned (we_now env) c ls tot refund"
  proof (cases "ls = []")
    case True
    hence "x = None" "w1 = w0" using rest by (simp_all add: ls Let_def)
    then obtain z where "settle_account d (hc_hold c - hc_actual c) w0 = Inr (z, w')" using last by auto
    hence "settled (hc_user c) (hc_hold c) (hc_hold c - hc_actual c) w0 w'"
      using settle_account_ok(2) [OF inv0] a(3) d scaled_diff [OF a(3,1)] by metis
    thus ?thesis using True by (auto simp: returned_def)
  next
    case False
    then obtain z where "settle_batch_image_reward_allocations c ls (we_now env) w0 = Inr (z, w1)" "x = Some z"
      using rest by (auto simp: ls Let_def elim!: and_then_InrE)
    note sb = this
    have rows: "hold_rows w0 ls" using load_rows [OF wallet_inv_ledger [OF inv0]] ls by metis
    have "sorted (map al_expires_at ls)" by (simp add: ls_def hold_allocations_sorted)
    moreover have "\<forall>l \<in> set ls. 0 \<le> outstanding l"
      using rows outstanding_ok(2) [OF wallet_inv_ledger [OF inv0]] by (auto simp: hold_rows_def)
    ultimately have "give_back (we_now env) ls (hc_actual c) =
        min (live_outstanding (we_now env) ls) (max 0 (sum_list (map outstanding ls) - hc_actual c))"
      using a(2) by (rule give_back_closed)
    thus ?thesis using settle_batch_ok(2) [OF inv0 rows a(1,2) key sb(1)] False last sb(2) by (auto simp: returned_def)
  qed
  then obtain tot refund where s: "settled (hc_user c) tot refund w0 w'" "returned (we_now env) c ls tot refund" by blast
  have "hold_settled (hc_user c) (expiring env (hc_user c) (we_now env) w) tot refund w w'"
    using s(1) bal by (simp add: settled_def hold_settled_def)
  thus ?thesis using s(2) by (auto simp: ls_def)
qed

section \<open>Properties\<close>

definition settles_or_skips :: "(string \<Rightarrow> string) \<Rightarrow> (rat \<Rightarrow> string) \<Rightarrow> wallet_env \<Rightarrow> wallet \<Rightarrow> wallet_op \<Rightarrow> string \<times> int \<Rightarrow> bool" where
  "settles_or_skips sha f10 env w x k \<longleftrightarrow> wallet_step sha f10 (env, x) w = (None, w) \<or>
     fst (wallet_step sha f10 (env, x) w) = Some k"

text \<open>
  Claim C9. In every run of wallet operations, of any length and order and from any state, a request
  (its trimmed id and API key) is settled by at most one operation, even when its claim moves to
  the archive in between; and a call of \<open>Apply\<close>, \<open>ReserveBatchImageBalance\<close>,
  \<open>CaptureBatchImageBalance\<close> or \<open>ReleaseBatchImageBalance\<close> either settles its own request or changes
  nothing at all.
\<close>

theorem usage_billed_once:
  "count_list (fst (run_ops (wallet_step sha f10) ops w)) (Some k) \<le> 1 \<and>
   settles_or_skips sha f10 env w (Do_Apply c) (trim_space (uc_request c), uc_api_key c) \<and>
   settles_or_skips sha f10 env w (Do_Reserve h) (trim_space (hc_request h), hc_api_key h) \<and>
   settles_or_skips sha f10 env w (Do_Capture h) (trim_space (hc_request h), hc_api_key h) \<and>
   settles_or_skips sha f10 env w (Do_Release h) (trim_space (hc_request h), hc_api_key h)"
proof -
  have u: "settles_or_skips sha f10 env w (Do_Apply c) (trim_space (uc_request c), uc_api_key c)"
    using usage_claims(3) [of sha f10 env c w] by (auto simp: settles_or_skips_def commit_def usage_key_def split: sum.splits)
  have "commit (hold_key h) w (apply_batch_image_balance_hold sha f10 oper env h w) = (None, w) \<or>
    fst (commit (hold_key h) w (apply_batch_image_balance_hold sha f10 oper env h w)) = Some (trim_space (hc_request h), hc_api_key h)"
    for oper
  proof (cases "apply_batch_image_balance_hold sha f10 oper env h w")
    case (Inr p)
    then obtain r w' where p: "apply_batch_image_balance_hold sha f10 oper env h w = Inr (r, w')" by (cases p) auto
    show ?thesis using p
    proof (cases rule: hold_apply_split)
      case 1
      thus ?thesis using p by (simp add: commit_def hold_key_def no_hold_def)
    next
      case (2 w1 x)
      thus ?thesis using p by (simp add: commit_def hold_key_def)
    qed
  qed (simp add: commit_def)
  thus ?thesis using settle.one_claim u by (simp add: hold_ops settles_or_skips_def)
qed

text \<open>
  Claim C10. The ledger of the reward credits: from a wallet in order, every run of operations of the
  wallet keeps for every credit that its original amount is what remains plus what holds have
  reserved plus what its events say was consumed, captured or expired, that its reserved amount is
  what its allocations have outstanding, and that balances have eight decimal places. The commands
  name a user, and the amounts of holds have at most eight decimal places.
\<close>

theorem wallet_ledger:
  assumes "wallet_inv w" "list_all (\<lambda>(env, x). op_ok x) ops"
    and "c \<in> set (w_credits (snd (run_ops (wallet_step sha f10) ops w)))"
  shows "wallet_inv (snd (run_ops (wallet_step sha f10) ops w)) \<and>
    rc_original c = rc_remaining c + rc_reserved c + spent (snd (run_ops (wallet_step sha f10) ops w)) (rc_id c) \<and>
    rc_reserved c = held (snd (run_ops (wallet_step sha f10) ops w)) (rc_id c) \<and> 0 \<le> rc_remaining c \<and> 0 \<le> rc_reserved c"
proof -
  note inv = run_inv [OF assms(1,2), of sha f10]
  note ok = credit_okD [OF ledger_credit(1) [OF wallet_inv_ledger [OF inv] assms(3)]]
  show ?thesis using inv ok(1,5,6) by (simp add: credit_checks_def)
qed

text \<open>
  Claim C11. A settled request is paid by exactly one layer and in full. With daily or affiliate
  credits, the reward credits of the user shrink by the amount and the account part of the balance
  and the subscription stay; from the account, the account part shrinks by the cost; by the
  subscription, only its counters grow, within the weekly limit unless overrun is allowed. Expired
  credits of the user are dropped on the way, no other user and no frozen balance is touched, and
  a request with no funding has nothing to bill.
\<close>

theorem usage_one_layer:
  assumes "wallet_inv w" "0 < uc_user cmd" "c = usage_normalize sha f10 cmd" "scaled (uc_fallback_cost cmd)"
    and "subscription_billed c \<Longrightarrow> uc_balance_cost c \<le> 0"
    and "usage_apply sha f10 env cmd w = Inr (r, w')" "ar_applied r"
  shows "frozen w' v = frozen w v \<and>
    account w' v = account w v - (if v = uc_user cmd then account_charge r c else 0) \<and>
    rewards w' v = rewards w v - (if v = uc_user cmd then lapsing env c w + reward_charge r c else 0) \<and>
    (if ar_funding r = Fund_Subscription then sub_charged env c w w' else w_subs w' = w_subs w) \<and>
    (ar_funding r = Fund_None \<longrightarrow> \<not> subscription_billed c \<and> uc_balance_cost c \<le> 0)"
  using assms(6)
proof (cases rule: usage_apply_split)
  case 1
  thus ?thesis using assms(7) by (simp add: not_applied_def)
next
  case (2 w1)
  note m = claim_same_money [OF 2(1)]
  have b: "w_subs w1 = w_subs w" "w_credits w1 = w_credits w"
    using 2(1) by (auto simp: claim_usage_billing_request_def Let_def elim!: and_then_InrE split: option.splits)
  have lap: "lapsing env c w1 = lapsing env c w"
    by (simp add: lapsing_def expiring_def select_expired_reward_credits_def b)
  have inv1: "wallet_inv w1" using same_money_layers(5) [OF m] assms(1) by simp
  have q: "scaled (usage_amount c)" "scaled (uc_balance_cost c)" "scaled (uc_fallback_cost c)" "0 < uc_user c"
    using quantized_amount [of sha f10 cmd] assms(2,4) unfolding assms(3)
    by (simp_all add: usage_normalize_def quantize_monetary_fields_def quantize_usage_billing_amount_def Let_def)
  have f: "ar_funding (not_applied\<lparr>ar_applied := True, ar_billing_type := uc_billing_type c\<rparr>) = Fund_None"
    by (simp add: not_applied_def)
  note e = effects_ok [OF inv1 q(4,1,2,3) assms(5) f 2(2) [folded assms(3)]]
  have u: "uc_user c = uc_user cmd" by (simp add: assms(3))
  have "if ar_funding r = Fund_Subscription then sub_charged env c w w' else w_subs w' = w_subs w"
    using e(4) b(1) sub_charged_cong [OF b(1) refl] by (cases "ar_funding r = Fund_Subscription") simp_all
  thus ?thesis using e(1,2,3) [of v] e(5) same_money_layers(1-4) [OF m] lap u by simp
qed

text \<open>
  Claim C33. Capturing a hold of a batch: the settlement takes from the frozen balance exactly what the
  hold put there, and never more than is frozen. For a hold paid from the account, exactly the rest
  \<open>hold - actual\<close> returns to the balance. For a hold paid with reward credits, it takes what the
  allocations of the hold have outstanding, which covers the actual cost, and exactly the smaller of two
  amounts returns: the rest \<open>outstanding - actual\<close>, and what the allocations that have not expired have
  outstanding. The lapsed credits of the user leave the balance, and nobody else is touched. The hold is
  positive, and its amounts have at most eight decimal places and are not negative.
\<close>

theorem hold_captured:
  assumes "wallet_inv w" "hold_ok c" "trim_space (hc_batch c) \<noteq> []" "0 < hc_hold c"
    and "capture_batch_image_balance sha f10 env c w = Inr (r, w')" "hr_applied r"
  shows "\<exists>tot refund. hold_settled (hc_user c) (expiring env (hc_user c) (we_now env) w) tot refund w w' \<and>
    returned (we_now env) c (hold_allocations (c\<lparr>hc_batch := trim_space (hc_batch c)\<rparr>) w) tot refund"
  using assms(5) unfolding capture_batch_image_balance_def
proof (cases rule: hold_apply_split)
  case 1
  thus ?thesis using assms(6) by (simp add: no_hold_def)
next
  case (2 w1 x)
  let ?c = "hold_normalize sha f10 c"
  note m = claim_same_money [OF 2(1)]
  have inv1: "wallet_inv w1" using same_money_layers(5) [OF m] assms(1) by simp
  have c: "0 < hc_user ?c" "scaled (hc_actual ?c)" "0 \<le> hc_actual ?c" "scaled (hc_hold ?c)" "hc_request ?c \<noteq> ''auto-expiry''"
    "hc_batch ?c \<noteq> []"
    using assms(2,3) by (simp_all add: hold_ok_def)
  have "\<exists>y w2. settle_rewards env ?c w1 = Inr (y, w2) \<and>
    (case y of Some z \<Rightarrow> w' = w2 | None \<Rightarrow> \<exists>z. settle_account ?c (hc_hold ?c - hc_actual ?c) w2 = Inr (z, w'))"
    using 2(2)
  proof (cases rule: capture_split)
    case 1
    thus ?thesis using assms(4) by simp
  next
    case 2
    thus ?thesis by (intro exI [of _ "Some x"] exI [of _ w']) simp
  next
    case (3 w2)
    thus ?thesis by (intro exI [of _ None] exI [of _ w2]) auto
  qed
  then obtain tot refund where s: "hold_settled (hc_user c) (expiring env (hc_user c) (we_now env) w1) tot refund w1 w'"
    "returned (we_now env) ?c (hold_allocations ?c w1) tot refund"
    using settle_hold_ok [OF inv1 c] by fastforce
  have cr: "w_credits w1 = w_credits w" "w_allocs w1 = w_allocs w" using m by (simp_all add: same_money_def)
  have "expiring env (hc_user c) (we_now env) w1 = expiring env (hc_user c) (we_now env) w"
    by (simp add: expiring_def select_expired_reward_credits_def cr)
  moreover have "hold_allocations ?c w1 = hold_allocations (c\<lparr>hc_batch := trim_space (hc_batch c)\<rparr>) w"
    by (simp add: hold_allocations_def load_batch_image_reward_allocations_def cr)
  moreover have "returned (we_now env) ?c ls tot refund = returned (we_now env) c ls tot refund" for ls
    by (simp only: returned_def normalize_fields)
  ultimately show ?thesis using s same_money_layers(1,2) [OF m]
    by (intro exI [of _ tot] exI [of _ refund]) (simp add: hold_settled_def)
qed

lemma claim_exists_after:
  assumes "claim_usage_billing_request env rid key fp w = Inr (True, w1)" "rid \<noteq> hid"
  shows "hold_claim_exists hid k w1 \<longleftrightarrow> hold_claim_exists hid k w"
  using assms by (auto simp: claim_usage_billing_request_def claim_verdict_def hold_claim_exists_def find_claim_def Let_def
      find_None_iff elim!: and_then_InrE split: option.splits if_splits)

text \<open>
  Claim C35. Releasing a hold of a batch. When no reservation of the batch was ever claimed, nothing changes. Otherwise
  the whole hold leaves the frozen balance: for a hold paid from the account exactly its amount returns to the
  balance; for a hold paid with reward credits exactly what its allocations that have not expired have
  outstanding. Whether the hold was captured before is not asked for: the allocations of a captured hold
  have nothing outstanding any more, but an account hold is returned once more, out of what else the user has
  frozen.
\<close>

theorem hold_released:
  assumes "wallet_inv w" "hold_ok c" "trim_space (hc_batch c) \<noteq> []" "0 < hc_hold c"
    and "trim_space (hc_request c) \<noteq> hold_request_id (trim_space (hc_batch c))"
    and "release_batch_image_balance sha f10 env c w = Inr (r, w')" "hr_applied r"
  shows "if hold_claim_exists (hold_request_id (trim_space (hc_batch c))) (hc_api_key c) w
    then \<exists>tot refund. hold_settled (hc_user c) (expiring env (hc_user c) (we_now env) w) tot refund w w' \<and>
      returned (we_now env) (c\<lparr>hc_actual := 0\<rparr>) (hold_allocations (c\<lparr>hc_batch := trim_space (hc_batch c)\<rparr>) w) tot refund
    else \<forall>v. balance w' v = balance w v \<and> frozen w' v = frozen w v"
  using assms(6) unfolding release_batch_image_balance_def
proof (cases rule: hold_apply_split)
  case 1
  thus ?thesis using assms(7) by (simp add: no_hold_def)
next
  case (2 w1 x)
  let ?c = "hold_normalize sha f10 c" and ?id = "hold_request_id (trim_space (hc_batch c))"
  let ?d = "?c\<lparr>hc_actual := 0\<rparr>"
  note m = claim_same_money [OF 2(1)]
  have inv1: "wallet_inv w1" using same_money_layers(5) [OF m] assms(1) by simp
  have claim: "hold_claim_exists ?id (hc_api_key c) w1 = hold_claim_exists ?id (hc_api_key c) w"
    using claim_exists_after [OF 2(1), of ?id "hc_api_key c"] assms(5) by simp
  have cr: "w_credits w1 = w_credits w" "w_allocs w1 = w_allocs w" using m by (simp_all add: same_money_def)
  show ?thesis
  proof (cases "hold_claim_exists ?id (hc_api_key c) w")
    case False
    hence "w' = w1" using 2(2) claim assms(4) by (simp add: release_usage_billing_batch_image_balance_def)
    thus ?thesis using False same_money_layers(1,2) [OF m] by simp
  next
    case True
    hence run: "and_then (settle_rewards env ?d w1) (\<lambda>(r, w2). case r of Some y \<Rightarrow> Inr (y, w2)
        | None \<Rightarrow> settle_account ?c (hc_hold ?c) w2) = Inr (x, w')"
      using 2(2) claim assms(4) by (simp add: release_usage_billing_batch_image_balance_def)
    have c: "0 < hc_user ?d" "scaled (hc_actual ?d)" "0 \<le> hc_actual ?d" "scaled (hc_hold ?d)"
      "hc_request ?d \<noteq> ''auto-expiry''" "hc_batch ?d \<noteq> []"
      using assms(2,3) by (simp_all add: hold_ok_def)
    have "\<exists>y w2. settle_rewards env ?d w1 = Inr (y, w2) \<and>
      (case y of Some z \<Rightarrow> w' = w2 | None \<Rightarrow> \<exists>z. settle_account ?c (hc_hold ?d - hc_actual ?d) w2 = Inr (z, w'))"
    proof -
      obtain y w2 where y: "settle_rewards env ?d w1 = Inr (y, w2)"
        "(case y of Some z \<Rightarrow> Inr (z, w2) | None \<Rightarrow> settle_account ?c (hc_hold ?c) w2) = Inr (x, w')"
        using run by (auto elim!: and_then_InrE)
      show ?thesis by (rule exI [of _ y], rule exI [of _ w2]) (use y in \<open>auto split: option.splits\<close>)
    qed
    then obtain tot refund where s: "hold_settled (hc_user ?d) (expiring env (hc_user ?d) (we_now env) w1) tot refund w1 w'"
      "returned (we_now env) ?d (hold_allocations ?d w1) tot refund"
      using settle_hold_ok [OF inv1 c, where d = ?c] by fastforce
    have "expiring env (hc_user c) (we_now env) w1 = expiring env (hc_user c) (we_now env) w"
      by (simp add: expiring_def select_expired_reward_credits_def cr)
    moreover have "hold_allocations ?d w1 = hold_allocations (c\<lparr>hc_batch := trim_space (hc_batch c)\<rparr>) w"
      by (simp add: hold_allocations_def load_batch_image_reward_allocations_def cr)
    moreover have "returned (we_now env) ?d ls tot refund = returned (we_now env) (c\<lparr>hc_actual := 0\<rparr>) ls tot refund" for ls
      by (simp add: returned_def)
    ultimately show ?thesis using s same_money_layers(1,2) [OF m] True
      by (auto simp: hold_settled_def intro!: exI [of _ tot] exI [of _ refund])
  qed
qed

text \<open>
  Rounding: a payment from the account, of any amount, changes the balance by that amount up
  to half of the last decimal place (\<open>5e-9\<close>), and exactly when the amount has at most eight decimal
  places.
\<close>

theorem account_payment_rounding:
  assumes "wallet_inv w" "pay_from_account u cost res w = Inr (res', w')"
  shows "\<bar>(balance w u - balance w' u) - cost\<bar> \<le> 1 / (2 * 10 ^ 8) \<and>
    (scaled cost \<longrightarrow> balance w u - balance w' u = cost) \<and> ar_new_balance res' = Some (balance w' u)"
proof -
  obtain g r where upd: "update_user u g (- cost) 0 w = Some (r, w')" and nb: "ar_new_balance res' = Some (wu_balance r)"
    using assms(2) by (auto simp: pay_from_account_def deduct_usage_billing_balance_def funded_by_def
        elim!: and_then_InrE split: option.splits)
  obtain r0 where "w_users w u = Some r0" "w_users w' u = Some r" "wu_balance r = money (wu_balance r0 - cost)"
    using upd by (auto simp: update_user_Some_iff)
  note b = this
  have "balance w' u = money (balance w u - cost)" "balance w' u = wu_balance r" using b by (simp_all add: balance_def)
  moreover from this(1) have "balance w u - balance w' u - cost = - (money (balance w u - cost) - (balance w u - cost))" by simp
  moreover have "scaled (balance w u)" using assms(1) b(1) by (simp add: wallet_inv_def balance_def)
  ultimately show ?thesis using money_error [of "balance w u - cost"] nb by (simp only: abs_minus_cancel) (auto simp: scaled_diff)
qed

end
