(* ===== verification/Reward_Expiry.thy ===== *)
theory Reward_Expiry
  imports Wallet_Safety
begin

text \<open>
  The background job that expires reward credits, \<open>internal/service/reward_credit_expiry.go\<close>. A run
  calls \<open>ExpireBatch\<close> until a batch is empty or fails. The rows that others hold locked may differ from
  one batch to the next: \<open>envs n\<close> is the environment of the \<open>n\<close>-th batch, with the time of the run. The
  answer lists the users whose cached authentication and balance are dropped; a failed drop of the
  balance is only logged.
\<close>

section \<open>A run ends\<close>

abbreviation "rewardCreditExpiryBatchSize \<equiv> (200 :: int)"

definition open_credits :: "wallet \<Rightarrow> nat" where
  "open_credits w = length (filter (\<lambda>c. 0 < rc_remaining c) (w_credits w))"

lemma closing_rows:
  fixes f :: "reward_credit \<Rightarrow> reward_credit"
  assumes "\<And>c. rc_remaining (f c) = 0"
  shows "length (filter (\<lambda>c. 0 < rc_remaining c) (map (\<lambda>r. if H r then f r else r) cs)) +
    length (filter (\<lambda>c. H c \<and> 0 < rc_remaining c) cs) = length (filter (\<lambda>c. 0 < rc_remaining c) cs)"
  by (induction cs) (auto simp: assms)

lemma expire_credit_open:
  assumes "expire_reward_credit c now w = Inr w'"
  shows "open_credits w' \<le> open_credits w"
    "c \<in> set (w_credits w) \<Longrightarrow> 0 < rc_remaining c \<Longrightarrow> open_credits w' < open_credits w"
proof -
  let ?f = "\<lambda>r. r\<lparr>rc_remaining := 0, rc_expired_at := (case rc_expired_at r of None \<Rightarrow> Some now | t \<Rightarrow> t)\<rparr>"
  let ?hit = "\<lambda>r. rc_id r = rc_id c \<and> 0 < rc_remaining r"
  obtain n w1 where u: "update_credit (rc_id c) (\<lambda>r. 0 < rc_remaining r) ?f w = Inr (n, w1)"
    and i: "insert_event_once (rc_id c) (rc_user c) Ev_Expire ''auto-expiry'' (rc_remaining c) w1 = Inr w'"
    using assms by (auto simp: expire_reward_credit_def elim!: and_then_InrE)
  have "w_credits w' = w_credits w1" using i by (auto simp: insert_event_once_def insert_event_def split: if_splits)
  hence e: "open_credits w' + length (filter ?hit (w_credits w)) = open_credits w"
    using closing_rows [of ?f ?hit "w_credits w"] update_credit_Inr(2) [OF u]
    by (simp add: open_credits_def conj_commute conj_left_commute cong: conj_cong)
  show "open_credits w' \<le> open_credits w" using e by simp
  assume "c \<in> set (w_credits w)" "0 < rc_remaining c"
  hence "filter ?hit (w_credits w) \<noteq> []" by (auto simp: filter_empty_conv)
  hence "0 < length (filter ?hit (w_credits w))" by blast
  thus "open_credits w' < open_credits w" using e by linarith
qed

lemma expire_credits_open: "expire_credits now cs w = Inr w' \<Longrightarrow> open_credits w' \<le> open_credits w"
  by (induction cs arbitrary: w) (fastforce elim!: and_then_InrE dest: expire_credit_open(1) intro: order_trans)+

lemma subtract_each_credits: "subtract_each us w = Inr w' \<Longrightarrow> w_credits w' = w_credits w"
  by (induction us arbitrary: w)
    (fastforce simp: subtract_expired_reward_balance_def update_user_Some_iff elim!: and_then_InrE split: option.splits)+

lemma expire_batch_open:
  assumes "expire_batch env n w = Inr (rs, w')" "rs \<noteq> []"
  shows "open_credits w' < open_credits w"
proof -
  define cs where "cs = select_expired_reward_credits env 0 (we_now env) (batch_limit n) w"
  obtain w1 where cs: "cs \<noteq> []" and e: "expire_credits (we_now env) cs w = Inr w1" and s: "subtract_each (by_user cs) w1 = Inr w'"
    using assms by (auto simp: expire_batch_def Let_def cs_def [symmetric] elim!: and_then_InrE split: if_splits)
  obtain c ds where c: "cs = c # ds" using cs by (cases cs) auto
  have "c \<in> set cs" by (simp add: c)
  hence row: "c \<in> set (w_credits w)" "0 < rc_remaining c"
    by (auto simp: cs_def select_expired_reward_credits_def Let_def dest: in_set_takeD split: if_splits)
  obtain w0 where "expire_reward_credit c (we_now env) w = Inr w0" "expire_credits (we_now env) ds w0 = Inr w1"
    using e by (auto simp: c elim!: and_then_InrE)
  hence "open_credits w1 < open_credits w" using expire_credit_open(2) row expire_credits_open by (metis order_le_less_trans)
  thus ?thesis using subtract_each_credits [OF s] by (simp add: open_credits_def)
qed

function run_once :: "time \<Rightarrow> (nat \<Rightarrow> wallet_env) \<Rightarrow> nat \<Rightarrow> wallet \<Rightarrow> go_error option \<times> int list \<times> wallet" where
  "run_once now envs n w = (case expire_batch ((envs n)\<lparr>we_now := now\<rparr>) rewardCreditExpiryBatchSize w of
     Inl e \<Rightarrow> (Some e, [], w)
   | Inr (rs, w1) \<Rightarrow> if rs = [] then (None, [], w1)
       else (case run_once now envs (Suc n) w1 of (e, us, w2) \<Rightarrow> (e, map fst rs @ us, w2)))"
  by pat_completeness auto
termination
  by (relation "measure (\<lambda>(_, _, _, w). open_credits w)") (auto dest: expire_batch_open)

declare run_once.simps [simp del]

section \<open>A run succeeds\<close>

definition owners_live :: "wallet \<Rightarrow> bool" where
  "owners_live w \<longleftrightarrow> list_all (\<lambda>c. 0 < rc_remaining c \<longrightarrow> user_exists w (rc_user c)) (w_credits w)"

lemma expire_credit_runs:
  assumes inv: "ledger_inv w" and c: "c \<in> set (w_credits w)" "0 < rc_remaining c"
  shows "\<exists>w'. expire_reward_credit c now w = Inr w'"
proof -
  have ck: "credit_checks (r\<lparr>rc_remaining := 0, rc_expired_at := t\<rparr>)" if "r \<in> set (w_credits w)" for r t
    using credit_okD(1) [OF ledger_credit(1) [OF inv that]] by (simp add: credit_checks_def)
  have "scaled (rc_remaining c)" using credit_okD(3) [OF ledger_credit(1) [OF inv c(1)]] .
  hence ev: "\<exists>w'. insert_event_once (rc_id c) (rc_user c) Ev_Expire ''auto-expiry'' (rc_remaining c) w1 = Inr w'" for w1
    using c(2) by (simp add: insert_event_once_def insert_event_def)
  show ?thesis using ck ev
    by (simp add: expire_reward_credit_def update_credit_def list_all_iff)
qed

lemma expire_credits_runs: "ledger_inv w \<Longrightarrow> live_rows w cs \<Longrightarrow> \<exists>w'. expire_credits now cs w = Inr w'"
proof (induction cs arbitrary: w)
  case (Cons c cs)
  note c = live_rows_Cons [OF Cons.prems(2)]
  obtain w1 where w1: "expire_reward_credit c now w = Inr w1" using expire_credit_runs [OF Cons.prems(1) c(1,2)] by blast
  note m = expire_moved [OF Cons.prems(1) c(1,2,3) w1]
  show ?case using Cons.IH [OF _ live_rows_moved [OF Cons.prems(2) m]] m w1 by (simp add: moved_def)
qed simp

lemma subtract_each_runs:
  "list_all (\<lambda>(u, _). user_exists w u) us \<Longrightarrow> \<exists>w'. subtract_each us w = Inr w' \<and> (\<forall>v. user_exists w' v = user_exists w v)"
proof (induction us arbitrary: w)
  case (Cons p us)
  obtain u a where p: "p = (u, a)" by force
  obtain r where r: "w_users w u = Some r" "\<not> wu_deleted r"
    using Cons.prems by (auto simp: p user_exists_def split: option.splits)
  define w1 where "w1 = w\<lparr>w_users := (w_users w)(u \<mapsto> r\<lparr>wu_balance := money (wu_balance r - a), wu_frozen := money (wu_frozen r)\<rparr>)\<rparr>"
  have s: "subtract_expired_reward_balance u a w = Inr w1"
    using r by (simp add: subtract_expired_reward_balance_def update_user_def Let_def w1_def)
  have same: "user_exists w1 v = user_exists w v" for v using r by (simp add: w1_def user_exists_def)
  have "list_all (\<lambda>(u, _). user_exists w1 u) us" using Cons.prems by (simp add: same)
  thus ?case using Cons.IH [of w1] s same by (auto simp: p)
qed simp

lemma expire_credits_kept:
  assumes "expire_credits now cs w = Inr w'" "c \<in> set (w_credits w')" "0 < rc_remaining c"
  shows "c \<in> set (w_credits w)"
  using assms
proof (induction cs arbitrary: w)
  case (Cons d cs)
  obtain w1 where e: "expire_reward_credit d now w = Inr w1" and rest: "expire_credits now cs w1 = Inr w'"
    using Cons.prems(1) by (auto elim!: and_then_InrE)
  have "c \<in> set (w_credits w1)" using Cons.IH [OF rest Cons.prems(2,3)] .
  thus ?case using e Cons.prems(3)
    by (auto simp: expire_reward_credit_def insert_event_once_def insert_event_def elim!: and_then_InrE
        dest!: update_credit_Inr(2) split: if_splits)
qed simp

lemma expire_batch_runs:
  assumes inv: "wallet_inv w" and live: "owners_live w"
  shows "\<exists>rs w'. expire_batch env n w = Inr (rs, w') \<and> owners_live w' \<and>
    (rs = [] \<longrightarrow> select_expired_reward_credits env 0 (we_now env) (batch_limit n) w' = [])"
proof -
  define cs where "cs = select_expired_reward_credits env 0 (we_now env) (batch_limit n) w"
  have linv: "ledger_inv w" using inv by (rule wallet_inv_ledger)
  have rows: "live_rows w cs" using select_expired_live [OF linv] by (simp add: cs_def)
  show ?thesis
  proof (cases "cs = []")
    case True
    thus ?thesis using live by (simp add: expire_batch_def Let_def cs_def [symmetric])
  next
    case False
    obtain w1 where e: "expire_credits (we_now env) cs w = Inr w1" using expire_credits_runs [OF linv rows] by blast
    have us: "user_exists w1 u = user_exists w u" for u
      using expire_credits_ok [OF linv rows e] by (simp add: ledger_only_def user_exists_def)
    have "list_all (\<lambda>(u, _). user_exists w1 u) (by_user cs)"
      using live rows by (auto simp: by_user_def list_all_iff us owners_live_def live_rows_def)
    then obtain w2 where s: "subtract_each (by_user cs) w1 = Inr w2" "\<And>v. user_exists w2 v = user_exists w1 v"
      using subtract_each_runs by blast
    have "owners_live w2"
      using live expire_credits_kept [OF e] by (auto simp: owners_live_def list_all_iff subtract_each_credits [OF s(1)] s(2) us)
    moreover have "by_user cs \<noteq> []" using False by (simp add: by_user_def)
    ultimately show ?thesis using False e s(1) by (simp add: expire_batch_def Let_def cs_def [symmetric])
  qed
qed

lemma run_once_ok:
  assumes "wallet_inv w" "owners_live w"
  shows "\<exists>us w' m. run_once now envs n w = (None, us, w') \<and> wallet_inv w' \<and>
    (\<forall>v. account w' v = account w v \<and> frozen w' v = frozen w v) \<and>
    select_expired_reward_credits ((envs m)\<lparr>we_now := now\<rparr>) 0 now 200 w' = []"
  using assms
proof (induction now envs n w rule: run_once.induct)
  case (1 now envs n w)
  let ?env = "(envs n)\<lparr>we_now := now\<rparr>"
  obtain rs w1 where b: "expire_batch ?env 200 w = Inr (rs, w1)" and live: "owners_live w1"
    and last: "rs = [] \<Longrightarrow> select_expired_reward_credits ?env 0 now 200 w1 = []"
    using expire_batch_runs [OF 1(2,3), of ?env 200] by (auto simp: batch_limit_def)
  note ok = expire_batch_ok [OF 1(2) b]
  show ?case
  proof (cases "rs = []")
    case True
    thus ?thesis using b ok last by (auto simp: run_once.simps [of now envs n w])
  next
    case False
    obtain us w' m where "run_once now envs (Suc n) w1 = (None, us, w')" "wallet_inv w'"
      "\<forall>v. account w' v = account w1 v \<and> frozen w' v = frozen w1 v"
      "select_expired_reward_credits ((envs m)\<lparr>we_now := now\<rparr>) 0 now 200 w' = []"
      using "1.IH" [OF b refl False conjunct1 [OF ok] live] by blast
    thus ?thesis using b False ok by (simp add: run_once.simps [of now envs n w]) (auto simp: split_beta)
  qed
qed

lemma nothing_expired:
  assumes "select_expired_reward_credits env 0 now n w = []" "c \<in> set (w_credits w)" "0 < rc_remaining c"
    "rc_expired_at c = None" "rc_expires_at c \<le> now"
  shows "we_locked env (rc_id c)"
proof -
  let ?due = "filter (\<lambda>c. rc_expires_at c \<le> now \<and> 0 < rc_remaining c \<and> rc_expired_at c = None \<and>
    \<not> we_locked env (rc_id c)) (w_credits w)"
  have "in_expiry_order ?due = []" using assms(1)
    by (auto simp: select_expired_reward_credits_def Let_def split: if_splits)
  hence "set (in_expiry_order ?due) = {}" by (simp only: set_empty)
  hence "?due = []" by (simp only: set_sort set_empty)
  thus ?thesis using assms(2-5) by (auto simp: filter_empty_conv)
qed

text \<open>
  Claim C34. A run of the expiry job ends, and without error when every credit that still has an amount
  belongs to a user who is not deleted. Afterwards every credit that is due at the time of the run
  has been expired, unless another transaction held it locked at the last batch; no user's account
  money or frozen balance has changed, and the ledger is in order.
\<close>

theorem run_once_complete:
  assumes "wallet_inv w" "owners_live w"
  shows "\<exists>us w' m. run_once now envs n w = (None, us, w') \<and> wallet_inv w' \<and>
    (\<forall>v. account w' v = account w v \<and> frozen w' v = frozen w v) \<and>
    (\<forall>c \<in> set (w_credits w'). 0 < rc_remaining c \<and> rc_expired_at c = None \<and> rc_expires_at c \<le> now \<longrightarrow>
       we_locked (envs m) (rc_id c))"
proof -
  obtain us w' m where r: "run_once now envs n w = (None, us, w')" "wallet_inv w'"
      "\<forall>v. account w' v = account w v \<and> frozen w' v = frozen w v"
      and e: "select_expired_reward_credits ((envs m)\<lparr>we_now := now\<rparr>) 0 now 200 w' = []"
    using run_once_ok [OF assms] by blast
  have "we_locked (envs m) (rc_id c)"
    if "c \<in> set (w_credits w')" "0 < rc_remaining c" "rc_expired_at c = None" "rc_expires_at c \<le> now" for c
    using nothing_expired [OF e that] by simp
  thus ?thesis using r by blast
qed

end
