(* ===== verification/Wallet_Examples.thy ===== *)
theory Wallet_Examples
  imports Reward_Expiry
begin

text \<open>
  Concrete wallets: inputs at which the hypotheses of the wallet properties hold, and the runs that
  show what the code does where its own comments promise something else.
\<close>

section \<open>A wallet with one credit\<close>

definition ex_env :: wallet_env where
  "ex_env = \<lparr>we_now = 50, we_db_now = 50, we_day_start = 40, we_next_reset = (\<lambda>_ _. 90), we_locked = (\<lambda>_. False)\<rparr>"

definition ex_credit :: reward_credit where
  "ex_credit = \<lparr>rc_id = 1, rc_user = 7, rc_type = RewardCreditDailyCheckIn, rc_source = ''day'', rc_original = 4,
     rc_remaining = 4, rc_reserved = 0, rc_granted_at = 10, rc_expires_at = 100, rc_consumed_at = None, rc_expired_at = None\<rparr>"

definition ex_wallet :: wallet where
  "ex_wallet = \<lparr>w_users = [7 \<mapsto> \<lparr>wu_balance = 10, wu_frozen = 0, wu_deleted = False\<rparr>], w_credits = [ex_credit],
     w_next_credit = 2, w_events = [], w_allocs = [], w_next_alloc = 1, w_claims = [], w_archive = [],
     w_subs = (\<lambda>_. None), w_keys = (\<lambda>_. None), w_accounts = (\<lambda>_. None), w_outbox = []\<rparr>"

definition ex_usage :: "rat \<Rightarrow> usage_cmd" where
  "ex_usage cost = \<lparr>uc_request = ''r1'', uc_api_key = 3, uc_fingerprint = ''fp'', uc_payload_hash = [], uc_user = 7, uc_account = 5,
     uc_subscription = None, uc_platform = ''kiro'', uc_account_type = ''x'', uc_model = ''m'', uc_service_tier = [],
     uc_effort = [], uc_billing_type = 0, uc_allow_fallback = False, uc_allow_overrun = False, uc_week_limit = None,
     uc_input_tokens = 1, uc_output_tokens = 1, uc_cache_creation = 0, uc_cache_read = 0, uc_image_count = 0,
     uc_media_type = [], uc_balance_cost = cost, uc_fallback_cost = 0, uc_subscription_cost = 0, uc_key_quota_cost = 0,
     uc_key_rate_cost = 0, uc_account_cost = 0\<rparr>"

abbreviation ex_step :: "wallet_env \<times> wallet_op \<Rightarrow> wallet \<Rightarrow> (string \<times> int) option \<times> wallet" where
  "ex_step \<equiv> wallet_step (\<lambda>s. s) (\<lambda>_. [])"

lemma ex_wallet_inv: "wallet_inv ex_wallet"
  by (simp add: wallet_inv_def ledger_inv_def ex_wallet_def ex_credit_def credit_ok_def credit_checks_def held_def spent_def auto_expired_def)

lemma ex_layers: "account ex_wallet 7 = 6" "rewards ex_wallet 7 = 4" "balance ex_wallet 7 = 10" "frozen ex_wallet 7 = 0"
  by (simp_all add: account_def rewards_def balance_def frozen_def reward_part_def ex_wallet_def ex_credit_def)

lemma ex_run1:
  "w_credits (snd (run_ops ex_step [(ex_env, Do_Apply (ex_usage 3))] ex_wallet)) = [ex_credit\<lparr>rc_remaining := 1\<rparr>]"
  by code_simp

theorem wallet_ledger_witness:
  "wallet_inv ex_wallet \<and> rc_original ex_credit = 1 + 0 + spent (snd (run_ops ex_step [(ex_env, Do_Apply (ex_usage 3))] ex_wallet)) 1"
  using wallet_ledger [OF ex_wallet_inv, of "[(ex_env, Do_Apply (ex_usage 3))]" "ex_credit\<lparr>rc_remaining := 1\<rparr>" "\<lambda>s. s" "\<lambda>_. []"]
    ex_run1 ex_wallet_inv by (simp add: op_ok_def ex_usage_def ex_credit_def)

section \<open>Paying a request\<close>

lemma ex_apply: "case usage_apply (\<lambda>s. s) (\<lambda>_. []) ex_env (ex_usage 3) ex_wallet of
    Inr (r, _) \<Rightarrow> ar_applied r \<and> ar_funding r = Fund_Daily | Inl _ \<Rightarrow> False"
  by code_simp

lemma ex_amount: "usage_amount (usage_normalize (\<lambda>s. s) (\<lambda>_. []) (ex_usage 3)) = 3"
  "lapsing ex_env (usage_normalize (\<lambda>s. s) (\<lambda>_. []) (ex_usage 3)) ex_wallet = 0"
  by code_simp+

theorem usage_one_layer_witness:
  "\<exists>r w'. usage_apply (\<lambda>s. s) (\<lambda>_. []) ex_env (ex_usage 3) ex_wallet = Inr (r, w') \<and> ar_funding r = Fund_Daily \<and>
     account w' 7 = 6 \<and> rewards w' 7 = 1 \<and> frozen w' 7 = 0"
proof -
  obtain r w' where run: "usage_apply (\<lambda>s. s) (\<lambda>_. []) ex_env (ex_usage 3) ex_wallet = Inr (r, w')"
    and r: "ar_applied r" "ar_funding r = Fund_Daily"
    using ex_apply by (auto split: sum.splits)
  have nb: "\<not> subscription_billed (usage_normalize (\<lambda>s. s) (\<lambda>_. []) (ex_usage 3))"
    by (simp add: subscription_billed_def usage_normalize_def quantize_monetary_fields_def ex_usage_def Let_def)
  have u: "0 < uc_user (ex_usage 3)" "scaled (uc_fallback_cost (ex_usage 3))" "uc_user (ex_usage 3) = 7"
    by (simp_all add: ex_usage_def)
  note p = usage_one_layer [OF ex_wallet_inv u(1) refl u(2) _ run r(1), of 7]
  have "account w' 7 = 6" "rewards w' 7 = 1" "frozen w' 7 = 0"
    using p nb r(2) ex_layers ex_amount u(3) by (simp_all add: account_charge_def reward_charge_def)
  thus ?thesis using run r(2) by blast
qed

lemma ex_pay: "\<not> isl (pay_from_account 7 (1 / 3) not_applied ex_wallet)"
  by code_simp

theorem account_payment_rounding_witness:
  "\<exists>res' w'. pay_from_account 7 (1 / 3) not_applied ex_wallet = Inr (res', w') \<and>
     \<bar>(balance ex_wallet 7 - balance w' 7) - 1 / 3\<bar> \<le> 1 / (2 * 10 ^ 8)"
proof -
  obtain res' w' where run: "pay_from_account 7 (1 / 3) not_applied ex_wallet = Inr (res', w')"
    using ex_pay by (cases "pay_from_account 7 (1 / 3) not_applied ex_wallet") auto
  show ?thesis using account_payment_rounding [OF ex_wallet_inv run] run by blast
qed

section \<open>Holds\<close>

definition ex_hold :: "string \<Rightarrow> string \<Rightarrow> rat \<Rightarrow> rat \<Rightarrow> hold_cmd" where
  "ex_hold rid batch h actual = \<lparr>hc_request = rid, hc_api_key = 3, hc_fingerprint = ''fp'', hc_payload_hash = [], hc_user = 7,
     hc_batch = batch, hc_hold = h, hc_actual = actual\<rparr>"

abbreviation "ex_reserve b h \<equiv> Do_Reserve (ex_hold (hold_request_id b) b h 0)"
abbreviation "ex_capture b h a \<equiv> Do_Capture (ex_hold (capture_request_id b) b h a)"
abbreviation "ex_release b h \<equiv> Do_Release (ex_hold (release_request_id b) b h 0)"

lemma ex_hold_ok: "scaled h \<Longrightarrow> scaled a \<Longrightarrow> 0 \<le> a \<Longrightarrow> trim_space rid \<noteq> ''auto-expiry'' \<Longrightarrow> hold_ok (ex_hold rid b h a)"
  by (simp add: hold_ok_def ex_hold_def)

definition ex_held :: wallet where
  "ex_held = snd (ex_step (ex_env, ex_reserve ''A'' 3) ex_wallet)"

lemma ex_ids: "trim_space (hold_request_id ''A'') \<noteq> ''auto-expiry''" "trim_space (capture_request_id ''A'') \<noteq> ''auto-expiry''"
  "trim_space ''A'' = ''A''"
  by code_simp+

lemma ex_held_inv: "wallet_inv ex_held"
  unfolding ex_held_def by (rule wallet_step_inv [OF ex_wallet_inv]) (simp add: op_ok_def ex_hold_ok ex_ids)

lemma ex_capture_runs: "case capture_batch_image_balance (\<lambda>s. s) (\<lambda>_. []) ex_env (ex_hold (capture_request_id ''A'') ''A'' 3 2) ex_held of
    Inr (r, _) \<Rightarrow> hr_applied r | Inl _ \<Rightarrow> False"
  by code_simp

lemma ex_held_facts:
  "expiring ex_env 7 50 ex_held = 0" "frozen ex_held 7 = 3" "balance ex_held 7 = 7"
  "map outstanding (hold_allocations (ex_hold (capture_request_id ''A'') ''A'' 3 2) ex_held) = [3]"
  "list_all (\<lambda>l. 50 < al_expires_at l) (hold_allocations (ex_hold (capture_request_id ''A'') ''A'' 3 2) ex_held)"
  by code_simp+

theorem hold_captured_witness:
  "\<exists>r w'. capture_batch_image_balance (\<lambda>s. s) (\<lambda>_. []) ex_env (ex_hold (capture_request_id ''A'') ''A'' 3 2) ex_held = Inr (r, w') \<and>
     frozen ex_held 7 = 3 \<and> frozen w' 7 = 0 \<and> balance ex_held 7 = 7 \<and> balance w' 7 = 8"
proof -
  let ?c = "ex_hold (capture_request_id ''A'') ''A'' 3 2"
  obtain r w' where run: "capture_batch_image_balance (\<lambda>s. s) (\<lambda>_. []) ex_env ?c ex_held = Inr (r, w')" "hr_applied r"
    using ex_capture_runs by (auto split: sum.splits)
  have c: "hold_ok ?c" "trim_space (hc_batch ?c) \<noteq> []" "0 < hc_hold ?c" "?c\<lparr>hc_batch := trim_space (hc_batch ?c)\<rparr> = ?c"
    using ex_hold_ok [of 3 2] ex_ids by (simp_all add: ex_hold_def)
  obtain tot refund where s: "hold_settled (hc_user ?c) (expiring ex_env (hc_user ?c) (we_now ex_env) ex_held) tot refund ex_held w'"
    "returned (we_now ex_env) ?c (hold_allocations ?c ex_held) tot refund"
    using hold_captured [OF ex_held_inv c(1,2,3) run] unfolding c(4) by blast
  have ne: "hold_allocations ?c ex_held \<noteq> []" using ex_held_facts(4) by auto
  have "tot = 3" "refund = 1"
    using s(2) ne ex_held_facts(4,5) live_outstanding_all [of "hold_allocations ?c ex_held" 50]
    by (simp_all add: returned_def ex_env_def list_all_iff ex_hold_def)
  thus ?thesis using s(1) run(1) ex_held_facts(1,2,3) by (auto simp: hold_settled_def ex_hold_def ex_env_def)
qed

section \<open>Expiry\<close>

lemma ex_owners: "owners_live ex_wallet"
  by code_simp

theorem run_once_complete_witness:
  "\<exists>us w'. run_once 200 (\<lambda>_. ex_env) 0 ex_wallet = (None, us, w') \<and> account w' 7 = 6 \<and>
     (\<forall>c \<in> set (w_credits w'). 0 < rc_remaining c \<longrightarrow> rc_expired_at c \<noteq> None \<or> 200 < rc_expires_at c)"
  using run_once_complete [OF ex_wallet_inv ex_owners, of 200 "\<lambda>_. ex_env" 0] ex_layers(1)
  by (fastforce simp: ex_env_def)

section \<open>Where the code departs from its comments\<close>

definition ex_account :: wallet where
  "ex_account = ex_wallet\<lparr>w_credits := []\<rparr>"

definition ex_double :: wallet where
  "ex_double = snd (run_ops ex_step [(ex_env, ex_reserve ''A'' 4), (ex_env, ex_reserve ''B'' 4), (ex_env, ex_capture ''A'' 4 4),
     (ex_env, ex_release ''A'' 4)] ex_account)"

text \<open>
  An instance: a release only checks that the hold was once reserved, to keep a job that never froze anything from
  minting balance. It does not see a capture: releasing a captured hold returns its amount again, out
  of what another hold of the user has frozen, and that hold can then not be captured.
\<close>

theorem release_after_capture:
  "balance ex_double 7 = 6 \<and> frozen ex_double 7 = 0 \<and>
   capture_batch_image_balance (\<lambda>s. s) (\<lambda>_. []) ex_env (ex_hold (capture_request_id ''B'') ''B'' 4 4) ex_double
     = Inl err_frozen_insufficient"
proof -
  have "case capture_batch_image_balance (\<lambda>s. s) (\<lambda>_. []) ex_env (ex_hold (capture_request_id ''B'') ''B'' 4 4) ex_double of
    Inl e \<Rightarrow> e = err_frozen_insufficient | Inr _ \<Rightarrow> False"
    by code_simp
  moreover have "balance ex_double 7 = 6" "frozen ex_double 7 = 0" by code_simp+
  ultimately show ?thesis by (auto split: sum.splits)
qed

definition ex_captured :: wallet where
  "ex_captured = snd (run_ops ex_step [(ex_env, ex_reserve ''A'' 4), (ex_env, ex_reserve ''B'' 4), (ex_env, ex_capture ''A'' 4 4)] ex_account)"

lemma ex_release_ids: "trim_space (hold_request_id ''B'') \<noteq> ''auto-expiry''" "trim_space (release_request_id ''A'') \<noteq> ''auto-expiry''"
  "trim_space (release_request_id ''A'') \<noteq> hold_request_id ''A''"
  by code_simp+

lemma ex_captured_inv: "wallet_inv ex_captured"
proof -
  have "wallet_inv ex_account"
    by (simp add: wallet_inv_def ledger_inv_def ex_account_def ex_wallet_def)
  then show ?thesis unfolding ex_captured_def
    by (intro run_inv) (auto simp: op_ok_def ex_ids ex_release_ids intro!: ex_hold_ok)
qed

lemma ex_captured_facts:
  "expiring ex_env 7 50 ex_captured = 0" "frozen ex_captured 7 = 4" "balance ex_captured 7 = 2"
  "hold_allocations (ex_hold (release_request_id ''A'') ''A'' 4 0) ex_captured = []"
  "hold_claim_exists (hold_request_id ''A'') 3 ex_captured"
  "find_claim (capture_request_id ''A'') 3 (w_claims ex_captured) \<noteq> None"
  "case release_batch_image_balance (\<lambda>s. s) (\<lambda>_. []) ex_env (ex_hold (release_request_id ''A'') ''A'' 4 0) ex_captured of
     Inr (r, _) \<Rightarrow> hr_applied r | Inl _ \<Rightarrow> False"
  by code_simp+

theorem hold_released_witness:
  "find_claim (capture_request_id ''A'') 3 (w_claims ex_captured) \<noteq> None \<and>
   (\<exists>r w'. release_batch_image_balance (\<lambda>s. s) (\<lambda>_. []) ex_env (ex_hold (release_request_id ''A'') ''A'' 4 0) ex_captured = Inr (r, w') \<and>
     frozen ex_captured 7 = 4 \<and> frozen w' 7 = 0 \<and> balance ex_captured 7 = 2 \<and> balance w' 7 = 6)"
proof -
  let ?c = "ex_hold (release_request_id ''A'') ''A'' 4 0"
  obtain r w' where run: "release_batch_image_balance (\<lambda>s. s) (\<lambda>_. []) ex_env ?c ex_captured = Inr (r, w')" "hr_applied r"
    using ex_captured_facts(7) by (auto split: sum.splits)
  have c: "hold_ok ?c" "trim_space (hc_batch ?c) \<noteq> []" "0 < hc_hold ?c"
    "trim_space (hc_request ?c) \<noteq> hold_request_id (trim_space (hc_batch ?c))"
    "?c\<lparr>hc_batch := ''A''\<rparr> = ?c" "trim_space (hc_batch ?c) = ''A''" "hc_api_key ?c = 3"
    using ex_hold_ok [of 4 0] ex_ids ex_release_ids by (simp_all add: ex_hold_def)
  obtain tot refund where s: "hold_settled (hc_user ?c) (expiring ex_env (hc_user ?c) (we_now ex_env) ex_captured) tot refund ex_captured w'"
    "returned (we_now ex_env) (?c\<lparr>hc_actual := 0\<rparr>) (hold_allocations ?c ex_captured) tot refund"
    using hold_released [OF ex_captured_inv c(1-4) run] ex_captured_facts(5) unfolding c(6,7) c(5) by auto
  have "tot = 4" "refund = 4"
    using s(2) ex_captured_facts(4) by (simp_all add: returned_def ex_hold_def)
  thus ?thesis using s(1) run(1) ex_captured_facts(1,2,3,6) by (auto simp: hold_settled_def ex_hold_def ex_env_def)
qed

definition ex_reserved :: wallet where
  "ex_reserved = snd (ex_step (ex_env, ex_reserve ''A'' 4) ex_wallet)"

text \<open>
  Money that a hold has reserved from reward credits has already left the balance, but the guard of
  the account layer subtracts it once more: the account has 6 and a hold of 5 is refused.
\<close>

theorem affordable_hold_refused:
  "account ex_reserved 7 = 6 \<and> rewards ex_reserved 7 = 0 \<and>
   reserve_batch_image_balance (\<lambda>s. s) (\<lambda>_. []) ex_env (ex_hold (hold_request_id ''B'') ''B'' 5 0) ex_reserved
     = Inl err_batch_insufficient"
proof -
  have "case reserve_batch_image_balance (\<lambda>s. s) (\<lambda>_. []) ex_env (ex_hold (hold_request_id ''B'') ''B'' 5 0) ex_reserved of
    Inl e \<Rightarrow> e = err_batch_insufficient | Inr _ \<Rightarrow> False"
    by code_simp
  moreover have "account ex_reserved 7 = 6" "rewards ex_reserved 7 = 0" by code_simp+
  ultimately show ?thesis by (auto split: sum.splits)
qed

definition ex_deleted :: wallet where
  "ex_deleted = ex_wallet\<lparr>w_users := (w_users ex_wallet)(8 \<mapsto> \<lparr>wu_balance = 0, wu_frozen = 0, wu_deleted = True\<rparr>),
     w_credits := [ex_credit, ex_credit\<lparr>rc_id := 2, rc_user := 8\<rparr>], w_next_credit := 3\<rparr>"

text \<open>
  A credit of a deleted user that is due makes every batch fail, so no credit of any user expires:
  the run stops with the error and leaves the wallet as it was.
\<close>

theorem expiry_blocked: "run_once 200 (\<lambda>_. ex_env) 0 ex_deleted = (Some err_user_not_found, [], ex_deleted)"
proof -
  have "case expire_batch (ex_env\<lparr>we_now := 200\<rparr>) 200 ex_deleted of Inl e \<Rightarrow> e = err_user_not_found | Inr _ \<Rightarrow> False"
    by code_simp
  thus ?thesis by (subst run_once.simps) (auto split: sum.splits)
qed

definition ex_key :: billed_key where
  "ex_key = \<lparr>bk_deleted = False, bk_status = ''active'', bk_quota = 0, bk_quota_used = 0, bk_5h = \<lparr>uw_used = 0, uw_start = None\<rparr>,
     bk_1d = \<lparr>uw_used = 0, uw_start = None\<rparr>, bk_7d = \<lparr>uw_used = 0, uw_start = None\<rparr>\<rparr>"

definition ex_keyed :: wallet where
  "ex_keyed = ex_account\<lparr>w_keys := [3 \<mapsto> ex_key]\<rparr>"

definition ex_fallback :: usage_cmd where
  "ex_fallback = (ex_usage 0)\<lparr>uc_subscription := Some 9, uc_subscription_cost := 78125 / 10 ^ 9, uc_allow_fallback := True,
     uc_fallback_cost := 78125 / 10 ^ 9, uc_key_quota_cost := 78125 / 10 ^ 9\<rparr>"

text \<open>
  The fallback cost is the one amount that is not rounded before it is charged: the balance drops by
  \<open>0.00007812\<close>, the quota of the key grows by \<open>0.00007813\<close>.
\<close>

theorem fallback_drifts:
  "let w' = snd (ex_step (ex_env, Do_Apply ex_fallback) ex_keyed) in
     balance ex_keyed 7 - balance w' 7 = 7812 / 10 ^ 8 \<and> map_option bk_quota_used (w_keys w' 3) = Some (7813 / 10 ^ 8)"
  by code_simp

end
