(* ===== verification/Redis.thy ===== *)
theory Redis
  imports Money
begin

text \<open>
  The part of Redis that the caches use: sorted sets, hashes, counters and the expiry of keys. A sorted set
  is a list of distinct members with their scores, a hash a list of fields with their values; an
  empty one is a key that does not exist. Times are in milliseconds; \<open>secs\<close> is what \<open>TIME\<close> returns.
  A key whose deadline has come is gone for every command.
\<close>

type_synonym zset = "(string \<times> int) list"

record 'k redis =
  r_zsets :: "'k \<Rightarrow> zset"
  r_hashes :: "'k \<Rightarrow> (string \<times> rat) list"
  r_counts :: "'k \<Rightarrow> int option"
  r_deadline :: "'k \<Rightarrow> int option"

definition empty_redis :: "'k redis" where
  "empty_redis = \<lparr>r_zsets = (\<lambda>_. []), r_hashes = (\<lambda>_. []), r_counts = (\<lambda>_. None), r_deadline = (\<lambda>_. None)\<rparr>"

definition secs :: "int \<Rightarrow> int" where "secs now = now div 1000"

lemma secs_mono: "s \<le> t \<Longrightarrow> secs s \<le> secs t"
  by (simp add: secs_def zdiv_mono1)

section \<open>Keys\<close>

definition key_gone :: "int \<Rightarrow> 'k \<Rightarrow> 'k redis \<Rightarrow> bool" where
  "key_gone now k r = (case r_deadline r k of None \<Rightarrow> False | Some d \<Rightarrow> d \<le> now)"

definition zset_at :: "int \<Rightarrow> 'k \<Rightarrow> 'k redis \<Rightarrow> zset" where
  "zset_at now k r = (if key_gone now k r then [] else r_zsets r k)"

definition hash_at :: "int \<Rightarrow> 'k \<Rightarrow> 'k redis \<Rightarrow> (string \<times> rat) list" where
  "hash_at now k r = (if key_gone now k r then [] else r_hashes r k)"

definition count_at :: "int \<Rightarrow> 'k \<Rightarrow> 'k redis \<Rightarrow> int option" where
  "count_at now k r = (if key_gone now k r then None else r_counts r k)"

definition key_exists :: "int \<Rightarrow> 'k \<Rightarrow> 'k redis \<Rightarrow> bool" where
  "key_exists now k r \<longleftrightarrow> zset_at now k r \<noteq> [] \<or> hash_at now k r \<noteq> [] \<or> count_at now k r \<noteq> None"

definition kept_deadline :: "int \<Rightarrow> 'k \<Rightarrow> bool \<Rightarrow> 'k redis \<Rightarrow> int option" where
  "kept_deadline now k alive r = (if \<not> alive \<or> key_gone now k r then None else r_deadline r k)"

definition put_zset :: "int \<Rightarrow> 'k \<Rightarrow> zset \<Rightarrow> 'k redis \<Rightarrow> 'k redis" where
  "put_zset now k z r = r\<lparr>r_zsets := (r_zsets r)(k := z),
     r_deadline := (r_deadline r)(k := kept_deadline now k (z \<noteq> []) r)\<rparr>"

definition put_hash :: "int \<Rightarrow> 'k \<Rightarrow> (string \<times> rat) list \<Rightarrow> 'k redis \<Rightarrow> 'k redis" where
  "put_hash now k h r = r\<lparr>r_hashes := (r_hashes r)(k := h),
     r_deadline := (r_deadline r)(k := kept_deadline now k (h \<noteq> []) r)\<rparr>"

definition put_count :: "int \<Rightarrow> 'k \<Rightarrow> int option \<Rightarrow> 'k redis \<Rightarrow> 'k redis" where
  "put_count now k n r = r\<lparr>r_counts := (r_counts r)(k := n),
     r_deadline := (r_deadline r)(k := kept_deadline now k (n \<noteq> None) r)\<rparr>"

definition expire :: "int \<Rightarrow> 'k \<Rightarrow> int \<Rightarrow> 'k redis \<Rightarrow> 'k redis" where
  "expire now k ms r = (if key_exists now k r then r\<lparr>r_deadline := (r_deadline r)(k := Some (now + ms))\<rparr> else r)"

definition del :: "'k \<Rightarrow> 'k redis \<Rightarrow> 'k redis" where
  "del k r = r\<lparr>r_zsets := (r_zsets r)(k := []), r_hashes := (r_hashes r)(k := []), r_counts := (r_counts r)(k := None),
     r_deadline := (r_deadline r)(k := None)\<rparr>"

text \<open>\<open>PTTL\<close>: \<open>-2\<close> when the key does not exist, \<open>-1\<close> when it has no deadline.\<close>

definition pttl :: "int \<Rightarrow> 'k \<Rightarrow> 'k redis \<Rightarrow> int" where
  "pttl now k r = (if \<not> key_exists now k r then - 2 else case r_deadline r k of None \<Rightarrow> - 1 | Some d \<Rightarrow> d - now)"

section \<open>Commands\<close>

definition zadd :: "int \<Rightarrow> 'k \<Rightarrow> int \<Rightarrow> string \<Rightarrow> 'k redis \<Rightarrow> 'k redis" where
  "zadd now k score m r = put_zset now k ((m, score) # filter (\<lambda>p. fst p \<noteq> m) (zset_at now k r)) r"

definition zrem :: "int \<Rightarrow> 'k \<Rightarrow> string \<Rightarrow> 'k redis \<Rightarrow> 'k redis" where
  "zrem now k m r = put_zset now k (filter (\<lambda>p. fst p \<noteq> m) (zset_at now k r)) r"

definition zremrangebyscore :: "int \<Rightarrow> 'k \<Rightarrow> int \<Rightarrow> 'k redis \<Rightarrow> 'k redis" where
  "zremrangebyscore now k mx r = put_zset now k (filter (\<lambda>p. mx < snd p) (zset_at now k r)) r"

definition zscore :: "int \<Rightarrow> 'k \<Rightarrow> string \<Rightarrow> 'k redis \<Rightarrow> int option" where
  "zscore now k m r = map_of (zset_at now k r) m"

definition zcard :: "int \<Rightarrow> 'k \<Rightarrow> 'k redis \<Rightarrow> int" where
  "zcard now k r = int (length (zset_at now k r))"

definition hset :: "int \<Rightarrow> 'k \<Rightarrow> string \<Rightarrow> rat \<Rightarrow> 'k redis \<Rightarrow> 'k redis" where
  "hset now k f v r = put_hash now k ((f, v) # filter (\<lambda>p. fst p \<noteq> f) (hash_at now k r)) r"

definition hdel :: "int \<Rightarrow> 'k \<Rightarrow> string list \<Rightarrow> 'k redis \<Rightarrow> 'k redis" where
  "hdel now k fs r = put_hash now k (filter (\<lambda>p. fst p \<notin> set fs) (hash_at now k r)) r"

section \<open>Reading after writing\<close>

lemma distinct_filter_fst: "distinct (map fst z) \<Longrightarrow> distinct (map fst (filter P z))"
  by (induction z) auto

lemma zset_at_put [simp]: "zset_at now k (put_zset now k' z r) = (if k = k' then z else zset_at now k r)"
  by (auto simp: zset_at_def put_zset_def kept_deadline_def key_gone_def split: option.splits)

lemma hash_at_put [simp]: "hash_at now k (put_hash now k' h r) = (if k = k' then h else hash_at now k r)"
  by (auto simp: hash_at_def put_hash_def kept_deadline_def key_gone_def split: option.splits)

lemma count_at_put [simp]: "count_at now k (put_count now k' n r) = (if k = k' then n else count_at now k r)"
  by (auto simp: count_at_def put_count_def kept_deadline_def key_gone_def split: option.splits)

lemma deadline_put [simp]:
  "r_deadline (put_zset now k z r) j = (if j = k then kept_deadline now k (z \<noteq> []) r else r_deadline r j)"
  "r_deadline (put_hash now k h r) j = (if j = k then kept_deadline now k (h \<noteq> []) r else r_deadline r j)"
  "r_deadline (put_count now k n r) j = (if j = k then kept_deadline now k (n \<noteq> None) r else r_deadline r j)"
  by (simp_all add: put_zset_def put_hash_def put_count_def)

lemma zset_at_expire [simp]: "0 < ms \<Longrightarrow> zset_at now j (expire now k ms r) = zset_at now j r"
  by (auto simp: expire_def zset_at_def key_gone_def key_exists_def hash_at_def count_at_def split: option.splits)

lemma hash_at_expire [simp]: "0 < ms \<Longrightarrow> hash_at now j (expire now k ms r) = hash_at now j r"
  by (auto simp: expire_def zset_at_def key_gone_def key_exists_def hash_at_def count_at_def split: option.splits)

lemma count_at_expire [simp]: "0 < ms \<Longrightarrow> count_at now j (expire now k ms r) = count_at now j r"
  by (auto simp: expire_def zset_at_def key_gone_def key_exists_def hash_at_def count_at_def split: option.splits)

lemma zset_at_zadd [simp]:
  "zset_at now j (zadd now k s m r) =
     (if j = k then (m, s) # filter (\<lambda>p. fst p \<noteq> m) (zset_at now k r) else zset_at now j r)"
  by (simp add: zadd_def)

lemma zset_at_zrem [simp]:
  "zset_at now j (zrem now k m r) = (if j = k then filter (\<lambda>p. fst p \<noteq> m) (zset_at now k r) else zset_at now j r)"
  by (simp add: zrem_def)

lemma zset_at_range [simp]:
  "zset_at now j (zremrangebyscore now k mx r) =
     (if j = k then filter (\<lambda>p. mx < snd p) (zset_at now k r) else zset_at now j r)"
  by (simp add: zremrangebyscore_def)

lemma zset_at_del [simp]: "zset_at now j (del k r) = (if j = k then [] else zset_at now j r)"
  by (auto simp: zset_at_def key_gone_def del_def)

lemma zset_at_other [simp]: "j \<noteq> k \<Longrightarrow> zset_at now j (put_count now k n r) = zset_at now j r"
  by (simp add: zset_at_def key_gone_def put_count_def)

text \<open>As time passes a sorted set stays as it is, or its key is gone.\<close>

lemma zset_at_later: "s \<le> t \<Longrightarrow> zset_at t k r = zset_at s k r \<or> zset_at t k r = []"
  by (auto simp: zset_at_def key_gone_def split: option.splits)

lemma zset_at_later_subset: "s \<le> t \<Longrightarrow> set (zset_at t k r) \<subseteq> set (zset_at s k r)"
  using zset_at_later [of s t k r] by auto

end
