(* ===== verification/Concurrency_Cache.thy ===== *)
theory Concurrency_Cache
  imports Redis Interleaving
begin

text \<open>
  Concurrency slots, \<open>internal/repository/concurrency_cache.go\<close>. A slot is a member of a sorted set per
  account, user or API key, scored with the second it was taken; slots older than their lifetime no
  longer count. Live sessions hold slots of their own that count against the same limits, WebSocket
  connections hold leases, and counters bound the requests that wait. An index lists the accounts and
  users with load, for the cleanup.

  The Lua scripts run atomically and are functions of the store. Each is one call, as is every
  command sent alone or in a pipeline; a call may fail before or after it takes effect. The methods
  of the cache are programs of calls. The constructors of \<open>slot_key\<close> stand for the key names, which differ
  in their prefixes and ids.
\<close>

section \<open>Keys and calls\<close>

datatype slot_key =
    Account_Slot int | User_Slot int | Api_Key_Slot int
  | Live_Account_Slot int | Live_User_Slot int | Live_Api_Key_Slot int
  | Ws_Ingress_Lease int | Wait_Queue int | Account_Wait int
  | Account_Active_Index | User_Active_Index | Legacy_Sweep_Marker

abbreviation "openAIWSIngressLeaseTTLSeconds \<equiv> (60 :: int)"
abbreviation "liveLeaseTTLSeconds \<equiv> (60 :: int)"
abbreviation "activeIndexCleanupBatchSize \<equiv> (1000 :: nat)"

record concurrency_cache =
  cc_slot_ttl :: int
  cc_wait_ttl :: int

definition new_concurrency_cache :: "int \<Rightarrow> int \<Rightarrow> concurrency_cache" where
  "new_concurrency_cache slot_minutes wait_seconds =
     (let m = (if slot_minutes \<le> 0 then 15 else slot_minutes);
          w = (if wait_seconds \<le> 0 then m * 60 else wait_seconds)
      in \<lparr>cc_slot_ttl = m * 60, cc_wait_ttl = w\<rparr>)"

type_synonym slots = "slot_key redis"

section \<open>Scripts\<close>

definition take_slot :: "int \<Rightarrow> slot_key \<Rightarrow> int \<Rightarrow> string \<Rightarrow> slots \<Rightarrow> slots" where
  "take_slot now key ttl m r = expire now key (ttl * 1000) (zadd now key (secs now) m r)"

definition acquire_script :: "int \<Rightarrow> slot_key \<Rightarrow> slot_key \<Rightarrow> int \<Rightarrow> int \<Rightarrow> string \<Rightarrow> slots \<Rightarrow> bool \<times> slots" where
  "acquire_script now key live_key max_concurrency ttl rid r =
     (let r1 = zremrangebyscore now live_key (secs now - 60) (zremrangebyscore now key (secs now - ttl) r) in
      if zscore now key rid r1 \<noteq> None then (True, take_slot now key ttl rid r1)
      else if zcard now key r1 + zcard now live_key r1 < max_concurrency then (True, take_slot now key ttl rid r1)
      else (False, r1))"

definition get_count_script :: "int \<Rightarrow> slot_key \<Rightarrow> slot_key \<Rightarrow> int \<Rightarrow> slots \<Rightarrow> int \<times> slots" where
  "get_count_script now key live_key ttl r =
     (let r1 = zremrangebyscore now live_key (secs now - 60) (zremrangebyscore now key (secs now - ttl) r)
      in (zcard now key r1 + zcard now live_key r1, r1))"

definition acquire_live_lease_script ::
  "int \<Rightarrow> int \<Rightarrow> int \<Rightarrow> int \<Rightarrow> int \<Rightarrow> int \<Rightarrow> int \<Rightarrow> string \<Rightarrow> bool \<Rightarrow> slots \<Rightarrow> bool \<times> slots" where
  "acquire_live_lease_script now account user key account_max user_max ttl lease replacing r =
     (let cut = secs now - ttl;
          r1 = zremrangebyscore now (Live_Api_Key_Slot key) cut (zremrangebyscore now (Live_User_Slot user) cut
                 (zremrangebyscore now (Live_Account_Slot account) cut r));
          allowance = (if replacing then 1 else 0)
      in if zscore now (Live_Account_Slot account) lease r1 \<noteq> None then (True, r1)
         else if 0 < account_max \<and> account_max + allowance
             \<le> zcard now (Account_Slot account) r1 + zcard now (Live_Account_Slot account) r1 then (False, r1)
         else if 0 < user_max \<and> user_max + allowance
             \<le> zcard now (User_Slot user) r1 + zcard now (Live_User_Slot user) r1 then (False, r1)
         else (True, take_slot now (Live_Api_Key_Slot key) ttl lease (take_slot now (Live_User_Slot user) ttl lease
                (take_slot now (Live_Account_Slot account) ttl lease r1))))"

text \<open>The loop that purges and checks each key stops at the first key without the lease.\<close>

fun refresh_check :: "int \<Rightarrow> int \<Rightarrow> string \<Rightarrow> slot_key list \<Rightarrow> slots \<Rightarrow> bool \<times> slots" where
  "refresh_check now ttl lease [] r = (True, r)"
| "refresh_check now ttl lease (k # ks) r =
     (let r1 = zremrangebyscore now k (secs now - ttl) r in
      if zscore now k lease r1 = None then (False, r1) else refresh_check now ttl lease ks r1)"

definition refresh_live_lease_script :: "int \<Rightarrow> int \<Rightarrow> string \<Rightarrow> slot_key list \<Rightarrow> slots \<Rightarrow> bool \<times> slots" where
  "refresh_live_lease_script now ttl lease keys r = (case refresh_check now ttl lease keys r of
     (False, r1) \<Rightarrow> (False, r1)
   | (True, r1) \<Rightarrow> (True, fold (\<lambda>k. take_slot now k ttl lease) keys r1))"

definition track_slot_script :: "int \<Rightarrow> slot_key \<Rightarrow> int \<Rightarrow> string \<Rightarrow> slots \<Rightarrow> slots" where
  "track_slot_script now key ttl rid r = take_slot now key ttl rid (zremrangebyscore now key (secs now - ttl) r)"

definition acquire_ws_lease_script :: "int \<Rightarrow> slot_key \<Rightarrow> int \<Rightarrow> int \<Rightarrow> string \<Rightarrow> slots \<Rightarrow> bool \<times> slots" where
  "acquire_ws_lease_script now key max_connections ttl lease r =
     (let r1 = zremrangebyscore now key (secs now - ttl) r in
      if zscore now key lease r1 \<noteq> None then (True, take_slot now key ttl lease r1)
      else if zcard now key r1 < max_connections then (True, take_slot now key ttl lease r1)
      else (False, r1))"

definition refresh_ws_lease_script :: "int \<Rightarrow> slot_key \<Rightarrow> int \<Rightarrow> string \<Rightarrow> slots \<Rightarrow> bool \<times> slots" where
  "refresh_ws_lease_script now key ttl lease r =
     (let r1 = zremrangebyscore now key (secs now - ttl) r in
      if zscore now key lease r1 = None then (False, r1) else (True, take_slot now key ttl lease r1))"

text \<open>\<open>incrementWaitScript\<close> and \<open>incrementAccountWaitScript\<close> have the same text.\<close>

definition increment_wait_script :: "int \<Rightarrow> slot_key \<Rightarrow> int \<Rightarrow> int \<Rightarrow> slots \<Rightarrow> bool \<times> slots" where
  "increment_wait_script now key max_wait ttl r =
     (let current = (case count_at now key r of None \<Rightarrow> 0 | Some n \<Rightarrow> n) in
      if max_wait \<le> current then (False, r)
      else (True, expire now key (ttl * 1000) (put_count now key (Some (current + 1)) r)))"

definition decrement_wait_script :: "int \<Rightarrow> slot_key \<Rightarrow> slots \<Rightarrow> slots" where
  "decrement_wait_script now key r = (case count_at now key r of
     Some n \<Rightarrow> if 0 < n then put_count now key (Some (n - 1)) r else r
   | None \<Rightarrow> r)"

definition cleanup_expired_slots_script :: "int \<Rightarrow> slot_key \<Rightarrow> int \<Rightarrow> slots \<Rightarrow> slots" where
  "cleanup_expired_slots_script now key ttl r =
     (let r1 = zremrangebyscore now key (secs now - ttl) r in
      if zcard now key r1 = 0 then del key r1 else expire now key (ttl * 1000) r1)"

definition has_prefix :: "string \<Rightarrow> string \<Rightarrow> bool" where
  "has_prefix p s \<longleftrightarrow> take (length p) s = p"

definition startup_cleanup_slot_script :: "int \<Rightarrow> slot_key \<Rightarrow> string \<Rightarrow> int \<Rightarrow> slots \<Rightarrow> int \<times> slots" where
  "startup_cleanup_slot_script now key active_prefix ttl r =
     (let r1 = put_zset now key (filter (\<lambda>p. has_prefix active_prefix (fst p)) (zset_at now key r)) r;
          remaining = zcard now key r1
      in (remaining, if remaining = 0 then del key r1 else expire now key (ttl * 1000) r1))"

section \<open>Calls\<close>

datatype slot_call =
    K_Acquire slot_key slot_key int int string
  | K_Count slot_key slot_key int
  | K_Live_Acquire int int int int int string bool
  | K_Live_Refresh "slot_key list" string
  | K_Live_Release "slot_key list" string
  | K_Track slot_key int string
  | K_Ws_Acquire slot_key int string
  | K_Ws_Refresh slot_key string
  | K_Wait_Increment slot_key int int
  | K_Wait_Decrement slot_key
  | K_Cleanup slot_key int
  | K_Startup slot_key string int
  | K_Time
  | K_Zrem slot_key "string list"
  | K_Zremrange slot_key int
  | K_Zcard slot_key
  | K_Get slot_key
  | K_Index_Add slot_key "(string \<times> int) list"
  | K_Index_Due slot_key int nat
  | K_Index_All slot_key
  | K_Del "slot_key list"
  | K_Exists slot_key
  | K_Scan_Wait bool
  | K_Set_Marker slot_key

datatype slot_answer =
    R_Err | R_Unit | R_Bool bool | R_Timed bool int | R_Int int | R_Count "int option"
  | R_Members "string list" | R_Keys "slot_key list" bool

text \<open>
  The choices of a call: its time (the clock of Redis never goes back), its outcome, and for a scan of the key
  space the keys of the next page and whether it is the last one.
\<close>

datatype call_fate = Works | Fails_Before | Fails_After

record slot_choice =
  sc_time :: int
  sc_fate :: call_fate
  sc_scan :: "slot_key list"
  sc_last :: bool

fun wait_pattern :: "bool \<Rightarrow> slot_key \<Rightarrow> bool" where
  "wait_pattern True (Account_Wait _) = True"
| "wait_pattern False (Wait_Queue _) = True"
| "wait_pattern _ _ = False"

definition slot_cmd :: "int \<Rightarrow> slot_key list \<Rightarrow> bool \<Rightarrow> slot_call \<Rightarrow> slots \<Rightarrow> slot_answer \<times> slots" where
  "slot_cmd now scan last_page c r = (case c of
     K_Acquire key live mx ttl rid \<Rightarrow> (case acquire_script now key live mx ttl rid r of (b, r1) \<Rightarrow> (R_Timed b (secs now), r1))
   | K_Count key live ttl \<Rightarrow> (case get_count_script now key live ttl r of (n, r1) \<Rightarrow> (R_Int n, r1))
   | K_Live_Acquire a u k am um lease repl \<Rightarrow>
       (case acquire_live_lease_script now a u k am um liveLeaseTTLSeconds lease repl r of (b, r1) \<Rightarrow> (R_Bool b, r1))
   | K_Live_Refresh keys lease \<Rightarrow> (case refresh_live_lease_script now liveLeaseTTLSeconds lease keys r of (b, r1) \<Rightarrow> (R_Bool b, r1))
   | K_Live_Release keys lease \<Rightarrow> (R_Unit, fold (\<lambda>k. zrem now k lease) keys r)
   | K_Track key ttl rid \<Rightarrow> (R_Unit, track_slot_script now key ttl rid r)
   | K_Ws_Acquire key mx lease \<Rightarrow>
       (case acquire_ws_lease_script now key mx openAIWSIngressLeaseTTLSeconds lease r of (b, r1) \<Rightarrow> (R_Bool b, r1))
   | K_Ws_Refresh key lease \<Rightarrow>
       (case refresh_ws_lease_script now key openAIWSIngressLeaseTTLSeconds lease r of (b, r1) \<Rightarrow> (R_Bool b, r1))
   | K_Wait_Increment key mx ttl \<Rightarrow> (case increment_wait_script now key mx ttl r of (b, r1) \<Rightarrow> (R_Timed b (secs now), r1))
   | K_Wait_Decrement key \<Rightarrow> (R_Unit, decrement_wait_script now key r)
   | K_Cleanup key ttl \<Rightarrow> (R_Unit, cleanup_expired_slots_script now key ttl r)
   | K_Startup key prefix ttl \<Rightarrow> (case startup_cleanup_slot_script now key prefix ttl r of (n, r1) \<Rightarrow> (R_Int n, r1))
   | K_Time \<Rightarrow> (R_Int (secs now), r)
   | K_Zrem key ms \<Rightarrow> (R_Unit, fold (zrem now key) ms r)
   | K_Zremrange key mx \<Rightarrow> (R_Unit, zremrangebyscore now key mx r)
   | K_Zcard key \<Rightarrow> (R_Int (zcard now key r), r)
   | K_Get key \<Rightarrow> (R_Count (count_at now key r), r)
   | K_Index_Add key ms \<Rightarrow> (R_Unit, fold (\<lambda>(m, s). zadd now key s m) ms r)
   | K_Index_Due key mx n \<Rightarrow>
       (R_Members (map fst (take n (sort_key snd (filter (\<lambda>p. snd p \<le> mx) (zset_at now key r))))), r)
   | K_Index_All key \<Rightarrow> (R_Members (map fst (sort_key snd (zset_at now key r))), r)
   | K_Del keys \<Rightarrow> (R_Unit, fold del keys r)
   | K_Exists key \<Rightarrow> (R_Bool (key_exists now key r), r)
   | K_Scan_Wait acc \<Rightarrow> (R_Keys (filter (wait_pattern acc) scan) last_page, r)
   | K_Set_Marker key \<Rightarrow> (R_Unit, put_count now key (Some 1) r))"

record slot_state =
  ss_redis :: slots
  ss_clock :: int

definition slot_exec :: "slot_choice \<Rightarrow> slot_call \<Rightarrow> slot_state \<Rightarrow> slot_answer \<times> slot_state" where
  "slot_exec e c s = (let now = max (ss_clock s) (sc_time e) in
     case sc_fate e of
       Fails_Before \<Rightarrow> (R_Err, s\<lparr>ss_clock := now\<rparr>)
     | Works \<Rightarrow> (case slot_cmd now (sc_scan e) (sc_last e) c (ss_redis s) of (a, r) \<Rightarrow> (a, \<lparr>ss_redis = r, ss_clock = now\<rparr>))
     | Fails_After \<Rightarrow> (R_Err, \<lparr>ss_redis = snd (slot_cmd now (sc_scan e) (sc_last e) c (ss_redis s)), ss_clock = now\<rparr>))"

type_synonym 'r slot_prog = "(slot_call, slot_answer, 'r) prog"

end
