(* ===== verification/Concurrency_Methods.thy ===== *)
theory Concurrency_Methods
  imports Concurrency_Cache
begin

text \<open>
  The methods of the concurrency cache, \<open>internal/repository/concurrency_cache.go\<close>, as programs of the calls of
  \<open>Concurrency_Cache\<close>. A result of \<open>None\<close> is an error of Redis. A pipeline sends its commands one after the
  other; other clients may come between them, and a failed command makes the method fail after all are sent.
  Writes to the index are best effort: their failures are logged and the method goes on.
\<close>

section \<open>Pipelines\<close>

primrec pipeline :: "slot_call list \<Rightarrow> slot_answer list slot_prog" where
  "pipeline [] = Ret []"
| "pipeline (c # cs) = Call c (\<lambda>a. bind_prog (pipeline cs) (\<lambda>as. Ret (a # as)))"

fun int_of :: "slot_answer \<Rightarrow> int" where
  "int_of (R_Int n) = n"
| "int_of _ = 0"

fun count_of :: "slot_answer \<Rightarrow> int" where
  "count_of (R_Count (Some n)) = n"
| "count_of _ = 0"

section \<open>The index of accounts and users with load\<close>

record slot_index_spec =
  si_index :: slot_key
  si_slot :: "int \<Rightarrow> slot_key"
  si_wait :: "int \<Rightarrow> slot_key"

definition account_slot_index :: slot_index_spec where
  "account_slot_index = \<lparr>si_index = Account_Active_Index, si_slot = Account_Slot, si_wait = Account_Wait\<rparr>"

definition user_slot_index :: slot_index_spec where
  "user_slot_index = \<lparr>si_index = User_Active_Index, si_slot = User_Slot, si_wait = Wait_Queue\<rparr>"

definition redis_unix_seconds :: "int option slot_prog" where
  "redis_unix_seconds = Call K_Time (\<lambda>a. Ret (case a of R_Int n \<Rightarrow> Some n | _ \<Rightarrow> None))"

definition touch_active_index_at :: "slot_key \<Rightarrow> int \<Rightarrow> int \<Rightarrow> unit slot_prog" where
  "touch_active_index_at index_key i expire_at =
     (if i \<le> 0 \<or> expire_at \<le> 0 then Ret () else Call (K_Index_Add index_key [(itoa i, expire_at)]) (\<lambda>_. Ret ()))"

definition active_index_ttl :: "concurrency_cache \<Rightarrow> int \<Rightarrow> int \<Rightarrow> int" where
  "active_index_ttl c slot_count wait_count =
     (let t = (if 0 < slot_count then cc_slot_ttl c else 0)
      in if 0 < wait_count \<and> t < cc_wait_ttl c then cc_wait_ttl c else t)"

text \<open>The slots and the positive waiting count of one id; slots past their lifetime are dropped.\<close>

definition load_commands :: "slot_key \<Rightarrow> slot_key \<Rightarrow> int \<Rightarrow> slot_call list" where
  "load_commands slot wait cutoff = [K_Zremrange slot cutoff, K_Zcard slot, K_Get wait]"

definition read_active_load_for_key ::
  "concurrency_cache \<Rightarrow> slot_key \<Rightarrow> slot_key \<Rightarrow> int \<Rightarrow> (int \<times> int) option slot_prog" where
  "read_active_load_for_key c slot wait now =
     bind_prog (pipeline (load_commands slot wait (now - cc_slot_ttl c)))
       (\<lambda>as. Ret (if R_Err \<in> set as then None else Some (int_of (as ! 1), max 0 (count_of (as ! 2)))))"

definition refresh_active_index :: "concurrency_cache \<Rightarrow> slot_key \<Rightarrow> int \<Rightarrow> slot_key \<Rightarrow> slot_key \<Rightarrow> unit slot_prog" where
  "refresh_active_index c index_key i slot wait =
     (if i \<le> 0 then Ret () else bind_prog redis_unix_seconds (\<lambda>t. case t of None \<Rightarrow> Ret () | Some now \<Rightarrow>
        bind_prog (read_active_load_for_key c slot wait now) (\<lambda>load. case load of None \<Rightarrow> Ret () | Some (n, w) \<Rightarrow>
          if n = 0 \<and> w \<le> 0 then Call (K_Zrem index_key [itoa i]) (\<lambda>_. Ret ())
          else let ttl = active_index_ttl c n w
               in if ttl \<le> 0 then Ret () else touch_active_index_at index_key i (now + ttl))))"

definition refresh_account_active_index :: "concurrency_cache \<Rightarrow> int \<Rightarrow> unit slot_prog" where
  "refresh_account_active_index c a = refresh_active_index c Account_Active_Index a (Account_Slot a) (Account_Wait a)"

definition refresh_user_active_index :: "concurrency_cache \<Rightarrow> int \<Rightarrow> unit slot_prog" where
  "refresh_user_active_index c u = refresh_active_index c User_Active_Index u (User_Slot u) (Wait_Queue u)"

section \<open>Slots of accounts, users and API keys\<close>

definition acquire_slot :: "concurrency_cache \<Rightarrow> slot_key \<Rightarrow> slot_key \<Rightarrow> slot_key \<Rightarrow> int \<Rightarrow> int \<Rightarrow> string \<Rightarrow> bool option slot_prog" where
  "acquire_slot c key live index_key i mx rid =
     Call (K_Acquire key live mx (cc_slot_ttl c) rid) (\<lambda>a. case a of
       R_Timed True now \<Rightarrow> bind_prog (touch_active_index_at index_key i (now + cc_slot_ttl c)) (\<lambda>_. Ret (Some True))
     | R_Timed False now \<Rightarrow> Ret (Some False)
     | _ \<Rightarrow> Ret None)"

definition acquire_account_slot :: "concurrency_cache \<Rightarrow> int \<Rightarrow> int \<Rightarrow> string \<Rightarrow> bool option slot_prog" where
  "acquire_account_slot c a mx rid = acquire_slot c (Account_Slot a) (Live_Account_Slot a) Account_Active_Index a mx rid"

definition acquire_user_slot :: "concurrency_cache \<Rightarrow> int \<Rightarrow> int \<Rightarrow> string \<Rightarrow> bool option slot_prog" where
  "acquire_user_slot c u mx rid = acquire_slot c (User_Slot u) (Live_User_Slot u) User_Active_Index u mx rid"

definition release_account_slot :: "concurrency_cache \<Rightarrow> int \<Rightarrow> string \<Rightarrow> unit option slot_prog" where
  "release_account_slot c a rid = Call (K_Zrem (Account_Slot a) [rid]) (\<lambda>x. if x = R_Err then Ret None
     else bind_prog (refresh_account_active_index c a) (\<lambda>_. Ret (Some ())))"

definition release_user_slot :: "concurrency_cache \<Rightarrow> int \<Rightarrow> string \<Rightarrow> unit option slot_prog" where
  "release_user_slot c u rid = Call (K_Zrem (User_Slot u) [rid]) (\<lambda>x. if x = R_Err then Ret None
     else bind_prog (refresh_user_active_index c u) (\<lambda>_. Ret (Some ())))"

definition get_count :: "concurrency_cache \<Rightarrow> slot_key \<Rightarrow> slot_key \<Rightarrow> int option slot_prog" where
  "get_count c key live = Call (K_Count key live (cc_slot_ttl c))
     (\<lambda>a. Ret (case a of R_Int n \<Rightarrow> Some n | _ \<Rightarrow> None))"

definition get_account_concurrency :: "concurrency_cache \<Rightarrow> int \<Rightarrow> int option slot_prog" where
  "get_account_concurrency c a = get_count c (Account_Slot a) (Live_Account_Slot a)"

definition get_user_concurrency :: "concurrency_cache \<Rightarrow> int \<Rightarrow> int option slot_prog" where
  "get_user_concurrency c u = get_count c (User_Slot u) (Live_User_Slot u)"

text \<open>
  The batch reads share one shape: per id the two sets are purged and counted, with the waiting count for
  the load. The answers come back in the order of the ids.
\<close>

definition batch_commands :: "concurrency_cache \<Rightarrow> (int \<Rightarrow> slot_key) \<Rightarrow> (int \<Rightarrow> slot_key) \<Rightarrow> int \<Rightarrow> int list \<Rightarrow> slot_call list" where
  "batch_commands c slot live now ids = concat (map (\<lambda>i. [K_Zremrange (slot i) (now - cc_slot_ttl c),
     K_Zremrange (live i) (now - liveLeaseTTLSeconds), K_Zcard (slot i), K_Zcard (live i)]) ids)"

fun batch_counts :: "int list \<Rightarrow> slot_answer list \<Rightarrow> (int \<times> int) list" where
  "batch_counts (i # ids) (_ # _ # n # l # as) = (i, int_of n + int_of l) # batch_counts ids as"
| "batch_counts _ _ = []"

definition get_concurrency_batch ::
  "concurrency_cache \<Rightarrow> (int \<Rightarrow> slot_key) \<Rightarrow> (int \<Rightarrow> slot_key) \<Rightarrow> int list \<Rightarrow> (int \<times> int) list option slot_prog" where
  "get_concurrency_batch c slot live ids = (if ids = [] then Ret (Some [])
     else bind_prog redis_unix_seconds (\<lambda>t. case t of None \<Rightarrow> Ret None | Some now \<Rightarrow>
       bind_prog (pipeline (batch_commands c slot live now ids))
         (\<lambda>as. Ret (if R_Err \<in> set as then None else Some (batch_counts ids as)))))"

definition get_account_concurrency_batch :: "concurrency_cache \<Rightarrow> int list \<Rightarrow> (int \<times> int) list option slot_prog" where
  "get_account_concurrency_batch c = get_concurrency_batch c Account_Slot Live_Account_Slot"

definition get_api_key_concurrency_batch :: "concurrency_cache \<Rightarrow> int list \<Rightarrow> (int \<times> int) list option slot_prog" where
  "get_api_key_concurrency_batch c = get_concurrency_batch c Api_Key_Slot Live_Api_Key_Slot"

definition unit_of :: "slot_answer \<Rightarrow> unit option" where
  "unit_of a = (if a = R_Err then None else Some ())"

definition bool_of :: "slot_answer \<Rightarrow> bool option" where
  "bool_of a = (case a of R_Bool b \<Rightarrow> Some b | _ \<Rightarrow> None)"

definition track_api_key_slot :: "concurrency_cache \<Rightarrow> int \<Rightarrow> string \<Rightarrow> unit option slot_prog" where
  "track_api_key_slot c k rid = Call (K_Track (Api_Key_Slot k) (cc_slot_ttl c) rid) (\<lambda>a. Ret (unit_of a))"

definition release_api_key_slot :: "int \<Rightarrow> string \<Rightarrow> unit option slot_prog" where
  "release_api_key_slot k rid = Call (K_Zrem (Api_Key_Slot k) [rid]) (\<lambda>a. Ret (unit_of a))"

section \<open>Leases of WebSocket connections and live sessions\<close>

definition acquire_openai_ws_ingress_lease :: "int \<Rightarrow> int \<Rightarrow> string \<Rightarrow> bool option slot_prog" where
  "acquire_openai_ws_ingress_lease k mx lease =
     (if k \<le> 0 \<or> mx \<le> 0 \<or> lease = [] then Ret (Some False)
      else Call (K_Ws_Acquire (Ws_Ingress_Lease k) mx lease) (\<lambda>a. Ret (bool_of a)))"

definition refresh_openai_ws_ingress_lease :: "int \<Rightarrow> string \<Rightarrow> bool option slot_prog" where
  "refresh_openai_ws_ingress_lease k lease =
     (if k \<le> 0 \<or> lease = [] then Ret (Some False)
      else Call (K_Ws_Refresh (Ws_Ingress_Lease k) lease) (\<lambda>a. Ret (bool_of a)))"

definition release_openai_ws_ingress_lease :: "int \<Rightarrow> string \<Rightarrow> unit option slot_prog" where
  "release_openai_ws_ingress_lease k lease =
     (if k \<le> 0 \<or> lease = [] then Ret (Some ())
      else Call (K_Zrem (Ws_Ingress_Lease k) [lease]) (\<lambda>a. Ret (unit_of a)))"

definition acquire_live_lease :: "int \<Rightarrow> int \<Rightarrow> int \<Rightarrow> int \<Rightarrow> int \<Rightarrow> string \<Rightarrow> bool \<Rightarrow> bool option slot_prog" where
  "acquire_live_lease a amx u umx k lease replacing =
     (if a \<le> 0 \<or> u \<le> 0 \<or> k \<le> 0 \<or> lease = [] then Ret (Some False)
      else Call (K_Live_Acquire a u k amx umx lease replacing) (\<lambda>x. Ret (bool_of x)))"

definition live_keys :: "int \<Rightarrow> int \<Rightarrow> int \<Rightarrow> slot_key list" where
  "live_keys a u k = [Live_Account_Slot a, Live_User_Slot u, Live_Api_Key_Slot k]"

definition refresh_live_lease :: "int \<Rightarrow> int \<Rightarrow> int \<Rightarrow> string \<Rightarrow> bool option slot_prog" where
  "refresh_live_lease a u k lease =
     (if lease = [] then Ret (Some False) else Call (K_Live_Refresh (live_keys a u k) lease) (\<lambda>x. Ret (bool_of x)))"

definition release_live_lease :: "int \<Rightarrow> int \<Rightarrow> int \<Rightarrow> string \<Rightarrow> unit option slot_prog" where
  "release_live_lease a u k lease =
     (if lease = [] then Ret (Some ()) else Call (K_Live_Release (live_keys a u k) lease) (\<lambda>x. Ret (unit_of x)))"

section \<open>Waiting requests\<close>

definition increment_wait :: "concurrency_cache \<Rightarrow> slot_key \<Rightarrow> slot_key \<Rightarrow> int \<Rightarrow> int \<Rightarrow> bool option slot_prog" where
  "increment_wait c key index_key i mx =
     Call (K_Wait_Increment key mx (cc_wait_ttl c)) (\<lambda>a. case a of
       R_Timed True now \<Rightarrow> bind_prog (touch_active_index_at index_key i (now + cc_wait_ttl c)) (\<lambda>_. Ret (Some True))
     | R_Timed False now \<Rightarrow> Ret (Some False)
     | _ \<Rightarrow> Ret None)"

definition increment_wait_count :: "concurrency_cache \<Rightarrow> int \<Rightarrow> int \<Rightarrow> bool option slot_prog" where
  "increment_wait_count c u mx = increment_wait c (Wait_Queue u) User_Active_Index u mx"

definition increment_account_wait_count :: "concurrency_cache \<Rightarrow> int \<Rightarrow> int \<Rightarrow> bool option slot_prog" where
  "increment_account_wait_count c a mx = increment_wait c (Account_Wait a) Account_Active_Index a mx"

definition decrement_wait_count :: "concurrency_cache \<Rightarrow> int \<Rightarrow> unit option slot_prog" where
  "decrement_wait_count c u = Call (K_Wait_Decrement (Wait_Queue u)) (\<lambda>x. if x = R_Err then Ret None
     else bind_prog (refresh_user_active_index c u) (\<lambda>_. Ret (Some ())))"

definition decrement_account_wait_count :: "concurrency_cache \<Rightarrow> int \<Rightarrow> unit option slot_prog" where
  "decrement_account_wait_count c a = Call (K_Wait_Decrement (Account_Wait a)) (\<lambda>x. if x = R_Err then Ret None
     else bind_prog (refresh_account_active_index c a) (\<lambda>_. Ret (Some ())))"

definition get_account_waiting_count :: "int \<Rightarrow> int option slot_prog" where
  "get_account_waiting_count a = Call (K_Get (Account_Wait a))
     (\<lambda>x. Ret (case x of R_Count None \<Rightarrow> Some 0 | R_Count (Some n) \<Rightarrow> Some n | _ \<Rightarrow> None))"

section \<open>Loads\<close>

record load_info =
  li_id :: int
  li_concurrency :: int
  li_waiting :: int
  li_rate :: int

text \<open>The load in percent; the division truncates towards zero.\<close>

definition load_rate :: "int \<Rightarrow> int \<Rightarrow> int \<Rightarrow> int" where
  "load_rate current waiting mx = (if 0 < mx then trunc_rat (of_int ((current + waiting) * 100) / of_int mx) else 0)"

definition load_batch_commands ::
  "concurrency_cache \<Rightarrow> (int \<Rightarrow> slot_key) \<Rightarrow> (int \<Rightarrow> slot_key) \<Rightarrow> (int \<Rightarrow> slot_key) \<Rightarrow> int \<Rightarrow> (int \<times> int) list \<Rightarrow> slot_call list" where
  "load_batch_commands c slot live wait now xs = concat (map (\<lambda>(i, mx). [K_Zremrange (slot i) (now - cc_slot_ttl c),
     K_Zremrange (live i) (now - liveLeaseTTLSeconds), K_Zcard (slot i), K_Zcard (live i), K_Get (wait i)]) xs)"

fun batch_loads :: "(int \<times> int) list \<Rightarrow> slot_answer list \<Rightarrow> load_info list" where
  "batch_loads ((i, mx) # xs) (_ # _ # n # l # w # as) =
     (let cur = int_of n + int_of l
      in \<lparr>li_id = i, li_concurrency = cur, li_waiting = count_of w, li_rate = load_rate cur (count_of w) mx\<rparr> # batch_loads xs as)"
| "batch_loads _ _ = []"

definition get_load_batch ::
  "concurrency_cache \<Rightarrow> (int \<Rightarrow> slot_key) \<Rightarrow> (int \<Rightarrow> slot_key) \<Rightarrow> (int \<Rightarrow> slot_key) \<Rightarrow> (int \<times> int) list \<Rightarrow> load_info list option slot_prog" where
  "get_load_batch c slot live wait xs = (if xs = [] then Ret (Some [])
     else bind_prog redis_unix_seconds (\<lambda>t. case t of None \<Rightarrow> Ret None | Some now \<Rightarrow>
       bind_prog (pipeline (load_batch_commands c slot live wait now xs))
         (\<lambda>as. Ret (if R_Err \<in> set as then None else Some (batch_loads xs as)))))"

definition get_accounts_load_batch :: "concurrency_cache \<Rightarrow> (int \<times> int) list \<Rightarrow> load_info list option slot_prog" where
  "get_accounts_load_batch c = get_load_batch c Account_Slot Live_Account_Slot Account_Wait"

definition get_users_load_batch :: "concurrency_cache \<Rightarrow> (int \<times> int) list \<Rightarrow> load_info list option slot_prog" where
  "get_users_load_batch c = get_load_batch c User_Slot Live_User_Slot Wait_Queue"

section \<open>Cleanup of the index\<close>

definition cleanup_expired_account_slots :: "concurrency_cache \<Rightarrow> int \<Rightarrow> unit option slot_prog" where
  "cleanup_expired_account_slots c a = Call (K_Cleanup (Account_Slot a) (cc_slot_ttl c)) (\<lambda>x. if x = R_Err then Ret None
     else bind_prog (refresh_account_active_index c a) (\<lambda>_. Ret (Some ())))"

definition member_id :: "string \<Rightarrow> int option" where
  "member_id m = (case atoi m of Some i \<Rightarrow> if i \<le> 0 then None else Some i | None \<Rightarrow> None)"

text \<open>
  The loads are read in chunks of pipelines; the method stops at the first chunk that fails. A chunk takes
  500 ids.
\<close>

abbreviation "activeIndexPipelineChunkSize \<equiv> (500 :: nat)"

fun chunk_loads :: "(int \<times> string) list \<Rightarrow> slot_answer list \<Rightarrow> (string \<times> int \<times> int) list" where
  "chunk_loads ((i, m) # xs) (_ # n # w # as) = (m, int_of n, max 0 (count_of w)) # chunk_loads xs as"
| "chunk_loads _ _ = []"

function read_chunks :: "concurrency_cache \<Rightarrow> slot_index_spec \<Rightarrow> int \<Rightarrow> (int \<times> string) list \<Rightarrow> (string \<times> int \<times> int) list option slot_prog" where
  "read_chunks c spec now xs = (if xs = [] then Ret (Some [])
     else let chunk = take activeIndexPipelineChunkSize xs in
       bind_prog (pipeline (concat (map (\<lambda>(i, m). load_commands (si_slot spec i) (si_wait spec i) (now - cc_slot_ttl c)) chunk)))
         (\<lambda>as. if R_Err \<in> set as then Ret None
               else bind_prog (read_chunks c spec now (drop activeIndexPipelineChunkSize xs))
                 (\<lambda>rest. Ret (map_option ((@) (chunk_loads chunk as)) rest))))"
  by pat_completeness auto
termination by (relation "measure (\<lambda>(_, _, _, xs). length xs)") auto

declare read_chunks.simps [simp del]

definition read_index_loads ::
  "concurrency_cache \<Rightarrow> slot_index_spec \<Rightarrow> string list \<Rightarrow> int \<Rightarrow> ((string \<times> int \<times> int) list \<times> string list) option slot_prog" where
  "read_index_loads c spec ms now =
     bind_prog (read_chunks c spec now (List.map_filter (\<lambda>m. map_option (\<lambda>i. (i, m)) (member_id m)) ms))
       (\<lambda>loads. Ret (map_option (\<lambda>ls. (ls, filter (\<lambda>m. member_id m = None) ms)) loads))"

definition remove_active_index_members :: "slot_key \<Rightarrow> string list \<Rightarrow> unit slot_prog" where
  "remove_active_index_members index_key ms = (if ms = [] then Ret () else Call (K_Zrem index_key ms) (\<lambda>_. Ret ()))"

definition write_index :: "slot_key \<Rightarrow> (string \<times> int) list \<Rightarrow> string list \<Rightarrow> unit option slot_prog" where
  "write_index index_key refreshed stale =
     bind_prog (if refreshed = [] then Ret () else Call (K_Index_Add index_key refreshed) (\<lambda>_. Ret ()))
       (\<lambda>_. bind_prog (remove_active_index_members index_key stale) (\<lambda>_. Ret (Some ())))"

definition idle :: "string \<times> int \<times> int \<Rightarrow> bool" where
  "idle l = (case l of (m, n, w) \<Rightarrow> n = 0 \<and> w \<le> 0)"

definition reconcile_expired_index_candidates :: "concurrency_cache \<Rightarrow> slot_index_spec \<Rightarrow> unit option slot_prog" where
  "reconcile_expired_index_candidates c spec = bind_prog redis_unix_seconds (\<lambda>t. case t of None \<Rightarrow> Ret None | Some now \<Rightarrow>
     Call (K_Index_Due (si_index spec) now activeIndexCleanupBatchSize) (\<lambda>a. case a of
       R_Members ms \<Rightarrow> bind_prog (read_index_loads c spec ms now) (\<lambda>res. case res of None \<Rightarrow> Ret None
         | Some (loads, stale) \<Rightarrow> write_index (si_index spec)
             (map (\<lambda>(m, n, w). (m, now + active_index_ttl c n w)) (filter (\<lambda>l. \<not> idle l) loads))
             (stale @ map fst (filter idle loads)))
     | _ \<Rightarrow> Ret None))"

definition cleanup_expired_account_slot_keys :: "concurrency_cache \<Rightarrow> unit option slot_prog" where
  "cleanup_expired_account_slot_keys c = bind_prog (reconcile_expired_index_candidates c account_slot_index)
     (\<lambda>r. if r = None then Ret None else reconcile_expired_index_candidates c user_slot_index)"

section \<open>Cleanup when a process starts\<close>

text \<open>The loop over the pages of a scan; a scan that outlasts its fuel is left where it stands.\<close>

primrec sweep_pages :: "nat \<Rightarrow> bool \<Rightarrow> unit option slot_prog" where
  "sweep_pages 0 acc = Ret None"
| "sweep_pages (Suc n) acc = Call (K_Scan_Wait acc) (\<lambda>a. case a of
     R_Keys keys last_page \<Rightarrow>
       bind_prog (if keys = [] then Ret (Some ()) else Call (K_Del keys) (\<lambda>x. Ret (unit_of x)))
         (\<lambda>d. if d = None then Ret None else if last_page then Ret (Some ()) else sweep_pages n acc)
   | _ \<Rightarrow> Ret None)"

definition sweep_legacy_wait_keys_once :: "nat \<Rightarrow> unit option slot_prog" where
  "sweep_legacy_wait_keys_once n = Call (K_Exists Legacy_Sweep_Marker) (\<lambda>a. case a of
     R_Bool True \<Rightarrow> Ret (Some ())
   | R_Bool False \<Rightarrow> bind_prog (sweep_pages n True) (\<lambda>r. if r = None then Ret None
       else bind_prog (sweep_pages n False) (\<lambda>q. if q = None then Ret None
         else Call (K_Set_Marker Legacy_Sweep_Marker) (\<lambda>x. Ret (unit_of x))))
   | _ \<Rightarrow> Ret None)"

definition all_index_members :: "slot_key \<Rightarrow> string list option slot_prog" where
  "all_index_members index_key = Call (K_Index_All index_key) (\<lambda>a. Ret (case a of R_Members ms \<Rightarrow> Some ms | _ \<Rightarrow> None))"

fun stale_loop ::
  "concurrency_cache \<Rightarrow> slot_index_spec \<Rightarrow> string \<Rightarrow> int \<Rightarrow> string list \<Rightarrow> (string \<times> int) list \<Rightarrow> string list \<Rightarrow> unit option slot_prog" where
  "stale_loop c spec prefix now [] refreshed stale = write_index (si_index spec) refreshed stale"
| "stale_loop c spec prefix now (m # ms) refreshed stale = (case member_id m of
     None \<Rightarrow> stale_loop c spec prefix now ms refreshed (stale @ [m])
   | Some i \<Rightarrow> Call (K_Startup (si_slot spec i) prefix (cc_slot_ttl c)) (\<lambda>a. case a of
       R_Int remaining \<Rightarrow> Call (K_Del [si_wait spec i]) (\<lambda>d. if d = R_Err then Ret None
         else if 0 < remaining
           then stale_loop c spec prefix now ms (refreshed @ [(m, now + cc_slot_ttl c)]) stale
           else stale_loop c spec prefix now ms refreshed (stale @ [m]))
     | _ \<Rightarrow> Ret None))"

definition cleanup_stale_process_slots_for_index ::
  "concurrency_cache \<Rightarrow> slot_index_spec \<Rightarrow> string list \<Rightarrow> string \<Rightarrow> int \<Rightarrow> unit option slot_prog" where
  "cleanup_stale_process_slots_for_index c spec ms prefix now = stale_loop c spec prefix now ms [] []"

definition cleanup_stale_process_slots :: "concurrency_cache \<Rightarrow> nat \<Rightarrow> string \<Rightarrow> unit option slot_prog" where
  "cleanup_stale_process_slots c pages prefix = (if prefix = [] then Ret (Some ())
     else bind_prog (sweep_legacy_wait_keys_once pages) (\<lambda>r. if r = None then Ret None
     else bind_prog redis_unix_seconds (\<lambda>t. case t of None \<Rightarrow> Ret None | Some now \<Rightarrow>
       bind_prog (all_index_members Account_Active_Index) (\<lambda>ams. case ams of None \<Rightarrow> Ret None | Some am \<Rightarrow>
       bind_prog (cleanup_stale_process_slots_for_index c account_slot_index am prefix now) (\<lambda>q. if q = None then Ret None
       else bind_prog (all_index_members User_Active_Index) (\<lambda>ums. case ums of None \<Rightarrow> Ret None | Some um \<Rightarrow>
         cleanup_stale_process_slots_for_index c user_slot_index um prefix now))))))"

end
