(* ===== verification/Concurrency_Service.thy ===== *)
theory Concurrency_Service
  imports Concurrency_Methods "HOL-Library.AList" "HOL-Library.Word"
begin

text \<open>
  The concurrency service, \<open>internal/service/concurrency_service.go\<close>: limits of zero or less are no
  limits, errors of Redis let requests wait without being counted, WebSocket leases are refreshed by a loop,
  and the loads of accounts are cached for a short time. The requests to the service and the background
  jobs, on all instances, are the programs of \<open>slot_handler\<close>.
\<close>

section \<open>Request ids\<close>

definition digit36 :: "nat \<Rightarrow> char" where
  "digit36 n = (if n < 10 then char_of (48 + n) else char_of (87 + n))"

fun base36 :: "nat \<Rightarrow> string" where
  "base36 n = (if n < 36 then [digit36 n] else base36 (n div 36) @ [digit36 (n mod 36)])"

declare base36.simps [simp del]

text \<open>The counter is a 64-bit word; \<open>prefix\<close> is the random prefix of the process.\<close>

definition generate_request_id :: "string \<Rightarrow> 64 word \<Rightarrow> string \<times> 64 word" where
  "generate_request_id prefix counter = (let n = counter + 1 in (prefix @ ''-'' @ base36 (unat n), n))"

section \<open>Slots\<close>

datatype release_func = Release_Nothing | Release_Account int string | Release_User int string | Release_Api_Key int string

record acquire_result =
  ar_acquired :: bool
  ar_release :: "release_func option"

definition service_acquire_account_slot :: "concurrency_cache \<Rightarrow> int \<Rightarrow> int \<Rightarrow> string \<Rightarrow> acquire_result option slot_prog" where
  "service_acquire_account_slot c a mx rid =
     (if mx \<le> 0 then Ret (Some \<lparr>ar_acquired = True, ar_release = Some Release_Nothing\<rparr>)
      else bind_prog (acquire_account_slot c a mx rid) (\<lambda>r. Ret (map_option (\<lambda>b.
        \<lparr>ar_acquired = b, ar_release = (if b then Some (Release_Account a rid) else None)\<rparr>) r)))"

definition service_acquire_user_slot :: "concurrency_cache \<Rightarrow> int \<Rightarrow> int \<Rightarrow> string \<Rightarrow> acquire_result option slot_prog" where
  "service_acquire_user_slot c u mx rid =
     (if mx \<le> 0 then Ret (Some \<lparr>ar_acquired = True, ar_release = Some Release_Nothing\<rparr>)
      else bind_prog (acquire_user_slot c u mx rid) (\<lambda>r. Ret (map_option (\<lambda>b.
        \<lparr>ar_acquired = b, ar_release = (if b then Some (Release_User u rid) else None)\<rparr>) r)))"

text \<open>Tracking fails open: without the slot there is nothing to release.\<close>

definition service_track_api_key_slot :: "concurrency_cache \<Rightarrow> int \<Rightarrow> string \<Rightarrow> release_func slot_prog" where
  "service_track_api_key_slot c k rid = (if k \<le> 0 then Ret Release_Nothing
     else bind_prog (track_api_key_slot c k rid)
       (\<lambda>r. Ret (if r = None then Release_Nothing else Release_Api_Key k rid)))"

text \<open>What a release function does when it is called; its errors are logged.\<close>

definition run_release :: "concurrency_cache \<Rightarrow> release_func \<Rightarrow> unit slot_prog" where
  "run_release c f = (case f of
     Release_Nothing \<Rightarrow> Ret ()
   | Release_Account a rid \<Rightarrow> bind_prog (release_account_slot c a rid) (\<lambda>_. Ret ())
   | Release_User u rid \<Rightarrow> bind_prog (release_user_slot c u rid) (\<lambda>_. Ret ())
   | Release_Api_Key k rid \<Rightarrow> bind_prog (release_api_key_slot k rid) (\<lambda>_. Ret ()))"

definition service_get_api_key_concurrency_batch :: "concurrency_cache \<Rightarrow> int list \<Rightarrow> (int \<times> int) list slot_prog" where
  "service_get_api_key_concurrency_batch c ids = (if ids = [] then Ret []
     else bind_prog (get_api_key_concurrency_batch c ids) (\<lambda>r. Ret (map (\<lambda>i. (i, case r of None \<Rightarrow> 0
       | Some counts \<Rightarrow> (case map_of counts i of None \<Rightarrow> 0 | Some n \<Rightarrow> n))) ids)))"

section \<open>Waiting\<close>

definition fail_open :: "bool option \<Rightarrow> bool" where
  "fail_open r = (case r of None \<Rightarrow> True | Some b \<Rightarrow> b)"

definition service_increment_wait_count :: "concurrency_cache \<Rightarrow> int \<Rightarrow> int \<Rightarrow> bool slot_prog" where
  "service_increment_wait_count c u mx = bind_prog (increment_wait_count c u mx) (\<lambda>r. Ret (fail_open r))"

definition service_increment_account_wait_count :: "concurrency_cache \<Rightarrow> int \<Rightarrow> int \<Rightarrow> bool slot_prog" where
  "service_increment_account_wait_count c a mx = bind_prog (increment_account_wait_count c a mx) (\<lambda>r. Ret (fail_open r))"

definition service_decrement_wait_count :: "concurrency_cache \<Rightarrow> int \<Rightarrow> unit slot_prog" where
  "service_decrement_wait_count c u = bind_prog (decrement_wait_count c u) (\<lambda>_. Ret ())"

definition service_decrement_account_wait_count :: "concurrency_cache \<Rightarrow> int \<Rightarrow> unit slot_prog" where
  "service_decrement_account_wait_count c a = bind_prog (decrement_account_wait_count c a) (\<lambda>_. Ret ())"

definition calculate_max_wait :: "int \<Rightarrow> int" where
  "calculate_max_wait n = (if n \<le> 0 then 1 else n) + 20"

section \<open>WebSocket leases\<close>

abbreviation "openAIWSIngressLeaseTTL \<equiv> (60000000000 :: int)"

text \<open>The answer to a connection: \<open>Ws_Unlimited\<close> when there is no limit, a lease, or a refusal.\<close>

datatype ws_lease = Ws_Unlimited | Ws_Lease int string | Ws_Refused | Ws_Error

definition service_acquire_ws_lease :: "int \<Rightarrow> int \<Rightarrow> string \<Rightarrow> ws_lease slot_prog" where
  "service_acquire_ws_lease k mx lease = (if mx \<le> 0 then Ret Ws_Unlimited
     else if k \<le> 0 then Ret Ws_Error
     else bind_prog (acquire_openai_ws_ingress_lease k mx lease) (\<lambda>r. Ret (case r of
       None \<Rightarrow> Ws_Error | Some True \<Rightarrow> Ws_Lease k lease | Some False \<Rightarrow> Ws_Refused)))"

text \<open>One tick of the refresh loop: the time of the last confirmation and whether the lease is lost.\<close>

definition ws_refresh :: "int \<Rightarrow> string \<Rightarrow> time \<Rightarrow> time \<Rightarrow> (time \<times> bool) slot_prog" where
  "ws_refresh k lease last_confirmed now = bind_prog (refresh_openai_ws_ingress_lease k lease) (\<lambda>r. Ret (case r of
     Some True \<Rightarrow> (now, False)
   | Some False \<Rightarrow> (last_confirmed, True)
   | None \<Rightarrow> (last_confirmed, openAIWSIngressLeaseTTL \<le> time_sub now last_confirmed)))"

section \<open>The cache of loads\<close>

abbreviation "maxAccountLoadBatchCacheEntries \<equiv> (256 :: nat)"

record 'v cached_batch =
  cb_loads :: 'v
  cb_expires :: time

type_synonym 'v load_cache = "(string \<times> 'v cached_batch) list"

definition get_cached_batch :: "string \<Rightarrow> time \<Rightarrow> 'v load_cache \<Rightarrow> 'v option \<times> 'v load_cache" where
  "get_cached_batch key now cache = (case map_of cache key of
     None \<Rightarrow> (None, cache)
   | Some b \<Rightarrow> if cb_expires b \<le> now then (None, AList.delete key cache) else (Some (cb_loads b), cache))"

text \<open>Go iterates over a map in any order; \<open>pick\<close> chooses the entry that goes.\<close>

fun evict :: "nat \<Rightarrow> (nat \<Rightarrow> nat) \<Rightarrow> 'v load_cache \<Rightarrow> 'v load_cache" where
  "evict 0 pick cache = cache"
| "evict (Suc n) pick cache = evict n pick (AList.delete (fst (cache ! (pick n mod length cache))) cache)"

definition store_cached_batch :: "(nat \<Rightarrow> nat) \<Rightarrow> time \<Rightarrow> string \<Rightarrow> 'v \<Rightarrow> time \<Rightarrow> 'v load_cache \<Rightarrow> 'v load_cache" where
  "store_cached_batch pick now key v expires cache =
     (let room = (if maxAccountLoadBatchCacheEntries \<le> length cache
                  then let live = filter (\<lambda>p. now < cb_expires (snd p)) cache
                       in evict (length live - (maxAccountLoadBatchCacheEntries - 1)) pick live
                  else cache)
      in AList.update key \<lparr>cb_loads = v, cb_expires = expires\<rparr> room)"

section \<open>Requests\<close>

datatype slot_request =
    Q_Acquire_Account int int string | Q_Acquire_User int int string | Q_Release release_func
  | Q_Count_Account int | Q_Count_User int | Q_Count_Accounts "int list" | Q_Count_Api_Keys "int list"
  | Q_Track int string
  | Q_Ws_Acquire int int string | Q_Ws_Refresh int string time time | Q_Ws_Release int string
  | Q_Live_Acquire int int int int int string bool | Q_Live_Refresh int int int string | Q_Live_Release int int int string
  | Q_Wait int int | Q_Wait_Account int int | Q_Unwait int | Q_Unwait_Account int | Q_Waiting_Account int
  | Q_Account_Loads "(int \<times> int) list" | Q_User_Loads "(int \<times> int) list"
  | Q_Cleanup_Account int | Q_Cleanup_Keys | Q_Startup nat string

datatype slot_result =
    S_Error | S_Unit | S_Bool bool | S_Int int | S_Slot acquire_result | S_Release release_func | S_Ws ws_lease
  | S_Lost time bool | S_Counts "(int \<times> int) list" | S_Loads "load_info list"

definition answering :: "('a \<Rightarrow> slot_result) \<Rightarrow> 'a slot_prog \<Rightarrow> slot_result slot_prog" where
  "answering f p = bind_prog p (\<lambda>r. Ret (f r))"

definition or_error :: "('a \<Rightarrow> slot_result) \<Rightarrow> 'a option \<Rightarrow> slot_result" where
  "or_error f r = (case r of None \<Rightarrow> S_Error | Some x \<Rightarrow> f x)"

definition slot_handler :: "concurrency_cache \<Rightarrow> slot_request \<Rightarrow> slot_result slot_prog" where
  "slot_handler c q = (case q of
     Q_Acquire_Account a mx rid \<Rightarrow> answering (or_error S_Slot) (service_acquire_account_slot c a mx rid)
   | Q_Acquire_User u mx rid \<Rightarrow> answering (or_error S_Slot) (service_acquire_user_slot c u mx rid)
   | Q_Release f \<Rightarrow> answering (\<lambda>_. S_Unit) (run_release c f)
   | Q_Count_Account a \<Rightarrow> answering (or_error S_Int) (get_account_concurrency c a)
   | Q_Count_User u \<Rightarrow> answering (or_error S_Int) (get_user_concurrency c u)
   | Q_Count_Accounts ids \<Rightarrow> answering (or_error S_Counts) (get_account_concurrency_batch c ids)
   | Q_Count_Api_Keys ids \<Rightarrow> answering S_Counts (service_get_api_key_concurrency_batch c ids)
   | Q_Track k rid \<Rightarrow> answering S_Release (service_track_api_key_slot c k rid)
   | Q_Ws_Acquire k mx lease \<Rightarrow> answering S_Ws (service_acquire_ws_lease k mx lease)
   | Q_Ws_Refresh k lease t now \<Rightarrow> answering (\<lambda>(x, b). S_Lost x b) (ws_refresh k lease t now)
   | Q_Ws_Release k lease \<Rightarrow> answering (\<lambda>_. S_Unit) (release_openai_ws_ingress_lease k lease)
   | Q_Live_Acquire a amx u umx k lease repl \<Rightarrow> answering (or_error S_Bool) (acquire_live_lease a amx u umx k lease repl)
   | Q_Live_Refresh a u k lease \<Rightarrow> answering (or_error S_Bool) (refresh_live_lease a u k lease)
   | Q_Live_Release a u k lease \<Rightarrow> answering (or_error (\<lambda>_. S_Unit)) (release_live_lease a u k lease)
   | Q_Wait u mx \<Rightarrow> answering S_Bool (service_increment_wait_count c u mx)
   | Q_Wait_Account a mx \<Rightarrow> answering S_Bool (service_increment_account_wait_count c a mx)
   | Q_Unwait u \<Rightarrow> answering (\<lambda>_. S_Unit) (service_decrement_wait_count c u)
   | Q_Unwait_Account a \<Rightarrow> answering (\<lambda>_. S_Unit) (service_decrement_account_wait_count c a)
   | Q_Waiting_Account a \<Rightarrow> answering (or_error S_Int) (get_account_waiting_count a)
   | Q_Account_Loads xs \<Rightarrow> answering (or_error S_Loads) (get_accounts_load_batch c xs)
   | Q_User_Loads xs \<Rightarrow> answering (or_error S_Loads) (get_users_load_batch c xs)
   | Q_Cleanup_Account a \<Rightarrow> answering (or_error (\<lambda>_. S_Unit)) (cleanup_expired_account_slots c a)
   | Q_Cleanup_Keys \<Rightarrow> answering (or_error (\<lambda>_. S_Unit)) (cleanup_expired_account_slot_keys c)
   | Q_Startup pages prefix \<Rightarrow> answering (or_error (\<lambda>_. S_Unit)) (cleanup_stale_process_slots c pages prefix))"

end
