(* ===== verification/Concurrency_Laws.thy ===== *)
theory Concurrency_Laws
  imports Concurrency_Service
begin

text \<open>
  What holds of the slots of an account, a user or an API key in every state that the calls of the
  methods can reach: there are never more slots than the limit, and a slot stays until it is released or
  its lifetime is over.
\<close>

section \<open>Owners of slots\<close>

datatype slot_owner = Of_Account int | Of_User int | Of_Ws int

primrec slot_of :: "slot_owner \<Rightarrow> slot_key" where
  "slot_of (Of_Account a) = Account_Slot a"
| "slot_of (Of_User u) = User_Slot u"
| "slot_of (Of_Ws k) = Ws_Ingress_Lease k"

primrec live_of :: "slot_owner \<Rightarrow> slot_key option" where
  "live_of (Of_Account a) = Some (Live_Account_Slot a)"
| "live_of (Of_User u) = Some (Live_User_Slot u)"
| "live_of (Of_Ws k) = None"

primrec lifetime :: "concurrency_cache \<Rightarrow> slot_owner \<Rightarrow> int" where
  "lifetime c (Of_Account a) = cc_slot_ttl c"
| "lifetime c (Of_User u) = cc_slot_ttl c"
| "lifetime c (Of_Ws k) = openAIWSIngressLeaseTTLSeconds"

definition live_set :: "int \<Rightarrow> slot_owner \<Rightarrow> slots \<Rightarrow> zset" where
  "live_set now ow r = (case live_of ow of None \<Rightarrow> [] | Some k \<Rightarrow> zset_at now k r)"

definition slots_in_use :: "slot_owner \<Rightarrow> slot_state \<Rightarrow> int" where
  "slots_in_use ow s = int (length (zset_at (ss_clock s) (slot_of ow) (ss_redis s)))
     + int (length (live_set (ss_clock s) ow (ss_redis s)))"

lemma slot_of_not_live [simp]: "live_of o1 \<noteq> Some (slot_of o2)"
  by (cases o1; cases o2) simp_all

section \<open>The invariant of a set of slots\<close>

text \<open>
  Members are distinct, no slot is younger than the clock, and the key outlives its members.
\<close>

definition zset_ok :: "int \<Rightarrow> int \<Rightarrow> slot_key \<Rightarrow> slots \<Rightarrow> bool" where
  "zset_ok ttl now k r \<longleftrightarrow> distinct (map fst (zset_at now k r)) \<and>
     (\<forall>p \<in> set (zset_at now k r). snd p \<le> secs now \<and>
        (case r_deadline r k of None \<Rightarrow> True | Some d \<Rightarrow> (snd p + ttl) * 1000 \<le> d))"

lemma zset_ok_later: "zset_ok ttl s k r \<Longrightarrow> s \<le> t \<Longrightarrow> zset_ok ttl t k r"
  using zset_at_later [of s t k r] secs_mono [of s t] by (fastforce simp: zset_ok_def)

lemma zset_ok_cong:
  "zset_at now k r' = zset_at now k r \<Longrightarrow> r_deadline r' k = r_deadline r k \<Longrightarrow> zset_ok ttl now k r' = zset_ok ttl now k r"
  by (simp add: zset_ok_def)

lemma zset_ok_put:
  assumes "zset_ok ttl now k r" "set z \<subseteq> set (zset_at now k r)" "distinct (map fst z)"
  shows "zset_ok ttl now k (put_zset now k z r)"
  using assms by (fastforce simp: zset_ok_def kept_deadline_def)

lemma zset_ok_filter: "zset_ok ttl now k r \<Longrightarrow> zset_ok ttl now k (put_zset now k (filter P (zset_at now k r)) r)"
  by (rule zset_ok_put) (auto simp: zset_ok_def distinct_filter_fst)

lemma deadline_expire:
  "r_deadline (expire now k ms r) j = (if j = k \<and> key_exists now k r then Some (now + ms) else r_deadline r j)"
  by (simp add: expire_def)

lemma secs_bound: "s \<le> secs now \<Longrightarrow> s * 1000 \<le> now"
  unfolding secs_def by presburger

lemma secs_less: "now < s * 1000 \<Longrightarrow> secs now < s"
  unfolding secs_def by presburger

lemma zset_ok_expire: "zset_ok ttl now k r \<Longrightarrow> 0 < ttl \<Longrightarrow> zset_ok ttl now k (expire now k (ttl * 1000) r)"
  by (auto simp: zset_ok_def deadline_expire secs_bound)

lemma zset_ok_take:
  assumes "zset_ok ttl now k r" "0 < ttl" shows "zset_ok ttl now k (take_slot now k ttl m r)"
proof -
  have z: "zset_at now k (take_slot now k ttl m r) = (m, secs now) # filter (\<lambda>p. fst p \<noteq> m) (zset_at now k r)"
    using assms(2) by (simp add: take_slot_def)
  have "r_deadline (take_slot now k ttl m r) k = Some (now + ttl * 1000)"
    by (simp add: take_slot_def deadline_expire key_exists_def)
  then show ?thesis using assms(1) by (auto simp: zset_ok_def z secs_bound distinct_filter_fst)
qed

section \<open>Steps that respect the limit and keep a slot\<close>

text \<open>
  \<open>fine c ow M K now r r'\<close>: the step from \<open>r\<close> to \<open>r'\<close> keeps the slots of the owner within \<open>M\<close>, and
  every slot of \<open>K\<close> that is younger than its lifetime.
\<close>

definition owner_ok :: "concurrency_cache \<Rightarrow> slot_owner \<Rightarrow> int \<Rightarrow> int \<Rightarrow> slots \<Rightarrow> bool" where
  "owner_ok c ow M now r \<longleftrightarrow> zset_ok (lifetime c ow) now (slot_of ow) r \<and> distinct (map fst (live_set now ow r)) \<and>
     int (length (zset_at now (slot_of ow) r)) + int (length (live_set now ow r)) \<le> M"

definition fine :: "concurrency_cache \<Rightarrow> slot_owner \<Rightarrow> int \<Rightarrow> string set \<Rightarrow> int \<Rightarrow> slots \<Rightarrow> slots \<Rightarrow> bool" where
  "fine c ow M K now r r' \<longleftrightarrow> (owner_ok c ow M now r \<longrightarrow> owner_ok c ow M now r' \<and>
     (\<forall>m \<in> K. \<forall>s. (m, s) \<in> set (zset_at now (slot_of ow) r) \<and> now < (s + lifetime c ow) * 1000 \<longrightarrow>
       (\<exists>s' \<ge> s. (m, s') \<in> set (zset_at now (slot_of ow) r'))))"

lemma fine_refl [simp]: "fine c ow M K now r r"
  by (auto simp: fine_def)

lemma fine_trans: "fine c ow M K now r r1 \<Longrightarrow> fine c ow M K now r1 r2 \<Longrightarrow> fine c ow M K now r r2"
  unfolding fine_def by (smt (verit) mult_right_mono)

lemma fine_frame:
  assumes "zset_at now (slot_of ow) r' = zset_at now (slot_of ow) r" "r_deadline r' (slot_of ow) = r_deadline r (slot_of ow)"
    "live_set now ow r' = live_set now ow r"
  shows "fine c ow M K now r r'"
  using assms by (auto simp: fine_def owner_ok_def zset_ok_def)

lemma live_set_other: "live_of ow \<noteq> Some j \<Longrightarrow> live_set now ow (put_zset now j z r) = live_set now ow r"
  by (auto simp: live_set_def split: option.splits)

lemma filter_bound: "int (length z) + n \<le> M \<Longrightarrow> int (length (filter P z)) + n \<le> M"
  by (rule order_trans [OF add_right_mono]) simp_all

lemma filter_bound_right: "n + int (length z) \<le> M \<Longrightarrow> n + int (length (filter P z)) \<le> M"
  using filter_bound [of z n M P] by (simp add: add.commute)

lemma fine_filter:
  assumes "\<And>m s. j = slot_of ow \<Longrightarrow> m \<in> K \<Longrightarrow> now < (s + lifetime c ow) * 1000 \<Longrightarrow> P (m, s)"
  shows "fine c ow M K now r (put_zset now j (filter P (zset_at now j r)) r)"
proof (cases "j = slot_of ow")
  case True
  then show ?thesis using assms zset_ok_filter [of "lifetime c ow" now j r P]
    by (auto simp: fine_def owner_ok_def live_set_other filter_bound)
next
  case False
  show ?thesis
  proof (cases "live_of ow = Some j")
    case True
    then show ?thesis using False
      by (auto simp: fine_def owner_ok_def live_set_def distinct_filter_fst zset_ok_def filter_bound_right)
  next
    case False
    with \<open>j \<noteq> slot_of ow\<close> show ?thesis by (intro fine_frame) (auto simp: live_set_other)
  qed
qed

lemma fine_zremrange:
  assumes "j = slot_of ow \<Longrightarrow> lo \<le> secs now - lifetime c ow"
  shows "fine c ow M K now r (zremrangebyscore now j lo r)"
proof -
  have "lo < s" if "j = slot_of ow" "now < (s + lifetime c ow) * 1000" for s
  proof -
    have "secs now < s + lifetime c ow" by (rule secs_less [OF that(2)])
    then show ?thesis using assms [OF that(1)] by linarith
  qed
  then show ?thesis unfolding zremrangebyscore_def by (intro fine_filter) simp
qed

lemma fine_zrem: "(j = slot_of ow \<Longrightarrow> m \<notin> K) \<Longrightarrow> fine c ow M K now r (zrem now j m r)"
  unfolding zrem_def by (intro fine_filter) auto

lemma fine_expire:
  assumes "0 < ttl" "j = slot_of ow \<Longrightarrow> ttl = lifetime c ow"
  shows "fine c ow M K now r (expire now j (ttl * 1000) r)"
proof (cases "j = slot_of ow")
  case True
  then show ?thesis using assms zset_ok_expire [of "lifetime c ow" now j r]
    by (auto simp: fine_def owner_ok_def live_set_def split: option.splits)
next
  case False
  then show ?thesis using assms by (intro fine_frame) (auto simp: live_set_def deadline_expire split: option.splits)
qed

lemma zset_at_take:
  "0 < ttl \<Longrightarrow> zset_at now j (take_slot now k ttl m r) =
     (if j = k then (m, secs now) # filter (\<lambda>p. fst p \<noteq> m) (zset_at now k r) else zset_at now j r)"
  by (simp add: take_slot_def)

lemma deadline_take: "j \<noteq> k \<Longrightarrow> r_deadline (take_slot now k ttl m r) j = r_deadline r j"
  by (simp add: take_slot_def deadline_expire zadd_def)

lemma length_replace:
  "distinct (map fst z) \<Longrightarrow> m \<in> fst ` set z \<Longrightarrow> length ((m, s) # filter (\<lambda>p. fst p \<noteq> m) z) = length z"
proof (induction z)
  case (Cons x z)
  have "filter (\<lambda>p. fst p \<noteq> m) z = z" if "m = fst x"
    using Cons.prems(1) that by (intro filter_True) (metis distinct.simps(2) image_eqI list.simps(9) list.set_map)
  then show ?case using Cons by auto
qed simp

lemma length_take:
  assumes "distinct (map fst z)" "m \<in> fst ` set z \<or> int (length z) + n < M" "int (length z) + n \<le> M"
  shows "int (length ((m, s) # filter (\<lambda>p. fst p \<noteq> m) z)) + n \<le> M"
proof (cases "m \<in> fst ` set z")
  case True then show ?thesis using length_replace [OF assms(1) True, of s] assms(3) by simp
next
  case False
  then have "int (length z) + (n + 1) \<le> M" using assms(2) by simp
  from filter_bound [OF this, of "\<lambda>p. fst p \<noteq> m"] show ?thesis by simp
qed

lemma length_take_right:
  assumes "distinct (map fst z)" "m \<in> fst ` set z \<or> n + int (length z) < M" "n + int (length z) \<le> M"
  shows "n + int (length ((m, s) # filter (\<lambda>p. fst p \<noteq> m) z)) \<le> M"
  using length_take [OF assms(1), of m n M s] assms(2,3) by (simp add: add.commute)

lemma fine_take:
  assumes "0 < ttl" "j = slot_of ow \<Longrightarrow> ttl = lifetime c ow"
    and "j = slot_of ow \<or> live_of ow = Some j \<Longrightarrow> m \<in> fst ` set (zset_at now j r) \<or>
      int (length (zset_at now (slot_of ow) r)) + int (length (live_set now ow r)) < M"
  shows "fine c ow M K now r (take_slot now j ttl m r)"
proof (cases "j = slot_of ow")
  case True
  have "live_set now ow (take_slot now j ttl m r) = live_set now ow r"
    using assms(1) True by (auto simp: live_set_def zset_at_take split: option.splits)
  then have "owner_ok c ow M now (take_slot now j ttl m r)" if "owner_ok c ow M now r"
    using that assms True zset_ok_take [of "lifetime c ow" now j r m]
      length_take [of "zset_at now j r" m "int (length (live_set now ow r))" M "secs now"]
    by (simp add: owner_ok_def zset_at_take zset_ok_def)
  moreover have "\<exists>s' \<ge> s. (x, s') \<in> set (zset_at now (slot_of ow) (take_slot now j ttl m r))"
    if "owner_ok c ow M now r" "(x, s) \<in> set (zset_at now (slot_of ow) r)" for x s
    using that assms(1) True by (cases "x = m") (auto simp: zset_at_take owner_ok_def zset_ok_def)
  ultimately show ?thesis by (auto simp: fine_def)
next
  case False
  then have keep: "zset_ok (lifetime c ow) now (slot_of ow) (take_slot now j ttl m r) = zset_ok (lifetime c ow) now (slot_of ow) r"
    "zset_at now (slot_of ow) (take_slot now j ttl m r) = zset_at now (slot_of ow) r"
    using assms(1) by (auto intro!: zset_ok_cong simp: zset_at_take deadline_take)
  show ?thesis
  proof (cases "live_of ow = Some j")
    case True
    then have "live_set now ow (take_slot now j ttl m r) = (m, secs now) # filter (\<lambda>p. fst p \<noteq> m) (live_set now ow r)"
      "live_set now ow r = zset_at now j r"
      using assms(1) by (auto simp: live_set_def zset_at_take)
    then show ?thesis using assms keep True
        length_take_right [of "zset_at now j r" m "int (length (zset_at now (slot_of ow) r))" M "secs now"]
      by (auto simp: fine_def owner_ok_def distinct_filter_fst simp del: list.size)
  next
    case other: False
    with False show ?thesis using assms(1) keep
      by (intro fine_frame) (auto simp: live_set_def zset_at_take deadline_take split: option.splits)
  qed
qed

section \<open>Scripts\<close>

lemma slot_of_inj [simp]: "slot_of o1 = slot_of o2 \<longleftrightarrow> o1 = o2"
  by (cases o1; cases o2) auto

lemma live_of_inj: "live_of o1 = Some k \<Longrightarrow> live_of o2 = Some k \<Longrightarrow> o1 = o2"
  by (cases o1; cases o2) auto

lemma lifetime_live: "live_of ow = Some k \<Longrightarrow> lifetime c ow = cc_slot_ttl c"
  by (cases ow) auto

lemma zscore_member: "zscore now k m r \<noteq> None \<longleftrightarrow> m \<in> fst ` set (zset_at now k r)"
  by (simp add: zscore_def map_of_eq_None_iff)

lemma ws_key [simp]: "Ws_Ingress_Lease k = slot_of ow \<longleftrightarrow> ow = Of_Ws k"
  by (cases ow) auto

lemma ws_not_live [simp]: "live_of ow \<noteq> Some (Ws_Ingress_Lease k)"
  by (cases ow) auto

lemma fine_purge_pair:
  assumes "live_of ow' = Some live" "0 < cc_slot_ttl c"
  shows "fine c ow M K now r (zremrangebyscore now live (secs now - 60) (zremrangebyscore now (slot_of ow') (secs now - cc_slot_ttl c) r))"
  using assms by (intro fine_trans [OF fine_zremrange fine_zremrange]) (auto simp: lifetime_live)

lemma acquire_script_fine:
  assumes "live_of ow' = Some live" "0 < cc_slot_ttl c" "ow' = ow \<Longrightarrow> mx \<le> M"
  shows "fine c ow M K now r (snd (acquire_script now (slot_of ow') live mx (cc_slot_ttl c) m r))"
proof -
  let ?r1 = "zremrangebyscore now live (secs now - 60) (zremrangebyscore now (slot_of ow') (secs now - cc_slot_ttl c) r)"
  have p: "fine c ow M K now r ?r1" by (rule fine_purge_pair [OF assms(1,2)])
  have t: "fine c ow M K now ?r1 (take_slot now (slot_of ow') (cc_slot_ttl c) m ?r1)"
    if "m \<in> fst ` set (zset_at now (slot_of ow') ?r1) \<or> zcard now (slot_of ow') ?r1 + zcard now live ?r1 < mx"
    using assms that lifetime_live [OF assms(1)]
    by (intro fine_take) (auto simp: zcard_def live_set_def dest: live_of_inj)
  show ?thesis unfolding acquire_script_def Let_def zscore_member using p fine_trans [OF p t] by auto
qed

lemma ws_acquire_fine:
  assumes "Of_Ws k = ow \<Longrightarrow> mx \<le> M"
  shows "fine c ow M K now r (snd (acquire_ws_lease_script now (Ws_Ingress_Lease k) mx 60 m r))"
proof -
  let ?r1 = "zremrangebyscore now (Ws_Ingress_Lease k) (secs now - 60) r"
  have p: "fine c ow M K now r ?r1" by (intro fine_zremrange) auto
  have t: "fine c ow M K now ?r1 (take_slot now (Ws_Ingress_Lease k) 60 m ?r1)"
    if "m \<in> fst ` set (zset_at now (Ws_Ingress_Lease k) ?r1) \<or> zcard now (Ws_Ingress_Lease k) ?r1 < mx"
    using assms that by (intro fine_take) (auto simp: zcard_def live_set_def)
  show ?thesis unfolding acquire_ws_lease_script_def Let_def zscore_member using p fine_trans [OF p t] by auto
qed

lemma ws_refresh_fine: "fine c ow M K now r (snd (refresh_ws_lease_script now (Ws_Ingress_Lease k) 60 m r))"
proof -
  let ?r1 = "zremrangebyscore now (Ws_Ingress_Lease k) (secs now - 60) r"
  have p: "fine c ow M K now r ?r1" by (intro fine_zremrange) auto
  have t: "fine c ow M K now ?r1 (take_slot now (Ws_Ingress_Lease k) 60 m ?r1)"
    if "m \<in> fst ` set (zset_at now (Ws_Ingress_Lease k) ?r1)"
    using that by (intro fine_take) auto
  show ?thesis unfolding refresh_ws_lease_script_def Let_def
    using p fine_trans [OF p t] zscore_member [of now "Ws_Ingress_Lease k" m ?r1] by auto
qed

definition is_live :: "slot_key \<Rightarrow> bool" where
  "is_live k = (case k of Live_Account_Slot _ \<Rightarrow> True | Live_User_Slot _ \<Rightarrow> True | Live_Api_Key_Slot _ \<Rightarrow> True | _ \<Rightarrow> False)"

lemma is_live_not_slot: "is_live k \<Longrightarrow> k \<noteq> slot_of ow"
  by (cases ow) (auto simp: is_live_def)

lemma refresh_check_fine:
  "list_all is_live ks \<Longrightarrow> distinct ks \<Longrightarrow> refresh_check now ttl m ks r = (b, r') \<Longrightarrow>
    fine c ow M K now r r' \<and> (b \<longrightarrow> (\<forall>k \<in> set ks. m \<in> fst ` set (zset_at now k r'))) \<and>
    (\<forall>k. k \<notin> set ks \<longrightarrow> zset_at now k r' = zset_at now k r)"
proof (induction ks arbitrary: r b r')
  case (Cons k ks)
  let ?r1 = "zremrangebyscore now k (secs now - ttl) r"
  have p: "fine c ow M K now r ?r1" using Cons.prems(1) is_live_not_slot by (intro fine_zremrange) auto
  show ?case
  proof (cases "zscore now k m ?r1 = None")
    case True
    then show ?thesis using Cons.prems p by auto
  next
    case False
    then have "refresh_check now ttl m ks ?r1 = (b, r')" using Cons.prems(3) by (auto simp: Let_def)
    from Cons.IH [OF _ _ this] Cons.prems(1,2) have
      ih: "fine c ow M K now ?r1 r'" "b \<longrightarrow> (\<forall>k \<in> set ks. m \<in> fst ` set (zset_at now k r'))"
        "\<forall>k. k \<notin> set ks \<longrightarrow> zset_at now k r' = zset_at now k ?r1" by auto
    have "m \<in> fst ` set (zset_at now k ?r1)" using False zscore_member [of now k m ?r1] by blast
    then have "m \<in> fst ` set (zset_at now k r')" using ih(3) Cons.prems(2) by simp
    then show ?thesis using ih fine_trans [OF p] by auto
  qed
qed simp

lemma take_all_fine:
  "0 < ttl \<Longrightarrow> list_all is_live ks \<Longrightarrow> distinct ks \<Longrightarrow> \<forall>k \<in> set ks. m \<in> fst ` set (zset_at now k r) \<Longrightarrow>
    fine c ow M K now r (fold (\<lambda>k. take_slot now k ttl m) ks r)"
proof (induction ks arbitrary: r)
  case (Cons k ks)
  have "fine c ow M K now r (take_slot now k ttl m r)"
    using Cons.prems is_live_not_slot by (intro fine_take) auto
  moreover have "fine c ow M K now (take_slot now k ttl m r) (fold (\<lambda>k. take_slot now k ttl m) ks (take_slot now k ttl m r))"
    using Cons.prems by (intro Cons.IH) (auto simp: zset_at_take)
  ultimately show ?case using fine_trans by simp
qed simp

lemma live_refresh_fine:
  "fine c ow M K now r (snd (refresh_live_lease_script now 60 m (live_keys a u k) r))"
proof -
  have ks: "list_all is_live (live_keys a u k)" "distinct (live_keys a u k)" by (auto simp: live_keys_def is_live_def)
  obtain b r1 where e: "refresh_check now 60 m (live_keys a u k) r = (b, r1)" by fastforce
  note c = refresh_check_fine [OF ks e, of c ow M K]
  show ?thesis using c take_all_fine [OF _ ks, of 60 m now r1 c ow M K] fine_trans
    unfolding refresh_live_lease_script_def e by (cases b) auto
qed

lemma live_acquire_fine:
  assumes "ow = Of_Account a \<Longrightarrow> 0 < am \<and> am + (if repl then 1 else 0) \<le> M"
    and "ow = Of_User u \<Longrightarrow> 0 < um \<and> um + (if repl then 1 else 0) \<le> M"
  shows "fine c ow M K now r (snd (acquire_live_lease_script now a u k am um 60 m repl r))"
proof -
  let ?r1 = "zremrangebyscore now (Live_Api_Key_Slot k) (secs now - 60) (zremrangebyscore now (Live_User_Slot u) (secs now - 60)
                 (zremrangebyscore now (Live_Account_Slot a) (secs now - 60) r))"
  have ks: "Live_Account_Slot i \<noteq> slot_of ow" "Live_User_Slot i \<noteq> slot_of ow" "Live_Api_Key_Slot i \<noteq> slot_of ow" for i
    by (simp_all add: is_live_not_slot is_live_def)
  have p: "fine c ow M K now r ?r1"
    using ks by (intro fine_trans [OF fine_trans [OF fine_zremrange fine_zremrange] fine_zremrange]) auto
  let ?r2 = "take_slot now (Live_Account_Slot a) 60 m ?r1"
  let ?r3 = "take_slot now (Live_User_Slot u) 60 m ?r2"
  have t: "fine c ow M K now ?r1 (take_slot now (Live_Api_Key_Slot k) 60 m ?r3)"
    if "\<not> (0 < am \<and> am + (if repl then 1 else 0) \<le> zcard now (Account_Slot a) ?r1 + zcard now (Live_Account_Slot a) ?r1)"
      "\<not> (0 < um \<and> um + (if repl then 1 else 0) \<le> zcard now (User_Slot u) ?r1 + zcard now (Live_User_Slot u) ?r1)"
  proof -
    have "fine c ow M K now ?r1 ?r2"
      using that(1) assms(1) ks by (intro fine_take) (cases ow; auto simp: zcard_def live_set_def)+
    moreover have "fine c ow M K now ?r2 ?r3"
      using that(2) assms(2) ks by (intro fine_take) (cases ow; auto simp: zcard_def live_set_def zset_at_take)+
    moreover have "fine c ow M K now ?r3 (take_slot now (Live_Api_Key_Slot k) 60 m ?r3)"
      using ks by (intro fine_take) (cases ow; auto)+
    ultimately show ?thesis using fine_trans by blast
  qed
  show ?thesis unfolding acquire_live_lease_script_def Let_def using p fine_trans [OF p t] by auto
qed

lemma fold_fine: "(\<And>x r. x \<in> set xs \<Longrightarrow> fine c ow M K now r (f x r)) \<Longrightarrow> fine c ow M K now r (fold f xs r)"
proof (induction xs arbitrary: r)
  case (Cons x xs)
  then have "fine c ow M K now r (f x r)" "fine c ow M K now (f x r) (fold f xs (f x r))" by auto
  then show ?case using fine_trans by simp
qed simp

lemma deadline_del: "r_deadline (del k r) j = (if j = k then None else r_deadline r j)"
  by (simp add: del_def)

lemma deadline_zadd: "j \<noteq> k \<Longrightarrow> r_deadline (zadd now k sc m r) j = r_deadline r j"
  by (simp add: zadd_def)

lemma put_other_fine:
  assumes "j \<noteq> slot_of ow" "live_of ow \<noteq> Some j"
  shows "fine c ow M K now r (put_count now j n r)" "fine c ow M K now r (del j r)"
    "fine c ow M K now r (zadd now j sc m r)" "0 < ms \<Longrightarrow> fine c ow M K now r (expire now j ms r)"
proof -
  have l: "live_of ow = Some k \<Longrightarrow> k \<noteq> j" for k using assms(2) by auto
  show "fine c ow M K now r (put_count now j n r)"
    using assms l by (intro fine_frame) (auto simp: live_set_def split: option.splits)
  show "fine c ow M K now r (del j r)"
    using assms l by (intro fine_frame) (auto simp: live_set_def deadline_del split: option.splits)
  show "fine c ow M K now r (zadd now j sc m r)"
    using assms l by (intro fine_frame) (auto simp: live_set_def deadline_zadd split: option.splits)
  show "fine c ow M K now r (expire now j ms r)" if "0 < ms"
    using assms l that by (intro fine_frame) (auto simp: live_set_def deadline_expire split: option.splits)
qed

lemma wait_increment_fine:
  assumes "j \<noteq> slot_of ow" "live_of ow \<noteq> Some j" "0 < ttl"
  shows "fine c ow M K now r (snd (increment_wait_script now j mx ttl r))"
  using assms fine_trans [OF put_other_fine(1) [OF assms(1,2)] put_other_fine(4) [OF assms(1,2)]]
  by (simp add: increment_wait_script_def Let_def)

lemma wait_decrement_fine:
  assumes "j \<noteq> slot_of ow" "live_of ow \<noteq> Some j"
  shows "fine c ow M K now r (decrement_wait_script now j r)"
  using assms put_other_fine(1) by (simp add: decrement_wait_script_def split: option.splits)

lemma live_set_del: "live_of ow \<noteq> Some j \<Longrightarrow> live_set now ow (del j r) = live_set now ow r"
  by (auto simp: live_set_def split: option.splits)

lemma fine_del_empty: "zset_at now j r = [] \<Longrightarrow> live_of ow \<noteq> Some j \<Longrightarrow> fine c ow M K now r (del j r)"
  by (auto simp: fine_def owner_ok_def zset_ok_def live_set_del deadline_del)

lemma cleanup_script_fine:
  assumes "live_of ow \<noteq> Some j" "0 < ttl" "j = slot_of ow \<Longrightarrow> ttl = lifetime c ow"
  shows "fine c ow M K now r (cleanup_expired_slots_script now j ttl r)"
proof -
  let ?r1 = "zremrangebyscore now j (secs now - ttl) r"
  have p: "fine c ow M K now r ?r1" using assms by (intro fine_zremrange) auto
  have "fine c ow M K now ?r1 (if zcard now j ?r1 = 0 then del j ?r1 else expire now j (ttl * 1000) ?r1)"
    using assms by (auto intro!: fine_del_empty fine_expire simp: zcard_def)
  from fine_trans [OF p this] show ?thesis by (simp add: cleanup_expired_slots_script_def Let_def)
qed

lemma startup_script_fine:
  assumes "live_of ow \<noteq> Some j" "0 < ttl" "j = slot_of ow \<Longrightarrow> ttl = lifetime c ow \<and> (\<forall>m \<in> K. has_prefix prefix m)"
  shows "fine c ow M K now r (snd (startup_cleanup_slot_script now j prefix ttl r))"
proof -
  let ?r1 = "put_zset now j (filter (\<lambda>p. has_prefix prefix (fst p)) (zset_at now j r)) r"
  have p: "fine c ow M K now r ?r1" using assms by (intro fine_filter) auto
  have "fine c ow M K now ?r1 (if zcard now j ?r1 = 0 then del j ?r1 else expire now j (ttl * 1000) ?r1)"
    using assms by (auto intro!: fine_del_empty fine_expire simp: zcard_def)
  from fine_trans [OF p this] show ?thesis by (simp add: startup_cleanup_slot_script_def Let_def)
qed

end
