(* ===== verification/Concurrency_Safety.thy ===== *)
theory Concurrency_Safety
  imports Concurrency_Laws
begin

text \<open>
  The limits of slots, leases and waiting requests for every schedule of requests on all instances: the calls
  that a method makes meet the conditions of \<open>slot_call_ok\<close>, each such call is fine for the slots of an
  owner, and the rule of \<open>rely_guarantee\<close> gives the rest.
\<close>

section \<open>Calls\<close>

text \<open>The calls of the methods. \<open>n\<close> is a second that the clock of Redis has reached.\<close>

definition slot_call_ok :: "concurrency_cache \<Rightarrow> slot_owner \<Rightarrow> int \<Rightarrow> string set \<Rightarrow> int \<Rightarrow> slot_call \<Rightarrow> bool" where
  "slot_call_ok c ow M K n call = (case call of
     K_Acquire key live mx ttl m \<Rightarrow> ttl = cc_slot_ttl c \<and>
       (\<exists>w. key = slot_of w \<and> live_of w = Some live \<and> (w = ow \<longrightarrow> mx \<le> M))
   | K_Count key live ttl \<Rightarrow> ttl = cc_slot_ttl c \<and> (\<exists>w. key = slot_of w \<and> live_of w = Some live)
   | K_Live_Acquire a u k am um lease repl \<Rightarrow>
       (ow = Of_Account a \<longrightarrow> 0 < am \<and> am + (if repl then 1 else 0) \<le> M) \<and>
       (ow = Of_User u \<longrightarrow> 0 < um \<and> um + (if repl then 1 else 0) \<le> M)
   | K_Live_Refresh keys lease \<Rightarrow> (\<exists>a u k. keys = live_keys a u k)
   | K_Live_Release keys lease \<Rightarrow> (\<exists>a u k. keys = live_keys a u k)
   | K_Track key ttl m \<Rightarrow> 0 < ttl \<and> (\<exists>k. key = Api_Key_Slot k)
   | K_Ws_Acquire key mx lease \<Rightarrow> (\<exists>k. key = Ws_Ingress_Lease k \<and> (Of_Ws k = ow \<longrightarrow> mx \<le> M))
   | K_Ws_Refresh key lease \<Rightarrow> (\<exists>k. key = Ws_Ingress_Lease k)
   | K_Wait_Increment key mx ttl \<Rightarrow> 0 < ttl \<and> (\<exists>i. key = Wait_Queue i \<or> key = Account_Wait i)
   | K_Wait_Decrement key \<Rightarrow> (\<exists>i. key = Wait_Queue i \<or> key = Account_Wait i)
   | K_Cleanup key ttl \<Rightarrow> ttl = cc_slot_ttl c \<and> (\<exists>a. key = Account_Slot a)
   | K_Startup key prefix ttl \<Rightarrow> ttl = cc_slot_ttl c \<and> (\<exists>i. key = Account_Slot i \<or> key = User_Slot i) \<and>
       (key = slot_of ow \<longrightarrow> (\<forall>m \<in> K. has_prefix prefix m))
   | K_Zrem key ms \<Rightarrow> key = slot_of ow \<longrightarrow> set ms \<inter> K = {}
   | K_Zremrange key lo \<Rightarrow> key = slot_of ow \<longrightarrow> lo \<le> n - lifetime c ow
   | K_Index_Add key ms \<Rightarrow> key = Account_Active_Index \<or> key = User_Active_Index
   | K_Del keys \<Rightarrow> (\<forall>k \<in> set keys. \<exists>i. k = Wait_Queue i \<or> k = Account_Wait i)
   | K_Set_Marker key \<Rightarrow> key = Legacy_Sweep_Marker
   | _ \<Rightarrow> True)"

lemma slot_call_ok_later: "slot_call_ok c ow M K n call \<Longrightarrow> n \<le> n' \<Longrightarrow> slot_call_ok c ow M K n' call"
  by (cases call) (auto simp: slot_call_ok_def)

lemma plain_keys [simp]:
  "Api_Key_Slot i \<noteq> slot_of ow" "Wait_Queue i \<noteq> slot_of ow" "Account_Wait i \<noteq> slot_of ow"
  "Account_Active_Index \<noteq> slot_of ow" "User_Active_Index \<noteq> slot_of ow" "Legacy_Sweep_Marker \<noteq> slot_of ow"
  "live_of ow \<noteq> Some (Api_Key_Slot i)" "live_of ow \<noteq> Some (Wait_Queue i)" "live_of ow \<noteq> Some (Account_Wait i)"
  "live_of ow \<noteq> Some Account_Active_Index" "live_of ow \<noteq> Some User_Active_Index" "live_of ow \<noteq> Some Legacy_Sweep_Marker"
  "live_of ow \<noteq> Some (Account_Slot i)" "live_of ow \<noteq> Some (User_Slot i)"
  "slot_of ow \<noteq> Live_Account_Slot i" "slot_of ow \<noteq> Live_User_Slot i" "slot_of ow \<noteq> Live_Api_Key_Slot i"
  by (cases ow; simp)+

lemmas plain_keys_sym [simp] = plain_keys(1-6) [THEN not_sym]

lemma slot_lifetime [simp]:
  "Account_Slot a = slot_of ow \<Longrightarrow> lifetime c ow = cc_slot_ttl c" "User_Slot u = slot_of ow \<Longrightarrow> lifetime c ow = cc_slot_ttl c"
  by (cases ow; simp)+

lemma slot_cmd_fine:
  assumes ok: "slot_call_ok c ow M K n call" and n: "n \<le> secs now" and ttl: "0 < cc_slot_ttl c"
  shows "fine c ow M K now r (snd (slot_cmd now scan lp call r))"
proof (cases call)
  case (K_Acquire key live mx t m)
  then obtain w where w: "key = slot_of w" "live_of w = Some live" "w = ow \<longrightarrow> mx \<le> M" "t = cc_slot_ttl c"
    using ok by (auto simp: slot_call_ok_def)
  have "fine c ow M K now r (snd (acquire_script now (slot_of w) live mx (cc_slot_ttl c) m r))"
    using w ttl by (intro acquire_script_fine) auto
  then show ?thesis using K_Acquire w by (auto simp: slot_cmd_def split: prod.splits)
next
  case (K_Count key live t)
  then show ?thesis using ok ttl fine_purge_pair [of _ live c ow M K now r]
    by (auto simp: slot_call_ok_def slot_cmd_def get_count_script_def Let_def)
next
  case (K_Live_Acquire a u k am um lease repl)
  then show ?thesis using ok live_acquire_fine [of ow a am repl M u um c K now r k lease]
    by (auto simp: slot_call_ok_def slot_cmd_def split: prod.splits)
next
  case (K_Live_Refresh keys lease)
  then show ?thesis using ok live_refresh_fine [of c ow M K now r lease]
    by (auto simp: slot_call_ok_def slot_cmd_def split: prod.splits) (metis snd_conv)+
next
  case (K_Live_Release keys lease)
  then show ?thesis using ok by (auto simp: slot_call_ok_def slot_cmd_def live_keys_def intro!: fold_fine fine_zrem)
next
  case (K_Track key t m)
  then show ?thesis using ok
    by (auto simp: slot_call_ok_def slot_cmd_def track_slot_script_def intro!: fine_trans [OF fine_zremrange fine_take])
next
  case (K_Ws_Acquire key mx lease)
  then show ?thesis using ok ws_acquire_fine [of _ ow mx M c K now r lease]
    by (auto simp: slot_call_ok_def slot_cmd_def split: prod.splits) (metis snd_conv)+
next
  case (K_Ws_Refresh key lease)
  then show ?thesis using ok ws_refresh_fine [of c ow M K now r _ lease]
    by (auto simp: slot_call_ok_def slot_cmd_def split: prod.splits) (metis snd_conv)+
next
  case (K_Wait_Increment key mx t)
  then show ?thesis using ok wait_increment_fine [of key ow t c M K now r mx]
    by (auto simp: slot_call_ok_def slot_cmd_def split: prod.splits)
next
  case (K_Wait_Decrement key)
  then show ?thesis using ok wait_decrement_fine [of key ow c M K now r] by (auto simp: slot_call_ok_def slot_cmd_def)
next
  case (K_Cleanup key t)
  then show ?thesis using ok ttl cleanup_script_fine [of ow key t c M K now r] by (auto simp: slot_call_ok_def slot_cmd_def)
next
  case (K_Startup key prefix t)
  then show ?thesis using ok ttl startup_script_fine [of ow key t c K prefix M now r]
    by (auto simp: slot_call_ok_def slot_cmd_def split: prod.splits)
next
  case (K_Zrem key ms)
  then show ?thesis using ok by (auto simp: slot_call_ok_def slot_cmd_def intro!: fold_fine fine_zrem)
next
  case (K_Zremrange key lo)
  then show ?thesis using ok n by (auto simp: slot_call_ok_def slot_cmd_def intro!: fine_zremrange)
next
  case (K_Index_Add key ms)
  then show ?thesis using ok by (auto simp: slot_call_ok_def slot_cmd_def intro!: fold_fine put_other_fine)
next
  case (K_Del keys)
  then show ?thesis using ok by (fastforce simp: slot_call_ok_def slot_cmd_def intro!: fold_fine put_other_fine)
next
  case (K_Set_Marker key)
  then show ?thesis using ok by (auto simp: slot_call_ok_def slot_cmd_def intro!: put_other_fine)
qed (simp_all add: slot_cmd_def)

section \<open>States and schedules\<close>

definition slot_inv :: "concurrency_cache \<Rightarrow> slot_owner \<Rightarrow> int \<Rightarrow> slot_state \<Rightarrow> bool" where
  "slot_inv c ow M s \<longleftrightarrow> owner_ok c ow M (ss_clock s) (ss_redis s)"

text \<open>The clock does not go back, and the slots of \<open>K\<close> stay until their lifetimes are over.\<close>

definition slot_rely :: "concurrency_cache \<Rightarrow> slot_owner \<Rightarrow> string set \<Rightarrow> slot_state \<Rightarrow> slot_state \<Rightarrow> bool" where
  "slot_rely c ow K s t \<longleftrightarrow> ss_clock s \<le> ss_clock t \<and>
     (\<forall>m \<in> K. \<forall>x. (m, x) \<in> set (zset_at (ss_clock s) (slot_of ow) (ss_redis s)) \<and> ss_clock t < (x + lifetime c ow) * 1000 \<longrightarrow>
       (\<exists>y \<ge> x. (m, y) \<in> set (zset_at (ss_clock t) (slot_of ow) (ss_redis t))))"

lemma slot_rely_refl: "slot_rely c ow K s s"
  by (auto simp: slot_rely_def)

lemma slot_rely_trans: "slot_rely c ow K s t \<Longrightarrow> slot_rely c ow K t u \<Longrightarrow> slot_rely c ow K s u"
  unfolding slot_rely_def by (smt (verit) mult_right_mono)

interpretation slot_rg: rely_guarantee slot_exec "slot_inv c ow M" "slot_rely c ow K" for c ow M K
  by unfold_locales (rule slot_rely_refl, rule slot_rely_trans)

lemma owner_ok_later: "owner_ok c ow M s r \<Longrightarrow> s \<le> t \<Longrightarrow> owner_ok c ow M t r"
proof -
  assume ok: "owner_ok c ow M s r" and st: "s \<le> t"
  have z: "zset_at t k r = zset_at s k r \<or> zset_at t k r = []" for k by (rule zset_at_later [OF st])
  have "live_set t ow r = live_set s ow r \<or> live_set t ow r = []"
    using z by (auto simp: live_set_def split: option.splits)
  then show ?thesis using ok zset_ok_later [OF _ st] z [of "slot_of ow"] by (auto simp: owner_ok_def)
qed

text \<open>A slot younger than its lifetime is not gone with its key.\<close>

lemma young_slot_later:
  assumes "zset_ok (lifetime c ow) s (slot_of ow) r" "s \<le> t" "(m, x) \<in> set (zset_at s (slot_of ow) r)"
    "t < (x + lifetime c ow) * 1000"
  shows "(m, x) \<in> set (zset_at t (slot_of ow) r)"
  using assms by (fastforce simp: zset_ok_def zset_at_def key_gone_def split: option.splits if_splits)

lemma slot_exec_ok:
  assumes ok: "slot_call_ok c ow M K n call" and n: "n \<le> secs (ss_clock s)" and ttl: "0 < cc_slot_ttl c"
    and inv: "slot_inv c ow M s" and run: "slot_exec e call s = (a, u)"
  shows "slot_inv c ow M u \<and> slot_rely c ow K s u"
proof -
  let ?now = "max (ss_clock s) (sc_time e)"
  have now: "owner_ok c ow M ?now (ss_redis s)" using inv owner_ok_later by (simp add: slot_inv_def)
  have "n \<le> secs ?now" using n secs_mono [of "ss_clock s" ?now] by simp
  from slot_cmd_fine [OF ok this ttl] now have
    "fine c ow M K ?now (ss_redis s) (ss_redis u)" and clock: "ss_clock u = ?now"
    using run by (auto simp: slot_exec_def Let_def split: call_fate.splits prod.splits) (metis snd_conv)+
  then have f: "owner_ok c ow M ?now (ss_redis u)"
    "\<And>m x. m \<in> K \<Longrightarrow> (m, x) \<in> set (zset_at ?now (slot_of ow) (ss_redis s)) \<Longrightarrow> ?now < (x + lifetime c ow) * 1000 \<Longrightarrow>
       \<exists>y \<ge> x. (m, y) \<in> set (zset_at ?now (slot_of ow) (ss_redis u))"
    using now by (auto simp: fine_def)
  have "zset_ok (lifetime c ow) (ss_clock s) (slot_of ow) (ss_redis s)" using inv by (simp add: slot_inv_def owner_ok_def)
  from young_slot_later [OF this, of ?now] f clock show ?thesis by (auto simp: slot_inv_def slot_rely_def)
qed

text \<open>
  \<open>timed P p n\<close>: every call of \<open>p\<close> satisfies \<open>P\<close> at a second that Redis has reported, from the second \<open>n\<close> on.
  A scan answers with keys of its pattern.
\<close>

fun possible :: "slot_call \<Rightarrow> slot_answer \<Rightarrow> bool" where
  "possible (K_Scan_Wait acc) (R_Keys ks _) = list_all (wait_pattern acc) ks"
| "possible _ _ = True"

fun known :: "slot_call \<Rightarrow> slot_answer \<Rightarrow> int \<Rightarrow> int" where
  "known K_Time (R_Int m) n = max n m"
| "known _ _ n = n"

primrec timed :: "(int \<Rightarrow> slot_call \<Rightarrow> bool) \<Rightarrow> 'r slot_prog \<Rightarrow> int \<Rightarrow> bool" where
  "timed P (Ret r) = (\<lambda>n. True)"
| "timed P (Call c k) = (\<lambda>n. P n c \<and> (\<forall>a. possible c a \<longrightarrow> timed P (k a) (known c a n)))"

lemma exec_possible: "slot_exec e c s = (a, u) \<Longrightarrow> possible c a"
  by (cases c) (auto simp: slot_exec_def slot_cmd_def Let_def list_all_def split: call_fate.splits prod.splits)

lemma exec_known: "slot_exec e c s = (a, u) \<Longrightarrow> n \<le> secs (ss_clock u) \<Longrightarrow> known c a n \<le> secs (ss_clock u)"
  by (cases "(c, a, n)" rule: known.cases)
    (auto simp: slot_exec_def slot_cmd_def Let_def split: call_fate.splits)

lemma known_ge: "n \<le> known c a n"
  by (cases "(c, a, n)" rule: known.cases) auto

lemma timed_mono: "timed P p n \<Longrightarrow> (\<And>n c. P n c \<Longrightarrow> Q n c) \<Longrightarrow> timed Q p n"
  by (induction p arbitrary: n) auto

lemma timed_bindI:
  "timed P p n \<Longrightarrow> (\<And>r m. n \<le> m \<Longrightarrow> timed P (f r) m) \<Longrightarrow> timed P (bind_prog p f) n"
proof (induction p arbitrary: n)
  case (Call c k)
  have "timed P (bind_prog (k a) f) (known c a n)" if "possible c a" for a
    using Call.prems that known_ge [of n c a] by (intro Call.IH) auto
  then show ?case using Call.prems by simp
qed simp

lemma timed_pipeline: "(\<And>c m. c \<in> set cs \<Longrightarrow> n \<le> m \<Longrightarrow> P m c) \<Longrightarrow> timed P (pipeline cs) n"
proof (induction cs arbitrary: n)
  case (Cons c cs)
  have "timed P (pipeline cs) (known c a n)" for a
    using Cons.prems known_ge [of n c a] by (intro Cons.IH) (auto intro: order_trans)
  then show ?case using Cons.prems by (auto intro!: timed_bindI)
qed simp

lemma timed_safe:
  assumes "timed (slot_call_ok c ow M K) p n" "n \<le> secs (ss_clock s)" and ttl: "0 < cc_slot_ttl c"
  shows "slot_rg.safe c ow M K (\<lambda>_ _. True) p s"
  using assms(1,2)
proof (induction p arbitrary: n s)
  case (Call call k)
  show ?case
  proof (rule slot_rg.safe_CallI)
    fix t e a u assume t: "slot_rely c ow K s t" "slot_inv c ow M t" "slot_exec e call t = (a, u)"
    have n: "n \<le> secs (ss_clock t)"
      using Call.prems(2) t(1) secs_mono [of "ss_clock s" "ss_clock t"] by (simp add: slot_rely_def)
    have ok: "slot_inv c ow M u \<and> slot_rely c ow K t u"
      using Call.prems(1) by (intro slot_exec_ok [OF _ n ttl t(2,3)]) simp
    then have "n \<le> secs (ss_clock u)" using n secs_mono [of "ss_clock t" "ss_clock u"] by (simp add: slot_rely_def)
    then have "slot_rg.safe c ow M K (\<lambda>_ _. True) (k a) u"
      using Call.prems(1) exec_possible [OF t(3)] exec_known [OF t(3)] by (intro Call.IH [of _ "known call a n"]) auto
    then show "slot_inv c ow M u \<and> slot_rely c ow K t u \<and> slot_rg.safe c ow M K (\<lambda>_ _. True) (k a) u" using ok by simp
  qed
qed simp

section \<open>The calls of a request\<close>

text \<open>Reads, purges of slots past their lifetime, and writes of the index, which any request may make.\<close>

definition housekeeping :: "concurrency_cache \<Rightarrow> int \<Rightarrow> slot_call \<Rightarrow> bool" where
  "housekeeping c n call = (case call of
     K_Count key live ttl \<Rightarrow> ttl = cc_slot_ttl c \<and> (\<exists>w. key = slot_of w \<and> live_of w = Some live)
   | K_Time \<Rightarrow> True | K_Zcard key \<Rightarrow> True | K_Get key \<Rightarrow> True | K_Index_Due key lo m \<Rightarrow> True | K_Index_All key \<Rightarrow> True
   | K_Exists key \<Rightarrow> True | K_Scan_Wait acc \<Rightarrow> True
   | K_Zremrange key lo \<Rightarrow> is_live key \<or>
       (\<exists>i. key = Account_Slot i \<or> key = User_Slot i \<or> key = Api_Key_Slot i) \<and> lo \<le> n - cc_slot_ttl c
   | K_Zrem key ms \<Rightarrow> key = Account_Active_Index \<or> key = User_Active_Index
   | K_Index_Add key ms \<Rightarrow> key = Account_Active_Index \<or> key = User_Active_Index
   | _ \<Rightarrow> False)"

definition release_call :: "release_func \<Rightarrow> slot_call \<Rightarrow> bool" where
  "release_call f call = (case f of
     Release_Nothing \<Rightarrow> False
   | Release_Account a rid \<Rightarrow> call = K_Zrem (Account_Slot a) [rid]
   | Release_User u rid \<Rightarrow> call = K_Zrem (User_Slot u) [rid]
   | Release_Api_Key k rid \<Rightarrow> call = K_Zrem (Api_Key_Slot k) [rid])"

definition main_call :: "concurrency_cache \<Rightarrow> slot_request \<Rightarrow> slot_call \<Rightarrow> bool" where
  "main_call c q call = (case q of
     Q_Acquire_Account a mx rid \<Rightarrow> call = K_Acquire (Account_Slot a) (Live_Account_Slot a) mx (cc_slot_ttl c) rid
   | Q_Acquire_User u mx rid \<Rightarrow> call = K_Acquire (User_Slot u) (Live_User_Slot u) mx (cc_slot_ttl c) rid
   | Q_Release f \<Rightarrow> release_call f call
   | Q_Track k rid \<Rightarrow> call = K_Track (Api_Key_Slot k) (cc_slot_ttl c) rid
   | Q_Ws_Acquire k mx lease \<Rightarrow> call = K_Ws_Acquire (Ws_Ingress_Lease k) mx lease
   | Q_Ws_Refresh k lease t now \<Rightarrow> call = K_Ws_Refresh (Ws_Ingress_Lease k) lease
   | Q_Ws_Release k lease \<Rightarrow> call = K_Zrem (Ws_Ingress_Lease k) [lease]
   | Q_Live_Acquire a amx u umx k lease repl \<Rightarrow> call = K_Live_Acquire a u k amx umx lease repl
   | Q_Live_Refresh a u k lease \<Rightarrow> call = K_Live_Refresh (live_keys a u k) lease
   | Q_Live_Release a u k lease \<Rightarrow> call = K_Live_Release (live_keys a u k) lease
   | Q_Wait u mx \<Rightarrow> call = K_Wait_Increment (Wait_Queue u) mx (cc_wait_ttl c)
   | Q_Wait_Account a mx \<Rightarrow> call = K_Wait_Increment (Account_Wait a) mx (cc_wait_ttl c)
   | Q_Unwait u \<Rightarrow> call = K_Wait_Decrement (Wait_Queue u)
   | Q_Unwait_Account a \<Rightarrow> call = K_Wait_Decrement (Account_Wait a)
   | Q_Cleanup_Account a \<Rightarrow> call = K_Cleanup (Account_Slot a) (cc_slot_ttl c)
   | Q_Startup pages prefix \<Rightarrow> prefix \<noteq> [] \<and> (
       (\<exists>i. call = K_Startup (Account_Slot i) prefix (cc_slot_ttl c) \<or> call = K_Startup (User_Slot i) prefix (cc_slot_ttl c)) \<or>
       (\<exists>keys. call = K_Del keys \<and> (\<forall>k \<in> set keys. \<exists>i. k = Wait_Queue i \<or> k = Account_Wait i)) \<or>
       call = K_Set_Marker Legacy_Sweep_Marker)
   | _ \<Rightarrow> False)"

definition made_by :: "concurrency_cache \<Rightarrow> slot_request \<Rightarrow> int \<Rightarrow> slot_call \<Rightarrow> bool" where
  "made_by c q n call \<longleftrightarrow> housekeeping c n call \<or> main_call c q call"

lemma timed_unix_seconds:
  "P n K_Time \<Longrightarrow> (\<And>m. timed P (f None) n) \<Longrightarrow> (\<And>m. timed P (f (Some m)) (max n m)) \<Longrightarrow> timed P (bind_prog redis_unix_seconds f) n"
  by (auto simp: redis_unix_seconds_def split: slot_answer.splits)

lemma timed_touch:
  assumes "\<And>m call. housekeeping c m call \<Longrightarrow> P m call" "key = Account_Active_Index \<or> key = User_Active_Index"
  shows "timed P (touch_active_index_at key i t) n"
  using assms(2) by (auto simp: touch_active_index_at_def housekeeping_def intro!: assms(1))

lemma timed_load:
  assumes hk: "\<And>m call. housekeeping c m call \<Longrightarrow> P m call"
    and "\<exists>i. slot = Account_Slot i \<or> slot = User_Slot i \<or> slot = Api_Key_Slot i" "t \<le> n"
  shows "timed P (read_active_load_for_key c slot wait t) n"
  unfolding read_active_load_for_key_def using assms(2,3)
  by (intro timed_bindI timed_pipeline) (auto simp: load_commands_def housekeeping_def intro!: hk)

lemma timed_refresh:
  assumes hk: "\<And>m call. housekeeping c m call \<Longrightarrow> P m call"
    and key: "\<exists>i. slot = Account_Slot i \<or> slot = User_Slot i" "key = Account_Active_Index \<or> key = User_Active_Index"
  shows "timed P (refresh_active_index c key i slot wait) n"
proof (cases "i \<le> 0")
  case False
  have "timed P (bind_prog (read_active_load_for_key c slot wait m) (\<lambda>load. case load of None \<Rightarrow> Ret () | Some (n, w) \<Rightarrow>
          if n = 0 \<and> w \<le> 0 then Call (K_Zrem key [itoa i]) (\<lambda>_. Ret ())
          else let ttl = active_index_ttl c n w
               in if ttl \<le> 0 then Ret () else touch_active_index_at key i (m + ttl))) (max n m)" for m
    using key by (intro timed_bindI timed_load [OF hk])
      (auto simp: Let_def housekeeping_def intro!: hk timed_touch [OF hk] split: option.splits)
  then show ?thesis using False unfolding refresh_active_index_def
    by (auto intro!: timed_unix_seconds hk simp: housekeeping_def)
qed (simp add: refresh_active_index_def)

lemma timed_batch:
  assumes hk: "\<And>m call. housekeeping c m call \<Longrightarrow> P m call"
    and key: "\<And>i. is_live (live i)" "\<And>i. \<exists>j. slot i = Account_Slot j \<or> slot i = User_Slot j \<or> slot i = Api_Key_Slot j"
  shows "timed P (get_concurrency_batch c slot live ids) n" "timed P (get_load_batch c slot live wait xs) n"
proof -
  have "timed P (bind_prog (pipeline (batch_commands c slot live m ids)) (\<lambda>as. Ret (g as))) (max n m)" for m g
    using key by (intro timed_bindI timed_pipeline) (auto simp: batch_commands_def housekeeping_def intro!: hk)
  then show "timed P (get_concurrency_batch c slot live ids) n"
    unfolding get_concurrency_batch_def by (auto intro!: timed_unix_seconds hk simp: housekeeping_def)
  have "timed P (bind_prog (pipeline (load_batch_commands c slot live wait m xs)) (\<lambda>as. Ret (g as))) (max n m)" for m g
    using key by (intro timed_bindI timed_pipeline) (auto simp: load_batch_commands_def housekeeping_def intro!: hk)
  then show "timed P (get_load_batch c slot live wait xs) n"
    unfolding get_load_batch_def by (auto intro!: timed_unix_seconds hk simp: housekeeping_def)
qed

lemma timed_write_index:
  assumes hk: "\<And>m call. housekeeping c m call \<Longrightarrow> P m call" and key: "key = Account_Active_Index \<or> key = User_Active_Index"
  shows "timed P (write_index key added gone) n"
  using key unfolding write_index_def remove_active_index_members_def
  by (auto simp: housekeeping_def intro!: timed_bindI hk)

lemma timed_chunks:
  assumes hk: "\<And>m call. housekeeping c m call \<Longrightarrow> P m call"
    and key: "\<And>i. \<exists>j. si_slot spec i = Account_Slot j \<or> si_slot spec i = User_Slot j" and "t \<le> n"
  shows "timed P (read_chunks c spec t xs) n"
  using assms(3)
proof (induction xs arbitrary: n rule: length_induct)
  case (1 xs)
  let ?chunk = "take activeIndexPipelineChunkSize xs"
  have p: "timed P (pipeline (concat (map (\<lambda>(i, m). load_commands (si_slot spec i) (si_wait spec i) (t - cc_slot_ttl c)) ?chunk))) n"
  proof (rule timed_pipeline)
    fix call m assume "call \<in> set (concat (map (\<lambda>(i, m). load_commands (si_slot spec i) (si_wait spec i) (t - cc_slot_ttl c)) ?chunk))"
    then obtain i where "call \<in> set (load_commands (si_slot spec i) (si_wait spec i) (t - cc_slot_ttl c))" by auto
    moreover assume "n \<le> m"
    ultimately show "P m call" using key [of i] "1.prems" by (intro hk) (auto simp: load_commands_def housekeeping_def)
  qed
  have "timed P (read_chunks c spec t (drop activeIndexPipelineChunkSize xs)) m" if "xs \<noteq> []" "n \<le> m" for m
    using 1 that by auto
  then show ?case
    by (subst read_chunks.simps) (auto simp: Let_def intro!: timed_bindI p)
qed

lemma timed_reconcile:
  assumes hk: "\<And>m call. housekeeping c m call \<Longrightarrow> P m call"
    and key: "\<And>i. \<exists>j. si_slot spec i = Account_Slot j \<or> si_slot spec i = User_Slot j"
      "si_index spec = Account_Active_Index \<or> si_index spec = User_Active_Index"
  shows "timed P (reconcile_expired_index_candidates c spec) n"
proof -
  have loads: "timed P (read_index_loads c spec ms t) (max n t)" for ms t
    unfolding read_index_loads_def by (intro timed_bindI timed_chunks [OF hk key(1)]) auto
  have "timed P (bind_prog (read_index_loads c spec ms t) (\<lambda>res. case res of None \<Rightarrow> Ret None
         | Some (loads, stale) \<Rightarrow> write_index (si_index spec)
             (map (\<lambda>(m, n, w). (m, t + active_index_ttl c n w)) (filter (\<lambda>l. \<not> idle l) loads))
             (stale @ map fst (filter idle loads)))) (max n t)" for ms t
    by (intro timed_bindI loads) (auto intro!: timed_write_index [OF hk key(2)] split: option.splits)
  then show ?thesis unfolding reconcile_expired_index_candidates_def
    by (auto intro!: timed_unix_seconds hk simp: housekeeping_def split: slot_answer.splits)
qed

lemma timed_stale_loop:
  assumes hk: "\<And>m call. housekeeping c m call \<Longrightarrow> P m call"
    and key: "si_index spec = Account_Active_Index \<or> si_index spec = User_Active_Index"
    and main: "\<And>i m. P m (K_Startup (si_slot spec i) prefix (cc_slot_ttl c))" "\<And>i m. P m (K_Del [si_wait spec i])"
  shows "timed P (stale_loop c spec prefix t ms added gone) n"
  by (induction ms arbitrary: added gone n)
    (auto intro!: timed_write_index [OF hk key] main split: option.splits slot_answer.splits)

lemma timed_sweep_pages:
  assumes "\<And>m. P m (K_Scan_Wait acc)" "\<And>m keys. list_all (wait_pattern acc) keys \<Longrightarrow> P m (K_Del keys)"
  shows "timed P (sweep_pages pages acc) n"
proof (induction pages arbitrary: n)
  case (Suc pages)
  then show ?case using assms by (auto intro!: timed_bindI split: slot_answer.splits)
qed simp

lemma housekeeping_made: "housekeeping c m call \<Longrightarrow> made_by c q m call"
  by (simp add: made_by_def)

lemma timed_made:
  "timed (made_by c q) (refresh_account_active_index c a) n" "timed (made_by c q) (refresh_user_active_index c a) n"
  "timed (made_by c q) redis_unix_seconds n" "timed (made_by c q) (cleanup_expired_account_slot_keys c) n"
  "timed (made_by c q) (get_account_concurrency_batch c ids) n" "timed (made_by c q) (get_api_key_concurrency_batch c ids) n"
  "timed (made_by c q) (get_accounts_load_batch c xs) n" "timed (made_by c q) (get_users_load_batch c xs) n"
  unfolding refresh_account_active_index_def refresh_user_active_index_def redis_unix_seconds_def
    cleanup_expired_account_slot_keys_def get_account_concurrency_batch_def get_api_key_concurrency_batch_def
    get_accounts_load_batch_def get_users_load_batch_def
  by (auto intro!: timed_refresh [OF housekeeping_made] timed_bindI timed_reconcile [OF housekeeping_made]
      timed_batch [OF housekeeping_made]
    simp: account_slot_index_def user_slot_index_def is_live_def made_by_def housekeeping_def)

lemma wait_pattern_key: "wait_pattern acc k \<Longrightarrow> \<exists>i. k = Wait_Queue i \<or> k = Account_Wait i"
  by (cases "(acc, k)" rule: wait_pattern.cases) auto

lemma timed_startup: "timed (made_by c (Q_Startup pages prefix)) (cleanup_stale_process_slots c pages prefix) n"
proof (cases "prefix = []")
  case False
  let ?P = "made_by c (Q_Startup pages prefix)"
  have hk: "housekeeping c m call \<Longrightarrow> ?P m call" for m call by (simp add: made_by_def)
  have del: "?P m (K_Del keys)" if "\<forall>k \<in> set keys. \<exists>i. k = Wait_Queue i \<or> k = Account_Wait i" for m keys
    using False that by (simp add: made_by_def main_call_def)
  have sweep: "timed ?P (sweep_pages pages acc) m" for acc m
    by (rule timed_sweep_pages) (auto simp: housekeeping_def list_all_def intro!: hk del dest: wait_pattern_key)
  have legacy: "timed ?P (sweep_legacy_wait_keys_once pages) m" for m
    unfolding sweep_legacy_wait_keys_once_def
    using False by (auto simp: housekeeping_def made_by_def main_call_def intro!: timed_bindI sweep split: slot_answer.splits bool.splits)
  have members: "timed ?P (all_index_members key) m" for key m
    by (auto simp: all_index_members_def housekeeping_def intro!: hk)
  have loop: "timed ?P (cleanup_stale_process_slots_for_index c account_slot_index ms prefix t) m"
    "timed ?P (cleanup_stale_process_slots_for_index c user_slot_index ms prefix t) m" for ms t m
    unfolding cleanup_stale_process_slots_for_index_def using False
    by (auto intro!: timed_stale_loop [OF hk] del simp: account_slot_index_def user_slot_index_def made_by_def main_call_def)
  show ?thesis unfolding cleanup_stale_process_slots_def using False
    by (auto intro!: timed_bindI legacy members loop timed_made split: option.splits)
qed (simp add: cleanup_stale_process_slots_def)

lemma made_touch:
  "key = Account_Active_Index \<or> key = User_Active_Index \<Longrightarrow> timed (made_by c q) (touch_active_index_at key i t) n"
  by (rule timed_touch [OF housekeeping_made])

text \<open>The calls of a request are its main call and housekeeping.\<close>

lemma timed_handler: "timed (made_by c q) (slot_handler c q) n"
proof -
  note defs = slot_handler_def answering_def
  show ?thesis
  proof (cases q)
    case (Q_Release f)
    then show ?thesis
      by (cases f) (auto simp: defs run_release_def release_account_slot_def release_user_slot_def release_api_key_slot_def
        intro!: timed_bindI timed_made; simp add: made_by_def main_call_def release_call_def)+
  next
    case (Q_Startup pages prefix)
    then show ?thesis by (auto simp: defs intro!: timed_bindI timed_startup)
  next
    case (Q_Count_Account a)
    then show ?thesis by (auto simp: defs get_account_concurrency_def get_count_def made_by_def housekeeping_def
      intro!: timed_bindI exI [of _ "Of_Account a"])
  next
    case (Q_Count_User u)
    then show ?thesis by (auto simp: defs get_user_concurrency_def get_count_def made_by_def housekeeping_def
      intro!: timed_bindI exI [of _ "Of_User u"])
  next
    case (Q_Waiting_Account a)
    then show ?thesis by (auto simp: defs get_account_waiting_count_def made_by_def housekeeping_def intro!: timed_bindI)
  qed (auto simp: defs service_acquire_account_slot_def service_acquire_user_slot_def acquire_account_slot_def
      acquire_user_slot_def acquire_slot_def service_get_api_key_concurrency_batch_def service_track_api_key_slot_def
      track_api_key_slot_def service_acquire_ws_lease_def acquire_openai_ws_ingress_lease_def ws_refresh_def
      refresh_openai_ws_ingress_lease_def release_openai_ws_ingress_lease_def acquire_live_lease_def refresh_live_lease_def
      release_live_lease_def service_increment_wait_count_def service_increment_account_wait_count_def increment_wait_count_def
      increment_account_wait_count_def increment_wait_def service_decrement_wait_count_def decrement_wait_count_def
      service_decrement_account_wait_count_def decrement_account_wait_count_def cleanup_expired_account_slots_def
      intro!: timed_bindI timed_made made_touch split: slot_answer.splits bool.splits;
    simp add: made_by_def main_call_def)+
qed

section \<open>Limits\<close>

text \<open>A request respects the limit \<open>M\<close> of an owner, and leaves the slots of \<open>K\<close> alone.\<close>

definition limit_ok :: "slot_owner \<Rightarrow> int \<Rightarrow> slot_request \<Rightarrow> bool" where
  "limit_ok ow M q = (case q of
     Q_Acquire_Account a mx m \<Rightarrow> ow = Of_Account a \<longrightarrow> mx \<le> M
   | Q_Acquire_User u mx m \<Rightarrow> ow = Of_User u \<longrightarrow> mx \<le> M
   | Q_Ws_Acquire k mx m \<Rightarrow> ow = Of_Ws k \<longrightarrow> mx \<le> M
   | Q_Live_Acquire a am u um k m repl \<Rightarrow>
       (ow = Of_Account a \<longrightarrow> 0 < am \<and> am + (if repl then 1 else 0) \<le> M) \<and>
       (ow = Of_User u \<longrightarrow> 0 < um \<and> um + (if repl then 1 else 0) \<le> M)
   | _ \<Rightarrow> True)"

definition leaves :: "slot_owner \<Rightarrow> string set \<Rightarrow> slot_request \<Rightarrow> bool" where
  "leaves ow K q = (case q of
     Q_Release (Release_Account a m) \<Rightarrow> ow = Of_Account a \<longrightarrow> m \<notin> K
   | Q_Release (Release_User u m) \<Rightarrow> ow = Of_User u \<longrightarrow> m \<notin> K
   | Q_Ws_Release k m \<Rightarrow> ow = Of_Ws k \<longrightarrow> m \<notin> K
   | Q_Startup pages prefix \<Rightarrow> (\<forall>m \<in> K. has_prefix prefix m)
   | _ \<Rightarrow> True)"

lemma slot_owner_key [simp]: "Account_Slot a = slot_of ow \<longleftrightarrow> ow = Of_Account a" "User_Slot a = slot_of ow \<longleftrightarrow> ow = Of_User a"
  by (cases ow; auto)+

lemma housekeeping_ok: "housekeeping c n call \<Longrightarrow> slot_call_ok c ow M K n call"
  by (cases call) (auto simp: housekeeping_def slot_call_ok_def dest: is_live_not_slot)

lemma main_call_ok:
  assumes "main_call c q call" "limit_ok ow M q" "leaves ow K q" "0 < cc_slot_ttl c" "0 < cc_wait_ttl c"
  shows "slot_call_ok c ow M K n call"
proof (cases q)
  case (Q_Acquire_Account a mx m)
  then show ?thesis using assms by (auto simp: main_call_def slot_call_ok_def limit_ok_def intro!: exI [of _ "Of_Account a"])
next
  case (Q_Acquire_User u mx m)
  then show ?thesis using assms by (auto simp: main_call_def slot_call_ok_def limit_ok_def intro!: exI [of _ "Of_User u"])
next
  case (Q_Release f)
  then show ?thesis using assms by (cases f) (auto simp: main_call_def release_call_def slot_call_ok_def leaves_def)
qed (use assms in \<open>auto simp: main_call_def slot_call_ok_def limit_ok_def leaves_def\<close>)

lemma new_cache_ttl:
  "0 < cc_slot_ttl (new_concurrency_cache m w)" "0 < cc_wait_ttl (new_concurrency_cache m w)"
  by (auto simp: new_concurrency_cache_def Let_def)

text \<open>A run: any requests, on any number of instances, in any order, from an empty store.\<close>

definition slot_run ::
  "concurrency_cache \<Rightarrow> int \<Rightarrow> (slot_request, slot_choice) event list \<Rightarrow> slot_result slot_prog list \<times> slot_state" where
  "slot_run c t0 evs = run_pool slot_exec (slot_handler c) evs ([], \<lparr>ss_redis = empty_redis, ss_clock = t0\<rparr>)"

definition holders :: "slot_owner \<Rightarrow> slot_state \<Rightarrow> (string \<times> int) set" where
  "holders ow s = set (zset_at (ss_clock s) (slot_of ow) (ss_redis s))"

lemma start_inv: "0 \<le> M \<Longrightarrow> slot_inv c ow M \<lparr>ss_redis = empty_redis, ss_clock = t0\<rparr>"
  by (auto simp: slot_inv_def owner_ok_def zset_ok_def zset_at_def key_gone_def empty_redis_def live_set_def split: option.splits)

lemma slot_run_safe:
  assumes c: "0 < cc_slot_ttl c" "0 < cc_wait_ttl c"
    and ok: "\<forall>q. Start q \<in> set (xs @ ys) \<longrightarrow> limit_ok ow M q \<and> leaves ow K q" and M: "0 \<le> M"
    and run: "slot_run c t0 xs = (ps, s)" "slot_run c t0 (xs @ ys) = (ps', s')"
  shows "slot_inv c ow M s'" "slot_rely c ow K s s'"
proof -
  have h: "slot_rg.safe c ow M K (\<lambda>_ _. True) (slot_handler c q) t" if "Start q \<in> set (xs @ ys)" for q t
  proof (rule timed_safe [OF _ order_refl c(1)])
    show "timed (slot_call_ok c ow M K) (slot_handler c q) (secs (ss_clock t))"
      using ok that by (intro timed_mono [OF timed_handler [of c q]])
        (auto simp: made_by_def intro: housekeeping_ok main_call_ok [OF _ _ _ c])
  qed
  have p: "slot_inv c ow M s \<and> slot_rely c ow K \<lparr>ss_redis = empty_redis, ss_clock = t0\<rparr> s \<and>
      (\<forall>p \<in> set ps. slot_rg.safe c ow M K (\<lambda>_ _. True) p s)"
    using run(1) start_inv [OF M] h
    by (intro slot_rg.run_pool_safe_starts [where evs = xs and ps = "[]" and handler = "slot_handler c"]) (auto simp: slot_run_def)
  have "run_pool slot_exec (slot_handler c) ys (ps, s) = (ps', s')"
    using run by (simp add: slot_run_def run_pool_def)
  then have "slot_inv c ow M s' \<and> slot_rely c ow K s s' \<and> (\<forall>p \<in> set ps'. slot_rg.safe c ow M K (\<lambda>_ _. True) p s')"
    using p h by (intro slot_rg.run_pool_safe_starts [where evs = ys and ps = ps and handler = "slot_handler c"]) auto
  then show "slot_inv c ow M s'" "slot_rely c ow K s s'" by auto
qed

lemma leaves_none [simp]: "leaves ow {} q"
  by (simp add: leaves_def split: slot_request.splits release_func.splits)

lemma slots_bound:
  assumes "slot_run (new_concurrency_cache m w) t0 evs = (ps, s)"
    and "\<forall>q. Start q \<in> set evs \<longrightarrow> limit_ok ow M q" "0 \<le> M"
  shows "slots_in_use ow s \<le> M"
proof -
  obtain qs u where u: "slot_run (new_concurrency_cache m w) t0 [] = (qs, u)" by fastforce
  have "slot_inv (new_concurrency_cache m w) ow M s"
    by (rule slot_run_safe(1) [OF new_cache_ttl _ assms(3) u, where ys = evs and K = "{}"]) (use assms in auto)
  then show ?thesis by (simp add: slot_inv_def owner_ok_def slots_in_use_def)
qed

text \<open>
  For every schedule of requests to the concurrency service and its background jobs, on any number of
  instances, with calls of Redis that fail before or after they take effect: when every request for a slot of
  an account, of a user or for a WebSocket lease of an API key carries a limit of at most \<open>M\<close>, and a live
  session a positive limit that is at most \<open>M\<close> with its allowance, the slots and live sessions in use never
  exceed \<open>M\<close>.
\<close>

theorem slots_within_limit:
  assumes "slot_run (new_concurrency_cache m w) t0 evs = (ps, s)"
    and "\<forall>q. Start q \<in> set evs \<longrightarrow> limit_ok ow M q" "0 \<le> M"
  shows "slots_in_use ow s \<le> M"
  by (rule slots_bound [OF assms])

text \<open>
  Claim C12. Requests that hold a slot at the same time are at most \<open>M\<close>: let \<open>R\<close> be requests that each got a
  slot of an owner at some moment of a run, that are not released in the run, and whose slots have not
  reached their lifetime at its end. When all requests of the run respect the limit \<open>M\<close>, and no process starts
  in it with a prefix that is not the one of \<open>R\<close>, there are at most \<open>M\<close> such requests.
\<close>

theorem slots_exclusive:
  assumes run: "slot_run (new_concurrency_cache m w) t0 evs = (ps, s)"
    and ok: "\<forall>q. Start q \<in> set evs \<longrightarrow> limit_ok ow M q \<and> leaves ow R q" and M: "0 \<le> M"
    and held: "\<forall>rid \<in> R. \<exists>n t. (rid, t) \<in> holders ow (snd (slot_run (new_concurrency_cache m w) t0 (take n evs))) \<and>
      ss_clock s < (t + lifetime (new_concurrency_cache m w) ow) * 1000"
  shows "finite R \<and> int (card R) \<le> M"
proof -
  let ?c = "new_concurrency_cache m w" and ?z = "zset_at (ss_clock s) (slot_of ow) (ss_redis s)"
  have "rid \<in> fst ` set ?z" if rid: "rid \<in> R" for rid
  proof -
    obtain n t where n: "(rid, t) \<in> holders ow (snd (slot_run ?c t0 (take n evs)))" "ss_clock s < (t + lifetime ?c ow) * 1000"
      using held rid by blast
    obtain qs u where u: "slot_run ?c t0 (take n evs) = (qs, u)" by fastforce
    have "slot_rely ?c ow R u s"
      by (rule slot_run_safe(2) [OF new_cache_ttl _ M u, where ys = "drop n evs"]) (use run ok in auto)
    then show ?thesis using n u rid by (force simp: slot_rely_def holders_def)
  qed
  then have sub: "R \<subseteq> fst ` set ?z" by blast
  then have "card R \<le> length ?z" using card_mono [OF _ sub] card_length [of "map fst ?z"] by simp
  moreover have "slots_in_use ow s \<le> M"
    by (rule slots_bound [OF run]) (use ok M in auto)
  ultimately show ?thesis using finite_subset [OF sub] by (simp add: slots_in_use_def)
qed

end
