(* ===== verification/Concurrency_Waits.thy ===== *)
theory Concurrency_Waits
  imports Concurrency_Safety
begin

text \<open>
  The counters of waiting requests stay between zero and their limit, request ids are unique within a process,
  a lost lease is not revived, and the cache of loads is bounded and never answers with a stale entry.
\<close>

section \<open>Calls that leave a counter alone\<close>

definition same_count :: "'k \<Rightarrow> 'k redis \<Rightarrow> 'k redis \<Rightarrow> bool" where
  "same_count k r r' \<longleftrightarrow> r_counts r' k = r_counts r k \<and> r_deadline r' k = r_deadline r k"

lemma same_count_refl [simp]: "same_count k r r"
  by (simp add: same_count_def)

lemma same_count_trans: "same_count k r r1 \<Longrightarrow> same_count k r1 r2 \<Longrightarrow> same_count k r r2"
  by (simp add: same_count_def)

lemma same_count_ops:
  assumes "j \<noteq> k"
  shows "same_count k r (put_zset now j z r)" "same_count k r (put_count now j n r)" "same_count k r (expire now j ms r)"
    "same_count k r (del j r)"
  using assms by (auto simp: same_count_def put_zset_def put_count_def expire_def del_def)

lemma same_count_zset:
  assumes "j \<noteq> k"
  shows "same_count k r (zremrangebyscore now j lo r)" "same_count k r (zrem now j m r)" "same_count k r (zadd now j sc m r)"
    "same_count k r (take_slot now j ttl m r)"
  using assms same_count_trans [OF same_count_ops(1) same_count_ops(3)]
  by (auto simp: zremrangebyscore_def zrem_def zadd_def take_slot_def intro!: same_count_ops)

lemma same_count_fold: "(\<And>x r. x \<in> set xs \<Longrightarrow> same_count k r (f x r)) \<Longrightarrow> same_count k r (fold f xs r)"
proof (induction xs arbitrary: r)
  case (Cons x xs)
  then show ?case using same_count_trans [of k r "f x r"] by simp
qed simp

lemma same_count_refresh:
  "k \<notin> set ks \<Longrightarrow> same_count k r (snd (refresh_check now ttl m ks r))"
proof (induction ks arbitrary: r)
  case (Cons x ks)
  let ?r1 = "zremrangebyscore now x (secs now - ttl) r"
  have p: "same_count k r ?r1" using Cons.prems by (intro same_count_zset) auto
  have "same_count k ?r1 (snd (refresh_check now ttl m ks ?r1))" using Cons by auto
  then show ?case using p same_count_trans by (auto simp: Let_def)
qed simp

section \<open>Counters of waiting requests\<close>

definition is_wait :: "slot_key \<Rightarrow> bool" where
  "is_wait k = (case k of Wait_Queue _ \<Rightarrow> True | Account_Wait _ \<Rightarrow> True | _ \<Rightarrow> False)"

definition wait_limit_ok :: "slot_key \<Rightarrow> int \<Rightarrow> slot_request \<Rightarrow> bool" where
  "wait_limit_ok k W q = (case q of
     Q_Wait u mx \<Rightarrow> k = Wait_Queue u \<longrightarrow> mx \<le> W
   | Q_Wait_Account a mx \<Rightarrow> k = Account_Wait a \<longrightarrow> mx \<le> W
   | _ \<Rightarrow> True)"

text \<open>The calls of requests that respect the limit of a counter, seen from the counter.\<close>

definition wait_call_ok :: "slot_key \<Rightarrow> int \<Rightarrow> slot_call \<Rightarrow> bool" where
  "wait_call_ok k W call = (case call of
     K_Acquire key live mx ttl m \<Rightarrow> key \<noteq> k \<and> live \<noteq> k
   | K_Count key live ttl \<Rightarrow> key \<noteq> k \<and> live \<noteq> k
   | K_Live_Refresh keys lease \<Rightarrow> k \<notin> set keys
   | K_Live_Release keys lease \<Rightarrow> k \<notin> set keys
   | K_Track key ttl m \<Rightarrow> key \<noteq> k
   | K_Ws_Acquire key mx lease \<Rightarrow> key \<noteq> k
   | K_Ws_Refresh key lease \<Rightarrow> key \<noteq> k
   | K_Wait_Increment key mx ttl \<Rightarrow> 0 < ttl \<and> (key = k \<longrightarrow> mx \<le> W)
   | K_Cleanup key ttl \<Rightarrow> key \<noteq> k
   | K_Startup key prefix ttl \<Rightarrow> key \<noteq> k
   | K_Zrem key ms \<Rightarrow> key \<noteq> k
   | K_Zremrange key lo \<Rightarrow> key \<noteq> k
   | K_Index_Add key ms \<Rightarrow> key \<noteq> k
   | K_Set_Marker key \<Rightarrow> key \<noteq> k
   | _ \<Rightarrow> True)"

definition count_ok :: "int \<Rightarrow> slot_key \<Rightarrow> int \<Rightarrow> slots \<Rightarrow> bool" where
  "count_ok now k W r = (case count_at now k r of None \<Rightarrow> True | Some n \<Rightarrow> 0 \<le> n \<and> n \<le> W)"

lemma count_ok_same: "same_count k r r' \<Longrightarrow> count_ok now k W r' = count_ok now k W r"
  by (simp add: count_ok_def count_at_def key_gone_def same_count_def)

lemma count_ok_later: "count_ok s k W r \<Longrightarrow> s \<le> t \<Longrightarrow> count_ok t k W r"
  by (auto simp: count_ok_def count_at_def key_gone_def split: option.splits if_splits)

lemma count_ok_put: "count_ok now k W (put_count now k n r) = (case n of None \<Rightarrow> True | Some i \<Rightarrow> 0 \<le> i \<and> i \<le> W)"
  by (simp add: count_ok_def)

lemma count_ok_expire: "0 < ms \<Longrightarrow> count_ok now k W (expire now j ms r) = count_ok now k W r"
  by (simp add: count_ok_def)

lemma count_ok_del: "count_ok now k W r \<Longrightarrow> count_ok now k W (del j r)"
  by (cases "j = k") (auto simp: count_ok_def count_at_def key_gone_def del_def split: option.splits)

lemma same_count_cmd:
  assumes "wait_call_ok k W call" "is_wait k"
    and "\<not> (\<exists>mx ttl. call = K_Wait_Increment k mx ttl)" "call \<noteq> K_Wait_Decrement k" "\<not> (\<exists>keys. call = K_Del keys)"
  shows "same_count k r (snd (slot_cmd now scan lp call r))"
proof -
  note z = same_count_zset [of _ k] same_count_ops [of _ k]
  note t = same_count_trans [OF z(1) z(1)] same_count_trans [OF same_count_trans [OF z(1) z(1)] z(4)] same_count_trans [OF z(1) z(4)]
  have k: "Live_Account_Slot i \<noteq> k" "Live_User_Slot i \<noteq> k" "Live_Api_Key_Slot i \<noteq> k" for i
    using assms(2) by (auto simp: is_wait_def)
  show ?thesis
  proof (cases call)
    case (K_Live_Refresh keys lease)
    then have ks: "k \<notin> set keys" using assms(1) by (simp add: wait_call_ok_def)
    obtain b r1 where e: "refresh_check now 60 lease keys r = (b, r1)" by fastforce
    have "same_count k r r1" using same_count_refresh [OF ks, of r now 60 lease] e by simp
    moreover have "same_count k r1 (fold (\<lambda>k. take_slot now k 60 lease) keys r1)"
      using ks by (intro same_count_fold z(4)) auto
    ultimately show ?thesis using K_Live_Refresh e same_count_trans
      by (cases b) (auto simp: slot_cmd_def refresh_live_lease_script_def)
  next
    case (K_Live_Release keys lease)
    then have "k \<notin> set keys" using assms(1) by (simp add: wait_call_ok_def)
    then have "same_count k r (fold (\<lambda>k. zrem now k lease) keys r)" by (intro same_count_fold z(2)) auto
    then show ?thesis using K_Live_Release by (simp add: slot_cmd_def)
  next
    case (K_Live_Acquire a u key am um lease repl)
    have p: "same_count k r (zremrangebyscore now (Live_Api_Key_Slot key) (secs now - 60) (zremrangebyscore now (Live_User_Slot u) (secs now - 60)
                 (zremrangebyscore now (Live_Account_Slot a) (secs now - 60) r)))" (is "same_count k r ?r1")
      using k by (intro same_count_trans [OF same_count_trans [OF z(1) z(1)] z(1)])
    have "same_count k ?r1 (take_slot now (Live_Api_Key_Slot key) 60 lease (take_slot now (Live_User_Slot u) 60 lease
                (take_slot now (Live_Account_Slot a) 60 lease ?r1)))"
      using k by (intro same_count_trans [OF same_count_trans [OF z(4) z(4)] z(4)])
    from p same_count_trans [OF p this] show ?thesis
      using K_Live_Acquire by (auto simp: slot_cmd_def acquire_live_lease_script_def Let_def)
  next
    case (K_Wait_Increment key mx ttl)
    then have "key \<noteq> k" using assms(3) by auto
    then show ?thesis using K_Wait_Increment same_count_trans [OF z(6) z(7)]
      by (auto simp: slot_cmd_def increment_wait_script_def Let_def)
  next
    case (K_Wait_Decrement key)
    then have "key \<noteq> k" using assms(4) by auto
    then show ?thesis using K_Wait_Decrement z(6) by (auto simp: slot_cmd_def decrement_wait_script_def split: option.splits)
  next
    case (K_Cleanup key ttl)
    then show ?thesis using assms(1) same_count_trans [OF z(1) z(8)] same_count_trans [OF z(1) z(7)]
      by (auto simp: wait_call_ok_def slot_cmd_def cleanup_expired_slots_script_def Let_def)
  next
    case (K_Startup key prefix ttl)
    then show ?thesis using assms(1) same_count_trans [OF z(5) z(8)] same_count_trans [OF z(5) z(7)]
      by (auto simp: wait_call_ok_def slot_cmd_def startup_cleanup_slot_script_def Let_def)
  qed (use assms z t in \<open>auto simp: wait_call_ok_def slot_cmd_def acquire_script_def get_count_script_def track_slot_script_def
      acquire_ws_lease_script_def refresh_ws_lease_script_def Let_def intro!: same_count_fold\<close>)
qed

lemma count_cmd_ok:
  assumes "wait_call_ok k W call" "is_wait k" "count_ok now k W r" "0 \<le> W"
  shows "count_ok now k W (snd (slot_cmd now scan lp call r))"
proof -
  consider mx ttl where "call = K_Wait_Increment k mx ttl" | "call = K_Wait_Decrement k" | keys where "call = K_Del keys"
    | "\<not> (\<exists>mx ttl. call = K_Wait_Increment k mx ttl)" "call \<noteq> K_Wait_Decrement k" "\<not> (\<exists>keys. call = K_Del keys)"
    by blast
  then show ?thesis
  proof cases
    case (1 mx ttl)
    then show ?thesis using assms(1,3,4)
      by (auto simp: wait_call_ok_def slot_cmd_def increment_wait_script_def Let_def count_ok_expire count_ok_put)
        (auto simp: count_ok_def split: option.splits)
  next
    case 2
    then show ?thesis using assms(3)
      by (auto simp: slot_cmd_def decrement_wait_script_def count_ok_put split: option.splits)
        (auto simp: count_ok_def)
  next
    case (3 keys)
    have "count_ok now k W (fold del keys r)" using assms(3)
      by (induction keys arbitrary: r) (auto intro: count_ok_del)
    then show ?thesis using 3 by (simp add: slot_cmd_def)
  next
    case 4
    from count_ok_same [OF same_count_cmd [OF assms(1,2) this]] show ?thesis using assms(3) by simp
  qed
qed

definition wait_inv :: "slot_key \<Rightarrow> int \<Rightarrow> slot_state \<Rightarrow> bool" where
  "wait_inv k W s \<longleftrightarrow> count_ok (ss_clock s) k W (ss_redis s)"

interpretation wait_rg: rely_guarantee slot_exec "wait_inv k W" "\<lambda>_ _. True" for k W
  by unfold_locales auto

lemma wait_exec_ok:
  assumes "wait_call_ok k W call" "is_wait k" "0 \<le> W" "wait_inv k W s" "slot_exec e call s = (a, u)"
  shows "wait_inv k W u"
proof -
  let ?now = "max (ss_clock s) (sc_time e)"
  have now: "count_ok ?now k W (ss_redis s)" using assms(4) count_ok_later by (simp add: wait_inv_def)
  from now count_cmd_ok [OF assms(1,2) now assms(3), of "sc_scan e" "sc_last e"] show ?thesis
    using assms(5) by (auto simp: slot_exec_def wait_inv_def Let_def split: call_fate.splits prod.splits)
qed

lemma timed_wait_safe:
  "timed (\<lambda>_. wait_call_ok k W) p n \<Longrightarrow> is_wait k \<Longrightarrow> 0 \<le> W \<Longrightarrow> wait_rg.safe k W (\<lambda>_ _. True) p s"
proof (induction p arbitrary: n s)
  case (Call call f)
  show ?case
  proof (rule wait_rg.safe_CallI)
    fix t e a u assume t: "wait_inv k W t" "slot_exec e call t = (a, u)"
    have "wait_inv k W u" using Call.prems by (intro wait_exec_ok [OF _ _ _ t]) auto
    moreover have "wait_rg.safe k W (\<lambda>_ _. True) (f a) u"
      using Call.prems exec_possible [OF t(2)] by (intro Call.IH [of _ "known call a n"]) auto
    ultimately show "wait_inv k W u \<and> True \<and> wait_rg.safe k W (\<lambda>_ _. True) (f a) u" by simp
  qed
qed simp

lemma slot_not_wait [simp]: "\<not> is_wait (slot_of w)"
  by (cases w) (simp_all add: is_wait_def)

lemma live_not_wait: "is_live k \<Longrightarrow> \<not> is_wait k"
  by (cases k) (simp_all add: is_wait_def is_live_def)

lemma live_of_not_wait: "live_of w = Some k \<Longrightarrow> \<not> is_wait k"
  by (cases w) (auto simp: is_wait_def)

lemma made_wait_ok:
  assumes "made_by c q n call" "wait_limit_ok k W q" "is_wait k" "0 < cc_wait_ttl c"
  shows "wait_call_ok k W call"
proof (cases "housekeeping c n call")
  case True
  then show ?thesis using assms(3)
    by (cases call) (auto simp: housekeeping_def wait_call_ok_def dest: live_not_wait live_of_not_wait, auto simp: is_wait_def)
next
  case False
  then have "main_call c q call" using assms(1) by (simp add: made_by_def)
  then show ?thesis using assms(2-4)
    by (cases q) (auto simp: main_call_def release_call_def wait_call_ok_def wait_limit_ok_def is_wait_def live_keys_def
      split: release_func.splits)
qed

text \<open>
  For every schedule of requests on any number of instances, with calls of Redis that fail before or
  after they take effect: when no request waits with a limit above \<open>W\<close>, the number of requests that wait for
  a user or an account stays between zero and \<open>W\<close>.
\<close>

theorem wait_count_bounds:
  assumes "slot_run (new_concurrency_cache m w) t0 evs = (ps, s)" "is_wait k" "0 \<le> W"
    and "\<forall>q. Start q \<in> set evs \<longrightarrow> wait_limit_ok k W q" "count_at (ss_clock s) k (ss_redis s) = Some n"
  shows "0 \<le> n \<and> n \<le> W"
proof -
  let ?c = "new_concurrency_cache m w"
  have h: "wait_rg.safe k W (\<lambda>_ _. True) (slot_handler ?c q) t" if "Start q \<in> set evs" for q t
  proof (rule timed_wait_safe [OF _ assms(2,3)])
    have "made_by ?c q n call \<Longrightarrow> wait_call_ok k W call" for n call
      using assms(4) that by (intro made_wait_ok [OF _ _ assms(2) new_cache_ttl(2)]) auto
    then show "timed (\<lambda>_. wait_call_ok k W) (slot_handler ?c q) 0" by (rule timed_mono [OF timed_handler])
  qed
  have "wait_inv k W \<lparr>ss_redis = empty_redis, ss_clock = t0\<rparr>"
    by (simp add: wait_inv_def count_ok_def count_at_def key_gone_def empty_redis_def)
  then have "wait_inv k W s \<and> True \<and> (\<forall>p \<in> set ps. wait_rg.safe k W (\<lambda>_ _. True) p s)"
  proof (rule wait_rg.run_pool_safe_starts)
    show "run_pool slot_exec (slot_handler ?c) evs ([], \<lparr>ss_redis = empty_redis, ss_clock = t0\<rparr>) = (ps, s)"
      using assms(1) by (simp add: slot_run_def)
  qed (simp_all add: h)
  then show ?thesis using assms(5) by (simp add: wait_inv_def count_ok_def)
qed

section \<open>The answer of a request for a slot\<close>

definition young :: "int \<Rightarrow> int \<Rightarrow> slot_key \<Rightarrow> slots \<Rightarrow> zset" where
  "young now ttl k r = filter (\<lambda>p. secs now - ttl < snd p) (zset_at now k r)"

lemma acquire_script_spec_parts:
  assumes "key \<noteq> live" "0 < ttl" "acquire_script now key live mx ttl rid r = (granted, r')"
  shows "granted \<longleftrightarrow> rid \<in> fst ` set (young now ttl key r) \<or>
      int (length (young now ttl key r)) + int (length (young now 60 live r)) < mx"
    and "set (zset_at now key r') = (if granted then {(rid, secs now)} \<union> {p \<in> set (young now ttl key r). fst p \<noteq> rid}
      else set (young now ttl key r))"
    and "zset_at now live r' = young now 60 live r"
proof -
  let ?r1 = "zremrangebyscore now live (secs now - 60) (zremrangebyscore now key (secs now - ttl) r)"
  have z: "zset_at now key ?r1 = young now ttl key r" "zset_at now live ?r1 = young now 60 live r"
    using assms(1) by (auto simp: young_def)
  have g: "granted \<longleftrightarrow> rid \<in> fst ` set (zset_at now key ?r1) \<or> zcard now key ?r1 + zcard now live ?r1 < mx"
    "r' = (if granted then take_slot now key ttl rid ?r1 else ?r1)"
    using assms(3) unfolding acquire_script_def Let_def zscore_member by (auto split: if_splits)
  show "granted \<longleftrightarrow> rid \<in> fst ` set (young now ttl key r) \<or>
      int (length (young now ttl key r)) + int (length (young now 60 live r)) < mx"
    using g(1) unfolding zcard_def z .
  show "set (zset_at now key r') = (if granted then {(rid, secs now)} \<union> {p \<in> set (young now ttl key r). fst p \<noteq> rid}
      else set (young now ttl key r))"
    using assms(1,2) by (auto simp: g(2) zset_at_take young_def)
  show "zset_at now live r' = young now 60 live r"
    using assms(1,2) by (auto simp: g(2) zset_at_take young_def)
qed

text \<open>
  A request for a slot is granted exactly when it already holds a slot that is younger than its
  lifetime, or when the young slots and live sessions together are fewer than the limit. When it is granted its
  slot is stamped with the current second and the slots of others are the young ones; when it is refused the young
  slots stay as they are.
\<close>

theorem acquire_script_spec:
  assumes "key \<noteq> live" "0 < ttl" "acquire_script now key live mx ttl rid r = (granted, r')"
  shows "(granted \<longleftrightarrow> rid \<in> fst ` set (young now ttl key r) \<or>
      int (length (young now ttl key r)) + int (length (young now 60 live r)) < mx) \<and>
    set (zset_at now key r') = (if granted then {(rid, secs now)} \<union> {p \<in> set (young now ttl key r). fst p \<noteq> rid}
      else set (young now ttl key r)) \<and> zset_at now live r' = young now 60 live r"
  using acquire_script_spec_parts [OF assms] by blast

section \<open>Leases of WebSocket connections\<close>

lemma ws_refresh_spec_parts:
  assumes "0 < k" "lease \<noteq> []" "run_prog slot_exec [e] (ws_refresh k lease last_confirmed now) s = (Ret (t, lost), s')"
    and "clock = max (ss_clock s) (sc_time e)"
  shows "sc_fate e = Works \<Longrightarrow> lost \<longleftrightarrow> lease \<notin> fst ` set (young clock 60 (Ws_Ingress_Lease k) (ss_redis s))"
    and "sc_fate e = Works \<Longrightarrow> lease \<in> fst ` holders (Of_Ws k) s' \<longleftrightarrow> \<not> lost"
    and "sc_fate e \<noteq> Works \<Longrightarrow> lost \<longleftrightarrow> openAIWSIngressLeaseTTL \<le> time_sub now last_confirmed"
    and "lost \<Longrightarrow> t = last_confirmed"
proof -
  let ?k = "Ws_Ingress_Lease k" and ?r1 = "zremrangebyscore clock (Ws_Ingress_Lease k) (secs clock - 60) (ss_redis s)"
  have z: "zset_at clock ?k ?r1 = young clock 60 ?k (ss_redis s)" by (simp add: young_def)
  have m: "zscore clock ?k lease ?r1 = None \<longleftrightarrow> lease \<notin> fst ` set (young clock 60 ?k (ss_redis s))"
    using zscore_member [of clock ?k lease ?r1] unfolding z by blast
  have run: "run_prog slot_exec [e] (ws_refresh k lease last_confirmed now) s = (Ret (t, lost), s')" by (rule assms(3))
  have call: "(Ret (t, lost), s') = (case slot_exec e (K_Ws_Refresh ?k lease) s of (a, u) \<Rightarrow>
      (Ret (case bool_of a of Some True \<Rightarrow> (now, False) | Some False \<Rightarrow> (last_confirmed, True)
         | None \<Rightarrow> (last_confirmed, openAIWSIngressLeaseTTL \<le> time_sub now last_confirmed)), u))"
    using run assms(1,2) by (auto simp: ws_refresh_def refresh_openai_ws_ingress_lease_def split: prod.splits)
  show "sc_fate e \<noteq> Works \<Longrightarrow> lost \<longleftrightarrow> openAIWSIngressLeaseTTL \<le> time_sub now last_confirmed"
    using call by (cases "sc_fate e") (auto simp: slot_exec_def Let_def bool_of_def)
  show "lost \<Longrightarrow> t = last_confirmed" using call by (auto split: prod.splits option.splits bool.splits)
  assume w: "sc_fate e = Works"
  have x: "slot_exec e (K_Ws_Refresh ?k lease) s =
    (if zscore clock ?k lease ?r1 = None then (R_Bool False, \<lparr>ss_redis = ?r1, ss_clock = clock\<rparr>)
     else (R_Bool True, \<lparr>ss_redis = take_slot clock ?k 60 lease ?r1, ss_clock = clock\<rparr>))"
    using w assms(4) by (simp add: slot_exec_def Let_def slot_cmd_def refresh_ws_lease_script_def)
  show "lost \<longleftrightarrow> lease \<notin> fst ` set (young clock 60 ?k (ss_redis s))"
    using call x m by (auto simp: bool_of_def split: if_splits)
  show "lease \<in> fst ` holders (Of_Ws k) s' \<longleftrightarrow> \<not> lost"
    using call x m by (auto simp: bool_of_def holders_def zset_at_take young_def split: if_splits)
qed

text \<open>
  A tick of the refresh loop of a WebSocket connection that reaches Redis reports the lease as lost
  exactly when it is not among the leases younger than 60 seconds, and then does not take it again; otherwise the
  lease is renewed. A tick that fails to reach Redis reports the lease as lost exactly when the last confirmation
  is 60 seconds old.
\<close>

theorem ws_refresh_spec:
  assumes "0 < k" "lease \<noteq> []" "run_prog slot_exec [e] (ws_refresh k lease last_confirmed now) s = (Ret (t, lost), s')"
    and "clock = max (ss_clock s) (sc_time e)"
  shows "(if sc_fate e = Works
      then (lost \<longleftrightarrow> lease \<notin> fst ` set (young clock 60 (Ws_Ingress_Lease k) (ss_redis s))) \<and>
           (lease \<in> fst ` holders (Of_Ws k) s' \<longleftrightarrow> \<not> lost)
      else lost \<longleftrightarrow> openAIWSIngressLeaseTTL \<le> time_sub now last_confirmed) \<and> (lost \<longrightarrow> t = last_confirmed)"
  using ws_refresh_spec_parts [OF assms] by simp

section \<open>Request ids\<close>

definition val36 :: "char \<Rightarrow> nat" where
  "val36 ch = (if of_char ch < (58 :: nat) then of_char ch - 48 else of_char ch - 87)"

lemma val36_digit: "n < 36 \<Longrightarrow> val36 (digit36 n) = n"
  by (simp add: val36_def digit36_def)

lemma base36_value: "foldl (\<lambda>a ch. a * 36 + val36 ch) 0 (base36 n) = n"
proof (induction n rule: base36.induct)
  case (1 n)
  then show ?case by (subst base36.simps) (simp add: val36_digit)
qed

lemma request_ids_unique_parts:
  "fst (generate_request_id prefix i) = fst (generate_request_id prefix j) \<longleftrightarrow> i = j"
  "has_prefix prefix (fst (generate_request_id prefix i))"
proof -
  have "i = j" if "base36 (unat (i + 1)) = base36 (unat (j + 1))"
  proof -
    have "unat (i + 1) = unat (j + 1)" using that base36_value by metis
    then have "i + 1 = j + 1" by (simp only: unsigned_word_eqI)
    then show ?thesis by simp
  qed
  then show "fst (generate_request_id prefix i) = fst (generate_request_id prefix j) \<longleftrightarrow> i = j"
    by (auto simp: generate_request_id_def Let_def)
  show "has_prefix prefix (fst (generate_request_id prefix i))"
    by (simp add: generate_request_id_def Let_def has_prefix_def)
qed

text \<open>
  The ids that one process gives to its requests are different until the counter has wrapped around,
  after \<open>2 ^ 64\<close> of them, and each begins with the prefix of the process.
\<close>

theorem request_ids_unique:
  "(fst (generate_request_id prefix i) = fst (generate_request_id prefix j) \<longleftrightarrow> i = j) \<and>
    has_prefix prefix (fst (generate_request_id prefix i))"
  using request_ids_unique_parts by blast

section \<open>The cache of loads\<close>

lemma length_delete:
  assumes "distinct (map fst xs)" "k \<in> fst ` set xs"
  shows "length (AList.delete k xs) = length xs - 1"
proof -
  have "AList.delete k xs = filter (\<lambda>p. fst p \<noteq> k) xs" by (auto simp: AList.delete_eq intro!: filter_cong)
  then show ?thesis using length_replace [OF assms, of undefined] by simp
qed

lemma evict_length:
  "distinct (map fst cache) \<Longrightarrow> n \<le> length cache \<Longrightarrow>
    length (evict n pick cache) = length cache - n \<and> distinct (map fst (evict n pick cache))"
proof (induction n arbitrary: cache)
  case (Suc n)
  let ?k = "fst (cache ! (pick n mod length cache))" and ?c = "AList.delete (fst (cache ! (pick n mod length cache))) cache"
  have "pick n mod length cache < length cache" using Suc.prems(2) by (intro mod_less_divisor) linarith
  then have "?k \<in> fst ` set cache" by simp
  then have l: "length ?c = length cache - 1" by (rule length_delete [OF Suc.prems(1)])
  have "distinct (map fst ?c)" using Suc.prems(1) by (rule distinct_delete)
  from Suc.IH [OF this] l Suc.prems(2) show ?case by simp
qed simp

lemma length_update: "length (AList.update k v xs) \<le> Suc (length xs)"
  by (induction xs) auto

lemma load_cache_ok_parts:
  assumes "distinct (map fst cache)" "length cache \<le> maxAccountLoadBatchCacheEntries"
    and "store_cached_batch pick now key v expires cache = cache'"
  shows "distinct (map fst cache') \<and> length cache' \<le> maxAccountLoadBatchCacheEntries"
    and "get_cached_batch key t cache' = (if expires \<le> t then (None, AList.delete key cache') else (Some v, cache'))"
    and "get_cached_batch k t cache = (Some u, cache'') \<Longrightarrow> \<exists>b. map_of cache k = Some b \<and> u = cb_loads b \<and> t < cb_expires b"
proof -
  define live where "live = filter (\<lambda>p. now < cb_expires (snd p)) cache"
  define room where "room = (if maxAccountLoadBatchCacheEntries \<le> length cache
    then evict (length live - (maxAccountLoadBatchCacheEntries - 1)) pick live else cache)"
  have c: "cache' = AList.update key \<lparr>cb_loads = v, cb_expires = expires\<rparr> room"
    using assms(3) unfolding store_cached_batch_def Let_def room_def live_def by auto
  have d: "distinct (map fst live)" using assms(1) by (simp add: live_def distinct_filter_fst)
  have "distinct (map fst room) \<and> length room \<le> 255"
  proof (cases "maxAccountLoadBatchCacheEntries \<le> length cache")
    case True
    then show ?thesis using evict_length [OF d, of "length live - 255" pick] by (simp add: room_def)
  next
    case False
    then show ?thesis using assms(1) by (simp add: room_def)
  qed
  then show "distinct (map fst cache') \<and> length cache' \<le> maxAccountLoadBatchCacheEntries"
    using length_update [of key _ room] le_trans by (fastforce simp: c intro: distinct_update)
  show "get_cached_batch key t cache' = (if expires \<le> t then (None, AList.delete key cache') else (Some v, cache'))"
    by (simp add: get_cached_batch_def c AList.update_conv')
  show "get_cached_batch k t cache = (Some u, cache'') \<Longrightarrow> \<exists>b. map_of cache k = Some b \<and> u = cb_loads b \<and> t < cb_expires b"
    by (auto simp: get_cached_batch_def split: option.splits if_splits)
qed

text \<open>
  The cache of account loads never holds more than 256 entries, whatever entries the eviction picks,
  and an answer from the cache is the value stored last for the key and has not expired.
\<close>

theorem load_cache_ok:
  assumes "distinct (map fst cache)" "length cache \<le> maxAccountLoadBatchCacheEntries"
    and "store_cached_batch pick now key v expires cache = cache'"
  shows "distinct (map fst cache') \<and> length cache' \<le> maxAccountLoadBatchCacheEntries \<and>
    get_cached_batch key t cache' = (if expires \<le> t then (None, AList.delete key cache') else (Some v, cache')) \<and>
    (\<forall>k u cache''. get_cached_batch k t cache = (Some u, cache'') \<longrightarrow>
      (\<exists>b. map_of cache k = Some b \<and> u = cb_loads b \<and> t < cb_expires b))"
  using load_cache_ok_parts [OF assms] by blast

section \<open>Counts of many accounts\<close>

definition works :: "int \<Rightarrow> slot_choice" where
  "works t = \<lparr>sc_time = t, sc_fate = Works, sc_scan = [], sc_last = True\<rparr>"

lemma exec_works:
  "ss_clock s \<le> t \<Longrightarrow> slot_exec (works t) c s = (case slot_cmd t [] True c (ss_redis s) of (a, r) \<Rightarrow> (a, \<lparr>ss_redis = r, ss_clock = t\<rparr>))"
  by (simp add: slot_exec_def works_def Let_def max_def)

definition in_use_now :: "concurrency_cache \<Rightarrow> int \<Rightarrow> int \<Rightarrow> slots \<Rightarrow> int" where
  "in_use_now c t i r = int (length (young t (cc_slot_ttl c) (Account_Slot i) r)) + int (length (young t 60 (Live_Account_Slot i) r))"

lemma young_purge:
  "young t ttl k (zremrangebyscore t j lo r) = (if j = k then filter (\<lambda>p. lo < snd p) (young t ttl k r) else young t ttl k r)"
  by (auto simp: young_def conj_commute intro: filter_cong)

lemma batch_commands_run:
  assumes "ss_clock s \<le> t" "run_alone slot_exec (works t) (pipeline (batch_commands c Account_Slot Live_Account_Slot (secs t) ids)) s = (as, u)"
  shows "R_Err \<notin> set as \<and> batch_counts ids as = map (\<lambda>i. (i, in_use_now c t i (ss_redis s))) ids"
  using assms
proof (induction ids arbitrary: s as u)
  case Nil
  then show ?case by (simp add: batch_commands_def)
next
  case (Cons i ids)
  let ?r1 = "zremrangebyscore t (Account_Slot i) (secs t - cc_slot_ttl c) (ss_redis s)"
  let ?r2 = "zremrangebyscore t (Live_Account_Slot i) (secs t - 60) ?r1"
  let ?s2 = "\<lparr>ss_redis = ?r2, ss_clock = t\<rparr>"
  obtain bs v where b: "run_alone slot_exec (works t) (pipeline (batch_commands c Account_Slot Live_Account_Slot (secs t) ids)) ?s2 = (bs, v)"
    by fastforce
  have ih: "R_Err \<notin> set bs" "batch_counts ids bs = map (\<lambda>j. (j, in_use_now c t j ?r2)) ids" using Cons.IH [OF _ b] by auto
  have same: "in_use_now c t j ?r2 = in_use_now c t j (ss_redis s)" for j
    by (simp add: in_use_now_def young_purge young_def cong: filter_cong)
  have "as = R_Unit # R_Unit # R_Int (zcard t (Account_Slot i) ?r2) # R_Int (zcard t (Live_Account_Slot i) ?r2) # bs"
    using Cons.prems b by (simp add: batch_commands_def exec_works slot_cmd_def run_alone_bind split: prod.splits)
  moreover have "zcard t (Account_Slot i) ?r2 + zcard t (Live_Account_Slot i) ?r2 = in_use_now c t i (ss_redis s)"
    by (simp add: zcard_def in_use_now_def young_def)
  ultimately show ?case using ih same by simp
qed

text \<open>
  Claim C37. Reading the slots of many accounts in one batch, when every call works at one time \<open>t\<close>, gives
  for every account what reading it alone gives, which is the number of its slots and live sessions that
  have not reached their lifetimes.
\<close>

theorem batch_counts_exact:
  assumes "ss_clock s \<le> t"
  shows "fst (run_alone slot_exec (works t) (get_account_concurrency_batch c ids) s) =
      Some (map (\<lambda>i. (i, in_use_now c t i (ss_redis s))) ids) \<and>
    fst (run_alone slot_exec (works t) (get_account_concurrency c i) s) = Some (in_use_now c t i (ss_redis s))"
proof
  show "fst (run_alone slot_exec (works t) (get_account_concurrency c i) s) = Some (in_use_now c t i (ss_redis s))"
    using assms by (simp add: get_account_concurrency_def get_count_def exec_works slot_cmd_def get_count_script_def Let_def
      zcard_def in_use_now_def young_def)
  let ?s = "\<lparr>ss_redis = ss_redis s, ss_clock = t\<rparr>"
  obtain as u where b: "run_alone slot_exec (works t) (pipeline (batch_commands c Account_Slot Live_Account_Slot (secs t) ids)) ?s = (as, u)"
    by fastforce
  have "run_alone slot_exec (works t) redis_unix_seconds s = (Some (secs t), ?s)"
    using assms by (simp add: redis_unix_seconds_def exec_works slot_cmd_def)
  then show "fst (run_alone slot_exec (works t) (get_account_concurrency_batch c ids) s) =
      Some (map (\<lambda>i. (i, in_use_now c t i (ss_redis s))) ids)"
    using batch_commands_run [OF _ b] b by (simp add: get_account_concurrency_batch_def get_concurrency_batch_def run_alone_bind)
qed

section \<open>The cleanup at the start of a process\<close>



end
