(* ===== verification/Concurrency_Examples.thy ===== *)
theory Concurrency_Examples
  imports Concurrency_Waits
begin

text \<open>
  Concrete runs of the concurrency service: the limits at work, and the start of a second instance.
\<close>

definition lost_answer :: "int \<Rightarrow> slot_choice" where
  "lost_answer t = \<lparr>sc_time = t, sc_fate = Fails_After, sc_scan = [], sc_last = True\<rparr>"

definition steps :: "nat \<Rightarrow> int \<Rightarrow> nat \<Rightarrow> (slot_request, slot_choice) event list" where
  "steps i t n = replicate n (Step i (works t))"

text \<open>Two requests compete for the only slot of an account; the answer to the first is lost.\<close>

definition two_requests :: "(slot_request, slot_choice) event list" where
  "two_requests = [Start (Q_Acquire_Account 1 1 ''ra-1''), Start (Q_Acquire_Account 1 1 ''ra-2''),
     Step 0 (lost_answer 1000000), Step 1 (works 1001000), Start (Q_Wait_Account 1 3), Step 2 (works 1002000), Step 2 (works 1002000)]"

abbreviation "cfg \<equiv> new_concurrency_cache 0 0"

named_theorems redis_eval

lemmas [redis_eval] = zremrangebyscore_def zadd_def zrem_def put_zset_def expire_def put_count_def del_def
  kept_deadline_def key_gone_def key_exists_def zset_at_def hash_at_def count_at_def zscore_def zcard_def take_slot_def
  secs_def

lemmas [redis_eval] = slot_handler_def answering_def or_error_def
  service_acquire_account_slot_def acquire_account_slot_def acquire_slot_def touch_active_index_at_def
  slot_cmd_def acquire_script_def empty_redis_def new_concurrency_cache_def Let_def
  service_increment_account_wait_count_def increment_account_wait_count_def increment_wait_def increment_wait_script_def

lemma Call_weak: "c = c' \<Longrightarrow> Call c k = Call c' k"
  by simp

lemma slot_exec_works [redis_eval]:
  "slot_exec (works t) c s = (case slot_cmd (max (ss_clock s) t) [] True c (ss_redis s) of (a, r) \<Rightarrow>
     (a, \<lparr>ss_redis = r, ss_clock = max (ss_clock s) t\<rparr>))"
  "slot_exec (lost_answer t) c s = (case slot_cmd (max (ss_clock s) t) [] True c (ss_redis s) of (a, r) \<Rightarrow>
     (R_Err, \<lparr>ss_redis = r, ss_clock = max (ss_clock s) t\<rparr>))"
  by (auto simp: slot_exec_def works_def lost_answer_def Let_def split: prod.splits)

lemma run_eval [redis_eval]:
  "run_pool exec h [] st = st"
  "run_pool exec h (Start q # evs) (ps, s) = run_pool exec h evs (ps @ [h q], s)"
  "i < length ps \<Longrightarrow> ps ! i = Call c k \<Longrightarrow> exec e c s = (a, u) \<Longrightarrow>
     run_pool exec h (Step i e # evs) (ps, s) = run_pool exec h evs (ps[i := k a], u)"
  by (simp_all add: run_pool_def pool_step_def)

lemma two_requests_state:
  "snd (slot_run cfg 0 two_requests) = \<lparr>ss_redis = \<lparr>r_zsets = (\<lambda>_. [])(Account_Slot 1 := [(''ra-1'', 1000)],
       Live_Account_Slot 1 := [], Account_Active_Index := [(itoa 1, 1902)]), r_hashes = (\<lambda>_. []),
       r_counts = [Account_Wait 1 \<mapsto> 1], r_deadline = [Account_Slot 1 \<mapsto> 1900000, Account_Wait 1 \<mapsto> 1902000]\<rparr>,
     ss_clock = 1002000\<rparr>"
  by (simp add: redis_eval slot_run_def two_requests_def cong: Call_weak)

lemmas [redis_eval] = cleanup_stale_process_slots_def sweep_legacy_wait_keys_once_def redis_unix_seconds_def
  all_index_members_def cleanup_stale_process_slots_for_index_def write_index_def remove_active_index_members_def
  account_slot_index_def user_slot_index_def startup_cleanup_slot_script_def has_prefix_def unit_of_def

lemma const_upd [redis_eval]: "(\<lambda>_. v)(k := v) = (\<lambda>_. v)"
  by auto

lemma member_one [redis_eval]: "member_id (itoa 1) = Some 1"
  by code_simp

definition second_instance :: "(slot_request, slot_choice) event list" where
  "second_instance = [Start (Q_Acquire_Account 1 1 ''ra-1'')] @ replicate 2 (Step 0 (works 1000000)) @
     [Start (Q_Startup 2 ''rb'')] @ replicate 10 (Step 1 (works 1001000)) @
     [Start (Q_Acquire_Account 1 1 ''rb-1'')] @ replicate 2 (Step 2 (works 1002000))"

lemma second_instance_state:
  "slot_run cfg 0 second_instance =
    ([Ret (S_Slot \<lparr>ar_acquired = True, ar_release = Some (Release_Account 1 ''ra-1'')\<rparr>), Ret S_Unit,
      Ret (S_Slot \<lparr>ar_acquired = True, ar_release = Some (Release_Account 1 ''rb-1'')\<rparr>)],
     \<lparr>ss_redis = \<lparr>r_zsets = (\<lambda>_. [])(Live_Account_Slot 1 := [], Account_Slot 1 := [(''rb-1'', 1002)],
        Account_Active_Index := [(itoa 1, 1902)]), r_hashes = (\<lambda>_. []), r_counts = [Legacy_Sweep_Marker \<mapsto> 1],
        r_deadline = [Account_Slot 1 \<mapsto> 1902000]\<rparr>, ss_clock = 1002000\<rparr>)"
  by (simp add: redis_eval slot_run_def second_instance_def eval_nat_numeral cong: Call_weak)

section \<open>Witnesses\<close>

lemma two_requests_run: "slot_run cfg 0 two_requests = (fst (slot_run cfg 0 two_requests), snd (slot_run cfg 0 two_requests))"
  by simp

theorem slots_within_limit_witness: "slots_in_use (Of_Account 1) (snd (slot_run cfg 0 two_requests)) \<le> 1"
  by (rule slots_within_limit [OF two_requests_run]) (auto simp: two_requests_def limit_ok_def)

theorem slots_exclusive_witness:
  "finite {''ra-1''} \<and> int (card {''ra-1''}) \<le> 1"
proof (rule slots_exclusive [OF two_requests_run, of "Of_Account 1"])
  show "\<forall>q. Start q \<in> set two_requests \<longrightarrow> limit_ok (Of_Account 1) 1 q \<and> leaves (Of_Account 1) {''ra-1''} q"
    by (auto simp: two_requests_def limit_ok_def leaves_def)
  have "(''ra-1'', 1000) \<in> holders (Of_Account 1) (snd (slot_run cfg 0 (take (length two_requests) two_requests)))"
    unfolding take_all [OF order_refl] two_requests_state by (simp add: holders_def redis_eval)
  moreover have "ss_clock (snd (slot_run cfg 0 two_requests)) < (1000 + lifetime cfg (Of_Account 1)) * 1000"
    unfolding two_requests_state by (simp add: redis_eval)
  ultimately show "\<forall>rid \<in> {''ra-1''}. \<exists>n t. (rid, t) \<in> holders (Of_Account 1) (snd (slot_run cfg 0 (take n two_requests))) \<and>
      ss_clock (snd (slot_run cfg 0 two_requests)) < (t + lifetime cfg (Of_Account 1)) * 1000"
    by blast
qed simp

theorem wait_count_bounds_witness: "0 \<le> (1 :: int) \<and> (1 :: int) \<le> 3"
proof (rule wait_count_bounds [OF two_requests_run, of "Account_Wait 1" 3])
  show "\<forall>q. Start q \<in> set two_requests \<longrightarrow> wait_limit_ok (Account_Wait 1) 3 q"
    by (auto simp: two_requests_def wait_limit_ok_def)
  show "count_at (ss_clock (snd (slot_run cfg 0 two_requests))) (Account_Wait 1) (ss_redis (snd (slot_run cfg 0 two_requests))) = Some 1"
    unfolding two_requests_state by (simp add: redis_eval)
qed (simp_all add: is_wait_def)

theorem acquire_script_spec_witness:
  "''ra-1'' \<in> fst ` set (young 1000000 900 (Account_Slot 1) empty_redis) \<or>
     int (length (young 1000000 900 (Account_Slot 1) empty_redis)) + int (length (young 1000000 60 (Live_Account_Slot 1) empty_redis)) < 1"
proof -
  have "acquire_script 1000000 (Account_Slot 1) (Live_Account_Slot 1) 1 900 ''ra-1'' empty_redis =
      (True, empty_redis\<lparr>r_zsets := (\<lambda>_. [])(Account_Slot 1 := [(''ra-1'', 1000)]), r_deadline := [Account_Slot 1 \<mapsto> 1900000]\<rparr>)"
    by (simp add: redis_eval)
  from acquire_script_spec [OF _ _ this] show ?thesis by simp
qed

theorem batch_counts_exact_witness:
  "fst (run_alone slot_exec (works 5000) (get_account_concurrency_batch cfg [1]) \<lparr>ss_redis = empty_redis, ss_clock = 0\<rparr>) = Some [(1, 0)]"
  using batch_counts_exact [of "\<lparr>ss_redis = empty_redis, ss_clock = 0\<rparr>" 5000 cfg "[1]"]
  by (simp add: in_use_now_def young_def zset_at_def key_gone_def empty_redis_def)

text \<open>A tick of the refresh loop for a lease that is gone.\<close>

theorem ws_refresh_spec_witness:
  "''l'' \<notin> fst ` set (young 1000000 60 (Ws_Ingress_Lease 1) empty_redis)"
proof -
  have run: "run_prog slot_exec [works 1000000] (ws_refresh 1 ''l'' 7 8) \<lparr>ss_redis = empty_redis, ss_clock = 0\<rparr> =
      (Ret (7, True), \<lparr>ss_redis = empty_redis, ss_clock = 1000000\<rparr>)"
    by (simp add: redis_eval ws_refresh_def refresh_openai_ws_ingress_lease_def refresh_ws_lease_script_def bool_of_def cong: Call_weak)
  from ws_refresh_spec [OF _ _ run refl] show ?thesis by (simp add: works_def)
qed

theorem load_cache_ok_witness:
  "distinct (map fst (store_cached_batch (\<lambda>_. 0) 5 ''k'' (7 :: int) 9 [])) \<and>
    length (store_cached_batch (\<lambda>_. 0) 5 ''k'' (7 :: int) 9 []) \<le> maxAccountLoadBatchCacheEntries"
  using load_cache_ok [OF _ _ refl, of "[]" "\<lambda>_. 0" 5 "''k''" "7 :: int" 9 0] by simp

section \<open>A second instance starts\<close>

text \<open>
  An instance with the prefix \<open>ra\<close> takes the only slot of an account, an instance with the prefix \<open>rb\<close> starts, and a
  request of the second instance gets the slot too, two seconds after the first one, which has not released it.
\<close>

theorem second_instance_takes_slot:
  "fst (slot_run (new_concurrency_cache 0 0) 0 second_instance) =
    [Ret (S_Slot \<lparr>ar_acquired = True, ar_release = Some (Release_Account 1 ''ra-1'')\<rparr>), Ret S_Unit,
     Ret (S_Slot \<lparr>ar_acquired = True, ar_release = Some (Release_Account 1 ''rb-1'')\<rparr>)] \<and>
   limit_ok (Of_Account 1) 1 (Q_Acquire_Account 1 1 ''ra-1'') \<and> limit_ok (Of_Account 1) 1 (Q_Acquire_Account 1 1 ''rb-1'') \<and>
   ss_clock (snd (slot_run (new_concurrency_cache 0 0) 0 second_instance)) = 1002000 \<and>
   lifetime (new_concurrency_cache 0 0) (Of_Account 1) = 900"
  unfolding second_instance_state by (simp add: limit_ok_def new_concurrency_cache_def)



end
