(* ===== verification/Inflight_Cache.thy ===== *)
theory Inflight_Cache
  imports Redis
begin

text \<open>
  Amounts reserved for the requests of a user that are in flight, \<open>internal/repository/billing_inflight_cache.go\<close>
  and the admission of \<open>internal/service/billing_inflight_reservation.go\<close>. A sorted set holds the requests with
  the time their reservations end, a hash their amounts; scripts change both at once. The scripts take the
  current time from the process that calls them, \<open>now\<close>; the keys end by the clock of Redis, \<open>rnow\<close>. Amounts
  are rational numbers in place of 64-bit floating point.
\<close>

section \<open>Scripts\<close>

datatype inflight_key = Inflight_Set int | Inflight_Amounts int

type_synonym inflight = "inflight_key redis"

definition drop_expired :: "int \<Rightarrow> int \<Rightarrow> int \<Rightarrow> inflight \<Rightarrow> inflight" where
  "drop_expired rnow now u r =
     (let expired = map fst (filter (\<lambda>p. snd p \<le> now) (zset_at rnow (Inflight_Set u) r))
      in if expired = [] then r
         else hdel rnow (Inflight_Amounts u) expired (zremrangebyscore rnow (Inflight_Set u) now r))"

definition reserve_inflight_balance_script ::
  "int \<Rightarrow> int \<Rightarrow> int \<Rightarrow> int \<Rightarrow> string \<Rightarrow> rat \<Rightarrow> rat \<Rightarrow> int \<Rightarrow> inflight \<Rightarrow> (bool \<times> rat) \<times> inflight" where
  "reserve_inflight_balance_script rnow now u expire_at rid amount balance ttl r =
     (let r1 = drop_expired rnow now u r;
          total = sum_list (map snd (hash_at rnow (Inflight_Amounts u) r1))
      in if 0 < zcard rnow (Inflight_Set u) r1 \<and> balance - total < amount then ((False, total), r1)
         else ((True, total), expire rnow (Inflight_Amounts u) ttl (expire rnow (Inflight_Set u) ttl
                (hset rnow (Inflight_Amounts u) rid amount (zadd rnow (Inflight_Set u) expire_at rid r1)))))"

definition at_least :: "int \<Rightarrow> inflight_key \<Rightarrow> int \<Rightarrow> inflight \<Rightarrow> inflight" where
  "at_least rnow k ttl r = (if pttl rnow k r < ttl then expire rnow k ttl r else r)"

definition renew_inflight_balance_script :: "int \<Rightarrow> int \<Rightarrow> int \<Rightarrow> string \<Rightarrow> int \<Rightarrow> int \<Rightarrow> inflight \<Rightarrow> bool \<times> inflight" where
  "renew_inflight_balance_script rnow now u rid expire_at ttl r =
     (case zscore rnow (Inflight_Set u) rid r of
        None \<Rightarrow> (False, r)
      | Some score \<Rightarrow> if score \<le> now
          then (False, hdel rnow (Inflight_Amounts u) [rid] (zrem rnow (Inflight_Set u) rid r))
          else (True, at_least rnow (Inflight_Amounts u) ttl (at_least rnow (Inflight_Set u) ttl
                 (zadd rnow (Inflight_Set u) expire_at rid r))))"

definition release_inflight_balance_script :: "int \<Rightarrow> int \<Rightarrow> string \<Rightarrow> inflight \<Rightarrow> inflight" where
  "release_inflight_balance_script rnow u rid r = hdel rnow (Inflight_Amounts u) [rid] (zrem rnow (Inflight_Set u) rid r)"

section \<open>The methods of the cache\<close>

definition ttl_ms :: "int \<Rightarrow> int" where
  "ttl_ms ms = (if ms \<le> 0 then 1 else ms)"

definition reserve_inflight_balance ::
  "int \<Rightarrow> int \<Rightarrow> int \<Rightarrow> string \<Rightarrow> rat \<Rightarrow> rat \<Rightarrow> int \<Rightarrow> inflight \<Rightarrow> (bool \<times> rat) \<times> inflight" where
  "reserve_inflight_balance rnow now u rid amount balance ms =
     reserve_inflight_balance_script rnow now u (now + ttl_ms ms) rid amount balance (ttl_ms ms)"

definition release_inflight_balance :: "int \<Rightarrow> int \<Rightarrow> string \<Rightarrow> inflight \<Rightarrow> inflight" where
  "release_inflight_balance = release_inflight_balance_script"

definition renew_inflight_balance :: "int \<Rightarrow> int \<Rightarrow> int \<Rightarrow> string \<Rightarrow> int \<Rightarrow> inflight \<Rightarrow> bool \<times> inflight" where
  "renew_inflight_balance rnow now u rid ms = renew_inflight_balance_script rnow now u rid (now + ttl_ms ms) (ttl_ms ms)"

section \<open>Admission\<close>

record inflight_config =
  if_enabled :: bool
  if_ttl_seconds :: int
  if_max_reservation :: rat

text \<open>An estimate is a 64-bit floating point number, which may be infinite or not a number.\<close>

datatype estimate = Finite rat | Pos_Inf | Neg_Inf | Not_A_Number

definition cap_estimate :: "rat \<Rightarrow> estimate \<Rightarrow> estimate" where
  "cap_estimate mx e = (if 0 < mx then (case e of
      Finite x \<Rightarrow> if mx < x then Finite mx else e | Pos_Inf \<Rightarrow> Finite mx | _ \<Rightarrow> e) else e)"

definition inflight_amount :: "inflight_config \<Rightarrow> estimate \<Rightarrow> rat option" where
  "inflight_amount c e = (case cap_estimate (if_max_reservation c) e of Finite x \<Rightarrow> if x \<le> 0 then None else Some x | _ \<Rightarrow> None)"

record balance_snapshot =
  bs_daily :: rat
  bs_affiliate :: rat
  bs_account :: rat

definition balance_below_threshold :: "rat \<Rightarrow> rat \<Rightarrow> bool" where
  "balance_below_threshold minimum b \<longleftrightarrow> b \<le> 0 \<or> 0 < minimum \<and> b < minimum"

text \<open>
  What the eligibility check of a subscription answers, with the seven-day limit in force; the check itself is an
  argument.
\<close>

datatype sub_verdict = Sub_Ok | Sub_Weekly_Exceeded | Sub_Unavailable | Sub_Other_Error string

datatype funding = Fund rat | Fund_None | Fund_Error string

definition inflight_funding_balance ::
  "rat \<Rightarrow> balance_snapshot option \<Rightarrow> (sub_verdict \<times> bool) option \<Rightarrow> bool \<Rightarrow> funding" where
  "inflight_funding_balance minimum snapshot subscription fallback = (case snapshot of
     None \<Rightarrow> Fund_None
   | Some b \<Rightarrow>
       let rewards = max (bs_daily b) (bs_affiliate b) in
       (case subscription of
          None \<Rightarrow> Fund (max rewards (bs_account b))
        | Some (verdict, has_limit) \<Rightarrow>
            if \<not> balance_below_threshold minimum rewards then Fund rewards
            else if verdict = Sub_Ok \<and> has_limit then Fund_None
            else (case verdict of
                Sub_Unavailable \<Rightarrow> Fund_None
              | Sub_Other_Error err \<Rightarrow> Fund_Error err
              | _ \<Rightarrow> if \<not> fallback then Fund_Error ''ErrWeeklyLimitExceeded'' else Fund (bs_account b))))"

text \<open>The outcome of an admission; \<open>answer = None\<close> stands for a call of Redis that fails.\<close>

datatype admission = Admit_Unreserved | Admit_Reserved string rat int | Admit_Refused string

definition inflight_ttl :: "inflight_config \<Rightarrow> int" where
  "inflight_ttl c = (if 0 < if_ttl_seconds c then if_ttl_seconds c * 1000 else 900000)"

definition reserve_inflight ::
  "inflight_config \<Rightarrow> bool \<Rightarrow> estimate \<Rightarrow> funding \<Rightarrow> string \<Rightarrow> (rat \<Rightarrow> rat \<Rightarrow> int \<Rightarrow> bool option) \<Rightarrow> admission" where
  "reserve_inflight c simple e fund rid redis =
     (if \<not> if_enabled c \<or> simple then Admit_Unreserved
      else case inflight_amount c e of None \<Rightarrow> Admit_Unreserved
      | Some amount \<Rightarrow> (case fund of
          Fund_Error err \<Rightarrow> Admit_Refused err
        | Fund_None \<Rightarrow> Admit_Unreserved
        | Fund balance \<Rightarrow> (case redis amount balance (inflight_ttl c) of
            None \<Rightarrow> Admit_Unreserved
          | Some False \<Rightarrow> Admit_Refused ''ErrInsufficientBalance''
          | Some True \<Rightarrow> Admit_Reserved rid amount (inflight_ttl c))))"

end
