(* ===== verification/Inflight_Laws.thy ===== *)
theory Inflight_Laws
  imports Inflight_Cache
begin

text \<open>
  The set and the hash of a user name the same requests at all times, the amounts in flight stay within the
  largest balance or single amount, and an expired reservation is not revived.
\<close>

section \<open>The set and the hash agree\<close>

text \<open>The two keys of a user seen at a time: the set, the hash and the two deadlines.\<close>

definition zs :: "int \<Rightarrow> int \<Rightarrow> inflight \<Rightarrow> zset" where
  "zs t u r = zset_at t (Inflight_Set u) r"

definition hs :: "int \<Rightarrow> int \<Rightarrow> inflight \<Rightarrow> (string \<times> rat) list" where
  "hs t u r = hash_at t (Inflight_Amounts u) r"

definition inflight_total :: "int \<Rightarrow> int \<Rightarrow> inflight \<Rightarrow> rat" where
  "inflight_total t u r = sum_list (map snd (hs t u r))"

definition one_kind :: "int \<Rightarrow> inflight \<Rightarrow> bool" where
  "one_kind u r \<longleftrightarrow> r_zsets r (Inflight_Amounts u) = [] \<and> r_hashes r (Inflight_Set u) = [] \<and>
     r_counts r (Inflight_Set u) = None \<and> r_counts r (Inflight_Amounts u) = None"

definition inflight_ok :: "int \<Rightarrow> int \<Rightarrow> inflight \<Rightarrow> bool" where
  "inflight_ok t u r \<longleftrightarrow> distinct (map fst (zs t u r)) \<and> distinct (map fst (hs t u r)) \<and>
     fst ` set (zs t u r) = fst ` set (hs t u r) \<and>
     (zs t u r \<noteq> [] \<longrightarrow> r_deadline r (Inflight_Set u) = r_deadline r (Inflight_Amounts u)) \<and>
     (\<forall>p \<in> set (hs t u r). 0 \<le> snd p) \<and> one_kind u r"

lemma zset_other [simp]: "j \<noteq> k \<Longrightarrow> zset_at now j (put_hash now k h r) = zset_at now j r"
  "j \<noteq> k \<Longrightarrow> hash_at now j (put_zset now k z r) = hash_at now j r"
  by (simp_all add: zset_at_def hash_at_def key_gone_def put_hash_def put_zset_def)

lemma one_kind_ops [simp]:
  "one_kind u (put_zset t (Inflight_Set u') z r) = one_kind u r" "one_kind u (put_hash t (Inflight_Amounts u') h r) = one_kind u r"
  "one_kind u (expire t k ms r) = one_kind u r"
  by (auto simp: one_kind_def put_zset_def put_hash_def expire_def)

lemma zs_ops [simp]:
  "zs t u (put_zset t (Inflight_Set u') z r) = (if u = u' then z else zs t u r)" "zs t u (put_hash t (Inflight_Amounts u') h r) = zs t u r"
  "0 < ms \<Longrightarrow> zs t u (expire t k ms r) = zs t u r"
  "hs t u (put_hash t (Inflight_Amounts u') h r) = (if u = u' then h else hs t u r)" "hs t u (put_zset t (Inflight_Set u') z r) = hs t u r"
  "0 < ms \<Longrightarrow> hs t u (expire t k ms r) = hs t u r"
  by (simp_all add: zs_def hs_def)

lemma same_gone:
  "inflight_ok t u r \<Longrightarrow> zs t u r \<noteq> [] \<Longrightarrow> key_gone t' (Inflight_Set u) r = key_gone t' (Inflight_Amounts u) r"
  by (simp add: inflight_ok_def key_gone_def)

lemma empty_together: "inflight_ok t u r \<Longrightarrow> zs t u r = [] \<longleftrightarrow> hs t u r = []"
  by (auto simp: inflight_ok_def)

lemma inflight_ok_later:
  assumes ok: "inflight_ok s u r" and st: "s \<le> t"
  shows "inflight_ok t u r \<and> inflight_total t u r \<le> inflight_total s u r"
proof -
  have nn: "0 \<le> inflight_total s u r" using ok by (auto simp: inflight_total_def inflight_ok_def intro!: sum_list_nonneg)
  have z: "zs t u r = (if key_gone t (Inflight_Set u) r then [] else zs s u r)"
    "hs t u r = (if key_gone t (Inflight_Amounts u) r then [] else hs s u r)"
    using st by (auto simp: zs_def hs_def zset_at_def hash_at_def key_gone_def split: option.splits)
  show ?thesis
  proof (cases "zs s u r = []")
    case True
    then show ?thesis using ok z empty_together [OF ok] by (auto simp: inflight_ok_def inflight_total_def)
  next
    case False
    from same_gone [OF ok False, of t] show ?thesis using ok z nn by (auto simp: inflight_ok_def inflight_total_def)
  qed
qed

section \<open>Steps\<close>

text \<open>Writing both keys: with equal members and equal deadlines they agree.\<close>

lemma kept_both:
  assumes ok: "inflight_ok t u r" and "z \<noteq> []" "h \<noteq> []" and r: "zs t u r \<noteq> []"
  shows "r_deadline (put_hash t (Inflight_Amounts u) h (put_zset t (Inflight_Set u) z r)) (Inflight_Set u) =
    r_deadline (put_hash t (Inflight_Amounts u) h (put_zset t (Inflight_Set u) z r)) (Inflight_Amounts u)"
  using assms same_gone [OF ok r, of t] by (auto simp: kept_deadline_def inflight_ok_def key_gone_def put_zset_def)

lemma both_put:
  assumes ok: "inflight_ok t u r" and z: "distinct (map fst z)" "distinct (map fst h)" "fst ` set z = fst ` set h" "\<forall>p \<in> set h. 0 \<le> snd p"
    and r: "z \<noteq> [] \<Longrightarrow> zs t u r \<noteq> []"
  shows "inflight_ok t u (put_hash t (Inflight_Amounts u) h (put_zset t (Inflight_Set u) z r))"
proof -
  have "h \<noteq> []" if "z \<noteq> []" using that z(3) by auto
  then show ?thesis using assms kept_both [OF ok, of z h] by (auto simp: inflight_ok_def)
qed

lemma filter_both:
  assumes "inflight_ok t u r"
  shows "inflight_ok t u (put_hash t (Inflight_Amounts u) (filter (\<lambda>p. fst p \<notin> X) (hs t u r))
    (put_zset t (Inflight_Set u) (filter (\<lambda>p. fst p \<notin> X) (zs t u r)) r))"
proof (rule both_put [OF assms])
  show "distinct (map fst (filter (\<lambda>p. fst p \<notin> X) (zs t u r)))" "distinct (map fst (filter (\<lambda>p. fst p \<notin> X) (hs t u r)))"
    using assms by (auto simp: inflight_ok_def distinct_filter_fst)
  have "fst ` set (zs t u r) = fst ` set (hs t u r)" using assms by (simp add: inflight_ok_def)
  then show "fst ` set (filter (\<lambda>p. fst p \<notin> X) (zs t u r)) = fst ` set (filter (\<lambda>p. fst p \<notin> X) (hs t u r))"
    by (force simp: image_iff)
qed (use assms in \<open>auto simp: inflight_ok_def\<close>)

lemma total_filter:
  assumes "\<forall>p \<in> set h. (0 :: rat) \<le> snd p" shows "sum_list (map snd (filter P h)) \<le> sum_list (map snd h)"
  using assms by (induction h) (auto intro: add_increasing)

lemma drop_expired_eq:
  assumes "inflight_ok t u r"
  shows "drop_expired t now u r = (let X = fst ` {p \<in> set (zs t u r). snd p \<le> now} in
    if X = {} then r else put_hash t (Inflight_Amounts u) (filter (\<lambda>p. fst p \<notin> X) (hs t u r))
      (put_zset t (Inflight_Set u) (filter (\<lambda>p. fst p \<notin> X) (zs t u r)) r))"
proof -
  let ?X = "fst ` {p \<in> set (zs t u r). snd p \<le> now}"
  have "(now < snd p) = (fst p \<notin> ?X)" if p: "p \<in> set (zs t u r)" for p
  proof -
    have inj: "inj_on fst (set (zs t u r))" using assms by (simp add: inflight_ok_def distinct_map)
    have "q = p" if "q \<in> set (zs t u r)" "fst p = fst q" for q
      using inj_onD [OF inj that(2) p that(1)] by simp
    then have "fst p \<in> ?X \<longleftrightarrow> snd p \<le> now" using p by blast
    then show ?thesis by linarith
  qed
  then have f: "filter (\<lambda>p. now < snd p) (zs t u r) = filter (\<lambda>p. fst p \<notin> ?X) (zs t u r)" by (intro filter_cong) auto
  let ?E = "map fst (filter (\<lambda>p. snd p \<le> now) (zs t u r))"
  have E: "set ?E = ?X" "?E = [] \<longleftrightarrow> ?X = {}" by (auto simp: filter_empty_conv)
  show ?thesis unfolding drop_expired_def Let_def hdel_def zremrangebyscore_def zs_def [symmetric] E f
    by (auto simp: hs_def)
qed

lemma drop_expired_ok:
  assumes "inflight_ok t u r"
  shows "inflight_ok t u (drop_expired t now u r) \<and> inflight_total t u (drop_expired t now u r) \<le> inflight_total t u r \<and>
    fst ` set (zs t u (drop_expired t now u r)) \<subseteq> fst ` set (zs t u r)"
proof -
  let ?X = "fst ` {p \<in> set (zs t u r). snd p \<le> now}"
  have "\<forall>p \<in> set (hs t u r). 0 \<le> snd p" using assms by (simp add: inflight_ok_def)
  then show ?thesis using assms filter_both [OF assms, of ?X] total_filter
    by (auto simp: drop_expired_eq Let_def inflight_total_def)
qed

text \<open>Taking a reservation: both keys are written and both get the same deadline.\<close>

definition book :: "int \<Rightarrow> int \<Rightarrow> int \<Rightarrow> string \<Rightarrow> rat \<Rightarrow> int \<Rightarrow> inflight \<Rightarrow> inflight" where
  "book t u e rid a ttl r = expire t (Inflight_Amounts u) ttl (expire t (Inflight_Set u) ttl
     (hset t (Inflight_Amounts u) rid a (zadd t (Inflight_Set u) e rid r)))"

lemma book_sets:
  assumes "0 < ttl"
  shows "zs t u (book t u e rid a ttl r) = (rid, e) # filter (\<lambda>p. fst p \<noteq> rid) (zs t u r)"
    "hs t u (book t u e rid a ttl r) = (rid, a) # filter (\<lambda>p. fst p \<noteq> rid) (hs t u r)"
  using assms by (simp_all add: book_def hset_def zadd_def zs_def hs_def)

lemma book_ok:
  assumes ok: "inflight_ok t u r" and "0 \<le> a" "0 < ttl"
  shows "inflight_ok t u (book t u e rid a ttl r) \<and> inflight_total t u (book t u e rid a ttl r) \<le> inflight_total t u r + a"
proof -
  have "r_deadline (book t u e rid a ttl r) (Inflight_Set u) = Some (t + ttl)"
    "r_deadline (book t u e rid a ttl r) (Inflight_Amounts u) = Some (t + ttl)"
    using assms(3) by (auto simp: book_def expire_def key_exists_def hset_def zadd_def hash_at_def zset_at_def key_gone_def
      put_hash_def put_zset_def kept_deadline_def)
  moreover have "one_kind u (book t u e rid a ttl r)" using ok by (simp add: book_def hset_def zadd_def inflight_ok_def)
  moreover have "fst ` {x \<in> set (zs t u r). fst x \<noteq> rid} = fst ` {x \<in> set (hs t u r). fst x \<noteq> rid}"
    using ok by (force simp: inflight_ok_def image_iff)
  moreover have "sum_list (map snd (filter (\<lambda>p. fst p \<noteq> rid) (hs t u r))) \<le> sum_list (map snd (hs t u r))"
    using ok by (intro total_filter) (simp add: inflight_ok_def)
  ultimately show ?thesis using assms by (auto simp: inflight_ok_def book_sets inflight_total_def distinct_filter_fst)
qed

text \<open>Another user's keys are not touched.\<close>

lemma other_user:
  assumes "u \<noteq> v" "inflight_ok t u r"
  shows "inflight_ok t u (put_hash t (Inflight_Amounts v) h r)" "inflight_ok t u (put_zset t (Inflight_Set v) z r)"
    "0 < ms \<Longrightarrow> inflight_ok t u (expire t (Inflight_Amounts v) ms r)" "0 < ms \<Longrightarrow> inflight_ok t u (expire t (Inflight_Set v) ms r)"
  using assms by (auto simp: inflight_ok_def) (auto simp: expire_def)

lemma other_total:
  assumes "u \<noteq> v"
  shows "inflight_total t u (put_hash t (Inflight_Amounts v) h r) = inflight_total t u r"
    "inflight_total t u (put_zset t (Inflight_Set v) z r) = inflight_total t u r"
  using assms by (auto simp: inflight_total_def)

lemma expire_total [simp]: "0 < ms \<Longrightarrow> inflight_total t u (expire t k ms r) = inflight_total t u r"
  by (simp add: inflight_total_def)

lemma at_least_cases: "at_least t k ttl r = expire t k ttl r \<or> at_least t k ttl r = r"
  by (simp add: at_least_def)

section \<open>Scripts\<close>

definition inflight_step :: "int \<Rightarrow> int \<Rightarrow> rat \<Rightarrow> inflight \<Rightarrow> inflight \<Rightarrow> bool" where
  "inflight_step t u M r r' \<longleftrightarrow> (inflight_ok t u r \<and> inflight_total t u r \<le> M \<longrightarrow> inflight_ok t u r' \<and> inflight_total t u r' \<le> M)"

lemma reserve_step:
  assumes "0 \<le> amount" "0 < ttl" "v = u \<Longrightarrow> amount \<le> M \<and> balance \<le> M"
  shows "inflight_step t u M r (snd (reserve_inflight_balance_script t now v e rid amount balance ttl r))"
proof (cases "v = u")
  case False
  then show ?thesis using assms(2)
    by (auto simp: inflight_step_def reserve_inflight_balance_script_def drop_expired_def Let_def hdel_def zremrangebyscore_def
      hset_def zadd_def other_user other_total)
next
  case True
  let ?r1 = "drop_expired t now u r"
  have "inflight_total t u (book t u e rid amount ttl ?r1) \<le> M"
    if "inflight_ok t u r" "inflight_total t u r \<le> M" "\<not> (0 < zcard t (Inflight_Set u) ?r1 \<and> balance - inflight_total t u ?r1 < amount)"
  proof -
    have ok: "inflight_ok t u ?r1" using drop_expired_ok [OF that(1)] by simp
    have "inflight_total t u (book t u e rid amount ttl ?r1) \<le> inflight_total t u ?r1 + amount"
      using book_ok [OF ok assms(1,2)] by simp
    moreover have "inflight_total t u ?r1 = 0" if "\<not> 0 < zcard t (Inflight_Set u) ?r1"
      using that empty_together [OF ok] by (simp add: zcard_def inflight_total_def zs_def)
    ultimately show ?thesis using that(3) assms(3) True by fastforce
  qed
  then show ?thesis using True drop_expired_ok [of t u r now] book_ok [OF _ assms(1,2), of t u ?r1 e rid]
    by (auto simp: inflight_step_def reserve_inflight_balance_script_def Let_def book_def [symmetric]
      inflight_total_def [symmetric] hs_def [symmetric])
qed

lemma release_step: "inflight_step t u M r (release_inflight_balance_script t v rid r)"
proof (cases "v = u")
  case False
  then show ?thesis
    by (auto simp: inflight_step_def release_inflight_balance_script_def hdel_def zrem_def other_user other_total)
next
  case True
  have "inflight_total t u (put_hash t (Inflight_Amounts u) (filter (\<lambda>p. fst p \<notin> {rid}) (hs t u r))
      (put_zset t (Inflight_Set u) (filter (\<lambda>p. fst p \<notin> {rid}) (zs t u r)) r)) \<le> inflight_total t u r"
    if "inflight_ok t u r"
    using that by (simp add: inflight_total_def) (rule total_filter, simp add: inflight_ok_def)
  then show ?thesis using True filter_both [of t u r "{rid}"]
    by (auto simp: inflight_step_def release_inflight_balance_script_def hdel_def zrem_def zs_def hs_def)
qed

lemma both_at_least:
  assumes ok: "inflight_ok t u r" and "zs t u r \<noteq> []" "0 < ttl"
  shows "inflight_ok t u (at_least t (Inflight_Amounts u) ttl (at_least t (Inflight_Set u) ttl r))"
proof -
  have e: "key_exists t (Inflight_Set u) r" "key_exists t (Inflight_Amounts u) r"
    using assms(2) empty_together [OF ok] by (auto simp: key_exists_def zs_def hs_def)
  have d: "r_deadline r (Inflight_Set u) = r_deadline r (Inflight_Amounts u)" using ok assms(2) by (simp add: inflight_ok_def)
  then have "pttl t (Inflight_Set u) r = pttl t (Inflight_Amounts u) r" using e by (simp add: pttl_def)
  moreover have "pttl t (Inflight_Amounts u) (expire t (Inflight_Set u) ttl r) = pttl t (Inflight_Amounts u) r"
    using assms(3) by (simp add: pttl_def key_exists_def) (simp add: expire_def)
  moreover have "inflight_ok t u (expire t (Inflight_Amounts u) ttl (expire t (Inflight_Set u) ttl r))"
  proof -
    have "key_exists t (Inflight_Amounts u) (expire t (Inflight_Set u) ttl r)"
      using e(2) assms(3) by (simp add: key_exists_def)
    then have "r_deadline (expire t (Inflight_Amounts u) ttl (expire t (Inflight_Set u) ttl r)) (Inflight_Set u) =
        r_deadline (expire t (Inflight_Amounts u) ttl (expire t (Inflight_Set u) ttl r)) (Inflight_Amounts u)"
      using e by (simp add: expire_def [of t "Inflight_Amounts u"]) (simp add: expire_def)
    then show ?thesis using ok assms(3) by (simp add: inflight_ok_def)
  qed
  ultimately show ?thesis using ok by (simp add: at_least_def)
qed

lemma renew_step:
  assumes "0 < ttl"
  shows "inflight_step t u M r (snd (renew_inflight_balance_script t now v rid e ttl r))"
proof (cases "zscore t (Inflight_Set v) rid r")
  case None
  then show ?thesis by (simp add: inflight_step_def renew_inflight_balance_script_def)
next
  case (Some score)
  show ?thesis
  proof (cases "score \<le> now")
    case True
    then show ?thesis using Some release_step [of t u M r v rid]
      by (simp add: renew_inflight_balance_script_def release_inflight_balance_script_def)
  next
    case False
    let ?z = "(rid, e) # filter (\<lambda>p. fst p \<noteq> rid) (zset_at t (Inflight_Set v) r)"
    let ?r1 = "put_zset t (Inflight_Set v) ?z r"
    have res: "snd (renew_inflight_balance_script t now v rid e ttl r) =
        at_least t (Inflight_Amounts v) ttl (at_least t (Inflight_Set v) ttl ?r1)"
      using Some False by (simp add: renew_inflight_balance_script_def zadd_def)
    have total: "inflight_total t u (at_least t k1 ttl (at_least t k2 ttl ?r1)) = inflight_total t u r" for k1 k2
      using assms by (simp add: at_least_def) (simp add: inflight_total_def)
    have "inflight_ok t u (at_least t (Inflight_Amounts v) ttl (at_least t (Inflight_Set v) ttl ?r1))" if ok: "inflight_ok t u r"
    proof (cases "v = u")
      case True
      have m: "rid \<in> fst ` set (zs t u r)" using Some True by (force simp: zscore_def zs_def dest: map_of_SomeD)
      then have "zs t u r \<noteq> []" by auto
      then have "\<not> key_gone t (Inflight_Set u) r" by (auto simp: zs_def zset_at_def)
      then have "r_deadline ?r1 (Inflight_Set u) = r_deadline r (Inflight_Set u)" "r_deadline ?r1 (Inflight_Amounts u) = r_deadline r (Inflight_Amounts u)"
        using True by (simp_all add: kept_deadline_def)
      moreover have "fst ` set ((rid, e) # filter (\<lambda>p. fst p \<noteq> rid) (zs t u r)) = fst ` set (zs t u r)" using m by auto
      moreover have "zs t u ?r1 = (rid, e) # filter (\<lambda>p. fst p \<noteq> rid) (zs t u r)" "hs t u ?r1 = hs t u r"
        using True by (simp_all add: zs_def)
      moreover have "distinct (map fst ((rid, e) # filter (\<lambda>p. fst p \<noteq> rid) (zs t u r)))"
        using ok by (auto simp: inflight_ok_def distinct_filter_fst)
      ultimately have "inflight_ok t u ?r1" using ok True \<open>zs t u r \<noteq> []\<close> unfolding inflight_ok_def by simp
      from both_at_least [OF this _ assms] show ?thesis using True by simp
    next
      case False
      then show ?thesis using ok assms by (simp add: at_least_def other_user)
    qed
    then show ?thesis using res total by (simp add: inflight_step_def)
  qed
qed

section \<open>Runs\<close>

text \<open>
  A call to the cache by any process: its own clock, the clock of Redis and, for a failing call, whether it takes
  effect. The clock of Redis does not go back; the clocks of the processes are arbitrary.
\<close>

datatype inflight_call = I_Reserve int string rat rat int | I_Renew int string int | I_Release int string

record inflight_event =
  ie_call :: inflight_call
  ie_redis :: int
  ie_clock :: int
  ie_takes_effect :: bool

definition inflight_call_effect :: "int \<Rightarrow> int \<Rightarrow> inflight_call \<Rightarrow> inflight \<Rightarrow> inflight" where
  "inflight_call_effect rnow now c r = (case c of
     I_Reserve u rid amount balance ms \<Rightarrow> snd (reserve_inflight_balance rnow now u rid amount balance ms r)
   | I_Renew u rid ms \<Rightarrow> snd (renew_inflight_balance rnow now u rid ms r)
   | I_Release u rid \<Rightarrow> release_inflight_balance rnow u rid r)"

fun inflight_run :: "inflight_event list \<Rightarrow> int \<times> inflight \<Rightarrow> int \<times> inflight" where
  "inflight_run [] st = st"
| "inflight_run (ev # evs) (t, r) = (let t' = max t (ie_redis ev) in
     inflight_run evs (t', if ie_takes_effect ev then inflight_call_effect t' (ie_clock ev) (ie_call ev) r else r))"

text \<open>The reservations of a user are for positive amounts of at most \<open>M\<close>, with balances of at most \<open>M\<close>.\<close>

definition reserve_ok :: "int \<Rightarrow> rat \<Rightarrow> inflight_event \<Rightarrow> bool" where
  "reserve_ok u M ev = (case ie_call ev of
     I_Reserve v rid amount balance ms \<Rightarrow> 0 \<le> amount \<and> (v = u \<longrightarrow> amount \<le> M \<and> balance \<le> M) | _ \<Rightarrow> True)"

lemma call_step:
  "reserve_ok u M ev \<Longrightarrow> inflight_step t u M r (inflight_call_effect t (ie_clock ev) (ie_call ev) r)"
  by (cases "ie_call ev") (auto simp: reserve_ok_def inflight_call_effect_def reserve_inflight_balance_def
    renew_inflight_balance_def release_inflight_balance_def ttl_ms_def intro!: reserve_step renew_step release_step)

lemma run_ok:
  "list_all (reserve_ok u M) evs \<Longrightarrow> inflight_run evs (t, r) = (t', r') \<Longrightarrow> inflight_ok t u r \<Longrightarrow> inflight_total t u r \<le> M \<Longrightarrow>
    inflight_ok t' u r' \<and> inflight_total t' u r' \<le> M"
proof (induction evs arbitrary: t r)
  case (Cons ev evs)
  let ?t = "max t (ie_redis ev)"
  let ?r = "if ie_takes_effect ev then inflight_call_effect ?t (ie_clock ev) (ie_call ev) r else r"
  have "inflight_ok ?t u r \<and> inflight_total ?t u r \<le> M"
    using inflight_ok_later [OF Cons.prems(3), of ?t] Cons.prems(4) by auto
  then have "inflight_ok ?t u ?r \<and> inflight_total ?t u ?r \<le> M"
    using call_step [of u M ev ?t r] Cons.prems(1) by (auto simp: inflight_step_def)
  then show ?case using Cons.IH [of ?t ?r] Cons.prems(1,2) by (auto simp: Let_def)
qed auto

lemma empty_inflight: "inflight_ok t u empty_redis" "inflight_total t u empty_redis = 0"
  by (auto simp: inflight_ok_def inflight_total_def zs_def hs_def zset_at_def hash_at_def key_gone_def empty_redis_def one_kind_def)

text \<open>
  Claim C13. Whatever processes reserve, renew and release, in any order, with clocks that disagree and with
  calls that fail before or after they take effect: the set and the hash of a user name the same requests, and
  the amounts in flight of a user together are at most \<open>M\<close> when no reservation of the user asks for more than
  \<open>M\<close> or is checked against a balance above \<open>M\<close>.
\<close>

theorem inflight_bounded:
  assumes "inflight_run evs (t, empty_redis) = (t', r')" "list_all (reserve_ok u M) evs" "0 \<le> M"
  shows "fst ` set (zset_at t' (Inflight_Set u) r') = fst ` set (hash_at t' (Inflight_Amounts u) r') \<and>
    sum_list (map snd (hash_at t' (Inflight_Amounts u) r')) \<le> M"
proof -
  have "inflight_ok t' u r' \<and> inflight_total t' u r' \<le> M"
    by (rule run_ok [OF assms(2,1)]) (simp_all add: empty_inflight assms(3))
  then show ?thesis by (simp add: inflight_ok_def inflight_total_def zs_def hs_def)
qed

text \<open>
  A renewal succeeds exactly for a request whose reservation has not ended by the clock of the process; it
  keeps the amount. When the reservation has ended the request is removed and not revived.
\<close>

theorem renew_spec:
  assumes "inflight_ok t u r" "renew_inflight_balance t now u rid ms r = (alive, r')"
  shows "(alive \<longleftrightarrow> (\<exists>score. (rid, score) \<in> set (zset_at t (Inflight_Set u) r) \<and> now < score)) \<and>
    (alive \<longrightarrow> (rid, now + ttl_ms ms) \<in> set (zset_at t (Inflight_Set u) r') \<and>
       hash_at t (Inflight_Amounts u) r' = hash_at t (Inflight_Amounts u) r) \<and>
    (\<not> alive \<longrightarrow> rid \<notin> fst ` set (zset_at t (Inflight_Set u) r') \<and> rid \<notin> fst ` set (hash_at t (Inflight_Amounts u) r'))"
proof -
  have d: "distinct (map fst (zset_at t (Inflight_Set u) r))" using assms(1) by (simp add: inflight_ok_def zs_def)
  have m: "zscore t (Inflight_Set u) rid r = Some score \<longleftrightarrow> (rid, score) \<in> set (zset_at t (Inflight_Set u) r)" for score
    using d by (simp add: zscore_def)
  have ttl: "0 < ttl_ms ms" by (simp add: ttl_ms_def)
  show ?thesis
  proof (cases "zscore t (Inflight_Set u) rid r")
    case None
    then have "rid \<notin> fst ` set (zset_at t (Inflight_Set u) r)" by (simp add: zscore_def map_of_eq_None_iff)
    moreover from this have "rid \<notin> fst ` set (hash_at t (Inflight_Amounts u) r)"
      using assms(1) by (simp add: inflight_ok_def zs_def hs_def)
    ultimately show ?thesis using None assms(2)
      by (auto simp: renew_inflight_balance_def renew_inflight_balance_script_def image_iff)
  next
    case (Some score)
    have x: "(\<exists>s. (rid, s) \<in> set (zset_at t (Inflight_Set u) r) \<and> now < s) \<longleftrightarrow> now < score"
      using Some m by (metis option.inject)
    have y: "alive \<longleftrightarrow> now < score" "r' = (if now < score
        then at_least t (Inflight_Amounts u) (ttl_ms ms) (at_least t (Inflight_Set u) (ttl_ms ms) (zadd t (Inflight_Set u) (now + ttl_ms ms) rid r))
        else hdel t (Inflight_Amounts u) [rid] (zrem t (Inflight_Set u) rid r))"
      using Some assms(2) by (auto simp: renew_inflight_balance_def renew_inflight_balance_script_def split: if_splits)
    show ?thesis
    proof (cases "now < score")
      case True
      then show ?thesis using x y ttl by (auto simp: at_least_def zadd_def)
    next
      case False
      then show ?thesis using x y by (auto simp: hdel_def zrem_def)
    qed
  qed
qed

end
