(* ===== verification/Inflight_Reservation.thy ===== *)
theory Inflight_Reservation
  imports Inflight_Laws
begin

text \<open>
  The handle of a reservation, \<open>InflightReservation\<close> of \<open>internal/service/billing_inflight_reservation.go\<close>: the
  handler of a request and the billing tasks it starts share it by a counter of references, and the last one to
  finish releases the reservation. The goroutines take atomic steps in any order: \<open>refs\<close> is an atomic counter, and
  a goroutine whose decrement reaches zero calls \<open>Release\<close> in a later step. \<open>direct\<close> says that \<open>Release\<close> may also be
  called from outside, as the wrapper \<open>ReserveInflightBalance\<close> lets its caller do.
\<close>

record reservation =
  rv_refs :: int
  rv_tasks :: "bool list"
  rv_handler_done :: bool
  rv_releasing :: nat
  rv_released :: bool
  rv_redis_releases :: nat

text \<open>\<open>reserveInflight\<close> stores one reference, the one of the handler.\<close>

definition new_reservation :: reservation where
  "new_reservation = \<lparr>rv_refs = 1, rv_tasks = [], rv_handler_done = False, rv_releasing = 0, rv_released = False, rv_redis_releases = 0\<rparr>"

definition dec_ref :: "reservation \<Rightarrow> reservation" where
  "dec_ref r = (let n = rv_refs r - 1 in
     r\<lparr>rv_refs := n, rv_releasing := (if n \<le> 0 then Suc (rv_releasing r) else rv_releasing r)\<rparr>)"

text \<open>
  \<open>Acquire\<close>: the loop of load and compare-and-swap takes effect when the swap succeeds. A task is a flag, set
  until its \<open>done\<close> function has run once; \<open>None\<close> is the function that does nothing.
\<close>

definition acquire_ref :: "reservation \<Rightarrow> nat option \<times> reservation" where
  "acquire_ref r = (if rv_refs r \<le> 0 then (None, r)
     else (Some (length (rv_tasks r)), r\<lparr>rv_refs := rv_refs r + 1, rv_tasks := rv_tasks r @ [True]\<rparr>))"

definition task_done :: "nat \<Rightarrow> reservation \<Rightarrow> reservation" where
  "task_done i r = (if i < length (rv_tasks r) \<and> rv_tasks r ! i then dec_ref (r\<lparr>rv_tasks := (rv_tasks r)[i := False]\<rparr>) else r)"

definition handler_done :: "reservation \<Rightarrow> reservation" where
  "handler_done r = (if rv_handler_done r then r else dec_ref (r\<lparr>rv_handler_done := True\<rparr>))"

definition release :: "reservation \<Rightarrow> reservation" where
  "release r = (if rv_released r then r
     else r\<lparr>rv_released := True, rv_refs := 0, rv_redis_releases := Suc (rv_redis_releases r)\<rparr>)"

inductive reservation_step :: "bool \<Rightarrow> reservation \<Rightarrow> reservation \<Rightarrow> bool" for direct where
  step_acquire: "reservation_step direct r (snd (acquire_ref r))"
| step_task: "reservation_step direct r (task_done i r)"
| step_handler: "reservation_step direct r (handler_done r)"
| step_release: "0 < rv_releasing r \<Longrightarrow> reservation_step direct r (release (r\<lparr>rv_releasing := rv_releasing r - 1\<rparr>))"
| step_direct: "direct \<Longrightarrow> reservation_step direct r (release r)"

inductive reservation_reached :: "bool \<Rightarrow> reservation \<Rightarrow> bool" for direct where
  reached_new: "reservation_reached direct new_reservation"
| reached_step: "reservation_reached direct r \<Longrightarrow> reservation_step direct r r' \<Longrightarrow> reservation_reached direct r'"

inductive_cases reservation_stepE: "reservation_step direct r r'"

section \<open>The counter\<close>

text \<open>The references that are held: those of the tasks that run, and the one of the handler.\<close>

definition held_refs :: "reservation \<Rightarrow> int" where
  "held_refs r = int (length (filter id (rv_tasks r))) + (if rv_handler_done r then 0 else 1)"

lemma held_drop:
  "i < length bs \<Longrightarrow> bs ! i \<Longrightarrow> int (length (filter id (bs[i := False]))) = int (length (filter id bs)) - 1"
proof (induction bs arbitrary: i)
  case (Cons b bs)
  then show ?case by (cases i) auto
qed simp

text \<open>Until the release the counter is the number of references held; a goroutine releases only when there are none.\<close>

definition counter_ok :: "reservation \<Rightarrow> bool" where
  "counter_ok r \<longleftrightarrow> (\<not> rv_released r \<longrightarrow> rv_refs r = held_refs r \<and> (0 < rv_releasing r \<longleftrightarrow> held_refs r = 0)) \<and>
     (rv_released r \<longrightarrow> held_refs r = 0 \<and> rv_refs r = 0)"

lemma held_nonneg: "0 \<le> held_refs r"
  by (simp add: held_refs_def)

lemma counter_ok_step: "reservation_step False r r' \<Longrightarrow> counter_ok r \<Longrightarrow> counter_ok r'"
proof (erule reservation_stepE)
  fix i assume ok: "counter_ok r" and r': "r' = task_done i r"
  show "counter_ok r'"
  proof (cases "i < length (rv_tasks r) \<and> rv_tasks r ! i")
    case True
    let ?s = "r\<lparr>rv_tasks := (rv_tasks r)[i := False]\<rparr>"
    have h: "held_refs ?s = held_refs r - 1" using held_drop [of i "rv_tasks r"] True by (simp add: held_refs_def)
    have "True \<in> set (filter id (rv_tasks r))" using True nth_mem by fastforce
    then have "0 < length (filter id (rv_tasks r))" by (rule length_pos_if_in_set)
    then have "0 < held_refs r" by (simp add: held_refs_def)
    then show ?thesis using ok True h held_nonneg [of ?s] unfolding r' task_done_def dec_ref_def Let_def
      by (auto simp: counter_ok_def held_refs_def)
  next
    case False
    then have "r' = r" unfolding r' task_done_def by (rule if_not_P)
    then show ?thesis using ok by simp
  qed
qed (auto simp: counter_ok_def acquire_ref_def handler_done_def dec_ref_def release_def held_refs_def Let_def split: if_splits)

lemma counter_ok_reached: "reservation_reached False r \<Longrightarrow> counter_ok r"
proof (induction rule: reservation_reached.induct)
  case reached_new
  show ?case by (simp add: counter_ok_def new_reservation_def held_refs_def)
next
  case (reached_step r r')
  then show ?case using counter_ok_step by blast
qed

text \<open>
  Claim C14. In every order of the steps of the handler and its billing tasks the reservation is released only
  after the handler is done and every task that took a reference is done; and when all are done and no release
  is under way, it has been released.
\<close>

theorem reservation_released_last:
  assumes "reservation_reached False r"
  shows "(rv_released r \<longrightarrow> rv_handler_done r \<and> \<not> list_ex id (rv_tasks r)) \<and>
    (rv_handler_done r \<and> \<not> list_ex id (rv_tasks r) \<and> rv_releasing r = 0 \<longrightarrow> rv_released r)"
proof -
  have "held_refs r = 0 \<longleftrightarrow> rv_handler_done r \<and> \<not> list_ex id (rv_tasks r)"
    by (auto simp: held_refs_def list_ex_iff filter_empty_conv)
  then show ?thesis using counter_ok_reached [OF assms] by (auto simp: counter_ok_def)
qed

text \<open>
  The reservation is released in Redis at most once, also when the release is called from outside; after
  it no task gets a reference.
\<close>

theorem reservation_released_once:
  assumes "reservation_reached direct r"
  shows "rv_redis_releases r = (if rv_released r then 1 else 0) \<and> (rv_released r \<longrightarrow> fst (acquire_ref r) = None)"
proof -
  have "rv_redis_releases r = (if rv_released r then 1 else 0) \<and> (rv_released r \<longrightarrow> rv_refs r \<le> 0)" using assms
  proof (induction rule: reservation_reached.induct)
    case (reached_step r r')
    from reached_step.hyps(2) reached_step.IH show ?case
      by (auto elim!: reservation_stepE simp: acquire_ref_def task_done_def handler_done_def dec_ref_def release_def Let_def
          split: if_splits)
  qed (simp add: new_reservation_def)
  then show ?thesis by (simp add: acquire_ref_def)
qed

section \<open>Examples\<close>

text \<open>A task takes a reference, the handler ends, the task ends, and the reservation is released.\<close>

definition finished_reservation :: reservation where
  "finished_reservation = (let r = task_done 0 (handler_done (snd (acquire_ref new_reservation)))
     in release (r\<lparr>rv_releasing := rv_releasing r - 1\<rparr>))"

lemma finished_reached: "reservation_reached direct finished_reservation"
  unfolding finished_reservation_def Let_def
  by (rule reached_step [OF reached_step [OF reached_step [OF reached_step [OF reached_new step_acquire] step_handler] step_task] step_release])
    code_simp

theorem reservation_released_last_witness: "rv_handler_done finished_reservation \<and> \<not> list_ex id (rv_tasks finished_reservation)"
  using reservation_released_last [OF finished_reached] by code_simp

theorem reservation_released_once_witness: "rv_redis_releases finished_reservation = 1"
  using reservation_released_once [OF finished_reached [of True]] by code_simp

definition reserve_event :: "string \<Rightarrow> rat \<Rightarrow> inflight_event" where
  "reserve_event rid a = \<lparr>ie_call = I_Reserve 7 rid a 10 60000, ie_redis = 5000, ie_clock = 4000, ie_takes_effect = True\<rparr>"

definition three_requests :: "inflight_event list" where
  "three_requests = [reserve_event ''a'' 6, reserve_event ''b'' 5, reserve_event ''c'' 4]"

lemmas inflight_eval = inflight_call_effect_def reserve_inflight_balance_def reserve_inflight_balance_script_def drop_expired_def
  ttl_ms_def hset_def zadd_def hdel_def zremrangebyscore_def put_zset_def put_hash_def expire_def kept_deadline_def key_gone_def
  key_exists_def zset_at_def hash_at_def count_at_def zcard_def empty_redis_def

text \<open>Of three requests with a balance of 10 the second one, which does not fit, is refused.\<close>

theorem inflight_bounded_witness:
  "let (t, r) = inflight_run three_requests (0, empty_redis) in
    map fst (hash_at t (Inflight_Amounts 7) r) = [''c'', ''a''] \<and> sum_list (map snd (hash_at t (Inflight_Amounts 7) r)) \<le> 10"
proof -
  have "fst ` set (zset_at t (Inflight_Set 7) r) = fst ` set (hash_at t (Inflight_Amounts 7) r) \<and>
      sum_list (map snd (hash_at t (Inflight_Amounts 7) r)) \<le> 10" if "inflight_run three_requests (0, empty_redis) = (t, r)" for t r
    by (rule inflight_bounded [OF that]) (simp_all add: three_requests_def reserve_event_def reserve_ok_def)
  moreover have "map fst (hash_at t (Inflight_Amounts 7) r) = [''c'', ''a'']" if "inflight_run three_requests (0, empty_redis) = (t, r)" for t r
    using that by (auto simp: three_requests_def reserve_event_def Let_def inflight_eval)
  ultimately show ?thesis by (simp add: Let_def split: prod.splits)
qed

theorem renew_spec_witness:
  "let (alive, r) = renew_inflight_balance 5000 4000 7 ''a'' 60000 empty_redis in
    \<not> alive \<and> ''a'' \<notin> fst ` set (zset_at 5000 (Inflight_Set 7) r)"
proof -
  have "renew_inflight_balance 5000 4000 7 ''a'' 60000 empty_redis = (False, empty_redis)"
    by (simp add: renew_inflight_balance_def renew_inflight_balance_script_def zscore_def inflight_eval)
  from renew_spec [OF empty_inflight(1) this] this show ?thesis by simp
qed

end
