(* ===== verification/Refund_Store.thy ===== *)
theory Refund_Store
  imports Payment_Fulfillment
begin

text \<open>
  The tables a refund reads and writes and the calls it makes, for
  \<open>internal/service/payment_refund.go\<close>.

  The columns of an order that only refunds use are beside the order in \<open>refund_row\<close>. The audit log
  keeps the detail of an entry where a refund reads it back; the unique index on (order id, action)
  of migration 131 makes a second entry for the same order and action an error. Subscriptions have
  the dates that a refund shortens; a deleted one is out of the table. As in \<open>Payment_Store\<close> a call is one statement, one transaction
  that commits, or one request to a payment provider; it may be lost before its effect, or take
  effect while its answer is lost. Days are 24 hours, as in UTC.

  \<open>rd_moves\<close> is a history variable: what refunds took from (positive) and returned to (negative) the
  balance of a user for an order. No program reads it.
\<close>

section \<open>Tables\<close>

record refund_row =
  rr_order :: payment_order
  rr_refund_amount :: rat
  rr_refund_reason :: "string option"
  rr_refund_at :: "time option"
  rr_force :: bool
  rr_request_reason :: "string option"

datatype sub_status = Sub_Active | Sub_Expired | Sub_Other string

record subscription =
  ss_id :: int
  ss_user :: int
  ss_group :: "int option"
  ss_status :: sub_status
  ss_expires :: time

text \<open>The fields of the detail of \<open>REFUND_PENDING\<close> that are read back.\<close>

record refund_pending_audit_detail =
  pd_refund_id :: string
  pd_rollback_ok :: bool

record refund_audit =
  ra_order :: int
  ra_action :: string
  ra_detail :: "refund_pending_audit_detail option"
  ra_created :: time

record refund_db =
  rd_rows :: "refund_row list"
  rd_users :: "int \<Rightarrow> user_row option"
  rd_audit :: "refund_audit list"
  rd_instances :: "(provider_instance \<times> bool) list"
  rd_subs :: "subscription list"
  rd_moves :: "(int \<times> int \<times> rat) list"

section \<open>Plans and results\<close>

datatype deduction_type = Deduction_None | Deduction_Balance | Deduction_Subscription

record refund_plan =
  rp_order_id :: int
  rp_order :: refund_row
  rp_refund_amount :: rat
  rp_gateway_amount :: rat
  rp_reason :: string
  rp_force :: bool
  rp_deduct_balance :: bool
  rp_deduction_type :: deduction_type
  rp_balance_to_deduct :: rat
  rp_sub_days :: int
  rp_subscription_id :: int

record refund_result =
  rs_success :: bool
  rs_warning :: string
  rs_require_force :: bool
  rs_balance_deducted :: rat
  rs_sub_days_deducted :: int

record refund_response =
  rf_refund_id :: string
  rf_status :: string

section \<open>Calls, answers and choices\<close>

datatype refund_call =
    R_Now
  | R_Order int
  | R_Instances
  | R_User int
  | R_Active_Sub int "int option"
  | R_Claim int
  | R_Has_Audit int string
  | R_Audit int string "refund_pending_audit_detail option"
  | R_Pending_Audit int
  | R_Deduct_Covered int int rat
  | R_Deduct_Any int int rat
  | R_Update_Balance int int rat
  | R_Extend int int
  | R_Sub int
  | R_Sub_Delete int
  | R_Invalidate int int
  | R_Provider provider_instance
  | R_Gateway_Refund int string string string string
  | R_Gateway_Query int string string string string
  | R_Set_Status int order_status
  | R_Set_Failed int time string
  | R_Set_Refunded int order_status rat string time bool
  | R_Set_Pending int rat string bool
  | R_Finalize refund_plan

datatype refund_answer =
    RA_Unit
  | RA_Err
  | RA_Time time
  | RA_Row refund_row
  | RA_Instances "(provider_instance \<times> bool) list"
  | RA_Balance rat
  | RA_Sub subscription
  | RA_Count nat
  | RA_Bool bool
  | RA_Detail "refund_pending_audit_detail option"
  | RA_Would_Expire
  | RA_Conflict
  | RA_Provider string "(string \<times> string) list" bool
  | RA_Response "refund_response option" "go_error option"
  | RA_Done rat int

record refund_choice =
  fc_outcome :: call_outcome
  fc_now :: time
  fc_cached :: "subscription option"
  fc_provider :: "(string \<times> (string \<times> string) list \<times> bool) option"
  fc_response :: "refund_response option"
  fc_error :: "go_error option"

section \<open>Statements on orders\<close>

definition set_row :: "int \<Rightarrow> (refund_row \<Rightarrow> refund_row) \<Rightarrow> refund_db \<Rightarrow> refund_db" where
  "set_row oid f db = db\<lparr>rd_rows := map (\<lambda>r. if po_id (rr_order r) = oid then f r else r) (rd_rows db)\<rparr>"

definition set_status :: "order_status \<Rightarrow> time \<Rightarrow> refund_row \<Rightarrow> refund_row" where
  "set_status st clock r = r\<lparr>rr_order := (rr_order r)\<lparr>po_status := st, po_updated := clock\<rparr>\<rparr>"

definition row_of :: "int \<Rightarrow> refund_db \<Rightarrow> refund_row option" where
  "row_of oid db = find (\<lambda>r. po_id (rr_order r) = oid) (rd_rows db)"

abbreviation row_status :: "refund_row \<Rightarrow> order_status" where
  "row_status r \<equiv> po_status (rr_order r)"

definition status_of :: "int \<Rightarrow> refund_db \<Rightarrow> order_status option" where
  "status_of oid db = map_option row_status (row_of oid db)"

definition refundable :: "order_status \<Rightarrow> bool" where
  "refundable s \<longleftrightarrow> s \<in> {OS_Completed, OS_Refund_Requested, OS_Refund_Pending, OS_Refund_Failed}"

text \<open>\<open>UPDATE ... WHERE id = oid AND status IN (...)\<close>, with the number of rows; \<open>UpdateOneID\<close> fails on a missing row.\<close>

definition sql_claim :: "time \<Rightarrow> int \<Rightarrow> refund_db \<Rightarrow> refund_answer \<times> refund_db" where
  "sql_claim clock oid db = (case row_of oid db of
     Some r \<Rightarrow> if refundable (row_status r)
               then (RA_Count 1, set_row oid (set_status OS_Refunding clock) db)
               else (RA_Count 0, db)
   | None \<Rightarrow> (RA_Count 0, db))"

definition update_one :: "int \<Rightarrow> (refund_row \<Rightarrow> refund_row) \<Rightarrow> refund_db \<Rightarrow> refund_answer \<times> refund_db" where
  "update_one oid f db = (if row_of oid db = None then (RA_Err, db) else (RA_Unit, set_row oid f db))"

definition refunded_row :: "order_status \<Rightarrow> rat \<Rightarrow> string \<Rightarrow> time \<Rightarrow> bool \<Rightarrow> time \<Rightarrow> refund_row \<Rightarrow> refund_row" where
  "refunded_row fs amount reason now force clock r = (set_status fs clock r)
     \<lparr>rr_refund_amount := amount, rr_refund_reason := Some reason, rr_refund_at := Some now,
      rr_force := force\<rparr>"

definition pending_row :: "rat \<Rightarrow> string \<Rightarrow> bool \<Rightarrow> time \<Rightarrow> refund_row \<Rightarrow> refund_row" where
  "pending_row amount reason force clock r =
     r\<lparr>rr_order := (rr_order r)\<lparr>po_status := OS_Refund_Pending, po_failed_at := None,
          po_failed_reason := None, po_updated := clock\<rparr>,
       rr_refund_amount := amount, rr_refund_reason := Some reason, rr_refund_at := None,
       rr_force := force\<rparr>"

definition failed_row :: "time \<Rightarrow> string \<Rightarrow> time \<Rightarrow> refund_row \<Rightarrow> refund_row" where
  "failed_row now reason clock r =
     r\<lparr>rr_order := (rr_order r)\<lparr>po_status := OS_Refund_Failed, po_failed_at := Some now,
          po_failed_reason := Some (Other_Error reason None), po_updated := clock\<rparr>\<rparr>"

section \<open>Audit log\<close>

definition audited :: "int \<Rightarrow> string \<Rightarrow> refund_db \<Rightarrow> bool" where
  "audited oid action db \<longleftrightarrow> (\<exists>a \<in> set (rd_audit db). ra_order a = oid \<and> ra_action a = action)"

definition add_audit ::
  "time \<Rightarrow> int \<Rightarrow> string \<Rightarrow> refund_pending_audit_detail option \<Rightarrow> refund_db \<Rightarrow> refund_answer \<times> refund_db" where
  "add_audit clock oid action detail db = (if audited oid action db then (RA_Err, db)
     else (RA_Unit, db\<lparr>rd_audit := rd_audit db @
       [\<lparr>ra_order = oid, ra_action = action, ra_detail = detail, ra_created = clock\<rparr>]\<rparr>))"

text \<open>The newest entry \<open>REFUND_PENDING\<close> of an order (there is at most one).\<close>

definition newest_pending :: "int \<Rightarrow> refund_db \<Rightarrow> refund_pending_audit_detail option" where
  "newest_pending oid db =
     (case filter (\<lambda>a. ra_order a = oid \<and> ra_action a = ''REFUND_PENDING'') (rd_audit db) of
        [] \<Rightarrow> None
      | a # as \<Rightarrow> ra_detail (foldl (\<lambda>b c. if ra_created b < ra_created c then c else b) a as))"

section \<open>Balances\<close>

definition move_balance :: "int \<Rightarrow> int \<Rightarrow> rat \<Rightarrow> (user_row \<Rightarrow> user_row) \<Rightarrow> user_row \<Rightarrow> refund_db \<Rightarrow> refund_db" where
  "move_balance oid uid taken f u db = db\<lparr>rd_users := (rd_users db)(uid \<mapsto> f u),
     rd_moves := rd_moves db @ [(oid, uid, taken)]\<rparr>"

definition take_balance :: "rat \<Rightarrow> user_row \<Rightarrow> user_row" where
  "take_balance amount u = u\<lparr>us_balance := us_balance u - amount\<rparr>"

text \<open>The two statements of \<open>DeductBalance\<close> and the one of \<open>UpdateBalance\<close>.\<close>

definition sql_deduct_covered :: "int \<Rightarrow> int \<Rightarrow> rat \<Rightarrow> refund_db \<Rightarrow> refund_answer \<times> refund_db" where
  "sql_deduct_covered oid uid amount db = (case rd_users db uid of
     Some u \<Rightarrow> if amount \<le> us_balance u
               then (RA_Count 1, move_balance oid uid amount (take_balance amount) u db)
               else (RA_Count 0, db)
   | None \<Rightarrow> (RA_Count 0, db))"

definition sql_deduct_any :: "int \<Rightarrow> int \<Rightarrow> rat \<Rightarrow> refund_db \<Rightarrow> refund_answer \<times> refund_db" where
  "sql_deduct_any oid uid amount db = (case rd_users db uid of
     Some u \<Rightarrow> (RA_Count 1, move_balance oid uid amount (take_balance amount) u db)
   | None \<Rightarrow> (RA_Count 0, db))"

definition sql_update_balance :: "int \<Rightarrow> int \<Rightarrow> rat \<Rightarrow> refund_db \<Rightarrow> refund_answer \<times> refund_db" where
  "sql_update_balance oid uid amount db = (case rd_users db uid of
     Some u \<Rightarrow> (RA_Count 1, move_balance oid uid (- amount) (update_balance amount) u db)
   | None \<Rightarrow> (RA_Count 0, db))"

section \<open>Subscriptions\<close>

abbreviation day :: duration where "day \<equiv> 86400000000000"

definition max_validity_days :: int where "max_validity_days = 36500"
definition max_expires_at :: time where "max_expires_at = 66238041599 * second"

definition sub_by_id :: "int \<Rightarrow> refund_db \<Rightarrow> subscription option" where
  "sub_by_id sid db = find (\<lambda>s. ss_id s = sid) (rd_subs db)"

definition subscription_active_at :: "subscription \<Rightarrow> time \<Rightarrow> bool" where
  "subscription_active_at s now \<longleftrightarrow> ss_status s = Sub_Active \<and> now < ss_expires s"

definition set_sub :: "int \<Rightarrow> (subscription \<Rightarrow> subscription) \<Rightarrow> refund_db \<Rightarrow> refund_db" where
  "set_sub sid f db = db\<lparr>rd_subs := map (\<lambda>s. if ss_id s = sid then f s else s) (rd_subs db)\<rparr>"

datatype extend_result = Ext_Ok refund_db | Ext_Would_Expire | Ext_Err

definition extend_subscription :: "time \<Rightarrow> int \<Rightarrow> int \<Rightarrow> refund_db \<Rightarrow> extend_result" where
  "extend_subscription now sid days db =
     (let d = max (- max_validity_days) (min max_validity_days days) in
      case sub_by_id sid db of None \<Rightarrow> Ext_Err
      | Some s \<Rightarrow>
          let expired = (ss_expires s \<le> now) in
          if expired \<and> d < 0 then Ext_Err
          else let t = min max_expires_at ((if expired then now else ss_expires s) + d * day) in
               if t \<le> now then Ext_Would_Expire
               else Ext_Ok (set_sub sid (\<lambda>s. s\<lparr>ss_expires := t,
                      ss_status := (if ss_status s = Sub_Expired then Sub_Active else ss_status s)\<rparr>) db))"

definition delete_sub :: "int \<Rightarrow> refund_db \<Rightarrow> refund_db" where
  "delete_sub sid db = db\<lparr>rd_subs := filter (\<lambda>s. ss_id s \<noteq> sid) (rd_subs db)\<rparr>"

text \<open>
  \<open>GetActiveSubscription\<close> and \<open>GetActiveGenericSubscription\<close>: a copy that the process has cached and
  that is still active, or else the only row of the user for the group (\<open>None\<close> is \<open>GroupIDIsNil\<close>).
\<close>

definition get_active_subscription ::
  "refund_choice \<Rightarrow> int \<Rightarrow> int option \<Rightarrow> refund_db \<Rightarrow> refund_answer" where
  "get_active_subscription e uid gid db = (let now = fc_now e in
     if (case fc_cached e of None \<Rightarrow> False
         | Some s \<Rightarrow> ss_user s = uid \<and> ss_group s = gid \<and> subscription_active_at s now)
     then RA_Sub (the (fc_cached e))
     else case filter (\<lambda>s. ss_user s = uid \<and> ss_group s = gid) (rd_subs db) of
         [s] \<Rightarrow> if subscription_active_at s now then RA_Sub s else RA_Err
       | _ \<Rightarrow> RA_Err)"

section \<open>The transaction that finalizes a pending refund\<close>

definition pending_refund_balance_deduction_amount :: "rat \<Rightarrow> rat \<Rightarrow> rat" where
  "pending_refund_balance_deduction_amount refund_amount current = max 0 (min refund_amount current)"

text \<open>Errors of the transaction are \<open>None\<close>; the plan is returned with the amount that was taken.\<close>

definition apply_refund_final_deduction ::
  "time \<Rightarrow> refund_plan \<Rightarrow> refund_db \<Rightarrow> (refund_plan \<times> refund_db) option" where
  "apply_refund_final_deduction now p db =
     (if rp_deduction_type p = Deduction_Balance \<and> 0 < rp_balance_to_deduct p then
        (let uid = po_user (rr_order (rp_order p)) in
         case rd_users db uid of None \<Rightarrow> None
         | Some u \<Rightarrow>
             let amount = pending_refund_balance_deduction_amount (rp_refund_amount p) (us_balance u)
             in Some (p\<lparr>rp_balance_to_deduct := amount\<rparr>, if amount = 0 then db
                  else move_balance (rp_order_id p) uid amount (take_balance amount) u db))
      else if rp_deduction_type p = Deduction_Subscription \<and> 0 < rp_sub_days p \<and> 0 < rp_subscription_id p then
        (case extend_subscription now (rp_subscription_id p) (- rp_sub_days p) db of
           Ext_Ok db1 \<Rightarrow> Some (p, db1)
         | Ext_Would_Expire \<Rightarrow>
             if sub_by_id (rp_subscription_id p) db = None then None
             else Some (p, delete_sub (rp_subscription_id p) db)
         | Ext_Err \<Rightarrow> None)
      else Some (p, db))"

definition refunded_status :: "refund_plan \<Rightarrow> order_status" where
  "refunded_status p = (if rp_refund_amount p < po_amount (rr_order (rp_order p))
     then OS_Partially_Refunded else OS_Refunded)"

definition mark_refund_ok_tx ::
  "time \<Rightarrow> refund_plan \<Rightarrow> refund_db \<Rightarrow> refund_answer \<times> refund_db" where
  "mark_refund_ok_tx now p db =
     (case update_one (rp_order_id p) (refunded_row (refunded_status p) (rp_refund_amount p)
             (rp_reason p) now (rp_force p) now) db of
        (RA_Unit, db1) \<Rightarrow> (case add_audit now (rp_order_id p) ''REFUND_SUCCESS'' None db1 of
            (RA_Unit, db2) \<Rightarrow> (RA_Done (rp_balance_to_deduct p) (rp_sub_days p), db2)
          | _ \<Rightarrow> (RA_Err, db))
      | _ \<Rightarrow> (RA_Err, db))"

definition finalize_pending_refund_success ::
  "time \<Rightarrow> refund_plan \<Rightarrow> refund_db \<Rightarrow> refund_answer \<times> refund_db" where
  "finalize_pending_refund_success now p db =
     (if status_of (rp_order_id p) db \<noteq> Some OS_Refund_Pending then (RA_Conflict, db)
      else case apply_refund_final_deduction now p
             (set_row (rp_order_id p) (set_status OS_Refunding now) db) of
          None \<Rightarrow> (RA_Err, db)
        | Some (p1, db1) \<Rightarrow> (case mark_refund_ok_tx now p1 db1 of
              (RA_Done b d, db2) \<Rightarrow> (RA_Done b d, db2)
            | _ \<Rightarrow> (RA_Err, db)))"

section \<open>All calls\<close>

fun refund_stmt :: "refund_choice \<Rightarrow> refund_call \<Rightarrow> refund_db \<Rightarrow> refund_answer \<times> refund_db" where
  "refund_stmt e R_Now db = (RA_Time (fc_now e), db)"
| "refund_stmt e (R_Order oid) db =
     (case row_of oid db of None \<Rightarrow> RA_Err | Some r \<Rightarrow> RA_Row r, db)"
| "refund_stmt e R_Instances db = (RA_Instances (rd_instances db), db)"
| "refund_stmt e (R_User uid) db =
     (case rd_users db uid of None \<Rightarrow> RA_Err | Some u \<Rightarrow> RA_Balance (us_balance u), db)"
| "refund_stmt e (R_Active_Sub uid gid) db = (get_active_subscription e uid gid db, db)"
| "refund_stmt e (R_Claim oid) db = sql_claim (fc_now e) oid db"
| "refund_stmt e (R_Has_Audit oid action) db = (RA_Bool (audited oid action db), db)"
| "refund_stmt e (R_Audit oid action detail) db = add_audit (fc_now e) oid action detail db"
| "refund_stmt e (R_Pending_Audit oid) db = (RA_Detail (newest_pending oid db), db)"
| "refund_stmt e (R_Deduct_Covered oid uid amount) db = sql_deduct_covered oid uid amount db"
| "refund_stmt e (R_Deduct_Any oid uid amount) db = sql_deduct_any oid uid amount db"
| "refund_stmt e (R_Update_Balance oid uid amount) db = sql_update_balance oid uid amount db"
| "refund_stmt e (R_Extend sid days) db = (case extend_subscription (fc_now e) sid days db of
     Ext_Ok db1 \<Rightarrow> (RA_Unit, db1) | Ext_Would_Expire \<Rightarrow> (RA_Would_Expire, db) | Ext_Err \<Rightarrow> (RA_Err, db))"
| "refund_stmt e (R_Sub sid) db =
     (case sub_by_id sid db of None \<Rightarrow> RA_Err | Some s \<Rightarrow> RA_Sub s, db)"
| "refund_stmt e (R_Sub_Delete sid) db = (RA_Unit, delete_sub sid db)"
| "refund_stmt e (R_Invalidate uid gid) db = (RA_Unit, db)"
| "refund_stmt e (R_Provider inst) db =
     (case fc_provider e of None \<Rightarrow> RA_Err | Some (k, m, q) \<Rightarrow> RA_Provider k m q, db)"
| "refund_stmt e (R_Gateway_Refund oid trade_no out_no amount reason) db =
     (RA_Response (fc_response e) (fc_error e), db)"
| "refund_stmt e (R_Gateway_Query oid trade_no out_no refund_id amount) db =
     (RA_Response (fc_response e) (fc_error e), db)"
| "refund_stmt e (R_Set_Status oid st) db = update_one oid (set_status st (fc_now e)) db"
| "refund_stmt e (R_Set_Failed oid now reason) db = update_one oid (failed_row now reason (fc_now e)) db"
| "refund_stmt e (R_Set_Refunded oid fs amount reason now force) db =
     update_one oid (refunded_row fs amount reason now force (fc_now e)) db"
| "refund_stmt e (R_Set_Pending oid amount reason force) db =
     update_one oid (pending_row amount reason force (fc_now e)) db"
| "refund_stmt e (R_Finalize p) db = finalize_pending_refund_success (fc_now e) p db"

definition refund_exec :: "refund_choice \<Rightarrow> refund_call \<Rightarrow> refund_db \<Rightarrow> refund_answer \<times> refund_db" where
  "refund_exec e c db = (case c of R_Now \<Rightarrow> refund_stmt e R_Now db
   | _ \<Rightarrow> (case fc_outcome e of Done \<Rightarrow> refund_stmt e c db
     | Lost_Before \<Rightarrow> (RA_Err, db)
     | Lost_After \<Rightarrow> (RA_Err, snd (refund_stmt e c db))))"

end
