(* ===== verification/Refund.thy ===== *)
theory Refund
  imports Refund_Store
begin

text \<open>
  The operations of \<open>internal/service/payment_refund.go\<close> as programs over the calls of
  \<open>Refund_Store\<close>: \<open>PrepareRefund\<close> and \<open>ExecuteRefund\<close>, which the handler \<open>ProcessRefund\<close> runs one after
  the other, and \<open>QueryAndFinalizeRefund\<close>.

  \<open>refund_service\<close> holds the texts of errors and amounts, which package \<open>fmt\<close> and package \<open>decimal\<close>
  produce. Log lines, and the cache invalidations that cannot fail or whose failure is only logged,
  are left out. Answers of a kind that a call never gives are treated as its error.
\<close>

type_synonym 'r refund = "(refund_call, refund_answer, 'r) prog"

record refund_service =
  rv_error_text :: "go_error \<Rightarrow> string"
  rv_format_amount :: "rat \<Rightarrow> string \<Rightarrow> string"
  rv_default_reason :: "int \<Rightarrow> string"

definition ps_err_msg :: "refund_service \<Rightarrow> go_error option \<Rightarrow> string" where
  "ps_err_msg sv g = (case g of None \<Rightarrow> '''' | Some x \<Rightarrow> rv_error_text sv x)"

section \<open>Amounts\<close>

definition calculate_gateway_refund_amount :: "rat \<Rightarrow> rat \<Rightarrow> rat \<Rightarrow> string \<Rightarrow> rat" where
  "calculate_gateway_refund_amount order_amount pay_amount refund_amount currency =
     (if order_amount \<le> 0 \<or> pay_amount \<le> 0 \<or> refund_amount \<le> 0 then 0
      else let digits = currency_max_fraction_digits currency in
        if \<bar>refund_amount - order_amount\<bar> \<le> payment_amount_tolerance_for_currency currency
        then fixed pay_amount digits
        else fixed (fixed (pay_amount * refund_amount / order_amount) 16) digits)"

definition format_gateway_refund_amount :: "refund_service \<Rightarrow> rat \<Rightarrow> refund_row \<Rightarrow> string" where
  "format_gateway_refund_amount sv amount r =
     rv_format_amount sv amount (payment_order_currency (rr_order r))"

section \<open>The provider instance of a refund\<close>

definition get_refund_order_provider_instance ::
  "provider_instance list \<Rightarrow> payment_order \<Rightarrow> go_error + provider_instance option" where
  "get_refund_order_provider_instance insts ord =
     (case ps_order_provider_snapshot ord of
        Some sn \<Rightarrow> map_sum id Some (resolve_snapshot_order_provider_instance insts ord sn)
      | None \<Rightarrow> let s = trim_space (ps_string_value (po_provider_instance ord)) in
          if s = [] then Inr None
          else case atoi s of None \<Rightarrow> Inl err_instance
          | Some n \<Rightarrow> (case find (\<lambda>i. pi_id i = n) insts of
              None \<Rightarrow> Inl err_instance | Some inst \<Rightarrow> Inr (Some inst)))"

definition refund_instance :: "refund_row \<Rightarrow> (go_error + (provider_instance \<times> bool) option) refund" where
  "refund_instance r = Call R_Instances (\<lambda>a. Ret (case a of
     RA_Instances xs \<Rightarrow> map_sum id (map_option (\<lambda>i. (i, list_ex (\<lambda>x. pi_id (fst x) = pi_id i \<and> snd x) xs)))
       (get_refund_order_provider_instance (map fst xs) (rr_order r))
   | _ \<Rightarrow> Inl (err_db ''provider instance'')))"

definition get_refund_provider ::
  "refund_row \<Rightarrow> (go_error + string \<times> (string \<times> string) list \<times> bool) refund" where
  "get_refund_provider r = bind_prog (refund_instance r) (\<lambda>i. case i of
     Inl e \<Rightarrow> Ret (Inl e)
   | Inr None \<Rightarrow> Ret (Inl (err_db ''refund provider instance is unavailable''))
   | Inr (Some (inst, _)) \<Rightarrow> Call (R_Provider inst) (\<lambda>a. Ret (case a of
         RA_Provider k m q \<Rightarrow> Inr (k, m, q) | _ \<Rightarrow> Inl (err_db ''create provider from instance''))))"

section \<open>Preparing\<close>

definition failed_result :: "string \<Rightarrow> bool \<Rightarrow> refund_result" where
  "failed_result warning require_force = \<lparr>rs_success = False, rs_warning = warning,
     rs_require_force = require_force, rs_balance_deducted = 0, rs_sub_days_deducted = 0\<rparr>"

text \<open>The result is the changed plan, or the early answer of the request.\<close>

definition prep_deduct :: "refund_row \<Rightarrow> refund_plan \<Rightarrow> bool \<Rightarrow> (refund_result + refund_plan) refund" where
  "prep_deduct r p force = (let ord = rr_order r in
     if po_order_type ord = ''subscription'' then
       (let p = p\<lparr>rp_deduction_type := Deduction_Subscription\<rparr> in
        case po_days ord of None \<Rightarrow> Ret (Inr p)
        | Some d \<Rightarrow>
          (let p = p\<lparr>rp_sub_days := d\<rparr>;
               found = (\<lambda>a. Ret (case a of
                   RA_Sub s \<Rightarrow> Inr (p\<lparr>rp_subscription_id := ss_id s\<rparr>)
                 | _ \<Rightarrow> if force then Inr p
                        else Inl (failed_result ''cannot find active subscription for deduction, use force'' True)))
           in case po_group ord of
                Some g \<Rightarrow> Call (R_Active_Sub (po_user ord) (Some g)) found
              | None \<Rightarrow> (case po_plan ord of
                  Some _ \<Rightarrow> Call (R_Active_Sub (po_user ord) None) found
                | None \<Rightarrow> found RA_Err)))
     else Call (R_User (po_user ord)) (\<lambda>a. Ret (case a of
         RA_Balance b \<Rightarrow> Inr (p\<lparr>rp_deduction_type := Deduction_Balance,
           rp_balance_to_deduct := min (rp_refund_amount p) b\<rparr>)
       | _ \<Rightarrow> if force then Inr p
              else Inl (failed_result ''cannot fetch user balance, use force'' True))))"

definition refund_reason :: "refund_service \<Rightarrow> string \<Rightarrow> refund_row \<Rightarrow> string" where
  "refund_reason sv reason r = (let rr = trim_space reason;
     rr = (if rr = [] then (case rr_request_reason r of None \<Rightarrow> rr | Some q \<Rightarrow> q) else rr)
   in if rr = [] then rv_default_reason sv (po_id (rr_order r)) else rr)"

definition plan_amount :: "refund_row \<Rightarrow> float64 \<Rightarrow> go_error + rat" where
  "plan_amount r amt = (case amt of
     Fin x \<Rightarrow> (let ord = rr_order r; a = (if x \<le> 0 then po_amount ord else x) in
       if payment_amount_tolerance_for_currency (payment_order_currency ord) < a - po_amount ord
       then Inl (bad_request ''REFUND_AMOUNT_EXCEEDED'' ''refund amount exceeds recharge'')
       else Inr a)
   | _ \<Rightarrow> Inl (bad_request ''INVALID_AMOUNT'' ''invalid refund amount''))"

definition make_plan :: "refund_service \<Rightarrow> refund_row \<Rightarrow> rat \<Rightarrow> string \<Rightarrow> bool \<Rightarrow> bool \<Rightarrow> refund_plan" where
  "make_plan sv r amt reason force deduct = (let ord = rr_order r in
     \<lparr>rp_order_id = po_id ord, rp_order = r, rp_refund_amount = amt,
      rp_gateway_amount = calculate_gateway_refund_amount (po_amount ord) (po_pay_amount ord) amt
        (payment_order_currency ord),
      rp_reason = refund_reason sv reason r, rp_force = force, rp_deduct_balance = deduct,
      rp_deduction_type = Deduction_None, rp_balance_to_deduct = 0, rp_sub_days = 0,
      rp_subscription_id = 0\<rparr>)"

datatype prepared = Prep_Error go_error | Prep_Early refund_result | Prep_Plan refund_plan

definition prepare_refund ::
  "refund_service \<Rightarrow> int \<Rightarrow> float64 \<Rightarrow> string \<Rightarrow> bool \<Rightarrow> bool \<Rightarrow> prepared refund" where
  "prepare_refund sv oid amt reason force deduct = Call (R_Order oid) (\<lambda>a. case a of
     RA_Row r \<Rightarrow>
       if \<not> refundable (row_status r)
       then Ret (Prep_Error (invalid_status ''order status does not allow refund''))
       else bind_prog (refund_instance r) (\<lambda>i. case i of
           Inl _ \<Rightarrow> Ret (Prep_Error (internal_server ''PROVIDER_LOOKUP_FAILED''
             ''failed to look up payment provider for this order''))
         | Inr None \<Rightarrow> Ret (Prep_Error (forbidden_error ''REFUND_DISABLED''
             ''refund is not available for this order''))
         | Inr (Some (_, enabled)) \<Rightarrow>
             if \<not> enabled then Ret (Prep_Error (forbidden_error ''REFUND_DISABLED''
               ''refund is not enabled for this provider''))
             else (case plan_amount r amt of
                 Inl e \<Rightarrow> Ret (Prep_Error e)
               | Inr x \<Rightarrow> (let p = make_plan sv r x reason force deduct in
                   if \<not> deduct then Ret (Prep_Plan p)
                   else bind_prog (prep_deduct r p force) (\<lambda>d. Ret (case d of
                       Inl early \<Rightarrow> Prep_Early early | Inr p1 \<Rightarrow> Prep_Plan p1)))))
   | _ \<Rightarrow> Ret (Prep_Error err_order_missing))"

section \<open>Executing\<close>

definition refund_audit_log ::
  "int \<Rightarrow> string \<Rightarrow> refund_pending_audit_detail option \<Rightarrow> unit refund" where
  "refund_audit_log oid action detail = Call (R_Audit oid action detail) (\<lambda>_. Ret ())"

definition refund_has_audit_log :: "int \<Rightarrow> string \<Rightarrow> bool refund" where
  "refund_has_audit_log oid action = Call (R_Has_Audit oid action)
     (\<lambda>a. Ret (case a of RA_Bool b \<Rightarrow> b | _ \<Rightarrow> False))"

definition restore_status :: "refund_plan \<Rightarrow> unit refund" where
  "restore_status p = Call (R_Set_Status (rp_order_id p)
     (if row_status (rp_order p) = OS_Refund_Requested then OS_Refund_Requested else OS_Completed))
     (\<lambda>_. Ret ())"

definition deduct_balance :: "int \<Rightarrow> int \<Rightarrow> rat \<Rightarrow> go_error option refund" where
  "deduct_balance oid uid amount = Call (R_Deduct_Covered oid uid amount) (\<lambda>a. case a of
     RA_Count n \<Rightarrow> if 0 < n then Ret None
       else Call (R_Deduct_Any oid uid amount) (\<lambda>b. Ret (case b of
           RA_Count m \<Rightarrow> if m = 0 then Some (not_found_error ''USER_NOT_FOUND'' ''user not found'') else None
         | _ \<Rightarrow> Some (err_db ''update user'')))
   | _ \<Rightarrow> Ret (Some (err_db ''update user'')))"

definition revoke_subscription :: "int \<Rightarrow> go_error option refund" where
  "revoke_subscription sid = Call (R_Sub sid) (\<lambda>a. case a of
     RA_Sub s \<Rightarrow> Call (R_Sub_Delete sid) (\<lambda>b. case b of
         RA_Unit \<Rightarrow> Call (R_Invalidate (ss_user s) (case ss_group s of Some g \<Rightarrow> if g \<le> 0 then 0 else g | None \<Rightarrow> 0))
           (\<lambda>c. Ret (case c of RA_Unit \<Rightarrow> None | _ \<Rightarrow> Some (err_db ''invalidate billing subscription cache'')))
       | _ \<Rightarrow> Ret (Some (err_db ''delete subscription'')))
   | _ \<Rightarrow> Ret (Some (not_found_error ''SUBSCRIPTION_NOT_FOUND'' ''subscription not found'')))"

text \<open>The two deductions of \<open>ExecuteRefund\<close>: an error ends the refund, the plan goes on changed.\<close>

definition take_from_balance :: "refund_plan \<Rightarrow> (go_error + refund_plan) refund" where
  "take_from_balance p =
     (if rp_deduction_type p = Deduction_Balance \<and> 0 < rp_balance_to_deduct p then
        bind_prog (refund_has_audit_log (rp_order_id p) ''REFUND_ROLLBACK_FAILED'') (\<lambda>failed.
          if failed then Ret (Inr (p\<lparr>rp_balance_to_deduct := 0\<rparr>))
          else bind_prog (deduct_balance (rp_order_id p) (po_user (rr_order (rp_order p)))
                 (rp_balance_to_deduct p)) (\<lambda>e. case e of
              None \<Rightarrow> Ret (Inr p)
            | Some g \<Rightarrow> bind_prog (restore_status p) (\<lambda>_. Ret (Inl (Other_Error ''deduction'' (Some g))))))
      else Ret (Inr p))"

definition take_from_subscription :: "refund_plan \<Rightarrow> (go_error + refund_plan) refund" where
  "take_from_subscription p =
     (if rp_deduction_type p = Deduction_Subscription \<and> 0 < rp_sub_days p \<and> 0 < rp_subscription_id p then
        bind_prog (refund_has_audit_log (rp_order_id p) ''REFUND_ROLLBACK_FAILED'') (\<lambda>failed.
          if failed then Ret (Inr (p\<lparr>rp_sub_days := 0\<rparr>))
          else Call (R_Extend (rp_subscription_id p) (- rp_sub_days p)) (\<lambda>a. case a of
              RA_Unit \<Rightarrow> Ret (Inr p)
            | RA_Would_Expire \<Rightarrow> bind_prog (revoke_subscription (rp_subscription_id p)) (\<lambda>e. case e of
                  None \<Rightarrow> Ret (Inr p)
                | Some g \<Rightarrow> bind_prog (restore_status p)
                    (\<lambda>_. Ret (Inl (Other_Error ''revoke subscription'' (Some g)))))
            | _ \<Rightarrow> bind_prog (restore_status p)
                (\<lambda>_. Ret (Inl (Other_Error ''deduct subscription days'' None)))))
      else Ret (Inr p))"

definition refund_status :: "refund_response \<Rightarrow> string" where
  "refund_status resp = trim_space (rf_status resp)"

definition validate_refund_provider_response :: "refund_response option \<Rightarrow> go_error option" where
  "validate_refund_provider_response resp = (case resp of
     None \<Rightarrow> Some (err_db ''payment refund response missing'')
   | Some x \<Rightarrow> if refund_status x \<in> {''success'', ''refunded'', ''pending''} then None
       else if refund_status x = ''failed'' then Some (err_db ''payment refund failed'')
       else Some (err_db ''payment refund returned unknown status''))"

definition gw_refund :: "refund_service \<Rightarrow> refund_plan \<Rightarrow> (go_error + refund_response) refund" where
  "gw_refund sv p = (let ord = rr_order (rp_order p) in
     if po_trade_no ord = [] then
       bind_prog (refund_audit_log (po_id ord) ''REFUND_NO_TRADE_NO'' None)
         (\<lambda>_. Ret (Inr \<lparr>rf_refund_id = '''', rf_status = ''success''\<rparr>))
     else bind_prog (get_refund_provider (rp_order p)) (\<lambda>prov. case prov of
         Inl e \<Rightarrow> Ret (Inl (Other_Error ''get refund provider'' (Some e)))
       | Inr (key, metadata, _) \<Rightarrow>
           (case validate_provider_snapshot_metadata ord key metadata of
              Some e \<Rightarrow> bind_prog (refund_audit_log (po_id ord) ''REFUND_PROVIDER_METADATA_MISMATCH'' None)
                (\<lambda>_. Ret (Inl e))
            | None \<Rightarrow> Call (R_Gateway_Refund (po_id ord) (po_trade_no ord) (po_out_trade_no ord)
                  (format_gateway_refund_amount sv (rp_gateway_amount p) (rp_order p)) (rp_reason p))
                (\<lambda>a. Ret (case a of
                   RA_Response resp (Some g) \<Rightarrow> (case resp of
                       Some x \<Rightarrow> if refund_status x = ''pending'' then Inr x else Inl g
                     | None \<Rightarrow> Inl g)
                 | RA_Response resp None \<Rightarrow> (case validate_refund_provider_response resp of
                       Some g \<Rightarrow> Inl g | None \<Rightarrow> Inr (the resp))
                 | _ \<Rightarrow> Inl (err_db ''refund''))))))"

text \<open>\<open>RollbackRefund\<close>: whether what was deducted is back.\<close>

definition rollback_refund :: "refund_plan \<Rightarrow> bool refund" where
  "rollback_refund p =
     (let failed = (\<lambda>_. bind_prog (refund_audit_log (rp_order_id p) ''REFUND_ROLLBACK_FAILED'' None) (\<lambda>_. Ret False))
      in if rp_deduction_type p = Deduction_Balance \<and> 0 < rp_balance_to_deduct p then
           Call (R_Update_Balance (rp_order_id p) (po_user (rr_order (rp_order p))) (rp_balance_to_deduct p))
             (\<lambda>a. case a of RA_Count n \<Rightarrow> if n = 0 then failed () else Ret True | _ \<Rightarrow> failed ())
         else if rp_deduction_type p = Deduction_Subscription \<and> 0 < rp_sub_days p \<and> 0 < rp_subscription_id p then
           Call (R_Extend (rp_subscription_id p) (rp_sub_days p))
             (\<lambda>a. case a of RA_Unit \<Rightarrow> Ret True | _ \<Rightarrow> failed ())
         else Ret True)"

definition handle_gw_fail :: "refund_service \<Rightarrow> refund_plan \<Rightarrow> go_error \<Rightarrow> (go_error + refund_result) refund" where
  "handle_gw_fail sv p g = (let msg = ps_err_msg sv (Some g) in
     bind_prog (rollback_refund p) (\<lambda>ok.
       if ok then bind_prog (restore_status p) (\<lambda>_.
         bind_prog (refund_audit_log (rp_order_id p) ''REFUND_GATEWAY_FAILED'' None) (\<lambda>_.
           Ret (Inr (failed_result (''gateway failed: '' @ msg @ '', rolled back'') False))))
       else Call R_Now (\<lambda>t. case t of RA_Time now \<Rightarrow>
           Call (R_Set_Failed (rp_order_id p) now msg) (\<lambda>_.
             bind_prog (refund_audit_log (rp_order_id p) ''REFUND_FAILED'' None) (\<lambda>_.
               Ret (Inl (internal_server ''REFUND_FAILED'' msg))))
         | _ \<Rightarrow> Ret (Inl (err_db ''clock'')))))"

definition mark_refund_ok :: "refund_plan \<Rightarrow> (go_error + refund_result) refund" where
  "mark_refund_ok p = Call R_Now (\<lambda>t. case t of RA_Time now \<Rightarrow>
       Call (R_Set_Refunded (rp_order_id p) (refunded_status p) (rp_refund_amount p) (rp_reason p) now
           (rp_force p)) (\<lambda>a. case a of
         RA_Unit \<Rightarrow> bind_prog (refund_audit_log (rp_order_id p) ''REFUND_SUCCESS'' None) (\<lambda>_.
           Ret (Inr \<lparr>rs_success = True, rs_warning = '''', rs_require_force = False,
             rs_balance_deducted = rp_balance_to_deduct p, rs_sub_days_deducted = rp_sub_days p\<rparr>))
       | _ \<Rightarrow> Ret (Inl (err_db ''mark refund'')))
     | _ \<Rightarrow> Ret (Inl (err_db ''clock'')))"

definition mark_refund_pending :: "refund_plan \<Rightarrow> refund_response \<Rightarrow> (go_error + refund_result) refund" where
  "mark_refund_pending p resp = bind_prog (rollback_refund p) (\<lambda>ok.
     Call (R_Set_Pending (rp_order_id p) (rp_refund_amount p) (rp_reason p) (rp_force p)) (\<lambda>a. case a of
         RA_Unit \<Rightarrow> bind_prog (refund_audit_log (rp_order_id p) ''REFUND_PENDING''
             (Some \<lparr>pd_refund_id = trim_space (rf_refund_id resp), pd_rollback_ok = ok\<rparr>)) (\<lambda>_.
           Ret (Inr (failed_result (''gateway refund is pending confirmation'' @
             (if ok then '''' else ''; refund deduction rollback failed'')) False)))
       | _ \<Rightarrow> Ret (Inl (err_db ''mark refund pending''))))"

definition finish_refund ::
  "refund_service \<Rightarrow> refund_plan \<Rightarrow> refund_response \<Rightarrow> (go_error + refund_result) refund" where
  "finish_refund sv p resp = (case validate_refund_provider_response (Some resp) of
     Some g \<Rightarrow> handle_gw_fail sv p g
   | None \<Rightarrow> if refund_status resp = ''pending'' then mark_refund_pending p resp
             else mark_refund_ok p)"

definition execute_refund :: "refund_service \<Rightarrow> refund_plan \<Rightarrow> (go_error + refund_result) refund" where
  "execute_refund sv p = Call (R_Claim (rp_order_id p)) (\<lambda>a. case a of
     RA_Count n \<Rightarrow> if n = 0 then Ret (Inl (pay_conflict ''order status changed''))
       else bind_prog (take_from_balance p) (\<lambda>r1. case r1 of
           Inl e \<Rightarrow> Ret (Inl e)
         | Inr p1 \<Rightarrow> bind_prog (take_from_subscription p1) (\<lambda>r2. case r2 of
             Inl e \<Rightarrow> Ret (Inl e)
           | Inr p2 \<Rightarrow> bind_prog (gw_refund sv p2) (\<lambda>g. case g of
               Inl e \<Rightarrow> handle_gw_fail sv p2 e
             | Inr resp \<Rightarrow> finish_refund sv p2 resp)))
   | _ \<Rightarrow> Ret (Inl (err_db ''lock'')))"

text \<open>The handler: both steps of a refund.\<close>

definition process_refund ::
  "refund_service \<Rightarrow> int \<Rightarrow> float64 \<Rightarrow> string \<Rightarrow> bool \<Rightarrow> bool \<Rightarrow> (go_error + refund_result) refund" where
  "process_refund sv oid amt reason force deduct =
     bind_prog (prepare_refund sv oid amt reason force deduct) (\<lambda>r. case r of
       Prep_Error e \<Rightarrow> Ret (Inl e)
     | Prep_Early res \<Rightarrow> Ret (Inr res)
     | Prep_Plan p \<Rightarrow> execute_refund sv p)"

section \<open>Finalizing a pending refund\<close>

definition latest_refund_pending_detail :: "int \<Rightarrow> refund_pending_audit_detail refund" where
  "latest_refund_pending_detail oid = Call (R_Pending_Audit oid) (\<lambda>a. Ret (case a of
     RA_Detail (Some d) \<Rightarrow> d\<lparr>pd_refund_id := trim_space (pd_refund_id d)\<rparr>
   | _ \<Rightarrow> \<lparr>pd_refund_id = '''', pd_rollback_ok = True\<rparr>))"

definition refund_finalize_plan :: "refund_service \<Rightarrow> refund_row \<Rightarrow> refund_plan" where
  "refund_finalize_plan sv r = (let ord = rr_order r;
     reason = trim_space (ps_string_value (rr_refund_reason r)) in
     \<lparr>rp_order_id = po_id ord, rp_order = r, rp_refund_amount = rr_refund_amount r,
      rp_gateway_amount = calculate_gateway_refund_amount (po_amount ord) (po_pay_amount ord)
        (rr_refund_amount r) (payment_order_currency ord),
      rp_reason = (if reason = [] then rv_default_reason sv (po_id ord) else reason),
      rp_force = rr_force r, rp_deduct_balance = True, rp_deduction_type = Deduction_Balance,
      rp_balance_to_deduct = (if po_order_type ord = ''balance'' then rr_refund_amount r else 0),
      rp_sub_days = 0, rp_subscription_id = 0\<rparr>)"

definition finalize_refund_failed ::
  "refund_service \<Rightarrow> refund_row \<Rightarrow> go_error \<Rightarrow> (go_error + refund_result) refund" where
  "finalize_refund_failed sv r g = (let oid = po_id (rr_order r); msg = ps_err_msg sv (Some g) in
     Call R_Now (\<lambda>t. case t of RA_Time now \<Rightarrow>
         Call (R_Set_Failed oid now msg) (\<lambda>_.
           bind_prog (refund_audit_log oid ''REFUND_FAILED'' None) (\<lambda>_.
             Ret (Inr (failed_result (''gateway refund failed: '' @ msg) False))))
       | _ \<Rightarrow> Ret (Inl (err_db ''clock''))))"

definition finalize_success :: "refund_plan \<Rightarrow> (go_error + refund_result) refund" where
  "finalize_success p = Call (R_Finalize p) (\<lambda>a. Ret (case a of
     RA_Done b d \<Rightarrow> Inr \<lparr>rs_success = True, rs_warning = '''', rs_require_force = False,
       rs_balance_deducted = b, rs_sub_days_deducted = d\<rparr>
   | RA_Conflict \<Rightarrow> Inl (pay_conflict ''order status changed'')
   | _ \<Rightarrow> Inl (err_db ''refund finalization'')))"

definition finalize_deduction ::
  "refund_service \<Rightarrow> refund_row \<Rightarrow> refund_pending_audit_detail \<Rightarrow> (refund_result + refund_plan) refund" where
  "finalize_deduction sv r detail = (let p = refund_finalize_plan sv r in
     if \<not> pd_rollback_ok detail then Ret (Inr (p\<lparr>rp_balance_to_deduct := 0, rp_sub_days := 0\<rparr>))
     else if po_order_type (rr_order r) = ''subscription'' then prep_deduct r p True
     else Ret (Inr p))"

definition query_and_finalize_refund :: "refund_service \<Rightarrow> int \<Rightarrow> (go_error + refund_result) refund" where
  "query_and_finalize_refund sv oid = Call (R_Order oid) (\<lambda>a. case a of
     RA_Row r \<Rightarrow>
       if row_status r \<noteq> OS_Refund_Pending
       then Ret (Inl (invalid_status ''only refund pending orders can be finalized''))
       else bind_prog (get_refund_provider r) (\<lambda>prov. case prov of
           Inl e \<Rightarrow> Ret (Inl (Other_Error ''get refund provider'' (Some e)))
         | Inr (_, _, can_query) \<Rightarrow>
             if \<not> can_query then Ret (Inl (bad_request ''REFUND_QUERY_UNSUPPORTED''
               ''this payment provider does not support refund status query; please verify manually''))
             else bind_prog (latest_refund_pending_detail oid) (\<lambda>detail.
               Call (R_Gateway_Query (po_id (rr_order r)) (po_trade_no (rr_order r)) (po_out_trade_no (rr_order r))
                   (pd_refund_id detail) (format_gateway_refund_amount sv (rr_refund_amount r) r)) (\<lambda>b. case b of
                 RA_Response resp None \<Rightarrow>
                   (case validate_refund_provider_response resp of
                      Some g \<Rightarrow> finalize_refund_failed sv r g
                    | None \<Rightarrow> bind_prog (finalize_deduction sv r detail) (\<lambda>d. case d of
                        Inl early \<Rightarrow> Ret (Inr early)
                      | Inr p \<Rightarrow> if refund_status (the resp) = ''pending''
                          then bind_prog (refund_audit_log oid ''REFUND_QUERY_PENDING'' None) (\<lambda>_.
                            Ret (Inr (failed_result ''gateway refund is still pending confirmation'' False)))
                          else finalize_success p))
               | _ \<Rightarrow> Ret (Inl (err_db ''query refund'')))))
   | _ \<Rightarrow> Ret (Inl err_order_missing))"

datatype refund_request =
    Rq_Refund int float64 string bool bool
  | Rq_Finalize int

fun serve_refund :: "refund_service \<Rightarrow> refund_request \<Rightarrow> (go_error + refund_result) refund" where
  "serve_refund sv (Rq_Refund oid amt reason force deduct) = process_refund sv oid amt reason force deduct"
| "serve_refund sv (Rq_Finalize oid) = query_and_finalize_refund sv oid"

end
