(* ===== verification/Phases.thy ===== *)
theory Phases
  imports Interleaving
begin

text \<open>
  Programs that go through phases. Where the programs of a pool exclude each other by a lock in the
  shared state, an assertion about one program is not stable under the calls of the others in the
  sense of \<open>rely_guarantee\<close>: the holder of the lock itself gives it up. Here each program of the
  pool has a phase that follows from its calls and their answers, and the invariant relates the
  state to the phases of all programs at once.

  \<open>admits C\<close> restricts the choices of a schedule call by call.
\<close>

fun admits ::
  "('e \<Rightarrow> 'c \<Rightarrow> bool) \<Rightarrow> ('e \<Rightarrow> 'c \<Rightarrow> 's \<Rightarrow> 'a \<times> 's) \<Rightarrow> ('q \<Rightarrow> ('c, 'a, 'r) prog) \<Rightarrow> ('q, 'e) event list
    \<Rightarrow> ('c, 'a, 'r) prog list \<times> 's \<Rightarrow> bool" where
  "admits C exec handler [] st = True"
| "admits C exec handler (ev # evs) st =
     ((case ev of Start q \<Rightarrow> True
       | Step i e \<Rightarrow> i < length (fst st) \<longrightarrow> (case fst st ! i of Ret r \<Rightarrow> True | Call c k \<Rightarrow> C e c))
      \<and> admits C exec handler evs (pool_step exec handler ev st))"

text \<open>What every call keeps is kept by every run.\<close>

lemma run_pool_keeps:
  assumes "\<And>e c s. I s \<Longrightarrow> I (snd (exec e c s))" "I s" "run_pool exec handler evs (ps, s) = (ps', s')"
  shows "I s'"
proof -
  have step: "I u" if "I t" "exec e c t = (a, u)" for t e c a u using assms(1) [OF that(1), of e c] that(2) by simp
  have "I (snd (pool_step exec handler ev st))" if "I (snd st)" for ev st
    using that by (cases st) (auto simp: pool_step_def split: event.splits prog.splits prod.splits intro: step)
  then have "I (snd (fold (pool_step exec handler) evs st))" if "I (snd st)" for st
    using that by (induction evs arbitrary: st) auto
  from this [of "(ps, s)"] show ?thesis using assms(2,3) by (simp add: run_pool_def)
qed

lemma admits_top: "admits (\<lambda>e c. True) exec handler evs st"
  by (induction evs arbitrary: st) (auto split: event.splits prog.splits)

locale phased_pool =
  fixes exec :: "'e \<Rightarrow> 'c \<Rightarrow> 's \<Rightarrow> 'a \<times> 's"
    and choice :: "'e \<Rightarrow> 'c \<Rightarrow> bool"
    and answer :: "'c \<Rightarrow> 'a \<Rightarrow> bool"
    and allowed :: "'p \<Rightarrow> 'c \<Rightarrow> bool"
    and after :: "'p \<Rightarrow> 'c \<Rightarrow> 'a \<Rightarrow> 'p"
    and start :: 'p
    and inv :: "'s \<Rightarrow> 'p list \<Rightarrow> bool"
  assumes answers: "inv s phs \<Longrightarrow> choice e c \<Longrightarrow> exec e c s = (a, u) \<Longrightarrow> answer c a"
    and inv_start: "inv s phs \<Longrightarrow> inv s (phs @ [start])"
    and inv_step: "inv s phs \<Longrightarrow> i < length phs \<Longrightarrow> allowed (phs ! i) c \<Longrightarrow> choice e c \<Longrightarrow>
      exec e c s = (a, u) \<Longrightarrow> inv u (phs[i := after (phs ! i) c a])"
begin

text \<open>
  \<open>follows Q p ph\<close>: from the phase \<open>ph\<close> on, \<open>p\<close> makes only the calls that its phase allows, whatever the
  answers, and a result \<open>r\<close> reached in the phase \<open>x\<close> satisfies \<open>Q r x\<close>.
\<close>

primrec follows :: "('r \<Rightarrow> 'p \<Rightarrow> bool) \<Rightarrow> ('c, 'a, 'r) prog \<Rightarrow> 'p \<Rightarrow> bool" where
  "follows Q (Ret r) = (\<lambda>ph. Q r ph)"
| "follows Q (Call c k) = (\<lambda>ph. allowed ph c \<and> (\<forall>a. answer c a \<longrightarrow> follows Q (k a) (after ph c a)))"

lemma follows_mono:
  "follows Q p ph \<Longrightarrow> (\<And>r x. Q r x \<Longrightarrow> R r x) \<Longrightarrow> follows R p ph"
  by (induction p arbitrary: ph) auto

lemma follows_bind:
  "follows Q (bind_prog p f) ph = follows (\<lambda>r. follows Q (f r)) p ph"
  by (induction p arbitrary: ph) auto

lemma follows_bindI:
  assumes "follows P p ph" "\<And>r x. P r x \<Longrightarrow> follows Q (f r) x"
  shows "follows Q (bind_prog p f) ph"
  unfolding follows_bind using assms(2) by (rule follows_mono [OF assms(1)])

definition in_phases :: "('c, 'a, 'r) prog list \<Rightarrow> 's \<Rightarrow> 'p list \<Rightarrow> bool" where
  "in_phases ps s phs \<longleftrightarrow> length phs = length ps \<and> inv s phs \<and>
     (\<forall>i < length ps. follows (\<lambda>_ _. True) (ps ! i) (phs ! i))"

lemma pool_step_phases:
  assumes p: "in_phases ps s phs"
    and h: "\<And>q. ev = Start q \<Longrightarrow> follows (\<lambda>_ _. True) (handler q) start"
    and c: "case ev of Start q \<Rightarrow> True
       | Step i e \<Rightarrow> i < length ps \<longrightarrow> (case ps ! i of Ret r \<Rightarrow> True | Call c k \<Rightarrow> choice e c)"
    and st: "pool_step exec handler ev (ps, s) = (ps', s')"
  shows "\<exists>phs'. in_phases ps' s' phs'"
proof (cases ev)
  case (Start q)
  then have "in_phases ps' s' (phs @ [start])"
    using p h st inv_start by (auto simp: in_phases_def pool_step_def nth_append less_Suc_eq)
  then show ?thesis by blast
next
  case (Step i e)
  show ?thesis
  proof (cases "i < length ps \<and> (\<exists>c k. ps ! i = Call c k)")
    case False
    then have "(ps', s') = (ps, s)"
      using st Step by (cases "ps ! i") (auto simp: pool_step_def split: if_splits)
    then show ?thesis using p by auto
  next
    case True
    then obtain c k where i: "i < length ps" "ps ! i = Call c k" by blast
    obtain a u where e: "exec e c s = (a, u)" by fastforce
    have new: "ps' = ps[i := k a]" "s' = u" using st Step i e by (auto simp: pool_step_def)
    have ch: "choice e c" using c Step i by simp
    have "follows (\<lambda>_ _. True) (Call c k) (phs ! i)" using p i by (auto simp: in_phases_def)
    moreover have "inv s phs" using p by (simp add: in_phases_def)
    ultimately have f: "allowed (phs ! i) c" "follows (\<lambda>_ _. True) (k a) (after (phs ! i) c a)"
      using answers [OF _ ch e] by auto
    have "in_phases ps' s' (phs[i := after (phs ! i) c a])"
      using p i f new inv_step [OF _ _ f(1) ch e]
      by (auto simp: in_phases_def nth_list_update)
    then show ?thesis by blast
  qed
qed

lemma run_pool_phases:
  assumes "in_phases ps s phs"
    and "\<And>q. Start q \<in> set evs \<Longrightarrow> follows (\<lambda>_ _. True) (handler q) start"
    and "admits choice exec handler evs (ps, s)"
    and "run_pool exec handler evs (ps, s) = (ps', s')"
  shows "\<exists>phs'. in_phases ps' s' phs'"
  using assms
proof (induction evs arbitrary: ps s phs)
  case Nil then show ?case by (auto simp: run_pool_def)
next
  case (Cons ev evs)
  obtain qs t where t: "pool_step exec handler ev (ps, s) = (qs, t)" by fastforce
  have "case ev of Start q \<Rightarrow> True
      | Step i e \<Rightarrow> i < length ps \<longrightarrow> (case ps ! i of Ret r \<Rightarrow> True | Call c k \<Rightarrow> choice e c)"
    using Cons.prems(3) by (simp only: admits.simps fst_conv)
  then obtain phs' where "in_phases qs t phs'"
    using pool_step_phases [OF Cons.prems(1) _ _ t] Cons.prems(2) by auto
  moreover have "run_pool exec handler evs (qs, t) = (ps', s')" "admits choice exec handler evs (qs, t)"
    using Cons.prems(3,4) t by (auto simp: run_pool_def)
  ultimately show ?case using Cons.IH [of qs t phs'] Cons.prems(2) by auto
qed

end

end
