(* ===== verification/Refund_Safety.thy ===== *)
theory Refund_Safety
  imports Refund Phases
begin

text \<open>
  Refunds under every schedule: at most one request at a time refunds an order (\<open>refund_exclusive\<close>),
  by an interpretation of \<open>phased_pool\<close> in which the status \<open>REFUNDING\<close> is the lock of an order and
  the phase of a request says whether it holds it.
\<close>

section \<open>Rows\<close>

lemma find_map_update:
  assumes "\<And>r. P (f r) = P r"
  shows "find P (map (\<lambda>r. if P r then f r else r) xs) = map_option f (find P xs)"
  using assms by (induction xs) auto

lemma find_map_other:
  assumes "\<And>r. Q r \<Longrightarrow> P (f r) = P r" "\<And>r. P r \<Longrightarrow> Q r \<Longrightarrow> f r = r"
  shows "find P (map (\<lambda>r. if Q r then f r else r) xs) = find P xs"
  using assms by (induction xs) auto

definition keeps_id :: "(refund_row \<Rightarrow> refund_row) \<Rightarrow> bool" where
  "keeps_id f \<longleftrightarrow> (\<forall>r. po_id (rr_order (f r)) = po_id (rr_order r))"

lemma keeps_id [simp]:
  "keeps_id (set_status st clock)" "keeps_id (refunded_row fs x reason now force clock)"
  "keeps_id (pending_row x reason force clock)" "keeps_id (failed_row now reason clock)"
  by (auto simp: keeps_id_def set_status_def refunded_row_def pending_row_def failed_row_def)

lemma row_of_set_row:
  assumes "keeps_id f"
  shows "row_of oid (set_row o2 f db) = (if o2 = oid then map_option f (row_of oid db) else row_of oid db)"
proof (cases "o2 = oid")
  case True
  then show ?thesis using assms find_map_update [of "\<lambda>r. po_id (rr_order r) = oid" f]
    by (simp add: row_of_def set_row_def keeps_id_def)
next
  case False
  then have "find (\<lambda>r. po_id (rr_order r) = oid) (map (\<lambda>r. if po_id (rr_order r) = o2 then f r else r) xs) =
    find (\<lambda>r. po_id (rr_order r) = oid) xs" for xs
    using assms by (intro find_map_other) (auto simp: keeps_id_def)
  then show ?thesis using False by (simp add: row_of_def set_row_def)
qed

lemma row_of_id: "row_of oid db = Some r \<Longrightarrow> po_id (rr_order r) = oid"
  by (auto simp: row_of_def find_Some_iff)

lemma row_status_simps [simp]:
  "row_status (set_status st clock r) = st" "row_status (refunded_row fs x reason now force clock r) = fs"
  "row_status (pending_row x reason force clock r) = OS_Refund_Pending"
  "row_status (failed_row now reason clock r) = OS_Refund_Failed"
  by (simp_all add: set_status_def refunded_row_def pending_row_def failed_row_def)

lemma row_of_update [simp]:
  "row_of oid (db\<lparr>rd_users := x\<rparr>) = row_of oid db" "row_of oid (db\<lparr>rd_audit := a\<rparr>) = row_of oid db"
  "row_of oid (db\<lparr>rd_subs := y\<rparr>) = row_of oid db" "row_of oid (db\<lparr>rd_moves := z\<rparr>) = row_of oid db"
  by (simp_all add: row_of_def)

section \<open>What a call does to the rows\<close>

text \<open>The calls that only the request that holds an order makes, and the order of a call that writes a row.\<close>

fun owner_call :: "int \<Rightarrow> refund_call \<Rightarrow> bool" where
  "owner_call oid (R_Set_Status x st) = (x = oid)"
| "owner_call oid (R_Set_Failed x now m) = (x = oid)"
| "owner_call oid (R_Set_Refunded x fs a m now f) = (x = oid)"
| "owner_call oid (R_Set_Pending x a m f) = (x = oid)"
| "owner_call oid c = False"

fun finalize_of :: "int \<Rightarrow> refund_call \<Rightarrow> bool" where
  "finalize_of oid (R_Finalize p) = (rp_order_id p = oid)"
| "finalize_of oid c = False"

fun gateway_of :: "int \<Rightarrow> refund_call \<Rightarrow> bool" where
  "gateway_of oid (R_Gateway_Refund x t n a m) = (x = oid)"
| "gateway_of oid c = False"

lemma row_of_frame [simp]:
  "row_of oid (move_balance x uid t f u db) = row_of oid db"
  "row_of oid (delete_sub sid db) = row_of oid db"
  "row_of oid (set_sub sid g db) = row_of oid db"
  by (simp_all add: move_balance_def delete_sub_def set_sub_def)

lemma extend_row_of: "extend_subscription now sid d db = Ext_Ok u \<Longrightarrow> row_of oid u = row_of oid db"
  by (auto simp: extend_subscription_def Let_def split: option.splits if_splits)

lemma final_deduction_row_of:
  "apply_refund_final_deduction now p db = Some (p1, u) \<Longrightarrow>
     row_of oid u = row_of oid db \<and> rp_order_id p1 = rp_order_id p"
  by (auto simp: apply_refund_final_deduction_def Let_def extend_row_of
      split: if_splits option.splits extend_result.splits)

lemma finalize_row_of:
  assumes "finalize_pending_refund_success now p db = (a, u)"
  shows "row_of oid u = row_of oid db \<or>
    rp_order_id p = oid \<and> status_of oid db = Some OS_Refund_Pending \<and>
    (\<exists>p1. row_of oid u = map_option (\<lambda>r. refunded_row (refunded_status p1)
       (rp_refund_amount p1) (rp_reason p1) now (rp_force p1) now (set_status OS_Refunding now r)) (row_of oid db))"
proof (cases "apply_refund_final_deduction now p (set_row (rp_order_id p) (set_status OS_Refunding now) db)")
  case None then show ?thesis using assms by (auto simp: finalize_pending_refund_success_def split: if_splits)
next
  case (Some x)
  obtain p1 db1 where x: "x = (p1, db1)" by fastforce
  have r: "row_of oid db1 = row_of oid (set_row (rp_order_id p) (set_status OS_Refunding now) db)"
    "rp_order_id p1 = rp_order_id p"
    using final_deduction_row_of [OF Some [unfolded x], of oid] by auto
  show ?thesis
    using assms Some x r
    by (cases "rp_order_id p = oid"; cases "row_of oid db")
      (auto simp: finalize_pending_refund_success_def mark_refund_ok_tx_def update_one_def add_audit_def
        row_of_set_row status_of_def split: if_splits)
qed

text \<open>How one statement changes the row of an order.\<close>

definition row_effect :: "refund_choice \<Rightarrow> refund_call \<Rightarrow> int \<Rightarrow> refund_db \<Rightarrow> refund_db \<Rightarrow> bool" where
  "row_effect e c oid s u \<longleftrightarrow> row_of oid u = row_of oid s
     \<or> c = R_Claim oid \<and> (\<exists>r. row_of oid s = Some r \<and> refundable (row_status r) \<and>
         row_of oid u = Some (set_status OS_Refunding (fc_now e) r))
     \<or> owner_call oid c
     \<or> finalize_of oid c \<and> status_of oid s = Some OS_Refund_Pending"

lemma refund_stmt_rows: "row_effect e c oid s (snd (refund_stmt e c s))"
proof (cases c)
  case (R_Finalize p)
  obtain a u where "finalize_pending_refund_success (fc_now e) p s = (a, u)" by fastforce
  with finalize_row_of [OF this, of oid] show ?thesis using R_Finalize by (auto simp: row_effect_def)
qed (auto simp: row_effect_def sql_claim_def add_audit_def sql_deduct_covered_def sql_deduct_any_def
    sql_update_balance_def update_one_def row_of_set_row extend_row_of
    split: option.splits if_splits extend_result.splits)

lemma refund_exec_rows: "refund_exec e c s = (a, u) \<Longrightarrow> row_effect e c oid s u"
  using refund_stmt_rows [of e c oid s]
  by (auto simp: refund_exec_def row_effect_def split: refund_call.splits call_outcome.splits)

lemma claim_counts:
  assumes "refund_exec e (R_Claim oid) s = (RA_Count n, u)" "0 < n"
  shows "status_of oid u = Some OS_Refunding" "status_of oid s \<noteq> Some OS_Refunding"
  using assms by (auto simp: refund_exec_def sql_claim_def status_of_def row_of_set_row refundable_def
      split: call_outcome.splits option.splits if_splits)

lemma order_answer: "refund_exec e (R_Order oid) s = (RA_Row r, u) \<Longrightarrow> row_of oid s = Some r"
  by (auto simp: refund_exec_def split: call_outcome.splits option.splits)

section \<open>At most one request refunds an order at a time\<close>

text \<open>
  The condition on the gateway: a query for the order that succeeds does not report a failed
  refund.
\<close>

fun query_ok :: "int \<Rightarrow> refund_choice \<Rightarrow> refund_call \<Rightarrow> bool" where
  "query_ok oid e (R_Gateway_Query x t n i a) = (x = oid \<longrightarrow> fc_error e \<noteq> None \<or>
     validate_refund_provider_response (fc_response e) = None)"
| "query_ok oid e c = True"

fun refund_answer_ok :: "int \<Rightarrow> refund_call \<Rightarrow> refund_answer \<Rightarrow> bool" where
  "refund_answer_ok oid (R_Order x) a = (case a of RA_Row r \<Rightarrow> po_id (rr_order r) = x | _ \<Rightarrow> True)"
| "refund_answer_ok oid (R_Gateway_Query x t n i b) a = (case a of
     RA_Response resp err \<Rightarrow> x = oid \<longrightarrow> err \<noteq> None \<or> validate_refund_provider_response resp = None
   | _ \<Rightarrow> True)"
| "refund_answer_ok oid c a = True"

definition excl_allowed :: "int \<Rightarrow> bool \<Rightarrow> refund_call \<Rightarrow> bool" where
  "excl_allowed oid holds c \<longleftrightarrow> (if holds then c \<noteq> R_Claim oid \<and> \<not> finalize_of oid c
     else \<not> owner_call oid c \<and> \<not> gateway_of oid c)"

definition excl_after :: "int \<Rightarrow> bool \<Rightarrow> refund_call \<Rightarrow> refund_answer \<Rightarrow> bool" where
  "excl_after oid holds c a \<longleftrightarrow> \<not> owner_call oid c \<and>
     (holds \<or> c = R_Claim oid \<and> (case a of RA_Count n \<Rightarrow> 0 < n | _ \<Rightarrow> False))"

definition holders :: "bool list \<Rightarrow> nat" where
  "holders phs = length (filter id phs)"

definition excl_inv :: "int \<Rightarrow> refund_db \<Rightarrow> bool list \<Rightarrow> bool" where
  "excl_inv oid s phs \<longleftrightarrow> holders phs \<le> (if status_of oid s = Some OS_Refunding then 1 else 0)"

lemma holders_update:
  "i < length phs \<Longrightarrow> holders (phs[i := x]) + of_bool (phs ! i) = holders phs + of_bool x"
  unfolding holders_def
proof (induction phs arbitrary: i)
  case (Cons y phs) then show ?case by (cases i) auto
qed simp

lemma holders_pos: "i < length phs \<Longrightarrow> phs ! i \<Longrightarrow> 0 < holders phs"
  using holders_update [of i phs False] by simp

lemma refund_answers: "query_ok oid e c \<Longrightarrow> refund_exec e c s = (a, u) \<Longrightarrow> refund_answer_ok oid c a"
  by (cases c; cases a)
    (auto simp: refund_exec_def dest: row_of_id split: call_outcome.splits option.splits)

lemma excl_step:
  assumes inv: "excl_inv oid s phs" and i: "i < length phs" and al: "excl_allowed oid (phs ! i) c"
    and ex: "refund_exec e c s = (a, u)"
  shows "excl_inv oid u (phs[i := excl_after oid (phs ! i) c a])"
proof -
  let ?x = "excl_after oid (phs ! i) c a"
  have h: "holders (phs[i := ?x]) + of_bool (phs ! i) = holders phs + of_bool ?x"
    using i by (rule holders_update)
  have same: "holders phs \<le> (if status_of oid u = Some OS_Refunding then 1 else 0)" if "\<not> owner_call oid c"
    using refund_exec_rows [OF ex, of oid] inv that
    by (auto simp: row_effect_def excl_inv_def status_of_def split: if_splits)
  consider "owner_call oid c" "phs ! i" | "phs ! i" "\<not> owner_call oid c" | "\<not> phs ! i" "\<not> owner_call oid c"
    using al by (auto simp: excl_allowed_def split: if_splits)
  then show ?thesis
  proof cases
    case 1
    then show ?thesis using h inv holders_pos [OF i] by (auto simp: excl_inv_def excl_after_def split: if_splits)
  next
    case 2
    then show ?thesis using h same by (auto simp: excl_inv_def excl_after_def)
  next
    case 3
    show ?thesis
    proof (cases ?x)
      case True
      then obtain n where n: "c = R_Claim oid" "a = RA_Count n" "0 < n"
        using 3 by (auto simp: excl_after_def split: refund_answer.splits)
      with claim_counts [of e oid s n u] ex inv h 3 show ?thesis by (auto simp: excl_inv_def)
    qed (use h same 3 in \<open>auto simp: excl_inv_def\<close>)
  qed
qed

interpretation excl: phased_pool refund_exec "query_ok oid" "refund_answer_ok oid" "excl_allowed oid"
  "excl_after oid" False "excl_inv oid" for oid
proof unfold_locales
  show "query_ok oid e c \<Longrightarrow> refund_exec e c s = (a, u) \<Longrightarrow> refund_answer_ok oid c a" for e c s a u
    by (rule refund_answers)
  show "excl_inv oid s phs \<Longrightarrow> excl_inv oid s (phs @ [False])" for s phs
    by (simp add: excl_inv_def holders_def)
qed (rule excl_step)

text \<open>The programs keep to their phases.\<close>

lemma excl_simps [simp]:
  "excl_after oid h (R_Claim x) a = (h \<or> x = oid \<and> (case a of RA_Count n \<Rightarrow> 0 < n | _ \<Rightarrow> False))"
  "\<not> owner_call oid c \<Longrightarrow> c \<noteq> R_Claim oid \<Longrightarrow> excl_after oid h c a = h"
  "owner_call oid c \<Longrightarrow> excl_after oid h c a = False"
  by (auto simp: excl_after_def)

text \<open>Calls that neither hold nor release an order.\<close>

fun neutral :: "int \<Rightarrow> refund_call \<Rightarrow> bool" where
  "neutral oid (R_Claim x) = (x \<noteq> oid)"
| "neutral oid c = (\<not> owner_call oid c \<and> \<not> gateway_of oid c \<and> \<not> finalize_of oid c)"

lemma excl_neutral [simp]:
  "neutral oid c \<Longrightarrow> excl_allowed oid h c" "neutral oid c \<Longrightarrow> excl_after oid h c a = h"
  by (cases c; auto simp: excl_allowed_def excl_after_def)+

lemma excl_refund_instance: "excl.follows oid (\<lambda>r x. x = h) (refund_instance r) h"
  by (simp add: refund_instance_def)

lemma excl_audit [simp]: "excl.follows oid Q (refund_audit_log x act d) h = Q () h"
  by (simp add: refund_audit_log_def)

lemma excl_audit_bind [simp]:
  "excl.follows oid Q (bind_prog (refund_audit_log x act d) f) h = excl.follows oid Q (f ()) h"
  by (simp add: excl.follows_bind)

lemma excl_provider: "excl.follows oid (\<lambda>r x. x = h) (get_refund_provider r) h"
  unfolding get_refund_provider_def
  by (rule excl.follows_bindI [OF excl_refund_instance]) (auto split: sum.splits option.splits)

text \<open>A plan for the order \<open>x\<close>.\<close>

definition plan_for :: "int \<Rightarrow> refund_plan \<Rightarrow> bool" where
  "plan_for x p \<longleftrightarrow> rp_order_id p = x \<and> po_id (rr_order (rp_order p)) = x"

lemma plan_for_update [simp]:
  "plan_for x (p\<lparr>rp_deduction_type := t\<rparr>) = plan_for x p" "plan_for x (p\<lparr>rp_balance_to_deduct := b\<rparr>) = plan_for x p"
  "plan_for x (p\<lparr>rp_sub_days := d\<rparr>) = plan_for x p" "plan_for x (p\<lparr>rp_subscription_id := i\<rparr>) = plan_for x p"
  by (simp_all add: plan_for_def)

lemma excl_prep_deduct:
  "plan_for x p \<Longrightarrow> excl.follows oid (\<lambda>d y. y = h \<and> (\<forall>q. d = Inr q \<longrightarrow> plan_for x q)) (prep_deduct r p force) h"
  by (auto simp: prep_deduct_def Let_def split: option.splits refund_answer.splits)

lemma excl_prepare: "excl.follows oid (\<lambda>r y. y = h \<and> (\<forall>p. r = Prep_Plan p \<longrightarrow> plan_for x p))
    (prepare_refund sv x amt reason force deduct) h"
proof -
  have "excl.follows oid (\<lambda>r y. y = h \<and> (\<forall>p. r = Prep_Plan p \<longrightarrow> plan_for x p))
      (bind_prog (prep_deduct r (make_plan sv r a reason force deduct) force) (\<lambda>d. Ret (case d of
        Inl early \<Rightarrow> Prep_Early early | Inr p1 \<Rightarrow> Prep_Plan p1))) h" if "po_id (rr_order r) = x" for r a
    using that by (intro excl.follows_bindI [OF excl_prep_deduct [of x]])
      (auto simp: plan_for_def make_plan_def Let_def split: sum.splits)
  moreover have "plan_for x (make_plan sv r a reason force deduct)" if "po_id (rr_order r) = x" for r a
    using that by (simp add: plan_for_def make_plan_def Let_def)
  ultimately show ?thesis
    by (auto simp: prepare_refund_def Let_def split: refund_answer.splits sum.splits option.splits
        intro!: excl.follows_bindI [OF excl_refund_instance])
qed

lemma excl_owner [simp]:
  "owner_call x c \<Longrightarrow> h = (x = oid) \<Longrightarrow> excl_allowed oid h c"
  "owner_call x c \<Longrightarrow> h = (x = oid) \<Longrightarrow> excl_after oid h c a = False"
  by (cases c; auto simp: excl_allowed_def excl_after_def)+

lemma excl_restore: "plan_for x p \<Longrightarrow> excl.follows oid (\<lambda>_ y. \<not> y) (restore_status p) (x = oid)"
  by (auto simp: restore_status_def plan_for_def excl_owner [of x])

lemma excl_rollback: "excl.follows oid (\<lambda>_ y. y = h) (rollback_refund p) h"
  by (auto simp: rollback_refund_def Let_def excl.follows_bind split: refund_answer.splits)

lemma excl_deduct: "excl.follows oid (\<lambda>_ y. y = h) (deduct_balance x uid d) h"
  by (auto simp: deduct_balance_def split: refund_answer.splits)

lemma excl_revoke: "excl.follows oid (\<lambda>_ y. y = h) (revoke_subscription sid) h"
  by (auto simp: revoke_subscription_def split: refund_answer.splits)

lemma excl_has_audit: "excl.follows oid (\<lambda>_ y. y = h) (refund_has_audit_log x act) h"
  by (simp add: refund_has_audit_log_def)

lemma excl_take_balance:
  assumes "plan_for x p"
  shows "excl.follows oid (\<lambda>r y. case r of Inl e \<Rightarrow> \<not> y | Inr q \<Rightarrow> y = (x = oid) \<and> plan_for x q)
    (take_from_balance p) (x = oid)"
proof -
  have "excl.follows oid (\<lambda>r y. case r of Inl e \<Rightarrow> \<not> y | Inr q \<Rightarrow> y = (x = oid) \<and> plan_for x q)
    (bind_prog (restore_status p) (\<lambda>_. Ret (Inl g))) (x = oid)" for g
    by (rule excl.follows_bindI [OF excl_restore [OF assms]]) simp
  then show ?thesis unfolding take_from_balance_def using assms
    by (auto intro!: excl.follows_bindI [OF excl_has_audit] excl.follows_bindI [OF excl_deduct] split: option.splits)
qed

lemma excl_take_subscription:
  assumes "plan_for x p"
  shows "excl.follows oid (\<lambda>r y. case r of Inl e \<Rightarrow> \<not> y | Inr q \<Rightarrow> y = (x = oid) \<and> plan_for x q)
    (take_from_subscription p) (x = oid)"
proof -
  have r: "excl.follows oid (\<lambda>r y. case r of Inl e \<Rightarrow> \<not> y | Inr q \<Rightarrow> y = (x = oid) \<and> plan_for x q)
    (bind_prog (restore_status p) (\<lambda>_. Ret (Inl g))) (x = oid)" for g
    by (rule excl.follows_bindI [OF excl_restore [OF assms]]) simp
  have "excl.follows oid (\<lambda>r y. case r of Inl e \<Rightarrow> \<not> y | Inr q \<Rightarrow> y = (x = oid) \<and> plan_for x q)
    (bind_prog (revoke_subscription sid) (\<lambda>e. case e of None \<Rightarrow> Ret (Inr p)
       | Some g \<Rightarrow> bind_prog (restore_status p) (\<lambda>_. Ret (Inl (Other_Error ''revoke subscription'' (Some g))))))
    (x = oid)" for sid
    using assms r by (intro excl.follows_bindI [OF excl_revoke]) (auto split: option.splits)
  then show ?thesis unfolding take_from_subscription_def using assms r
    by (auto intro!: excl.follows_bindI [OF excl_has_audit] split: refund_answer.splits)
qed

lemma excl_gateway:
  "plan_for x p \<Longrightarrow> excl.follows oid (\<lambda>_ y. y = (x = oid)) (gw_refund sv p) (x = oid)"
  by (auto simp: gw_refund_def Let_def plan_for_def excl.follows_bind excl_allowed_def
      intro!: excl.follows_mono [OF excl_provider] split: sum.splits option.splits)

lemma excl_handle_gw_fail:
  assumes p: "plan_for x p"
  shows "excl.follows oid (\<lambda>_ _. True) (handle_gw_fail sv p g) (x = oid)"
  unfolding handle_gw_fail_def Let_def
proof (rule excl.follows_bindI [OF excl_rollback])
  fix ok y assume y: "y = (x = oid)"
  have "excl.follows oid (\<lambda>_ _. True) (bind_prog (restore_status p) (\<lambda>_.
      bind_prog (refund_audit_log (rp_order_id p) act d) (\<lambda>_. Ret z))) (x = oid)" for act d and z :: "go_error + refund_result"
    by (rule excl.follows_bindI [OF excl_restore [OF p]]) simp
  moreover have "excl_allowed oid (x = oid) (R_Set_Failed (rp_order_id p) now msg)" for now msg
    using p by (auto simp: plan_for_def excl_allowed_def)
  ultimately show "excl.follows oid (\<lambda>_ _. True) (if ok then bind_prog (restore_status p) (\<lambda>_.
         bind_prog (refund_audit_log (rp_order_id p) ''REFUND_GATEWAY_FAILED'' None) (\<lambda>_.
           Ret (Inr (failed_result (''gateway failed: '' @ ps_err_msg sv (Some g) @ '', rolled back'') False))))
       else Call R_Now (\<lambda>t. case t of RA_Time now \<Rightarrow>
           Call (R_Set_Failed (rp_order_id p) now (ps_err_msg sv (Some g))) (\<lambda>_.
             bind_prog (refund_audit_log (rp_order_id p) ''REFUND_FAILED'' None) (\<lambda>_.
               Ret (Inl (internal_server ''REFUND_FAILED'' (ps_err_msg sv (Some g))))))
         | _ \<Rightarrow> Ret (Inl (err_db ''clock'')))) y"
    unfolding y by (cases ok) (simp_all split: refund_answer.splits)
qed

lemma excl_mark_ok: "plan_for x p \<Longrightarrow> excl.follows oid (\<lambda>_ _. True) (mark_refund_ok p) (x = oid)"
  by (auto simp: mark_refund_ok_def excl.follows_bind plan_for_def excl_owner [of x] split: refund_answer.splits)

lemma excl_mark_pending:
  "plan_for x p \<Longrightarrow> excl.follows oid (\<lambda>_ _. True) (mark_refund_pending p resp) (x = oid)"
  unfolding mark_refund_pending_def
  by (intro excl.follows_bindI [OF excl_rollback])
    (auto simp: excl.follows_bind plan_for_def excl_owner [of x] split: refund_answer.splits)

lemma excl_execute:
  assumes "plan_for x p"
  shows "excl.follows oid (\<lambda>_ _. True) (execute_refund sv p) False"
proof -
  have x: "rp_order_id p = x" using assms by (simp add: plan_for_def)
  have fin: "excl.follows oid (\<lambda>_ _. True) (finish_refund sv q resp) (x = oid)" if "plan_for x q" for q resp
    using that by (auto simp: finish_refund_def excl_handle_gw_fail excl_mark_ok excl_mark_pending split: option.splits)
  have gw: "excl.follows oid (\<lambda>_ _. True) (bind_prog (gw_refund sv q) (\<lambda>g. case g of
      Inl e \<Rightarrow> handle_gw_fail sv q e | Inr resp \<Rightarrow> finish_refund sv q resp)) (x = oid)" if "plan_for x q" for q
    using that fin excl_handle_gw_fail
    by (intro excl.follows_bindI [OF excl_gateway [OF that]]) (auto split: sum.splits)
  have sub: "excl.follows oid (\<lambda>_ _. True) (bind_prog (take_from_subscription q) (\<lambda>r2. case r2 of
      Inl e \<Rightarrow> Ret (Inl e) | Inr p2 \<Rightarrow> bind_prog (gw_refund sv p2) (\<lambda>g. case g of
        Inl e \<Rightarrow> handle_gw_fail sv p2 e | Inr resp \<Rightarrow> finish_refund sv p2 resp))) (x = oid)" if "plan_for x q" for q
    using that gw by (intro excl.follows_bindI [OF excl_take_subscription [OF that]]) (auto split: sum.splits)
  have "excl.follows oid (\<lambda>_ _. True) (bind_prog (take_from_balance p) (\<lambda>r1. case r1 of
      Inl e \<Rightarrow> Ret (Inl e) | Inr p1 \<Rightarrow> bind_prog (take_from_subscription p1) (\<lambda>r2. case r2 of
        Inl e \<Rightarrow> Ret (Inl e) | Inr p2 \<Rightarrow> bind_prog (gw_refund sv p2) (\<lambda>g. case g of
          Inl e \<Rightarrow> handle_gw_fail sv p2 e | Inr resp \<Rightarrow> finish_refund sv p2 resp)))) (x = oid)"
    using assms sub by (intro excl.follows_bindI [OF excl_take_balance [OF assms]]) (auto split: sum.splits)
  then show ?thesis unfolding execute_refund_def
    by (auto simp: x excl_allowed_def split: refund_answer.splits)
qed

lemma excl_query: "excl.follows oid (\<lambda>_ _. True) (query_and_finalize_refund sv x) False"
proof -
  have f: "excl.follows oid (\<lambda>_ _. True) (finalize_success p) False" for p
    by (simp add: finalize_success_def excl_allowed_def)
  have d: "excl.follows oid (\<lambda>_ y. y = False) (finalize_deduction sv r det) False" for r det
    by (auto simp: finalize_deduction_def Let_def refund_finalize_plan_def plan_for_def
        intro!: excl.follows_mono [OF excl_prep_deduct [of "po_id (rr_order r)"]])
  have failed: "excl.follows oid (\<lambda>_ _. True) (finalize_refund_failed sv r g) False"
    if "po_id (rr_order r) \<noteq> oid" for r g
    using that by (auto simp: finalize_refund_failed_def Let_def excl.follows_bind split: refund_answer.splits)
  have l: "excl.follows oid (\<lambda>_ y. y = False) (latest_refund_pending_detail y) False" for y
    by (simp add: latest_refund_pending_detail_def)
  show ?thesis unfolding query_and_finalize_refund_def
    by (auto intro!: excl.follows_bindI [OF excl_provider] excl.follows_bindI [OF l] excl.follows_bindI [OF d]
        simp: f failed
        split: refund_answer.splits sum.splits option.splits if_splits)
qed

lemma excl_serve: "excl.follows oid (\<lambda>_ _. True) (serve_refund sv q) False"
proof (cases q)
  case (Rq_Refund x amt reason force deduct)
  show ?thesis unfolding Rq_Refund serve_refund.simps process_refund_def
    by (rule excl.follows_bindI [OF excl_prepare]) (auto split: prepared.splits intro: excl_execute)
qed (simp add: excl_query)

text \<open>The requests whose next call asks the gateway to refund the order.\<close>

definition at_gateway :: "int \<Rightarrow> 'r refund \<Rightarrow> bool" where
  "at_gateway oid p = (case p of Call c k \<Rightarrow> gateway_of oid c | Ret r \<Rightarrow> False)"

lemma filter_length_le:
  "length xs = length ys \<Longrightarrow> (\<And>i. i < length xs \<Longrightarrow> P (xs ! i) \<Longrightarrow> Q (ys ! i)) \<Longrightarrow>
     length (filter P xs) \<le> length (filter Q ys)"
proof (induction xs ys rule: list_induct2)
  case (Cons x xs y ys)
  have "length (filter P xs) \<le> length (filter Q ys)" using Cons.IH Cons.prems [of "Suc i" for i] by auto
  moreover have "P x \<longrightarrow> Q y" using Cons.prems [of 0] by simp
  ultimately show ?case by auto
qed simp

lemma at_gateway_holds:
  "excl.follows oid (\<lambda>_ _. True) p h \<Longrightarrow> at_gateway oid p \<Longrightarrow> h"
  by (cases p) (auto simp: at_gateway_def excl_allowed_def split: if_splits)

text \<open>
  Claim C15. For any schedule of refund requests and of queries for pending refunds, on any number
  of instances, with any lost calls, lost answers and crashes: as long as no query of the gateway
  reports a failed refund of an order, at most one request at a time is about to ask the gateway to
  refund it, and the order then has the status \<open>REFUNDING\<close>.
\<close>

theorem refund_exclusive:
  assumes "admits (query_ok oid) refund_exec (serve_refund sv) evs ([], s)"
    and "run_pool refund_exec (serve_refund sv) evs ([], s) = (ps, t)"
  shows "length (filter (at_gateway oid) ps) \<le> 1 \<and>
    (\<forall>p \<in> set ps. at_gateway oid p \<longrightarrow> status_of oid t = Some OS_Refunding)"
proof -
  have "excl.in_phases oid ([] :: (go_error + refund_result) refund list) s []"
    by (simp add: excl.in_phases_def excl_inv_def holders_def)
  then obtain phs where ph: "excl.in_phases oid ps t phs"
    using excl.run_pool_phases [OF _ _ assms] excl_serve by metis
  have "at_gateway oid (ps ! i) \<Longrightarrow> phs ! i" if "i < length ps" for i
    using ph that at_gateway_holds by (auto simp: excl.in_phases_def)
  then have le: "length (filter (at_gateway oid) ps) \<le> holders phs"
    using ph by (auto simp: holders_def excl.in_phases_def intro!: filter_length_le)
  have h: "holders phs \<le> (if status_of oid t = Some OS_Refunding then 1 else 0)"
    using ph by (simp add: excl.in_phases_def excl_inv_def)
  have "status_of oid t = Some OS_Refunding" if "p \<in> set ps" "at_gateway oid p" for p
  proof -
    have "0 < length (filter (at_gateway oid) ps)" using that by (auto simp: filter_empty_conv)
    then show ?thesis using le h by (auto split: if_splits)
  qed
  moreover have "length (filter (at_gateway oid) ps) \<le> 1" using le h by (auto split: if_splits)
  ultimately show ?thesis by blast
qed

end
