(* ===== verification/Refund_Money.thy ===== *)
theory Refund_Money
  imports Refund_Safety
begin

text \<open>
  What refunds take from a balance, under every schedule (\<open>refund_deducted_once\<close>). A second
  interpretation of \<open>phased_pool\<close>: the phase of a request says what it has taken for an order and
  what it knows of the entry \<open>REFUND_ROLLBACK_FAILED\<close>.
\<close>

abbreviation "RollbackFailed \<equiv> ''REFUND_ROLLBACK_FAILED''"

section \<open>The amounts moved for an order and for a user\<close>

definition moved :: "int \<Rightarrow> refund_db \<Rightarrow> rat" where
  "moved oid s = sum_list (map (snd \<circ> snd) (filter (\<lambda>m. fst m = oid) (rd_moves s)))"

definition moved_user :: "int \<Rightarrow> refund_db \<Rightarrow> rat" where
  "moved_user uid s = sum_list (map (snd \<circ> snd) (filter (\<lambda>m. fst (snd m) = uid) (rd_moves s)))"

lemma moved_simps [simp]:
  "moved oid (set_row x f s) = moved oid s" "moved oid (s\<lparr>rd_audit := a\<rparr>) = moved oid s"
  "moved oid (set_sub i g s) = moved oid s" "moved oid (delete_sub i s) = moved oid s"
  "moved oid (move_balance x uid t g2 u s) = moved oid s + (if x = oid then t else 0)"
  by (simp_all add: moved_def set_row_def set_sub_def delete_sub_def move_balance_def)

lemma audited_simps [simp]:
  "audited oid act (set_row x f s) = audited oid act s" "audited oid act (set_sub i g s) = audited oid act s"
  "audited oid act (delete_sub i s) = audited oid act s"
  "audited oid act (move_balance x uid t g2 u s) = audited oid act s"
  "audited oid act (s\<lparr>rd_audit := rd_audit s @ [a]\<rparr>) = (audited oid act s \<or> ra_order a = oid \<and> ra_action a = act)"
  by (auto simp: audited_def set_row_def set_sub_def delete_sub_def move_balance_def)

text \<open>The balance of a user and what refunds moved for him change together.\<close>

definition balance_books :: "int \<Rightarrow> rat \<Rightarrow> refund_db \<Rightarrow> bool" where
  "balance_books uid b s \<longleftrightarrow> (\<exists>u. rd_users s uid = Some u \<and> us_balance u + moved_user uid s = b)"

lemma books_frame [simp]:
  "balance_books uid b (set_row x f s) = balance_books uid b s"
  "balance_books uid b (s\<lparr>rd_audit := a\<rparr>) = balance_books uid b s"
  "balance_books uid b (set_sub i g s) = balance_books uid b s"
  "balance_books uid b (delete_sub i s) = balance_books uid b s"
  by (simp_all add: balance_books_def moved_user_def set_row_def set_sub_def delete_sub_def)

lemma books_move:
  assumes "balance_books uid b s" "rd_users s x = Some u" "us_balance (f u) = us_balance u - t"
  shows "balance_books uid b (move_balance oid x t f u s)"
  using assms by (auto simp: balance_books_def moved_user_def move_balance_def)

lemma books_extend: "extend_subscription now sid d s = Ext_Ok u \<Longrightarrow> balance_books uid b u = balance_books uid b s"
  by (auto simp: extend_subscription_def Let_def split: option.splits if_splits)

lemma books_final_deduction:
  "apply_refund_final_deduction now p s = Some (p1, u) \<Longrightarrow> balance_books uid b s \<Longrightarrow> balance_books uid b u"
  by (auto simp: apply_refund_final_deduction_def Let_def books_extend take_balance_def intro!: books_move
      split: if_splits option.splits extend_result.splits)

lemma books_finalize:
  "balance_books uid b s \<Longrightarrow> balance_books uid b (snd (finalize_pending_refund_success now p s))"
  by (auto simp: finalize_pending_refund_success_def mark_refund_ok_tx_def update_one_def add_audit_def
      split: option.splits prod.splits dest!: books_final_deduction [of _ _ _ _ _ uid b])

lemma books_stmt: "balance_books uid b s \<Longrightarrow> balance_books uid b (snd (refund_stmt e c s))"
  by (cases c)
    (auto simp: sql_claim_def add_audit_def sql_deduct_covered_def sql_deduct_any_def sql_update_balance_def
      update_one_def books_extend books_finalize take_balance_def update_balance_def intro!: books_move
      split: option.splits extend_result.splits)

lemma books_exec: "balance_books uid b s \<Longrightarrow> balance_books uid b (snd (refund_exec e c s))"
  using books_stmt [of uid b s e c] by (auto simp: refund_exec_def split: refund_call.splits call_outcome.splits)

section \<open>Phases\<close>

datatype money_phase = Idle | Claimed | Clear | Took rat | Kept rat | Skip

text \<open>The most a refund of an order may take: its amount and the tolerance of its currency.\<close>

definition limit_of :: "refund_row \<Rightarrow> rat" where
  "limit_of r = po_amount (rr_order r) +
     payment_amount_tolerance_for_currency (payment_order_currency (rr_order r))"

fun phase_ok :: "rat \<Rightarrow> rat \<Rightarrow> bool \<Rightarrow> money_phase \<Rightarrow> bool" where
  "phase_ok m net failed Idle = True"
| "phase_ok m net failed Claimed = (failed \<or> net = 0)"
| "phase_ok m net failed Clear = (\<not> failed \<and> net = 0)"
| "phase_ok m net failed (Took d) = (\<not> failed \<and> net = d \<and> 0 < d \<and> d \<le> m)"
| "phase_ok m net failed (Kept d) = (\<not> failed \<and> net = d \<and> 0 < d \<and> d \<le> m)"
| "phase_ok m net failed Skip = failed"

definition money_inv :: "int \<Rightarrow> rat \<Rightarrow> refund_db \<Rightarrow> money_phase list \<Rightarrow> bool" where
  "money_inv oid m s phs \<longleftrightarrow> excl_inv oid s (map (\<lambda>p. p \<noteq> Idle) phs) \<and>
     0 \<le> moved oid s \<and> moved oid s \<le> m \<and>
     (\<forall>r. row_of oid s = Some r \<longrightarrow> limit_of r \<le> m) \<and>
     (\<forall>p \<in> set phs. phase_ok m (moved oid s) (audited oid RollbackFailed s) p) \<and>
     ((\<exists>st. status_of oid s = Some st \<and> refundable st) \<longrightarrow> audited oid RollbackFailed s \<or> moved oid s = 0)"

fun reliable :: "int \<Rightarrow> refund_choice \<Rightarrow> refund_call \<Rightarrow> bool" where
  "reliable oid e (R_Has_Audit x act) = (x = oid \<and> act = RollbackFailed \<longrightarrow> fc_outcome e = Done)"
| "reliable oid e (R_Audit x act d) = (x = oid \<and> act = RollbackFailed \<longrightarrow> fc_outcome e = Done)"
| "reliable oid e (R_Deduct_Covered x uid d) = (x = oid \<longrightarrow> fc_outcome e \<noteq> Lost_After)"
| "reliable oid e (R_Deduct_Any x uid d) = (x = oid \<longrightarrow> fc_outcome e \<noteq> Lost_After)"
| "reliable oid e (R_Update_Balance x uid d) = (x = oid \<longrightarrow> fc_outcome e \<noteq> Lost_After)"
| "reliable oid e c = True"

fun money_answer :: "int \<Rightarrow> rat \<Rightarrow> refund_call \<Rightarrow> refund_answer \<Rightarrow> bool" where
  "money_answer oid m (R_Order x) a = (case a of
     RA_Row r \<Rightarrow> po_id (rr_order r) = x \<and> (x = oid \<longrightarrow> limit_of r \<le> m) | _ \<Rightarrow> True)"
| "money_answer oid m (R_Has_Audit x act) a = (x = oid \<and> act = RollbackFailed \<longrightarrow> (\<exists>b. a = RA_Bool b))"
| "money_answer oid m c a = True"

definition counted :: "refund_answer \<Rightarrow> bool" where
  "counted a = (case a of RA_Count n \<Rightarrow> 0 < n | _ \<Rightarrow> False)"

fun money_after :: "int \<Rightarrow> money_phase \<Rightarrow> refund_call \<Rightarrow> refund_answer \<Rightarrow> money_phase" where
  "money_after oid ph (R_Claim x) a = (if x = oid \<and> counted a then Claimed else ph)"
| "money_after oid ph (R_Has_Audit x act) a = (if x = oid \<and> act = RollbackFailed \<and> ph = Claimed
     then (if a = RA_Bool True then Skip else Clear) else ph)"
| "money_after oid ph (R_Deduct_Covered x uid d) a = (if x = oid \<and> counted a then Took d else ph)"
| "money_after oid ph (R_Deduct_Any x uid d) a = (if x = oid \<and> counted a then Took d else ph)"
| "money_after oid ph (R_Update_Balance x uid d) a =
     (if x = oid then (if counted a then Clear else Kept d) else ph)"
| "money_after oid ph (R_Audit x act det) a = (if x = oid \<and> act = RollbackFailed then Skip else ph)"
| "money_after oid ph c a = (if owner_call oid c then Idle else ph)"

fun settled :: "money_phase \<Rightarrow> bool" where
  "settled ph = (ph \<in> {Claimed, Clear, Skip})"

fun money_allowed :: "int \<Rightarrow> rat \<Rightarrow> money_phase \<Rightarrow> refund_call \<Rightarrow> bool" where
  "money_allowed oid m ph (R_Claim x) = (x = oid \<longrightarrow> ph = Idle)"
| "money_allowed oid m ph (R_Deduct_Covered x uid d) = (x = oid \<longrightarrow> ph = Clear \<and> 0 < d \<and> d \<le> m)"
| "money_allowed oid m ph (R_Deduct_Any x uid d) = (x = oid \<longrightarrow> ph = Clear \<and> 0 < d \<and> d \<le> m)"
| "money_allowed oid m ph (R_Update_Balance x uid d) = (x = oid \<longrightarrow> ph = Took d)"
| "money_allowed oid m ph (R_Audit x act det) =
     (x = oid \<and> act = RollbackFailed \<longrightarrow> settled ph \<or> (\<exists>d. ph = Kept d))"
| "money_allowed oid m ph (R_Set_Refunded x fs b reason now force) =
     (x = oid \<longrightarrow> settled ph \<or> (\<exists>d. ph = Took d) \<and> \<not> refundable fs)"
| "money_allowed oid m ph c = ((owner_call oid c \<longrightarrow> settled ph) \<and> \<not> finalize_of oid c \<and>
     (gateway_of oid c \<longrightarrow> ph \<noteq> Idle))"

section \<open>Every call keeps the invariant\<close>

text \<open>The calls that move money for the order or write the entry of a failed rollback.\<close>

fun money_call :: "int \<Rightarrow> refund_call \<Rightarrow> bool" where
  "money_call oid (R_Deduct_Covered x uid d) = (x = oid)"
| "money_call oid (R_Deduct_Any x uid d) = (x = oid)"
| "money_call oid (R_Update_Balance x uid d) = (x = oid)"
| "money_call oid (R_Audit x act det) = (x = oid \<and> act = RollbackFailed)"
| "money_call oid (R_Finalize p) = (rp_order_id p = oid)"
| "money_call oid c = False"

lemma extend_money:
  "extend_subscription now sid d s = Ext_Ok u \<Longrightarrow> moved oid u = moved oid s \<and> audited oid act u = audited oid act s"
  by (auto simp: extend_subscription_def Let_def split: option.splits if_splits)

lemma final_deduction_money:
  "apply_refund_final_deduction now p s = Some (p1, u) \<Longrightarrow> rp_order_id p \<noteq> oid \<Longrightarrow>
     moved oid u = moved oid s \<and> audited oid act u = audited oid act s \<and> rp_order_id p1 = rp_order_id p"
  by (auto simp: apply_refund_final_deduction_def Let_def dest: extend_money
      split: if_splits option.splits extend_result.splits)

lemma finalize_money:
  "rp_order_id p \<noteq> oid \<Longrightarrow> moved oid (snd (finalize_pending_refund_success now p s)) = moved oid s \<and>
     audited oid act (snd (finalize_pending_refund_success now p s)) = audited oid act s"
  by (auto simp: finalize_pending_refund_success_def mark_refund_ok_tx_def update_one_def add_audit_def
      split: option.splits prod.splits dest!: final_deduction_money [of _ _ _ _ _ oid act])

lemma stmt_money:
  "\<not> money_call oid c \<Longrightarrow> moved oid (snd (refund_stmt e c s)) = moved oid s \<and>
     audited oid RollbackFailed (snd (refund_stmt e c s)) = audited oid RollbackFailed s"
  by (cases c)
    (auto simp: sql_claim_def add_audit_def sql_deduct_covered_def sql_deduct_any_def sql_update_balance_def
      update_one_def finalize_money dest: extend_money split: option.splits extend_result.splits)

lemma exec_money:
  assumes "refund_exec e c s = (a, u)" "\<not> money_call oid c"
  shows "moved oid u = moved oid s" "audited oid RollbackFailed u = audited oid RollbackFailed s"
  using assms stmt_money [of oid c e s]
  by (auto simp: refund_exec_def split: refund_call.splits call_outcome.splits)

lemma limit_simps [simp]:
  "limit_of (set_status st clock r) = limit_of r" "limit_of (refunded_row fs x reason now force clock r) = limit_of r"
  "limit_of (pending_row x reason force clock r) = limit_of r" "limit_of (failed_row now reason clock r) = limit_of r"
  by (simp_all add: limit_of_def set_status_def refunded_row_def pending_row_def failed_row_def
      payment_order_currency_def ps_order_provider_snapshot_def)

lemma stmt_limit:
  assumes "row_of oid (snd (refund_stmt e c s)) = Some r"
  shows "\<exists>r0. row_of oid s = Some r0 \<and> limit_of r0 = limit_of r"
proof (cases c)
  case (R_Finalize p)
  obtain a u where u: "finalize_pending_refund_success (fc_now e) p s = (a, u)" by fastforce
  show ?thesis using finalize_row_of [OF u, of oid] assms u R_Finalize by (cases "row_of oid s") auto
qed (use assms in \<open>auto simp: sql_claim_def add_audit_def sql_deduct_covered_def sql_deduct_any_def
    sql_update_balance_def update_one_def row_of_set_row extend_row_of
    split: option.splits if_splits extend_result.splits\<close>)

lemma exec_limit:
  "refund_exec e c s = (a, u) \<Longrightarrow> row_of oid u = Some r \<Longrightarrow> \<exists>r0. row_of oid s = Some r0 \<and> limit_of r0 = limit_of r"
  using stmt_limit [of oid e c s r]
  by (auto simp: refund_exec_def split: refund_call.splits call_outcome.splits)

lemma money_answers:
  "money_inv oid m s phs \<Longrightarrow> reliable oid e c \<Longrightarrow> refund_exec e c s = (a, u) \<Longrightarrow> money_answer oid m c a"
  by (cases c; cases a)
    (auto simp: refund_exec_def money_inv_def dest: row_of_id split: call_outcome.splits option.splits)

lemma money_excl:
  assumes "money_allowed oid m ph c"
  shows "excl_allowed oid (ph \<noteq> Idle) c" "excl_after oid (ph \<noteq> Idle) c a = (money_after oid ph c a \<noteq> Idle)"
  using assms by (cases c; auto simp: excl_allowed_def excl_after_def counted_def)+

text \<open>Where one request holds the order, all others are idle.\<close>

lemma others_idle:
  assumes "excl_inv oid s (map (\<lambda>p. p \<noteq> Idle) phs)" "i < length phs" "phs ! i \<noteq> Idle" "j < length phs" "j \<noteq> i"
  shows "phs ! j = Idle"
proof (rule ccontr)
  let ?b = "map (\<lambda>p. p \<noteq> Idle) phs"
  assume j: "phs ! j \<noteq> Idle"
  have "holders (?b[i := False]) + 1 = holders ?b" using holders_update [of i ?b False] assms by simp
  moreover have "0 < holders (?b[i := False])" using holders_pos [of j "?b[i := False]"] assms j by simp
  ultimately show False using assms(1) by (simp add: excl_inv_def split: if_splits)
qed

lemma all_phases:
  assumes "excl_inv oid s (map (\<lambda>p. p \<noteq> Idle) phs)" "i < length phs" "phs ! i \<noteq> Idle" "phase_ok m net failed x"
  shows "\<forall>p \<in> set (phs[i := x]). phase_ok m net failed p"
  using assms others_idle [OF assms(1-3)] by (auto simp: in_set_conv_nth nth_list_update)

lemma money_call_step:
  assumes inv: "money_inv oid m s phs" and i: "i < length phs" and al: "money_allowed oid m (phs ! i) c"
    and re: "reliable oid e c" and ex: "refund_exec e c s = (a, u)" and mc: "money_call oid c"
  shows "phs ! i \<noteq> Idle \<and> 0 \<le> moved oid u \<and> moved oid u \<le> m \<and> row_of oid u = row_of oid s \<and>
    phase_ok m (moved oid u) (audited oid RollbackFailed u) (money_after oid (phs ! i) c a)"
proof -
  have ok: "phase_ok m (moved oid s) (audited oid RollbackFailed s) (phs ! i)"
    and b: "0 \<le> moved oid s" "moved oid s \<le> m"
    using inv i by (auto simp: money_inv_def)
  show ?thesis using mc al re ex ok b
    by (cases c)
      (auto simp: refund_exec_def add_audit_def sql_deduct_covered_def sql_deduct_any_def sql_update_balance_def
        counted_def split: call_outcome.splits option.splits if_splits)
qed

lemma money_other_step:
  assumes inv: "money_inv oid m s phs" and i: "i < length phs" and al: "money_allowed oid m (phs ! i) c"
    and re: "reliable oid e c" and ex: "refund_exec e c s = (a, u)" and mc: "\<not> money_call oid c"
    and holds: "phs ! i \<noteq> Idle"
  shows "phase_ok m (moved oid s) (audited oid RollbackFailed s) (money_after oid (phs ! i) c a)"
proof -
  have ok: "phase_ok m (moved oid s) (audited oid RollbackFailed s) (phs ! i)"
    using inv i by (auto simp: money_inv_def)
  show ?thesis using mc al re ex ok holds
    by (cases c) (auto simp: refund_exec_def split: call_outcome.splits)
qed

lemma holder_status:
  "money_inv oid m s phs \<Longrightarrow> i < length phs \<Longrightarrow> phs ! i \<noteq> Idle \<Longrightarrow> status_of oid s = Some OS_Refunding"
  using holders_pos [of i "map (\<lambda>p. p \<noteq> Idle) phs"] by (auto simp: money_inv_def excl_inv_def split: if_splits)

lemma set_refunded_status:
  "refund_exec e (R_Set_Refunded oid fs b reason now force) s = (a, u) \<Longrightarrow>
     status_of oid u = status_of oid s \<or> status_of oid u = Some fs"
  by (cases "row_of oid s")
    (auto simp: refund_exec_def update_one_def status_of_def row_of_set_row split: call_outcome.splits)

lemma idle_after: "money_allowed oid m Idle c \<Longrightarrow> \<not> money_call oid c \<Longrightarrow> money_after oid Idle c a \<noteq> Idle \<Longrightarrow>
     c = R_Claim oid \<and> counted a \<and> money_after oid Idle c a = Claimed"
  by (cases c) (auto split: if_splits)

definition nothing_kept :: "int \<Rightarrow> refund_db \<Rightarrow> bool" where
  "nothing_kept oid s \<longleftrightarrow> ((\<exists>st. status_of oid s = Some st \<and> refundable st) \<longrightarrow>
     audited oid RollbackFailed s \<or> moved oid s = 0)"

lemma money_step_kept:
  assumes inv: "money_inv oid m s phs" and i: "i < length phs" and al: "money_allowed oid m (phs ! i) c"
    and ex: "refund_exec e c s = (a, u)" and mc: "\<not> money_call oid c"
  shows "nothing_kept oid u"
proof -
  have same: "moved oid u = moved oid s" "audited oid RollbackFailed u = audited oid RollbackFailed s"
    using exec_money [OF ex mc] by auto
  have ok: "phase_ok m (moved oid s) (audited oid RollbackFailed s) (phs ! i)"
    and nk: "nothing_kept oid s" using inv i by (auto simp: money_inv_def nothing_kept_def)
  consider (same) "row_of oid u = row_of oid s" | (claim) "status_of oid u = Some OS_Refunding"
    | (owner) "owner_call oid c"
    using refund_exec_rows [OF ex, of oid] mc al by (cases c) (auto simp: row_effect_def status_of_def)
  then show ?thesis
  proof cases
    case owner
    then have "settled (phs ! i) \<or> (\<exists>fs b r now f. c = R_Set_Refunded oid fs b r now f \<and> \<not> refundable fs) \<and> phs ! i \<noteq> Idle"
      using al by (cases c) auto
    then show ?thesis
    proof
      assume "settled (phs ! i)" then show ?thesis using ok same by (auto simp: nothing_kept_def)
    next
      assume "(\<exists>fs b r now f. c = R_Set_Refunded oid fs b r now f \<and> \<not> refundable fs) \<and> phs ! i \<noteq> Idle"
      then show ?thesis using set_refunded_status ex holder_status [OF inv i]
        by (fastforce simp: nothing_kept_def refundable_def)
    qed
  qed (use nk same in \<open>auto simp: nothing_kept_def status_of_def refundable_def\<close>)
qed

lemma money_step:
  assumes inv: "money_inv oid m s phs" and i: "i < length phs" and al: "money_allowed oid m (phs ! i) c"
    and re: "reliable oid e c" and ex: "refund_exec e c s = (a, u)"
  shows "money_inv oid m u (phs[i := money_after oid (phs ! i) c a])"
proof -
  let ?x = "money_after oid (phs ! i) c a"
  have excl: "excl_inv oid s (map (\<lambda>p. p \<noteq> Idle) phs)" using inv by (simp add: money_inv_def)
  from excl_step [OF this _ _ ex, of i] money_excl [OF al] i
  have 1: "excl_inv oid u (map (\<lambda>p. p \<noteq> Idle) (phs[i := ?x]))" by (simp add: map_update)
  have 2: "\<forall>r. row_of oid u = Some r \<longrightarrow> limit_of r \<le> m"
    using exec_limit [OF ex] inv by (force simp: money_inv_def)
  have 3: "0 \<le> moved oid u \<and> moved oid u \<le> m \<and> nothing_kept oid u \<and>
    (\<forall>p \<in> set (phs[i := ?x]). phase_ok m (moved oid u) (audited oid RollbackFailed u) p)"
  proof (cases "money_call oid c")
    case True
    note st = money_call_step [OF inv i al re ex True]
    then have "nothing_kept oid u" using holder_status [OF inv i]
      by (auto simp: nothing_kept_def refundable_def status_of_def)
    then show ?thesis using st all_phases [OF excl i] by auto
  next
    case False
    have same: "moved oid u = moved oid s" "audited oid RollbackFailed u = audited oid RollbackFailed s"
      using exec_money [OF ex False] by auto
    have "\<forall>p \<in> set (phs[i := ?x]). phase_ok m (moved oid s) (audited oid RollbackFailed s) p"
    proof (cases "phs ! i = Idle")
      case True
      have "phase_ok m (moved oid s) (audited oid RollbackFailed s) ?x"
      proof (cases "?x = Idle")
        case False
        with idle_after [of oid m c a] al True \<open>\<not> money_call oid c\<close>
        have c: "c = R_Claim oid" "counted a" "?x = Claimed" by auto
        then have "\<exists>r. row_of oid s = Some r \<and> refundable (row_status r)"
          using ex by (auto simp: refund_exec_def sql_claim_def counted_def
              split: call_outcome.splits option.splits if_splits)
        then show ?thesis using inv c by (auto simp: money_inv_def status_of_def)
      qed simp
      then show ?thesis using inv set_update_subset_insert [of phs i ?x] by (auto simp: money_inv_def)
    next
      case False
      then show ?thesis using all_phases [OF excl i] money_other_step [OF inv i al re ex \<open>\<not> money_call oid c\<close>] by blast
    qed
    then show ?thesis using same inv money_step_kept [OF inv i al ex False] by (simp add: money_inv_def)
  qed
  show ?thesis using 1 2 3 by (simp add: money_inv_def nothing_kept_def)
qed

interpretation money: phased_pool refund_exec "reliable oid" "money_answer oid m" "money_allowed oid m"
  "money_after oid" Idle "money_inv oid m" for oid m
proof unfold_locales
  show "money_inv oid m s phs \<Longrightarrow> money_inv oid m s (phs @ [Idle])" for s phs
    by (auto simp: money_inv_def excl_inv_def holders_def)
qed (fact money_answers, fact money_step)

end
