(* ===== verification/Refund_Deductions.thy ===== *)
theory Refund_Deductions
  imports Refund_Money
begin

text \<open>
  Every request keeps to the phases of \<open>Refund_Money\<close>, and what follows for the balance of a user
  and for the state of an order.
\<close>

section \<open>Calls that leave a phase as it is\<close>

definition inert :: "int \<Rightarrow> refund_call \<Rightarrow> bool" where
  "inert oid c \<longleftrightarrow> \<not> money_call oid c \<and> \<not> owner_call oid c \<and> \<not> gateway_of oid c \<and> \<not> finalize_of oid c \<and>
     c \<noteq> R_Claim oid \<and> c \<noteq> R_Has_Audit oid RollbackFailed"

lemma money_inert [simp]:
  "inert oid c \<Longrightarrow> money_allowed oid m ph c" "inert oid c \<Longrightarrow> money_after oid ph c a = ph"
  by (cases c; auto simp: inert_def)+

lemma inert_simps [simp]:
  "inert oid R_Now" "inert oid (R_Order x)" "inert oid R_Instances" "inert oid (R_User uid)"
  "inert oid (R_Active_Sub uid g)" "inert oid (R_Pending_Audit x)" "inert oid (R_Extend sid d)" "inert oid (R_Sub sid)"
  "inert oid (R_Sub_Delete sid)" "inert oid (R_Invalidate uid k)" "inert oid (R_Provider inst)"
  "inert oid (R_Gateway_Query x t n i b)"
  "act \<noteq> RollbackFailed \<Longrightarrow> inert oid (R_Audit x act det)"
  by (simp_all add: inert_def)

lemma money_audit [simp]:
  "act \<noteq> RollbackFailed \<Longrightarrow> money.follows oid m Q (refund_audit_log x act d) ph = Q () ph"
  by (simp add: refund_audit_log_def)

lemma money_audit_bind [simp]:
  "act \<noteq> RollbackFailed \<Longrightarrow>
     money.follows oid m Q (bind_prog (refund_audit_log x act d) f) ph = money.follows oid m Q (f ()) ph"
  by (simp add: money.follows_bind)

lemma money_refund_instance: "money.follows oid m (\<lambda>r y. y = ph) (refund_instance r) ph"
  by (simp add: refund_instance_def)

lemma money_provider: "money.follows oid m (\<lambda>r y. y = ph) (get_refund_provider r) ph"
  unfolding get_refund_provider_def
  by (rule money.follows_bindI [OF money_refund_instance]) (auto split: sum.splits option.splits)

lemma money_revoke: "money.follows oid m (\<lambda>_ y. y = ph) (revoke_subscription sid) ph"
  by (auto simp: revoke_subscription_def split: refund_answer.splits)

section \<open>Preparing\<close>

text \<open>A plan that takes at most \<open>m\<close> when it is for the order.\<close>

definition plan_within :: "int \<Rightarrow> rat \<Rightarrow> int \<Rightarrow> refund_plan \<Rightarrow> bool" where
  "plan_within oid m x p \<longleftrightarrow> plan_for x p \<and> (x = oid \<longrightarrow> rp_balance_to_deduct p \<le> m \<and> rp_refund_amount p \<le> m)"

lemma money_prep_deduct:
  "plan_within oid m x p \<Longrightarrow>
     money.follows oid m (\<lambda>d y. y = ph \<and> (\<forall>q. d = Inr q \<longrightarrow> plan_within oid m x q)) (prep_deduct r p force) ph"
  by (auto simp: prep_deduct_def Let_def plan_within_def plan_for_def split: option.splits refund_answer.splits)

lemma plan_amount_limit: "plan_amount r amt = Inr a \<Longrightarrow> a \<le> limit_of r"
  by (auto simp: plan_amount_def limit_of_def Let_def split: float64.splits if_splits)

lemma make_plan_within:
  assumes "po_id (rr_order r) = x" "x = oid \<longrightarrow> limit_of r \<le> m" "plan_amount r amt = Inr a" "0 \<le> m"
  shows "plan_within oid m x (make_plan sv r a reason force deduct)"
  using assms plan_amount_limit [OF assms(3)] by (auto simp: plan_within_def plan_for_def make_plan_def Let_def)

lemma money_prepare:
  assumes m: "0 \<le> m"
  shows "money.follows oid m (\<lambda>r y. y = ph \<and> (\<forall>p. r = Prep_Plan p \<longrightarrow> plan_within oid m x p))
    (prepare_refund sv x amt reason force deduct) ph"
proof -
  have "money.follows oid m (\<lambda>r y. y = ph \<and> (\<forall>p. r = Prep_Plan p \<longrightarrow> plan_within oid m x p))
      (bind_prog (prep_deduct r (make_plan sv r a reason force deduct) force) (\<lambda>d. Ret (case d of
        Inl early \<Rightarrow> Prep_Early early | Inr p1 \<Rightarrow> Prep_Plan p1))) ph"
    if "po_id (rr_order r) = x" "x = oid \<longrightarrow> limit_of r \<le> m" "plan_amount r amt = Inr a" for r a
    using make_plan_within [OF that m]
    by (intro money.follows_bindI [OF money_prep_deduct [of oid m x]]) (auto split: sum.splits)
  then show ?thesis using make_plan_within [OF _ _ _ m]
    by (auto simp: prepare_refund_def Let_def split: refund_answer.splits sum.splits option.splits
        intro!: money.follows_bindI [OF money_refund_instance])
qed

section \<open>Executing\<close>

text \<open>The phase of a request for the order \<open>x\<close> that has taken what its plan says, or nothing.\<close>

definition in_step :: "int \<Rightarrow> int \<Rightarrow> money_phase \<Rightarrow> bool" where
  "in_step oid x y \<longleftrightarrow> (if x = oid then settled y else y = Idle)"

definition takes_balance :: "refund_plan \<Rightarrow> bool" where
  "takes_balance p \<longleftrightarrow> rp_deduction_type p = Deduction_Balance \<and> 0 < rp_balance_to_deduct p"

definition carries :: "int \<Rightarrow> rat \<Rightarrow> int \<Rightarrow> refund_plan \<Rightarrow> money_phase \<Rightarrow> bool" where
  "carries oid m x q y \<longleftrightarrow> plan_within oid m x q \<and>
     (if x = oid then (if takes_balance q then y = Took (rp_balance_to_deduct q) else settled y) else y = Idle)"

lemma money_restore:
  "plan_within oid m x p \<Longrightarrow> in_step oid x y \<Longrightarrow> money.follows oid m (\<lambda>r _. r = z) (bind_prog (restore_status p) (\<lambda>_. Ret z)) y"
  by (auto simp: restore_status_def plan_within_def plan_for_def in_step_def)

lemma money_deduct:
  assumes "x = oid \<longrightarrow> y = Clear \<and> 0 < d \<and> d \<le> m" "x \<noteq> oid \<longrightarrow> y = Idle"
  shows "money.follows oid m (\<lambda>e z. (x = oid \<longrightarrow> z = (if e = None then Took d else Clear)) \<and> (x \<noteq> oid \<longrightarrow> z = Idle))
    (deduct_balance x uid d) y"
  using assms by (auto simp: deduct_balance_def counted_def split: refund_answer.splits)

lemma money_has_audit:
  "in_step oid x y \<Longrightarrow> (x = oid \<Longrightarrow> y = Claimed) \<Longrightarrow> money.follows oid m (\<lambda>b z.
     if x = oid then z = (if b then Skip else Clear) else z = Idle) (refund_has_audit_log x RollbackFailed) y"
  by (auto simp: refund_has_audit_log_def in_step_def split: refund_answer.splits if_splits)

lemma plan_within_update [simp]:
  "plan_within oid m x (p\<lparr>rp_sub_days := d\<rparr>) = plan_within oid m x p"
  "0 \<le> m \<Longrightarrow> plan_within oid m x p \<Longrightarrow> plan_within oid m x (p\<lparr>rp_balance_to_deduct := 0\<rparr>)"
  by (simp_all add: plan_within_def)

definition start_phase :: "int \<Rightarrow> int \<Rightarrow> money_phase" where
  "start_phase oid x = (if x = oid then Claimed else Idle)"

lemma money_take_balance:
  assumes p: "plan_within oid m x p" and m: "0 \<le> m"
  shows "money.follows oid m (\<lambda>r y. case r of Inl e \<Rightarrow> True | Inr q \<Rightarrow> carries oid m x q y \<and>
      (rp_deduction_type q = Deduction_Subscription \<longrightarrow> y = start_phase oid x)) (take_from_balance p) (start_phase oid x)"
    (is "money.follows oid m ?Q _ _")
proof (cases "takes_balance p")
  case False
  then show ?thesis using p by (auto simp: take_from_balance_def takes_balance_def carries_def start_phase_def)
next
  case True
  let ?d = "rp_balance_to_deduct p"
  have x: "rp_order_id p = x" and d: "0 < ?d" "x = oid \<longrightarrow> ?d \<le> m"
    using p True by (auto simp: plan_within_def plan_for_def takes_balance_def)
  have "money.follows oid m ?Q (if b then Ret (Inr (p\<lparr>rp_balance_to_deduct := 0\<rparr>))
          else bind_prog (deduct_balance x (po_user (rr_order (rp_order p))) ?d) (\<lambda>e. case e of
              None \<Rightarrow> Ret (Inr p)
            | Some g \<Rightarrow> bind_prog (restore_status p) (\<lambda>_. Ret (Inl (Other_Error ''deduction'' (Some g)))))) z"
    if z: "if x = oid then z = (if b then Skip else Clear) else z = Idle" for b z
  proof (cases b)
    case True
    then show ?thesis using p m z \<open>takes_balance p\<close>
      by (auto simp: carries_def takes_balance_def split: if_splits)
  next
    case False
    have "money.follows oid m ?Q (bind_prog (restore_status p) (\<lambda>_. Ret (Inl g))) y" if "in_step oid x y" for g y
      by (rule money.follows_mono [OF money_restore [OF p that]]) simp
    then show ?thesis using False p z d True
      by (auto intro!: money.follows_bindI [OF money_deduct] simp: carries_def in_step_def takes_balance_def
          split: option.splits if_splits)
  qed
  note step = this
  have audit: "money.follows oid m (\<lambda>b z. if x = oid then z = (if b then Skip else Clear) else z = Idle)
      (refund_has_audit_log x RollbackFailed) (start_phase oid x)"
    by (rule money_has_audit) (auto simp: in_step_def start_phase_def)
  show ?thesis unfolding take_from_balance_def x if_P [OF True [unfolded takes_balance_def]]
    by (rule money.follows_bindI [OF audit step])
qed

lemma money_take_subscription:
  assumes c: "carries oid m x p y"
    and y: "rp_deduction_type p = Deduction_Subscription \<longrightarrow> y = start_phase oid x"
  shows "money.follows oid m (\<lambda>r z. case r of Inl e \<Rightarrow> True | Inr q \<Rightarrow> carries oid m x q z) (take_from_subscription p) y"
    (is "money.follows oid m ?Q _ _")
proof (cases "rp_deduction_type p = Deduction_Subscription \<and> 0 < rp_sub_days p \<and> 0 < rp_subscription_id p")
  case False
  have "take_from_subscription p = Ret (Inr p)" unfolding take_from_subscription_def by (rule if_not_P [OF False])
  then show ?thesis using c by simp
next
  case True
  have x: "rp_order_id p = x" and p: "plan_within oid m x p"
    using c by (auto simp: carries_def plan_within_def plan_for_def)
  have carry: "carries oid m x q z" if "in_step oid x z" "q = p \<or> q = p\<lparr>rp_sub_days := 0\<rparr>" for q z
    using that p True by (auto simp: carries_def in_step_def takes_balance_def)
  have r: "money.follows oid m ?Q (bind_prog (restore_status p) (\<lambda>_. Ret (Inl g))) z" if "in_step oid x z" for g z
    by (rule money.follows_mono [OF money_restore [OF p that]]) simp
  have "money.follows oid m ?Q (bind_prog (revoke_subscription sid) (\<lambda>e. case e of None \<Rightarrow> Ret (Inr p)
       | Some g \<Rightarrow> bind_prog (restore_status p) (\<lambda>_. Ret (Inl (Other_Error ''revoke subscription'' (Some g)))))) z"
    if "in_step oid x z" for sid z
    using r that carry by (intro money.follows_bindI [OF money_revoke]) (auto split: option.splits)
  then have "money.follows oid m ?Q (if b then Ret (Inr (p\<lparr>rp_sub_days := 0\<rparr>))
          else Call (R_Extend (rp_subscription_id p) (- rp_sub_days p)) (\<lambda>a. case a of
              RA_Unit \<Rightarrow> Ret (Inr p)
            | RA_Would_Expire \<Rightarrow> bind_prog (revoke_subscription (rp_subscription_id p)) (\<lambda>e. case e of
                  None \<Rightarrow> Ret (Inr p)
                | Some g \<Rightarrow> bind_prog (restore_status p)
                    (\<lambda>_. Ret (Inl (Other_Error ''revoke subscription'' (Some g)))))
            | _ \<Rightarrow> bind_prog (restore_status p)
                (\<lambda>_. Ret (Inl (Other_Error ''deduct subscription days'' None))))) z" if "in_step oid x z" for b z
    using that r carry by (auto split: refund_answer.splits)
  moreover have "money.follows oid m (\<lambda>b z. if x = oid then z = (if b then Skip else Clear) else z = Idle)
      (refund_has_audit_log x RollbackFailed) y"
    using y True by (intro money_has_audit) (auto simp: in_step_def start_phase_def)
  ultimately show ?thesis unfolding take_from_subscription_def using True
    by (simp add: x) (erule money.follows_bindI, auto simp: in_step_def split: if_splits)
qed

lemma money_gateway:
  assumes "plan_for x p" "x = oid \<longrightarrow> y \<noteq> Idle"
  shows "money.follows oid m (\<lambda>_ z. z = y) (gw_refund sv p) y"
proof -
  have "money.follows oid m (\<lambda>_ z. z = y) (Call (R_Gateway_Refund x t n a r) (\<lambda>b. Ret (f b))) y" for t n a r and f :: "refund_answer \<Rightarrow> go_error + refund_response"
    using assms by auto
  then show ?thesis using assms unfolding gw_refund_def Let_def
    by (auto simp: plan_for_def intro!: money.follows_bindI [OF money_provider] split: sum.splits option.splits)
qed

lemma money_rollback:
  assumes c: "carries oid m x p y"
  shows "money.follows oid m (\<lambda>_ z. in_step oid x z) (rollback_refund p) y"
  using c by (auto simp: rollback_refund_def Let_def carries_def takes_balance_def in_step_def plan_within_def plan_for_def
      refund_audit_log_def counted_def split: refund_answer.splits if_splits)

lemma in_step_owner:
  "in_step oid x y \<Longrightarrow> money_allowed oid m y (R_Set_Status x st)"
  "in_step oid x y \<Longrightarrow> money_allowed oid m y (R_Set_Failed x now r)"
  "in_step oid x y \<Longrightarrow> money_allowed oid m y (R_Set_Pending x b r f)"
  by (auto simp: in_step_def)

lemma money_handle_gw_fail:
  assumes c: "carries oid m x p y"
  shows "money.follows oid m (\<lambda>_ _. True) (handle_gw_fail sv p g) y"
  unfolding handle_gw_fail_def Let_def
proof (rule money.follows_bindI [OF money_rollback [OF c]])
  fix ok z assume z: "in_step oid x z"
  have "rp_order_id p = x" using c by (simp add: carries_def plan_within_def plan_for_def)
  then show "money.follows oid m (\<lambda>_ _. True) (if ok then bind_prog (restore_status p) (\<lambda>_.
         bind_prog (refund_audit_log (rp_order_id p) ''REFUND_GATEWAY_FAILED'' None) (\<lambda>_.
           Ret (Inr (failed_result (''gateway failed: '' @ ps_err_msg sv (Some g) @ '', rolled back'') False))))
       else Call R_Now (\<lambda>t. case t of RA_Time now \<Rightarrow>
           Call (R_Set_Failed (rp_order_id p) now (ps_err_msg sv (Some g))) (\<lambda>_.
             bind_prog (refund_audit_log (rp_order_id p) ''REFUND_FAILED'' None) (\<lambda>_.
               Ret (Inl (internal_server ''REFUND_FAILED'' (ps_err_msg sv (Some g))))))
         | _ \<Rightarrow> Ret (Inl (err_db ''clock'')))) z"
    using in_step_owner [OF z] by (cases ok) (simp_all add: restore_status_def split: refund_answer.splits)
qed

lemma refunded_not_refundable: "\<not> refundable (refunded_status p)"
  by (simp add: refunded_status_def refundable_def)

lemma money_mark_ok:
  assumes c: "carries oid m x p y"
  shows "money.follows oid m (\<lambda>_ _. True) (mark_refund_ok p) y"
proof -
  have x: "rp_order_id p = x" using c by (simp add: carries_def plan_within_def plan_for_def)
  have "money_allowed oid m y (R_Set_Refunded x (refunded_status p) b r now f)" for b r now f
    using c refunded_not_refundable [of p] by (auto simp: carries_def split: if_splits)
  then show ?thesis by (simp add: mark_refund_ok_def x split: refund_answer.splits)
qed

lemma money_mark_pending:
  assumes c: "carries oid m x p y"
  shows "money.follows oid m (\<lambda>_ _. True) (mark_refund_pending p resp) y"
  unfolding mark_refund_pending_def
proof (rule money.follows_bindI [OF money_rollback [OF c]])
  fix ok z assume z: "in_step oid x z"
  have "rp_order_id p = x" using c by (simp add: carries_def plan_within_def plan_for_def)
  then show "money.follows oid m (\<lambda>_ _. True)
     (Call (R_Set_Pending (rp_order_id p) (rp_refund_amount p) (rp_reason p) (rp_force p)) (\<lambda>a. case a of
         RA_Unit \<Rightarrow> bind_prog (refund_audit_log (rp_order_id p) ''REFUND_PENDING''
             (Some \<lparr>pd_refund_id = trim_space (rf_refund_id resp), pd_rollback_ok = ok\<rparr>)) (\<lambda>_.
           Ret (Inr (failed_result (''gateway refund is pending confirmation'' @
             (if ok then '''' else ''; refund deduction rollback failed'')) False)))
       | _ \<Rightarrow> Ret (Inl (err_db ''mark refund pending'')))) z"
    using in_step_owner [OF z] by (simp split: refund_answer.splits)
qed

lemma money_after_take:
  assumes c: "carries oid m x p y"
    and y: "rp_deduction_type p = Deduction_Subscription \<longrightarrow> y = start_phase oid x"
  shows "money.follows oid m (\<lambda>_ _. True) (bind_prog (take_from_subscription p) (\<lambda>r2. case r2 of
      Inl e \<Rightarrow> Ret (Inl e) | Inr p2 \<Rightarrow> bind_prog (gw_refund sv p2) (\<lambda>g. case g of
        Inl e \<Rightarrow> handle_gw_fail sv p2 e | Inr resp \<Rightarrow> finish_refund sv p2 resp))) y"
proof -
  have fin: "money.follows oid m (\<lambda>_ _. True) (finish_refund sv q resp) z" if "carries oid m x q z" for q z resp
    using that by (auto simp: finish_refund_def money_handle_gw_fail money_mark_ok money_mark_pending split: option.splits)
  have gw: "money.follows oid m (\<lambda>_ _. True) (bind_prog (gw_refund sv q) (\<lambda>g. case g of
      Inl e \<Rightarrow> handle_gw_fail sv q e | Inr resp \<Rightarrow> finish_refund sv q resp)) z" if q: "carries oid m x q z" for q z
  proof (rule money.follows_bindI [OF money_gateway])
    show "plan_for x q" "x = oid \<longrightarrow> z \<noteq> Idle" using q by (auto simp: carries_def plan_within_def split: if_splits)
  qed (use fin [OF q] money_handle_gw_fail [OF q] in \<open>auto split: sum.splits\<close>)
  show ?thesis by (rule money.follows_bindI [OF money_take_subscription [OF c y]]) (auto simp: gw split: sum.splits)
qed

lemma money_execute:
  assumes p: "plan_within oid m x p" and m: "0 \<le> m"
  shows "money.follows oid m (\<lambda>_ _. True) (execute_refund sv p) Idle"
proof -
  have x: "rp_order_id p = x" using p by (simp add: plan_within_def plan_for_def)
  have "money.follows oid m (\<lambda>_ _. True) (bind_prog (take_from_balance p) (\<lambda>r1. case r1 of
      Inl e \<Rightarrow> Ret (Inl e) | Inr p1 \<Rightarrow> bind_prog (take_from_subscription p1) (\<lambda>r2. case r2 of
        Inl e \<Rightarrow> Ret (Inl e) | Inr p2 \<Rightarrow> bind_prog (gw_refund sv p2) (\<lambda>g. case g of
          Inl e \<Rightarrow> handle_gw_fail sv p2 e | Inr resp \<Rightarrow> finish_refund sv p2 resp)))) (start_phase oid x)"
    by (rule money.follows_bindI [OF money_take_balance [OF p m]]) (auto simp: money_after_take split: sum.splits)
  then show ?thesis unfolding execute_refund_def
    by (auto simp: x counted_def start_phase_def split: refund_answer.splits if_splits)
qed

lemma money_query:
  assumes x: "x \<noteq> oid"
  shows "money.follows oid m (\<lambda>_ _. True) (query_and_finalize_refund sv x) Idle"
proof -
  have f: "money.follows oid m (\<lambda>_ _. True) (finalize_success p) Idle" if "plan_within oid m y p" "y \<noteq> oid" for p y
    using that by (auto simp: finalize_success_def plan_within_def plan_for_def)
  have d: "money.follows oid m (\<lambda>e y. y = Idle \<and> (\<forall>q. e = Inr q \<longrightarrow> plan_within oid m (po_id (rr_order r)) q))
      (finalize_deduction sv r det) Idle" if x: "po_id (rr_order r) \<noteq> oid" for r det
  proof -
    have p: "plan_within oid m (po_id (rr_order r)) (refund_finalize_plan sv r)"
      using x by (simp add: plan_within_def plan_for_def refund_finalize_plan_def Let_def)
    then have "plan_within oid m (po_id (rr_order r)) ((refund_finalize_plan sv r)\<lparr>rp_balance_to_deduct := 0, rp_sub_days := 0\<rparr>)"
      using x by (simp add: plan_within_def)
    then show ?thesis using money_prep_deduct [OF p] p by (simp add: finalize_deduction_def Let_def)
  qed
  have failed: "money.follows oid m (\<lambda>_ _. True) (finalize_refund_failed sv r g) Idle"
    if "po_id (rr_order r) \<noteq> oid" for r g
    using that by (auto simp: finalize_refund_failed_def Let_def split: refund_answer.splits)
  have l: "money.follows oid m (\<lambda>_ y. y = Idle) (latest_refund_pending_detail y) Idle" for y
    by (simp add: latest_refund_pending_detail_def)
  have fin: "money.follows oid m (\<lambda>_ _. True) (bind_prog (finalize_deduction sv r det) (\<lambda>d. case d of
        Inl early \<Rightarrow> Ret (Inr early)
      | Inr p \<Rightarrow> if pending
          then bind_prog (refund_audit_log (po_id (rr_order r)) ''REFUND_QUERY_PENDING'' None) (\<lambda>_.
            Ret (Inr (failed_result ''gateway refund is still pending confirmation'' False)))
          else finalize_success p)) Idle" if r: "po_id (rr_order r) \<noteq> oid" for r det pending
    by (rule money.follows_bindI [OF d [OF r]]) (use r in \<open>auto simp: f split: sum.splits\<close>)
  show ?thesis using x unfolding query_and_finalize_refund_def
    by (auto intro!: money.follows_bindI [OF money_provider] money.follows_bindI [OF l]
        simp: failed fin split: refund_answer.splits sum.splits option.splits if_splits)
qed

lemma money_serve:
  assumes "0 \<le> m" "q \<noteq> Rq_Finalize oid"
  shows "money.follows oid m (\<lambda>_ _. True) (serve_refund sv q) Idle"
proof (cases q)
  case (Rq_Refund x amt reason force deduct)
  show ?thesis unfolding Rq_Refund serve_refund.simps process_refund_def
    by (rule money.follows_bindI [OF money_prepare [OF assms(1)]])
      (use assms(1) in \<open>auto split: prepared.splits intro: money_execute\<close>)
qed (use assms in \<open>auto intro: money_query\<close>)

section \<open>The property\<close>

text \<open>
  Claim C16. Take any schedule of refund requests for an order, without queries of the order, and of any
  requests for other orders, on any number of instances, with crashes and lost calls, in which
  (\<open>reliable\<close>) the entry \<open>REFUND_ROLLBACK_FAILED\<close> of the order can be read and written and a change of the
  balance for it is not answered with an error after its effect. What refunds of the order took from the balance is
  never negative and at most its amount plus the tolerance of its currency, and it is nothing while
  the order can still be refunded, unless the entry is there. The balance of a user is always what
  it was at first less what refunds took.
\<close>

theorem refund_deducted_once:
  assumes start: "row_of oid s = Some r" "refundable (row_status r)" "0 \<le> limit_of r" "rd_moves s = []"
      "rd_users s uid = Some u"
    and evs: "Start (Rq_Finalize oid) \<notin> set evs" "admits (reliable oid) refund_exec (serve_refund sv) evs ([], s)"
    and run: "run_pool refund_exec (serve_refund sv) evs ([], s) = (ps, t)"
  shows "0 \<le> moved oid t \<and> moved oid t \<le> limit_of r \<and>
    (\<forall>st. status_of oid t = Some st \<longrightarrow> refundable st \<longrightarrow> \<not> audited oid RollbackFailed t \<longrightarrow> moved oid t = 0) \<and>
    (\<exists>v. rd_users t uid = Some v \<and> us_balance v = us_balance u - moved_user uid t)"
proof -
  let ?m = "limit_of r"
  have "money.in_phases oid ?m ([] :: (go_error + refund_result) refund list) s []"
    using start by (simp add: money.in_phases_def money_inv_def excl_inv_def holders_def moved_def)
  moreover have "money.follows oid ?m (\<lambda>_ _. True) (serve_refund sv q) Idle" if "Start q \<in> set evs" for q
    using that evs(1) start(3) by (intro money_serve) auto
  ultimately obtain phs where "money.in_phases oid ?m ps t phs"
    using money.run_pool_phases [OF _ _ evs(2) run] by blast
  then have inv: "money_inv oid ?m t phs" by (simp add: money.in_phases_def)
  have "balance_books uid (us_balance u) s" using start by (simp add: balance_books_def moved_user_def)
  then have "balance_books uid (us_balance u) t"
    using run_pool_keeps [of "balance_books uid (us_balance u)", OF books_exec _ run] by blast
  then show ?thesis using inv by (auto simp: money_inv_def balance_books_def)
qed

end
