(* ===== verification/Refund_Outcome.thy ===== *)
theory Refund_Outcome
  imports Refund_Deductions
begin

text \<open>
  One refund that no other request disturbs and whose calls reach the tables: what it leaves for each
  answer of the gateway, and the amount it asks the gateway to return.
\<close>

section \<open>Undisturbed calls\<close>

definition undisturbed :: "refund_choice \<Rightarrow> bool" where
  "undisturbed e \<longleftrightarrow> fc_outcome e = Done"

lemma exec_undisturbed: "undisturbed e \<Longrightarrow> refund_exec e c s = refund_stmt e c s"
  by (cases c) (auto simp: undisturbed_def refund_exec_def)

definition balance_of :: "int \<Rightarrow> refund_db \<Rightarrow> rat option" where
  "balance_of uid s = map_option us_balance (rd_users s uid)"

lemma users_simps [simp]:
  "rd_users (set_row x f s) = rd_users s" "rd_users (move_balance x y t g u s) = (rd_users s)(y \<mapsto> g u)"
  by (simp_all add: set_row_def move_balance_def)

lemma rows_frame [simp]:
  "rd_instances (set_row x f s) = rd_instances s" "rd_instances (move_balance x y t g u s) = rd_instances s"
  by (simp_all add: set_row_def move_balance_def)

text \<open>The state after \<open>writeAuditLog\<close>; an entry that is there already is left.\<close>

definition logged :: "time \<Rightarrow> int \<Rightarrow> string \<Rightarrow> refund_pending_audit_detail option \<Rightarrow> refund_db \<Rightarrow> refund_db" where
  "logged now oid act d s = snd (add_audit now oid act d s)"

lemma logged_simps [simp]:
  "row_of x (logged now oid act d s) = row_of x s" "rd_users (logged now oid act d s) = rd_users s"
  "rd_instances (logged now oid act d s) = rd_instances s"
  by (auto simp: logged_def add_audit_def)

lemma run_audit: "undisturbed e \<Longrightarrow> run_alone refund_exec e (refund_audit_log oid act d) s =
    ((), logged (fc_now e) oid act d s)"
  by (simp add: refund_audit_log_def exec_undisturbed logged_def split: prod.splits)

section \<open>The steps of a refund\<close>

definition gateway_says :: "refund_choice \<Rightarrow> refund_row \<Rightarrow> refund_response \<Rightarrow> bool" where
  "gateway_says e r resp \<longleftrightarrow> undisturbed e \<and> fc_error e = None \<and> fc_response e = Some resp \<and>
     (case fc_provider e of None \<Rightarrow> False
      | Some (k, md, q) \<Rightarrow> validate_provider_snapshot_metadata (rr_order r) k md = None)"

definition refund_ready :: "refund_row \<Rightarrow> refund_db \<Rightarrow> bool" where
  "refund_ready r s \<longleftrightarrow>
     (case get_refund_order_provider_instance (map fst (rd_instances s)) (rr_order r) of
        Inr (Some inst) \<Rightarrow> list_ex (\<lambda>x. pi_id (fst x) = pi_id inst \<and> snd x) (rd_instances s)
      | _ \<Rightarrow> False)"

lemma run_refund_instance:
  assumes "undisturbed e" "refund_ready r s"
  shows "\<exists>inst. run_alone refund_exec e (refund_instance r) s = (Inr (Some (inst, True)), s)"
  using assms by (auto simp: refund_instance_def exec_undisturbed refund_ready_def split: sum.splits option.splits)

lemma run_gateway:
  assumes "gateway_says e (rp_order p) resp" "refund_ready (rp_order p) s" "po_trade_no (rr_order (rp_order p)) \<noteq> []"
  shows "run_alone refund_exec e (gw_refund sv p) s =
    (case validate_refund_provider_response (Some resp) of Some g \<Rightarrow> Inl g | None \<Rightarrow> Inr resp, s)"
proof -
  obtain inst where "run_alone refund_exec e (refund_instance (rp_order p)) s = (Inr (Some (inst, True)), s)"
    using run_refund_instance [of e "rp_order p" s] assms(1,2) by (auto simp: gateway_says_def)
  then show ?thesis using assms
    by (auto simp: gw_refund_def Let_def get_refund_provider_def run_alone_bind gateway_says_def exec_undisturbed
        split: option.splits)
qed

abbreviation user_of :: "refund_plan \<Rightarrow> int" where "user_of p \<equiv> po_user (rr_order (rp_order p))"

lemma audited_row [simp]: "audited oid act (set_row x f s) = audited oid act s"
  by (simp add: audited_def set_row_def)

lemma run_take_balance:
  assumes "undisturbed e" "takes_balance p" "\<not> audited (rp_order_id p) RollbackFailed s" "rd_users s (user_of p) = Some u"
  shows "run_alone refund_exec e (take_from_balance p) s = (Inr p, move_balance (rp_order_id p) (user_of p)
    (rp_balance_to_deduct p) (take_balance (rp_balance_to_deduct p)) u s)"
  using assms by (auto simp: take_from_balance_def takes_balance_def run_alone_bind refund_has_audit_log_def
      deduct_balance_def exec_undisturbed sql_deduct_covered_def sql_deduct_any_def)

lemma run_take_nothing: "rp_deduction_type p = Deduction_Balance \<Longrightarrow> take_from_subscription p = Ret (Inr p)"
  by (simp add: take_from_subscription_def)

lemma run_rollback:
  assumes "undisturbed e" "takes_balance p" "rd_users s (user_of p) = Some u"
  shows "run_alone refund_exec e (rollback_refund p) s = (True, move_balance (rp_order_id p) (user_of p)
    (- rp_balance_to_deduct p) (update_balance (rp_balance_to_deduct p)) u s)"
  using assms by (auto simp: rollback_refund_def Let_def takes_balance_def exec_undisturbed sql_update_balance_def)

definition restored :: "refund_plan \<Rightarrow> order_status" where
  "restored p = (if row_status (rp_order p) = OS_Refund_Requested then OS_Refund_Requested else OS_Completed)"

text \<open>What the three ends of a refund leave.\<close>

lemma run_gw_fail:
  assumes "undisturbed e" "takes_balance p" "rd_users s (user_of p) = Some u" "row_of (rp_order_id p) s = Some r"
    and "run_alone refund_exec e (handle_gw_fail sv p g) s = (res, t)"
  shows "(\<exists>x. res = Inr x \<and> \<not> rs_success x) \<and> status_of (rp_order_id p) t = Some (restored p) \<and>
    balance_of (user_of p) t = Some (us_balance u + rp_balance_to_deduct p)"
  using assms
  by (auto simp: handle_gw_fail_def Let_def run_alone_bind run_rollback run_audit restore_status_def exec_undisturbed
      update_one_def failed_result_def status_of_def balance_of_def row_of_set_row restored_def update_balance_def)

lemma run_mark_ok:
  assumes "undisturbed e" "rd_users s (user_of p) = Some u" "row_of (rp_order_id p) s = Some r"
    and "run_alone refund_exec e (mark_refund_ok p) s = (res, t)"
  shows "(\<exists>x. res = Inr x \<and> rs_success x \<and> rs_balance_deducted x = rp_balance_to_deduct p) \<and>
    status_of (rp_order_id p) t = Some (refunded_status p) \<and> balance_of (user_of p) t = Some (us_balance u)"
proof -
  have "run_alone refund_exec e (mark_refund_ok p) s =
    (Inr \<lparr>rs_success = True, rs_warning = [], rs_require_force = False,
       rs_balance_deducted = rp_balance_to_deduct p, rs_sub_days_deducted = rp_sub_days p\<rparr>,
     logged (fc_now e) (rp_order_id p) ''REFUND_SUCCESS'' None (set_row (rp_order_id p)
       (refunded_row (refunded_status p) (rp_refund_amount p) (rp_reason p) (fc_now e) (rp_force p) (fc_now e)) s))"
    using assms(1,3) by (simp add: mark_refund_ok_def run_alone_bind run_audit exec_undisturbed update_one_def)
  then show ?thesis using assms(2-4) by (auto simp: status_of_def balance_of_def row_of_set_row)
qed

lemma run_mark_pending:
  assumes "undisturbed e" "takes_balance p" "rd_users s (user_of p) = Some u" "row_of (rp_order_id p) s = Some r"
    and "run_alone refund_exec e (mark_refund_pending p resp) s = (res, t)"
  shows "(\<exists>x. res = Inr x \<and> \<not> rs_success x) \<and> status_of (rp_order_id p) t = Some OS_Refund_Pending \<and>
    balance_of (user_of p) t = Some (us_balance u + rp_balance_to_deduct p)"
  using assms
  by (auto simp: mark_refund_pending_def run_alone_bind run_rollback run_audit exec_undisturbed update_one_def
      failed_result_def status_of_def balance_of_def row_of_set_row update_balance_def)

lemma run_execute:
  assumes e: "gateway_says e (rp_order p) resp" and p: "plan_for oid p" "takes_balance p"
    and s: "row_of oid s = Some r" "refundable (row_status r)" "refund_ready (rp_order p) s"
      "\<not> audited oid RollbackFailed s" "rd_users s (user_of p) = Some u" "po_trade_no (rr_order (rp_order p)) \<noteq> []"
  shows "run_alone refund_exec e (execute_refund sv p) s =
    run_alone refund_exec e (case validate_refund_provider_response (Some resp) of
        Some g \<Rightarrow> handle_gw_fail sv p g | None \<Rightarrow> finish_refund sv p resp)
      (move_balance oid (user_of p) (rp_balance_to_deduct p) (take_balance (rp_balance_to_deduct p)) u
        (set_row oid (set_status OS_Refunding (fc_now e)) s))"
proof -
  have u: "undisturbed e" using e by (simp add: gateway_says_def)
  have oid: "rp_order_id p = oid" using p by (simp add: plan_for_def)
  have ty: "rp_deduction_type p = Deduction_Balance" using p by (simp add: takes_balance_def)
  let ?s1 = "set_row oid (set_status OS_Refunding (fc_now e)) s"
  have "run_alone refund_exec e (take_from_balance p) ?s1 = (Inr p, move_balance oid (user_of p)
    (rp_balance_to_deduct p) (take_balance (rp_balance_to_deduct p)) u ?s1)"
    using run_take_balance [OF u p(2), of ?s1 u] s oid by simp
  moreover have "refund_ready (rp_order p) (move_balance oid (user_of p) d f u ?s1)" for d f
    using s(3) by (simp add: refund_ready_def split: sum.splits option.splits)
  ultimately show ?thesis using s(1,2) u
    by (simp add: execute_refund_def oid exec_undisturbed sql_claim_def run_alone_bind run_take_nothing [OF ty]
        run_gateway [OF e _ s(6)] split: option.splits)
qed

lemma run_prepare:
  assumes u: "undisturbed e" and s: "row_of oid s = Some r" "refundable (row_status r)" "refund_ready r s"
    "rd_users s (po_user (rr_order r)) = Some u" and o: "po_order_type (rr_order r) \<noteq> ''subscription''" "plan_amount r amt = Inr a"
  shows "run_alone refund_exec e (prepare_refund sv oid amt reason force True) s =
    (Prep_Plan ((make_plan sv r a reason force True)\<lparr>rp_deduction_type := Deduction_Balance,
       rp_balance_to_deduct := min a (us_balance u)\<rparr>), s)"
proof -
  obtain inst where "run_alone refund_exec e (refund_instance r) s = (Inr (Some (inst, True)), s)"
    using run_refund_instance [OF u s(3)] by blast
  then show ?thesis using assms
    by (simp add: prepare_refund_def exec_undisturbed run_alone_bind prep_deduct_def Let_def make_plan_def)
qed

section \<open>The outcome\<close>

text \<open>
  Claim C17. A refund of an order for balance, with a deduction, that no other request disturbs:
  when the gateway confirms it, the order is refunded, in full or in part, and the balance is less by
  the smaller of the refund and the balance; when the gateway refuses it or answers something else,
  the balance is as before and the order is again as it was requested; when the gateway answers that
  the refund is pending, the balance is as before and the order is pending.
\<close>

theorem refund_outcome:
  assumes e: "gateway_says e r resp"
    and s: "row_of oid s = Some r" "refundable (row_status r)" "refund_ready r s" "\<not> audited oid RollbackFailed s"
      "rd_users s (po_user (rr_order r)) = Some u" "0 < us_balance u"
    and ord: "po_order_type (rr_order r) \<noteq> ''subscription''" "po_trade_no (rr_order r) \<noteq> []"
      "plan_amount r amt = Inr a" "0 < a"
    and run: "run_alone refund_exec e (process_refund sv oid amt reason force True) s = (res, t)"
  shows "(refund_status resp \<in> {''success'', ''refunded''} \<longrightarrow>
      (\<exists>x. res = Inr x \<and> rs_success x \<and> rs_balance_deducted x = min a (us_balance u)) \<and>
      status_of oid t = Some (if a < po_amount (rr_order r) then OS_Partially_Refunded else OS_Refunded) \<and>
      balance_of (po_user (rr_order r)) t = Some (us_balance u - min a (us_balance u))) \<and>
    (refund_status resp = ''pending'' \<longrightarrow>
      (\<exists>x. res = Inr x \<and> \<not> rs_success x) \<and> status_of oid t = Some OS_Refund_Pending \<and>
      balance_of (po_user (rr_order r)) t = Some (us_balance u)) \<and>
    (refund_status resp \<notin> {''success'', ''refunded'', ''pending''} \<longrightarrow>
      (\<exists>x. res = Inr x \<and> \<not> rs_success x) \<and>
      status_of oid t = Some (if row_status r = OS_Refund_Requested then OS_Refund_Requested else OS_Completed) \<and>
      balance_of (po_user (rr_order r)) t = Some (us_balance u))"
proof -
  define p where "p = (make_plan sv r a reason force True)\<lparr>rp_deduction_type := Deduction_Balance,
       rp_balance_to_deduct := min a (us_balance u)\<rparr>"
  have un: "undisturbed e" using e by (simp add: gateway_says_def)
  have p: "rp_order p = r" "rp_order_id p = oid" "plan_for oid p" "takes_balance p" "rp_balance_to_deduct p = min a (us_balance u)"
    "rp_refund_amount p = a"
    using row_of_id [OF s(1)] s(6) ord(4) by (auto simp: p_def make_plan_def plan_for_def takes_balance_def Let_def)
  define s1 where "s1 = move_balance oid (user_of p) (rp_balance_to_deduct p) (take_balance (rp_balance_to_deduct p)) u
        (set_row oid (set_status OS_Refunding (fc_now e)) s)"
  have s1: "rd_users s1 (user_of p) = Some (take_balance (min a (us_balance u)) u)"
    "row_of (rp_order_id p) s1 = Some (set_status OS_Refunding (fc_now e) r)"
    using s p by (auto simp: s1_def row_of_set_row)
  have "run_alone refund_exec e (process_refund sv oid amt reason force True) s =
    run_alone refund_exec e (case validate_refund_provider_response (Some resp) of
        Some g \<Rightarrow> handle_gw_fail sv p g | None \<Rightarrow> finish_refund sv p resp) s1"
    using run_prepare [OF un s(1-3,5) ord(1,3), of sv reason force] run_execute [of e p resp oid s r u sv] e s ord p
    by (simp add: process_refund_def run_alone_bind p_def [symmetric] s1_def)
  then have run1: "run_alone refund_exec e (case validate_refund_provider_response (Some resp) of
        Some g \<Rightarrow> handle_gw_fail sv p g | None \<Rightarrow> finish_refund sv p resp) s1 = (res, t)" using run by simp
  note ends = run_gw_fail [OF un p(4) s1, of sv _ res t] run_mark_ok [OF un s1, of res t]
    run_mark_pending [OF un p(4) s1, of _ res t]
  show ?thesis using run1 ends p
    by (auto simp: validate_refund_provider_response_def finish_refund_def take_balance_def restored_def
        refunded_status_def split: if_splits)
qed

section \<open>The amount at the gateway\<close>

lemma plan_amount_pos: "plan_amount r amt = Inr a \<Longrightarrow> 0 < po_amount (rr_order r) \<Longrightarrow> 0 < a"
  by (auto simp: plan_amount_def Let_def split: float64.splits if_splits)

text \<open>
  Claim C18. For every refund that is admitted, the amount the gateway is asked to return is not
  negative and at most what was paid; it is all that was paid when the refund is the whole amount
  within the tolerance of the currency, and otherwise the share of the refund, rounded to the
  fraction digits of the currency. The paid amount has at most 16 decimal places.
\<close>

theorem gateway_refund_bounds:
  assumes plan: "plan_amount r amt = Inr a" and pos: "0 < po_amount (rr_order r)" "0 < po_pay_amount (rr_order r)"
    and pay: "fixed (po_pay_amount (rr_order r)) 16 = po_pay_amount (rr_order r)"
    and g: "g = rp_gateway_amount (make_plan sv r a reason force deduct)"
    and cur: "cur = payment_order_currency (rr_order r)" and n: "n = currency_max_fraction_digits cur"
  shows "0 \<le> g \<and> g \<le> fixed (po_pay_amount (rr_order r)) n \<and>
    (if \<bar>a - po_amount (rr_order r)\<bar> \<le> payment_amount_tolerance_for_currency cur
     then g = fixed (po_pay_amount (rr_order r)) n
     else \<bar>g - po_pay_amount (rr_order r) * a / po_amount (rr_order r)\<bar> \<le> 1 / (2 * 10 ^ n) + 1 / (2 * 10 ^ 16))"
proof -
  let ?o = "po_amount (rr_order r)" let ?p = "po_pay_amount (rr_order r)"
  have a: "0 < a" using plan_amount_pos [OF plan pos(1)] .
  have g': "g = (if \<bar>a - ?o\<bar> \<le> payment_amount_tolerance_for_currency cur then fixed ?p n
    else fixed (fixed (?p * a / ?o) 16) n)"
    using g pos a by (simp add: make_plan_def Let_def calculate_gateway_refund_amount_def cur n)
  show ?thesis
  proof (cases "\<bar>a - ?o\<bar> \<le> payment_amount_tolerance_for_currency cur")
    case True
    then show ?thesis using g' pos fixed_nonneg [of ?p n] by simp
  next
    case False
    then have "a \<le> ?o" using plan_amount_limit [OF plan] by (auto simp: limit_of_def cur abs_if split: if_splits)
    then have share: "0 \<le> ?p * a / ?o" "?p * a / ?o \<le> ?p" using pos a by (auto simp: divide_le_eq)
    let ?q = "fixed (?p * a / ?o) 16"
    have q: "0 \<le> ?q" "?q \<le> ?p" using fixed_nonneg [OF share(1)] fixed_mono [OF share, of 16] pay by auto
    have "\<bar>fixed ?q n - ?q\<bar> \<le> 1 / (2 * 10 ^ n)" "\<bar>?q - ?p * a / ?o\<bar> \<le> 1 / (2 * 10 ^ 16)"
      by (rule fixed_error)+
    then have "\<bar>fixed ?q n - ?p * a / ?o\<bar> \<le> 1 / (2 * 10 ^ n) + 1 / (2 * 10 ^ 16)" by linarith
    then show ?thesis using False g' fixed_nonneg [OF q(1)] fixed_mono [OF q] by simp
  qed
qed

end
