(* ===== verification/Refund_Examples.thy ===== *)
theory Refund_Examples
  imports Refund_Outcome
begin

text \<open>
  Concrete refunds: the hypotheses of the theorems hold on them, and five of them show where the code
  departs from what it means to do.
\<close>

section \<open>An order and its user\<close>

definition paid_order :: "order_status \<Rightarrow> payment_order" where
  "paid_order st = \<lparr>po_id = 1, po_user = 7, po_amount = 100, po_pay_amount = 90, po_bonus = 0,
     po_recharge_code = ''C'', po_out_trade_no = ''O'', po_payment_type = ''stripe'', po_trade_no = ''T'',
     po_order_type = ''balance'', po_plan = None, po_group = None, po_days = None, po_status = st,
     po_provider_key = None, po_provider_instance = Some ''5'', po_snapshot = [], po_expires = 0,
     po_paid_at = Some 1, po_completed_at = Some 1, po_failed_at = None, po_failed_reason = None, po_updated = 0\<rparr>"

definition paid_row :: "order_status \<Rightarrow> refund_row" where
  "paid_row st = \<lparr>rr_order = paid_order st, rr_refund_amount = 0, rr_refund_reason = None, rr_refund_at = None,
     rr_force = False, rr_request_reason = None\<rparr>"

definition shop :: "order_status \<Rightarrow> refund_db" where
  "shop st = \<lparr>rd_rows = [paid_row st],
     rd_users = (\<lambda>u. if u = 7 then Some \<lparr>us_balance = 250, us_total_recharged = 100, us_concurrency = 1\<rparr> else None),
     rd_audit = [], rd_instances = [(\<lparr>pi_id = 5, pi_provider_key = ''stripe'', pi_supported_types = ''card''\<rparr>, True)],
     rd_subs = [], rd_moves = []\<rparr>"

definition refund_texts :: refund_service where
  "refund_texts = \<lparr>rv_error_text = (\<lambda>_. ''e''), rv_format_amount = (\<lambda>_ _. ''90''), rv_default_reason = (\<lambda>_. ''refund order:1'')\<rparr>"

text \<open>A call that reaches its target at the time \<open>t\<close>; the gateway answers with a refund id and a status.\<close>

definition answer_at :: "time \<Rightarrow> string \<Rightarrow> string \<Rightarrow> refund_choice" where
  "answer_at t rid st = \<lparr>fc_outcome = Done, fc_now = t, fc_cached = None, fc_provider = Some (''stripe'', [], True),
     fc_response = Some \<lparr>rf_refund_id = rid, rf_status = st\<rparr>, fc_error = None\<rparr>"

definition lost :: refund_choice where
  "lost = (answer_at 1 '''' ''failed'')\<lparr>fc_outcome := Lost_Before\<rparr>"

abbreviation "full_refund deduct \<equiv> process_refund refund_texts 1 (Fin 100) '''' False deduct"
abbreviation "query_refund \<equiv> query_and_finalize_refund refund_texts 1"

definition do_refund :: "bool \<Rightarrow> refund_choice \<Rightarrow> refund_db \<Rightarrow> refund_db" where
  "do_refund deduct e s = snd (run_alone refund_exec e (full_refund deduct) s)"

definition do_query :: "refund_choice \<Rightarrow> refund_db \<Rightarrow> refund_db" where
  "do_query e s = snd (run_alone refund_exec e query_refund s)"

section \<open>Where the code departs from its intention\<close>

text \<open>A refund that the gateway refuses, where the tenth call, which returns the deduction, is lost.\<close>

definition rollback_lost :: "refund_db \<Rightarrow> refund_db" where
  "rollback_lost s = snd (run_prog refund_exec (replicate 9 (answer_at 1 '''' ''failed'') @ [lost] @
     replicate 4 (answer_at 1 '''' ''failed'')) (full_refund True) s)"

definition taken_twice :: refund_db where
  "taken_twice = do_query (answer_at 3 ''r'' ''success'') (do_refund True (answer_at 2 ''r'' ''pending'')
     (rollback_lost (shop OS_Completed)))"

text \<open>
  A refund of 100 whose rollback failed and that is retried, answered as pending and then
  confirmed takes 200 from the balance: the retry has nothing to roll back and records that the
  rollback was fine, and the confirmation deducts once more.
\<close>

theorem refund_deducted_twice:
  "balance_of 7 (shop OS_Completed) = Some 250 \<and>
   balance_of 7 (rollback_lost (shop OS_Completed)) = Some 150 \<and>
   audited 1 RollbackFailed (rollback_lost (shop OS_Completed)) \<and>
   balance_of 7 taken_twice = Some 50 \<and> status_of 1 taken_twice = Some OS_Refunded"
  by code_simp

text \<open>A refund without a deduction that is answered as pending takes the amount when it is confirmed.\<close>

theorem refund_unwanted_deduction:
  "balance_of 7 (do_refund False (answer_at 1 ''r'' ''pending'') (shop OS_Completed)) = Some 250 \<and>
   balance_of 7 (do_query (answer_at 2 ''r'' ''success'')
     (do_refund False (answer_at 1 ''r'' ''pending'') (shop OS_Completed))) = Some 150"
  by code_simp

text \<open>A second pending refund of an order is queried with the id of the first one.\<close>

definition next_call :: "'r refund \<Rightarrow> refund_call option" where
  "next_call p = (case p of Call c k \<Rightarrow> Some c | Ret r \<Rightarrow> None)"

definition second_pending :: refund_db where
  "second_pending = do_refund True (answer_at 3 ''second'' ''pending'') (do_query (answer_at 2 ''first'' ''failed'')
     (do_refund True (answer_at 1 ''first'' ''pending'') (shop OS_Completed)))"

theorem refund_stale_id:
  "next_call (fst (run_prog refund_exec (replicate 4 (answer_at 4 ''second'' ''success'')) query_refund second_pending)) =
     Some (R_Gateway_Query 1 ''T'' ''O'' ''first'' ''90'')"
  by code_simp

text \<open>A refund that the gateway refuses counts as a recharge.\<close>

theorem refund_counts_as_recharge:
  "map_option us_total_recharged (rd_users (do_refund True (answer_at 1 '''' ''failed'') (shop OS_Completed)) 7) = Some 200"
  by code_simp

text \<open>
  A query, started first, learns that a pending refund failed; a second refund is about to ask the
  gateway when the query writes the failure; a third one follows.
\<close>

definition race :: "(refund_request, refund_choice) event list" where
  "race = [Start (Rq_Finalize 1), Start (Rq_Refund 1 (Fin 100) '''' False True), Start (Rq_Refund 1 (Fin 100) '''' False True)] @
     replicate 6 (Step 0 (answer_at 1 ''r'' ''failed'')) @ replicate 8 (Step 1 (answer_at 2 ''r'' ''success'')) @
     [Step 0 (answer_at 3 ''r'' ''failed'')] @ replicate 8 (Step 2 (answer_at 4 ''r'' ''success''))"

definition gateway_requests :: "(refund_request, refund_choice) event list \<Rightarrow> refund_db \<Rightarrow> nat" where
  "gateway_requests evs s =
     length (filter (at_gateway 1) (fst (run_pool refund_exec (serve_refund refund_texts) evs ([], s))))"

text \<open>
  When a query reports a failed refund, the failure is written without regard to the
  status of the order, and two requests refund the order at the gateway at the same time.
\<close>

theorem refund_lock_broken: "gateway_requests race (shop OS_Refund_Pending) = 2"
  by code_simp

section \<open>Witnesses\<close>

definition calm :: "(refund_request, refund_choice) event list" where
  "calm = [Start (Rq_Refund 1 (Fin 100) '''' False True), Start (Rq_Refund 1 (Fin 100) '''' False True)] @
     replicate 3 (Step 0 (answer_at 1 ''r'' ''success'')) @ replicate 8 (Step 1 (answer_at 2 ''r'' ''success'')) @
     replicate 5 (Step 0 (answer_at 3 ''r'' ''success''))"

definition calm_end :: "(go_error + refund_result) refund list \<times> refund_db" where
  "calm_end = run_pool refund_exec (serve_refund refund_texts) calm ([], shop OS_Completed)"

lemma calm_admits:
  "admits (query_ok 1) refund_exec (serve_refund refund_texts) calm ([], shop OS_Completed)"
  "admits (reliable 1) refund_exec (serve_refund refund_texts) calm ([], shop OS_Completed)"
  by code_simp+

lemma calm_run:
  "run_pool refund_exec (serve_refund refund_texts) calm ([], shop OS_Completed) = (fst calm_end, snd calm_end)"
  by (simp add: calm_end_def)

lemma calm_progress: "moved 1 (snd calm_end) = 100" "status_of 1 (snd calm_end) = Some OS_Refunding"
  by code_simp+

theorem refund_exclusive_witness:
  "length (filter (at_gateway 1) (fst calm_end)) \<le> 1 \<and> status_of 1 (snd calm_end) = Some OS_Refunding"
  using refund_exclusive [OF calm_admits(1) calm_run] calm_progress by simp

lemma shop_facts:
  "row_of 1 (shop OS_Completed) = Some (paid_row OS_Completed)" "refundable (row_status (paid_row OS_Completed))"
  "limit_of (paid_row OS_Completed) = 10001 / 100" "rd_moves (shop OS_Completed) = []"
  "rd_users (shop OS_Completed) 7 = Some \<lparr>us_balance = 250, us_total_recharged = 100, us_concurrency = 1\<rparr>"
  "refund_ready (paid_row OS_Completed) (shop OS_Completed)" "\<not> audited 1 RollbackFailed (shop OS_Completed)"
  by code_simp+

theorem refund_deducted_once_witness:
  "0 \<le> moved 1 (snd calm_end) \<and> moved 1 (snd calm_end) \<le> 10001 / 100 \<and>
    (\<exists>v. rd_users (snd calm_end) 7 = Some v \<and> us_balance v = 250 - moved_user 7 (snd calm_end))"
  using refund_deducted_once [OF shop_facts(1,2) _ shop_facts(4,5) _ calm_admits(2) calm_run] shop_facts(3)
  by (simp add: calm_def)

theorem refund_outcome_witness:
  "status_of 1 (do_refund True (answer_at 1 ''r'' ''success'') (shop OS_Completed)) = Some OS_Refunded \<and>
   balance_of 7 (do_refund True (answer_at 1 ''r'' ''success'') (shop OS_Completed)) = Some 150"
proof -
  let ?e = "answer_at 1 ''r'' ''success''"
  have "run_alone refund_exec ?e (full_refund True) (shop OS_Completed) =
    (fst (run_alone refund_exec ?e (full_refund True) (shop OS_Completed)), do_refund True ?e (shop OS_Completed))"
    by (simp add: do_refund_def)
  moreover have "gateway_says ?e (paid_row OS_Completed) \<lparr>rf_refund_id = ''r'', rf_status = ''success''\<rparr>"
    "refund_status \<lparr>rf_refund_id = ''r'', rf_status = ''success''\<rparr> = ''success''"
    "plan_amount (paid_row OS_Completed) (Fin 100) = Inr 100"
    by code_simp+
  ultimately show ?thesis
    using refund_outcome [of ?e "paid_row OS_Completed" "\<lparr>rf_refund_id = ''r'', rf_status = ''success''\<rparr>" 1
        "shop OS_Completed" "\<lparr>us_balance = 250, us_total_recharged = 100, us_concurrency = 1\<rparr>" "Fin 100" 100
        refund_texts "''''" False] shop_facts
    by (simp add: paid_row_def paid_order_def)
qed

theorem gateway_refund_bounds_witness:
  "rp_gateway_amount (make_plan refund_texts (paid_row OS_Completed) 50 '''' False True) \<le> 90"
proof -
  have "plan_amount (paid_row OS_Completed) (Fin 50) = Inr 50"
    "fixed (po_pay_amount (rr_order (paid_row OS_Completed))) 16 = po_pay_amount (rr_order (paid_row OS_Completed))"
    "fixed (po_pay_amount (rr_order (paid_row OS_Completed)))
       (currency_max_fraction_digits (payment_order_currency (rr_order (paid_row OS_Completed)))) = 90"
    "0 < po_amount (rr_order (paid_row OS_Completed))" "0 < po_pay_amount (rr_order (paid_row OS_Completed))"
    by code_simp+
  then show ?thesis using gateway_refund_bounds [of "paid_row OS_Completed" "Fin 50" 50] by simp
qed

end
