(* ===== verification/Payment_Balancer.thy ===== *)
theory Payment_Balancer
  imports Payment_Types
begin

text \<open>
  The choice of a provider instance for a new order: \<open>internal/payment/load_balancer.go\<close>. The state of
  a balancer is its 64-bit counter. The tables are arguments: the instances in their order of
  creation, and the orders with their time of creation, or \<open>None\<close> where the query fails. Parsing the
  JSON of limits and configurations, decrypting old configurations and the time zone of the
  application (its offset from UTC at each instant) are parameters (\<open>balancer_lib\<close>). A day starts at
  midnight of that zone.
\<close>

section \<open>Data\<close>

datatype strategy = Round_Robin | Least_Amount | Other_Strategy string

record channel_limits =
  cl_daily :: rat
  cl_min :: rat
  cl_max :: rat

definition no_limits :: channel_limits where
  "no_limits = \<lparr>cl_daily = 0, cl_min = 0, cl_max = 0\<rparr>"

record payment_instance =
  pn_instance :: provider_instance
  pn_enabled :: bool
  pn_sort_order :: int
  pn_config :: string
  pn_limits :: string
  pn_mode :: string

record instance_candidate =
  ic_inst :: payment_instance
  ic_used :: rat

type_synonym config = "(string \<times> string) list"

record balancer_lib =
  bl_limits :: "string \<Rightarrow> (string \<times> channel_limits) list option"
  bl_config :: "string \<Rightarrow> config option"
  bl_decrypt :: "string \<Rightarrow> string option"
  bl_itoa :: "int \<Rightarrow> string"
  bl_zone :: "time \<Rightarrow> duration"

record instance_selection =
  is_id :: string
  is_provider_key :: string
  is_config :: config
  is_supported_types :: string
  is_mode :: string

section \<open>Configurations\<close>

text \<open>\<open>bl_decrypt\<close> also answers \<open>None\<close> when the key does not have the length of an AES-256 key.\<close>

definition decrypt_config :: "balancer_lib \<Rightarrow> string \<Rightarrow> config" where
  "decrypt_config L stored = (if stored = [] then []
     else case bl_config L stored of Some c \<Rightarrow> c
     | None \<Rightarrow> (case bl_decrypt L stored of None \<Rightarrow> []
         | Some plain \<Rightarrow> (case bl_config L plain of Some c \<Rightarrow> c | None \<Rightarrow> [])))"

definition config_at :: "config \<Rightarrow> string \<Rightarrow> string" where
  "config_at c k = (case map_of c k of None \<Rightarrow> [] | Some v \<Rightarrow> v)"

definition resolve_wxpay_jsapi_app_id :: "config \<Rightarrow> string" where
  "resolve_wxpay_jsapi_app_id c = (let a = trim_space (config_at c ''mpAppId'') in
     if a \<noteq> [] then a else trim_space (config_at c ''appId''))"

definition legacy_visible_method_alias :: "string \<Rightarrow> string" where
  "legacy_visible_method_alias t = (let n = normalize_visible_method_support_type t in
     if n = TypeAlipay then ''alipay_direct'' else if n = TypeWxpay then ''wxpay_direct'' else [])"

section \<open>Candidates\<close>

definition by_sort_order :: "payment_instance list \<Rightarrow> payment_instance list" where
  "by_sort_order = sort_key pn_sort_order"

definition instance_matches :: "balancer_lib \<Rightarrow> string \<Rightarrow> string \<Rightarrow> payment_instance \<Rightarrow> bool" where
  "instance_matches L ptype app_id i = (let key = pi_provider_key (pn_instance i) in
     if ptype = TypeStripe then key = TypeStripe
     else instance_supports_type (pi_supported_types (pn_instance i)) ptype \<and>
       (app_id \<noteq> [] \<and> normalize_visible_method_support_type ptype = TypeWxpay \<and> key = TypeWxpay \<longrightarrow>
          resolve_wxpay_jsapi_app_id (decrypt_config L (pn_config i)) = app_id))"

definition query_enabled_instances ::
  "balancer_lib \<Rightarrow> payment_instance list option \<Rightarrow> string \<Rightarrow> string \<Rightarrow> string \<Rightarrow> go_error + payment_instance list" where
  "query_enabled_instances L table key ptype app_id = (case table of
     None \<Rightarrow> Inl (Other_Error ''query provider instances'' None)
   | Some all_insts \<Rightarrow>
       let insts = by_sort_order (filter (\<lambda>i. pn_enabled i \<and> (key \<noteq> [] \<longrightarrow> pi_provider_key (pn_instance i) = key)) all_insts);
           matched = filter (instance_matches L ptype (trim_space app_id)) insts
       in if matched = [] then Inl (Other_Error ''no enabled instance for payment type'' None) else Inr matched)"

text \<open>
  \<open>time.Date\<close> turns a wall clock into an instant: it reads the offset as if the wall clock were UTC, and
  when that offset is not zero reads it again at the instant this gives. Midnight of the day of \<open>t\<close> on
  the wall clock of the zone is found so.
\<close>

definition date_in_zone :: "(time \<Rightarrow> duration) \<Rightarrow> time \<Rightarrow> time" where
  "date_in_zone zone wall = (let offset = zone wall in
     if offset = 0 then wall else wall - zone (wall - offset))"

definition start_of_day :: "(time \<Rightarrow> duration) \<Rightarrow> time \<Rightarrow> time" where
  "start_of_day zone t = (let wall = t + zone t in date_in_zone zone (wall - wall mod (24 * hour)))"

definition counts_today :: "time \<Rightarrow> string \<Rightarrow> payment_order \<times> time \<Rightarrow> bool" where
  "counts_today day_start iid x \<longleftrightarrow> po_provider_instance (fst x) = Some iid \<and>
     po_status (fst x) \<in> {OS_Pending, OS_Paid, OS_Completed, OS_Recharging} \<and> day_start \<le> snd x"

definition daily_sum :: "time \<Rightarrow> string \<Rightarrow> (payment_order \<times> time) list \<Rightarrow> rat" where
  "daily_sum day_start iid orders = sum_list (map (po_pay_amount \<circ> fst) (filter (counts_today day_start iid) orders))"

definition attach_daily_usage ::
  "balancer_lib \<Rightarrow> time \<Rightarrow> (payment_order \<times> time) list option \<Rightarrow> payment_instance list \<Rightarrow> instance_candidate list" where
  "attach_daily_usage L now orders insts = map (\<lambda>i. \<lparr>ic_inst = i, ic_used = (case orders of None \<Rightarrow> 0
     | Some os \<Rightarrow> daily_sum (start_of_day (bl_zone L) now) (bl_itoa L (pi_id (pn_instance i))) os)\<rparr>) insts"

definition get_instance_channel_limits :: "balancer_lib \<Rightarrow> payment_instance \<Rightarrow> string \<Rightarrow> channel_limits" where
  "get_instance_channel_limits L i ptype = (if pn_limits i = [] then no_limits
     else case bl_limits L (pn_limits i) of None \<Rightarrow> no_limits
     | Some ls \<Rightarrow>
         let key = (if pi_provider_key (pn_instance i) = ''stripe'' then ''stripe'' else ptype);
             alt = legacy_visible_method_alias key
         in case map_of ls key of Some c \<Rightarrow> c
            | None \<Rightarrow> (if alt \<noteq> [] then (case map_of ls alt of Some c \<Rightarrow> c | None \<Rightarrow> no_limits) else no_limits))"

definition within_limits :: "channel_limits \<Rightarrow> rat \<Rightarrow> rat \<Rightarrow> bool" where
  "within_limits c used amount \<longleftrightarrow> \<not> (0 < cl_min c \<and> amount < cl_min c) \<and> \<not> (0 < cl_max c \<and> cl_max c < amount) \<and>
     \<not> (0 < cl_daily c \<and> cl_daily c < used + amount)"

definition filter_by_limits :: "balancer_lib \<Rightarrow> instance_candidate list \<Rightarrow> string \<Rightarrow> rat \<Rightarrow> instance_candidate list" where
  "filter_by_limits L cs ptype amount =
     filter (\<lambda>c. within_limits (get_instance_channel_limits L (ic_inst c) ptype) (ic_used c) amount) cs"

section \<open>Picking\<close>

fun pick_least :: "instance_candidate \<Rightarrow> instance_candidate list \<Rightarrow> instance_candidate" where
  "pick_least best [] = best"
| "pick_least best (c # cs) = pick_least (if ic_used c < ic_used best then c else best) cs"

definition pick_least_amount :: "instance_candidate list \<Rightarrow> instance_candidate" where
  "pick_least_amount cs = pick_least (hd cs) (tl cs)"

text \<open>The index is below the length of a list that is not empty; the counter wraps at its width.\<close>

definition pick_by_strategy :: "instance_candidate list \<Rightarrow> strategy \<Rightarrow> 64 word \<Rightarrow> instance_candidate \<times> 64 word" where
  "pick_by_strategy cs st counter =
     (if st = Least_Amount \<and> 1 < length cs then (pick_least_amount cs, counter)
      else let n = counter + 1 in (cs ! unat (n mod of_nat (length cs)), n))"

definition build_selection :: "balancer_lib \<Rightarrow> payment_instance \<Rightarrow> instance_selection" where
  "build_selection L i = (let c = decrypt_config L (pn_config i);
     c = (if pn_mode i \<noteq> [] then AList.update ''paymentMode'' (pn_mode i) c else c) in
     \<lparr>is_id = bl_itoa L (pi_id (pn_instance i)), is_provider_key = pi_provider_key (pn_instance i), is_config = c,
      is_supported_types = pi_supported_types (pn_instance i), is_mode = pn_mode i\<rparr>)"

definition available_candidates ::
  "balancer_lib \<Rightarrow> time \<Rightarrow> (payment_order \<times> time) list option \<Rightarrow> payment_instance list \<Rightarrow> string \<Rightarrow> rat
     \<Rightarrow> instance_candidate list" where
  "available_candidates L now orders insts ptype amount =
     (let cs = attach_daily_usage L now orders insts; ok = filter_by_limits L cs ptype amount in
      if ok = [] then cs else ok)"

definition select_instance ::
  "balancer_lib \<Rightarrow> payment_instance list option \<Rightarrow> (payment_order \<times> time) list option \<Rightarrow> time \<Rightarrow> string \<Rightarrow> string
     \<Rightarrow> string \<Rightarrow> strategy \<Rightarrow> rat \<Rightarrow> 64 word \<Rightarrow> (go_error + instance_selection) \<times> 64 word" where
  "select_instance L table orders now app_id key ptype st amount counter =
     (case query_enabled_instances L table key ptype app_id of
        Inl e \<Rightarrow> (Inl e, counter)
      | Inr insts \<Rightarrow> (case pick_by_strategy (available_candidates L now orders insts ptype amount) st counter of
          (c, counter1) \<Rightarrow> (Inr (build_selection L (ic_inst c)), counter1)))"

definition get_instance_config :: "balancer_lib \<Rightarrow> payment_instance list option \<Rightarrow> int \<Rightarrow> go_error + config" where
  "get_instance_config L table iid = (case table of None \<Rightarrow> Inl err_instance
   | Some insts \<Rightarrow> (case find (\<lambda>i. pi_id (pn_instance i) = iid) insts of
       None \<Rightarrow> Inl err_instance | Some i \<Rightarrow> Inr (decrypt_config L (pn_config i))))"

definition get_instance_daily_amount ::
  "balancer_lib \<Rightarrow> time \<Rightarrow> payment_order list option \<Rightarrow> string \<Rightarrow> go_error + rat" where
  "get_instance_daily_amount L now orders iid = (case orders of None \<Rightarrow> Inl (Other_Error ''query daily amount'' None)
   | Some os \<Rightarrow> Inr (sum_list (map po_pay_amount (filter (\<lambda>x. po_provider_instance x = Some iid \<and>
       po_status x \<in> {OS_Completed, OS_Paid, OS_Recharging} \<and>
       (case po_paid_at x of None \<Rightarrow> False | Some t \<Rightarrow> start_of_day (bl_zone L) now \<le> t)) os))))"

section \<open>The day of a limit\<close>

text \<open>Where the offset does not change around \<open>t\<close>, the day of \<open>t\<close> starts at midnight of the zone, at most 24 hours before.\<close>

lemma start_of_day_bounds:
  assumes "\<And>x. \<bar>x - t\<bar> \<le> 48 * hour \<Longrightarrow> zone x = z" "\<bar>z\<bar> \<le> 24 * hour"
  shows "start_of_day zone t \<le> t \<and> t < start_of_day zone t + 24 * hour \<and> (start_of_day zone t + z) mod (24 * hour) = 0"
proof -
  define m where "m = (t + z) mod (24 * hour)"
  have m: "0 \<le> m" "m < 24 * hour" by (simp_all add: m_def)
  have z: "zone t = z" "zone (t + z - m) = z" "zone (t - m) = z" using assms m by (simp_all add: abs_if split: if_splits)
  have "start_of_day zone t = t - m"
  proof -
    have "t + z - m - z = t - m" by simp
    then show ?thesis using z by (auto simp: start_of_day_def date_in_zone_def Let_def m_def)
  qed
  moreover have "(t - m + z) mod (24 * hour) = 0"
  proof -
    have "t - m + z = t + z - (t + z) mod (24 * hour)" by (simp add: m_def)
    then show ?thesis by (simp only: minus_mod_eq_mult_div mod_mult_self1_is_0)
  qed
  ultimately show ?thesis using m by simp
qed

section \<open>The choice respects the limits\<close>

lemma pick_least_in: "pick_least b cs \<in> set (b # cs)"
  by (induction b cs rule: pick_least.induct) (auto split: if_splits)

lemma pick_least_min: "c \<in> set (b # cs) \<Longrightarrow> ic_used (pick_least b cs) \<le> ic_used c"
  by (induction b cs arbitrary: c rule: pick_least.induct) (force split: if_splits)+

lemma unat_mod_length:
  "0 < n \<Longrightarrow> n < 2 ^ 64 \<Longrightarrow> unat ((x :: 64 word) mod of_nat n) = unat x mod n"
  by (simp add: unat_mod unat_of_nat)

lemma pick_in:
  assumes "cs \<noteq> []" "length cs < 2 ^ 64" "pick_by_strategy cs st counter = (c, counter1)"
  shows "c \<in> set cs \<and> (st = Least_Amount \<longrightarrow> (\<forall>d \<in> set cs. ic_used c \<le> ic_used d))"
proof (cases "st = Least_Amount \<and> 1 < length cs")
  case True
  then have "c = pick_least (hd cs) (tl cs)" using assms by (simp add: pick_by_strategy_def pick_least_amount_def)
  then show ?thesis using pick_least_in [of "hd cs" "tl cs"] pick_least_min [of _ "hd cs" "tl cs"] assms(1) by simp
next
  case False
  let ?i = "unat ((counter + 1) mod of_nat (length cs))"
  have "?i < length cs" using assms(1,2) by (simp add: unat_mod_length)
  moreover have "c = cs ! ?i" using False assms(3) by (auto simp: pick_by_strategy_def Let_def)
  ultimately have "c \<in> set cs" by simp
  moreover have "d = c" if "st = Least_Amount" "d \<in> set cs" for d
    using False that \<open>c \<in> set cs\<close> by (cases cs; cases "tl cs") auto
  ultimately show ?thesis by auto
qed

text \<open>The instances that may be chosen, with the use of the day.\<close>

definition eligible :: "balancer_lib \<Rightarrow> string \<Rightarrow> string \<Rightarrow> string \<Rightarrow> payment_instance \<Rightarrow> bool" where
  "eligible L key ptype app_id i \<longleftrightarrow> pn_enabled i \<and> (key \<noteq> [] \<longrightarrow> pi_provider_key (pn_instance i) = key) \<and>
     instance_matches L ptype (trim_space app_id) i"

definition used_today :: "balancer_lib \<Rightarrow> time \<Rightarrow> (payment_order \<times> time) list option \<Rightarrow> payment_instance \<Rightarrow> rat" where
  "used_today L now orders i = (case orders of None \<Rightarrow> 0
     | Some os \<Rightarrow> daily_sum (start_of_day (bl_zone L) now) (bl_itoa L (pi_id (pn_instance i))) os)"

definition fits :: "balancer_lib \<Rightarrow> time \<Rightarrow> (payment_order \<times> time) list option \<Rightarrow> string \<Rightarrow> rat \<Rightarrow> payment_instance \<Rightarrow> bool" where
  "fits L now orders ptype amount i = within_limits (get_instance_channel_limits L i ptype) (used_today L now orders i) amount"

lemma attach_set:
  "set (attach_daily_usage L now orders insts) = (\<lambda>i. \<lparr>ic_inst = i, ic_used = used_today L now orders i\<rparr>) ` set insts"
  by (simp add: attach_daily_usage_def used_today_def)

lemma available_set:
  "c \<in> set (available_candidates L now orders insts ptype amount) \<longleftrightarrow>
     ic_inst c \<in> set insts \<and> ic_used c = used_today L now orders (ic_inst c) \<and>
     ((\<exists>j \<in> set insts. fits L now orders ptype amount j) \<longrightarrow> fits L now orders ptype amount (ic_inst c))"
  by (cases c) (auto simp: available_candidates_def Let_def filter_by_limits_def filter_empty_conv attach_set fits_def)

lemma available_length: "length (available_candidates L now orders insts ptype amount) \<le> length insts"
  by (simp add: available_candidates_def Let_def filter_by_limits_def attach_daily_usage_def le_trans [OF length_filter_le])

lemma available_nonempty: "insts \<noteq> [] \<Longrightarrow> available_candidates L now orders insts ptype amount \<noteq> []"
  by (auto simp: available_candidates_def Let_def attach_daily_usage_def)

lemma query_enabled:
  "query_enabled_instances L (Some all_insts) key ptype app_id = Inr insts \<Longrightarrow>
     set insts = {i \<in> set all_insts. eligible L key ptype app_id i} \<and> insts \<noteq> [] \<and> length insts \<le> length all_insts"
  by (auto simp: query_enabled_instances_def Let_def by_sort_order_def eligible_def split: if_splits
      intro: le_trans [OF length_filter_le])

text \<open>
  Claim C25. A selection succeeds exactly when an enabled instance supports the payment type. The chosen
  instance is one of them; it has room for the order within its limits whenever one of them has; and
  under the strategy of the least amount none that could have been chosen has taken less today.
\<close>

theorem select_instance_spec:
  assumes "length all_insts < 2 ^ 64"
  shows "case select_instance L (Some all_insts) orders now app_id key ptype st amount counter of
      (Inl e, counter1) \<Rightarrow> (\<forall>i \<in> set all_insts. \<not> eligible L key ptype app_id i)
    | (Inr sel, counter1) \<Rightarrow> (\<exists>i \<in> set all_insts. eligible L key ptype app_id i \<and> sel = build_selection L i \<and>
        (\<forall>j \<in> set all_insts. eligible L key ptype app_id j \<and> fits L now orders ptype amount j \<longrightarrow>
           fits L now orders ptype amount i) \<and>
        (st = Least_Amount \<longrightarrow> (\<forall>j \<in> set all_insts. eligible L key ptype app_id j \<and>
           (fits L now orders ptype amount j \<or> \<not> fits L now orders ptype amount i) \<longrightarrow>
           used_today L now orders i \<le> used_today L now orders j)))"
proof (cases "query_enabled_instances L (Some all_insts) key ptype app_id")
  case (Inl e)
  then have "filter (instance_matches L ptype (trim_space app_id)) (by_sort_order (filter (\<lambda>i. pn_enabled i \<and>
      (key \<noteq> [] \<longrightarrow> pi_provider_key (pn_instance i) = key)) all_insts)) = []"
    by (auto simp: query_enabled_instances_def Let_def split: if_splits)
  then show ?thesis using Inl by (auto simp: select_instance_def by_sort_order_def filter_empty_conv eligible_def)
next
  case (Inr insts)
  note q = query_enabled [OF Inr]
  let ?cs = "available_candidates L now orders insts ptype amount"
  obtain c counter1 where pick: "pick_by_strategy ?cs st counter = (c, counter1)" by fastforce
  have ne: "?cs \<noteq> []" using q available_nonempty by blast
  have c: "c \<in> set ?cs" "st = Least_Amount \<Longrightarrow> d \<in> set ?cs \<Longrightarrow> ic_used c \<le> ic_used d" for d
    using pick_in [OF ne _ pick] available_length [of L now orders insts ptype amount] assms q by auto
  have i: "ic_inst c \<in> set insts" "ic_used c = used_today L now orders (ic_inst c)"
    "(\<exists>j \<in> set insts. fits L now orders ptype amount j) \<longrightarrow> fits L now orders ptype amount (ic_inst c)"
    using c(1) by (auto simp: available_set)
  have "used_today L now orders (ic_inst c) \<le> used_today L now orders j"
    if "st = Least_Amount" "j \<in> set insts" "fits L now orders ptype amount j \<or> \<not> fits L now orders ptype amount (ic_inst c)" for j
    using c(2) [of "\<lparr>ic_inst = j, ic_used = used_today L now orders j\<rparr>"] that i by (auto simp: available_set)
  then show ?thesis using Inr pick q i by (auto simp: select_instance_def intro!: bexI [of _ "ic_inst c"])
qed

section \<open>The rotation\<close>

text \<open>The choices of \<open>n\<close> orders in a row that have the same candidates.\<close>

fun picks :: "nat \<Rightarrow> instance_candidate list \<Rightarrow> strategy \<Rightarrow> 64 word \<Rightarrow> instance_candidate list" where
  "picks 0 cs st counter = []"
| "picks (Suc n) cs st counter = (case pick_by_strategy cs st counter of (c, counter1) \<Rightarrow> c # picks n cs st counter1)"

lemma picks_nth:
  assumes cs: "0 < length cs" "length cs < 2 ^ 64" and st: "st \<noteq> Least_Amount"
  shows "unat counter + n < 2 ^ 64 \<Longrightarrow> picks n cs st counter = map (\<lambda>i. cs ! ((unat counter + 1 + i) mod length cs)) [0..<n]"
proof (induction n arbitrary: counter)
  case (Suc n)
  have u: "unat (counter + 1) = unat counter + 1" using Suc.prems by (simp add: unat_word_ariths)
  have "picks (Suc n) cs st counter = cs ! ((unat counter + 1) mod length cs) # picks n cs st (counter + 1)"
    using cs st u by (simp add: pick_by_strategy_def Let_def unat_mod_length)
  also have "picks n cs st (counter + 1) = map (\<lambda>i. cs ! ((unat counter + 1 + Suc i) mod length cs)) [0..<n]"
    using Suc.IH [of "counter + 1"] Suc.prems u by simp
  finally show ?case by (simp add: map_upt_Suc del: upt_Suc)
qed simp

lemma rotate_map: "map (\<lambda>i. xs ! ((m + i) mod length xs)) [0..<length xs] = rotate m xs"
  by (rule nth_equalityI) (auto simp: nth_rotate)

text \<open>
  Claim C26. Without the strategy of the least amount, as many orders in a row as there are candidates go
  to all of them in turn: the choices are the candidates, rotated by the counter. The counter must
  not wrap meanwhile.
\<close>

theorem round_robin_rotates:
  assumes "st \<noteq> Least_Amount" "unat counter + length cs < 2 ^ 64"
  shows "picks (length cs) cs st counter = rotate (unat counter + 1) cs"
proof (cases "cs = []")
  case False
  then have "picks (length cs) cs st counter = map (\<lambda>i. cs ! ((unat counter + 1 + i) mod length cs)) [0..<length cs]"
    using assms by (intro picks_nth) auto
  also have "\<dots> = rotate (unat counter + 1) cs" by (rule rotate_map)
  finally show ?thesis .
qed simp

section \<open>Witnesses\<close>

definition demo_lib :: balancer_lib where
  "demo_lib = \<lparr>bl_limits = (\<lambda>s. if s = ''small'' then Some [(''alipay_direct'', \<lparr>cl_daily = 100, cl_min = 0, cl_max = 50\<rparr>)]
       else Some [(''alipay'', \<lparr>cl_daily = 1000, cl_min = 1, cl_max = 0\<rparr>)]),
     bl_config = (\<lambda>_. Some []), bl_decrypt = (\<lambda>_. None), bl_itoa = (\<lambda>i. if i = 1 then ''1'' else ''2''),
     bl_zone = (\<lambda>_. 8 * hour)\<rparr>"

definition demo_instance :: "int \<Rightarrow> string \<Rightarrow> string \<Rightarrow> payment_instance" where
  "demo_instance i key limits = \<lparr>pn_instance = \<lparr>pi_id = i, pi_provider_key = key, pi_supported_types = ''alipay, wxpay''\<rparr>,
     pn_enabled = True, pn_sort_order = - i, pn_config = ''c'', pn_limits = limits, pn_mode = ''qr''\<rparr>"

definition demo_table :: "payment_instance list" where
  "demo_table = [demo_instance 1 ''alipay'' ''small'', demo_instance 2 ''easypay'' ''large'']"

text \<open>
  The first order of the day: an hour after midnight in a zone eight hours ahead, which is 17:00 UTC, the
  orders of the day before, at 15:00 UTC, do not count. The second instance, which had taken 990 of its
  1000, has room for 80 again; the first takes at most 50.
\<close>

definition demo_orders :: "(payment_order \<times> time) list" where
  "demo_orders = [(\<lparr>po_id = 1, po_user = 7, po_amount = 990, po_pay_amount = 990, po_bonus = 0,
     po_recharge_code = [], po_out_trade_no = [], po_payment_type = ''alipay'', po_trade_no = [],
     po_order_type = ''balance'', po_plan = None, po_group = None, po_days = None, po_status = OS_Completed,
     po_provider_key = None, po_provider_instance = Some ''2'', po_snapshot = [], po_expires = 0,
     po_paid_at = None, po_completed_at = None, po_failed_at = None, po_failed_reason = None,
     po_updated = 0\<rparr>, 15 * hour)]"

theorem select_instance_spec_witness:
  "length demo_table < 2 ^ 64 \<and> start_of_day (bl_zone demo_lib) (17 * hour) = 16 * hour \<and>
   (case select_instance demo_lib (Some demo_table) (Some demo_orders) (17 * hour) '''' '''' ''alipay'' Least_Amount 80 0 of
      (Inl e, c) \<Rightarrow> False
    | (Inr sel, c) \<Rightarrow> is_id sel = ''2'' \<and> is_config sel = [(''paymentMode'', ''qr'')]) \<and>
   (\<exists>i \<in> set demo_table. fits demo_lib (17 * hour) (Some demo_orders) ''alipay'' 80 i \<and>
      fst (select_instance demo_lib (Some demo_table) (Some demo_orders) (17 * hour) '''' '''' ''alipay'' Least_Amount 80 0) =
        Inr (build_selection demo_lib i))"
proof -
  let ?sel = "select_instance demo_lib (Some demo_table) (Some demo_orders) (17 * hour) '''' '''' ''alipay'' Least_Amount 80 0"
  have len: "length demo_table < 2 ^ 64" by (simp add: demo_table_def)
  have day: "start_of_day (bl_zone demo_lib) (17 * hour) = 16 * hour" by code_simp
  have ok: "case ?sel of (Inl e, c) \<Rightarrow> False
    | (Inr sel, c) \<Rightarrow> is_id sel = ''2'' \<and> is_config sel = [(''paymentMode'', ''qr'')]"
    "demo_instance 2 ''easypay'' ''large'' \<in> set demo_table"
    "eligible demo_lib '''' ''alipay'' '''' (demo_instance 2 ''easypay'' ''large'')"
    "fits demo_lib (17 * hour) (Some demo_orders) ''alipay'' 80 (demo_instance 2 ''easypay'' ''large'')"
    by code_simp+
  show ?thesis using select_instance_spec [OF len, where L = demo_lib and orders = "Some demo_orders"
      and now = "17 * hour" and app_id = "''''" and key = "''''" and ptype = "''alipay''"
      and st = Least_Amount and amount = 80 and counter = 0] ok len day
    by (auto split: prod.splits sum.splits)
qed

theorem round_robin_rotates_witness:
  "picks 2 (attach_daily_usage demo_lib 0 None demo_table) Round_Robin 6 =
     rotate 7 (attach_daily_usage demo_lib 0 None demo_table)"
proof -
  have "length (attach_daily_usage demo_lib 0 None demo_table) = 2"
    by (simp add: attach_daily_usage_def demo_table_def)
  then show ?thesis using round_robin_rotates [of Round_Robin 6 "attach_daily_usage demo_lib 0 None demo_table"] by simp
qed

end
