(* ===== verification/Cost.thy ===== *)
theory Cost
  imports Money App_Errors
begin

text \<open>
  The price of a request in tokens (\<open>internal/service/billing_service.go\<close>): the card of a model, the
  usage it is applied to, the service tier, the long-context surcharge, the split of cache writes and
  the check that every bucket in use has a price.

  The fields of \<open>ModelPricing\<close> that repeat for each token bucket (price, price of the priority tier, and
  whether each was configured) are one record \<open>price_bucket\<close>, those of the above-threshold multipliers
  one record \<open>above_bucket\<close>. The labels of a price's source are not part of the card: no price depends
  on them. Amounts are exact rationals and counts are integers.
\<close>

section \<open>Data\<close>

record price_bucket =
  pb_price :: rat
  pb_priority :: rat
  pb_configured :: bool
  pb_priority_configured :: bool

record above_bucket =
  ab_mult :: rat
  ab_priority_mult :: rat
  ab_configured :: bool
  ab_priority_configured :: bool
  ab_invalid :: bool
  ab_priority_invalid :: bool

record model_pricing =
  mp_ultrafast :: rat
  mp_input :: price_bucket
  mp_output :: price_bucket
  mp_write :: price_bucket
  mp_write_5m :: price_bucket
  mp_write_1h :: price_bucket
  mp_read :: price_bucket
  mp_write_explicit :: bool
  mp_image_input :: rat
  mp_image_input_explicit :: bool
  mp_image_read :: rat
  mp_image_output :: rat
  mp_image_output_explicit :: bool
  mp_fast :: "rat option"
  mp_flex :: "rat option"
  mp_efforts :: "(string \<times> rat) list"
  mp_breakdown :: bool
  mp_long_threshold :: int
  mp_long_inclusive :: bool
  mp_long_input :: rat
  mp_long_output :: rat
  mp_above_5m :: above_bucket
  mp_above_1h :: above_bucket
  mp_above_read :: above_bucket
  mp_presence_known :: bool

record usage_tokens =
  ut_input :: int
  ut_image_input :: int
  ut_image_read :: int
  ut_output :: int
  ut_write :: int
  ut_read :: int
  ut_write_5m :: int
  ut_write_1h :: int
  ut_image_output :: int

record cost_breakdown =
  cb_input :: rat
  cb_image_input :: rat
  cb_output :: rat
  cb_image_output :: rat
  cb_write :: rat
  cb_read :: rat
  cb_total :: rat
  cb_actual :: rat
  cb_mode :: string
  cb_long :: bool

text \<open>The zero values of Go.\<close>

definition no_price :: price_bucket where
  "no_price = \<lparr>pb_price = 0, pb_priority = 0, pb_configured = False, pb_priority_configured = False\<rparr>"

definition no_above :: above_bucket where
  "no_above = \<lparr>ab_mult = 0, ab_priority_mult = 0, ab_configured = False, ab_priority_configured = False,
     ab_invalid = False, ab_priority_invalid = False\<rparr>"

definition zero_pricing :: model_pricing where
  "zero_pricing = \<lparr>mp_ultrafast = 0, mp_input = no_price, mp_output = no_price, mp_write = no_price,
     mp_write_5m = no_price, mp_write_1h = no_price, mp_read = no_price, mp_write_explicit = False,
     mp_image_input = 0, mp_image_input_explicit = False, mp_image_read = 0, mp_image_output = 0,
     mp_image_output_explicit = False, mp_fast = None, mp_flex = None, mp_efforts = [],
     mp_breakdown = False, mp_long_threshold = 0, mp_long_inclusive = False, mp_long_input = 0,
     mp_long_output = 0, mp_above_5m = no_above, mp_above_1h = no_above, mp_above_read = no_above,
     mp_presence_known = False\<rparr>"

definition zero_tokens :: usage_tokens where
  "zero_tokens = \<lparr>ut_input = 0, ut_image_input = 0, ut_image_read = 0, ut_output = 0, ut_write = 0,
     ut_read = 0, ut_write_5m = 0, ut_write_1h = 0, ut_image_output = 0\<rparr>"

definition zero_cost :: cost_breakdown where
  "zero_cost = \<lparr>cb_input = 0, cb_image_input = 0, cb_output = 0, cb_image_output = 0, cb_write = 0,
     cb_read = 0, cb_total = 0, cb_actual = 0, cb_mode = [], cb_long = False\<rparr>"

definition err_model_pricing_unavailable :: go_error where
  "err_model_pricing_unavailable = Other_Error ''pricing not found'' None"

section \<open>Service tiers\<close>

definition normalize_billing_service_tier :: "string \<Rightarrow> string" where
  "normalize_billing_service_tier t = to_lower (trim_space t)"

definition token_buckets :: "model_pricing \<Rightarrow> price_bucket list" where
  "token_buckets p = [mp_input p, mp_output p, mp_write p, mp_write_5m p, mp_write_1h p, mp_read p]"

text \<open>A price counts as present when its flag is set, or when the card has no flags and it is positive.\<close>

definition standard_present :: "model_pricing \<Rightarrow> price_bucket \<Rightarrow> bool" where
  "standard_present p b \<longleftrightarrow> pb_configured b \<or> \<not> mp_presence_known p \<and> pb_price b > 0"

definition priority_present :: "model_pricing \<Rightarrow> price_bucket \<Rightarrow> bool" where
  "priority_present p b \<longleftrightarrow> pb_priority_configured b \<or> \<not> mp_presence_known p \<and> pb_priority b > 0"

definition use_priority_service_tier_pricing :: "string \<Rightarrow> model_pricing \<Rightarrow> bool" where
  "use_priority_service_tier_pricing tier p \<longleftrightarrow>
     normalize_billing_service_tier tier \<in> {''priority'', ''fast''} \<and> mp_fast p = None \<and>
     (if mp_presence_known p then list_ex pb_priority_configured (token_buckets p)
      else list_ex (\<lambda>b. pb_priority b > 0) (token_buckets p))"

definition service_tier_cost_multiplier :: "string \<Rightarrow> rat" where
  "service_tier_cost_multiplier tier =
     (let t = normalize_billing_service_tier tier
      in if t \<in> {''priority'', ''fast'', ''ultrafast''} then 2 else if t = ''flex'' then 1 / 2 else 1)"

definition configured_service_tier_multiplier :: "string \<Rightarrow> model_pricing \<Rightarrow> rat" where
  "configured_service_tier_multiplier tier p =
     (let t = normalize_billing_service_tier tier
      in if t = ''ultrafast'' \<and> mp_ultrafast p > 0 then mp_ultrafast p
         else if t \<in> {''priority'', ''fast''}
           then (case mp_fast p of Some m \<Rightarrow> m | None \<Rightarrow> service_tier_cost_multiplier tier)
         else if t = ''flex''
           then (case mp_flex p of Some m \<Rightarrow> m | None \<Rightarrow> service_tier_cost_multiplier tier)
         else service_tier_cost_multiplier tier)"

definition scale_priority :: "rat \<Rightarrow> price_bucket \<Rightarrow> price_bucket" where
  "scale_priority m b = b\<lparr>pb_priority := pb_price b * m\<rparr>"

definition pricing_with_priority_multiplier :: "model_pricing \<Rightarrow> rat \<Rightarrow> model_pricing" where
  "pricing_with_priority_multiplier p m =
     p\<lparr>mp_input := scale_priority m (mp_input p), mp_output := scale_priority m (mp_output p),
       mp_write := scale_priority m (mp_write p), mp_write_5m := scale_priority m (mp_write_5m p),
       mp_write_1h := scale_priority m (mp_write_1h p), mp_read := scale_priority m (mp_read p)\<rparr>"

definition apply_cost_breakdown_multiplier :: "cost_breakdown \<Rightarrow> rat \<Rightarrow> cost_breakdown" where
  "apply_cost_breakdown_multiplier c m =
     (if m = 1 then c
      else c\<lparr>cb_input := cb_input c * m, cb_image_input := cb_image_input c * m,
             cb_output := cb_output c * m, cb_image_output := cb_image_output c * m,
             cb_write := cb_write c * m, cb_read := cb_read c * m, cb_total := cb_total c * m,
             cb_actual := cb_actual c * m\<rparr>)"

section \<open>Cache writes\<close>

text \<open>\<open>math.Round\<close> rounds halves away from zero.\<close>

definition math_round :: "rat \<Rightarrow> int" where
  "math_round x = (if x < 0 then - \<lfloor>- x + 1 / 2\<rfloor> else \<lfloor>x + 1 / 2\<rfloor>)"

definition normalize_cache_creation_breakdown :: "usage_tokens \<Rightarrow> int \<times> int" where
  "normalize_cache_creation_breakdown t =
     (let m5 = max 0 (ut_write_5m t); h1 = max 0 (ut_write_1h t); agg = ut_write t
      in if agg \<le> 0 \<or> m5 \<le> agg \<and> h1 \<le> agg - m5 then (m5, h1)
         else let n5 = math_round (of_int agg * of_int m5 / (of_int m5 + of_int h1));
                  k5 = (if n5 \<ge> agg then agg else n5)
              in (k5, agg - k5))"

definition compute_cache_creation_cost ::
    "bool \<Rightarrow> rat \<Rightarrow> rat \<Rightarrow> usage_tokens \<Rightarrow> rat \<Rightarrow> rat \<Rightarrow> rat" where
  "compute_cache_creation_cost breakdown price_5m price_1h t price m =
     (if breakdown \<or> ut_write_5m t > 0 \<or> ut_write_1h t > 0
      then let (n5, n1) = normalize_cache_creation_breakdown t
           in if n5 = 0 \<and> n1 = 0 \<and> ut_write t > 0 then of_int (ut_write t) * price_5m * m
              else of_int n5 * price_5m * m + of_int n1 * price_1h * m
      else of_int (ut_write t) * price * m)"

section \<open>Long contexts\<close>

definition long_context_multiplier_or_one :: "rat \<Rightarrow> rat" where
  "long_context_multiplier_or_one m = (if m \<le> 0 then 1 else m)"

definition total_context :: "usage_tokens \<Rightarrow> int" where
  "total_context t = ut_input t + ut_write t + ut_read t"

definition should_apply_session_long_context_pricing :: "usage_tokens \<Rightarrow> model_pricing \<Rightarrow> bool" where
  "should_apply_session_long_context_pricing t p \<longleftrightarrow>
     mp_long_threshold p > 0 \<and> \<not> (mp_long_input p \<le> 1 \<and> mp_long_output p \<le> 1) \<and>
     (if mp_long_inclusive p then total_context t \<ge> mp_long_threshold p
      else total_context t > mp_long_threshold p)"

section \<open>The breakdown\<close>

text \<open>The prices \<open>computeTokenBreakdown\<close> keeps in local variables.\<close>

record used_prices =
  up_input :: rat
  up_output :: rat
  up_read :: rat
  up_write :: rat
  up_5m :: rat
  up_1h :: rat
  up_tier :: rat

definition tier_price :: "bool \<Rightarrow> model_pricing \<Rightarrow> price_bucket \<Rightarrow> rat" where
  "tier_price pri p b = (if pri \<and> priority_present p b then pb_priority b else pb_price b)"

definition tier_prices :: "model_pricing \<Rightarrow> usage_tokens \<Rightarrow> string \<Rightarrow> used_prices" where
  "tier_prices p t tier =
     (let pri = use_priority_service_tier_pricing tier p;
          write = tier_price pri p (mp_write p);
          configured_5m = (standard_present p (mp_write_5m p) \<or> pri \<and> priority_present p (mp_write_5m p))
      in \<lparr>up_input = tier_price pri p (mp_input p),
          up_output = tier_price pri p (mp_output p),
          up_read = tier_price pri p (mp_read p),
          up_write = write,
          up_5m = (if ut_write_5m t = 0 \<and> ut_write_1h t = 0 \<and> \<not> configured_5m then write
                   else tier_price pri p (mp_write_5m p)),
          up_1h = tier_price pri p (mp_write_1h p),
          up_tier = (if pri then 1 else configured_service_tier_multiplier tier p)\<rparr>)"

definition above_mult :: "bool \<Rightarrow> rat \<Rightarrow> above_bucket \<Rightarrow> rat" where
  "above_mult pri m a =
     (if pri then if ab_priority_configured a then ab_priority_mult a else m
      else if ab_configured a then ab_mult a else m)"

definition long_prices :: "model_pricing \<Rightarrow> string \<Rightarrow> used_prices \<Rightarrow> used_prices" where
  "long_prices p tier u =
     (let pri = use_priority_service_tier_pricing tier p;
          m = long_context_multiplier_or_one (mp_long_input p);
          m5 = above_mult pri m (mp_above_5m p)
      in u\<lparr>up_input := up_input u * m,
           up_output := up_output u * long_context_multiplier_or_one (mp_long_output p),
           up_read := up_read u * above_mult pri m (mp_above_read p),
           up_write := up_write u * m5,
           up_5m := up_5m u * m5,
           up_1h := up_1h u * above_mult pri m (mp_above_1h p)\<rparr>)"

definition input_costs :: "model_pricing \<Rightarrow> usage_tokens \<Rightarrow> rat \<Rightarrow> rat \<times> rat" where
  "input_costs p t price =
     (if ut_image_input t > 0
      then let (text, img) = (if ut_input t - ut_image_input t < 0 then (0, ut_input t)
                              else (ut_input t - ut_image_input t, ut_image_input t));
               img_price = (if mp_image_input p = 0 \<and> \<not> mp_image_input_explicit p then price
                            else mp_image_input p)
           in (of_int text * price, of_int img * img_price)
      else (of_int (ut_input t) * price, 0))"

definition image_output_cost :: "model_pricing \<Rightarrow> usage_tokens \<Rightarrow> rat \<Rightarrow> rat" where
  "image_output_cost p t price =
     (if ut_image_output t > 0
      then of_int (ut_image_output t) *
             (if mp_image_output p = 0 \<and> \<not> mp_image_output_explicit p then price else mp_image_output p)
      else 0)"

definition cache_read_cost :: "model_pricing \<Rightarrow> usage_tokens \<Rightarrow> rat \<Rightarrow> rat" where
  "cache_read_cost p t price =
     (let img = min (max (ut_image_read t) 0) (max (ut_read t) 0)
      in if img > 0 \<and> mp_image_read p > 0
         then of_int (ut_read t - img) * price + of_int img * mp_image_read p
         else of_int (ut_read t) * price)"

definition price_usage :: "model_pricing \<Rightarrow> usage_tokens \<Rightarrow> rat \<Rightarrow> used_prices \<Rightarrow> cost_breakdown" where
  "price_usage p t rate u =
     (let k = up_tier u;
          i = fst (input_costs p t (up_input u)) * k;
          ii = snd (input_costs p t (up_input u)) * k;
          out = of_int (max 0 (ut_output t - ut_image_output t)) * up_output u * k;
          io = image_output_cost p t (up_output u) * k;
          w = compute_cache_creation_cost (mp_breakdown p) (up_5m u) (up_1h u) t (up_write u) 1 * k;
          r = cache_read_cost p t (up_read u) * k;
          total = i + ii + out + io + w + r
      in \<lparr>cb_input = i, cb_image_input = ii, cb_output = out, cb_image_output = io, cb_write = w,
          cb_read = r, cb_total = total, cb_actual = total * rate, cb_mode = [], cb_long = False\<rparr>)"

text \<open>
  The recursive call of the source for the baseline has \<open>applyLongCtx = false\<close>, so it prices the
  same usage with the prices before the surcharge.
\<close>

definition compute_token_breakdown ::
    "model_pricing \<Rightarrow> usage_tokens \<Rightarrow> rat \<Rightarrow> string \<Rightarrow> bool \<Rightarrow> cost_breakdown" where
  "compute_token_breakdown p t rate tier long =
     (let rate = max 0 rate;
          u = tier_prices p t tier;
          base = price_usage p t rate u
      in if long \<and> should_apply_session_long_context_pricing t p
         then let bd = price_usage p t rate (long_prices p tier u)
              in bd\<lparr>cb_long := cb_actual bd > cb_actual base\<rparr>
         else base)"

section \<open>The check of a card against a usage\<close>

definition long_ratio_invalid :: "model_pricing \<Rightarrow> usage_tokens \<Rightarrow> string \<Rightarrow> bool" where
  "long_ratio_invalid p t tier \<longleftrightarrow>
     (let inv = (if use_priority_service_tier_pricing tier p then ab_priority_invalid else ab_invalid)
      in ut_read t > 0 \<and> inv (mp_above_read p) \<or>
         ut_write_5m t > 0 \<and> inv (mp_above_5m p) \<or>
         ut_write_1h t > 0 \<and> inv (mp_above_1h p) \<or>
         ut_write t > 0 \<and> ut_write_5m t = 0 \<and> ut_write_1h t = 0 \<and> inv (mp_above_5m p))"

definition bucket_configured :: "model_pricing \<Rightarrow> string \<Rightarrow> price_bucket \<Rightarrow> bool" where
  "bucket_configured p tier b \<longleftrightarrow> standard_present p b \<or>
     use_priority_service_tier_pricing tier p \<and> priority_present p b"

definition image_configured :: "model_pricing \<Rightarrow> bool \<Rightarrow> rat \<Rightarrow> bool" where
  "image_configured p explicit price \<longleftrightarrow> explicit \<or> \<not> mp_presence_known p \<and> price > 0"

definition buckets_priced :: "model_pricing \<Rightarrow> usage_tokens \<Rightarrow> string \<Rightarrow> bool" where
  "buckets_priced p t tier \<longleftrightarrow>
     (let img = min (ut_image_input t) (ut_input t); conf = bucket_configured p tier
      in (ut_input t - img > 0 \<longrightarrow> conf (mp_input p)) \<and>
         (img > 0 \<longrightarrow> image_configured p (mp_image_input_explicit p) (mp_image_input p)) \<and>
         (ut_output t - ut_image_output t > 0 \<longrightarrow> conf (mp_output p)) \<and>
         (ut_image_output t > 0 \<longrightarrow> image_configured p (mp_image_output_explicit p) (mp_image_output p)) \<and>
         (ut_write_5m t > 0 \<longrightarrow> conf (mp_write_5m p)) \<and>
         (ut_write_1h t > 0 \<longrightarrow> conf (mp_write_1h p)) \<and>
         (ut_write t > 0 \<and> ut_write_5m t = 0 \<and> ut_write_1h t = 0 \<longrightarrow> conf (mp_write p)) \<and>
         (ut_read t > 0 \<longrightarrow> conf (mp_read p)))"

definition validate_model_pricing_for_usage ::
    "model_pricing \<Rightarrow> usage_tokens \<Rightarrow> string \<Rightarrow> bool \<Rightarrow> go_error option" where
  "validate_model_pricing_for_usage p t tier long =
     (if long \<and> should_apply_session_long_context_pricing t p \<and> long_ratio_invalid p t tier
      then Some (Other_Error ''invalid above ratio'' (Some err_model_pricing_unavailable))
      else if \<not> buckets_priced p t tier then Some err_model_pricing_unavailable
      else None)"

end
