(* ===== verification/Model_Names.thy ===== *)
theory Model_Names
  imports Payment_Types
begin

text \<open>
  The names of models that prices depend on (\<open>internal/service/openai_model_alias.go\<close>,
  \<open>openai_codex_transform.go\<close>, \<open>internal/pkg/openai/constants.go\<close>, \<open>internal/pkg/claude/effort_catalog.go\<close>):
  spellings are brought to one form and mapped to the models that have a price. The string functions
  of Go that they use are defined on bytes; lower case is that of ASCII letters.
\<close>

section \<open>Strings\<close>

definition has_prefix :: "string \<Rightarrow> string \<Rightarrow> bool" where
  "has_prefix s p \<longleftrightarrow> take (length p) s = p"

definition has_suffix :: "string \<Rightarrow> string \<Rightarrow> bool" where
  "has_suffix s p \<longleftrightarrow> length p \<le> length s \<and> drop (length s - length p) s = p"

definition trim_prefix :: "string \<Rightarrow> string \<Rightarrow> string" where
  "trim_prefix s p = (if has_prefix s p then drop (length p) s else s)"

definition trim_suffix :: "string \<Rightarrow> string \<Rightarrow> string" where
  "trim_suffix s p = (if has_suffix s p then take (length s - length p) s else s)"

fun contains :: "string \<Rightarrow> string \<Rightarrow> bool" where
  "contains [] p = (p = [])"
| "contains (c # s) p = (has_prefix (c # s) p \<or> contains s p)"

text \<open>\<open>strings.ReplaceAll\<close> with a non-empty \<open>from\<close>; the calls of the source have no other.\<close>

function replace_all :: "string \<Rightarrow> string \<Rightarrow> string \<Rightarrow> string" where
  "replace_all from to [] = []"
| "replace_all from to (c # s) =
     (if from \<noteq> [] \<and> has_prefix (c # s) from then to @ replace_all from to (drop (length from) (c # s))
      else c # replace_all from to s)"
  by pat_completeness auto
termination by (relation "measure (\<lambda>(f, t, s). length s)") (auto simp: neq_Nil_conv)

lemma has_prefixD: "has_prefix s p \<Longrightarrow> length p \<le> length s"
  unfolding has_prefix_def by (metis length_take min.cobounded1)

lemma length_replace_all:
  "length to < length from \<Longrightarrow>
    length (replace_all from to s) \<le> length s \<and> (contains s from \<longrightarrow> length (replace_all from to s) < length s)"
proof (induction "from" "to" s rule: replace_all.induct)
  case (1 f t) then show ?case by auto
next
  case (2 f t c s)
  show ?case
  proof (cases "has_prefix (c # s) f")
    case True
    moreover from True have "length f \<le> Suc (length s)" using has_prefixD by fastforce
    ultimately show ?thesis using 2 by auto
  next
    case False
    then show ?thesis using 2 by auto
  qed
qed

text \<open>The loop that removes repeated hyphens.\<close>

function collapse_hyphens :: "string \<Rightarrow> string" where
  "collapse_hyphens s = (if contains s ''--'' then collapse_hyphens (replace_all ''--'' ''-'' s) else s)"
  by pat_completeness auto
termination by (relation "measure length") (auto simp: length_replace_all)

declare collapse_hyphens.simps [simp del]

text \<open>\<open>strings.Fields\<close>: the non-empty pieces between runs of white space; \<open>acc\<close> is the current piece.\<close>

function fields_from :: "string \<Rightarrow> string \<Rightarrow> string list" where
  "fields_from acc [] = (if acc = [] then [] else [acc])"
| "fields_from acc (c # s) =
     (let n = space_prefix (c # s)
      in if n > 0 then (if acc = [] then [] else [acc]) @ fields_from [] (drop n (c # s))
         else fields_from (acc @ [c]) s)"
  by pat_completeness auto
termination by (relation "measure (\<lambda>(a, s). length s)") auto

fun join :: "string \<Rightarrow> string list \<Rightarrow> string" where
  "join sep [] = []"
| "join sep [x] = x"
| "join sep (x # y # xs) = x @ sep @ join sep (y # xs)"

section \<open>Spellings\<close>

definition canonicalize_open_ai_model_alias_spelling :: "string \<Rightarrow> string" where
  "canonicalize_open_ai_model_alias_spelling model =
     (let m = trim_space model;
          m = (if CHR ''/'' \<in> set m then trim_space (last (split_on (CHR ''/'') m)) else m);
          m = to_lower m
      in if m = [] then []
         else let n = replace_all ''_'' ''-'' m;
                  n = collapse_hyphens (join ''-'' (fields_from [] n));
                  n = (if has_prefix n ''gpt5'' then ''gpt-5'' @ trim_prefix n ''gpt5'' else n)
              in if \<not> has_prefix n ''gpt-'' \<and> \<not> contains n ''codex'' then []
                 else fold (\<lambda>(f, t). replace_all f t)
                   [(''gpt-5.4mini'', ''gpt-5.4-mini''), (''gpt-5.4nano'', ''gpt-5.4-nano''),
                    (''gpt-5.3-codexspark'', ''gpt-5.3-codex-spark''), (''gpt-5.3codexspark'', ''gpt-5.3-codex-spark''),
                    (''gpt-5.3codex'', ''gpt-5.3-codex'')] n)"

definition effort_suffix :: "string list \<Rightarrow> string \<Rightarrow> string \<Rightarrow> bool" where
  "effort_suffix allowed canonical base \<longleftrightarrow> canonical = base \<or>
     has_prefix canonical (base @ ''-'') \<and> trim_prefix canonical (base @ ''-'') \<in> set allowed"

definition is_gpt6_sol_or_luna_model_spelling :: "string \<Rightarrow> bool" where
  "is_gpt6_sol_or_luna_model_spelling model \<longleftrightarrow>
     list_ex (effort_suffix [''none'', ''low'', ''medium'', ''high'', ''xhigh'', ''max'', ''openai-compact'']
       (canonicalize_open_ai_model_alias_spelling model)) [''gpt-6-sol'', ''gpt-6-luna'']"

definition is_gpt61_sol_model_spelling :: "string \<Rightarrow> bool" where
  "is_gpt61_sol_model_spelling model \<longleftrightarrow>
     effort_suffix [''none'', ''minimal'', ''low'', ''medium'', ''high'', ''xhigh'', ''max'', ''openai-compact'']
       (canonicalize_open_ai_model_alias_spelling model) ''gpt-6.1-sol''"

definition codex_model_map :: "(string \<times> string) list" where
  "codex_model_map =
    [(''gpt-6.1-sol'', ''gpt-6.1-sol''),
     (''gpt-6-sol'', ''gpt-6-sol''),
     (''gpt-6-luna'', ''gpt-6-luna''),
     (''gpt-6-astra'', ''gpt-6-astra''),
     (''gpt-5.6-sol'', ''gpt-5.6-sol''),
     (''gpt-5.6-terra'', ''gpt-5.6-terra''),
     (''gpt-5.6-luna'', ''gpt-5.6-luna''),
     (''gpt-5.5'', ''gpt-5.5''),
     (''gpt-5.5-pro'', ''gpt-5.5-pro''),
     (''codex-auto-review'', ''codex-auto-review''),
     (''gpt-5.4'', ''gpt-5.4''),
     (''gpt-5.4-mini'', ''gpt-5.4-mini''),
     (''gpt-5.4-none'', ''gpt-5.4''),
     (''gpt-5.4-low'', ''gpt-5.4''),
     (''gpt-5.4-medium'', ''gpt-5.4''),
     (''gpt-5.4-high'', ''gpt-5.4''),
     (''gpt-5.4-xhigh'', ''gpt-5.4''),
     (''gpt-5.4-chat-latest'', ''gpt-5.4''),
     (''gpt-5.3'', ''gpt-5.3-codex''),
     (''gpt-5.3-none'', ''gpt-5.3-codex''),
     (''gpt-5.3-low'', ''gpt-5.3-codex''),
     (''gpt-5.3-medium'', ''gpt-5.3-codex''),
     (''gpt-5.3-high'', ''gpt-5.3-codex''),
     (''gpt-5.3-xhigh'', ''gpt-5.3-codex''),
     (''gpt-5.3-codex'', ''gpt-5.3-codex''),
     (''gpt-5.3-codex-spark'', ''gpt-5.3-codex-spark''),
     (''gpt-5.3-codex-low'', ''gpt-5.3-codex''),
     (''gpt-5.3-codex-medium'', ''gpt-5.3-codex''),
     (''gpt-5.3-codex-high'', ''gpt-5.3-codex''),
     (''gpt-5.3-codex-xhigh'', ''gpt-5.3-codex''),
     (''gpt-5.2'', ''gpt-5.2''),
     (''gpt-5.2-none'', ''gpt-5.2''),
     (''gpt-5.2-low'', ''gpt-5.2''),
     (''gpt-5.2-medium'', ''gpt-5.2''),
     (''gpt-5.2-high'', ''gpt-5.2''),
     (''gpt-5.2-xhigh'', ''gpt-5.2''),
     (''gpt-5'', ''gpt-5.4''),
     (''gpt-5-mini'', ''gpt-5.4''),
     (''gpt-5-nano'', ''gpt-5.4''),
     (''gpt-5.1'', ''gpt-5.4''),
     (''gpt-5.1-codex'', ''gpt-5.3-codex''),
     (''gpt-5.1-codex-max'', ''gpt-5.3-codex''),
     (''gpt-5.1-codex-mini'', ''gpt-5.3-codex''),
     (''gpt-5.2-codex'', ''gpt-5.2''),
     (''codex-mini-latest'', ''gpt-5.3-codex''),
     (''gpt-5-codex'', ''gpt-5.3-codex'')]"

definition codex_model_lookup_key :: "string \<Rightarrow> string" where
  "codex_model_lookup_key model =
     (let m = trim_space model
      in if m = [] then []
         else to_lower (join ''-'' (fields_from [] (if CHR ''/'' \<in> set m then last (split_on (CHR ''/'') m) else m))))"

definition get_normalized_codex_model :: "string \<Rightarrow> string" where
  "get_normalized_codex_model model =
     (let key = codex_model_lookup_key model
      in if key = [] then [] else case map_of codex_model_map key of Some m \<Rightarrow> m | None \<Rightarrow> [])"

definition is_codex_date_suffix :: "string \<Rightarrow> bool" where
  "is_codex_date_suffix s \<longleftrightarrow>
     (let parts = split_on (CHR ''-'') s
      in map length parts = [4, 2, 2] \<and> list_all (list_all (\<lambda>c. digit_val c \<noteq> None)) parts)"

definition is_known_codex_model_suffix :: "string \<Rightarrow> bool" where
  "is_known_codex_model_suffix s \<longleftrightarrow>
     s \<in> {''none'', ''minimal'', ''low'', ''medium'', ''high'', ''xhigh''} \<or> is_codex_date_suffix s"

text \<open>The cases of the final \<open>switch\<close> that look for a part of the name, in its order.\<close>

definition codex_name_parts :: "(string \<times> string) list" where
  "codex_name_parts =
    [(''gpt-5.5-pro'', ''gpt-5.5-pro''), (''gpt-5.5'', ''gpt-5.5''), (''gpt-5.4-mini'', ''gpt-5.4-mini''),
     (''gpt-5.4-nano'', ''gpt-5.4-nano''), (''gpt-5.4'', ''gpt-5.4''), (''gpt-5.2'', ''gpt-5.2''),
     (''gpt-5.3-codex-spark'', ''gpt-5.3-codex-spark''), (''gpt-5.3-codex'', ''gpt-5.3-codex''),
     (''gpt-5.3'', ''gpt-5.3-codex''), (''codex'', ''gpt-5.3-codex''), (''gpt-5'', ''gpt-5.4'')]"

definition part_of :: "(string \<times> string) list \<Rightarrow> string \<Rightarrow> string" where
  "part_of table n = (case find (\<lambda>(part, m). contains n part) table of Some (part, m) \<Rightarrow> m | None \<Rightarrow> [])"

definition normalize_known_open_ai_codex_model :: "string \<Rightarrow> string" where
  "normalize_known_open_ai_codex_model model =
     (let n = canonicalize_open_ai_model_alias_spelling model;
          mapped = get_normalized_codex_model n;
          compact = (if has_suffix n ''-openai-compact''
                     then get_normalized_codex_model (trim_suffix n ''-openai-compact'') else [])
      in if n = [] then []
         else if mapped \<noteq> [] then mapped
         else if compact \<noteq> [] then compact
         else if is_gpt61_sol_model_spelling n then ''gpt-6.1-sol''
         else if is_gpt6_sol_or_luna_model_spelling n
           then (if has_prefix n ''gpt-6-sol'' then ''gpt-6-sol'' else ''gpt-6-luna'')
         else if n = ''gpt-6'' \<or> n = ''gpt-6-astra'' then ''gpt-6-astra''
         else if contains n ''gpt-5.6-sol'' then ''gpt-5.6-sol''
         else if contains n ''gpt-5.6-terra'' then ''gpt-5.6-terra''
         else if contains n ''gpt-5.6-luna'' then ''gpt-5.6-luna''
         else if n = ''gpt-5.6'' then ''gpt-5.6-sol''
         else if has_prefix n ''gpt-5.6-''
           then (let s = trim_prefix n ''gpt-5.6-''
                 in if s = ''max'' \<or> is_known_codex_model_suffix s then ''gpt-5.6-sol'' else [])
         else part_of codex_name_parts n)"

definition is_open_ai_gpt56_model :: "string \<Rightarrow> bool" where
  "is_open_ai_gpt56_model model \<longleftrightarrow>
     (let n = canonicalize_open_ai_model_alias_spelling model; s = trim_prefix n ''gpt-5.6-''
      in n = ''gpt-5.6'' \<or> has_prefix n ''gpt-5.6-'' \<and> (s = ''max'' \<or> is_known_codex_model_suffix s) \<or>
         list_ex (\<lambda>p. n = p \<or> has_prefix n (p @ ''-'')) [''gpt-5.6-sol'', ''gpt-5.6-terra'', ''gpt-5.6-luna''])"

definition is_open_ai_gpt6_astra_model :: "string \<Rightarrow> bool" where
  "is_open_ai_gpt6_astra_model model \<longleftrightarrow>
     (let n = canonicalize_open_ai_model_alias_spelling model
      in n = ''gpt-6'' \<or> n = ''gpt-6-astra'' \<or> has_prefix n ''gpt-6-astra-'')"

section \<open>Claude names\<close>

definition model_id_reverse_overrides :: "(string \<times> string) list" where
  "model_id_reverse_overrides =
    [(''claude-sonnet-4-5-20250929'', ''claude-sonnet-4-5''), (''claude-opus-4-5-20251101'', ''claude-opus-4-5''),
     (''claude-haiku-4-5-20251001'', ''claude-haiku-4-5'')]"

text \<open>\<open>unicode.IsDigit\<close> is modelled on ASCII: a suffix of nine bytes with other digits is kept.\<close>

definition normalize_effort_model_id :: "string \<Rightarrow> string" where
  "normalize_effort_model_id model =
     (let i = trim_prefix (to_lower (trim_space model)) ''models/'';
          i = (if CHR ''/'' \<in> set i
               then trim_prefix (trim_space (tl (dropWhile (\<lambda>c. c \<noteq> CHR ''/'') i))) ''models/'' else i);
          i = fold (\<lambda>p s. trim_prefix s p) [''us.'', ''eu.'', ''apac.'', ''jp.'', ''au.'', ''us-gov.'', ''global.''] i;
          i = trim_suffix (trim_prefix i ''anthropic.'') ''-thinking'';
          i = (if i = ''claude-opus-5.5'' then ''claude-opus-5-5'' else i);
          i = (if i = ''claude-sonnet-5.5'' then ''claude-sonnet-5-5'' else i);
          i = (case map_of model_id_reverse_overrides i of Some m \<Rightarrow> m | None \<Rightarrow> i);
          s = last_n 9 i
      in if length i \<ge> 9 \<and> hd s = CHR ''-'' \<and> list_all (\<lambda>c. digit_val c \<noteq> None) (tl s)
         then take (length i - 9) i else i)"

definition is_opus55 :: "string \<Rightarrow> bool" where
  "is_opus55 model \<longleftrightarrow> normalize_effort_model_id model = ''claude-opus-5-5''"

end
