(* ===== verification/Time_Pricing.thy ===== *)
theory Time_Pricing
  imports Money App_Errors "HOL-Library.Multiset"
begin

text \<open>
  Multipliers that depend on the time of a request: the periods of a channel's card
  (\<open>internal/service/custom_channel_time_pricing.go\<close>) and the peak hours of a subscription group (\<open>group.go\<close>).

  The time zone database is the argument \<open>zones\<close>: a known name gives the offset from UTC, in seconds, at
  an instant (\<open>time.LoadLocation\<close>). The cache of loaded locations only saves lookups. \<open>time.Parse\<close> followed by
  the comparison with \<open>Format\<close> accepts exactly the times written with two digits per field.
\<close>

type_synonym zone_db = "string \<Rightarrow> (time \<Rightarrow> int) option"

section \<open>Periods of a channel\<close>

record time_period =
  tp_start :: string
  tp_end :: string
  tp_multiplier :: rat

record channel_time_pricing =
  ct_timezone :: string
  ct_weekdays_only :: bool
  ct_periods :: "time_period list"

record parsed_period =
  pp_start :: int
  pp_end :: int
  pp_multiplier :: rat

definition two_digits :: "nat \<Rightarrow> char \<Rightarrow> char \<Rightarrow> int option" where
  "two_digits bound a b =
     (case (digit_val a, digit_val b) of
        (Some x, Some y) \<Rightarrow> if 10 * x + y < bound then Some (int (10 * x + y)) else None
      | _ \<Rightarrow> None)"

fun clock_seconds :: "string \<Rightarrow> int option" where
  "clock_seconds [a, b, c, d, e] =
     (if c \<noteq> CHR '':'' then None
      else case (two_digits 24 a b, two_digits 60 d e) of
             (Some h, Some m) \<Rightarrow> Some (h * 3600 + m * 60) | _ \<Rightarrow> None)"
| "clock_seconds [a, b, c, d, e, f, g, h] =
     (if c \<noteq> CHR '':'' \<or> f \<noteq> CHR '':'' then None
      else case (two_digits 24 a b, two_digits 60 d e, two_digits 60 g h) of
             (Some x, Some m, Some s) \<Rightarrow> Some (x * 3600 + m * 60 + s) | _ \<Rightarrow> None)"
| "clock_seconds _ = None"

definition err_period :: go_error where "err_period = Other_Error ''time pricing period'' None"

definition parse_channel_time :: "string \<Rightarrow> bool \<Rightarrow> go_error + int" where
  "parse_channel_time v is_end =
     (if is_end \<and> (v = ''00:00'' \<or> v = ''00:00:00'') then Inr 86400
      else case clock_seconds v of None \<Rightarrow> Inl err_period | Some s \<Rightarrow> Inr s)"

definition parse_period :: "time_period \<Rightarrow> go_error + parsed_period" where
  "parse_period p =
     (let m = tp_multiplier p; scaled = m * 100
      in if m \<le> 0 \<or> m < 1 / 100 \<or> \<bar>scaled - of_int (round scaled)\<bar> > eps then Inl err_period
         else and_then (parse_channel_time (tp_start p) False) (\<lambda>s.
              and_then (parse_channel_time (tp_end p) True) (\<lambda>e.
              if tp_start p = tp_end p \<or> s \<ge> e then Inl err_period
              else Inr \<lparr>pp_start = s, pp_end = e, pp_multiplier = m\<rparr>)))"

fun parse_each :: "time_period list \<Rightarrow> go_error + parsed_period list" where
  "parse_each [] = Inr []"
| "parse_each (p # ps) = and_then (parse_period p) (\<lambda>x. and_then (parse_each ps) (\<lambda>xs. Inr (x # xs)))"

fun in_order :: "parsed_period list \<Rightarrow> bool" where
  "in_order (a # b # ps) = (pp_end a \<le> pp_start b \<and> in_order (b # ps))"
| "in_order _ = True"

definition parse_channel_time_periods :: "time_period list \<Rightarrow> go_error + parsed_period list" where
  "parse_channel_time_periods ps =
     and_then (parse_each ps) (\<lambda>xs.
       let ys = sort_key pp_start xs in if in_order ys then Inr ys else Inl err_period)"

definition load_channel_time_pricing_location :: "zone_db \<Rightarrow> string \<Rightarrow> go_error + (time \<Rightarrow> int)" where
  "load_channel_time_pricing_location zones name =
     (if trim_space name = [] \<or> name = ''Local'' then Inl (Other_Error ''timezone'' None)
      else case zones name of None \<Rightarrow> Inl (Other_Error ''timezone'' None) | Some z \<Rightarrow> Inr z)"

definition validate_channel_time_pricing :: "zone_db \<Rightarrow> channel_time_pricing option \<Rightarrow> go_error option" where
  "validate_channel_time_pricing zones config =
     (case config of None \<Rightarrow> None
      | Some c \<Rightarrow>
          if ct_periods c = [] then None
          else case load_channel_time_pricing_location zones (ct_timezone c) of
                 Inl e \<Rightarrow> Some e
               | Inr z \<Rightarrow> (case parse_channel_time_periods (ct_periods c) of Inl e \<Rightarrow> Some e | Inr ps \<Rightarrow> None))"

text \<open>Days count from a Monday, so that five and six are the weekend.\<close>

definition is_weekend :: "time \<Rightarrow> bool" where
  "is_weekend local \<longleftrightarrow> (local div (24 * hour)) mod 7 \<in> {5, 6}"

definition second_of_day :: "time \<Rightarrow> int" where
  "second_of_day local = (local div second) mod 86400"

definition multiplier_at :: "zone_db \<Rightarrow> channel_time_pricing option \<Rightarrow> time \<Rightarrow> rat" where
  "multiplier_at zones config tm =
     (case config of None \<Rightarrow> 1
      | Some c \<Rightarrow>
          if ct_periods c = [] \<or> tm = 0 then 1
          else case (load_channel_time_pricing_location zones (ct_timezone c), parse_channel_time_periods (ct_periods c)) of
                 (Inr z, Inr ps) \<Rightarrow>
                   let local = tm + z tm * second; s = second_of_day local
                   in if ct_weekdays_only c \<and> is_weekend local then 1
                      else (case find (\<lambda>p. pp_start p \<le> s \<and> s < pp_end p) ps of
                              None \<Rightarrow> 1 | Some p \<Rightarrow> pp_multiplier p)
               | _ \<Rightarrow> 1)"

section \<open>Peak hours of a group\<close>

record peak_config =
  pk_subscription :: bool
  pk_enabled :: bool
  pk_start :: string
  pk_end :: string
  pk_multiplier :: rat

fun minute_fields :: "string \<Rightarrow> (string \<times> string) option" where
  "minute_fields [a, c, m1, m2] = (if c = CHR '':'' then Some ([a], [m1, m2]) else None)"
| "minute_fields [a, b, c, m1, m2] =
     (if a \<noteq> CHR '':'' \<and> b \<noteq> CHR '':'' \<and> c = CHR '':'' then Some ([a, b], [m1, m2]) else None)"
| "minute_fields _ = None"

definition parse_minutes :: "string \<Rightarrow> int option" where
  "parse_minutes s =
     (case minute_fields s of None \<Rightarrow> None
      | Some (hs, ms) \<Rightarrow>
          (case (atoi_digits 0 hs, atoi_digits 0 ms) of
             (Some h, Some m) \<Rightarrow> if h > 23 \<or> m > 59 then None else Some (int h * 60 + int m)
           | _ \<Rightarrow> None))"

text \<open>\<open>offset\<close> is the offset of the system's time zone, in seconds.\<close>

definition peak_multiplier_at :: "(time \<Rightarrow> int) \<Rightarrow> peak_config option \<Rightarrow> time \<Rightarrow> rat" where
  "peak_multiplier_at offset g tm =
     (case g of None \<Rightarrow> 1
      | Some k \<Rightarrow>
          if \<not> pk_subscription k \<or> \<not> pk_enabled k \<or> pk_start k = [] \<or> pk_end k = [] then 1
          else case (parse_minutes (pk_start k), parse_minutes (pk_end k)) of
                 (Some s, Some e) \<Rightarrow>
                   let cur = second_of_day (tm + offset tm * second) div 60
                   in if s < e \<and> s \<le> cur \<and> cur < e then pk_multiplier k else 1
               | _ \<Rightarrow> 1)"

definition validate_peak_rate_config :: "peak_config \<Rightarrow> bool" where
  "validate_peak_rate_config k \<longleftrightarrow> \<not> pk_enabled k \<or> pk_subscription k \<and> pk_start k \<noteq> [] \<and> pk_end k \<noteq> [] \<and>
     (case (parse_minutes (pk_start k), parse_minutes (pk_end k)) of
        (Some s, Some e) \<Rightarrow> s < e \<and> 0 \<le> pk_multiplier k | _ \<Rightarrow> False)"

definition normalize_peak_rate_config :: "peak_config \<Rightarrow> peak_config" where
  "normalize_peak_rate_config k =
     (if \<not> pk_subscription k then k\<lparr>pk_enabled := False, pk_start := [], pk_end := [], pk_multiplier := 1\<rparr>
      else if pk_enabled k then k
      else k\<lparr>pk_start := (if parse_minutes (pk_start k) = None then [] else pk_start k),
             pk_end := (if parse_minutes (pk_end k) = None then [] else pk_end k),
             pk_multiplier := (if pk_multiplier k < 0 then 1 else pk_multiplier k)\<rparr>)"

section \<open>Properties\<close>

lemma parse_period_props:
  assumes "parse_period p = Inr x"
  shows "pp_start x < pp_end x" "1 / 100 \<le> pp_multiplier x" "pp_multiplier x = tp_multiplier p"
  using assms by (auto simp: parse_period_def Let_def and_then_def split: if_splits sum.splits)

lemma parse_each_iff:
  "parse_each ps = Inr xs \<longleftrightarrow> list_all2 (\<lambda>p x. parse_period p = Inr x) ps xs"
  by (induction ps arbitrary: xs) (auto simp: and_then_Inr_iff list_all2_Cons1)

lemma parse_each_perm:
  assumes "parse_each ps = Inr xs" "mset ps = mset qs"
  obtains ys where "parse_each qs = Inr ys" "mset xs = mset ys"
proof -
  let ?P = "\<lambda>p x. parse_period p = Inr x"
  have "list_all2 ?P ps xs" using assms(1) by (simp add: parse_each_iff)
  then have "rel_mset ?P (mset ps) (mset xs)" unfolding rel_mset_def by blast
  then have "rel_mset ?P (mset qs) (mset xs)" using assms(2) by simp
  then obtain qs' ys where "mset qs' = mset qs" "mset ys = mset xs" "list_all2 ?P qs' ys"
    unfolding rel_mset_def by blast
  then obtain zs where "list_all2 ?P qs zs" "mset zs = mset ys"
    using list_all2_reorder_left_invariance by metis
  then show thesis using that \<open>mset ys = mset xs\<close> by (simp add: parse_each_iff)
qed

lemma in_order_sorted:
  assumes "in_order xs" "\<forall>x \<in> set xs. pp_start x < pp_end x"
  shows "sorted_wrt (\<lambda>a b. pp_end a \<le> pp_start b) xs"
  using assms
proof (induction xs rule: in_order.induct)
  case (1 a b ps)
  then show ?case by fastforce
qed auto

lemma parse_periods_iff:
  "parse_channel_time_periods ps = Inr ys \<longleftrightarrow>
    (\<exists>xs. parse_each ps = Inr xs \<and> ys = sort_key pp_start xs \<and> in_order ys)"
  by (auto simp: parse_channel_time_periods_def and_then_Inr_iff Let_def)

lemma parse_periods_disjoint:
  assumes "parse_channel_time_periods ps = Inr ys"
  shows "sorted_wrt (\<lambda>a b. pp_end a \<le> pp_start b) ys" "\<forall>y \<in> set ys. pp_start y < pp_end y \<and> 1 / 100 \<le> pp_multiplier y"
proof -
  obtain xs where xs: "parse_each ps = Inr xs" "ys = sort_key pp_start xs" "in_order ys"
    using assms by (auto simp: parse_periods_iff)
  have "\<exists>p. parse_period p = Inr x" if "x \<in> set xs" for x
    using xs(1) that by (auto simp: parse_each_iff list_all2_conv_all_nth in_set_conv_nth)
  then show b: "\<forall>y \<in> set ys. pp_start y < pp_end y \<and> 1 / 100 \<le> pp_multiplier y"
    using parse_period_props xs(2) by (metis set_sort)
  then show "sorted_wrt (\<lambda>a b. pp_end a \<le> pp_start b) ys" using xs(3) in_order_sorted by blast
qed

lemma disjoint_distinct:
  assumes "sorted_wrt (\<lambda>a b. pp_end a \<le> pp_start b) ys" "\<forall>y \<in> set ys. pp_start y < pp_end y"
  shows "distinct (map pp_start ys)"
  using assms by (induction ys) force+

text \<open>The periods may be written in any order: the parsed list is the same.\<close>

lemma parse_periods_perm:
  assumes "parse_channel_time_periods ps = Inr ys" "mset ps = mset qs"
  shows "parse_channel_time_periods qs = Inr ys"
proof -
  obtain xs where xs: "parse_each ps = Inr xs" "ys = sort_key pp_start xs" "in_order ys"
    using assms by (auto simp: parse_periods_iff)
  obtain zs where zs: "parse_each qs = Inr zs" "mset xs = mset zs" using parse_each_perm [OF xs(1) assms(2)] .
  have d: "distinct (map pp_start ys)"
    using parse_periods_disjoint [OF assms(1)] disjoint_distinct by blast
  moreover have "mset (sort_key pp_start zs) = mset ys" using xs(2) zs(2) by simp
  ultimately have "distinct (map pp_start (sort_key pp_start zs))" "set (sort_key pp_start zs) = set ys"
    by (metis mset_map mset_eq_imp_distinct_iff, metis mset_eq_setD)
  then have "sort_key pp_start zs = ys"
    using d xs(2) map_sorted_distinct_set_unique [of pp_start "sort_key pp_start zs" ys]
    by (simp add: distinct_map)
  then show ?thesis using zs(1) xs(3) by (auto simp: parse_periods_iff)
qed

lemma disjoint_unique:
  assumes "sorted_wrt (\<lambda>a b. pp_end a \<le> pp_start b) ys" "\<forall>y \<in> set ys. pp_start y < pp_end y" "y \<in> set ys"
    and "pp_start y \<le> s" "s < pp_end y"
  shows "find (\<lambda>p. pp_start p \<le> s \<and> s < pp_end p) ys = Some y"
  using assms by (induction ys) fastforce+

text \<open>
  Claim C23. A valid configuration gives at each instant the multiplier of the one period that
  contains the local second, and one when no period does or on an excluded weekend. It is at least a
  hundredth and does not depend on the order in which the periods are written.
\<close>

theorem time_multiplier_spec:
  assumes "parse_each (ct_periods c) = Inr xs" "load_channel_time_pricing_location zones (ct_timezone c) = Inr z"
    and "validate_channel_time_pricing zones (Some c) = None" "tm \<noteq> 0"
  defines "local \<equiv> tm + z tm * second"
  shows "(ct_weekdays_only c \<and> is_weekend local \<longrightarrow> multiplier_at zones (Some c) tm = 1) \<and>
    (\<not> (ct_weekdays_only c \<and> is_weekend local) \<longrightarrow>
      (\<forall>x \<in> set xs. pp_start x \<le> second_of_day local \<and> second_of_day local < pp_end x \<longrightarrow>
         multiplier_at zones (Some c) tm = pp_multiplier x) \<and>
      ((\<forall>x \<in> set xs. \<not> (pp_start x \<le> second_of_day local \<and> second_of_day local < pp_end x)) \<longrightarrow>
         multiplier_at zones (Some c) tm = 1)) \<and>
    1 / 100 \<le> multiplier_at zones (Some c) tm \<and>
    (\<forall>ps. mset ps = mset (ct_periods c) \<longrightarrow>
       multiplier_at zones (Some (c\<lparr>ct_periods := ps\<rparr>)) tm = multiplier_at zones (Some c) tm)"
proof (cases "ct_periods c = []")
  case True
  then show ?thesis using assms by (auto simp: multiplier_at_def)
next
  case False
  then obtain ys where ys: "parse_channel_time_periods (ct_periods c) = Inr ys"
    using assms by (auto simp: validate_channel_time_pricing_def split: sum.splits)
  note dis = parse_periods_disjoint [OF ys]
  have set: "set ys = set xs" using ys assms(1) by (auto simp: parse_periods_iff)
  have eq: "multiplier_at zones (Some c) tm =
    (if ct_weekdays_only c \<and> is_weekend local then 1
     else case find (\<lambda>p. pp_start p \<le> second_of_day local \<and> second_of_day local < pp_end p) ys of
            None \<Rightarrow> 1 | Some p \<Rightarrow> pp_multiplier p)"
    using False assms(2,4) ys by (simp add: multiplier_at_def Let_def local_def)
  have "multiplier_at zones (Some (c\<lparr>ct_periods := ps\<rparr>)) tm = multiplier_at zones (Some c) tm"
    if "mset ps = mset (ct_periods c)" for ps
    using that False ys parse_periods_perm [OF ys, of ps] assms(2) by (auto simp: multiplier_at_def)
  moreover have "1 / 100 \<le> multiplier_at zones (Some c) tm"
    using dis(2) unfolding eq by (auto simp: find_Some_iff split: option.splits)
  moreover have "multiplier_at zones (Some c) tm = pp_multiplier x"
    if "\<not> (ct_weekdays_only c \<and> is_weekend local)" "x \<in> set xs"
      "pp_start x \<le> second_of_day local \<and> second_of_day local < pp_end x" for x
    using disjoint_unique [OF dis(1), of x "second_of_day local"] dis(2) set that unfolding eq by auto
  moreover have "find (\<lambda>p. pp_start p \<le> second_of_day local \<and> second_of_day local < pp_end p) ys = None"
    if "\<forall>x \<in> set xs. \<not> (pp_start x \<le> second_of_day local \<and> second_of_day local < pp_end x)"
    using that set by (auto simp: find_None_iff)
  ultimately show ?thesis by (auto simp: eq)
qed

section \<open>Peak hours\<close>

lemma normalize_peak_idem: "normalize_peak_rate_config (normalize_peak_rate_config k) = normalize_peak_rate_config k"
proof -
  have "parse_minutes [] = None" by code_simp
  then show ?thesis by (simp add: normalize_peak_rate_config_def)
qed

text \<open>
  A configuration that is stored, cleaned and then checked, never charges a negative multiple, and
  outside of its window, or when it is switched off, nothing is added.
\<close>

theorem peak_multiplier_safe:
  assumes "validate_peak_rate_config (normalize_peak_rate_config k)"
  defines "g \<equiv> normalize_peak_rate_config k"
  shows "0 \<le> peak_multiplier_at offset (Some g) tm \<and>
    (peak_multiplier_at offset (Some g) tm \<noteq> 1 \<longrightarrow> pk_enabled k \<and> pk_subscription k \<and>
      (\<exists>s e. parse_minutes (pk_start k) = Some s \<and> parse_minutes (pk_end k) = Some e \<and>
         s \<le> second_of_day (tm + offset tm * second) div 60 \<and> second_of_day (tm + offset tm * second) div 60 < e))"
  using assms
  by (cases "pk_subscription k"; cases "pk_enabled k")
    (auto simp: g_def peak_multiplier_at_def validate_peak_rate_config_def normalize_peak_rate_config_def Let_def
      split: option.splits if_splits)

end
