(* ===== verification/Pricing.thy ===== *)
theory Pricing
  imports Cost Model_Names Time_Pricing
begin

text \<open>
  How a card is found and what a request costs (\<open>internal/service/billing_service.go\<close>,
  \<open>model_pricing_resolver.go\<close>, \<open>channel.go\<close>): the card of the catalogue or the built-in table, the rules for
  single models, the cards of a group or a channel with their intervals, and the cost of a request in
  tokens or per request.

  The catalogue's and the channel's lookups (\<open>PricingService.GetModelPricing\<close>,
  \<open>ChannelService.GetChannelModelPricing\<close>), the built-in table (\<open>getFallbackPricing\<close>) and the time zones are
  fields of \<open>price_service\<close>. A pricing service that is not set is a catalogue
  without entries. \<open>now\<close> is the time \<open>timezone.Now\<close> reads.
\<close>

section \<open>Rules for single models\<close>

definition is_deep_seek_model :: "string \<Rightarrow> bool" where
  "is_deep_seek_model model \<longleftrightarrow> has_prefix (to_lower (trim_space model)) ''deepseek-''"

definition is_deep_seek_pro_model :: "string \<Rightarrow> bool" where
  "is_deep_seek_pro_model model \<longleftrightarrow> contains (to_lower (trim_space model)) ''deepseek-v4-pro''"

text \<open>Days count from a Monday, the zero time, so that five and six are the weekend.\<close>

definition deepseek_peak_multiplier_at :: "time \<Rightarrow> rat" where
  "deepseek_peak_multiplier_at tm =
     (let weekday = ((tm + 8 * hour) div (24 * hour)) mod 7; h = (tm div hour) mod 24
      in if weekday = 5 \<or> weekday = 6 then 1
         else if 1 \<le> h \<and> h < 4 \<or> 6 \<le> h \<and> h < 10 then 2 else 1)"

definition deepseek_pro_routes_to_flash_at :: time where
  "deepseek_pro_routes_to_flash_at = 63924955200 * second"

definition deepseek_pro_billed_as_flash :: "time \<Rightarrow> time \<Rightarrow> bool" where
  "deepseek_pro_billed_as_flash now tm \<longleftrightarrow>
     deepseek_pro_routes_to_flash_at \<le> (if tm = 0 then now else tm)"

definition open_ai_model_fast_pricing_ratio :: "string \<Rightarrow> rat" where
  "open_ai_model_fast_pricing_ratio n =
     (if n \<in> {''gpt-5.4'', ''gpt-5.6-sol'', ''gpt-5.6-terra'', ''gpt-5.6-luna'', ''gpt-6-astra'', ''gpt-6.1-sol'',
              ''gpt-6-sol'', ''gpt-6-luna''} then 2
      else if n = ''gpt-5.5'' then 5 / 2
      else if is_open_ai_gpt6_astra_model n then 2 else 0)"

text \<open>The parts of \<open>enforceOpenAIFastPricingRatio\<close>: input and output always, cache buckets when they have a price.\<close>

definition fast_bucket :: "rat \<Rightarrow> bool \<Rightarrow> price_bucket \<Rightarrow> price_bucket" where
  "fast_bucket r always b = (if r > 0 \<and> (always \<or> pb_price b > 0) then scale_priority r b else b)"

definition enforce_open_ai_fast_pricing_ratio :: "model_pricing \<Rightarrow> rat \<Rightarrow> model_pricing" where
  "enforce_open_ai_fast_pricing_ratio p r =
     p\<lparr>mp_input := fast_bucket r True (mp_input p), mp_output := fast_bucket r True (mp_output p),
       mp_read := fast_bucket r False (mp_read p), mp_write := fast_bucket r False (mp_write p)\<rparr>"

definition set_price :: "rat \<Rightarrow> price_bucket \<Rightarrow> price_bucket" where
  "set_price v b = b\<lparr>pb_price := v\<rparr>"

definition deep_seek_rates :: "bool \<Rightarrow> model_pricing \<Rightarrow> model_pricing" where
  "deep_seek_rates pro p =
     p\<lparr>mp_input := set_price (if pro then 66 / 10 ^ 8 else 15 / 10 ^ 8) (mp_input p),
       mp_output := set_price (if pro then 198 / 10 ^ 8 else 6 / 10 ^ 7) (mp_output p),
       mp_read := set_price (if pro then 22 / 10 ^ 9 else 3 / 10 ^ 9) (mp_read p)\<rparr>"

definition uses_cache_write_premium :: "string \<Rightarrow> bool" where
  "uses_cache_write_premium n \<longleftrightarrow> is_open_ai_gpt56_model n \<or> is_gpt6_sol_or_luna_model_spelling n \<or>
     is_gpt61_sol_model_spelling n"

text \<open>Cache writes that the card leaves open cost a quarter more than input.\<close>

definition write_premium :: "bool \<Rightarrow> price_bucket \<Rightarrow> price_bucket \<Rightarrow> price_bucket" where
  "write_premium known i w =
     (let w = (if pb_price w \<le> 0
               then w\<lparr>pb_price := pb_price i * (5 / 4),
                      pb_configured := (if known then pb_configured i else pb_configured w)\<rparr>
               else w)
      in if pb_priority w \<le> 0
         then w\<lparr>pb_priority := pb_priority i * (5 / 4),
                pb_priority_configured := (if known then pb_priority_configured i else pb_priority_configured w)\<rparr>
         else w)"

text \<open>
  The changes to a card of another model. The premium reads the input bucket before the fast
  ratio rewrites it; an explicit price for cache writes has the ratio for the GPT-6 models.
\<close>

definition open_ai_rules :: "bool \<Rightarrow> bool \<Rightarrow> bool \<Rightarrow> bool \<Rightarrow> rat \<Rightarrow> model_pricing \<Rightarrow> model_pricing" where
  "open_ai_rules premium astra gpt6 opus r p =
     (let p = p\<lparr>mp_ultrafast := (if astra then 6 else mp_ultrafast p),
                mp_fast := (if opus \<and> mp_fast p = None then Some 2 else mp_fast p),
                mp_write := (if premium \<and> \<not> mp_write_explicit p
                             then write_premium (mp_presence_known p) (mp_input p) (mp_write p) else mp_write p)\<rparr>;
          p = enforce_open_ai_fast_pricing_ratio p r
      in p\<lparr>mp_write := fast_bucket r (gpt6 \<and> mp_write_explicit p) (mp_write p)\<rparr>)"

definition needs_cache_creation_policy :: "bool \<Rightarrow> model_pricing \<Rightarrow> bool" where
  "needs_cache_creation_policy premium p \<longleftrightarrow> premium \<and> \<not> mp_write_explicit p \<and>
     (pb_price (mp_write p) \<le> 0 \<or> pb_priority (mp_input p) > 0 \<and> pb_priority (mp_write p) \<le> 0)"

definition apply_model_specific_pricing_policy_ex ::
    "time \<Rightarrow> string \<Rightarrow> model_pricing \<Rightarrow> bool \<Rightarrow> time \<Rightarrow> model_pricing" where
  "apply_model_specific_pricing_policy_ex now model p force tm =
     (if force \<and> is_deep_seek_model model
      then deep_seek_rates (is_deep_seek_pro_model model \<and> \<not> deepseek_pro_billed_as_flash now tm) p
      else
        let n = normalize_known_open_ai_codex_model model;
            premium = uses_cache_write_premium n;
            r = open_ai_model_fast_pricing_ratio n
        in if \<not> needs_cache_creation_policy premium p \<and> r \<le> 0 \<and> \<not> (is_opus55 model \<and> mp_fast p = None) then p
           else open_ai_rules premium (is_open_ai_gpt6_astra_model n)
             (is_gpt6_sol_or_luna_model_spelling n \<or> is_gpt61_sol_model_spelling n) (is_opus55 model) r p)"

definition apply_model_specific_pricing_policy :: "time \<Rightarrow> string \<Rightarrow> model_pricing \<Rightarrow> model_pricing" where
  "apply_model_specific_pricing_policy now model p =
     apply_model_specific_pricing_policy_ex now model p True 0"

section \<open>Cards of groups and channels\<close>

record pricing_interval =
  iv_min :: int
  iv_max :: "int option"
  iv_label :: string
  iv_input :: "rat option"
  iv_output :: "rat option"
  iv_write :: "rat option"
  iv_write_1h :: "rat option"
  iv_read :: "rat option"
  iv_input_mult :: "rat option"
  iv_output_mult :: "rat option"
  iv_write_mult :: "rat option"
  iv_read_mult :: "rat option"
  iv_per_request :: "rat option"

record channel_model_pricing =
  ch_models :: "string list"
  ch_mode :: string
  ch_input :: "rat option"
  ch_output :: "rat option"
  ch_write :: "rat option"
  ch_write_1h :: "rat option"
  ch_read :: "rat option"
  ch_fast :: "rat option"
  ch_flex :: "rat option"
  ch_efforts :: "(string \<times> rat) list"
  ch_image_input :: "rat option"
  ch_image_output :: "rat option"
  ch_per_request :: "rat option"
  ch_intervals :: "pricing_interval list"
  ch_time :: "channel_time_pricing option"

definition channel_tier_override_price :: "rat \<Rightarrow> rat \<Rightarrow> rat \<Rightarrow> rat" where
  "channel_tier_override_price base tier ch = (if base > 0 \<and> tier > 0 then ch * (tier / base) else 0)"

definition channel_tier_override_configured :: "rat \<Rightarrow> rat \<Rightarrow> bool \<Rightarrow> bool \<Rightarrow> bool" where
  "channel_tier_override_configured base tier standard_conf tier_conf \<longleftrightarrow>
     tier_conf \<and> (tier = 0 \<or> standard_conf \<and> base > 0)"

definition override_bucket :: "model_pricing \<Rightarrow> rat \<Rightarrow> price_bucket \<Rightarrow> price_bucket" where
  "override_bucket p v b =
     \<lparr>pb_price = v, pb_priority = channel_tier_override_price (pb_price b) (pb_priority b) v,
      pb_configured = True,
      pb_priority_configured = channel_tier_override_configured (pb_price b) (pb_priority b)
        (standard_present p b) (priority_present p b)\<rparr>"

definition apply_cache_write_1h_price_override :: "rat \<Rightarrow> model_pricing \<Rightarrow> model_pricing" where
  "apply_cache_write_1h_price_override v p = p\<lparr>mp_write_1h := override_bucket p v (mp_write_1h p)\<rparr>"

text \<open>A price for cache writes is that of the five-minute tier too, and of the hour unless it has its own.\<close>

definition override_write :: "rat \<Rightarrow> rat option \<Rightarrow> model_pricing \<Rightarrow> model_pricing" where
  "override_write v hour_price p =
     (let w = override_bucket p v (mp_write p);
          p = p\<lparr>mp_write := w, mp_write_explicit := True, mp_write_5m := w\<rparr>
      in if hour_price = None then apply_cache_write_1h_price_override v p else p)"

definition override_write_1h :: "rat option \<Rightarrow> model_pricing \<Rightarrow> model_pricing" where
  "override_write_1h v p =
     (case v of None \<Rightarrow> p
      | Some x \<Rightarrow> (apply_cache_write_1h_price_override x p)\<lparr>mp_breakdown := True\<rparr>)"

definition apply_channel_token_price_overrides :: "model_pricing \<Rightarrow> channel_model_pricing \<Rightarrow> model_pricing" where
  "apply_channel_token_price_overrides p ch =
     (let p = (case ch_input ch of None \<Rightarrow> p | Some v \<Rightarrow> p\<lparr>mp_input := override_bucket p v (mp_input p)\<rparr>);
          p = (case ch_output ch of None \<Rightarrow> p | Some v \<Rightarrow> p\<lparr>mp_output := override_bucket p v (mp_output p)\<rparr>);
          p = (case ch_write ch of None \<Rightarrow> p | Some v \<Rightarrow> override_write v (ch_write_1h ch) p);
          p = override_write_1h (ch_write_1h ch) p
      in case ch_read ch of None \<Rightarrow> p | Some v \<Rightarrow> p\<lparr>mp_read := override_bucket p v (mp_read p)\<rparr>)"

definition apply_channel_image_price_overrides ::
    "channel_model_pricing option \<Rightarrow> model_pricing \<Rightarrow> model_pricing" where
  "apply_channel_image_price_overrides ch p =
     (case ch of None \<Rightarrow> p
      | Some c \<Rightarrow>
        let p = (case ch_image_output c of None \<Rightarrow> p
                 | Some v \<Rightarrow> p\<lparr>mp_image_output := v, mp_image_output_explicit := True\<rparr>)
        in case ch_image_input c of None \<Rightarrow> p
           | Some v \<Rightarrow> p\<lparr>mp_image_input := v, mp_image_input_explicit := True\<rparr>)"

section \<open>Catalogue\<close>

text \<open>
  An entry of the catalogue: each bucket has its two prices and the flags that say whether the file
  had them. The five-minute tier of cache writes has the prices and flags of \<open>ce_write\<close>.
\<close>

record catalog_entry =
  ce_token_absent :: bool
  ce_provider :: string
  ce_input :: price_bucket
  ce_output :: price_bucket
  ce_write :: price_bucket
  ce_write_1h :: price_bucket
  ce_read :: price_bucket
  ce_image_input :: rat
  ce_image_input_configured :: bool
  ce_image_read :: rat
  ce_image_output :: rat
  ce_image_output_configured :: bool
  ce_long_threshold :: int
  ce_long_input :: rat
  ce_long_output :: rat
  ce_above_5m :: above_bucket
  ce_above_1h :: above_bucket
  ce_above_read :: above_bucket

record price_service =
  sv_catalog :: "string \<Rightarrow> catalog_entry option"
  sv_fallback :: "string \<Rightarrow> model_pricing option"
  sv_channel :: "int \<Rightarrow> string \<Rightarrow> channel_model_pricing option"
  sv_zones :: zone_db

definition litellm_price_configured :: "price_bucket \<Rightarrow> price_bucket" where
  "litellm_price_configured b =
     b\<lparr>pb_configured := (pb_configured b \<or> pb_price b \<noteq> 0),
       pb_priority_configured := (pb_priority_configured b \<or> pb_priority b \<noteq> 0)\<rparr>"

definition catalog_pricing :: "catalog_entry \<Rightarrow> model_pricing" where
  "catalog_pricing e =
     \<lparr>mp_ultrafast = 0, mp_input = litellm_price_configured (ce_input e),
      mp_output = litellm_price_configured (ce_output e), mp_write = litellm_price_configured (ce_write e),
      mp_write_5m = ce_write e, mp_write_1h = ce_write_1h e, mp_read = litellm_price_configured (ce_read e),
      mp_write_explicit = pb_configured (ce_write e),
      mp_image_input = ce_image_input e, mp_image_input_explicit = ce_image_input_configured e,
      mp_image_read = ce_image_read e, mp_image_output = ce_image_output e,
      mp_image_output_explicit = ce_image_output_configured e, mp_fast = None, mp_flex = None, mp_efforts = [],
      mp_breakdown = (pb_configured (ce_write_1h e) \<or> pb_priority_configured (ce_write_1h e)),
      mp_long_threshold = ce_long_threshold e, mp_long_inclusive = equal_fold (ce_provider e) ''xai'',
      mp_long_input = ce_long_input e, mp_long_output = ce_long_output e, mp_above_5m = ce_above_5m e,
      mp_above_1h = ce_above_1h e, mp_above_read = ce_above_read e, mp_presence_known = True\<rparr>"

definition pricing_not_found :: "string \<Rightarrow> go_error" where
  "pricing_not_found model = Other_Error model (Some err_model_pricing_unavailable)"

definition get_model_pricing_at :: "price_service \<Rightarrow> time \<Rightarrow> string \<Rightarrow> time \<Rightarrow> go_error + model_pricing" where
  "get_model_pricing_at sv now model tm =
     (let m = to_lower model;
          entry = (case sv_catalog sv m of Some e \<Rightarrow> if ce_token_absent e then None else Some e | None \<Rightarrow> None)
      in case entry of
           Some e \<Rightarrow> Inr (apply_model_specific_pricing_policy_ex now m (catalog_pricing e) True tm)
         | None \<Rightarrow> (case sv_fallback sv m of
               Some p \<Rightarrow> Inr (apply_model_specific_pricing_policy_ex now m p True tm)
             | None \<Rightarrow> Inl (pricing_not_found m)))"

definition get_model_pricing :: "price_service \<Rightarrow> time \<Rightarrow> string \<Rightarrow> go_error + model_pricing" where
  "get_model_pricing sv now model = get_model_pricing_at sv now model now"

definition with_channel_multipliers :: "channel_model_pricing \<Rightarrow> model_pricing \<Rightarrow> model_pricing" where
  "with_channel_multipliers ch p =
     p\<lparr>mp_fast := ch_fast ch, mp_flex := ch_flex ch, mp_efforts := ch_efforts ch\<rparr>"

definition get_model_pricing_with_channel ::
    "price_service \<Rightarrow> time \<Rightarrow> string \<Rightarrow> channel_model_pricing option \<Rightarrow> go_error + model_pricing" where
  "get_model_pricing_with_channel sv now model ch =
     and_then (get_model_pricing sv now model) (\<lambda>p.
       case ch of None \<Rightarrow> Inr p
       | Some c \<Rightarrow> Inr (apply_channel_image_price_overrides (Some c)
           (with_channel_multipliers c (apply_channel_token_price_overrides p c))))"

end
