(* ===== verification/Request_Cost.thy ===== *)
theory Request_Cost
  imports Pricing
begin

text \<open>
  The cost of a request (\<open>CalculateCostUnified\<close> and the paths under it): the resolver chooses between the
  card of the group, the card of the channel and the catalogue, an interval of the card is selected
  by the size of the context, and the tokens or the requests are charged.
\<close>

section \<open>Intervals\<close>

definition find_matching_interval :: "pricing_interval list \<Rightarrow> int \<Rightarrow> pricing_interval option" where
  "find_matching_interval ivs n =
     find (\<lambda>iv. n > iv_min iv \<and> (case iv_max iv of None \<Rightarrow> True | Some m \<Rightarrow> n \<le> m)) ivs"

definition filter_valid_intervals :: "pricing_interval list \<Rightarrow> pricing_interval list" where
  "filter_valid_intervals = filter (\<lambda>iv. list_ex (\<lambda>v. v \<noteq> None)
     [iv_input iv, iv_output iv, iv_write iv, iv_write_1h iv, iv_read iv, iv_per_request iv,
      iv_input_mult iv, iv_output_mult iv, iv_write_mult iv, iv_read_mult iv])"

definition scale_bucket :: "rat option \<Rightarrow> price_bucket \<Rightarrow> price_bucket" where
  "scale_bucket m b = (case m of None \<Rightarrow> b | Some k \<Rightarrow> b\<lparr>pb_price := pb_price b * k, pb_priority := pb_priority b * k\<rparr>)"

definition interval_bucket :: "model_pricing \<Rightarrow> rat option \<Rightarrow> rat option \<Rightarrow> price_bucket \<Rightarrow> price_bucket" where
  "interval_bucket p v m b = (case v of Some x \<Rightarrow> override_bucket p x b | None \<Rightarrow> scale_bucket m b)"

definition interval_write :: "pricing_interval \<Rightarrow> model_pricing \<Rightarrow> model_pricing" where
  "interval_write iv p =
     (case iv_write iv of
        Some v \<Rightarrow> override_write v (iv_write_1h iv) p
      | None \<Rightarrow> p\<lparr>mp_write := scale_bucket (iv_write_mult iv) (mp_write p),
          mp_write_5m := scale_bucket (iv_write_mult iv) (mp_write_5m p),
          mp_write_1h := (if iv_write_1h iv = None then scale_bucket (iv_write_mult iv) (mp_write_1h p)
                          else mp_write_1h p)\<rparr>)"

definition interval_to_model_pricing ::
    "pricing_interval \<Rightarrow> model_pricing option \<Rightarrow> channel_model_pricing option \<Rightarrow> model_pricing" where
  "interval_to_model_pricing iv base ch =
     (let p = (case base of None \<Rightarrow> zero_pricing | Some b \<Rightarrow> b);
          p = p\<lparr>mp_input := interval_bucket p (iv_input iv) (iv_input_mult iv) (mp_input p),
                mp_output := interval_bucket p (iv_output iv) (iv_output_mult iv) (mp_output p)\<rparr>;
          p = override_write_1h (iv_write_1h iv) (interval_write iv p);
          p = p\<lparr>mp_read := interval_bucket p (iv_read iv) (iv_read_mult iv) (mp_read p)\<rparr>
      in apply_channel_image_price_overrides ch p)"

section \<open>The resolver\<close>

abbreviation "BillingModeToken \<equiv> ''token''"
abbreviation "BillingModePerRequest \<equiv> ''per_request''"
abbreviation "BillingModeImage \<equiv> ''image''"
abbreviation "BillingModeVideo \<equiv> ''video''"

datatype pricing_source = Src_Group | Src_Channel | Src_Catalog | Src_Fallback

record resolved_pricing =
  rv_mode :: string
  rv_base :: "model_pricing option"
  rv_intervals :: "pricing_interval list"
  rv_tiers :: "pricing_interval list"
  rv_default :: rat
  rv_default_configured :: bool
  rv_source :: pricing_source
  rv_breakdown :: bool
  rv_channel :: "channel_model_pricing option"
  rv_base_missing :: bool
  rv_long_enabled :: bool

record pricing_group =
  gr_cards :: "channel_model_pricing list"
  gr_long_enabled :: bool

definition is_request_mode :: "string \<Rightarrow> bool" where
  "is_request_mode m \<longleftrightarrow> m \<in> {BillingModePerRequest, BillingModeImage, BillingModeVideo}"

definition mode_or_token :: "string \<Rightarrow> string" where
  "mode_or_token m = (if m = [] then BillingModeToken else m)"

definition new_resolved :: "string \<Rightarrow> pricing_source \<Rightarrow> resolved_pricing" where
  "new_resolved mode src = \<lparr>rv_mode = mode, rv_base = None, rv_intervals = [], rv_tiers = [], rv_default = 0,
     rv_default_configured = False, rv_source = src, rv_breakdown = False, rv_channel = None,
     rv_base_missing = False, rv_long_enabled = False\<rparr>"

definition normalize_channel_pricing_model_name :: "string \<Rightarrow> string" where
  "normalize_channel_pricing_model_name model =
     (let m = to_lower (trim_space model) in if has_prefix m ''claude-'' then replace_all ''.'' ''-'' m else m)"

definition wildcard_matches :: "string \<Rightarrow> string \<Rightarrow> bool" where
  "wildcard_matches model pat \<longleftrightarrow> has_suffix pat ''*'' \<and> has_prefix model (trim_suffix pat ''*'')"

text \<open>The loop over cards and patterns: an exact pattern wins, else the first wildcard that fits.\<close>

fun match_patterns ::
    "string \<Rightarrow> (string \<times> channel_model_pricing) list \<Rightarrow> channel_model_pricing option \<Rightarrow> channel_model_pricing option" where
  "match_patterns model [] wild = wild"
| "match_patterns model ((pat, c) # rest) wild =
     (let n = normalize_channel_pricing_model_name pat
      in if n = model then Some c
         else match_patterns model rest (if wildcard_matches model n \<and> wild = None then Some c else wild))"

definition match_group_model_pricing :: "pricing_group option \<Rightarrow> string \<Rightarrow> channel_model_pricing option" where
  "match_group_model_pricing g model =
     (case g of None \<Rightarrow> None
      | Some gr \<Rightarrow> match_patterns (normalize_channel_pricing_model_name model)
          (concat (map (\<lambda>c. map (\<lambda>pat. (pat, c)) (ch_models c)) (gr_cards gr))) None)"

definition apply_token_overrides :: "channel_model_pricing \<Rightarrow> resolved_pricing \<Rightarrow> resolved_pricing" where
  "apply_token_overrides ch r =
     (let hourly = (ch_write_1h ch \<noteq> None \<or> list_ex (\<lambda>iv. iv_write_1h iv \<noteq> None) (ch_intervals ch));
          p = (case rv_base r of None \<Rightarrow> zero_pricing\<lparr>mp_presence_known := True\<rparr> | Some b \<Rightarrow> b);
          p = apply_channel_token_price_overrides p ch;
          p = (if hourly then p\<lparr>mp_breakdown := True\<rparr> else p);
          p = apply_channel_image_price_overrides (Some ch) (with_channel_multipliers ch p)
      in r\<lparr>rv_base := Some p, rv_breakdown := (hourly \<or> rv_breakdown r),
           rv_intervals := filter_valid_intervals (ch_intervals ch)\<rparr>)"

definition apply_request_tier_overrides :: "channel_model_pricing \<Rightarrow> resolved_pricing \<Rightarrow> resolved_pricing" where
  "apply_request_tier_overrides ch r =
     (let r = r\<lparr>rv_tiers := filter_valid_intervals (ch_intervals ch)\<rparr>
      in case ch_per_request ch of None \<Rightarrow> r
         | Some v \<Rightarrow> r\<lparr>rv_default := v, rv_default_configured := True\<rparr>)"

definition resolve_base_pricing :: "price_service \<Rightarrow> time \<Rightarrow> string \<Rightarrow> model_pricing option \<times> pricing_source" where
  "resolve_base_pricing sv now model =
     (case get_model_pricing sv now model of Inl e \<Rightarrow> (None, Src_Fallback) | Inr p \<Rightarrow> (Some p, Src_Catalog))"

definition with_base :: "model_pricing option \<Rightarrow> resolved_pricing \<Rightarrow> resolved_pricing" where
  "with_base b r = r\<lparr>rv_base := b, rv_base_missing := (b = None),
     rv_breakdown := (case b of None \<Rightarrow> False | Some p \<Rightarrow> mp_breakdown p)\<rparr>"

definition resolve_configured_pricing ::
    "price_service \<Rightarrow> time \<Rightarrow> channel_model_pricing \<Rightarrow> string \<Rightarrow> pricing_source \<Rightarrow> resolved_pricing" where
  "resolve_configured_pricing sv now ch model src =
     (let mode = mode_or_token (ch_mode ch); r = (new_resolved mode src)\<lparr>rv_channel := Some ch\<rparr>
      in if is_request_mode mode then apply_request_tier_overrides ch r
         else apply_token_overrides ch (with_base (fst (resolve_base_pricing sv now model)) r))"

definition lookup_channel_pricing_normalized ::
    "price_service \<Rightarrow> int \<Rightarrow> string \<Rightarrow> channel_model_pricing option" where
  "lookup_channel_pricing_normalized sv gid model =
     (case sv_channel sv gid model of
        Some c \<Rightarrow> Some c
      | None \<Rightarrow> let n = normalize_known_open_ai_codex_model model
               in if n = [] \<or> equal_fold n (trim_space model) then None else sv_channel sv gid n)"

text \<open>
  The second lookup of a channel's card, when the first has found none, finds none either: both
  read the same cards here.
\<close>

definition resolve_pricing ::
    "price_service \<Rightarrow> time \<Rightarrow> string \<Rightarrow> int option \<Rightarrow> pricing_group option \<Rightarrow> resolved_pricing" where
  "resolve_pricing sv now model gid g =
     (let long = (case g of None \<Rightarrow> True | Some gr \<Rightarrow> gr_long_enabled gr)
      in case match_group_model_pricing g model of
           Some c \<Rightarrow>
             let c = (if ch_mode c = [] \<or> ch_mode c = BillingModeToken then c\<lparr>ch_intervals := []\<rparr> else c)
             in (resolve_configured_pricing sv now c model Src_Group)\<lparr>rv_long_enabled := long\<rparr>
         | None \<Rightarrow>
             let ch = (case gid of None \<Rightarrow> None | Some i \<Rightarrow> lookup_channel_pricing_normalized sv i model);
                 base = resolve_base_pricing sv now model;
                 r = (with_base (fst base) (new_resolved BillingModeToken (snd base)))\<lparr>rv_long_enabled := long\<rparr>
             in case ch of
                  None \<Rightarrow> r
                | Some c \<Rightarrow>
                    if is_request_mode (mode_or_token (ch_mode c))
                    then apply_request_tier_overrides c
                      ((new_resolved (mode_or_token (ch_mode c)) Src_Channel)\<lparr>rv_channel := Some c, rv_long_enabled := long\<rparr>)
                    else apply_token_overrides c (r\<lparr>rv_source := Src_Channel, rv_channel := Some c\<rparr>))"

definition get_interval_pricing :: "resolved_pricing \<Rightarrow> int \<Rightarrow> model_pricing option" where
  "get_interval_pricing r n =
     (if rv_intervals r = [] then rv_base r
      else case find_matching_interval (rv_intervals r) n of
             None \<Rightarrow> rv_base r
           | Some iv \<Rightarrow> Some ((interval_to_model_pricing iv (rv_base r) (rv_channel r))\<lparr>mp_breakdown := rv_breakdown r\<rparr>))"

definition get_request_tier_price_found :: "resolved_pricing \<Rightarrow> string \<Rightarrow> rat option" where
  "get_request_tier_price_found r label =
     (case find (\<lambda>iv. iv_label iv = label \<and> iv_per_request iv \<noteq> None) (rv_tiers r) of
        None \<Rightarrow> None | Some iv \<Rightarrow> iv_per_request iv)"

definition get_request_tier_price_by_context_found :: "resolved_pricing \<Rightarrow> int \<Rightarrow> rat option" where
  "get_request_tier_price_by_context_found r n =
     (case find_matching_interval (rv_tiers r) n of None \<Rightarrow> None | Some iv \<Rightarrow> iv_per_request iv)"

section \<open>Multipliers of a request\<close>

definition normalize_max_reasoning_effort :: "string \<Rightarrow> string" where
  "normalize_max_reasoning_effort raw =
     (let v = filter (\<lambda>c. c \<notin> {CHR ''-'', CHR ''_'', CHR '' ''}) (to_lower (trim_space raw))
      in if v \<in> {''minimal'', ''low'', ''medium'', ''high'', ''max''} then v
         else if v = ''xhigh'' \<or> v = ''extrahigh'' then ''xhigh'' else [])"

definition reasoning_effort_billing_multiplier :: "string \<Rightarrow> (string \<times> rat) list \<Rightarrow> rat" where
  "reasoning_effort_billing_multiplier effort ms =
     (let e = to_lower (trim_space effort);
          e = (if e = ''none'' then e else normalize_max_reasoning_effort e);
          m = (case map_of ms e of None \<Rightarrow> 0 | Some k \<Rightarrow> k)
      in if e = [] \<or> m \<le> 0 then 1 else m)"

definition resolved_channel_time_multiplier :: "price_service \<Rightarrow> resolved_pricing \<Rightarrow> time \<Rightarrow> rat" where
  "resolved_channel_time_multiplier sv r tm =
     (case rv_channel r of
        None \<Rightarrow> 1
      | Some c \<Rightarrow> if rv_source r = Src_Channel then multiplier_at (sv_zones sv) (ch_time c) tm else 1)"

section \<open>Cost\<close>

record cost_input =
  ci_model :: string
  ci_group_id :: "int option"
  ci_group :: "pricing_group option"
  ci_tokens :: usage_tokens
  ci_count :: int
  ci_units :: rat
  ci_size :: string
  ci_rate :: rat
  ci_at :: time
  ci_tier :: string
  ci_effort :: string
  ci_resolver :: bool
  ci_resolved :: "resolved_pricing option"
  ci_long :: "bool option"
  ci_disable_long :: bool

definition calculate_cost_internal_with_policy ::
    "price_service \<Rightarrow> time \<Rightarrow> string \<Rightarrow> usage_tokens \<Rightarrow> rat \<Rightarrow> string \<Rightarrow> channel_model_pricing option \<Rightarrow> bool
     \<Rightarrow> go_error + cost_breakdown" where
  "calculate_cost_internal_with_policy sv now model t rate tier ch long =
     and_then (case ch of None \<Rightarrow> get_model_pricing sv now model
               | Some c \<Rightarrow> get_model_pricing_with_channel sv now model (Some c)) (\<lambda>p.
       case validate_model_pricing_for_usage p t tier long of
         Some e \<Rightarrow> Inl (Other_Error model (Some e))
       | None \<Rightarrow> Inr (compute_token_breakdown p t rate tier long))"

definition calculate_cost :: "price_service \<Rightarrow> time \<Rightarrow> string \<Rightarrow> usage_tokens \<Rightarrow> rat \<Rightarrow> go_error + cost_breakdown" where
  "calculate_cost sv now model t rate = calculate_cost_internal_with_policy sv now model t rate [] None True"

definition peak_rates :: "rat \<Rightarrow> model_pricing \<Rightarrow> model_pricing" where
  "peak_rates m p =
     p\<lparr>mp_input := set_price (pb_price (mp_input p) * m) (mp_input p),
       mp_output := set_price (pb_price (mp_output p) * m) (mp_output p),
       mp_read := set_price (pb_price (mp_read p) * m) (mp_read p)\<rparr>"

definition context_tier_enabled :: "resolved_pricing \<Rightarrow> cost_input \<Rightarrow> bool" where
  "context_tier_enabled r ci \<longleftrightarrow> rv_long_enabled r \<or> ci_long ci = Some True"

text \<open>The card a request in tokens is charged with.\<close>

definition token_card :: "time \<Rightarrow> resolved_pricing \<Rightarrow> cost_input \<Rightarrow> model_pricing option" where
  "token_card now r ci =
     (let n = (if context_tier_enabled r ci then total_context (ci_tokens ci) else 1);
          tm = (if ci_at ci = 0 then now else ci_at ci);
          catalog = (rv_source r = Src_Catalog);
          m = deepseek_peak_multiplier_at tm
      in map_option (\<lambda>p.
           let p = apply_model_specific_pricing_policy_ex now (ci_model ci) p catalog tm
           in if catalog \<and> is_deep_seek_model (ci_model ci) \<and> m > 1 then peak_rates m p else p)
         (get_interval_pricing r n))"

definition calculate_token_cost ::
    "price_service \<Rightarrow> time \<Rightarrow> resolved_pricing \<Rightarrow> cost_input \<Rightarrow> go_error + cost_breakdown" where
  "calculate_token_cost sv now r ci =
     (case token_card now r ci of
        None \<Rightarrow> Inl (pricing_not_found (ci_model ci))
      | Some p \<Rightarrow>
          let long = (rv_intervals r = [] \<and> context_tier_enabled r ci \<and> \<not> ci_disable_long ci)
          in case validate_model_pricing_for_usage p (ci_tokens ci) (ci_tier ci) long of
               Some e \<Rightarrow> Inl (Other_Error (ci_model ci) (Some e))
             | None \<Rightarrow> Inr (apply_cost_breakdown_multiplier
                 (apply_cost_breakdown_multiplier
                   (compute_token_breakdown p (ci_tokens ci) (ci_rate ci) (ci_tier ci) long)
                   (resolved_channel_time_multiplier sv r (ci_at ci)))
                 (reasoning_effort_billing_multiplier (ci_effort ci) (mp_efforts p))))"

definition request_units :: "cost_input \<Rightarrow> rat" where
  "request_units ci = (if ci_units ci \<le> 0 then of_int (if ci_count ci \<le> 0 then 1 else ci_count ci) else ci_units ci)"

definition request_unit_price :: "resolved_pricing \<Rightarrow> cost_input \<Rightarrow> rat option" where
  "request_unit_price r ci =
     (case (if ci_size ci = [] then None else get_request_tier_price_found r (ci_size ci)) of
        Some v \<Rightarrow> Some v
      | None \<Rightarrow> (case get_request_tier_price_by_context_found r (total_context (ci_tokens ci)) of
            Some v \<Rightarrow> Some v
          | None \<Rightarrow> if rv_default_configured r \<or> rv_default r \<noteq> 0 then Some (rv_default r) else None))"

definition calculate_per_request_cost :: "resolved_pricing \<Rightarrow> cost_input \<Rightarrow> go_error + cost_breakdown" where
  "calculate_per_request_cost r ci =
     (case request_unit_price r ci of
        None \<Rightarrow> Inl (pricing_not_found (ci_model ci))
      | Some v \<Rightarrow> Inr (zero_cost\<lparr>cb_total := v * request_units ci, cb_actual := v * request_units ci * ci_rate ci\<rparr>))"

definition calculate_cost_unified ::
    "price_service \<Rightarrow> time \<Rightarrow> cost_input \<Rightarrow> go_error + cost_breakdown" where
  "calculate_cost_unified sv now ci =
     (if \<not> ci_resolver ci
      then and_then (calculate_cost_internal_with_policy sv now (ci_model ci) (ci_tokens ci) (ci_rate ci) (ci_tier ci)
             None (ci_long ci \<noteq> Some False \<and> \<not> ci_disable_long ci))
           (\<lambda>c. Inr (apply_cost_breakdown_multiplier c (reasoning_effort_billing_multiplier (ci_effort ci) [])))
      else
        let r = (case ci_resolved ci of Some r \<Rightarrow> r
                 | None \<Rightarrow> resolve_pricing sv now (ci_model ci) (ci_group_id ci) (ci_group ci));
            ci = ci\<lparr>ci_rate := max 0 (ci_rate ci)\<rparr>;
            bd = (if is_request_mode (rv_mode r)
                  then and_then (calculate_per_request_cost r ci) (\<lambda>c. Inr (case rv_channel r of
                         None \<Rightarrow> c
                       | Some ch \<Rightarrow> apply_cost_breakdown_multiplier c
                           (reasoning_effort_billing_multiplier (ci_effort ci) (ch_efforts ch))))
                  else calculate_token_cost sv now r ci)
        in and_then bd (\<lambda>c. Inr (c\<lparr>cb_mode := mode_or_token (rv_mode r)\<rparr>)))"

text \<open>
  \<open>CalculateCostWithLongContext\<close>: input and cache reads above a threshold have a further multiplier. An
  error of the second call is the result; the source returns the first cost with it, which no caller reads.
\<close>

definition calculate_cost_with_long_context ::
    "price_service \<Rightarrow> time \<Rightarrow> string \<Rightarrow> usage_tokens \<Rightarrow> rat \<Rightarrow> int \<Rightarrow> rat \<Rightarrow> go_error + cost_breakdown" where
  "calculate_cost_with_long_context sv now model t rate threshold extra =
     (if threshold \<le> 0 \<or> extra \<le> 1 \<or> ut_read t + ut_input t \<le> threshold
      then calculate_cost sv now model t rate
      else
        let (in_read, in_input, out_read, out_input) =
              (if ut_read t \<ge> threshold then (threshold, 0, ut_read t - threshold, ut_input t)
               else (ut_read t, threshold - ut_read t, 0, ut_input t - (threshold - ut_read t)))
        in and_then (calculate_cost sv now model
             (t\<lparr>ut_input := in_input, ut_read := in_read, ut_image_input := 0, ut_image_read := 0\<rparr>) rate) (\<lambda>a.
           and_then (case calculate_cost sv now model
               (zero_tokens\<lparr>ut_input := out_input, ut_read := out_read\<rparr>) (rate * extra) of
               Inl e \<Rightarrow> Inl (Other_Error ''out-range cost'' (Some e)) | Inr b \<Rightarrow> Inr b) (\<lambda>b.
           Inr \<lparr>cb_input = cb_input a + cb_input b, cb_image_input = cb_image_input a + cb_image_input b,
                cb_output = cb_output a, cb_image_output = cb_image_output a, cb_write = cb_write a,
                cb_read = cb_read a + cb_read b, cb_total = cb_total a + cb_total b,
                cb_actual = cb_actual a + cb_actual b, cb_mode = [], cb_long = (cb_actual b > 0)\<rparr>)))"

end
