(* ===== verification/Cost_Laws.thy ===== *)
theory Cost_Laws
  imports Cost
begin

text \<open>
  What a breakdown promises: the split of cache writes stays within the reported total, a usage that
  passes the check is never charged zero by a card without free prices, and the prices of the
  priority tier scale the whole cost.
\<close>

section \<open>The split of cache writes\<close>

lemma math_round_error: "\<bar>of_int (math_round x) - x\<bar> \<le> 1 / 2"
  using floor_half_error [of x] floor_half_error [of "- x"] by (cases "x < 0") (simp_all add: math_round_def abs_if split: if_splits)

lemma math_round_nonneg: "0 \<le> x \<Longrightarrow> 0 \<le> math_round x"
  by (simp add: math_round_def)

lemma share_le:
  assumes "0 \<le> m" "0 \<le> h" "(0::rat) \<le> a" shows "a * m / (m + h) \<le> a"
proof (cases "m + h = 0")
  case True then show ?thesis using assms by simp
next
  case False
  then have "0 < m + h" using assms by simp
  then show ?thesis using assms by (simp add: divide_le_eq mult_left_mono)
qed

lemma cache_split_parts:
  assumes "normalize_cache_creation_breakdown t = (n5, n1)"
  defines "m5 \<equiv> max 0 (ut_write_5m t)" and "h1 \<equiv> max 0 (ut_write_1h t)"
  shows "0 \<le> n5 \<and> 0 \<le> n1 \<and>
    (if ut_write t \<le> 0 \<or> m5 + h1 \<le> ut_write t then n5 = m5 \<and> n1 = h1
     else n5 + n1 = ut_write t \<and>
       \<bar>of_int n5 - of_int (ut_write t) * of_int m5 / (of_int (m5 + h1) :: rat)\<bar> \<le> 1 / 2)"
proof (cases "ut_write t \<le> 0 \<or> m5 + h1 \<le> ut_write t")
  case True
  then show ?thesis using assms(1)
    by (auto simp: normalize_cache_creation_breakdown_def Let_def m5_def h1_def split: if_splits)
next
  case False
  let ?x = "of_int (ut_write t) * of_int m5 / (of_int (m5 + h1) :: rat)"
  have nonneg: "0 \<le> m5" "0 \<le> h1" by (simp_all add: m5_def h1_def)
  have x: "0 \<le> ?x" using nonneg False by simp
  have up: "?x \<le> of_int (ut_write t)"
    using share_le [of "of_int m5" "of_int h1" "of_int (ut_write t)"] nonneg False by simp
  have "\<not> ut_write t < math_round ?x"
  proof
    assume "ut_write t < math_round ?x"
    then have "of_int (ut_write t) + 1 \<le> (of_int (math_round ?x) :: rat)" by linarith
    then show False using math_round_error [of ?x] up by linarith
  qed
  then have n: "n5 = math_round ?x \<and> n1 = ut_write t - math_round ?x"
    using assms(1) False
    by (auto simp: normalize_cache_creation_breakdown_def Let_def m5_def h1_def split: if_splits)
  with \<open>\<not> ut_write t < math_round ?x\<close> False show ?thesis
    using math_round_error [of ?x] math_round_nonneg [OF x] by auto
qed

text \<open>
  Claim C22. The reported split of cache writes into two tiers is kept when it fits the reported total or there is
  no total. Otherwise the two counts add up to the total and the first is its proportional share,
  rounded to the nearest token.
\<close>

theorem cache_split_bounds:
  assumes "normalize_cache_creation_breakdown t = (n5, n1)"
  defines "m5 \<equiv> max 0 (ut_write_5m t)" and "h1 \<equiv> max 0 (ut_write_1h t)"
  shows "0 \<le> n5 \<and> 0 \<le> n1 \<and>
    (if ut_write t \<le> 0 \<or> m5 + h1 \<le> ut_write t then n5 = m5 \<and> n1 = h1
     else n5 + n1 = ut_write t \<and>
       \<bar>of_int n5 - of_int (ut_write t) * of_int m5 / (of_int (m5 + h1) :: rat)\<bar> \<le> 1 / 2)"
  unfolding m5_def h1_def by (rule cache_split_parts [OF assms(1)])

section \<open>No usage is free by accident\<close>

text \<open>A card on which no price, surcharge or tier is zero or negative: nothing is deliberately free.\<close>

definition bucket_positive :: "model_pricing \<Rightarrow> price_bucket \<Rightarrow> bool" where
  "bucket_positive p b \<longleftrightarrow> (standard_present p b \<longrightarrow> 0 < pb_price b) \<and> (priority_present p b \<longrightarrow> 0 < pb_priority b)"

definition above_positive :: "above_bucket \<Rightarrow> bool" where
  "above_positive a \<longleftrightarrow> (ab_configured a \<longrightarrow> 0 < ab_mult a) \<and> (ab_priority_configured a \<longrightarrow> 0 < ab_priority_mult a)"

definition prices_nonneg :: "model_pricing \<Rightarrow> bool" where
  "prices_nonneg p \<longleftrightarrow> list_all (\<lambda>b. 0 \<le> pb_price b \<and> 0 \<le> pb_priority b) (token_buckets p) \<and>
     0 \<le> mp_image_input p \<and> 0 \<le> mp_image_output p"

definition card_positive :: "model_pricing \<Rightarrow> bool" where
  "card_positive p \<longleftrightarrow> prices_nonneg p \<and> list_all (bucket_positive p) (token_buckets p) \<and>
     list_all above_positive [mp_above_5m p, mp_above_1h p, mp_above_read p] \<and>
     (mp_image_input_explicit p \<longrightarrow> 0 < mp_image_input p) \<and>
     (mp_image_output_explicit p \<longrightarrow> 0 < mp_image_output p) \<and>
     (case mp_fast p of None \<Rightarrow> True | Some m \<Rightarrow> 0 < m) \<and> (case mp_flex p of None \<Rightarrow> True | Some m \<Rightarrow> 0 < m)"

definition tokens_nonneg :: "usage_tokens \<Rightarrow> bool" where
  "tokens_nonneg t \<longleftrightarrow> 0 \<le> ut_input t \<and> 0 \<le> ut_image_input t \<and> 0 \<le> ut_image_read t \<and> 0 \<le> ut_output t \<and>
     0 \<le> ut_write t \<and> 0 \<le> ut_read t \<and> 0 \<le> ut_write_5m t \<and> 0 \<le> ut_write_1h t \<and> 0 \<le> ut_image_output t"

definition prices_pos :: "model_pricing \<Rightarrow> usage_tokens \<Rightarrow> used_prices \<Rightarrow> bool" where
  "prices_pos p t u \<longleftrightarrow> 0 \<le> up_input u \<and> 0 \<le> up_output u \<and> 0 \<le> up_read u \<and> 0 \<le> up_write u \<and> 0 \<le> up_5m u \<and>
     0 \<le> up_1h u \<and> 0 < up_tier u \<and>
     (ut_input t > ut_image_input t \<longrightarrow> 0 < up_input u) \<and>
     (ut_output t > ut_image_output t \<longrightarrow> 0 < up_output u) \<and>
     (ut_read t > 0 \<longrightarrow> 0 < up_read u) \<and>
     (ut_write_5m t > 0 \<longrightarrow> 0 < up_5m u) \<and> (ut_write_1h t > 0 \<longrightarrow> 0 < up_1h u) \<and>
     (ut_write t > 0 \<and> ut_write_5m t = 0 \<and> ut_write_1h t = 0 \<longrightarrow> 0 < up_write u \<and> 0 < up_5m u)"

lemma tier_price_nonneg:
  "prices_nonneg p \<Longrightarrow> b \<in> set (token_buckets p) \<Longrightarrow> 0 \<le> tier_price pri p b"
  by (auto simp: prices_nonneg_def list_all_iff tier_price_def)

lemma tier_price_pos:
  assumes "card_positive p" "b \<in> set (token_buckets p)"
    and "standard_present p b \<or> pri \<and> priority_present p b"
  shows "0 < tier_price pri p b"
  using assms by (auto simp: card_positive_def list_all_iff tier_price_def bucket_positive_def)

lemma token_buckets_mem [simp]:
  "mp_input p \<in> set (token_buckets p)" "mp_output p \<in> set (token_buckets p)" "mp_write p \<in> set (token_buckets p)"
  "mp_write_5m p \<in> set (token_buckets p)" "mp_write_1h p \<in> set (token_buckets p)" "mp_read p \<in> set (token_buckets p)"
  by (simp_all add: token_buckets_def)

lemma tier_multiplier_pos: "card_positive p \<Longrightarrow> 0 < configured_service_tier_multiplier tier p"
  by (auto simp: card_positive_def configured_service_tier_multiplier_def service_tier_cost_multiplier_def
      Let_def split: option.splits)

lemma tier_prices_pos:
  assumes "card_positive p" "tokens_nonneg t" "buckets_priced p t tier"
  shows "prices_pos p t (tier_prices p t tier)"
proof -
  have "prices_nonneg p" using assms(1) by (simp add: card_positive_def)
  then show ?thesis
    using assms tier_price_nonneg tier_price_pos [OF assms(1)] tier_multiplier_pos [OF assms(1)]
    unfolding prices_pos_def tier_prices_def Let_def used_prices.simps
    by (auto simp: buckets_priced_def bucket_configured_def Let_def tokens_nonneg_def)
qed

lemma above_mult_pos: "above_positive a \<Longrightarrow> 0 < m \<Longrightarrow> 0 < above_mult pri m a"
  by (simp add: above_mult_def above_positive_def)

lemma long_or_one_pos: "0 < long_context_multiplier_or_one m"
  by (simp add: long_context_multiplier_or_one_def)

lemma long_prices_pos:
  assumes "card_positive p" "prices_pos p t u"
  shows "prices_pos p t (long_prices p tier u)"
proof -
  have a: "0 < above_mult pri (long_context_multiplier_or_one m) (mp_above_5m p)"
    "0 < above_mult pri (long_context_multiplier_or_one m) (mp_above_1h p)"
    "0 < above_mult pri (long_context_multiplier_or_one m) (mp_above_read p)" for pri m
    using assms(1) by (auto simp: card_positive_def intro!: above_mult_pos long_or_one_pos)
  show ?thesis
    using assms(2) a a [THEN less_imp_le] long_or_one_pos long_or_one_pos [THEN less_imp_le]
    unfolding prices_pos_def long_prices_def Let_def by simp
qed

text \<open>Each part of a usage costs something when there are tokens of it.\<close>

definition parts_priced :: "usage_tokens \<Rightarrow> cost_breakdown \<Rightarrow> bool" where
  "parts_priced t c \<longleftrightarrow>
     0 \<le> cb_input c \<and> (ut_input t > ut_image_input t \<longrightarrow> 0 < cb_input c) \<and>
     0 \<le> cb_image_input c \<and> (min (ut_input t) (ut_image_input t) > 0 \<longrightarrow> 0 < cb_image_input c) \<and>
     0 \<le> cb_output c \<and> (ut_output t > ut_image_output t \<longrightarrow> 0 < cb_output c) \<and>
     0 \<le> cb_image_output c \<and> (ut_image_output t > 0 \<longrightarrow> 0 < cb_image_output c) \<and>
     0 \<le> cb_write c \<and> (ut_write t > 0 \<or> ut_write_5m t > 0 \<or> ut_write_1h t > 0 \<longrightarrow> 0 < cb_write c) \<and>
     0 \<le> cb_read c \<and> (ut_read t > 0 \<longrightarrow> 0 < cb_read c) \<and>
     cb_total c = cb_input c + cb_image_input c + cb_output c + cb_image_output c + cb_write c + cb_read c"

lemma math_round_of_int [simp]: "math_round (of_int k) = k"
  using floor_half [of k] floor_half [of "- k"] by (simp add: math_round_def)

lemma split_sources:
  assumes "normalize_cache_creation_breakdown t = (n5, n1)" "tokens_nonneg t"
  shows "(0 < n5 \<longrightarrow> 0 < ut_write_5m t) \<and> (0 < n1 \<longrightarrow> 0 < ut_write_1h t) \<and>
    (0 < ut_write_5m t \<or> 0 < ut_write_1h t \<longrightarrow> 0 < n5 + n1)"
proof (cases "ut_write t \<le> 0 \<or> ut_write_5m t + ut_write_1h t \<le> ut_write t")
  case True
  then show ?thesis using cache_split_parts [OF assms(1)] assms(2) by (auto simp: tokens_nonneg_def)
next
  case False
  then have sum: "n5 + n1 = ut_write t" and pos: "0 < ut_write t"
    using cache_split_parts [OF assms(1)] assms(2) by (auto simp: tokens_nonneg_def)
  have "n5 = 0" if "ut_write_5m t = 0"
    using assms False that math_round_of_int [of 0]
    by (auto simp: normalize_cache_creation_breakdown_def Let_def tokens_nonneg_def split: if_splits)
  moreover have "n5 = ut_write t" if "ut_write_1h t = 0"
    using assms False that
    by (auto simp: normalize_cache_creation_breakdown_def Let_def tokens_nonneg_def split: if_splits)
  ultimately show ?thesis using sum pos assms(2) by (fastforce simp: tokens_nonneg_def)
qed

lemma weighted_pos:
  assumes "0 \<le> x" "0 \<le> y" "0 \<le> a" "0 \<le> b" "0 < x \<longrightarrow> 0 < a" "0 < y \<longrightarrow> 0 < b"
  shows "0 \<le> x * a + y * b \<and> (0 < x + y \<longrightarrow> 0 < x * a + (y * b :: rat))"
  using assms by (cases "x = 0"; cases "y = 0") (auto simp: add_pos_pos)

lemma write_cost_pos:
  assumes "tokens_nonneg t" "0 \<le> a" "0 \<le> b" "0 \<le> c"
    and "ut_write_5m t > 0 \<Longrightarrow> 0 < a" "ut_write_1h t > 0 \<Longrightarrow> 0 < b"
    and "ut_write t > 0 \<Longrightarrow> ut_write_5m t = 0 \<Longrightarrow> ut_write_1h t = 0 \<Longrightarrow> 0 < c \<and> 0 < a"
  shows "0 \<le> compute_cache_creation_cost d a b t c 1 \<and>
    (ut_write t > 0 \<or> ut_write_5m t > 0 \<or> ut_write_1h t > 0 \<longrightarrow> 0 < compute_cache_creation_cost d a b t c 1)"
proof (cases "d \<or> ut_write_5m t > 0 \<or> ut_write_1h t > 0")
  case False
  then show ?thesis using assms by (auto simp: compute_cache_creation_cost_def tokens_nonneg_def)
next
  case True
  obtain n5 n1 where n: "normalize_cache_creation_breakdown t = (n5, n1)" by fastforce
  have sign: "0 \<le> n5" "0 \<le> n1" using cache_split_parts [OF n] by auto
  note src = split_sources [OF n assms(1)]
  have "0 \<le> of_int n5 * a + of_int n1 * b \<and> (0 < n5 + n1 \<longrightarrow> 0 < of_int n5 * a + of_int n1 * b)"
    using weighted_pos [of "of_int n5" "of_int n1" a b] sign src assms
    by (simp flip: of_int_add)
  then show ?thesis
    using True n src sign assms by (auto simp: compute_cache_creation_cost_def tokens_nonneg_def)
qed

lemma input_costs_pos:
  assumes "tokens_nonneg t" "0 \<le> a" "0 \<le> mp_image_input p" "ut_input t > ut_image_input t \<longrightarrow> 0 < a"
    and "min (ut_input t) (ut_image_input t) > 0 \<longrightarrow> 0 < mp_image_input p"
  shows "0 \<le> fst (input_costs p t a) \<and> (ut_input t > ut_image_input t \<longrightarrow> 0 < fst (input_costs p t a))"
    and "0 \<le> snd (input_costs p t a) \<and>
      (min (ut_input t) (ut_image_input t) > 0 \<longrightarrow> 0 < snd (input_costs p t a))"
  using assms by (auto simp: input_costs_def Let_def tokens_nonneg_def)

lemma cache_read_cost_pos:
  assumes "tokens_nonneg t" "0 \<le> a" "ut_read t > 0 \<longrightarrow> 0 < a"
  shows "0 \<le> cache_read_cost p t a \<and> (ut_read t > 0 \<longrightarrow> 0 < cache_read_cost p t a)"
proof -
  let ?i = "min (max (ut_image_read t) 0) (max (ut_read t) 0)"
  have i: "0 \<le> ?i" "?i \<le> ut_read t" using assms(1) by (auto simp: tokens_nonneg_def)
  have "0 \<le> of_int (ut_read t - ?i) * a + of_int ?i * m \<and>
      (ut_read t > 0 \<longrightarrow> 0 < of_int (ut_read t - ?i) * a + of_int ?i * m)" if "0 < m" for m :: rat
    using weighted_pos [of "of_int (ut_read t - ?i)" "of_int ?i" a m] i that assms(2,3)
    by (auto simp flip: of_int_add simp del: of_int_diff)
  then show ?thesis using assms
    by (auto simp: cache_read_cost_def Let_def tokens_nonneg_def simp del: of_int_diff)
qed

lemma price_usage_pos:
  assumes card: "card_positive p" and t: "tokens_nonneg t" and pr: "buckets_priced p t tier"
    and u: "prices_pos p t u"
  shows "parts_priced t (price_usage p t rate u)"
proof -
  have img: "min (ut_input t) (ut_image_input t) > 0 \<longrightarrow> 0 < mp_image_input p"
    "ut_image_output t > 0 \<longrightarrow> 0 < mp_image_output p" "0 \<le> mp_image_input p" "0 \<le> mp_image_output p"
    using card pr by (auto simp: card_positive_def prices_nonneg_def buckets_priced_def image_configured_def
        Let_def min.commute)
  note u' = u [unfolded prices_pos_def]
  have k: "0 < up_tier u" "0 \<le> up_tier u" using u' by auto
  have "0 \<le> image_output_cost p t (up_output u) \<and>
      (ut_image_output t > 0 \<longrightarrow> 0 < image_output_cost p t (up_output u))"
    using img by (auto simp: image_output_cost_def)
  moreover note input_costs_pos [OF t, of "up_input u" p] cache_read_cost_pos [OF t, of "up_read u" p]
    write_cost_pos [OF t, of "up_5m u" "up_1h u" "up_write u" "mp_breakdown p"]
  ultimately show ?thesis
    using u' k img t unfolding parts_priced_def price_usage_def Let_def cost_breakdown.simps
    by (auto simp: tokens_nonneg_def intro!: mult_nonneg_nonneg mult_pos_pos)
qed

text \<open>
  Claim C19. A card without free prices never charges zero for tokens: when the check accepts the usage,
  every part that has tokens costs more than zero, the total is the sum of the parts, and the actual
  cost is the total times the rate, which counts as zero when it is negative.
\<close>

theorem usage_never_free:
  assumes "validate_model_pricing_for_usage p t tier long = None" "card_positive p" "tokens_nonneg t"
  shows "parts_priced t (compute_token_breakdown p t rate tier long) \<and>
    cb_actual (compute_token_breakdown p t rate tier long) =
      cb_total (compute_token_breakdown p t rate tier long) * max 0 rate"
proof -
  have pr: "buckets_priced p t tier"
    using assms(1) by (auto simp: validate_model_pricing_for_usage_def split: if_splits)
  note u = tier_prices_pos [OF assms(2,3) pr]
  note all = price_usage_pos [OF assms(2,3) pr u] price_usage_pos [OF assms(2,3) pr long_prices_pos [OF assms(2) u]]
  show ?thesis
    using all by (auto simp: compute_token_breakdown_def Let_def parts_priced_def price_usage_def)
qed

end
