(* ===== verification/Pricing_Laws.thy ===== *)
theory Pricing_Laws
  imports Request_Cost Cost_Laws
begin

text \<open>
  Properties of cards and request costs, and two usages that the code charges otherwise than
  its comments say.
\<close>

section \<open>The rules for single models\<close>

definition policy_nonneg :: "model_pricing \<Rightarrow> bool" where
  "policy_nonneg p \<longleftrightarrow> 0 \<le> pb_price (mp_input p) \<and> 0 \<le> pb_priority (mp_input p)"

lemma deep_seek_rates_idem: "deep_seek_rates pro (deep_seek_rates pro p) = deep_seek_rates pro p"
  by (simp add: deep_seek_rates_def set_price_def)

lemma write_premium_price: "pb_price (write_premium k i w) = (if pb_price w \<le> 0 then pb_price i * (5 / 4) else pb_price w)"
  by (simp add: write_premium_def Let_def)

lemma write_premium_idem: "write_premium k i (write_premium k i w) = write_premium k i w"
  by (simp add: write_premium_def Let_def)

lemma write_premium_fast:
  assumes "0 \<le> pb_price i" "0 \<le> pb_priority i" and "w' = fast_bucket r False (write_premium k i w)"
  shows "fast_bucket r False (write_premium k (fast_bucket r True i) w') = w'"
proof -
  consider "r \<le> 0" | "0 < r" "0 < pb_price (write_premium k i w)" | "0 < r" "pb_price w \<le> 0" "pb_price i = 0"
    using assms(1) by (force simp: write_premium_price split: if_splits)
  then show ?thesis
  proof cases
    case 1 then show ?thesis using assms(3) by (simp add: fast_bucket_def write_premium_idem)
  next
    case 2
    then have "0 < pb_price w'" "pb_priority w' = pb_price w' * r"
      using assms(3) by (simp_all add: fast_bucket_def scale_priority_def)
    moreover from this 2(1) have "\<not> pb_priority w' \<le> 0" by (simp add: not_le)
    ultimately show ?thesis using 2(1) by (simp add: fast_bucket_def scale_priority_def write_premium_def)
  next
    case 3
    have "w' = write_premium k i w" using 3 assms(3) by (simp add: fast_bucket_def write_premium_price)
    then show ?thesis using 3 assms(2)
      by (simp add: fast_bucket_def scale_priority_def write_premium_def Let_def)
  qed
qed

lemma fast_bucket_idem [simp]:
  "fast_bucket r a (fast_bucket r a b) = fast_bucket r a b"
  "fast_bucket r a (fast_bucket r False b) = fast_bucket r a b"
  by (auto simp: fast_bucket_def scale_priority_def)

lemma open_ai_rules_idem:
  "policy_nonneg p \<Longrightarrow> open_ai_rules prem ast sl op r (open_ai_rules prem ast sl op r p) = open_ai_rules prem ast sl op r p"
  using write_premium_fast [OF _ _ refl, of "mp_input p" r "mp_presence_known p" "mp_write p"]
  by (cases "mp_write_explicit p") (simp_all add: open_ai_rules_def enforce_open_ai_fast_pricing_ratio_def Let_def policy_nonneg_def)

text \<open>
  Claim C24. The rules for single models are applied when a card is read and again when a request is charged.
  For a card whose input prices, standard and priority, are not negative, and for every model and time, the
  second application changes nothing, so no rate, premium or ratio is applied twice.
\<close>

theorem policy_idempotent:
  assumes "policy_nonneg p"
  shows "apply_model_specific_pricing_policy_ex now model
      (apply_model_specific_pricing_policy_ex now model p force tm) force tm =
    apply_model_specific_pricing_policy_ex now model p force tm"
proof (cases "force \<and> is_deep_seek_model model")
  case True
  then show ?thesis by (simp add: apply_model_specific_pricing_policy_ex_def deep_seek_rates_idem)
next
  case False
  let ?n = "normalize_known_open_ai_codex_model model"
  let ?f = "open_ai_rules (uses_cache_write_premium ?n) (is_open_ai_gpt6_astra_model ?n)
    (is_gpt6_sol_or_luna_model_spelling ?n \<or> is_gpt61_sol_model_spelling ?n) (is_opus55 model)
    (open_ai_model_fast_pricing_ratio ?n)"
  have eq: "apply_model_specific_pricing_policy_ex now model q force tm = q \<or>
      apply_model_specific_pricing_policy_ex now model q force tm = ?f q" for q
    unfolding apply_model_specific_pricing_policy_ex_def Let_def if_not_P [OF False] by simp
  show ?thesis using eq [of p] eq [of "?f p"] open_ai_rules_idem [OF assms] by metis
qed

section \<open>The fast tier\<close>

definition same_above :: "above_bucket \<Rightarrow> bool" where
  "same_above a \<longleftrightarrow> ab_priority_configured a = ab_configured a \<and> ab_priority_mult a = ab_mult a"

definition fast_card :: "rat \<Rightarrow> model_pricing \<Rightarrow> bool" where
  "fast_card r p \<longleftrightarrow>
     list_all (\<lambda>b. pb_priority b = r * pb_price b \<and> priority_present p b) (token_buckets p) \<and>
     standard_present p (mp_write_5m p) \<and> list_all same_above [mp_above_5m p, mp_above_1h p, mp_above_read p]"

definition text_only :: "usage_tokens \<Rightarrow> bool" where
  "text_only t \<longleftrightarrow> ut_image_input t \<le> 0 \<and> ut_image_output t \<le> 0 \<and> ut_image_read t \<le> 0"

definition scale_prices :: "rat \<Rightarrow> used_prices \<Rightarrow> used_prices" where
  "scale_prices r u = \<lparr>up_input = r * up_input u, up_output = r * up_output u, up_read = r * up_read u,
     up_write = r * up_write u, up_5m = r * up_5m u, up_1h = r * up_1h u, up_tier = up_tier u\<rparr>"

lemma no_tier: "\<not> use_priority_service_tier_pricing [] p" "configured_service_tier_multiplier [] p = 1"
proof -
  have "normalize_billing_service_tier [] = []" by code_simp
  then show "\<not> use_priority_service_tier_pricing [] p" "configured_service_tier_multiplier [] p = 1"
    by (simp_all add: use_priority_service_tier_pricing_def configured_service_tier_multiplier_def
        service_tier_cost_multiplier_def)
qed

lemma fast_tier_prices:
  assumes "fast_card r p" "use_priority_service_tier_pricing tier p"
  shows "tier_prices p t tier = scale_prices r (tier_prices p t [])"
proof -
  have "tier_price True p b = r * tier_price False p b" if "b \<in> set (token_buckets p)" for b
    using assms(1) that by (auto simp: fast_card_def list_all_iff tier_price_def)
  then show ?thesis
    using assms no_tier [of p] by (simp add: tier_prices_def Let_def scale_prices_def fast_card_def)
qed

lemma fast_long_prices:
  assumes "fast_card r p" "use_priority_service_tier_pricing tier p"
  shows "long_prices p tier (scale_prices r u) = scale_prices r (long_prices p [] u)"
  using assms no_tier [of p] by (simp add: long_prices_def Let_def scale_prices_def fast_card_def same_above_def above_mult_def)

lemma write_cost_scale:
  "compute_cache_creation_cost d (r * a) (r * b) t (r * c) m = r * compute_cache_creation_cost d a b t c m"
  by (simp add: compute_cache_creation_cost_def algebra_simps split: prod.split)

lemma price_usage_scale:
  assumes "text_only t"
  shows "cb_total (price_usage p t rate (scale_prices r u)) = r * cb_total (price_usage p t rate u)"
  using assms
  by (simp add: price_usage_def Let_def scale_prices_def write_cost_scale input_costs_def image_output_cost_def
      cache_read_cost_def text_only_def algebra_simps)

text \<open>
  Claim C20. On a card whose priority prices are \<open>r\<close> times its standard prices, a usage of text in the fast tier
  costs exactly \<open>r\<close> times what it costs without a tier: the ratio is charged once, with and without the
  surcharge for long contexts.
\<close>

theorem fast_cost_scales:
  assumes "fast_card r p" "use_priority_service_tier_pricing tier p" "text_only t"
  shows "cb_total (compute_token_breakdown p t rate tier long) = r * cb_total (compute_token_breakdown p t rate [] long) \<and>
    cb_actual (compute_token_breakdown p t rate tier long) = r * cb_actual (compute_token_breakdown p t rate [] long)"
proof -
  have act: "cb_actual (price_usage p t k u) = cb_total (price_usage p t k u) * k" for k u
    by (simp add: price_usage_def Let_def)
  show ?thesis
    using price_usage_scale [OF assms(3)] fast_tier_prices [OF assms(1,2)] fast_long_prices [OF assms(1,2)]
    by (simp add: compute_token_breakdown_def Let_def act)
qed

section \<open>The cost of a request\<close>

lemma breakdown_actual:
  "cb_actual (compute_token_breakdown p t rate tier long) =
     cb_total (compute_token_breakdown p t rate tier long) * max 0 rate"
  by (simp add: compute_token_breakdown_def price_usage_def Let_def)

lemma multiplier_actual:
  "cb_actual c = cb_total c * k \<Longrightarrow>
    cb_actual (apply_cost_breakdown_multiplier c m) = cb_total (apply_cost_breakdown_multiplier c m) * k"
  by (simp add: apply_cost_breakdown_multiplier_def)

text \<open>
  However a request is charged, in tokens or per request, from any card: the actual cost is the
  total cost times the rate, and a negative rate charges nothing.
\<close>

theorem unified_actual_cost:
  assumes "calculate_cost_unified sv now ci = Inr c"
  shows "cb_actual c = cb_total c * max 0 (ci_rate ci)"
proof (cases "ci_resolver ci")
  case False
  then show ?thesis using assms
    by (auto simp: calculate_cost_unified_def calculate_cost_internal_with_policy_def and_then_Inr_iff
        breakdown_actual multiplier_actual split: option.splits)
next
  case True
  define r where "r = (case ci_resolved ci of Some r \<Rightarrow> r
    | None \<Rightarrow> resolve_pricing sv now (ci_model ci) (ci_group_id ci) (ci_group ci))"
  let ?ci = "ci\<lparr>ci_rate := max 0 (ci_rate ci)\<rparr>"
  have tok: "cb_actual d = cb_total d * max 0 (ci_rate ci)" if "calculate_token_cost sv now r ?ci = Inr d" for d
    using that by (auto simp: calculate_token_cost_def Let_def multiplier_actual breakdown_actual split: option.splits)
  have req: "cb_actual d = cb_total d * max 0 (ci_rate ci)" if "calculate_per_request_cost r ?ci = Inr d" for d
    using that by (auto simp: calculate_per_request_cost_def request_unit_price_def split: option.splits)
  show ?thesis
    using assms True tok req
    by (auto simp: calculate_cost_unified_def and_then_Inr_iff Let_def r_def [symmetric] multiplier_actual
        split: if_splits option.splits)
qed

section \<open>The surcharge above a threshold\<close>

lemma calculate_cost_plain:
  assumes "get_model_pricing sv now model = Inr p" "mp_long_threshold p \<le> 0"
  shows "calculate_cost sv now model t rate =
    (if buckets_priced p t [] then Inr (price_usage p t (max 0 rate) (tier_prices p t []))
     else Inl (Other_Error model (Some err_model_pricing_unavailable)))"
  using assms by (simp add: calculate_cost_def calculate_cost_internal_with_policy_def and_then_def
      validate_model_pricing_for_usage_def compute_token_breakdown_def should_apply_session_long_context_pricing_def)

lemma plain_prices:
  "up_input (tier_prices p t []) = pb_price (mp_input p)" "up_read (tier_prices p t []) = pb_price (mp_read p)"
  "up_tier (tier_prices p t []) = 1"
  by (simp_all add: tier_prices_def Let_def no_tier tier_price_def)

lemma prefix_priced:
  assumes "buckets_priced p t []" "tokens_nonneg t" "ut_image_input t = 0"
    and "a > 0 \<longrightarrow> ut_input t > 0" "b > 0 \<longrightarrow> ut_read t > 0" "0 \<le> a"
  shows "buckets_priced p (t\<lparr>ut_input := a, ut_read := b, ut_image_input := 0, ut_image_read := 0\<rparr>) []"
    and "buckets_priced p (zero_tokens\<lparr>ut_input := a, ut_read := b\<rparr>) []"
  using assms by (auto simp: buckets_priced_def Let_def zero_tokens_def tokens_nonneg_def)

lemma total_in_range:
  assumes "ut_image_input t = 0" "ut_image_read t = 0"
  shows "cb_total (price_usage p (t\<lparr>ut_input := a, ut_read := b, ut_image_input := 0, ut_image_read := 0\<rparr>) k
      (tier_prices p (t\<lparr>ut_input := a, ut_read := b, ut_image_input := 0, ut_image_read := 0\<rparr>) [])) =
    cb_total (price_usage p t k (tier_prices p t [])) -
      (of_int (ut_input t - a) * pb_price (mp_input p) + of_int (ut_read t - b) * pb_price (mp_read p))"
proof -
  let ?t = "t\<lparr>ut_input := a, ut_read := b, ut_image_input := 0, ut_image_read := 0\<rparr>"
  have u: "tier_prices p ?t [] = tier_prices p t []" by (simp add: tier_prices_def)
  have "compute_cache_creation_cost d x y ?t z m = compute_cache_creation_cost d x y t z m" for d x y z m
    by (simp add: compute_cache_creation_cost_def normalize_cache_creation_breakdown_def split: prod.split)
  then show ?thesis
    using assms by (simp add: price_usage_def Let_def u plain_prices input_costs_def cache_read_cost_def
        image_output_cost_def algebra_simps)
qed

lemma total_out_range:
  "cb_total (price_usage p (zero_tokens\<lparr>ut_input := a, ut_read := b\<rparr>) k
      (tier_prices p (zero_tokens\<lparr>ut_input := a, ut_read := b\<rparr>) [])) =
    of_int a * pb_price (mp_input p) + of_int b * pb_price (mp_read p)"
  by (simp add: price_usage_def Let_def plain_prices zero_tokens_def input_costs_def cache_read_cost_def
      image_output_cost_def compute_cache_creation_cost_def normalize_cache_creation_breakdown_def)

lemma usage_actual: "cb_actual (price_usage p t k u) = cb_total (price_usage p t k u) * k"
  by (simp add: price_usage_def Let_def)

text \<open>
  Claim C21. A usage split at the threshold is charged for each token once: the total is that of the whole
  usage, and the actual cost exceeds the plain one by the further multiplier on exactly the tokens
  above the threshold, cache reads counted first.
\<close>

theorem long_context_split:
  assumes card: "get_model_pricing sv now model = Inr p" "mp_long_threshold p \<le> 0"
    and plain: "calculate_cost sv now model t rate = Inr c"
    and t: "tokens_nonneg t" "ut_image_input t = 0" "ut_image_read t = 0"
    and above: "0 < threshold" "1 < extra" "threshold < ut_read t + ut_input t"
  defines "out_read \<equiv> max 0 (ut_read t - threshold)"
  defines "out_input \<equiv> ut_read t + ut_input t - threshold - out_read"
  shows "\<exists>d. calculate_cost_with_long_context sv now model t rate threshold extra = Inr d \<and>
    cb_total d = cb_total c \<and>
    cb_actual d = cb_actual c + (extra - 1) * max 0 rate *
      (of_int out_input * pb_price (mp_input p) + of_int out_read * pb_price (mp_read p))"
proof -
  let ?t = "\<lambda>a b. t\<lparr>ut_input := a, ut_read := b, ut_image_input := 0, ut_image_read := 0\<rparr>"
  let ?z = "\<lambda>a b. zero_tokens\<lparr>ut_input := a, ut_read := b\<rparr>"
  have pr: "buckets_priced p t []" and c: "c = price_usage p t (max 0 rate) (tier_prices p t [])"
    using plain by (auto simp: calculate_cost_plain [OF card] split: if_splits)
  define in_read where "in_read = ut_read t - out_read"
  define in_input where "in_input = ut_input t - out_input"
  have split: "(if ut_read t \<ge> threshold then (threshold, 0, ut_read t - threshold, ut_input t)
      else (ut_read t, threshold - ut_read t, 0, ut_input t - (threshold - ut_read t))) =
      (in_read, in_input, out_read, out_input)"
    using above by (simp add: in_read_def in_input_def out_input_def out_read_def)
  have sign: "0 \<le> in_input" "in_input > 0 \<longrightarrow> ut_input t > 0" "in_read > 0 \<longrightarrow> ut_read t > 0"
    "0 \<le> out_input" "out_input > 0 \<longrightarrow> ut_input t > 0" "out_read > 0 \<longrightarrow> ut_read t > 0"
    using above t(1) by (auto simp: in_read_def in_input_def out_input_def out_read_def tokens_nonneg_def)
  have a: "calculate_cost sv now model (?t in_input in_read) rate =
      Inr (price_usage p (?t in_input in_read) (max 0 rate) (tier_prices p (?t in_input in_read) []))"
    using prefix_priced(1) [OF pr t(1,2) sign(2,3,1)] by (simp add: calculate_cost_plain [OF card])
  have b: "calculate_cost sv now model (?z out_input out_read) (rate * extra) =
      Inr (price_usage p (?z out_input out_read) (max 0 (rate * extra)) (tier_prices p (?z out_input out_read) []))"
    using prefix_priced(2) [OF pr t(1,2) sign(5,6,4)] by (simp add: calculate_cost_plain [OF card])
  have k: "max 0 (rate * extra) = max 0 rate * extra"
    using above(2) by (auto simp: max_def mult_le_0_iff zero_le_mult_iff)
  let ?A = "price_usage p (?t in_input in_read) (max 0 rate) (tier_prices p (?t in_input in_read) [])"
  let ?B = "price_usage p (?z out_input out_read) (max 0 (rate * extra)) (tier_prices p (?z out_input out_read) [])"
  have "\<not> (threshold \<le> 0 \<or> extra \<le> 1 \<or> ut_read t + ut_input t \<le> threshold)" using above by simp
  then have eq: "calculate_cost_with_long_context sv now model t rate threshold extra =
      Inr \<lparr>cb_input = cb_input ?A + cb_input ?B, cb_image_input = cb_image_input ?A + cb_image_input ?B,
           cb_output = cb_output ?A, cb_image_output = cb_image_output ?A, cb_write = cb_write ?A,
           cb_read = cb_read ?A + cb_read ?B, cb_total = cb_total ?A + cb_total ?B,
           cb_actual = cb_actual ?A + cb_actual ?B, cb_mode = [], cb_long = (cb_actual ?B > 0)\<rparr>"
    unfolding calculate_cost_with_long_context_def split by (simp only: if_False Let_def prod.case a b and_then_simps sum.case)
  have total: "cb_total ?A = cb_total c -
      (of_int out_input * pb_price (mp_input p) + of_int out_read * pb_price (mp_read p))"
    "cb_total ?B = of_int out_input * pb_price (mp_input p) + of_int out_read * pb_price (mp_read p)"
    by (simp_all add: c total_in_range [OF t(2,3)] total_out_range in_input_def in_read_def)
  have "cb_actual ?A + cb_actual ?B = cb_actual c + (extra - 1) * max 0 rate *
      (of_int out_input * pb_price (mp_input p) + of_int out_read * pb_price (mp_read p))"
    unfolding usage_actual [of p "?t in_input in_read"] usage_actual [of p "?z out_input out_read"] total k
    by (simp add: c usage_actual total_out_range algebra_simps)
  then show ?thesis unfolding eq using total by simp
qed

end
