(* ===== verification/Tier_Laws.thy ===== *)
theory Tier_Laws
  imports Pricing_Laws
begin

text \<open>
  Service tiers that have no prices of their own (\<open>configuredServiceTierMultiplier\<close> and
  \<open>computeTokenBreakdown\<close> of \<open>internal/service/billing_service.go\<close>): the whole cost is a multiple of the standard
  tier. Two consequences for single models depart from the comments of the code.
\<close>

section \<open>Tiers without prices of their own\<close>

text \<open>
  A tier that has no prices of its own costs a multiple of the standard tier: every part of the
  breakdown is multiplied.
\<close>

lemma price_usage_tier:
  "price_usage p t rate (u\<lparr>up_tier := k\<rparr>) = apply_cost_breakdown_multiplier (price_usage p t rate (u\<lparr>up_tier := 1\<rparr>)) k"
  by (auto simp: price_usage_def apply_cost_breakdown_multiplier_def Let_def algebra_simps)

declare no_tier [simp]

lemma tier_prices_plain:
  assumes "\<not> use_priority_service_tier_pricing tier p"
  shows "tier_prices p t tier = (tier_prices p t [])\<lparr>up_tier := configured_service_tier_multiplier tier p\<rparr>"
    "(tier_prices p t [])\<lparr>up_tier := 1\<rparr> = tier_prices p t []"
  using assms by (simp_all add: tier_prices_def Let_def)

lemma long_prices_plain:
  assumes "\<not> use_priority_service_tier_pricing tier p"
  shows "long_prices p tier (u\<lparr>up_tier := k\<rparr>) = (long_prices p [] u)\<lparr>up_tier := k\<rparr>"
  using assms by (simp add: long_prices_def Let_def)

lemma tier_scales:
  assumes "\<not> use_priority_service_tier_pricing tier p" "0 < configured_service_tier_multiplier tier p"
  shows "compute_token_breakdown p t rate tier long =
    apply_cost_breakdown_multiplier (compute_token_breakdown p t rate [] long) (configured_service_tier_multiplier tier p)"
proof -
  define k where "k = configured_service_tier_multiplier tier p"
  define u where "u = tier_prices p t []"
  have k: "0 < k" using assms(2) by (simp add: k_def)
  have u1: "u\<lparr>up_tier := 1\<rparr> = u" and uk: "tier_prices p t tier = u\<lparr>up_tier := k\<rparr>"
    using tier_prices_plain [OF assms(1)] by (simp_all add: u_def k_def)
  have l1: "(long_prices p [] u)\<lparr>up_tier := 1\<rparr> = long_prices p [] u"
    using u1 by (metis long_prices_plain no_tier(1))
  have base: "price_usage p t r (tier_prices p t tier) = apply_cost_breakdown_multiplier (price_usage p t r u) k" for r
    unfolding uk price_usage_tier [of p t r k u] u1 ..
  have surcharge: "price_usage p t r (long_prices p tier (tier_prices p t tier)) =
      apply_cost_breakdown_multiplier (price_usage p t r (long_prices p [] u)) k" for r
    unfolding uk long_prices_plain [OF assms(1)] price_usage_tier [of p t r k "long_prices p [] u"] l1 ..
  have more: "cb_actual (apply_cost_breakdown_multiplier a k) < cb_actual (apply_cost_breakdown_multiplier b k) \<longleftrightarrow>
      cb_actual a < cb_actual b" for a b
    using k by (simp add: apply_cost_breakdown_multiplier_def)
  have flag: "(apply_cost_breakdown_multiplier b k)\<lparr>cb_long := f\<rparr> = apply_cost_breakdown_multiplier (b\<lparr>cb_long := f\<rparr>) k" for b f
    by (simp add: apply_cost_breakdown_multiplier_def)
  show ?thesis unfolding compute_token_breakdown_def Let_def base surcharge more flag k_def [symmetric] u_def [symmetric]
    by simp
qed

lemma tier_validates:
  assumes "\<not> use_priority_service_tier_pricing tier p"
  shows "validate_model_pricing_for_usage p t tier long = validate_model_pricing_for_usage p t [] long"
proof -
  have "bucket_configured p tier = bucket_configured p []"
    using assms by (simp add: bucket_configured_def fun_eq_iff)
  then have "buckets_priced p t tier = buckets_priced p t []" by (simp only: buckets_priced_def)
  moreover have "long_ratio_invalid p t tier = long_ratio_invalid p t []"
    using assms by (simp add: long_ratio_invalid_def)
  ultimately show ?thesis by (simp only: validate_model_pricing_for_usage_def)
qed

definition times_cost :: "rat \<Rightarrow> go_error + cost_breakdown \<Rightarrow> go_error + cost_breakdown" where
  "times_cost k r = map_sum id (\<lambda>c. apply_cost_breakdown_multiplier c k) r"

lemma cost_tier_scales:
  assumes "get_model_pricing sv now model = Inr p" "\<not> use_priority_service_tier_pricing tier p"
    "configured_service_tier_multiplier tier p = k" "0 < k"
  shows "calculate_cost_internal_with_policy sv now model t rate tier None long =
    times_cost k (calculate_cost_internal_with_policy sv now model t rate [] None long)"
  using assms tier_scales [of tier p t rate long] tier_validates [of tier p t long]
  by (simp add: calculate_cost_internal_with_policy_def times_cost_def split: option.splits)

text \<open>The catalogue has the model, and no priority price for it.\<close>

definition no_priority :: "catalog_entry \<Rightarrow> bool" where
  "no_priority e \<longleftrightarrow> list_all (\<lambda>b. pb_priority b = 0 \<and> \<not> pb_priority_configured b)
     [ce_input e, ce_output e, ce_write e, ce_write_1h e, ce_read e]"

lemma policy_fields [simp]:
  "mp_fast (enforce_open_ai_fast_pricing_ratio p r) = mp_fast p"
  "mp_presence_known (enforce_open_ai_fast_pricing_ratio p r) = mp_presence_known p"
  by (simp_all add: enforce_open_ai_fast_pricing_ratio_def)

lemma fast_bucket_flag [simp]: "pb_priority_configured (fast_bucket r a b) = pb_priority_configured b"
  by (simp add: fast_bucket_def scale_priority_def)

lemma open_ai_rules_no_priority:
  assumes "mp_presence_known p" "\<not> list_ex pb_priority_configured (token_buckets p)" "mp_fast p = None"
  shows "\<not> use_priority_service_tier_pricing tier (open_ai_rules premium astra gpt6 opus r p)"
  using assms by (auto simp: use_priority_service_tier_pricing_def open_ai_rules_def Let_def token_buckets_def
      enforce_open_ai_fast_pricing_ratio_def write_premium_def)

lemma gpt55: "to_lower ''gpt-5.5'' = ''gpt-5.5''" "\<not> is_deep_seek_model ''gpt-5.5''"
  "normalize_known_open_ai_codex_model ''gpt-5.5'' = ''gpt-5.5''" "\<not> is_opus55 ''gpt-5.5''"
  "open_ai_model_fast_pricing_ratio ''gpt-5.5'' = 5 / 2"
  by code_simp+

lemma five_halves: "(5 / 2 :: rat) \<le> 0 \<longleftrightarrow> False"
  by simp

lemma fast_words: "normalize_billing_service_tier ''fast'' = ''fast''" "normalize_billing_service_tier ''ultrafast'' = ''ultrafast''"
  by code_simp+

text \<open>
  Claim C38. The fast tier of GPT-5.5 is meant to cost 2.5 times the standard price, and the policy writes
  that price into the card. When the catalogue has no priority price for the model, the written prices are
  not marked as configured, and whatever the catalogue's prices and the usage are, the fast tier costs
  exactly twice the standard tier in every part, and is refused exactly when the standard tier is.
\<close>

theorem fast_ratio_lost:
  assumes "sv_catalog sv ''gpt-5.5'' = Some e" "\<not> ce_token_absent e" "no_priority e"
  shows "calculate_cost_internal_with_policy sv now ''gpt-5.5'' t rate ''fast'' None long =
      times_cost 2 (calculate_cost_internal_with_policy sv now ''gpt-5.5'' t rate [] None long) \<and>
    open_ai_model_fast_pricing_ratio (normalize_known_open_ai_codex_model ''gpt-5.5'') = 5 / 2"
proof -
  let ?n = "''gpt-5.5''"
  define p where "p = open_ai_rules (uses_cache_write_premium ?n) (is_open_ai_gpt6_astra_model ?n)
    (is_gpt6_sol_or_luna_model_spelling ?n \<or> is_gpt61_sol_model_spelling ?n) False (5 / 2) (catalog_pricing e)"
  have card: "mp_presence_known (catalog_pricing e)" "mp_fast (catalog_pricing e) = None"
    "\<not> list_ex pb_priority_configured (token_buckets (catalog_pricing e))"
    using assms(3) by (simp_all add: catalog_pricing_def no_priority_def token_buckets_def litellm_price_configured_def)
  have get: "get_model_pricing sv now ?n = Inr p"
    using assms(1,2)
    by (simp only: get_model_pricing_def get_model_pricing_at_def gpt55 Let_def option.case if_False if_True simp_thms
        apply_model_specific_pricing_policy_ex_def not_le five_halves p_def)
  have fast: "mp_fast p = None" by (simp add: p_def open_ai_rules_def Let_def card)
  have "configured_service_tier_multiplier ''fast'' p = 2"
    by (simp add: configured_service_tier_multiplier_def service_tier_cost_multiplier_def fast fast_words Let_def)
  moreover have "\<not> use_priority_service_tier_pricing ''fast'' p"
    unfolding p_def by (rule open_ai_rules_no_priority) (simp_all add: card)
  ultimately have "calculate_cost_internal_with_policy sv now ?n t rate ''fast'' None long =
      times_cost 2 (calculate_cost_internal_with_policy sv now ?n t rate [] None long)"
    by (intro cost_tier_scales [OF get]) simp_all
  then show ?thesis using gpt55(3,5) by simp
qed

text \<open>
  Claim C39. The ultrafast tier, for every catalogue, time, usage and rate. A model whose normal form is that of
  GPT-6 Astra costs six times the standard tier in every part; a model with no normal form costs twice the
  standard tier. A dated name of GPT-6 Astra is of the second kind.
\<close>

theorem ultrafast_multiplier:
  assumes "sv_catalog sv (to_lower model) = Some e" "\<not> ce_token_absent e"
    and "\<not> is_deep_seek_model (to_lower model)" "\<not> is_opus55 (to_lower model)"
    and n: "n = normalize_known_open_ai_codex_model (to_lower model)" "n = ''gpt-6-astra'' \<or> n = []"
  shows "calculate_cost_internal_with_policy sv now model t rate ''ultrafast'' None long =
    times_cost (if n = [] then 2 else 6) (calculate_cost_internal_with_policy sv now model t rate [] None long)"
proof -
  define p where "p = apply_model_specific_pricing_policy_ex now (to_lower model) (catalog_pricing e) True now"
  have get: "get_model_pricing sv now model = Inr p"
    using assms(1,2) by (simp add: get_model_pricing_def get_model_pricing_at_def p_def Let_def)
  have none: "\<not> uses_cache_write_premium []" "open_ai_model_fast_pricing_ratio [] = 0"
    and astra: "open_ai_model_fast_pricing_ratio ''gpt-6-astra'' = 2" "is_open_ai_gpt6_astra_model ''gpt-6-astra''"
    by code_simp+
  have "mp_ultrafast p = (if n = [] then 0 else 6)"
    using n(2) assms(3,4) none astra unfolding p_def apply_model_specific_pricing_policy_ex_def Let_def n(1) [symmetric]
    by (auto simp: needs_cache_creation_policy_def open_ai_rules_def Let_def enforce_open_ai_fast_pricing_ratio_def
        catalog_pricing_def)
  then have "configured_service_tier_multiplier ''ultrafast'' p = (if n = [] then 2 else 6)"
    by (simp add: configured_service_tier_multiplier_def service_tier_cost_multiplier_def fast_words Let_def)
  moreover have "\<not> use_priority_service_tier_pricing ''ultrafast'' p"
    by (simp add: use_priority_service_tier_pricing_def fast_words)
  ultimately show ?thesis by (intro cost_tier_scales [OF get]) simp_all
qed

end
