(* ===== verification/Pricing_Examples.thy ===== *)
theory Pricing_Examples
  imports Tier_Laws
begin

text \<open>Usages that are charged otherwise than the comments of the code say, and instances of the properties.\<close>

section \<open>Catalogues\<close>

definition listed :: "rat \<Rightarrow> price_bucket" where
  "listed v = no_price\<lparr>pb_price := v, pb_configured := True\<rparr>"

definition listed_fast :: "rat \<Rightarrow> rat \<Rightarrow> price_bucket" where
  "listed_fast v f = \<lparr>pb_price = v, pb_priority = f, pb_configured = True, pb_priority_configured = True\<rparr>"

definition entry :: "price_bucket \<Rightarrow> price_bucket \<Rightarrow> price_bucket \<Rightarrow> catalog_entry" where
  "entry i out r = \<lparr>ce_token_absent = False, ce_provider = ''openai'', ce_input = i, ce_output = out,
     ce_write = no_price, ce_write_1h = no_price, ce_read = r, ce_image_input = 0,
     ce_image_input_configured = False, ce_image_read = 0, ce_image_output = 0, ce_image_output_configured = False,
     ce_long_threshold = 0, ce_long_input = 0, ce_long_output = 0, ce_above_5m = no_above,
     ce_above_1h = no_above, ce_above_read = no_above\<rparr>"

definition catalog_of :: "catalog_entry \<Rightarrow> price_service" where
  "catalog_of e = \<lparr>sv_catalog = (\<lambda>m. Some e), sv_fallback = (\<lambda>m. None), sv_channel = (\<lambda>g m. None), sv_zones = (\<lambda>z. None)\<rparr>"

definition charge :: "catalog_entry \<Rightarrow> string \<Rightarrow> string \<Rightarrow> usage_tokens \<Rightarrow> rat option" where
  "charge e model tier t =
     (case calculate_cost_internal_with_policy (catalog_of e) 1 model t 1 tier None True of
        Inl err \<Rightarrow> None | Inr c \<Rightarrow> Some (cb_total c))"

abbreviation input_of :: "int \<Rightarrow> usage_tokens" where "input_of n \<equiv> zero_tokens\<lparr>ut_input := n\<rparr>"
abbreviation reads_of :: "int \<Rightarrow> usage_tokens" where "reads_of n \<equiv> zero_tokens\<lparr>ut_read := n\<rparr>"

definition plain_entry :: catalog_entry where
  "plain_entry = entry (listed (5 / 10 ^ 6)) (listed (30 / 10 ^ 6)) (listed (5 / 10 ^ 7))"

definition half_fast_entry :: catalog_entry where
  "half_fast_entry = entry (listed_fast (5 / 10 ^ 6) (10 / 10 ^ 6)) (listed_fast (30 / 10 ^ 6) (60 / 10 ^ 6)) (listed (5 / 10 ^ 7))"

section \<open>Findings\<close>

text \<open>
  Cache reads in the fast tier of GPT-5.5 cost no more than without it when the catalogue has priority prices
  for input and output only, although the fast tier is priced at 2.5 times the standard price.
\<close>

theorem fast_reads_standard:
  "charge half_fast_entry ''gpt-5.5'' [] (input_of 1000000) = Some 5 \<and>
   charge half_fast_entry ''gpt-5.5'' ''fast'' (input_of 1000000) = Some (25 / 2) \<and>
   charge half_fast_entry ''gpt-5.5'' ''fast'' (reads_of 1000000) = charge half_fast_entry ''gpt-5.5'' [] (reads_of 1000000)"
  by code_simp

text \<open>Image tokens without a price of their own are refused; they are not charged at the price of text.\<close>

theorem image_usage_refused:
  assumes "mp_presence_known p" "\<not> mp_image_input_explicit p" "0 < min (ut_input t) (ut_image_input t)"
  shows "\<exists>e. validate_model_pricing_for_usage p t tier long = Some e"
  using assms by (auto simp: validate_model_pricing_for_usage_def buckets_priced_def image_configured_def Let_def)

section \<open>Witnesses\<close>

theorem fast_ratio_lost_witness:
  "calculate_cost_internal_with_policy (catalog_of plain_entry) 1 ''gpt-5.5'' (input_of 1000000) 1 ''fast'' None True =
     times_cost 2 (calculate_cost_internal_with_policy (catalog_of plain_entry) 1 ''gpt-5.5'' (input_of 1000000) 1 [] None True) \<and>
   charge plain_entry ''gpt-5.5'' [] (input_of 1000000) = Some 5 \<and>
   charge plain_entry ''gpt-5.5'' ''fast'' (input_of 1000000) = Some 10"
proof -
  have "charge plain_entry ''gpt-5.5'' [] (input_of 1000000) = Some 5"
    "charge plain_entry ''gpt-5.5'' ''fast'' (input_of 1000000) = Some 10" "no_priority plain_entry"
    "\<not> ce_token_absent plain_entry" by code_simp+
  then show ?thesis using fast_ratio_lost [of "catalog_of plain_entry" plain_entry 1 "input_of 1000000" 1 True]
    by (simp add: catalog_of_def)
qed

lemma astra_names:
  "to_lower ''gpt-6-astra-2026-09-01'' = ''gpt-6-astra-2026-09-01''" "to_lower ''gpt-6-astra'' = ''gpt-6-astra''"
  "normalize_known_open_ai_codex_model ''gpt-6-astra-2026-09-01'' = []"
  "normalize_known_open_ai_codex_model ''gpt-6-astra'' = ''gpt-6-astra''"
  "is_open_ai_gpt6_astra_model ''gpt-6-astra-2026-09-01''"
  "\<not> is_deep_seek_model ''gpt-6-astra-2026-09-01''" "\<not> is_deep_seek_model ''gpt-6-astra''"
  "\<not> is_opus55 ''gpt-6-astra-2026-09-01''" "\<not> is_opus55 ''gpt-6-astra''"
  by code_simp+

theorem ultrafast_multiplier_witness:
  "is_open_ai_gpt6_astra_model ''gpt-6-astra-2026-09-01'' \<and>
   calculate_cost_internal_with_policy (catalog_of plain_entry) 1 ''gpt-6-astra-2026-09-01'' (input_of 1000000) 1 ''ultrafast'' None True =
     times_cost 2 (calculate_cost_internal_with_policy (catalog_of plain_entry) 1 ''gpt-6-astra-2026-09-01'' (input_of 1000000) 1 [] None True) \<and>
   calculate_cost_internal_with_policy (catalog_of plain_entry) 1 ''gpt-6-astra'' (input_of 1000000) 1 ''ultrafast'' None True =
     times_cost 6 (calculate_cost_internal_with_policy (catalog_of plain_entry) 1 ''gpt-6-astra'' (input_of 1000000) 1 [] None True)"
proof -
  have e: "\<not> ce_token_absent plain_entry" "sv_catalog (catalog_of plain_entry) m = Some plain_entry" for m
    by (simp_all add: plain_entry_def entry_def catalog_of_def)
  show ?thesis
    using ultrafast_multiplier [of "catalog_of plain_entry" "''gpt-6-astra-2026-09-01''" plain_entry "[]" 1 "input_of 1000000" 1 True]
      ultrafast_multiplier [of "catalog_of plain_entry" "''gpt-6-astra''" plain_entry "''gpt-6-astra''" 1 "input_of 1000000" 1 True]
    by (simp only: astra_names e simp_thms if_True if_False list.distinct not_False_eq_True refl)
qed

theorem cache_split_bounds_witness:
  "normalize_cache_creation_breakdown (zero_tokens\<lparr>ut_write := 10, ut_write_5m := 30, ut_write_1h := 10\<rparr>) = (8, 2) \<and>
   \<bar>8 - 10 * 30 / (40 :: rat)\<bar> \<le> 1 / 2"
proof -
  have n: "normalize_cache_creation_breakdown (zero_tokens\<lparr>ut_write := 10, ut_write_5m := 30, ut_write_1h := 10\<rparr>) = (8, 2)"
    by code_simp
  from cache_split_bounds [OF n] n show ?thesis by (simp add: zero_tokens_def)
qed

definition fast_demo :: model_pricing where
  "fast_demo = zero_pricing\<lparr>mp_input := listed_fast 1 2, mp_output := listed_fast 2 4, mp_write := listed_fast 1 2,
     mp_write_5m := listed_fast 1 2, mp_write_1h := listed_fast 3 6, mp_read := listed_fast (1 / 2) 1,
     mp_presence_known := True\<rparr>"

definition demo_usage :: usage_tokens where
  "demo_usage = zero_tokens\<lparr>ut_input := 3, ut_output := 4, ut_read := 2, ut_write := 5, ut_write_5m := 5\<rparr>"

theorem usage_never_free_witness:
  "parts_priced demo_usage (compute_token_breakdown fast_demo demo_usage 1 ''fast'' True)"
proof -
  have "validate_model_pricing_for_usage fast_demo demo_usage ''fast'' True = None" "card_positive fast_demo"
    "tokens_nonneg demo_usage" by code_simp+
  then show ?thesis using usage_never_free by blast
qed

theorem fast_cost_scales_witness:
  "cb_total (compute_token_breakdown fast_demo demo_usage 1 ''fast'' True) =
     2 * cb_total (compute_token_breakdown fast_demo demo_usage 1 [] True)"
proof -
  have "fast_card 2 fast_demo" "use_priority_service_tier_pricing ''fast'' fast_demo" "text_only demo_usage"
    by code_simp+
  then show ?thesis using fast_cost_scales by blast
qed

theorem policy_idempotent_witness:
  "apply_model_specific_pricing_policy_ex 1 ''gpt-5.6-sol'' (catalog_pricing plain_entry) True 1 \<noteq> catalog_pricing plain_entry \<and>
   apply_model_specific_pricing_policy_ex 1 ''gpt-5.6-sol''
     (apply_model_specific_pricing_policy_ex 1 ''gpt-5.6-sol'' (catalog_pricing plain_entry) True 1) True 1 =
   apply_model_specific_pricing_policy_ex 1 ''gpt-5.6-sol'' (catalog_pricing plain_entry) True 1"
proof -
  have "policy_nonneg (catalog_pricing plain_entry)"
    "pb_price (mp_write (apply_model_specific_pricing_policy_ex 1 ''gpt-5.6-sol'' (catalog_pricing plain_entry) True 1)) \<noteq>
       pb_price (mp_write (catalog_pricing plain_entry))" by code_simp+
  then show ?thesis using policy_idempotent by metis
qed

theorem long_context_split_witness:
  "\<exists>d. calculate_cost_with_long_context (catalog_of plain_entry) 1 ''m'' (zero_tokens\<lparr>ut_input := 300, ut_read := 100\<rparr>) 1 200 2 = Inr d \<and>
     cb_total d = 31 / 20000 \<and> cb_actual d = 51 / 20000"
proof -
  let ?t = "zero_tokens\<lparr>ut_input := 300, ut_read := 100\<rparr>"
  have facts: "get_model_pricing (catalog_of plain_entry) 1 ''m'' = Inr (catalog_pricing plain_entry)"
    "mp_long_threshold (catalog_pricing plain_entry) \<le> 0" "tokens_nonneg ?t" "ut_image_input ?t = 0" "ut_image_read ?t = 0"
    "ut_input ?t = 300" "ut_read ?t = 100"
    "pb_price (mp_input (catalog_pricing plain_entry)) = 1 / 200000"
    "pb_price (mp_read (catalog_pricing plain_entry)) = 1 / 2000000"
    by code_simp+
  obtain c where c: "calculate_cost (catalog_of plain_entry) 1 ''m'' ?t 1 = Inr c" "cb_total c = 31 / 20000" "cb_actual c = 31 / 20000"
  proof
    show "calculate_cost (catalog_of plain_entry) 1 ''m'' ?t 1 =
        Inr (zero_cost\<lparr>cb_input := 3 / 2000, cb_read := 1 / 20000, cb_total := 31 / 20000, cb_actual := 31 / 20000\<rparr>)"
      by code_simp
  qed (simp_all add: zero_cost_def)
  from long_context_split [OF facts(1,2) c(1) facts(3,4,5), of 200 2] show ?thesis
    unfolding facts(6-9) c(2,3) by simp
qed

definition office_hours :: channel_time_pricing where
  "office_hours = \<lparr>ct_timezone = ''UTC'', ct_weekdays_only = True,
     ct_periods = [\<lparr>tp_start = ''18:00'', tp_end = ''00:00'', tp_multiplier = 1 / 2\<rparr>,
                   \<lparr>tp_start = ''09:00'', tp_end = ''17:30:00'', tp_multiplier = 3 / 2\<rparr>]\<rparr>"

theorem time_multiplier_spec_witness:
  "multiplier_at [''UTC'' \<mapsto> (\<lambda>t. 0)] (Some office_hours) (10 * hour) = 3 / 2 \<and>
   multiplier_at [''UTC'' \<mapsto> (\<lambda>t. 0)] (Some (office_hours\<lparr>ct_periods := rev (ct_periods office_hours)\<rparr>)) (10 * hour) = 3 / 2"
proof -
  let ?x = "\<lparr>pp_start = 32400, pp_end = 63000, pp_multiplier = 3 / 2\<rparr>"
  let ?Z = "[''UTC'' \<mapsto> (\<lambda>t. 0)] :: zone_db"
  have p: "parse_each (ct_periods office_hours) = Inr [\<lparr>pp_start = 64800, pp_end = 86400, pp_multiplier = 1 / 2\<rparr>, ?x]"
    by code_simp
  have z: "load_channel_time_pricing_location ?Z (ct_timezone office_hours) = Inr (\<lambda>t. 0)"
  proof -
    have "trim_space ''UTC'' \<noteq> []" by code_simp
    then show ?thesis by (simp add: load_channel_time_pricing_location_def office_hours_def)
  qed
  have "parse_channel_time_periods (ct_periods office_hours) =
      Inr [?x, \<lparr>pp_start = 64800, pp_end = 86400, pp_multiplier = 1 / 2\<rparr>]" by code_simp
  then have v: "validate_channel_time_pricing ?Z (Some office_hours) = None"
    by (simp add: validate_channel_time_pricing_def z)
  have t: "\<not> is_weekend (10 * hour)" "second_of_day (10 * hour) = 36000" by code_simp+
  show ?thesis
    using time_multiplier_spec [OF p z v, of "10 * hour"] t by simp
qed

end
