(* ===== verification/Model_Names_Laws.thy ===== *)
theory Model_Names_Laws
  imports Model_Names
begin

text \<open>
  The results of \<open>normalizeKnownOpenAICodexModel\<close>: the values of the table \<open>codexModelMap\<close>, the results of its
  checks of parts of a name, and the empty name for an unknown model. Each is its own normal form.
\<close>

section \<open>Names\<close>

definition normal_forms :: "string list" where
  "normal_forms = [[], ''gpt-6.1-sol'', ''gpt-6-sol'', ''gpt-6-luna'', ''gpt-6-astra'', ''gpt-5.6-sol'', ''gpt-5.6-terra'',
     ''gpt-5.6-luna'', ''gpt-5.5'', ''gpt-5.5-pro'', ''codex-auto-review'', ''gpt-5.4'', ''gpt-5.4-mini'', ''gpt-5.4-nano'',
     ''gpt-5.3-codex'', ''gpt-5.3-codex-spark'', ''gpt-5.2'']"

lemma if_mem: "a \<in> S \<Longrightarrow> b \<in> S \<Longrightarrow> (if P then a else b) \<in> S"
  by simp

lemma table_range:
  assumes "snd ` set table \<subseteq> S" "[] \<in> S"
  shows "(case map_of table k of Some m \<Rightarrow> m | None \<Rightarrow> []) \<in> S" "part_of table k \<in> S"
proof -
  show "(case map_of table k of Some m \<Rightarrow> m | None \<Rightarrow> []) \<in> S"
    using assms by (auto split: option.split dest!: map_of_SomeD)
  have "m \<in> S" if "find P table = Some (x, m)" for P x m
  proof -
    have "(x, m) \<in> set table" using that by (metis find_Some_iff nth_mem)
    then show ?thesis using assms(1) by (metis image_subset_iff snd_conv)
  qed
  then show "part_of table k \<in> S" using assms(2) by (simp add: part_of_def split: option.split prod.split)
qed

lemma nil_normal_form: "[] \<in> set normal_forms"
  by (simp add: normal_forms_def)

lemma codex_map_range: "get_normalized_codex_model n \<in> set normal_forms"
  unfolding get_normalized_codex_model_def Let_def
  by (intro if_mem nil_normal_form table_range(1)) (simp add: codex_model_map_def normal_forms_def)

lemma part_range: "part_of codex_name_parts n \<in> set normal_forms"
  by (intro table_range(2) nil_normal_form) (simp add: codex_name_parts_def normal_forms_def)

lemma normalized_range: "normalize_known_open_ai_codex_model m \<in> set normal_forms"
  unfolding normalize_known_open_ai_codex_model_def Let_def
  by (intro if_mem codex_map_range part_range) (simp_all add: normal_forms_def)

lemma normalized_fixed:
  "normalize_known_open_ai_codex_model [] = []"
  "normalize_known_open_ai_codex_model ''gpt-6.1-sol'' = ''gpt-6.1-sol''"
  "normalize_known_open_ai_codex_model ''gpt-6-sol'' = ''gpt-6-sol''"
  "normalize_known_open_ai_codex_model ''gpt-6-luna'' = ''gpt-6-luna''"
  "normalize_known_open_ai_codex_model ''gpt-6-astra'' = ''gpt-6-astra''"
  "normalize_known_open_ai_codex_model ''gpt-5.6-sol'' = ''gpt-5.6-sol''"
  by code_simp+

lemma normalized_fixed_5:
  "normalize_known_open_ai_codex_model ''gpt-5.6-terra'' = ''gpt-5.6-terra''"
  "normalize_known_open_ai_codex_model ''gpt-5.6-luna'' = ''gpt-5.6-luna''"
  "normalize_known_open_ai_codex_model ''gpt-5.5'' = ''gpt-5.5''"
  "normalize_known_open_ai_codex_model ''gpt-5.5-pro'' = ''gpt-5.5-pro''"
  "normalize_known_open_ai_codex_model ''codex-auto-review'' = ''codex-auto-review''"
  "normalize_known_open_ai_codex_model ''gpt-5.4'' = ''gpt-5.4''"
  by code_simp+

lemma normalized_fixed_codex:
  "normalize_known_open_ai_codex_model ''gpt-5.4-mini'' = ''gpt-5.4-mini''"
  "normalize_known_open_ai_codex_model ''gpt-5.4-nano'' = ''gpt-5.4-nano''"
  "normalize_known_open_ai_codex_model ''gpt-5.3-codex'' = ''gpt-5.3-codex''"
  "normalize_known_open_ai_codex_model ''gpt-5.3-codex-spark'' = ''gpt-5.3-codex-spark''"
  "normalize_known_open_ai_codex_model ''gpt-5.2'' = ''gpt-5.2''"
  by code_simp+

text \<open>
  Every name is brought to one of the normal forms, and normalising it again changes nothing.
\<close>

theorem normalized_model_stable:
  "normalize_known_open_ai_codex_model m \<in> set normal_forms \<and>
   normalize_known_open_ai_codex_model (normalize_known_open_ai_codex_model m) = normalize_known_open_ai_codex_model m"
proof -
  have "normalize_known_open_ai_codex_model n = n" if "n \<in> set normal_forms" for n
    using that normalized_fixed normalized_fixed_5 normalized_fixed_codex by (auto simp: normal_forms_def)
  then show ?thesis using normalized_range by blast
qed

end
