(* ===== verification/Spec2Isabelle.thy ===== *)
theory Spec2Isabelle
  imports System_Lock Stream_Circuit Abuse_Limiter Capture_Server Payment_Examples Wallet_Examples
    Concurrency_Examples Inflight_Reservation Refund_Examples Payment_Balancer Pricing_Examples Model_Names_Laws
begin

text \<open>
  The backend of the gateway (\<open>src/backend\<close>): HTTP handlers check an API key, choose an upstream
  account, forward the request, and bill its usage. This development models the parts of it that
  hold money, leases and protocol state, and proves what they promise. Definitions carry the names
  of the Go functions in lower case with underscores; errors are values of a sum, a Go \<open>nil\<close> error
  is \<open>None\<close> or \<open>Inr\<close>.

  \<^bold>\<open>The parts and how they interact\<close>

  \<^item> Idempotency (\<open>internal/service/idempotency.go\<close>, \<open>internal/repository/idempotency_repo.go\<close>): a
    coordinator runs the callback of a write request at most once per scope and key, with a leased
    row of a table. The lock of administrative operations (\<open>system_operation_lock_service.go\<close>) is
    one row of the same table. Theories \<open>Idempotency_Store\<close> (the statements of the repository),
    \<open>Idempotency\<close> (\<open>idem_execute\<close> and its helpers), \<open>Idempotency_Laws\<close> (properties), \<open>System_Lock\<close>.
    Each call of the repository happens in an environment that gives the statements of other
    processes since the last call, its fault and the database clock.
  \<^item> Failure gates: the circuit breaker for proxies (\<open>openai_proxy_stream_circuit.go\<close>, \<open>Stream_Circuit\<close>)
    and the limiter of invalid authentication (\<open>invalid_auth_abuse_limiter.go\<close>, \<open>Abuse_Limiter\<close>); both
    interpret the locale \<open>failure_gate\<close> of \<open>Failure_Gate\<close>.
  \<^item> Capture (\<open>internal/capture/protocol\<close>): frames (\<open>Capture_Frame\<close>), the gateway's attempts
    (\<open>Capture_Client\<close>) and the sessions of the sidecar (\<open>Capture_Server\<close>), connected end to end.
  \<^item> Payments (\<open>internal/payment\<close>, \<open>internal/service/payment_*.go\<close>, \<open>redeem_*.go\<close>): an order is created,
    a provider notifies that it is paid, a lease is taken and the order is fulfilled by redeeming a
    code or extending a subscription. \<open>Payment_Types\<close> (amounts, snapshots, checks), \<open>Payment_Store\<close>
    (the tables and their statements), \<open>Payment_Fulfillment\<close> and \<open>Payment_Lifecycle\<close> (the operations as
    programs over calls), \<open>Payment_Invariant\<close>, \<open>Payment_Safety\<close>, \<open>Payment_Laws\<close>, \<open>Payment_Liveness\<close>,
    \<open>Payment_Examples\<close>. The transaction of the affiliate rebate settles the first recharge of an invited user
    (\<open>affiliate_repo.go\<close>, \<open>grantRewardCreditTx\<close>) and adds its rewards to the balances. The programs of all requests form a pool whose calls a schedule interleaves
    (\<open>Interleaving\<close>); a program the schedule no longer picks has crashed.
  \<^item> The wallet: \<open>Reward_Credits\<close> (\<open>reward_credit_repo.go\<close>: grants, expiry, summary), \<open>Usage_Billing\<close>
    (\<open>usage_billing.go\<close>, \<open>usage_billing_repo.go\<close>: claims, layers, quotas, and the archive of claims of
    \<open>dashboard_aggregation_repo.go\<close>), \<open>Batch_Hold\<close> (holds of image batches, \<open>batch_image_billing_hold.go\<close>),
    \<open>Reward_Expiry\<close> (\<open>reward_credit_expiry.go\<close>). One record \<open>wallet\<close> has the tables they share. \<open>Money\<close> has
    decimals and their rounding, \<open>Wallet_Ledger\<close> the invariant of the credits, \<open>Wallet_Moves\<close> and
    \<open>Wallet_Laws\<close> the effect of every operation on the layers of a user, \<open>Wallet_Books\<close> the claims,
    \<open>Wallet_Safety\<close> runs of operations and the properties, \<open>Wallet_Examples\<close> concrete wallets.
  \<^item> Concurrency slots (\<open>internal/repository/concurrency_cache.go\<close>, \<open>internal/service/concurrency_service.go\<close>):
    requests hold slots of accounts, users and API keys in sorted sets of Redis, wait in counted
    queues, and keep leases for live sessions and WebSockets. \<open>Redis\<close> has the commands,
    \<open>Concurrency_Cache\<close> the Lua scripts as atomic functions, \<open>Concurrency_Methods\<close> and
    \<open>Concurrency_Service\<close> the Go methods as programs of calls, which may fail before or after their
    effect. \<open>Concurrency_Laws\<close>, \<open>Concurrency_Safety\<close>, \<open>Concurrency_Waits\<close> and \<open>Concurrency_Examples\<close> have
    the lemmas and properties over the pool of \<open>Interleaving\<close>.
  \<^item> In-flight reservations: \<open>Inflight_Cache\<close> (\<open>billing_inflight_cache.go\<close>: the amounts of a user's running
    requests in Redis), \<open>Inflight_Laws\<close>, and \<open>Inflight_Reservation\<close> (\<open>billing_inflight_reservation.go\<close>:
    admission, and the counted references of the handler and the billing tasks as a step relation).
  \<^item> Refunds (\<open>internal/service/payment_refund.go\<close>, \<open>payment_amounts.go\<close>): a request prepares a plan, claims the
    order, takes the deduction, asks the gateway and finishes, restores or leaves the refund pending; a
    query later finalizes it. \<open>Refund_Store\<close> has the statements, \<open>Refund\<close> the operations as programs over
    calls, \<open>Refund_Safety\<close> and \<open>Refund_Money\<close> the two invariants of the pool, \<open>Refund_Deductions\<close> and
    \<open>Refund_Outcome\<close> the properties, \<open>Refund_Examples\<close> concrete runs. \<open>Phases\<close> adds to \<open>Interleaving\<close> the phase
    that each program of a pool is in.
  \<^item> Payment instances (\<open>internal/payment/load_balancer.go\<close>): \<open>Payment_Balancer\<close> chooses the instance of a
    provider that takes an order, by limits, daily use and strategy.
  \<^item> Prices (\<open>internal/service/billing_service.go\<close>, \<open>model_pricing_resolver.go\<close>): \<open>Cost\<close> prices a usage with a card
    (tiers, long contexts, cache writes) and checks the card; \<open>Model_Names\<close> (\<open>openai_model_alias.go\<close> and the
    tables it reads) brings model names to their normal form; \<open>Time_Pricing\<close>
    (\<open>custom_channel_time_pricing.go\<close>, \<open>group.go\<close>) has the multipliers by time; \<open>Pricing\<close> the catalogue, the rules for
    single models and the cards of channels; \<open>Request_Cost\<close> the resolver, its intervals and the cost of a
    request, which the wallet bills. \<open>Cost_Laws\<close>, \<open>Model_Names_Laws\<close>, \<open>Pricing_Laws\<close>, \<open>Tier_Laws\<close> and \<open>Pricing_Examples\<close>
    have the properties.
  \<^item> \<open>Prelude\<close> (time, strings, maps, results) and \<open>App_Errors\<close> (\<open>internal/pkg/errors\<close>) are shared.

  \<^bold>\<open>What the lemmas show\<close>

  \<^item> Idempotency: exclusive leases, replay, conflict, back-off, bodies that are cut at a valid
    character, and when the system lock is exclusive and renewed; two ways in which stored state
    makes a later call fail.
  \<^item> Gates: no key is blocked below its threshold, a key at its threshold is blocked until exactly
    the end of the block, tables stay bounded, and sharding refines one map.
  \<^item> Capture: headers and frames round trip, a reported success is a complete frame, the sink
    receives what the gateway wrote, and calls on a sink keep their order for any input.
  \<^item> Payments: for every schedule, fault and crash an order is credited at most once and only after
    an acceptable payment, balances are exactly the redemptions and affiliate rewards that committed, and
    one undisturbed retry completes a paid balance order; one run in which an order for a plan is extended twice.
  \<^item> Wallet: a request is settled at most once, by exactly one layer and in full; every credit is
    explained by its events and allocations after any run; a captured or released hold returns exactly
    what was neither captured nor lapsed, an account hold also when it was captured before; the expiry job
    ends; rounding is bounded; and concrete runs where the code departs from its comments.
  \<^item> Slots: under every schedule of any number of instances the slots in use and the requests that
    hold one stay within the limit, wait counters within their bounds; scripts grant and refresh
    exactly under the conditions their comments state, batch reads agree with single reads; and the
    start of an instance drops exactly the slots of all others, which the limit then does not count.
  \<^item> Reservations: the amounts in flight stay within the largest balance, for any order of calls and
    any clocks; a reservation is released once, after its last user, and then it is released.
  \<^item> Refunds: under every schedule at most one request at a time is about to ask the gateway, as long as
    no query reports a failed refund; the deductions of an order stay within its amount plus the tolerance of
    its currency and are returned while it can be refunded, unless a failed rollback is recorded, when no
    balance change is lost after its commit; what an undisturbed refund
    leaves for each answer; bounds of the amount at the gateway; and five runs where the code departs
    from what it means to do.
  \<^item> Instances: a choice succeeds exactly when an instance matches, respects the limits when one can,
    takes the least used of the day in the zone of the application, or rotates.
  \<^item> Prices: a usage that the check accepts is never free by accident; the fast tier multiplies the
    cost once; a split at a threshold charges every token once; the split of cache writes is the
    nearest one; rules for single models are idempotent; multipliers by time do not depend on the
    order of their periods; the actual cost is the total times the rate on every path; a tier without
    prices of its own multiplies every part of the cost, which for two models is not what the comments say.

  \<^bold>\<open>Interfaces\<close>

  Locales state what a client relies on and are interpreted on the model's own definitions: the
  lease of a row (\<open>Idempotency_Store\<close>), \<open>failure_gate\<close> (circuit breaker, limiter), \<open>rely_guarantee\<close> (the
  payment calls, the slots as \<open>slot_rg\<close> and the wait counters as \<open>wait_rg\<close>), \<open>phased_pool\<close> (the
  requests of refunds, as \<open>excl\<close> for the claim and \<open>money\<close> for the deductions), \<open>credit_drain\<close> (paying and
  reserving from credits), \<open>at_most_once\<close> (claims of the wallet).

  \<^bold>\<open>Abstractions and bounds\<close>

  \<^item> Amounts are exact decimals (rationals) with the rounding of their columns; the binary rounding
    of \<open>float64\<close> is not modelled. Comparisons with the tolerance \<open>1e-9\<close> are written as in the code.
  \<^item> A transaction takes effect at its commit and rolls back on error. Rows that \<open>SKIP LOCKED\<close> passes
    over are a choice of the environment (\<open>we_locked\<close>). Faults of a call before or after its effect
    are explicit for idempotency and payments; a failed wallet transaction changes nothing.
  \<^item> JSON, SHA-256, number formatting, the log redactor, decimal parsing and payment providers are
    parameters or choices of the environment. \<open>EqualFold\<close> and \<open>ToUpper\<close> are modelled on ASCII letters.
  \<^item> \<open>db_ledger\<close>, \<open>db_postings\<close>, \<open>db_terms\<close>, \<open>db_rewards\<close> and \<open>rd_moves\<close> are history variables that no program reads.
  \<^item> The texts of errors and audit details of refunds are parameters (\<open>refund_service\<close>); so are the JSON of
    limits and the decryption of configurations and the offsets of the time zone (\<open>balancer_lib\<close>). Days of
    subscriptions have 24 hours; the day of a limit begins at midnight of the zone, found as \<open>time.Date\<close> does.
  \<^item> Of prices, the built-in table, the lookup in the catalogue and in the channels, and the time zones
    are parameters (\<open>price_service\<close>); numbers of tokens are integers without overflow.
  \<^item> Loops are structural or have a termination proof; the retry of an order is shown to return
    within 23 calls. The only fuel is the number of pages \<open>sweep_pages\<close> reads from a key scan, whose
    length is the choice of Redis; the theorems hold for every number.
  \<^item> A Lua script is atomic and sees one time. In the theorems on slots the clock of Redis does not go
    back and a request returns before its slot lapses; reservations have a clock per process as well.
  \<^item> Whether a subscription is eligible and what a request may cost are arguments of the reservation.

  \<^bold>\<open>Not modelled\<close>

  The frontend; the generated ORM code (\<open>ent\<close>); HTTP routing, handlers and the translation of
  provider protocols, which are glue around unmodelled wire formats; the choice of upstream accounts;
  schedulers and goroutines around the modelled rounds; logs, metrics, emails and caches whose failure
  is ignored. The spool of captured requests is a protocol of files and directory syncs and the worker
  of image batches drives external providers: both rest on the outcome of system and network calls at
  every line, and only their interfaces (the sink of the capture server, the holds of a batch) are
  modelled. Of the modelled files, listing and statistics queries, the price table itself, and the
  costs of images, videos and web searches.
\<close>

end
